(* ===== verification/Calendar.thy ===== *)
theory Calendar
  imports Prelude
begin

text \<open>
  The civil calendar of Go's \<^verbatim>\<open>time\<close> package. Days are counted from 1 January of year 1 of
  the proleptic Gregorian calendar, a Monday, which is also Go's zero time. The conversion from a day
  number to a date removes 400, 100, 4 and 1 year cycles in turn, as the package does; a
  location is the offset from UTC, in seconds, that is in force at an instant.

  The lemmas show that the conversion inverts the day count of a date, and how long one has
  to wait at most for a given day of the year or day of the week: eight years less a few days
  are enough for every date, 29 February included.
\<close>

type_synonym Location = "time \<Rightarrow> int"

definition leap :: "int \<Rightarrow> bool" where
  "leap y \<longleftrightarrow> y mod 4 = 0 \<and> (y mod 100 \<noteq> 0 \<or> y mod 400 = 0)"

text \<open>Days before 1 January of a year, and days before the first of a month.\<close>

definition days_before_year :: "int \<Rightarrow> int" where
  "days_before_year y = 365 * (y - 1) + (y - 1) div 4 - (y - 1) div 100 + (y - 1) div 400"

definition month_days :: "int \<Rightarrow> int \<Rightarrow> int" where
  "month_days y m =
     (if m = 2 then (if leap y then 29 else 28) else if m \<in> {4, 6, 9, 11} then 30 else 31)"

definition days_before_month :: "int \<Rightarrow> int \<Rightarrow> int" where
  "days_before_month y m =
     (if m \<le> 1 then 0 else if m = 2 then 31 else if m = 3 then 59 else if m = 4 then 90
      else if m = 5 then 120 else if m = 6 then 151 else if m = 7 then 181 else if m = 8 then 212
      else if m = 9 then 243 else if m = 10 then 273 else if m = 11 then 304
      else if m = 12 then 334 else 365)
     + (if 2 < m \<and> leap y then 1 else 0)"

definition day_number :: "int \<Rightarrow> int \<Rightarrow> int \<Rightarrow> int" where
  "day_number y m d = days_before_year y + days_before_month y m + (d - 1)"

definition year_yday :: "int \<Rightarrow> int \<times> int" where
  "year_yday n =
     (let n400 = n div 146097; r400 = n mod 146097;
          n100 = min 3 (r400 div 36524); r100 = r400 - 36524 * n100;
          n4 = r100 div 1461; r4 = r100 mod 1461;
          n1 = min 3 (r4 div 365)
      in (400 * n400 + 100 * n100 + 4 * n4 + n1 + 1, r4 - 365 * n1))"

definition month_day :: "int \<Rightarrow> int \<Rightarrow> int \<times> int" where
  "month_day y yday =
     (let m = (if yday < days_before_month y 2 then 1 else if yday < days_before_month y 3 then 2
               else if yday < days_before_month y 4 then 3 else if yday < days_before_month y 5 then 4
               else if yday < days_before_month y 6 then 5 else if yday < days_before_month y 7 then 6
               else if yday < days_before_month y 8 then 7 else if yday < days_before_month y 9 then 8
               else if yday < days_before_month y 10 then 9 else if yday < days_before_month y 11 then 10
               else if yday < days_before_month y 12 then 11 else 12)
      in (m, yday - days_before_month y m + 1))"

definition date_of_day :: "int \<Rightarrow> int \<times> int \<times> int" where
  "date_of_day n = (case year_yday n of (y, yday) \<Rightarrow> (y, month_day y yday))"

text \<open>Reading an instant in a location: \<^verbatim>\<open>Minute\<close>, \<^verbatim>\<open>Hour\<close>, \<^verbatim>\<open>Day\<close>, \<^verbatim>\<open>Month\<close>, \<^verbatim>\<open>Weekday\<close>.\<close>

definition local_seconds :: "Location \<Rightarrow> time \<Rightarrow> int" where
  "local_seconds loc t = t div second + loc t"

definition local_day :: "Location \<Rightarrow> time \<Rightarrow> int" where
  "local_day loc t = local_seconds loc t div 86400"

definition t_Minute :: "Location \<Rightarrow> time \<Rightarrow> int" where
  "t_Minute loc t = local_seconds loc t mod 3600 div 60"

definition t_Hour :: "Location \<Rightarrow> time \<Rightarrow> int" where
  "t_Hour loc t = local_seconds loc t mod 86400 div 3600"

definition t_Day :: "Location \<Rightarrow> time \<Rightarrow> int" where
  "t_Day loc t = snd (snd (date_of_day (local_day loc t)))"

definition t_Month :: "Location \<Rightarrow> time \<Rightarrow> int" where
  "t_Month loc t = fst (snd (date_of_day (local_day loc t)))"

definition t_Weekday :: "Location \<Rightarrow> time \<Rightarrow> int" where
  "t_Weekday loc t = (local_day loc t + 1) mod 7"

text \<open>\<^verbatim>\<open>t.Truncate(time.Minute)\<close> rounds down to whole minutes since the zero time.\<close>

definition truncate_minute :: "time \<Rightarrow> time" where
  "truncate_minute t = t - t mod minute"

section \<open>The conversion inverts the day count\<close>

lemma mod_shift: "x = a + m * b \<Longrightarrow> x mod m = a mod (m :: int)"
  by simp

lemma leap_cycles:
  assumes "0 \<le> c" "c < 4" "0 \<le> q" "q < 25" "0 \<le> r" "r < 4"
  shows "leap (400 * k + 100 * c + 4 * q + r + 1) \<longleftrightarrow> r = 3 \<and> (q = 24 \<longrightarrow> c = 3)"
proof -
  let ?y = "400 * k + 100 * c + 4 * q + r + 1"
  have 4: "?y mod 4 = (r + 1) mod 4" by (rule mod_shift [of _ _ _ "100 * k + 25 * c + q"]) simp
  have 100: "?y mod 100 = (4 * q + r + 1) mod 100" by (rule mod_shift [of _ _ _ "4 * k + c"]) simp
  have 400: "?y mod 400 = (100 * c + 4 * q + r + 1) mod 400" by (rule mod_shift [of _ _ _ k]) simp
  show ?thesis
  proof (cases "r = 3")
    case True
    have "(4 * q + r + 1) mod 100 = 0 \<longleftrightarrow> q = 24"
    proof (cases "q = 24")
      case False
      then have "(4 * q + r + 1) mod 100 = 4 * q + r + 1" using assms True by (intro mod_pos_pos_trivial) auto
      then show ?thesis using False assms by auto
    qed (simp add: True)
    moreover have "(100 * c + 4 * q + r + 1) mod 400 = 0 \<longleftrightarrow> c = 3" if "q = 24"
    proof (cases "c = 3")
      case False
      then have "(100 * c + 4 * q + r + 1) mod 400 = 100 * c + 4 * q + r + 1"
        using assms True that by (intro mod_pos_pos_trivial) auto
      then show ?thesis using False assms that by auto
    qed (simp add: True that)
    ultimately show ?thesis unfolding leap_def 4 100 400 using True by auto
  next
    case False
    then have "(r + 1) mod 4 = r + 1" using assms by (intro mod_pos_pos_trivial) auto
    then show ?thesis unfolding leap_def 4 using False assms by simp
  qed
qed

lemma days_before_year_cycles:
  assumes "0 \<le> c" "c < 4" "0 \<le> q" "q < 25" "0 \<le> r" "r < 4"
  shows "days_before_year (400 * k + 100 * c + 4 * q + r + 1)
         = 146097 * k + 36524 * c + 1461 * q + 365 * r"
proof -
  let ?y = "400 * k + 100 * c + 4 * q + r"
  have "?y div 4 = 100 * k + 25 * c + q" using assms by linarith
  moreover have "?y div 100 = 4 * k + c" using assms by linarith
  moreover have "?y div 400 = k" using assms by linarith
  ultimately show ?thesis by (simp add: days_before_year_def)
qed

text \<open>Every year has one decomposition into cycles.\<close>

lemma year_cycles:
  obtains k c q r where "y = 400 * k + 100 * c + 4 * q + r + (1 :: int)"
    and "0 \<le> c" "c < 4" "0 \<le> q" "q < 25" "0 \<le> r" "r < 4"
proof
  let ?u = "(y - 1) mod 400"
  have u: "0 \<le> ?u" "?u < 400" by simp_all
  have v: "0 \<le> ?u mod 100" "?u mod 100 < 100" by simp_all
  show "y = 400 * ((y - 1) div 400) + 100 * (?u div 100) + 4 * (?u mod 100 div 4) + ?u mod 100 mod 4 + 1"
    using mult_div_mod_eq [of 400 "y - 1"] mult_div_mod_eq [of 100 ?u] mult_div_mod_eq [of 4 "?u mod 100"]
    by linarith
  show "0 \<le> ?u div 100" "?u div 100 < 4" using u by linarith+
  show "0 \<le> ?u mod 100 div 4" "?u mod 100 div 4 < 25" using v by linarith+
  show "0 \<le> ?u mod 100 mod 4" "?u mod 100 mod 4 < 4" by simp_all
qed

lemma days_before_next_year: "days_before_year (y + 1) = days_before_year y + (if leap y then 366 else 365)"
proof -
  obtain k c q r where y: "y = 400 * k + 100 * c + 4 * q + r + 1"
    and b: "0 \<le> c" "c < 4" "0 \<le> q" "q < 25" "0 \<le> r" "r < 4" by (rule year_cycles)
  note this_year = days_before_year_cycles [OF b, of k, folded y] leap_cycles [OF b, of k, folded y]
  consider "r < 3" | "r = 3" "q < 24" | "r = 3" "q = 24" "c < 3" | "r = 3" "q = 24" "c = 3"
    using b by linarith
  then show ?thesis
  proof cases
    case 1
    then show ?thesis
      using days_before_year_cycles [of c q "r + 1" k] b this_year by (simp add: y add.commute)
  next
    case 2
    then show ?thesis
      using days_before_year_cycles [of c "q + 1" 0 k] b this_year by (simp add: y)
  next
    case 3
    then show ?thesis
      using days_before_year_cycles [of "c + 1" 0 0 k] b this_year by (simp add: y)
  next
    case 4
    then show ?thesis
      using days_before_year_cycles [of 0 0 0 "k + 1"] this_year by (simp add: y)
  qed
qed

lemma year_yday_inverse:
  assumes "0 \<le> j" and "j < (if leap y then 366 else 365)"
  shows "year_yday (days_before_year y + j) = (y, j)"
proof -
  obtain k c q r where y: "y = 400 * k + 100 * c + 4 * q + r + 1"
    and b: "0 \<le> c" "c < 4" "0 \<le> q" "q < 25" "0 \<le> r" "r < 4" by (rule year_cycles)
  note dby = days_before_year_cycles [OF b, of k, folded y]
  have j: "j < 365 \<or> j = 365 \<and> r = 3 \<and> (q = 24 \<longrightarrow> c = 3)"
    using assms leap_cycles [OF b, of k, folded y] by (auto split: if_splits)
  let ?n = "days_before_year y + j"
  define r400 where "r400 = 36524 * c + 1461 * q + 365 * r + j"
  define r100 where "r100 = 1461 * q + 365 * r + j"
  define r4 where "r4 = 365 * r + j"
  have r4: "0 \<le> r4" "r4 < 1461" using j b assms(1) by (auto simp: r4_def)
  have r100: "0 \<le> r100" "r100 < 36525" "c \<noteq> 3 \<Longrightarrow> r100 < 36524"
    using j b assms(1) by (auto simp: r100_def)
  have n: "?n = r400 + 146097 * k" by (simp add: dby r400_def)
  have "r400 = r100 + 36524 * c" by (simp add: r400_def r100_def)
  then have "0 \<le> r400" "r400 < 146097" using r100 b by auto
  then have n400: "?n div 146097 = k" "?n mod 146097 = r400" unfolding n by simp_all
  have n100: "min 3 (r400 div 36524) = c"
  proof (cases "r100 = 36524")
    case True
    then have "c = 3" using r100 by auto
    with True show ?thesis by (simp add: r400_def r100_def)
  next
    case False
    then have "r400 div 36524 = c" using r100 \<open>r400 = r100 + 36524 * c\<close> by simp
    then show ?thesis using b by simp
  qed
  have n4: "r100 div 1461 = q" "r100 mod 1461 = r4"
  proof -
    have "r100 = r4 + 1461 * q" by (simp add: r100_def r4_def)
    then show "r100 div 1461 = q" "r100 mod 1461 = r4" using r4 by simp_all
  qed
  have n1: "min 3 (r4 div 365) = r"
  proof (cases "j = 365")
    case True
    then show ?thesis using j by (simp add: r4_def)
  next
    case False
    then have "r4 div 365 = r" using j assms(1) by (simp add: r4_def)
    then show ?thesis using b by simp
  qed
  have "r400 - 36524 * c = r100" by (simp add: r400_def r100_def)
  moreover have "r4 - 365 * r = j" by (simp add: r4_def)
  ultimately show ?thesis
    by (simp only: year_yday_def Let_def n400 n100 n4 n1) (simp add: y)
qed

lemma months [simp]:
  "days_before_month y 1 = 0" "days_before_month y 2 = 31"
  "days_before_month y 3 = (if leap y then 60 else 59)" "days_before_month y 4 = (if leap y then 91 else 90)"
  "days_before_month y 5 = (if leap y then 121 else 120)" "days_before_month y 6 = (if leap y then 152 else 151)"
  "days_before_month y 7 = (if leap y then 182 else 181)" "days_before_month y 8 = (if leap y then 213 else 212)"
  "days_before_month y 9 = (if leap y then 244 else 243)" "days_before_month y 10 = (if leap y then 274 else 273)"
  "days_before_month y 11 = (if leap y then 305 else 304)" "days_before_month y 12 = (if leap y then 335 else 334)"
  by (simp_all add: days_before_month_def)

lemma month_cases:
  assumes "1 \<le> m" "m \<le> (12 :: int)"
  shows "m = 1 \<or> m = 2 \<or> m = 3 \<or> m = 4 \<or> m = 5 \<or> m = 6 \<or> m = 7 \<or> m = 8 \<or> m = 9 \<or> m = 10 \<or> m = 11 \<or> m = 12"
  using assms by presburger

lemma month_day_inverse:
  assumes "1 \<le> m" "m \<le> 12" "1 \<le> d" "d \<le> month_days y m"
  shows "month_day y (days_before_month y m + (d - 1)) = (m, d)"
  using month_cases [OF assms(1,2)] assms(3,4)
  by (elim disjE; cases "leap y") (simp_all add: month_day_def month_days_def Let_def)

lemma yday_bounds:
  assumes "1 \<le> m" "m \<le> 12" "1 \<le> d" "d \<le> month_days y m"
  shows "0 \<le> days_before_month y m + (d - 1)"
    and "days_before_month y m + (d - 1) < (if leap y then 366 else 365)"
  using month_cases [OF assms(1,2)] assms(3,4)
  by (elim disjE; cases "leap y"; simp add: month_days_def)+

lemma date_of_day_number:
  assumes "1 \<le> m" "m \<le> 12" "1 \<le> d" "d \<le> month_days y m"
  shows "date_of_day (day_number y m d) = (y, m, d)"
  using year_yday_inverse [OF yday_bounds [OF assms]] month_day_inverse [OF assms]
  by (simp add: date_of_day_def day_number_def add.assoc)

text \<open>And every day number is the day number of a date.\<close>

lemma year_exists: "\<exists>y. days_before_year y \<le> n \<and> n < days_before_year (y + 1)"
proof -
  define k u where "k = n div 146097" and "u = n mod 146097"
  define c where "c = min 3 (u div 36524)"
  define v where "v = u - 36524 * c"
  define q w where "q = v div 1461" and "w = v mod 1461"
  define r where "r = min 3 (w div 365)"
  define j where "j = w - 365 * r"
  have n: "n = 146097 * k + u" by (simp add: k_def u_def)
  have u: "0 \<le> u" "u < 146097" by (simp_all add: u_def)
  have c: "0 \<le> c" "c < 4" and v: "0 \<le> v" "v < 36525" "v = 36524 \<Longrightarrow> c = 3"
    using u by (auto simp: c_def v_def min_def split: if_splits)
  have vw: "v = 1461 * q + w" by (simp add: q_def w_def)
  have w: "0 \<le> w" "w < 1461" by (simp_all add: w_def)
  have q: "0 \<le> q" "q < 25" using v vw w by linarith+
  have r: "0 \<le> r" "r < 4" and j: "0 \<le> j" "j < 366" "j = 365 \<Longrightarrow> r = 3 \<and> w = 1460"
    using w by (auto simp: r_def j_def min_def split: if_splits)
  let ?y = "400 * k + 100 * c + 4 * q + r + 1"
  have "n = days_before_year ?y + j"
    using n vw by (simp add: days_before_year_cycles c q r v_def j_def)
  moreover have "j < (if leap ?y then 366 else 365)"
  proof (cases "j = 365")
    case True
    then have "leap ?y" unfolding leap_cycles [OF c q r] using j(3) v(3) vw by auto
    then show ?thesis using j(2) by simp
  qed (use j(2) in auto)
  ultimately show ?thesis
    using j(1) days_before_next_year [of ?y] by (intro exI [of _ ?y]) auto
qed

lemma month_exists:
  assumes "0 \<le> j" "j < (if leap y then 366 else 365)"
  obtains m d where "1 \<le> m" "m \<le> 12" "1 \<le> d" "d \<le> month_days y m" "j = days_before_month y m + (d - 1)"
proof -
  define m where "m = fst (month_day y j)"
  define d where "d = snd (month_day y j)"
  have "1 \<le> m \<and> m \<le> 12 \<and> 1 \<le> d \<and> d \<le> month_days y m \<and> j = days_before_month y m + (d - 1)"
    using assms
    by (cases "leap y") (simp_all add: m_def d_def month_day_def month_days_def Let_def)
  then show thesis using that by blast
qed

lemma day_number_exists:
  obtains y m d where "1 \<le> m" "m \<le> 12" "1 \<le> d" "d \<le> month_days y m" "n = day_number y m d"
proof -
  obtain y where y: "days_before_year y \<le> n" "n < days_before_year (y + 1)" using year_exists by blast
  then have "0 \<le> n - days_before_year y" "n - days_before_year y < (if leap y then 366 else 365)"
    using days_before_next_year [of y] by (auto split: if_splits)
  then obtain m d where "1 \<le> m" "m \<le> 12" "1 \<le> d" "d \<le> month_days y m"
    "n - days_before_year y = days_before_month y m + (d - 1)" by (rule month_exists)
  then show thesis using that by (simp add: day_number_def)
qed

lemma date_of_day_range:
  assumes "date_of_day n = (y, m, d)"
  shows "1 \<le> m" "m \<le> 12" "1 \<le> d" "d \<le> month_days y m" "n = day_number y m d"
proof -
  obtain y' m' d' where *: "1 \<le> m'" "m' \<le> 12" "1 \<le> d'" "d' \<le> month_days y' m'" "n = day_number y' m' d'"
    by (rule day_number_exists)
  have "y' = y" "m' = m" "d' = d" using date_of_day_number [OF *(1-4)] assms *(5) by simp_all
  with * show "1 \<le> m" "m \<le> 12" "1 \<le> d" "d \<le> month_days y m" "n = day_number y m d" by simp_all
qed

section \<open>How long to wait for a date\<close>

lemma days_before_year_step: "days_before_year y + 365 \<le> days_before_year (y + 1)"
  "days_before_year (y + 1) \<le> days_before_year y + 366"
  by (simp_all add: days_before_next_year)

text \<open>A date other than 29 February comes in the next year, at most two years ahead.\<close>

lemma next_year_date:
  assumes "date_of_day n = (y, m0, d0)" and "1 \<le> m" "m \<le> 12" "1 \<le> d" "d \<le> month_days (y + 1) m"
  shows "\<exists>n' > n. n' \<le> n + 732 \<and> date_of_day n' = (y + 1, m, d)"
proof (intro exI conjI)
  let ?n' = "day_number (y + 1) m d"
  note r = date_of_day_range [OF assms(1)]
  note b = yday_bounds [OF assms(2-5)] and b0 = yday_bounds [OF r(1-4)]
  show "n < ?n'" using b(1) b0(2) r(5) by (auto simp: day_number_def days_before_next_year split: if_splits)
  show "?n' \<le> n + 732"
    using b(2) b0(1) r(5) days_before_year_step [of y] by (auto simp: day_number_def split: if_splits)
  show "date_of_day ?n' = (y + 1, m, d)" using assms(2-5) by (rule date_of_day_number)
qed

lemma leap_gap:
  "leap (y + 1) \<or> leap (y + 2) \<or> leap (y + 3) \<or> leap (y + 4) \<or> leap (y + 5) \<or> leap (y + 6) \<or> leap (y + 7)
   \<or> (leap y \<and> leap (y + 8))"
proof -
  define z where "z = (if y mod 4 = 0 then y else y + 4 - y mod 4)"
  have z4: "z mod 4 = 0" unfolding z_def by presburger
  have not100: "(x + 4) mod 100 \<noteq> 0" "(x + 8) mod 100 \<noteq> 0" if "x mod 100 = 0" for x :: int
    using that by presburger+
  have l: "leap x" if "x mod 4 = 0" "x mod 100 \<noteq> 0" for x using that by (simp add: leap_def)
  have cyc: "(z + 4) mod 4 = 0" "(z + 8) mod 4 = 0" using z4 by presburger+
  show ?thesis
  proof (cases "y mod 4 = 0")
    case True
    then have zy: "z = y" by (simp add: z_def)
    show ?thesis
    proof (cases "(y + 4) mod 100 = 0")
      case True
      have "(y + 4 - 4) mod 100 \<noteq> 0" "(y + 8) mod 100 \<noteq> 0" using True by presburger+
      then have "leap y" "leap (y + 8)" using l [of y] l [of "y + 8"] z4 cyc zy by simp_all
      then show ?thesis by simp
    next
      case False
      then have "leap (y + 4)" using l [of "y + 4"] cyc zy by simp
      then show ?thesis by simp
    qed
  next
    case False
    then have z: "z = y + 1 \<or> z = y + 2 \<or> z = y + 3" unfolding z_def by presburger
    have "leap z \<or> leap (z + 4)" using l [of z] l [of "z + 4"] z4 cyc not100(1) [of z] by argo
    with z show ?thesis by (auto simp: add.assoc)
  qed
qed

lemma days_before_year_far:
  assumes "0 \<le> k"
  shows "days_before_year (y + k) \<le> days_before_year y + 366 * k"
  using assms
proof (induction k rule: int_ge_induct)
  case (step k)
  then show ?case using days_before_year_step(2) [of "y + k"] by (simp add: add.assoc)
qed simp

text \<open>29 February is at most 2921 days away.\<close>

lemma next_leap_day:
  assumes "date_of_day n = (y, m0, d0)"
  shows "\<exists>n' > n. n' \<le> n + 2921 \<and> (\<exists>y'. date_of_day n' = (y', 2, 29))"
proof -
  note r = date_of_day_range [OF assms] and b0 = yday_bounds [OF date_of_day_range(1-4) [OF assms]]
  let ?feb = "\<lambda>y'. day_number y' 2 29"
  have feb: "?feb y' = days_before_year y' + 59" for y' by (simp add: day_number_def)
  have hit: "\<exists>y''. date_of_day (?feb y') = (y'', 2, 29)" if "leap y'" for y'
    using date_of_day_number [of 2 29 y'] that by (simp add: month_days_def)
  have lo: "days_before_year y \<le> n" "n < days_before_year (y + 1)"
    using b0 r(5) days_before_next_year [of y] by (auto simp: day_number_def split: if_splits)
  have near: ?thesis if "leap (y + k)" "1 \<le> k" "k \<le> 7" for k
  proof (intro exI conjI)
    have "days_before_year (y + 1 + (k - 1)) \<le> days_before_year (y + 1) + 366 * (k - 1)"
      using that by (intro days_before_year_far) simp
    then show "?feb (y + k) \<le> n + 2921" using lo(1) days_before_year_step(2) [of y] that by (simp add: feb)
    have "days_before_year (y + 1) \<le> days_before_year (y + k)"
      using that(2)
    proof (induction k rule: int_ge_induct)
      case (step k)
      then show ?case using days_before_year_step(1) [of "y + k"] by (simp add: add.assoc)
    qed simp
    then show "n < ?feb (y + k)" using lo(2) by (simp add: feb)
    show "date_of_day (?feb (y + k)) = (fst (date_of_day (?feb (y + k))), 2, 29)" using hit [OF that(1)] by auto
  qed
  show ?thesis
  proof (cases "\<exists>k. leap (y + k) \<and> 1 \<le> k \<and> k \<le> 7")
    case False
    then have no: "\<And>k. 1 \<le> k \<Longrightarrow> k \<le> 7 \<Longrightarrow> \<not> leap (y + k)" by blast
    note no = no [of 1, simplified] no [of 2, simplified] no [of 3, simplified] no [of 4, simplified]
      no [of 5, simplified] no [of 6, simplified] no [of 7, simplified]
    have y: "leap y" "leap (y + 8)" using leap_gap [of y] no by blast+
    show ?thesis
    proof (cases "n < ?feb y")
      case True
      then show ?thesis using hit [OF y(1)] lo(1) by (intro exI [of _ "?feb y"]) (auto simp: feb)
    next
      case False
      have "days_before_year (y + 8) = days_before_year y + 2921"
        using no y days_before_next_year [of y] days_before_next_year [of "y + 1"] days_before_next_year [of "y + 2"]
          days_before_next_year [of "y + 3"] days_before_next_year [of "y + 4"] days_before_next_year [of "y + 5"]
          days_before_next_year [of "y + 6"] days_before_next_year [of "y + 7"]
        by (simp add: add.assoc)
      then have "n < ?feb (y + 8)" "?feb (y + 8) \<le> n + 2921"
        using False lo(2) days_before_year_step(2) [of y] by (simp_all add: feb)
      then show ?thesis using hit [OF y(2)] by blast
    qed
  qed (use near in blast)
qed

text \<open>So every day of the year that exists in some year comes within 2921 days.\<close>

lemma date_comes:
  assumes "1 \<le> m" "m \<le> 12" "1 \<le> d"
    and "d \<le> (if m = 2 then 29 else if m \<in> {4, 6, 9, 11} then 30 else 31)"
  shows "\<exists>n' > n. n' \<le> n + 2921 \<and> (\<exists>y'. date_of_day n' = (y', m, d))"
proof -
  obtain y m0 d0 where n: "date_of_day n = (y, m0, d0)" by (metis prod_cases3)
  show ?thesis
  proof (cases "m = 2 \<and> d = 29")
    case True
    then show ?thesis using next_leap_day [OF n] by simp
  next
    case False
    then have "d \<le> month_days (y + 1) m" using assms(4) by (auto simp: month_days_def split: if_splits)
    from next_year_date [OF n assms(1-3) this]
    obtain n' where "n' > n" "n' \<le> n + 732" "date_of_day n' = (y + 1, m, d)" by blast
    then show ?thesis by (intro exI [of _ n']) auto
  qed
qed

text \<open>In the first week of any month each day of the week occurs.\<close>

lemma weekday_comes:
  assumes "1 \<le> m" "m \<le> 12" "0 \<le> w" "w \<le> 6"
  shows "\<exists>n' > n. n' \<le> n + 2921 \<and> fst (snd (date_of_day n')) = m \<and> (n' + 1) mod 7 = w"
proof -
  obtain y m0 d0 where n: "date_of_day n = (y, m0, d0)" by (metis prod_cases3)
  let ?f = "day_number (y + 1) m 1"
  let ?d = "1 + (w - (?f + 1)) mod 7"
  have "(w - (?f + 1)) mod 7 < 7" "0 \<le> (w - (?f + 1)) mod 7" by simp_all
  then have d: "1 \<le> ?d" "?d \<le> month_days (y + 1) m" by (auto simp: month_days_def)
  obtain n' where n': "n' > n" "n' \<le> n + 732" "date_of_day n' = (y + 1, m, ?d)"
    using next_year_date [OF n assms(1,2) d] by blast
  have "n' = day_number (y + 1) m ?d" by (rule date_of_day_range(5) [OF n'(3)])
  then have "n' + 1 = (w - (?f + 1)) mod 7 + (?f + 1)" by (simp add: day_number_def)
  then have "(n' + 1) mod 7 = ((w - (?f + 1)) + (?f + 1)) mod 7" by (simp only: mod_add_left_eq)
  then have "(n' + 1) mod 7 = w" using assms(3,4) by simp
  with n' show ?thesis by (intro exI [of _ n']) auto
qed

end
