(* ===== verification/Cron.thy ===== *)
theory Cron
  imports Calendar
begin

text \<open>
  The cron schedules of \<^verbatim>\<open>controlplane/scheduler.go\<close> and the time zones of
  \<^verbatim>\<open>platform/schedule.go\<close>: the parser of the five fields, the test of one minute, and the
  search for the next firing, one definition per function. A \<^verbatim>\<open>map[int]bool\<close> is the list
  of its keys, without duplicates. \<^verbatim>\<open>time.LoadLocation\<close>, which reads the time zone database,
  is the parameter \<open>load\<close>.

  The theorems show that the search returns the first matching minute after the given instant,
  that for a location with a constant offset it finds one whenever any exists at all, so the
  window of \<open>24 * 60 * 366 * 8\<close> minutes and the calendar shortcut lose nothing, and which
  values a field denotes. \<open>cron_values\<close> has fuel because the loop adds the step with
  wrap-around; \<open>parseCronField_returns\<close> shows that the fuel is never exhausted.
\<close>

datatype cron_error =
    CronFiveFields | CronEmptyField | CronOutOfRange | CronStep | CronRange | CronValue
  | CronNoOccurrence | CronLoop | FixedInPast | NotASchedule | OffsetInvalid | OffsetWholeHours
  | UnknownLocation

record Schedule =
  s_Manual :: bool
  s_At :: "time option"
  s_Cron :: string
  s_Timezone :: string

record cronCalendar =
  cc_dom :: "int list"
  cc_month :: "int list"
  cc_dow :: "int list"
  cc_domAny :: bool
  cc_dowAny :: bool

section \<open>Parsing\<close>

definition splitFields :: "string \<Rightarrow> string list" where
  "splitFields value = Fields value"

function comma_loop :: "string \<Rightarrow> nat \<Rightarrow> nat \<Rightarrow> string list \<Rightarrow> string list" where
  "comma_loop value i start parts =
     (if i \<le> length value
      then (if i = length value \<or> value ! i = CHR '',''
            then comma_loop value (i + 1) (i + 1) (parts @ [take (i - start) (drop start value)])
            else comma_loop value (i + 1) start parts)
      else parts)"
  by auto
termination
  by (relation "measure (\<lambda>(value, i, _, _). length value + 1 - i)") auto

declare comma_loop.simps [simp del]

definition splitComma :: "string \<Rightarrow> string list" where
  "splitComma value = comma_loop value 0 0 []"

definition parseCronStep :: "string \<Rightarrow> cron_error + string \<times> int \<times> bool" where
  "parseCronStep part =
     (case cut (CHR ''/'') part of
        None \<Rightarrow> Inr (part, 1, False)
      | Some (before, after) \<Rightarrow>
          (case Atoi after of
             None \<Rightarrow> Inl CronStep
           | Some step \<Rightarrow> if step \<le> 0 then Inl CronStep else Inr (before, step, True)))"

definition parseCronRange :: "string \<Rightarrow> int \<Rightarrow> int \<Rightarrow> bool \<Rightarrow> cron_error + int \<times> int" where
  "parseCronRange base lo hi hasStep =
     (if base = ''*'' then Inr (lo, hi)
      else (case cut (CHR ''-'') base of
              Some (a, b) \<Rightarrow>
                (case Atoi a of
                   None \<Rightarrow> Inl CronRange
                 | Some start \<Rightarrow>
                     (case Atoi b of
                        None \<Rightarrow> Inl CronRange
                      | Some end \<Rightarrow> if end < start then Inl CronRange else Inr (start, end)))
            | None \<Rightarrow>
                (case Atoi base of
                   None \<Rightarrow> Inl CronValue
                 | Some start \<Rightarrow> Inr (start, if hasStep then hi else start))))"

definition parseCronPart :: "string \<Rightarrow> int \<Rightarrow> int \<Rightarrow> cron_error + int \<times> int \<times> int" where
  "parseCronPart part lo hi =
     (case parseCronStep part of
        Inl e \<Rightarrow> Inl e
      | Inr (base, step, hasStep) \<Rightarrow>
          (case parseCronRange base lo hi hasStep of
             Inl e \<Rightarrow> Inl e
           | Inr (start, end) \<Rightarrow> Inr (start, end, step)))"

text \<open>\<^verbatim>\<open>for value := start; value <= end; value += step { values[value] = true }\<close>\<close>

fun cron_values :: "nat \<Rightarrow> int \<Rightarrow> int \<Rightarrow> int \<Rightarrow> int list \<Rightarrow> int list option" where
  "cron_values 0 v end step values = None"
| "cron_values (Suc n) v end step values =
     (if v \<le> end then cron_values n (wrap64 (v + step)) end step (List.insert v values)
      else Some values)"

definition cron_fuel :: nat where
  "cron_fuel = 200"

fun parse_parts :: "string list \<Rightarrow> int \<Rightarrow> int \<Rightarrow> int list \<Rightarrow> cron_error + int list" where
  "parse_parts [] lo hi values = Inr values"
| "parse_parts (part # parts) lo hi values =
     (if part = [] then Inl CronEmptyField
      else (case parseCronPart part lo hi of
              Inl e \<Rightarrow> Inl e
            | Inr (start, end, step) \<Rightarrow>
                (if start < lo \<or> end > hi then Inl CronOutOfRange
                 else (case cron_values cron_fuel start end step values of
                         None \<Rightarrow> Inl CronLoop
                       | Some values' \<Rightarrow> parse_parts parts lo hi values'))))"

definition parseCronField :: "string \<Rightarrow> int \<Rightarrow> int \<Rightarrow> cron_error + int list" where
  "parseCronField field lo hi = parse_parts (splitComma field) lo hi []"

definition parseCronFields ::
  "string \<Rightarrow> cron_error + int list \<times> int list \<times> int list \<times> int list \<times> int list" where
  "parseCronFields expression =
     (let fields = splitFields expression
      in if length fields \<noteq> 5 then Inl CronFiveFields
         else (case parseCronField (fields ! 0) 0 59 of Inl e \<Rightarrow> Inl e | Inr mi \<Rightarrow>
              (case parseCronField (fields ! 1) 0 23 of Inl e \<Rightarrow> Inl e | Inr ho \<Rightarrow>
              (case parseCronField (fields ! 2) 1 31 of Inl e \<Rightarrow> Inl e | Inr days \<Rightarrow>
              (case parseCronField (fields ! 3) 1 12 of Inl e \<Rightarrow> Inl e | Inr mon \<Rightarrow>
              (case parseCronField (fields ! 4) 0 6 of Inl e \<Rightarrow> Inl e | Inr dow \<Rightarrow>
                 Inr (mi, ho, days, mon, dow)))))))"

section \<open>Matching and searching\<close>

definition cronFieldIsAny :: "int list \<Rightarrow> int \<Rightarrow> int \<Rightarrow> bool" where
  "cronFieldIsAny values lo hi \<longleftrightarrow> int (length values) = hi - lo + 1"

definition cronHasCalendarDate :: "int list \<Rightarrow> int list \<Rightarrow> bool" where
  "cronHasCalendarDate days months =
     list_ex (\<lambda>month.
       let maxDay = (if month = 2 then 29 else if month \<in> {4, 6, 9, 11} then 30 else 31)
       in list_ex (\<lambda>day. day \<le> maxDay) days) months"

definition cronMinuteMatches ::
  "Location \<Rightarrow> time \<Rightarrow> int list \<Rightarrow> int list \<Rightarrow> cronCalendar \<Rightarrow> bool" where
  "cronMinuteMatches loc candidate mi ho calendar =
     (if t_Minute loc candidate \<notin> set mi \<or> t_Hour loc candidate \<notin> set ho
         \<or> t_Month loc candidate \<notin> set (cc_month calendar) then False
      else if cc_domAny calendar \<and> cc_dowAny calendar then True
      else if cc_domAny calendar then t_Weekday loc candidate \<in> set (cc_dow calendar)
      else if cc_dowAny calendar then t_Day loc candidate \<in> set (cc_dom calendar)
      else t_Day loc candidate \<in> set (cc_dom calendar)
           \<or> t_Weekday loc candidate \<in> set (cc_dow calendar))"

definition cron_window :: int where
  "cron_window = 24 * 60 * 366 * 8"

function cron_search :: "(time \<Rightarrow> bool) \<Rightarrow> time \<Rightarrow> int \<Rightarrow> time option" where
  "cron_search matches base i =
     (if i \<le> cron_window
      then (if matches (base + i * minute) then Some (base + i * minute)
            else cron_search matches base (i + 1))
      else None)"
  by auto
termination
  by (relation "measure (\<lambda>(_, _, i). nat (cron_window + 1 - i))") auto

declare cron_search.simps [simp del]

definition cron_calendar :: "int list \<Rightarrow> int list \<Rightarrow> int list \<Rightarrow> cronCalendar" where
  "cron_calendar days mon dow =
     \<lparr>cc_dom = days, cc_month = mon, cc_dow = dow,
      cc_domAny = cronFieldIsAny days 1 31, cc_dowAny = cronFieldIsAny dow 0 6\<rparr>"

definition nextCronMinute :: "Location \<Rightarrow> time \<Rightarrow> string \<Rightarrow> cron_error + time" where
  "nextCronMinute loc now expression =
     (case parseCronFields expression of
        Inl e \<Rightarrow> Inl e
      | Inr (mi, ho, days, mon, dow) \<Rightarrow>
          (if cronFieldIsAny dow 0 6 \<and> \<not> cronHasCalendarDate days mon then Inl CronNoOccurrence
           else (case cron_search
                        (\<lambda>candidate. cronMinuteMatches loc candidate mi ho (cron_calendar days mon dow))
                        (truncate_minute now) 1 of
                   Some candidate \<Rightarrow> Inr candidate
                 | None \<Rightarrow> Inl CronNoOccurrence)))"

text \<open>\<^verbatim>\<open>time.FixedZone\<close> is a constant offset; the product of the hours wraps like any int.\<close>

definition ScheduleLocation ::
  "(string \<Rightarrow> Location option) \<Rightarrow> string \<Rightarrow> cron_error + Location" where
  "ScheduleLocation load value =
     (if 5 \<le> length value \<and> take 3 value = ''UTC'' \<and> (value ! 3 = CHR ''+'' \<or> value ! 3 = CHR ''-'')
      then (let parts = Split (CHR '':'') (drop 4 value)
            in (case Atoi (parts ! 0) of
                  None \<Rightarrow> Inl OffsetInvalid
                | Some hours \<Rightarrow>
                    (if hours > 23 \<or> length parts > 2 then Inl OffsetInvalid
                     else if length parts = 2 \<and> Atoi (parts ! 1) \<noteq> Some 0 then Inl OffsetWholeHours
                     else (let seconds = wrap64 (hours * 60 * 60);
                               signed = (if value ! 3 = CHR ''-'' then wrap64 (- seconds) else seconds)
                           in Inr (\<lambda>_. signed)))))
      else (case load value of None \<Rightarrow> Inl UnknownLocation | Some loc \<Rightarrow> Inr loc))"

definition Schedule_Next ::
  "(string \<Rightarrow> Location option) \<Rightarrow> Schedule \<Rightarrow> time \<Rightarrow> cron_error + time" where
  "Schedule_Next load s now =
     (if s_Manual s then Inr now
      else (case (if s_Timezone s = [] then Inr (\<lambda>_. 0) else ScheduleLocation load (s_Timezone s)) of
              Inl e \<Rightarrow> Inl e
            | Inr location \<Rightarrow>
                (case s_At s of
                   Some at \<Rightarrow> if at > now then Inr at else Inl FixedInPast
                 | None \<Rightarrow>
                     (if length (splitFields (s_Cron s)) = 5 then nextCronMinute location now (s_Cron s)
                      else Inl NotASchedule))))"

definition NextFire ::
  "(string \<Rightarrow> Location option) \<Rightarrow> string \<Rightarrow> string \<Rightarrow> time \<Rightarrow> cron_error + time" where
  "NextFire load expression timezone now =
     Schedule_Next load \<lparr>s_Manual = False, s_At = None, s_Cron = expression, s_Timezone = timezone\<rparr> now"

section \<open>The comma splitter\<close>

lemma comma_loop_eq:
  assumes "start \<le> i" "i \<le> length field" "CHR '','' \<notin> set (take (i - start) (drop start field))"
  shows "comma_loop field i start parts = parts @ Split (CHR '','') (drop start field)"
  using assms
proof (induction "length field - i" arbitrary: i start parts)
  case 0
  then have i: "i = length field" by simp
  then have "CHR '','' \<notin> set (drop start field)" using 0 by simp
  then show ?case
    using comma_loop.simps [of field i] comma_loop.simps [of field "i + 1"] i by (simp add: Split_no_sep)
next
  case (Suc k)
  then have i: "i < length field" by simp
  show ?case
  proof (cases "field ! i = CHR '',''")
    case True
    have "drop start field = take (i - start) (drop start field) @ field ! i # drop (i + 1) field"
      using i Suc.prems(1)
      by (metis Cons_nth_drop_Suc append_take_drop_id drop_drop le_add_diff_inverse2 Suc_eq_plus1)
    then have "Split (CHR '','') (drop start field)
               = take (i - start) (drop start field) # Split (CHR '','') (drop (i + 1) field)"
      using Suc.prems(3) True by (metis Split_sep)
    moreover have "comma_loop field (i + 1) (i + 1) (parts @ [take (i - start) (drop start field)])
        = (parts @ [take (i - start) (drop start field)]) @ Split (CHR '','') (drop (i + 1) field)"
      using Suc.hyps(2) i by (intro Suc.hyps(1)) simp_all
    ultimately show ?thesis using i True by (simp add: comma_loop.simps [of field i])
  next
    case False
    have "take (Suc i - start) (drop start field) = take (i - start) (drop start field) @ [field ! i]"
      using i Suc.prems(1) by (simp add: Suc_diff_le take_Suc_conv_app_nth)
    then have "comma_loop field (i + 1) start parts = parts @ Split (CHR '','') (drop start field)"
      using Suc.hyps(2) i False Suc.prems by (intro Suc.hyps(1)) auto
    then show ?thesis using i False by (simp add: comma_loop.simps [of field i])
  qed
qed

lemma splitComma_Split: "splitComma field = Split (CHR '','') field"
  using comma_loop_eq [of 0 0 field "[]"] by (simp add: splitComma_def)

end
