(* ===== verification/TimeFormat.thy ===== *)
theory TimeFormat
  imports Calendar
begin

text \<open>
  The textual form of an instant that the stores use in keys and columns. The fraction of a second
  has its trailing zeros removed, so the order of the texts is not always the order of the instants.
\<close>

text \<open>\<^verbatim>\<open>t.UTC().Format(time.RFC3339Nano)\<close>\<close>

definition pad :: "nat \<Rightarrow> int \<Rightarrow> string" where
  "pad n i = (let s = show_nat (nat i) in replicate (n - length s) (CHR ''0'') @ s)"

text \<open>For evaluation: the digits of a number computed on integers.\<close>

function show_pos :: "int \<Rightarrow> string" where
  "show_pos i = (if i < 10 then [digit_char (nat i)] else show_pos (i div 10) @ [digit_char (nat (i mod 10))])"
  by pat_completeness auto
termination by (relation "measure nat") auto

declare show_pos.simps [simp del]

lemma show_nat_pos: "show_nat n = show_pos (int n)"
proof (induction n rule: show_nat.induct)
  case (1 n)
  show ?case
    using 1 by (subst show_nat.simps, subst show_pos.simps) (auto simp: zdiv_int nat_mod_distrib)
qed

lemma pad_code [code]:
  "pad n i = (let s = show_pos (max 0 i) in replicate (n - length s) (CHR ''0'') @ s)"
  by (simp add: pad_def show_nat_pos max_def)

definition format_nanos :: "int \<Rightarrow> string" where
  "format_nanos n = (let s = rev (dropWhile (\<lambda>c. c = CHR ''0'') (rev (pad 9 n))) in if s = [] then [] else CHR ''.'' # s)"

definition rfc3339_nano :: "time \<Rightarrow> string" where
  "rfc3339_nano t =
     (case date_of_day (local_day (\<lambda>_. 0) t) of (y, m, d) \<Rightarrow>
        pad 4 y @ ''-'' @ pad 2 m @ ''-'' @ pad 2 d @ ''T'' @ pad 2 (t_Hour (\<lambda>_. 0) t) @ '':'' @ pad 2 (t_Minute (\<lambda>_. 0) t)
        @ '':'' @ pad 2 (t div second mod 60) @ format_nanos (t mod second) @ ''Z'')"

end
