(* ===== verification/Database.thy ===== *)
theory Database
  imports Complex_Main Prelude "HOL-Library.Product_Lexorder"
begin

text \<open>
  The PostgreSQL tables the run and schedule stores work on (\<^verbatim>\<open>migrations/001_canonical.sql\<close>),
  restricted to the columns the modelled statements read or write, and the small SQL vocabulary
  they are written in. A transaction is a function from the database to an error or a result with
  the new database: an error rolls everything back. Transactions are atomic, so row locks and
  \<^verbatim>\<open>SKIP LOCKED\<close> do not appear; where \<^verbatim>\<open>ORDER BY\<close> leaves the order open, the order of the
  rows in the list stands for it. Primary keys, unique indexes and checks that an insert can
  violate, and the foreign key from an attempt to the registered exit codes, are errors of the insert;
  a foreign key to a row that the same transaction has just read is not repeated.

  A \<^verbatim>\<open>jsonb\<close> column holds its decoded value: arrays of texts as string lists, objects as
  association lists. Values of \<^verbatim>\<open>environment\<close> keep the distinction the decoder makes between
  a JSON string and any other value (its raw text).
\<close>

datatype run_state =
  WAITING | DISPATCHED | RUNNING | RETRY_WAIT | CANCELLING | SUCCEEDED | FAILED | CANCELLED | UNKNOWN

datatype attempt_state =
    A_WAITING | A_DISPATCHED | A_ACCEPTED | A_RUNNING | A_CANCELLING | A_SUCCEEDED | A_FAILED
  | A_CANCELLED | A_UNKNOWN

datatype lease_state = ACTIVE | RELEASED | EXPIRED

datatype outbox_state = PENDING | PUBLISHED | OUTBOX_FAILED

datatype json =
  JNull | JBool bool | JNumber string | JString string | JArray "json list" | JObject "(string \<times> json) list"

datatype env_value = EnvText string | EnvRaw string

datatype secret_column = SecretNull | SecretMap "(string, string) gomap" | SecretInvalid

datatype store_error =
    EIncomplete | ENoRows | EScan | EConstraint | ESession | EFencing | EIllegalTransition | EUnsupportedEvent
  | ELogStream | ELogEmpty | EAmbiguityPolicy | EStorageExhausted | EStorageUnavailable | EPressureUnknown
  | EInvalidTrigger | ENotCreated | EBuilderRequired | EBuildFailed | EOrderEmpty | EUndefinedVariable string
  | EJSON | ERandom | ETimeRequired | EReasonRequired | ESecretDenied | ELogBudget
  | EScheduleInvalid | ETimezoneInvalid | EDeadlineInvalid | ENextRequired | ENextFailed | ENextStuck | ENextEmpty
  | EPanic

record run_row =
  run_id :: string
  run_task_id :: string
  run_task_version_id :: string
  run_schedule_version_id :: "string option"
  run_triggered_by :: "string option"
  run_trigger_type :: string
  run_scheduled_for :: time
  run_globals :: "(string, string) gomap"
  run_start_deadline_at :: "time option"
  run_state :: run_state
  run_state_version :: nat
  run_idempotency_key :: string
  run_retry_not_before :: "time option"
  run_cancellation_requested_at :: "time option"
  run_cancellation_reason :: "string option"
  run_completed_at :: "time option"
  run_created_at :: time
  run_updated_at :: time

record attempt_row =
  att_id :: string
  att_run_id :: string
  att_number :: int
  att_runner_id :: string
  att_session_id :: string
  att_state :: attempt_state
  att_state_version :: nat
  att_last_sequence :: int
  att_lease_token :: string
  att_fencing_token :: int
  att_lease_not_after :: time
  att_digest :: string
  att_dispatched_at :: "time option"
  att_accepted_at :: "time option"
  att_started_at :: "time option"
  att_last_heartbeat_at :: "time option"
  att_cancel_requested_at :: "time option"
  att_finished_at :: "time option"
  att_exit_code :: "int option"
  att_termination_reason :: "string option"
  att_result :: "json option"
  att_max_memory :: int
  att_average_memory :: int

record task_row =
  task_id :: string
  task_current_version_id :: "string option"
  task_name :: string
  task_is_deleted :: bool

record task_version_row =
  tv_id :: string
  tv_task_id :: string
  tv_version :: int
  tv_runner_pool_id :: string
  tv_pinned_runner_id :: "string option"
  tv_placement_selectors :: json
  tv_command :: "string list"
  tv_working_directory :: string
  tv_environment :: "(string, env_value) gomap"
  tv_secret_references :: secret_column
  tv_duration_seconds :: int
  tv_max_output_bytes :: int
  tv_max_attempts :: int
  tv_initial_backoff_seconds :: int
  tv_max_backoff_seconds :: int
  tv_backoff_multiplier :: rat
  tv_retryable_exit_codes :: "int list"
  tv_retryable_reasons :: "string list"
  tv_ambiguity_policy :: string

record runner_row =
  rr_id :: string
  rr_pool_id :: "string option"
  rr_name :: string
  rr_desired_state :: string
  rr_observed_state :: string
  rr_capacity :: nat
  rr_active_count :: nat
  rr_capabilities :: json
  rr_nats_endpoint :: string
  rr_control_plane_url :: string
  rr_is_archived :: bool
  rr_is_deleted :: bool
  rr_last_seen_at :: "time option"

record pool_row =
  rp_id :: string
  rp_name :: string
  rp_description :: string
  rp_enabled :: bool
  rp_is_deleted :: bool

record session_row =
  rs_id :: string
  rs_runner_id :: string
  rs_boot_id :: string
  rs_last_heartbeat_at :: time
  rs_current_capacity :: "int option"
  rs_disconnected_at :: "time option"

record key_row =
  rk_key_id :: string
  rk_runner_id :: string
  rk_public_key :: bytes
  rk_not_before :: time
  rk_not_after :: "time option"
  rk_revoked_at :: "time option"

record enrollment_row =
  en_id :: string
  en_runner_id :: string
  en_token_hash :: bytes
  en_expires_at :: time
  en_used_at :: "time option"
  en_requester :: string
  en_target :: string
  en_artifact :: json

record metric_row =
  mr_runner_id :: string
  mr_sampled_at :: time
  mr_cpu_percent :: rat
  mr_memory_percent :: rat
  mr_memory_used_bytes :: int
  mr_memory_total_bytes :: int

record resource_row =
  res_id :: string
  res_kind :: string
  res_next_fencing_token :: nat
  res_enabled :: bool

record lease_row =
  lease_id :: string
  lease_resource_id :: string
  lease_attempt_id :: string
  lease_state :: lease_state
  lease_token :: string
  lease_fencing_token :: nat
  lease_acquired_at :: time
  lease_expires_at :: time
  lease_released_at :: "time option"

record outbox_row =
  ob_message_id :: string
  ob_attempt_id :: string
  ob_message_type :: string
  ob_subject :: string
  ob_envelope :: bytes
  ob_state :: outbox_state
  ob_publish_attempts :: nat
  ob_available_at :: time
  ob_published_at :: "time option"
  ob_last_error :: "string option"
  ob_created_at :: time

record inbox_row =
  in_event_id :: string
  in_attempt_id :: string
  in_event_type :: string
  in_subject :: string
  in_envelope :: bytes

record event_row =
  ev_event_id :: string
  ev_attempt_id :: string
  ev_sequence :: int
  ev_kind :: string
  ev_reported_at :: time
  ev_payload :: json

record log_row =
  log_event_id :: string
  log_attempt_id :: string
  log_stream :: string
  log_sequence :: int
  log_reported_at :: time
  log_payload :: string
  log_checksum :: string

record schedule_row =
  sch_id :: string
  sch_task_id :: string
  sch_current_version_id :: "string option"
  sch_name :: string
  sch_enabled :: bool
  sch_next_fire_at :: "time option"

record schedule_version_row =
  sv_id :: string
  sv_schedule_id :: string
  sv_task_id :: string
  sv_version :: int
  sv_task_version_id :: string
  sv_expression :: string
  sv_timezone :: string
  sv_misfire_policy :: string
  sv_catchup_limit :: int
  sv_start_deadline_seconds :: int
  sv_concurrency_policy :: string
  sv_max_concurrent_runs :: int

record db =
  runs :: "run_row list"
  attempts :: "attempt_row list"
  tasks :: "task_row list"
  task_versions :: "task_version_row list"
  runners :: "runner_row list"
  pools :: "pool_row list"
  sessions :: "session_row list"
  runner_keys :: "key_row list"
  enrollments :: "enrollment_row list"
  runner_metrics :: "metric_row list"
  resources :: "resource_row list"
  requirements :: "(string \<times> string) list"
  leases :: "lease_row list"
  outbox :: "outbox_row list"
  inbox :: "inbox_row list"
  run_events :: "event_row list"
  log_chunks :: "log_row list"
  exit_codes :: "int list"
  globals :: "(string, string) gomap"
  schedules :: "schedule_row list"
  schedule_versions :: "schedule_version_row list"
  variable_references :: "(string \<times> string \<times> string) list"

type_synonym 'r tx = "db \<Rightarrow> store_error + 'r \<times> db"

section \<open>SQL vocabulary\<close>

text \<open>\<^verbatim>\<open>ORDER BY key LIMIT 1\<close> and \<^verbatim>\<open>ORDER BY key LIMIT n\<close>; sorting is stable.\<close>

definition sql_first :: "('a \<Rightarrow> 'k :: linorder) \<Rightarrow> 'a list \<Rightarrow> 'a option" where
  "sql_first key xs = (case sort_key key xs of [] \<Rightarrow> None | x # _ \<Rightarrow> Some x)"

definition sql_limit :: "nat \<Rightarrow> ('a \<Rightarrow> 'k :: linorder) \<Rightarrow> 'a list \<Rightarrow> 'a list" where
  "sql_limit n key xs = take n (sort_key key xs)"

definition find_row :: "('a \<Rightarrow> bool) \<Rightarrow> 'a list \<Rightarrow> 'a option" where
  "find_row P xs = List.find P xs"

text \<open>\<^verbatim>\<open>COALESCE((SELECT MAX(attempt_number) FROM execution_attempts WHERE run_id = id), 0)\<close>\<close>

definition max_attempt :: "string \<Rightarrow> attempt_row list \<Rightarrow> int" where
  "max_attempt rid atts = foldr (\<lambda>a m. max (att_number a) m) (filter (\<lambda>a. att_run_id a = rid) atts) 0"

text \<open>
  \<^verbatim>\<open>jsonb\<close> containment \<^verbatim>\<open>a @> b\<close>: objects by key, arrays as sets, scalars by equality. At
  the top level an array also contains a scalar that is one of its elements.
\<close>

fun json_inside :: "json \<Rightarrow> json \<Rightarrow> bool" where
  "json_inside (JObject fs) (JObject gs) =
     list_all (\<lambda>(k, v). case map_of fs k of None \<Rightarrow> False | Some w \<Rightarrow> json_inside w v) gs"
| "json_inside (JArray xs) (JArray ys) = list_all (\<lambda>y. list_ex (\<lambda>x. json_inside x y) xs) ys"
| "json_inside x y = (x = y)"

definition json_contains :: "json \<Rightarrow> json \<Rightarrow> bool" where
  "json_contains a b =
     (case (a, b) of
        (JArray xs, JArray ys) \<Rightarrow> json_inside a b
      | (JArray xs, JObject gs) \<Rightarrow> False
      | (JArray xs, _) \<Rightarrow> b \<in> set xs
      | _ \<Rightarrow> json_inside a b)"

text \<open>\<^verbatim>\<open>x * interval '1 second'\<close>: PostgreSQL intervals count microseconds.\<close>

definition interval_seconds :: "rat \<Rightarrow> duration" where
  "interval_seconds s = round (s * 1000000) * 1000"

end
