(* ===== verification/GlobalVariables.thy ===== *)
theory GlobalVariables
  imports Prelude
begin

text \<open>
  Global variables (\<^verbatim>\<open>platform/global_variables.go\<close>). The regular expression
  \<^verbatim>\<open>\$ENV:([A-Z_][A-Z0-9_]*)\<close> is matched leftmost and greedily: \<open>ResolveGlobalVariables\<close>
  scans the text once, replaces every match by the variable's value and does not look at the
  replacement again; the last undefined name makes the whole call fail.

  The lemmas relate the scan to the list of literal characters and references of the text.
\<close>

definition name_start :: "char \<Rightarrow> bool" where
  "name_start c \<longleftrightarrow> is_upper c \<or> c = CHR ''_''"

definition name_char :: "char \<Rightarrow> bool" where
  "name_char c \<longleftrightarrow> is_upper c \<or> is_digit c \<or> c = CHR ''_''"

text \<open>The reference at the head of a text: its name and the rest.\<close>

definition match_reference :: "string \<Rightarrow> (string \<times> string) option" where
  "match_reference s =
     (if take 5 s = ''$ENV:'' \<and> drop 5 s \<noteq> [] \<and> name_start (hd (drop 5 s))
      then Some (takeWhile name_char (drop 5 s), dropWhile name_char (drop 5 s)) else None)"

lemma match_reference_shorter: "match_reference s = Some (n, r) \<Longrightarrow> length r < length s"
proof -
  assume a: "match_reference s = Some (n, r)"
  then have t: "take 5 s = ''$ENV:''" and r: "r = dropWhile name_char (drop 5 s)"
    by (auto simp: match_reference_def split: if_splits)
  have "5 \<le> length s" using arg_cong [OF t, of length] by simp
  moreover have "length r \<le> length (drop 5 s)" unfolding r by (rule length_dropWhile_le)
  ultimately show ?thesis by simp
qed

text \<open>
  \<^verbatim>\<open>ReplaceAllStringFunc\<close> with its closure: the text produced and the name of the last
  undefined variable, if any.
\<close>

function expand :: "string \<Rightarrow> (string, string) gomap \<Rightarrow> string \<times> string" where
  "expand s vars =
     (case s of
        [] \<Rightarrow> ([], [])
      | c # cs \<Rightarrow>
          (case match_reference s of
             Some (name, rest) \<Rightarrow>
               (case expand rest vars of (out, missing) \<Rightarrow>
                  (case map_of vars name of
                     Some replacement \<Rightarrow> (replacement @ out, missing)
                   | None \<Rightarrow> (''$ENV:'' @ name @ out, if missing = [] then name else missing)))
           | None \<Rightarrow> (case expand cs vars of (out, missing) \<Rightarrow> (c # out, missing))))"
  by auto
termination
  by (relation "measure (\<lambda>(s, _). length s)") (auto dest: match_reference_shorter)

declare expand.simps [simp del]

definition ResolveGlobalVariables :: "string \<Rightarrow> (string, string) gomap \<Rightarrow> string + string" where
  "ResolveGlobalVariables v vars =
     (case expand v vars of (resolved, missing) \<Rightarrow> if missing \<noteq> [] then Inl missing else Inr resolved)"

text \<open>The map is ranged over in the order of the list; a later entry with the same resolved name wins.\<close>

fun resolve_entries ::
  "(string, string) gomap \<Rightarrow> (string, string) gomap \<Rightarrow> (string, string) gomap \<Rightarrow> string + (string, string) gomap" where
  "resolve_entries [] vars resolved = Inr resolved"
| "resolve_entries ((name, v) # rest) vars resolved =
     (case ResolveGlobalVariables name vars of
        Inl e \<Rightarrow> Inl e
      | Inr name' \<Rightarrow>
          (case ResolveGlobalVariables v vars of
             Inl e \<Rightarrow> Inl e
           | Inr v' \<Rightarrow> resolve_entries rest vars (AList.update name' v' resolved)))"

definition ResolveEnvironment ::
  "(string, string) gomap \<Rightarrow> (string, string) gomap \<Rightarrow> string + (string, string) gomap" where
  "ResolveEnvironment entries vars = resolve_entries entries vars []"

definition GlobalVariableName :: "string \<Rightarrow> bool" where
  "GlobalVariableName v = (let s = TrimSpace v in s \<noteq> [] \<and> name_start (hd s) \<and> list_all name_char s)"

section \<open>The text as literals and references\<close>

datatype piece = Lit char | Ref string

function pieces :: "string \<Rightarrow> piece list" where
  "pieces s =
     (case s of
        [] \<Rightarrow> []
      | c # cs \<Rightarrow>
          (case match_reference s of
             Some (name, rest) \<Rightarrow> Ref name # pieces rest
           | None \<Rightarrow> Lit c # pieces cs))"
  by auto
termination
  by (relation "measure length") (auto dest: match_reference_shorter)

declare pieces.simps [simp del]

fun piece_text :: "piece \<Rightarrow> string" where
  "piece_text (Lit c) = [c]"
| "piece_text (Ref n) = ''$ENV:'' @ n"

fun piece_value :: "(string, string) gomap \<Rightarrow> piece \<Rightarrow> string" where
  "piece_value vars (Lit c) = [c]"
| "piece_value vars (Ref n) = (case map_of vars n of Some v \<Rightarrow> v | None \<Rightarrow> ''$ENV:'' @ n)"

definition references :: "string \<Rightarrow> string set" where
  "references s = {n. Ref n \<in> set (pieces s)}"

lemma match_reference_text: "match_reference s = Some (n, r) \<Longrightarrow> s = ''$ENV:'' @ n @ r \<and> n \<noteq> [] \<and> list_all name_char n"
proof -
  assume a: "match_reference s = Some (n, r)"
  then have t: "take 5 s = ''$ENV:''" and d: "drop 5 s \<noteq> []" "name_start (hd (drop 5 s))"
    and n: "n = takeWhile name_char (drop 5 s)" "r = dropWhile name_char (drop 5 s)"
    by (auto simp: match_reference_def split: if_splits)
  have "n @ r = drop 5 s" using n by simp
  then have "s = ''$ENV:'' @ n @ r" using t by (metis append_take_drop_id)
  moreover have "n \<noteq> []"
    using d n(1) by (cases "drop 5 s") (auto simp: name_start_def name_char_def)
  ultimately show ?thesis using n(1) by (auto simp: list_all_iff dest: set_takeWhileD)
qed

lemma concat_pieces: "concat (map piece_text (pieces s)) = s"
proof (induction s rule: pieces.induct)
  case (1 s)
  show ?case
  proof (cases s)
    case (Cons c cs)
    then show ?thesis
      using 1 match_reference_text [of s] by (subst pieces.simps) (auto split: option.splits)
  qed (simp add: pieces.simps)
qed

lemma expand_pieces:
  "fst (expand s vars) = concat (map (piece_value vars) (pieces s))
   \<and> (snd (expand s vars) = [] \<longleftrightarrow> references s \<subseteq> dom (map_of vars))
   \<and> (snd (expand s vars) \<noteq> [] \<longrightarrow> snd (expand s vars) \<in> references s - dom (map_of vars))"
proof (induction s vars rule: expand.induct)
  case (1 s vars)
  show ?case
  proof (cases s)
    case Nil
    then show ?thesis by (simp add: expand.simps pieces.simps references_def)
  next
    case (Cons c cs)
    show ?thesis
    proof (cases "match_reference s")
      case None
      have e: "expand s vars = (c # fst (expand cs vars), snd (expand cs vars))"
        using None Cons by (subst expand.simps) (simp split: prod.split)
      have p: "pieces s = Lit c # pieces cs" using None Cons by (subst pieces.simps) simp
      then have "references s = references cs" by (auto simp: references_def)
      then show ?thesis using "1.IH"(1) [OF Cons None] e p by simp
    next
      case (Some nr)
      obtain n r where nr: "nr = (n, r)" by (cases nr)
      have m: "match_reference s = Some (n, r)" using Some nr by simp
      have p: "pieces s = Ref n # pieces r" using m Cons by (subst pieces.simps) simp
      then have rf: "references s = insert n (references r)" by (auto simp: references_def)
      have "n \<noteq> []" using match_reference_text [OF m] by blast
      have e: "expand s vars = (case map_of vars n of
                  Some v \<Rightarrow> (v @ fst (expand r vars), snd (expand r vars))
                | None \<Rightarrow> (''$ENV:'' @ n @ fst (expand r vars),
                          if snd (expand r vars) = [] then n else snd (expand r vars)))"
        using m Cons by (subst expand.simps) (simp split: prod.split option.split)
      note IH = "1.IH"(2) [OF Cons Some nr [symmetric]]
      show ?thesis
        using IH \<open>n \<noteq> []\<close> unfolding e p rf by (cases "map_of vars n") (auto split: if_splits)
    qed
  qed
qed

text \<open>
  Expansion of global variables. The pieces of a text are its literal characters and
  its references, and they spell the text; resolving succeeds exactly when every referenced
  variable is defined, and then each reference, and nothing else, has been replaced once by the
  variable's value. Otherwise the error names an undefined variable of the text.
\<close>

theorem ResolveGlobalVariables_correct:
  "concat (map piece_text (pieces v)) = v
   \<and> (case ResolveGlobalVariables v vars of
        Inr out \<Rightarrow> references v \<subseteq> dom (map_of vars) \<and> out = concat (map (piece_value vars) (pieces v))
      | Inl name \<Rightarrow> name \<in> references v - dom (map_of vars))"
  using expand_pieces [of v vars] concat_pieces [of v]
  by (cases "expand v vars") (simp add: ResolveGlobalVariables_def)

end
