(* ===== verification/Recovery.thy ===== *)
theory Recovery
  imports Complex_Main Prelude
begin

text \<open>
  Retry and recovery rules (\<^verbatim>\<open>platform/recovery.go\<close>) and storage pressure
  (\<^verbatim>\<open>platform/storage.go\<close>). The state machine's version is a 64-bit word. A percentage of
  free space is a float64: a rational number, an infinity, or not a number.
\<close>

section \<open>Ambiguous attempts and retries\<close>

definition ResolveAmbiguous :: "string \<Rightarrow> string option" where
  "ResolveAmbiguous policy =
     (if policy = ''RETRY'' then Some ''retry_wait''
      else if policy = ''REQUIRE_MANUAL_RECONCILIATION'' then Some ''unknown''
      else if policy = ''MARK_FAILED'' then Some ''failed''
      else None)"

text \<open>The loop of \<^verbatim>\<open>RetryDelay\<close> with \<open>n\<close> turns left.\<close>

fun retry_loop :: "nat \<Rightarrow> duration \<Rightarrow> duration \<Rightarrow> duration" where
  "retry_loop 0 delay mx = (if delay > mx then mx else delay)"
| "retry_loop (Suc n) delay mx =
     (if delay \<ge> quot mx 2 then mx else retry_loop n (wrap64 (delay * 2)) mx)"

definition RetryDelay :: "int \<Rightarrow> duration \<Rightarrow> duration \<Rightarrow> duration" where
  "RetryDelay attempt base mx = retry_loop (nat ((if attempt < 1 then 1 else attempt) - 1)) base mx"

record RetryPolicy =
  rp_MaxAttempts :: int
  rp_RetryableExitCodes :: "(int, bool) gomap"
  rp_RetryableReasons :: "(string, bool) gomap"
  rp_BaseDelay :: duration
  rp_MaxDelay :: duration

definition RetryPolicy_Decide :: "RetryPolicy \<Rightarrow> int \<Rightarrow> int \<Rightarrow> string \<Rightarrow> string \<times> duration" where
  "RetryPolicy_Decide p attempt exitCode reason =
     (if attempt < 1 \<or> rp_MaxAttempts p < 1 \<or> attempt \<ge> rp_MaxAttempts p then (''failed'', 0)
      else if \<not> get_or False (rp_RetryableExitCodes p) exitCode
              \<and> \<not> get_or False (rp_RetryableReasons p) reason then (''failed'', 0)
      else (''retry_wait'', RetryDelay attempt (rp_BaseDelay p) (rp_MaxDelay p)))"

record RunAggregator =
  ra_Attempts :: int
  ra_State :: string

definition RunAggregator_Apply :: "RunAggregator \<Rightarrow> string \<Rightarrow> bool \<Rightarrow> int \<Rightarrow> RunAggregator" where
  "RunAggregator_Apply r outcome retryable maxAttempts =
     (let n = wrap64 (ra_Attempts r + 1)
      in \<lparr>ra_Attempts = n,
          ra_State = (if outcome = ''completed'' then ''completed''
                      else if outcome = ''unknown'' then ''unknown''
                      else if retryable \<and> n < maxAttempts then ''retry_wait''
                      else ''failed'')\<rparr>)"

section \<open>The attempt state machine\<close>

definition FinalState :: "string \<Rightarrow> bool" where
  "FinalState state \<longleftrightarrow>
     state \<in> set [''completed'', ''succeeded'', ''failed'', ''timed_out'', ''cancelled'', ''lost'',
                  ''runner_lost'', ''unknown'']"

definition TransitionAllowed :: "string \<Rightarrow> string \<Rightarrow> bool" where
  "TransitionAllowed from0 to0 =
     (let from = ToLower from0; to = ToLower to0
      in if from = to then True
         else if from = ''queued'' \<or> from = ''waiting'' then
           to \<in> set [''dispatch_pending'', ''dispatched'', ''cancelled'', ''failed'', ''running'']
         else if from = ''dispatch_pending'' then to \<in> set [''dispatched'', ''cancelled'', ''failed'']
         else if from = ''dispatched'' then to \<in> set [''accepted'', ''failed'', ''cancelled'', ''runner_lost'']
         else if from = ''accepted'' then
           to \<in> set [''running'', ''started'', ''failed'', ''cancelled'', ''unknown'']
         else if from = ''running'' \<or> from = ''started'' then
           FinalState to \<or> to = ''retry_wait'' \<or> to = ''cancelling''
         else if from = ''retry_wait'' then to = ''waiting'' \<or> to = ''failed''
         else if from = ''cancelling'' then
           to \<in> set [''completed'', ''succeeded'', ''cancelled'', ''unknown'']
         else False)"

record StateMachine =
  sm_state :: string
  sm_version :: "64 word"

datatype sm_error = InitialStateRequired | VersionConflict | InvalidTransition

definition NewStateMachine :: "string \<Rightarrow> sm_error + StateMachine" where
  "NewStateMachine initial =
     (if TrimSpace initial = [] then Inl InitialStateRequired
      else Inr \<lparr>sm_state = ToLower initial, sm_version = 0\<rparr>)"

definition transitionLocked ::
  "string \<Rightarrow> 64 word option \<Rightarrow> string \<Rightarrow> StateMachine \<Rightarrow> sm_error + StateMachine" where
  "transitionLocked expected expectedVersion next0 m =
     (if expected \<noteq> [] \<and> ToLower expected \<noteq> sm_state m then Inl VersionConflict
      else if (case expectedVersion of None \<Rightarrow> False | Some v \<Rightarrow> v \<noteq> sm_version m) then Inl VersionConflict
      else (let nxt = ToLower next0
            in if \<not> TransitionAllowed (sm_state m) nxt then Inl InvalidTransition
               else Inr \<lparr>sm_state = nxt, sm_version = sm_version m + 1\<rparr>))"

definition sm_Transition :: "string \<Rightarrow> string \<Rightarrow> StateMachine \<Rightarrow> sm_error + StateMachine" where
  "sm_Transition expected nxt m = transitionLocked expected None nxt m"

definition sm_CompareAndSwap ::
  "string \<Rightarrow> 64 word \<Rightarrow> string \<Rightarrow> StateMachine \<Rightarrow> sm_error + StateMachine" where
  "sm_CompareAndSwap expected expectedVersion nxt m = transitionLocked expected (Some expectedVersion) nxt m"

definition sm_Snapshot :: "StateMachine \<Rightarrow> string \<times> 64 word" where
  "sm_Snapshot m = (sm_state m, sm_version m)"

section \<open>Storage pressure\<close>

datatype float64 = Fin rat | Inf | NaN

datatype StorageState =
  StorageNormal | StorageWarning | StorageCritical | StorageEmergency | StorageUnavailable

record StoragePressure =
  sp_State :: StorageState
  sp_Code :: string
  sp_FreePercent :: float64

definition RejectNewRuns :: "StoragePressure \<Rightarrow> bool" where
  "RejectNewRuns p \<longleftrightarrow> sp_State p = StorageEmergency \<or> sp_State p = StorageUnavailable"

definition EvaluateStoragePressure :: "float64 \<Rightarrow> StoragePressure" where
  "EvaluateStoragePressure freePercent =
     (case freePercent of
        Fin x \<Rightarrow>
          (if x < 0 then \<lparr>sp_State = StorageUnavailable, sp_Code = ''storage_unavailable'', sp_FreePercent = Fin 0\<rparr>
           else if x \<le> 5 then \<lparr>sp_State = StorageEmergency, sp_Code = ''storage_exhausted'', sp_FreePercent = Fin x\<rparr>
           else if x \<le> 10 then \<lparr>sp_State = StorageCritical, sp_Code = [], sp_FreePercent = Fin x\<rparr>
           else if x \<le> 20 then \<lparr>sp_State = StorageWarning, sp_Code = [], sp_FreePercent = Fin x\<rparr>
           else \<lparr>sp_State = StorageNormal, sp_Code = [], sp_FreePercent = Fin x\<rparr>)
      | _ \<Rightarrow> \<lparr>sp_State = StorageUnavailable, sp_Code = ''storage_unavailable'', sp_FreePercent = Fin 0\<rparr>)"

text \<open>The monitor's state; \<^verbatim>\<open>freePercent <= 10\<close> is false for a value that is not a number.\<close>

definition Observe :: "float64 \<Rightarrow> StorageState \<Rightarrow> StoragePressure \<times> StorageState" where
  "Observe freePercent state =
     (let pressure = EvaluateStoragePressure freePercent;
          low = (case freePercent of Fin x \<Rightarrow> x \<le> 10 | _ \<Rightarrow> False);
          result = (if state = StorageEmergency \<and> sp_State pressure \<noteq> StorageUnavailable \<and> low
                    then \<lparr>sp_State = StorageEmergency, sp_Code = ''storage_exhausted'', sp_FreePercent = freePercent\<rparr>
                    else pressure)
      in (result, sp_State result))"

section \<open>Lemmas\<close>

lemma lower_char_idem [simp]: "lower_char (lower_char c) = lower_char c"
proof (cases "is_upper c")
  case True
  then have c: "65 \<le> (of_char c :: nat)" "(of_char c :: nat) \<le> 90"
    by (auto simp: is_upper_def less_eq_char_def)
  then have "\<not> is_upper (char_of ((of_char c :: nat) + 32))"
    by (auto simp: is_upper_def less_eq_char_def)
  then show ?thesis using True by (simp add: lower_char_def)
qed (simp add: lower_char_def)

lemma ToLower_idem [simp]: "ToLower (ToLower s) = ToLower s"
  by (simp add: ToLower_def)

lemma FinalState_disj:
  "FinalState s \<Longrightarrow> s = ''completed'' \<or> s = ''succeeded'' \<or> s = ''failed'' \<or> s = ''timed_out'' \<or> s = ''cancelled''
     \<or> s = ''lost'' \<or> s = ''runner_lost'' \<or> s = ''unknown''"
  by (simp only: FinalState_def list.set insert_iff empty_iff simp_thms)

lemma final_lower: "FinalState s \<Longrightarrow> ToLower s = s"
  by (drule FinalState_disj) (elim disjE, simp_all add: ToLower_def lower_char_def is_upper_def less_eq_char_def)

lemma final_absorbing: "FinalState s \<Longrightarrow> TransitionAllowed s t \<longleftrightarrow> ToLower t = s"
proof -
  assume f: "FinalState s"
  then have l: "ToLower s = s" by (rule final_lower)
  have "TransitionAllowed s t \<longleftrightarrow> s = ToLower t"
    unfolding TransitionAllowed_def Let_def l
    by (rule FinalState_disj [OF f, THEN rev_mp]) (intro impI, elim disjE, simp_all)
  then show ?thesis by auto
qed

lemma transitionLocked_Inr:
  "transitionLocked e v n m = Inr m' \<longleftrightarrow>
     (e = [] \<or> ToLower e = sm_state m) \<and> (v = None \<or> v = Some (sm_version m))
     \<and> TransitionAllowed (sm_state m) (ToLower n)
     \<and> m' = \<lparr>sm_state = ToLower n, sm_version = sm_version m + 1\<rparr>"
  by (auto simp: transitionLocked_def Let_def split: option.splits)

text \<open>The steps of a state machine and the machines it can become.\<close>

inductive sm_step :: "StateMachine \<Rightarrow> StateMachine \<Rightarrow> bool" where
  transition: "sm_Transition e n m = Inr m' \<Longrightarrow> sm_step m m'"
| swap: "sm_CompareAndSwap e v n m = Inr m' \<Longrightarrow> sm_step m m'"

inductive_cases sm_stepE: "sm_step m m'"

inductive sm_steps :: "nat \<Rightarrow> StateMachine \<Rightarrow> StateMachine \<Rightarrow> bool" where
  none: "sm_steps 0 m m"
| one: "sm_steps k m m' \<Longrightarrow> sm_step m' m'' \<Longrightarrow> sm_steps (Suc k) m m''"

lemma sm_step_shape:
  assumes "sm_step m m'"
  obtains n where "TransitionAllowed (sm_state m) (ToLower n)"
    and "m' = \<lparr>sm_state = ToLower n, sm_version = sm_version m + 1\<rparr>"
  using assms by (cases rule: sm_stepE) (auto simp: sm_Transition_def sm_CompareAndSwap_def transitionLocked_Inr)

lemma sm_steps_version: "sm_steps k m m' \<Longrightarrow> sm_version m' = sm_version m + of_nat k"
proof (induction rule: sm_steps.induct)
  case (one k m m' m'')
  then show ?case by (auto elim: sm_step_shape simp: add.commute)
qed simp

lemma sm_steps_final: "sm_steps k m m' \<Longrightarrow> FinalState (sm_state m) \<Longrightarrow> sm_state m' = sm_state m"
proof (induction rule: sm_steps.induct)
  case (one k m m' m'')
  then have s: "sm_state m' = sm_state m" by blast
  from one.hyps(2) obtain n where n: "TransitionAllowed (sm_state m') (ToLower n)"
    "m'' = \<lparr>sm_state = ToLower n, sm_version = sm_version m' + 1\<rparr>" by (rule sm_step_shape)
  have "ToLower n = sm_state m" using n(1) one.prems final_absorbing [of "sm_state m" "ToLower n"] s by simp
  then show ?case using n(2) by simp
qed simp

lemma retry_loop_double:
  assumes "0 \<le> delay" "0 \<le> mx" "mx < 2 ^ 63" "delay < mx div 2"
  shows "retry_loop (Suc n) delay mx = retry_loop n (delay * 2) mx"
proof -
  have "wrap64 (delay * 2) = delay * 2" using assms by (intro wrap64_id) (auto simp: in64_def)
  moreover have "quot mx 2 = mx div 2" using assms by (simp add: quot_nonneg)
  ultimately show ?thesis using assms(4) by simp
qed

lemma retry_loop_cap:
  "0 \<le> mx \<Longrightarrow> mx div 2 \<le> delay \<Longrightarrow> retry_loop (Suc n) delay mx = mx"
  by (simp add: quot_nonneg)

lemma retry_loop_bounds:
  assumes "0 \<le> delay" "0 \<le> mx" "mx < 2 ^ 63"
  shows "retry_loop n delay mx \<le> mx \<and> min delay mx \<le> retry_loop n delay mx
         \<and> (retry_loop n delay mx = mx \<or> retry_loop n delay mx = delay * 2 ^ n)"
  using assms(1)
proof (induction n arbitrary: delay)
  case (Suc n)
  show ?case
  proof (cases "delay < mx div 2")
    case True
    then show ?thesis
      using Suc.IH [of "delay * 2"] Suc.prems assms retry_loop_double [of delay mx n] by (auto simp: mult.assoc)
  next
    case False
    then show ?thesis using retry_loop_cap [of mx delay n] assms by simp
  qed
qed (use assms in auto)

lemma retry_loop_exact:
  assumes "0 \<le> delay" "0 \<le> mx" "mx < 2 ^ 63" "delay * 2 ^ n < 2 * (mx div 2)"
  shows "retry_loop n delay mx = delay * 2 ^ n"
  using assms(1,4)
proof (induction n arbitrary: delay)
  case (Suc n)
  have lt: "delay * 2 * 2 ^ n < 2 * (mx div 2)" using Suc.prems(2) by (simp add: mult.assoc)
  have "delay * 2 * 1 \<le> delay * 2 * 2 ^ n" using Suc.prems(1) by (intro mult_left_mono) simp_all
  then have "delay < mx div 2" using lt by linarith
  then show ?case
    using Suc.IH [of "delay * 2"] Suc.prems lt assms retry_loop_double [of delay mx n] by (simp add: mult.assoc)
qed (use assms in auto)

section \<open>Properties\<close>

text \<open>
  The attempt state machine. After any number of successful transitions and swaps the
  version has counted them (modulo the width of uint64), and a machine in a final state is still
  in that state: final states are absorbing.
\<close>

theorem state_machine_runs:
  assumes "sm_steps k m m'"
  shows "sm_version m' = sm_version m + of_nat k \<and> (FinalState (sm_state m) \<longrightarrow> sm_state m' = sm_state m)"
  using sm_steps_version [OF assms] sm_steps_final [OF assms] by blast

theorem state_machine_runs_witness:
  "sm_steps 1 \<lparr>sm_state = ''failed'', sm_version = 7\<rparr> \<lparr>sm_state = ''failed'', sm_version = 8\<rparr>
   \<and> sm_version \<lparr>sm_state = ''failed'', sm_version = (8 :: 64 word)\<rparr> = 7 + 1"
proof -
  let ?m = "\<lparr>sm_state = ''failed'', sm_version = 7 :: 64 word\<rparr>"
    and ?m' = "\<lparr>sm_state = ''failed'', sm_version = 8 :: 64 word\<rparr>"
  have "sm_Transition ''failed'' ''FAILED'' ?m = Inr ?m'" by code_simp
  then have s: "sm_steps (Suc 0) ?m ?m'" by (intro sm_steps.one [OF sm_steps.none] sm_step.transition)
  then show ?thesis using state_machine_runs [OF s] by simp
qed

text \<open>
  Optimistic locking. A compare-and-swap succeeds only when the caller's state and
  version are current, and of two swaps made from the same snapshot the second is refused.
\<close>

theorem compare_and_swap_once:
  assumes "sm_CompareAndSwap s v n m = Inr m'"
  shows "sm_version m = v \<and> (s = [] \<or> ToLower s = sm_state m)
         \<and> sm_CompareAndSwap s' v n' m' = Inl VersionConflict"
proof -
  have "m' = \<lparr>sm_state = ToLower n, sm_version = sm_version m + 1\<rparr>" "v = sm_version m"
    "s = [] \<or> ToLower s = sm_state m"
    using assms by (auto simp: sm_CompareAndSwap_def transitionLocked_Inr)
  moreover have "sm_version m \<noteq> sm_version m + 1" by simp
  ultimately show ?thesis by (simp add: sm_CompareAndSwap_def transitionLocked_def)
qed

theorem compare_and_swap_once_witness:
  "sm_CompareAndSwap ''waiting'' 0 ''failed'' \<lparr>sm_state = ''dispatched'', sm_version = 1\<rparr> = Inl VersionConflict"
proof -
  have "sm_CompareAndSwap ''waiting'' 0 ''dispatched'' \<lparr>sm_state = ''waiting'', sm_version = 0\<rparr>
        = Inr \<lparr>sm_state = ''dispatched'', sm_version = 1\<rparr>" by code_simp
  from compare_and_swap_once [OF this, of "''waiting''" "''failed''"] show ?thesis by simp
qed

text \<open>
  Exponential backoff. For durations of at least zero the delay never exceeds the maximum, is
  at least the smaller of base and maximum, and is the base doubled once per earlier attempt
  whenever that stays below the maximum (rounded down to even); otherwise it is the maximum. No
  intermediate product overflows.
\<close>

theorem RetryDelay_bounds:
  assumes "0 \<le> base" "0 \<le> mx" "mx < 2 ^ 63" "1 \<le> attempt"
  shows "RetryDelay attempt base mx \<le> mx \<and> min base mx \<le> RetryDelay attempt base mx
         \<and> (RetryDelay attempt base mx = mx \<or> RetryDelay attempt base mx = base * 2 ^ nat (attempt - 1))
         \<and> (base * 2 ^ nat (attempt - 1) < 2 * (mx div 2)
              \<longrightarrow> RetryDelay attempt base mx = base * 2 ^ nat (attempt - 1))"
  using retry_loop_bounds [OF assms(1-3), of "nat (attempt - 1)"] retry_loop_exact [OF assms(1-3), of "nat (attempt - 1)"]
    assms(4) by (simp add: RetryDelay_def)

theorem RetryDelay_bounds_witness:
  "RetryDelay 3 second (10 * second) = 4 * second \<and> RetryDelay 9 second (10 * second) \<le> 10 * second"
  using RetryDelay_bounds [of second "10 * second" 3] RetryDelay_bounds [of second "10 * second" 9]
  by (simp add: eval_nat_numeral)

text \<open>
  Hysteresis of the storage monitor. Once the monitor has seen an emergency it keeps
  rejecting new runs until an observation above ten percent free; it never leaves the emergency
  for the critical state.
\<close>

theorem storage_emergency_sticks:
  assumes "Observe x s = (p, s')"
  shows "s' = sp_State p
         \<and> (s = StorageEmergency \<longrightarrow> (RejectNewRuns p \<longleftrightarrow> \<not> (\<exists>r > 10. x = Fin r)) \<and> s' \<noteq> StorageCritical)"
proof -
  have p: "p = fst (Observe x s)" "s' = snd (Observe x s)" using assms by simp_all
  show ?thesis
    unfolding p by (cases x) (auto simp: Observe_def EvaluateStoragePressure_def RejectNewRuns_def Let_def)
qed

theorem storage_emergency_sticks_witness:
  "RejectNewRuns (fst (Observe (Fin 9) StorageEmergency)) \<and> \<not> RejectNewRuns (fst (Observe (Fin 9) StorageNormal))"
proof -
  have o: "Observe (Fin 9) StorageEmergency = (fst (Observe (Fin 9) StorageEmergency), snd (Observe (Fin 9) StorageEmergency))"
    by simp
  have "\<not> RejectNewRuns (fst (Observe (Fin 9) StorageNormal))"
    by (simp add: Observe_def EvaluateStoragePressure_def RejectNewRuns_def Let_def)
  then show ?thesis using storage_emergency_sticks [OF o] by auto
qed

end
