(* ===== verification/RunStore.thy ===== *)
theory RunStore
  imports Database GlobalVariables Recovery
begin

text \<open>
  The run store (\<^verbatim>\<open>store/runs.go\<close>): creation of runs, the dispatch transaction, start claims,
  secret authorisation, application of runner events with retries, cancellation and the two
  reconcilers, and the dispatch outbox. One definition per function, in the order of the code.
  Parameters stand for what the code gets from outside: \<open>now\<close> is \<^verbatim>\<open>now()\<close> of the
  transaction and \<open>clock\<close> is \<^verbatim>\<open>time.Now()\<close> of the process; \<open>fresh\<close> yields the random lease
  identifiers, \<open>token\<close> the random lease token, \<open>sha\<close> is SHA-256 in hexadecimal,
  \<open>digest\<close> the same of the JSON of an execution specification, and \<open>build\<close> the caller's order
  builder. The float64 arithmetic of the retry delay is exact here.
\<close>

section \<open>Start claims\<close>

record StartClaimInput =
  sc_RunID :: string
  sc_RunnerID :: string
  sc_RunnerSessionID :: string
  sc_LeaseToken :: string
  sc_Digest :: string
  sc_Attempt :: int
  sc_FencingToken :: int

definition defaultStartDelay :: duration where
  "defaultStartDelay = minute"

text \<open>\<^verbatim>\<open>COALESCE(r.start_deadline_at, a.dispatched_at + 60 s)\<close>\<close>

definition start_deadline :: "run_row \<Rightarrow> attempt_row \<Rightarrow> time option" where
  "start_deadline r a =
     (case run_start_deadline_at r of
        Some t \<Rightarrow> Some t
      | None \<Rightarrow> map_option (\<lambda>t. t + defaultStartDelay) (att_dispatched_at a))"

definition run_attempts :: "db \<Rightarrow> (run_row \<times> attempt_row) list" where
  "run_attempts d = [(r, a). r \<leftarrow> runs d, a \<leftarrow> attempts d, att_run_id a = run_id r]"

definition update_run :: "(run_row \<Rightarrow> bool) \<Rightarrow> (run_row \<Rightarrow> run_row) \<Rightarrow> db \<Rightarrow> db" where
  "update_run P f d = d\<lparr>runs := sql_update P f (runs d)\<rparr>"

definition update_attempt :: "(attempt_row \<Rightarrow> bool) \<Rightarrow> (attempt_row \<Rightarrow> attempt_row) \<Rightarrow> db \<Rightarrow> db" where
  "update_attempt P f d = d\<lparr>attempts := sql_update P f (attempts d)\<rparr>"

text \<open>\<^verbatim>\<open>SET state = s, state_version = state_version + 1, updated_at = now()\<close>\<close>

definition set_run_state :: "run_state \<Rightarrow> time \<Rightarrow> run_row \<Rightarrow> run_row" where
  "set_run_state s now r =
     r\<lparr>run_state := s, run_state_version := run_state_version r + 1, run_updated_at := now\<rparr>"

definition ClaimStart :: "time \<Rightarrow> StartClaimInput \<Rightarrow> (time \<times> bool) tx" where
  "ClaimStart now inp d =
     (if sc_RunID inp = [] \<or> sc_RunnerID inp = [] \<or> sc_RunnerSessionID inp = [] \<or> sc_LeaseToken inp = []
         \<or> sc_Digest inp = [] \<or> sc_Attempt inp \<le> 0 \<or> sc_FencingToken inp \<le> 0
      then Inl EIncomplete
      else (case find_row (\<lambda>(r, a). run_id r = sc_RunID inp \<and> att_number a = sc_Attempt inp) (run_attempts d) of
              None \<Rightarrow> Inr ((0, False), d)
            | Some (r, a) \<Rightarrow>
                (case start_deadline r a of
                   None \<Rightarrow> Inl EScan
                 | Some deadline \<Rightarrow>
                     (if att_runner_id a \<noteq> sc_RunnerID inp \<or> att_session_id a \<noteq> sc_RunnerSessionID inp
                         \<or> att_lease_token a \<noteq> sc_LeaseToken inp \<or> att_fencing_token a \<noteq> sc_FencingToken inp
                         \<or> att_digest a \<noteq> sc_Digest inp
                      then Inr ((0, False), d)
                      else if att_state a = A_RUNNING \<and> run_state r = RUNNING then Inr ((now, True), d)
                      else if run_state r \<noteq> DISPATCHED
                              \<or> (att_state a \<noteq> A_DISPATCHED \<and> att_state a \<noteq> A_ACCEPTED)
                              \<or> \<not> now < deadline \<or> \<not> now < att_lease_not_after a
                      then Inr ((0, False), d)
                      else Inr ((now, True),
                             update_run (\<lambda>r'. run_id r' = sc_RunID inp \<and> run_state r' = DISPATCHED)
                                        (set_run_state RUNNING now)
                            (update_attempt (\<lambda>a'. att_id a' = att_id a)
                               (\<lambda>a'. a'\<lparr>att_state := A_RUNNING,
                                       att_accepted_at := Some (coalesce (att_accepted_at a') now),
                                       att_started_at := Some (coalesce (att_started_at a') now),
                                       att_last_sequence := max (att_last_sequence a') 1,
                                       att_state_version := att_state_version a' + 1\<rparr>) d))))))"

section \<open>Secret requests\<close>

record SecretRequestInput =
  sq_OrderID :: string
  sq_RunID :: string
  sq_RunnerID :: string
  sq_RunnerSessionID :: string
  sq_LeaseToken :: string
  sq_Digest :: string
  sq_Attempt :: int
  sq_FencingToken :: int
  sq_SecretRefs :: "(string, string) gomap"

definition decodeSecretReferences :: "secret_column \<Rightarrow> (string, string) gomap option" where
  "decodeSecretReferences raw =
     (case raw of SecretNull \<Rightarrow> Some [] | SecretMap m \<Rightarrow> Some m | SecretInvalid \<Rightarrow> None)"

definition map_len :: "('k, 'v) gomap \<Rightarrow> nat" where
  "map_len m = length (remdups (map fst m))"

definition sameSecretReferences :: "(string, string) gomap \<Rightarrow> (string, string) gomap \<Rightarrow> bool" where
  "sameSecretReferences left right =
     (if map_len left \<noteq> map_len right then False
      else list_all (\<lambda>name. get_or [] right name = get_or [] left name) (map fst left))"

definition AuthorizeSecretRequest :: "SecretRequestInput \<Rightarrow> db \<Rightarrow> store_error + unit" where
  "AuthorizeSecretRequest inp d =
     (if sq_OrderID inp = [] \<or> sq_RunID inp = [] \<or> sq_RunnerID inp = [] \<or> sq_RunnerSessionID inp = []
         \<or> sq_LeaseToken inp = [] \<or> sq_Digest inp = [] \<or> sq_Attempt inp \<le> 0 \<or> sq_FencingToken inp \<le> 0
         \<or> map_len (sq_SecretRefs inp) = 0
      then Inl EIncomplete
      else (case find_row (\<lambda>((r, a), tv).
                      tv_id tv = run_task_version_id r \<and> att_id a = sq_OrderID inp \<and> run_id r = sq_RunID inp
                      \<and> att_number a = sq_Attempt inp \<and> att_runner_id a = sq_RunnerID inp
                      \<and> att_session_id a = sq_RunnerSessionID inp \<and> att_lease_token a = sq_LeaseToken inp
                      \<and> att_fencing_token a = sq_FencingToken inp \<and> att_digest a = sq_Digest inp
                      \<and> (run_state r = DISPATCHED \<and> att_state a \<in> {A_DISPATCHED, A_ACCEPTED}
                         \<or> run_state r = RUNNING \<and> att_state a = A_RUNNING))
                    (List.product (run_attempts d) (task_versions d)) of
              None \<Rightarrow> Inl ESecretDenied
            | Some (_, tv) \<Rightarrow>
                (case decodeSecretReferences (tv_secret_references tv) of
                   None \<Rightarrow> Inl ESecretDenied
                 | Some expected \<Rightarrow>
                     (if \<not> sameSecretReferences expected (sq_SecretRefs inp) then Inl ESecretDenied
                      else Inr ()))))"

section \<open>Creating runs\<close>

record RunDefinition =
  rd_ID :: string
  rd_TaskID :: string
  rd_TriggeredBy :: string
  rd_TriggerType :: string
  rd_IdempotencyKey :: string
  rd_ScheduledFor :: time

text \<open>The storage provider is absent, fails, or answers.\<close>

type_synonym pressure_provider = "(unit + StoragePressure) option"

definition ensureStorageAvailable :: "pressure_provider \<Rightarrow> store_error + unit" where
  "ensureStorageAvailable provider =
     (case provider of
        None \<Rightarrow> Inr ()
      | Some (Inl _) \<Rightarrow> Inl EPressureUnknown
      | Some (Inr pressure) \<Rightarrow>
          (if sp_State pressure = StorageUnavailable then Inl EStorageUnavailable
           else if RejectNewRuns pressure then Inl EStorageExhausted
           else Inr ()))"

definition loadGlobalVariables :: "db \<Rightarrow> (string, string) gomap" where
  "loadGlobalVariables d = foldl (\<lambda>m (k, v). AList.update k v m) [] (globals d)"

definition new_run :: "string \<Rightarrow> string \<Rightarrow> string \<Rightarrow> string \<Rightarrow> time \<Rightarrow> (string, string) gomap \<Rightarrow> time option \<Rightarrow> string
    \<Rightarrow> time \<Rightarrow> run_row" where
  "new_run rid task version trigger scheduled vars deadline key now =
     \<lparr>run_id = rid, run_task_id = task, run_task_version_id = version, run_schedule_version_id = None,
      run_triggered_by = None, run_trigger_type = trigger, run_scheduled_for = scheduled, run_globals = vars,
      run_start_deadline_at = deadline, run_state = WAITING, run_state_version = 0, run_idempotency_key = key,
      run_retry_not_before = None, run_cancellation_requested_at = None, run_cancellation_reason = None,
      run_completed_at = None, run_created_at = now, run_updated_at = now\<rparr>"

text \<open>Primary key, unique idempotency key and unique occurrence of a schedule version.\<close>

definition run_conflict :: "run_row \<Rightarrow> run_row \<Rightarrow> bool" where
  "run_conflict r r' \<longleftrightarrow>
     run_id r' = run_id r \<or> run_idempotency_key r' = run_idempotency_key r
     \<or> (run_schedule_version_id r \<noteq> None \<and> run_schedule_version_id r' = run_schedule_version_id r
        \<and> run_scheduled_for r' = run_scheduled_for r)"

definition insert_run :: "run_row \<Rightarrow> db \<Rightarrow> store_error + db" where
  "insert_run r d =
     (if list_ex (run_conflict r) (runs d) then Inl EConstraint else Inr (d\<lparr>runs := runs d @ [r]\<rparr>))"

definition RunStore_Create ::
  "pressure_provider \<Rightarrow> time \<Rightarrow> time \<Rightarrow> RunDefinition \<Rightarrow> run_row tx" where
  "RunStore_Create provider clock now def0 d =
     res_bind (ensureStorageAvailable provider) (\<lambda>_.
       let trigger = (if rd_TriggerType def0 = [] then ''MANUAL'' else rd_TriggerType def0);
           scheduled = (if rd_ScheduledFor def0 = 0 then clock else rd_ScheduledFor def0);
           key = (if rd_IdempotencyKey def0 = [] then rd_ID def0 else rd_IdempotencyKey def0)
       in if trigger \<noteq> ''MANUAL'' \<and> trigger \<noteq> ''SCHEDULE'' \<and> trigger \<noteq> ''RETRY'' then Inl EInvalidTrigger
          else (case find_row (\<lambda>t. task_id t = rd_TaskID def0 \<and> \<not> task_is_deleted t) (tasks d) of
                  None \<Rightarrow> Inl ENoRows
                | Some t \<Rightarrow>
                    (case task_current_version_id t of
                       None \<Rightarrow> Inl EScan
                     | Some version \<Rightarrow>
                         (let row = (new_run (rd_ID def0) (rd_TaskID def0) version trigger scheduled
                                       (loadGlobalVariables d) (Some (scheduled + defaultStartDelay)) key now)
                                    \<lparr>run_triggered_by := (if TrimSpace (rd_TriggeredBy def0) \<noteq> []
                                                          then Some (rd_TriggeredBy def0) else None)\<rparr>
                          in res_bind (insert_run row d) (\<lambda>d'.
                               case find_row (\<lambda>r. run_id r = rd_ID def0) (runs d') of
                                 None \<Rightarrow> Inl ENotCreated
                               | Some r \<Rightarrow> Inr (r, d'))))))"

section \<open>Dispatching a waiting run\<close>

record DispatchCandidate =
  dc_RunID :: string
  dc_TaskID :: string
  dc_TaskVersionID :: string
  dc_AttemptID :: string
  dc_TaskName :: string
  dc_TaskVersion :: int
  dc_Pool :: string
  dc_RunnerID :: string
  dc_RunnerSessionID :: string
  dc_LeaseToken :: string
  dc_Command :: "string list"
  dc_WorkingDirectory :: string
  dc_Digest :: string
  dc_Environment :: "(string, string) gomap"
  dc_SecretRefs :: "(string, string) gomap"
  dc_PlacementSelectors :: json
  dc_Resources :: "string list"
  dc_AttemptNumber :: int
  dc_DurationSeconds :: int
  dc_MaxOutputBytes :: int
  dc_FencingToken :: int
  dc_LeaseNotAfter :: time

text \<open>The fields that \<^verbatim>\<open>resolvedExecutionDigest\<close> hashes.\<close>

record execution_spec =
  es_TaskVersion :: string
  es_WorkingDirectory :: string
  es_Command :: "string list"
  es_Environment :: "(string, string) gomap"
  es_SecretRefs :: "(string, string) gomap"
  es_PlacementSelectors :: json
  es_Resources :: "string list"
  es_DurationSeconds :: int
  es_MaxOutput :: int

definition resolvedExecutionDigest :: "(execution_spec \<Rightarrow> string) \<Rightarrow> DispatchCandidate \<Rightarrow> string" where
  "resolvedExecutionDigest digest c =
     digest \<lparr>es_TaskVersion = dc_TaskVersionID c, es_WorkingDirectory = dc_WorkingDirectory c,
             es_Command = dc_Command c, es_Environment = dc_Environment c, es_SecretRefs = dc_SecretRefs c,
             es_PlacementSelectors = dc_PlacementSelectors c, es_Resources = dc_Resources c,
             es_DurationSeconds = dc_DurationSeconds c, es_MaxOutput = dc_MaxOutputBytes c\<rparr>"

definition decodeEnvironment :: "(string, env_value) gomap \<Rightarrow> (string, string) gomap" where
  "decodeEnvironment raw =
     map (\<lambda>(name, v). (name, case v of EnvText t \<Rightarrow> t | EnvRaw t \<Rightarrow> t)) raw"

text \<open>\<^verbatim>\<open>LOWER(REPLACE(kind, '_', '-')) <> 'non-blocking'\<close>\<close>

definition blocking :: "resource_row \<Rightarrow> bool" where
  "blocking res \<longleftrightarrow>
     ToLower (map (\<lambda>c. if c = CHR ''_'' then CHR ''-'' else c) (res_kind res)) \<noteq> ''non-blocking''"

definition required_resources :: "db \<Rightarrow> string \<Rightarrow> resource_row list" where
  "required_resources d version =
     [res. (v, rid) \<leftarrow> requirements d, v = version, res \<leftarrow> resources d, res_id res = rid, blocking res]"

definition resource_free :: "time \<Rightarrow> db \<Rightarrow> resource_row \<Rightarrow> bool" where
  "resource_free now d res \<longleftrightarrow>
     res_enabled res
     \<and> \<not> list_ex (\<lambda>l. lease_resource_id l = res_id res \<and> lease_state l = ACTIVE \<and> lease_expires_at l > now) (leases d)"

type_synonym claim = "run_row \<times> task_version_row \<times> task_row \<times> runner_row \<times> pool_row \<times> session_row"

definition run_claimable :: "time \<Rightarrow> db \<Rightarrow> run_row \<Rightarrow> task_version_row \<Rightarrow> bool" where
  "run_claimable now d r tv \<longleftrightarrow>
     (run_state r = WAITING
      \<or> run_state r = RETRY_WAIT \<and> (case run_retry_not_before r of None \<Rightarrow> True | Some t \<Rightarrow> t \<le> now))
     \<and> run_scheduled_for r \<le> now
     \<and> (run_state r = WAITING \<or> max_attempt (run_id r) (attempts d) < tv_max_attempts tv)"

definition runner_eligible :: "time \<Rightarrow> task_version_row \<Rightarrow> runner_row \<Rightarrow> session_row \<Rightarrow> bool" where
  "runner_eligible now tv rr rs \<longleftrightarrow>
     rr_pool_id rr = Some (tv_runner_pool_id tv) \<and> \<not> rr_is_archived rr \<and> \<not> rr_is_deleted rr
     \<and> rr_desired_state rr = ''ENABLED'' \<and> rr_active_count rr < rr_capacity rr
     \<and> (tv_pinned_runner_id tv = None \<or> tv_pinned_runner_id tv = Some (rr_id rr))
     \<and> rs_runner_id rs = rr_id rr \<and> rs_disconnected_at rs = None
     \<and> rs_last_heartbeat_at rs \<ge> now - 30 * second
     \<and> json_contains (rr_capabilities rr) (tv_placement_selectors tv)"

definition claim_rows :: "time \<Rightarrow> db \<Rightarrow> claim list" where
  "claim_rows now d =
     [(r, tv, t, rr, rp, rs).
        r \<leftarrow> runs d, tv \<leftarrow> task_versions d, tv_id tv = run_task_version_id r, run_claimable now d r tv,
        list_all (resource_free now d) (required_resources d (tv_id tv)),
        t \<leftarrow> tasks d, task_id t = run_task_id r,
        rr \<leftarrow> runners d, rp \<leftarrow> pools d, rr_pool_id rr = Some (rp_id rp),
        rs \<leftarrow> sessions d, runner_eligible now tv rr rs]"

definition claim_query :: "time \<Rightarrow> db \<Rightarrow> claim option" where
  "claim_query now d = sql_first (\<lambda>(r, _). (run_created_at r, run_id r)) (claim_rows now d)"

fun resolve_all :: "string list \<Rightarrow> (string, string) gomap \<Rightarrow> string + string list" where
  "resolve_all [] vars = Inr []"
| "resolve_all (x # xs) vars =
     res_bind (ResolveGlobalVariables x vars) (\<lambda>y. res_bind (resolve_all xs vars) (\<lambda>ys. Inr (y # ys)))"

definition undefined_error :: "string + 'a \<Rightarrow> store_error + 'a" where
  "undefined_error m = (case m of Inl name \<Rightarrow> Inl (EUndefinedVariable name) | Inr x \<Rightarrow> Inr x)"

definition unix_epoch :: time where
  "unix_epoch = 62135596800 * second"

text \<open>
  From the row to the candidate. The digest is taken before the duration and the output limit are
  set on the candidate, as in the code.
\<close>

definition build_candidate ::
  "(execution_spec \<Rightarrow> string) \<Rightarrow> string option \<Rightarrow> time \<Rightarrow> db \<Rightarrow> claim \<Rightarrow> store_error + DispatchCandidate" where
  "build_candidate digest token clock d claim =
     (case claim of (r, tv, t, rr, rp, rs) \<Rightarrow>
        let attempt = max_attempt (run_id r) (attempts d) + 1;
            vars = run_globals r;
            dir0 = (if tv_working_directory tv = [] then ''.'' else tv_working_directory tv)
        in (case decodeSecretReferences (tv_secret_references tv) of
              None \<Rightarrow> Inl EJSON
            | Some secrets \<Rightarrow>
                res_bind (undefined_error (resolve_all (tv_command tv) vars)) (\<lambda>command.
                res_bind (undefined_error (ResolveGlobalVariables dir0 vars)) (\<lambda>dir.
                res_bind (undefined_error (ResolveEnvironment (decodeEnvironment (tv_environment tv)) vars)) (\<lambda>env.
                  let c0 = \<lparr>dc_RunID = run_id r, dc_TaskID = run_task_id r, dc_TaskVersionID = run_task_version_id r,
                            dc_AttemptID = [], dc_TaskName = task_name t, dc_TaskVersion = tv_version tv,
                            dc_Pool = rp_name rp, dc_RunnerID = rs_runner_id rs, dc_RunnerSessionID = rs_id rs,
                            dc_LeaseToken = [], dc_Command = command, dc_WorkingDirectory = dir, dc_Digest = [],
                            dc_Environment = env, dc_SecretRefs = secrets,
                            dc_PlacementSelectors = tv_placement_selectors tv,
                            dc_Resources = remdups (map res_id (required_resources d (tv_id tv))),
                            dc_AttemptNumber = 0, dc_DurationSeconds = 0, dc_MaxOutputBytes = 0,
                            dc_FencingToken = 0, dc_LeaseNotAfter = 0\<rparr>;
                      c1 = c0\<lparr>dc_Digest := resolvedExecutionDigest digest c0,
                              dc_AttemptNumber := attempt,
                              dc_AttemptID := run_id r @ ''-attempt-'' @ Itoa attempt\<rparr>
                  in (case token of
                        None \<Rightarrow> Inl ERandom
                      | Some tok \<Rightarrow>
                          Inr (c1\<lparr>dc_LeaseToken := tok, dc_FencingToken := wrap64 (clock - unix_epoch),
                                  dc_LeaseNotAfter := clock + (tv_duration_seconds tv + 30) * second,
                                  dc_DurationSeconds := tv_duration_seconds tv,
                                  dc_MaxOutputBytes := tv_max_output_bytes tv\<rparr>)))))))"

definition new_attempt :: "DispatchCandidate \<Rightarrow> attempt_state \<Rightarrow> time option \<Rightarrow> attempt_row" where
  "new_attempt c s dispatched =
     \<lparr>att_id = dc_AttemptID c, att_run_id = dc_RunID c, att_number = dc_AttemptNumber c,
      att_runner_id = dc_RunnerID c, att_session_id = dc_RunnerSessionID c, att_state = s, att_state_version = 0,
      att_last_sequence = 0, att_lease_token = dc_LeaseToken c, att_fencing_token = dc_FencingToken c,
      att_lease_not_after = dc_LeaseNotAfter c, att_digest = dc_Digest c, att_dispatched_at = dispatched,
      att_accepted_at = None, att_started_at = None, att_last_heartbeat_at = None, att_cancel_requested_at = None,
      att_finished_at = None, att_exit_code = None, att_termination_reason = None, att_result = None,
      att_max_memory = 0, att_average_memory = 0\<rparr>"

text \<open>Primary key, unique run and number, unique lease token, and the checks on numbers and fencing tokens.\<close>

definition insert_attempt :: "attempt_row \<Rightarrow> db \<Rightarrow> store_error + db" where
  "insert_attempt a d =
     (if att_number a \<le> 0 \<or> att_fencing_token a \<le> 0
         \<or> list_ex (\<lambda>a'. att_id a' = att_id a \<or> att_run_id a' = att_run_id a \<and> att_number a' = att_number a
                       \<or> att_lease_token a' = att_lease_token a) (attempts d)
      then Inl EConstraint else Inr (d\<lparr>attempts := attempts d @ [a]\<rparr>))"

text \<open>One turn of the loop over the candidate's resources; at most one lease of a resource is active.\<close>

definition acquire_lease ::
  "time \<Rightarrow> string \<Rightarrow> string \<Rightarrow> DispatchCandidate \<Rightarrow> string \<Rightarrow> db \<Rightarrow> store_error + db" where
  "acquire_lease now lid ltoken c rid d =
     (let d1 = d\<lparr>leases := sql_update
                   (\<lambda>l. lease_resource_id l = rid \<and> lease_state l = ACTIVE \<and> lease_expires_at l \<le> now)
                   (\<lambda>l. l\<lparr>lease_state := EXPIRED, lease_released_at := Some now\<rparr>) (leases d)\<rparr>
      in (case find_row (\<lambda>res. res_id res = rid \<and> res_enabled res) (resources d1) of
            None \<Rightarrow> Inl ENoRows
          | Some res \<Rightarrow>
              (let fencing = res_next_fencing_token res + 1;
                   d2 = d1\<lparr>resources := sql_update (\<lambda>res. res_id res = rid \<and> res_enabled res)
                             (\<lambda>res. res\<lparr>res_next_fencing_token := res_next_fencing_token res + 1\<rparr>) (resources d1)\<rparr>
               in if list_ex (\<lambda>l. lease_id l = lid \<or> lease_token l = ltoken
                               \<or> lease_resource_id l = rid \<and> lease_state l = ACTIVE) (leases d2)
                     \<or> dc_LeaseNotAfter c \<le> now
                  then Inl EConstraint
                  else Inr (d2\<lparr>leases := leases d2 @
                         [\<lparr>lease_id = lid, lease_resource_id = rid, lease_attempt_id = dc_AttemptID c,
                           lease_state = ACTIVE, lease_token = ltoken, lease_fencing_token = fencing,
                           lease_acquired_at = now, lease_expires_at = dc_LeaseNotAfter c,
                           lease_released_at = None\<rparr>]\<rparr>))))"

fun acquire_leases ::
  "time \<Rightarrow> (nat \<Rightarrow> string) \<Rightarrow> nat \<Rightarrow> DispatchCandidate \<Rightarrow> string list \<Rightarrow> db \<Rightarrow> store_error + db" where
  "acquire_leases now fresh i c [] d = Inr d"
| "acquire_leases now fresh i c (rid # rids) d =
     res_bind (acquire_lease now (fresh (2 * i)) (fresh (2 * i + 1)) c rid d)
       (\<lambda>d'. acquire_leases now fresh (i + 1) c rids d')"

definition insert_outbox :: "outbox_row \<Rightarrow> db \<Rightarrow> store_error + db" where
  "insert_outbox row d =
     (if ob_envelope row = [] \<or> list_ex (\<lambda>row'. ob_message_id row' = ob_message_id row) (outbox d)
      then Inl EConstraint else Inr (d\<lparr>outbox := outbox d @ [row]\<rparr>))"

definition new_outbox :: "string \<Rightarrow> string \<Rightarrow> string \<Rightarrow> string \<Rightarrow> bytes \<Rightarrow> time \<Rightarrow> outbox_row" where
  "new_outbox mid aid kind runner envelope now =
     \<lparr>ob_message_id = mid, ob_attempt_id = aid, ob_message_type = kind,
      ob_subject = ''glyphflow.orders.'' @ runner, ob_envelope = envelope, ob_state = PENDING,
      ob_publish_attempts = 0, ob_available_at = now, ob_published_at = None, ob_last_error = None,
      ob_created_at = now\<rparr>"

definition dispatch_candidate ::
  "time \<Rightarrow> (nat \<Rightarrow> string) \<Rightarrow> bytes \<Rightarrow> DispatchCandidate \<Rightarrow> db \<Rightarrow> store_error + db" where
  "dispatch_candidate now fresh envelope c d =
     res_bind (insert_attempt (new_attempt c A_DISPATCHED (Some now)) d) (\<lambda>d1.
     res_bind (acquire_leases now fresh 0 c (dc_Resources c) d1) (\<lambda>d2.
       let d3 = update_run (\<lambda>r. run_id r = dc_RunID c \<and> run_state r \<in> {WAITING, RETRY_WAIT})
                  (set_run_state DISPATCHED now) d2;
           d4 = d3\<lparr>runners := sql_update (\<lambda>rr. rr_id rr = dc_RunnerID c)
                     (\<lambda>rr. rr\<lparr>rr_active_count := rr_active_count rr + 1\<rparr>) (runners d3)\<rparr>
       in insert_outbox (new_outbox (dc_AttemptID c) (dc_AttemptID c) ''execute'' (dc_RunnerID c) envelope now) d4))"

definition ClaimWaiting ::
  "(execution_spec \<Rightarrow> string) \<Rightarrow> string option \<Rightarrow> (nat \<Rightarrow> string) \<Rightarrow> time \<Rightarrow> time
     \<Rightarrow> (DispatchCandidate \<Rightarrow> bytes option) option \<Rightarrow> DispatchCandidate option tx" where
  "ClaimWaiting digest token fresh clock now build d =
     (case build of
        None \<Rightarrow> Inl EBuilderRequired
      | Some builder \<Rightarrow>
          (case claim_query now d of
             None \<Rightarrow> Inr (None, d)
           | Some claim \<Rightarrow>
               res_bind (build_candidate digest token clock d claim) (\<lambda>c.
                 case builder c of
                   None \<Rightarrow> Inl EBuildFailed
                 | Some envelope \<Rightarrow>
                     (if envelope = [] then Inl EOrderEmpty
                      else res_bind (dispatch_candidate now fresh envelope c d) (\<lambda>d'. Inr (Some c, d'))))))"

section \<open>Reconciling timed out dispatches\<close>

text \<open>\<^verbatim>\<open>runners.active_count\<close> goes down by one, active leases of the attempt are released.\<close>

definition releaseRunResources :: "time \<Rightarrow> string \<Rightarrow> string \<Rightarrow> db \<Rightarrow> db" where
  "releaseRunResources now runnerID attemptID d =
     (let d1 = d\<lparr>runners := sql_update (\<lambda>rr. rr_id rr = runnerID \<and> rr_active_count rr > 0)
                    (\<lambda>rr. rr\<lparr>rr_active_count := max (rr_active_count rr - 1) 0\<rparr>) (runners d)\<rparr>
      in d1\<lparr>leases := sql_update (\<lambda>l. lease_attempt_id l = attemptID \<and> lease_state l = ACTIVE)
                  (\<lambda>l. l\<lparr>lease_state := RELEASED, lease_released_at := Some now\<rparr>) (leases d1)\<rparr>)"

definition insert_event :: "event_row \<Rightarrow> db \<Rightarrow> store_error + db" where
  "insert_event e d =
     (if ev_sequence e \<le> 0
         \<or> list_ex (\<lambda>e'. ev_event_id e' = ev_event_id e
                       \<or> ev_attempt_id e' = ev_attempt_id e \<and> ev_sequence e' = ev_sequence e) (run_events d)
      then Inl EConstraint else Inr (d\<lparr>run_events := run_events d @ [e]\<rparr>))"

record timedOutDispatch =
  td_attemptID :: string
  td_runID :: string
  td_runnerID :: string
  td_attemptState :: attempt_state
  td_lastSequence :: int
  td_startFailed :: bool

definition dispatch_timed_out :: "time \<Rightarrow> run_row \<Rightarrow> attempt_row \<Rightarrow> task_version_row \<Rightarrow> bool" where
  "dispatch_timed_out now r a tv \<longleftrightarrow>
     run_state r = DISPATCHED \<and> att_state a \<in> {A_DISPATCHED, A_ACCEPTED}
       \<and> (case start_deadline r a of None \<Rightarrow> False | Some t \<Rightarrow> t \<le> now)
     \<or> run_state r = RUNNING \<and> att_state a \<in> {A_DISPATCHED, A_ACCEPTED, A_RUNNING}
       \<and> (case att_dispatched_at a of None \<Rightarrow> False
           | Some t \<Rightarrow> t + tv_duration_seconds tv * second + 10 * minute \<le> now)"

definition timed_out_rows :: "time \<Rightarrow> db \<Rightarrow> timedOutDispatch list" where
  "timed_out_rows now d =
     map (\<lambda>(r, a). \<lparr>td_attemptID = att_id a, td_runID = att_run_id a, td_runnerID = att_runner_id a,
                    td_attemptState = att_state a, td_lastSequence = att_last_sequence a,
                    td_startFailed = (case start_deadline r a of None \<Rightarrow> False | Some t \<Rightarrow> t \<le> now)\<rparr>)
       (sql_limit 100 (\<lambda>(r, a). (att_dispatched_at a = None, coalesce (att_dispatched_at a) 0, att_id a))
          [(r, a). (r, a) \<leftarrow> run_attempts d, tv \<leftarrow> task_versions d, tv_id tv = run_task_version_id r,
                   dispatch_timed_out now r a tv])"

definition error_payload :: "string \<Rightarrow> json" where
  "error_payload e = JObject [(''result'', JString []), (''error'', JString e)]"

text \<open>An exit code must be registered in the table of exit codes.\<close>

definition exit_code_known :: "int option \<Rightarrow> db \<Rightarrow> bool" where
  "exit_code_known c d = (case c of None \<Rightarrow> True | Some n \<Rightarrow> n \<in> set (exit_codes d))"

text \<open>
  What one timed out dispatch writes: the event, the attempt, the run. \<open>td_sequence\<close> is
  the sequence after the last applied one, at least 3.
\<close>

definition td_sequence :: "timedOutDispatch \<Rightarrow> int" where
  "td_sequence c = (let sequence = td_lastSequence c + 1 in if sequence < 3 then 3 else sequence)"

definition td_termination :: "timedOutDispatch \<Rightarrow> string" where
  "td_termination c = (if td_startFailed c then ''Start Failure'' else ''execution timeout could not be confirmed'')"

definition td_event :: "time \<Rightarrow> timedOutDispatch \<Rightarrow> event_row" where
  "td_event now c =
     \<lparr>ev_event_id = (if td_startFailed c then ''start-failure:'' else ''dispatch-timeout:'') @ td_attemptID c,
      ev_attempt_id = td_attemptID c, ev_sequence = td_sequence c,
      ev_kind = (if td_startFailed c then ''failed'' else ''unknown''), ev_reported_at = now,
      ev_payload = (if td_startFailed c
                    then JObject [(''result'', JString []), (''error'', JString ''Start Failure''),
                                  (''exit_code'', JNumber ''5'')]
                    else error_payload (td_termination c))\<rparr>"

definition td_exit_code :: "timedOutDispatch \<Rightarrow> int option" where
  "td_exit_code c = (if td_startFailed c then Some 5 else None)"

definition td_attempt :: "time \<Rightarrow> timedOutDispatch \<Rightarrow> attempt_row \<Rightarrow> attempt_row" where
  "td_attempt now c a =
     a\<lparr>att_state := (if td_startFailed c then A_FAILED else A_UNKNOWN),
       att_finished_at := Some (coalesce (att_finished_at a) now),
       att_termination_reason := Some (td_termination c), att_exit_code := td_exit_code c,
       att_last_sequence := td_sequence c, att_state_version := att_state_version a + 1\<rparr>"

definition td_run :: "time \<Rightarrow> time \<Rightarrow> timedOutDispatch \<Rightarrow> run_row \<Rightarrow> run_row" where
  "td_run now sqlnow c r =
     (set_run_state (if td_startFailed c then FAILED else UNKNOWN) sqlnow r)
       \<lparr>run_retry_not_before := None,
        run_completed_at := (if td_startFailed c then Some (coalesce (run_completed_at r) now)
                             else run_completed_at r)\<rparr>"

definition reconcile_dispatch :: "time \<Rightarrow> time \<Rightarrow> timedOutDispatch \<Rightarrow> db \<Rightarrow> store_error + db" where
  "reconcile_dispatch now sqlnow c d =
     res_bind (insert_event (td_event now c) d) (\<lambda>d1.
     res_bind (require EConstraint (exit_code_known (td_exit_code c) d1)) (\<lambda>_.
       let d2 = update_attempt (\<lambda>a. att_id a = td_attemptID c) (td_attempt now c) d1;
           d3 = update_run (\<lambda>r. run_id r = td_runID c \<and> run_state r \<in> {DISPATCHED, RUNNING}) (td_run now sqlnow c) d2;
           d4 = releaseRunResources sqlnow (td_runnerID c) (td_attemptID c) d3
       in Inr (d4\<lparr>outbox := sql_update
                 (\<lambda>row. ob_attempt_id row = td_attemptID c \<and> ob_message_type row = ''execute''
                        \<and> ob_state row = PENDING)
                 (\<lambda>row. row\<lparr>ob_state := OUTBOX_FAILED, ob_last_error := Some (td_termination c)\<rparr>) (outbox d4)\<rparr>)))"

fun reconcile_dispatches :: "time \<Rightarrow> time \<Rightarrow> timedOutDispatch list \<Rightarrow> db \<Rightarrow> store_error + db" where
  "reconcile_dispatches now sqlnow [] d = Inr d"
| "reconcile_dispatches now sqlnow (c # cs) d =
     res_bind (reconcile_dispatch now sqlnow c d) (reconcile_dispatches now sqlnow cs)"

definition ReconcileTimedOutDispatches :: "time \<Rightarrow> time \<Rightarrow> db \<Rightarrow> store_error + db" where
  "ReconcileTimedOutDispatches now sqlnow d =
     (if now = 0 then Inl ETimeRequired else reconcile_dispatches now sqlnow (timed_out_rows now d) d)"

section \<open>Cancellation\<close>

record CancellationCandidate =
  cn_RunID :: string
  cn_TaskID :: string
  cn_AttemptID :: string
  cn_RunnerID :: string
  cn_RunnerSessionID :: string
  cn_LeaseToken :: string
  cn_AttemptNumber :: int
  cn_FencingToken :: int
  cn_LeaseNotAfter :: time
  cn_Reason :: string

definition ClaimCancelling ::
  "time \<Rightarrow> (CancellationCandidate \<Rightarrow> bytes option) option \<Rightarrow> CancellationCandidate option tx" where
  "ClaimCancelling now build d =
     (case build of
        None \<Rightarrow> Inl EBuilderRequired
      | Some builder \<Rightarrow>
          (case sql_first (\<lambda>(r, a). (run_updated_at r, run_id r))
                  (filter (\<lambda>(r, a). run_state r = CANCELLING \<and> att_state a \<in> {A_DISPATCHED, A_ACCEPTED, A_RUNNING}
                             \<and> att_cancel_requested_at a = None) (run_attempts d)) of
             None \<Rightarrow> Inr (None, d)
           | Some (r, a) \<Rightarrow>
               (let c = \<lparr>cn_RunID = run_id r, cn_TaskID = run_task_id r, cn_AttemptID = att_id a,
                         cn_RunnerID = att_runner_id a, cn_RunnerSessionID = att_session_id a,
                         cn_LeaseToken = att_lease_token a, cn_AttemptNumber = att_number a,
                         cn_FencingToken = att_fencing_token a, cn_LeaseNotAfter = att_lease_not_after a,
                         cn_Reason = coalesce (run_cancellation_reason r) []\<rparr>
                in (case builder c of
                      None \<Rightarrow> Inl EBuildFailed
                    | Some envelope \<Rightarrow>
                        (if envelope = [] then Inl EOrderEmpty
                         else (let d1 = update_attempt (\<lambda>a'. att_id a' = cn_AttemptID c)
                                          (\<lambda>a'. a'\<lparr>att_cancel_requested_at := Some now\<rparr>) d;
                                   row = new_outbox (''cancel:'' @ cn_AttemptID c) (cn_AttemptID c) ''cancel''
                                           (cn_RunnerID c) envelope now
                               in if list_ex (\<lambda>row'. ob_message_id row' = ob_message_id row) (outbox d1)
                                  then Inr (Some c, d1)
                                  else Inr (Some c, d1\<lparr>outbox := outbox d1 @ [row]\<rparr>)))))))"

record staleCancellation =
  sn_attemptID :: string
  sn_runID :: string
  sn_runnerID :: string
  sn_lastSequence :: int
  sn_reason :: string

definition stale_rows :: "time \<Rightarrow> db \<Rightarrow> staleCancellation list" where
  "stale_rows cutoff d =
     map (\<lambda>(r, a). \<lparr>sn_attemptID = att_id a, sn_runID = att_run_id a, sn_runnerID = att_runner_id a,
                    sn_lastSequence = att_last_sequence a, sn_reason = coalesce (run_cancellation_reason r) []\<rparr>)
       (sql_limit 100 (\<lambda>(r, a). (run_updated_at r, run_id r))
          (filter (\<lambda>(r, a). run_state r = CANCELLING
                     \<and> att_state a \<in> {A_DISPATCHED, A_ACCEPTED, A_RUNNING, A_CANCELLING}
                     \<and> run_updated_at r < cutoff) (run_attempts d)))"

definition sn_cancelled :: "staleCancellation \<Rightarrow> bool" where
  "sn_cancelled c \<longleftrightarrow> sn_reason c = ''runner archived''"

definition sn_sequence :: "staleCancellation \<Rightarrow> int" where
  "sn_sequence c = (let sequence = sn_lastSequence c + 1 in if sequence < 3 then 3 else sequence)"

definition sn_event :: "time \<Rightarrow> staleCancellation \<Rightarrow> event_row" where
  "sn_event clock c =
     \<lparr>ev_event_id = ''cancellation-timeout:'' @ sn_attemptID c, ev_attempt_id = sn_attemptID c,
      ev_sequence = sn_sequence c, ev_kind = (if sn_cancelled c then ''cancelled'' else ''unknown''),
      ev_reported_at = clock,
      ev_payload = error_payload (if sn_cancelled c then ''runner archived''
                                  else ''cancellation could not be confirmed before timeout'')\<rparr>"

definition sn_attempt :: "time \<Rightarrow> staleCancellation \<Rightarrow> attempt_row \<Rightarrow> attempt_row" where
  "sn_attempt clock c a =
     a\<lparr>att_state := (if sn_cancelled c then A_CANCELLED else A_UNKNOWN),
       att_finished_at := Some (coalesce (att_finished_at a) clock),
       att_termination_reason := Some (if sn_cancelled c then ''runner archived''
                                       else ''cancellation could not be confirmed''),
       att_last_sequence := sn_sequence c, att_state_version := att_state_version a + 1\<rparr>"

definition sn_run :: "time \<Rightarrow> time \<Rightarrow> staleCancellation \<Rightarrow> run_row \<Rightarrow> run_row" where
  "sn_run clock sqlnow c r =
     (set_run_state (if sn_cancelled c then CANCELLED else UNKNOWN) sqlnow r)
       \<lparr>run_retry_not_before := None,
        run_completed_at := (if sn_cancelled c then Some (coalesce (run_completed_at r) clock)
                             else run_completed_at r)\<rparr>"

definition reconcile_cancellation :: "time \<Rightarrow> time \<Rightarrow> staleCancellation \<Rightarrow> db \<Rightarrow> store_error + db" where
  "reconcile_cancellation clock sqlnow c d =
     res_bind (insert_event (sn_event clock c) d) (\<lambda>d1.
       let d2 = update_attempt (\<lambda>a. att_id a = sn_attemptID c) (sn_attempt clock c) d1;
           d3 = update_run (\<lambda>r. run_id r = sn_runID c \<and> run_state r = CANCELLING) (sn_run clock sqlnow c) d2
       in Inr (releaseRunResources sqlnow (sn_runnerID c) (sn_attemptID c) d3))"

fun reconcile_cancellations :: "time \<Rightarrow> time \<Rightarrow> staleCancellation list \<Rightarrow> db \<Rightarrow> store_error + db" where
  "reconcile_cancellations clock sqlnow [] d = Inr d"
| "reconcile_cancellations clock sqlnow (c # cs) d =
     res_bind (reconcile_cancellation clock sqlnow c d) (reconcile_cancellations clock sqlnow cs)"

definition ReconcileStaleCancellations :: "time \<Rightarrow> time \<Rightarrow> time \<Rightarrow> db \<Rightarrow> store_error + db" where
  "ReconcileStaleCancellations cutoff clock sqlnow d =
     (if cutoff = 0 then Inl ETimeRequired else reconcile_cancellations clock sqlnow (stale_rows cutoff d) d)"

text \<open>\<^verbatim>\<open>RowsAffected() == 0\<close> is reported as \<open>None\<close>; otherwise the row is read back.\<close>

definition updated_run :: "string \<Rightarrow> (run_row \<Rightarrow> bool) \<Rightarrow> (run_row \<Rightarrow> run_row) \<Rightarrow> run_row option tx" where
  "updated_run ident P f d =
     (if sql_count (\<lambda>r. run_id r = ident \<and> P r) (runs d) = 0 then Inr (None, d)
      else (let d' = update_run (\<lambda>r. run_id r = ident \<and> P r) f d
            in Inr (find_row (\<lambda>r. run_id r = ident) (runs d'), d')))"

definition RequestCancellation :: "time \<Rightarrow> string \<Rightarrow> string \<Rightarrow> run_row option tx" where
  "RequestCancellation now ident reason0 d =
     (let reason = TrimSpace reason0
      in if reason = [] then Inl EReasonRequired
         else updated_run ident (\<lambda>r. run_state r \<in> {WAITING, DISPATCHED, RUNNING, RETRY_WAIT})
                (\<lambda>r. (set_run_state (if run_state r \<in> {WAITING, RETRY_WAIT} then CANCELLED else CANCELLING) now r)
                       \<lparr>run_cancellation_requested_at := Some now, run_cancellation_reason := Some reason,
                        run_completed_at := (if run_state r \<in> {WAITING, RETRY_WAIT} then Some now
                                             else run_completed_at r)\<rparr>) d)"

definition RunStore_Retry :: "time \<Rightarrow> string \<Rightarrow> string \<Rightarrow> run_row option tx" where
  "RunStore_Retry now ident reason d =
     updated_run ident
       (\<lambda>r. run_state r \<in> {FAILED, UNKNOWN}
            \<and> \<not> list_ex (\<lambda>t. task_id t = run_task_id r \<and> task_is_deleted t) (tasks d)
            \<and> (case find_row (\<lambda>tv. tv_id tv = run_task_version_id r) (task_versions d) of
                 None \<Rightarrow> False
               | Some tv \<Rightarrow> max_attempt (run_id r) (attempts d) < tv_max_attempts tv))
       (\<lambda>r. (set_run_state RETRY_WAIT now r)
              \<lparr>run_retry_not_before := Some now, run_start_deadline_at := Some (now + defaultStartDelay),
               run_completed_at := None,
               run_cancellation_reason := (if TrimSpace reason = [] then None else Some (TrimSpace reason))\<rparr>) d"

section \<open>The dispatch outbox\<close>

definition PendingDispatch :: "time \<Rightarrow> int \<Rightarrow> db \<Rightarrow> outbox_row list" where
  "PendingDispatch now limit0 d =
     (let limit = (if limit0 \<le> 0 \<or> limit0 > 100 then 100 else limit0)
      in sql_limit (nat limit) (\<lambda>row. (ob_created_at row, ob_message_id row))
           (filter (\<lambda>row. ob_state row = PENDING \<and> ob_available_at row \<le> now) (outbox d)))"

definition MarkDispatchPublished :: "time \<Rightarrow> string \<Rightarrow> db \<Rightarrow> db" where
  "MarkDispatchPublished now mid d =
     d\<lparr>outbox := sql_update (\<lambda>row. ob_message_id row = mid \<and> ob_state row = PENDING)
                  (\<lambda>row. row\<lparr>ob_state := PUBLISHED, ob_published_at := Some now\<rparr>) (outbox d)\<rparr>"

definition RetryDispatch :: "time \<Rightarrow> string \<Rightarrow> string \<Rightarrow> db \<Rightarrow> db" where
  "RetryDispatch now mid err d =
     d\<lparr>outbox := sql_update (\<lambda>row. ob_message_id row = mid \<and> ob_state row = PENDING)
                  (\<lambda>row. row\<lparr>ob_publish_attempts := ob_publish_attempts row + 1, ob_last_error := Some err,
                            ob_available_at := now + second\<rparr>) (outbox d)\<rparr>"

section \<open>Runner events\<close>

record RunEventInput =
  re_EventID :: string
  re_RunID :: string
  re_RunnerID :: string
  re_RunnerSessionID :: string
  re_LeaseToken :: string
  re_EventType :: string
  re_EventChannel :: string
  re_Subject :: string
  re_Error :: string
  re_Result :: string
  re_Metrics :: "(string, int) gomap"
  re_ExitCode :: "int option"
  re_Attempt :: int
  re_Sequence :: int
  re_FencingToken :: int
  re_ReportedAt :: time
  re_Envelope :: bytes

definition legalAttemptTransition :: "attempt_state \<Rightarrow> string \<Rightarrow> bool" where
  "legalAttemptTransition state eventType =
     (if eventType = ''accepted'' then state \<in> {A_DISPATCHED, A_RUNNING}
      else if eventType = ''started'' then state \<in> {A_ACCEPTED, A_DISPATCHED, A_RUNNING}
      else if eventType = ''heartbeat'' then state \<in> {A_ACCEPTED, A_RUNNING}
      else if eventType \<in> {''completed'', ''failed'', ''timed_out'', ''cancelled''}
      then state \<in> {A_ACCEPTED, A_RUNNING, A_CANCELLING}
      else if eventType = ''unknown'' then state \<in> {A_DISPATCHED, A_ACCEPTED, A_RUNNING, A_CANCELLING}
      else False)"

definition containsExitCode :: "int list \<Rightarrow> int \<Rightarrow> bool" where
  "containsExitCode codes expected = list_ex (\<lambda>code. code = expected) codes"

definition containsRetryReason :: "string list \<Rightarrow> string \<Rightarrow> bool" where
  "containsRetryReason reasons expected = list_ex (\<lambda>reason. reason = expected) reasons"

definition shouldRetry :: "RunEventInput \<Rightarrow> int \<Rightarrow> int list \<Rightarrow> string list \<Rightarrow> bool" where
  "shouldRetry event maxAttempts codes reasons =
     (if maxAttempts \<le> re_Attempt event then False
      else (codes = [] \<or> (case re_ExitCode event of None \<Rightarrow> False | Some c \<Rightarrow> containsExitCode codes c))
           \<and> (reasons = [] \<or> containsRetryReason reasons (re_Error event)))"

text \<open>The loop with \<open>n\<close> turns left, over any ordered type with a multiplication.\<close>

fun retry_seconds :: "('f :: linorder \<Rightarrow> 'f \<Rightarrow> 'f) \<Rightarrow> nat \<Rightarrow> 'f \<Rightarrow> 'f \<Rightarrow> 'f option \<Rightarrow> 'f" where
  "retry_seconds mul 0 seconds multiplier mx =
     (case mx of None \<Rightarrow> seconds | Some m \<Rightarrow> if seconds > m then m else seconds)"
| "retry_seconds mul (Suc n) seconds multiplier mx =
     (let s = mul seconds multiplier
      in (case mx of
            None \<Rightarrow> retry_seconds mul n s multiplier mx
          | Some m \<Rightarrow> if s \<ge> m then m else retry_seconds mul n s multiplier mx))"

definition retryDelaySeconds :: "RunEventInput \<Rightarrow> int \<Rightarrow> int \<Rightarrow> rat \<Rightarrow> rat" where
  "retryDelaySeconds event initialBackoff maxBackoff multiplier0 =
     (let multiplier = (if multiplier0 < 1 then 2 else multiplier0)
      in retry_seconds times (nat (re_Attempt event - 1)) (rat_of_int initialBackoff) multiplier
           (if maxBackoff > 0 then Some (rat_of_int maxBackoff) else None))"

definition not_final :: "run_row \<Rightarrow> bool" where
  "not_final r \<longleftrightarrow> run_state r \<notin> {SUCCEEDED, FAILED, CANCELLED}"

definition updateTerminalRun :: "time \<Rightarrow> RunEventInput \<Rightarrow> run_state \<Rightarrow> db \<Rightarrow> db" where
  "updateTerminalRun now event state d =
     update_run (\<lambda>r. run_id r = re_RunID event \<and> not_final r)
       (\<lambda>r. (set_run_state state now r)
              \<lparr>run_completed_at := Some (re_ReportedAt event), run_retry_not_before := None\<rparr>) d"

definition run_version :: "string \<Rightarrow> db \<Rightarrow> task_version_row option" where
  "run_version rid d =
     map_option snd (find_row (\<lambda>(r, tv). run_id r = rid \<and> run_task_version_id r = tv_id tv)
                       (List.product (runs d) (task_versions d)))"

definition updateRetryState :: "time \<Rightarrow> RunEventInput \<Rightarrow> db \<Rightarrow> store_error + db" where
  "updateRetryState now event d =
     (case run_version (re_RunID event) d of
        None \<Rightarrow> Inl ENoRows
      | Some tv \<Rightarrow>
          (if \<not> shouldRetry event (tv_max_attempts tv) (tv_retryable_exit_codes tv) (tv_retryable_reasons tv)
           then Inr (updateTerminalRun now event FAILED d)
           else (let seconds = retryDelaySeconds event (tv_initial_backoff_seconds tv) (tv_max_backoff_seconds tv)
                                 (tv_backoff_multiplier tv)
                 in Inr (update_run (\<lambda>r. run_id r = re_RunID event \<and> not_final r)
                      (\<lambda>r. (set_run_state RETRY_WAIT now r)
                             \<lparr>run_retry_not_before := Some (now + interval_seconds seconds),
                              run_completed_at := None\<rparr>) d))))"

definition startRunAttempt :: "time \<Rightarrow> RunEventInput \<Rightarrow> string \<Rightarrow> db \<Rightarrow> db" where
  "startRunAttempt now event attemptID d =
     update_run (\<lambda>r. run_id r = re_RunID event \<and> run_state r = DISPATCHED) (set_run_state RUNNING now)
       (update_attempt (\<lambda>a. att_id a = attemptID)
          (\<lambda>a. a\<lparr>att_state := A_RUNNING,
                att_started_at := Some (coalesce (att_started_at a) (re_ReportedAt event))\<rparr>) d)"

definition completed_state :: "string \<Rightarrow> attempt_state \<times> run_state" where
  "completed_state eventType =
     (if eventType = ''completed'' then (A_SUCCEEDED, SUCCEEDED)
      else if eventType = ''cancelled'' then (A_CANCELLED, CANCELLED)
      else (A_FAILED, FAILED))"

definition applyCompletedRunEvent ::
  "time \<Rightarrow> RunEventInput \<Rightarrow> string \<Rightarrow> string \<Rightarrow> json \<Rightarrow> db \<Rightarrow> store_error + db" where
  "applyCompletedRunEvent now event attemptID runnerID payload d =
     (let state = completed_state (re_EventType event);
          maxMemory = map_of (re_Metrics event) ''max_memory_bytes'';
          averageMemory = map_of (re_Metrics event) ''average_memory_bytes''
      in res_bind (require EConstraint
                     (exit_code_known (re_ExitCode event) d
                      \<and> (case maxMemory of None \<Rightarrow> True | Some m \<Rightarrow> 0 \<le> m)
                      \<and> (case averageMemory of None \<Rightarrow> True | Some m \<Rightarrow> 0 \<le> m))) (\<lambda>_.
           let d1 = update_attempt (\<lambda>a. att_id a = attemptID)
                      (\<lambda>a. a\<lparr>att_state := fst state,
                            att_finished_at := Some (coalesce (att_finished_at a) (re_ReportedAt event)),
                            att_termination_reason := (if re_Error event = [] then None else Some (re_Error event)),
                            att_exit_code := re_ExitCode event, att_result := Some payload,
                            att_max_memory := coalesce maxMemory (att_max_memory a),
                            att_average_memory := coalesce averageMemory (att_average_memory a)\<rparr>) d
           in res_bind (if re_EventType event = ''failed'' \<or> re_EventType event = ''timed_out''
                        then updateRetryState now event d1
                        else Inr (updateTerminalRun now event (snd state) d1))
                (\<lambda>d2. Inr (releaseRunResources now runnerID attemptID d2))))"

definition applyUnknownRunState :: "time \<Rightarrow> RunEventInput \<Rightarrow> string \<Rightarrow> db \<Rightarrow> store_error + db" where
  "applyUnknownRunState now event policy d =
     (case ResolveAmbiguous policy of
        None \<Rightarrow> Inl EAmbiguityPolicy
      | Some state \<Rightarrow>
          Inr (update_run (\<lambda>r. run_id r = re_RunID event \<and> not_final r)
            (\<lambda>r. if state = ''retry_wait''
                 then (set_run_state RETRY_WAIT now r)\<lparr>run_retry_not_before := Some (now + second)\<rparr>
                 else if state = ''failed''
                 then (set_run_state FAILED now r)\<lparr>run_completed_at := Some (re_ReportedAt event)\<rparr>
                 else set_run_state UNKNOWN now r) d))"

definition applyUnknownRunEvent ::
  "time \<Rightarrow> RunEventInput \<Rightarrow> string \<Rightarrow> string \<Rightarrow> db \<Rightarrow> store_error + db" where
  "applyUnknownRunEvent now event attemptID runnerID d =
     (let d1 = update_attempt (\<lambda>a. att_id a = attemptID)
                 (\<lambda>a. a\<lparr>att_state := A_UNKNOWN,
                       att_finished_at := Some (coalesce (att_finished_at a) (re_ReportedAt event)),
                       att_termination_reason := Some ''runner restart''\<rparr>) d
      in (case run_version (re_RunID event) d1 of
            None \<Rightarrow> Inl ENoRows
          | Some tv \<Rightarrow>
              res_bind (applyUnknownRunState now event (tv_ambiguity_policy tv) d1)
                (\<lambda>d2. Inr (releaseRunResources now runnerID attemptID d2))))"

definition applyRunEventTransition ::
  "time \<Rightarrow> RunEventInput \<Rightarrow> string \<Rightarrow> string \<Rightarrow> json \<Rightarrow> db \<Rightarrow> store_error + db" where
  "applyRunEventTransition now event attemptID runnerID payload d =
     (if re_EventType event = ''accepted''
      then Inr (update_attempt (\<lambda>a. att_id a = attemptID)
             (\<lambda>a. a\<lparr>att_state := (if att_state a = A_RUNNING then att_state a else A_ACCEPTED),
                   att_accepted_at := Some (coalesce (att_accepted_at a) (re_ReportedAt event))\<rparr>) d)
      else if re_EventType event = ''started'' then Inr (startRunAttempt now event attemptID d)
      else if re_EventType event = ''heartbeat''
      then Inr (update_attempt (\<lambda>a. att_id a = attemptID)
             (\<lambda>a. a\<lparr>att_last_heartbeat_at := Some (re_ReportedAt event)\<rparr>) d)
      else if re_EventType event \<in> {''completed'', ''failed'', ''timed_out'', ''cancelled''}
      then applyCompletedRunEvent now event attemptID runnerID payload d
      else if re_EventType event = ''unknown'' then applyUnknownRunEvent now event attemptID runnerID d
      else Inl EUnsupportedEvent)"

text \<open>\<^verbatim>\<open>INSERT INTO execution_log_chunks ... ON CONFLICT DO NOTHING\<close>\<close>

definition log_conflict :: "log_row \<Rightarrow> log_row \<Rightarrow> bool" where
  "log_conflict l l' \<longleftrightarrow>
     log_event_id l' = log_event_id l
     \<or> log_attempt_id l' = log_attempt_id l \<and> log_stream l' = log_stream l \<and> log_sequence l' = log_sequence l"

definition insert_log_or_skip :: "log_row \<Rightarrow> db \<Rightarrow> db" where
  "insert_log_or_skip l d =
     (if list_ex (log_conflict l) (log_chunks d) then d else d\<lparr>log_chunks := log_chunks d @ [l]\<rparr>)"

definition applyLogChunkEvent :: "(string \<Rightarrow> string) \<Rightarrow> RunEventInput \<Rightarrow> string \<Rightarrow> db \<Rightarrow> store_error + db" where
  "applyLogChunkEvent sha event attemptID d =
     (if re_EventChannel event \<noteq> ''stdout'' \<and> re_EventChannel event \<noteq> ''stderr'' then Inl ELogStream
      else if re_Result event = [] then Inl ELogEmpty
      else Inr (insert_log_or_skip
             \<lparr>log_event_id = re_EventID event, log_attempt_id = attemptID, log_stream = re_EventChannel event,
              log_sequence = re_Sequence event, log_reported_at = re_ReportedAt event,
              log_payload = re_Result event, log_checksum = sha (re_Result event)\<rparr> d))"

definition event_payload :: "RunEventInput \<Rightarrow> json" where
  "event_payload event =
     JObject ([(''result'', JString (re_Result event)), (''error'', JString (re_Error event))]
              @ (case re_ExitCode event of None \<Rightarrow> [] | Some c \<Rightarrow> [(''exit_code'', JNumber (Itoa c))])
              @ (if re_Metrics event = [] then []
                 else [(''metrics'', JObject (map (\<lambda>(k, v). (k, JNumber (Itoa v))) (re_Metrics event)))]))"

definition event_attempt :: "RunEventInput \<Rightarrow> db \<Rightarrow> attempt_row option" where
  "event_attempt event d =
     find_row (\<lambda>a. att_run_id a = re_RunID event \<and> att_number a = re_Attempt event
                  \<and> att_runner_id a = re_RunnerID event \<and> att_lease_token a = re_LeaseToken event) (attempts d)"

text \<open>Everything after the inbox has accepted a state event that is not a log chunk.\<close>

definition apply_state_event ::
  "(string \<Rightarrow> string) \<Rightarrow> time \<Rightarrow> RunEventInput \<Rightarrow> attempt_row \<Rightarrow> db \<Rightarrow> store_error + db" where
  "apply_state_event sha now event a d =
     (if re_Sequence event \<le> att_last_sequence a then Inr d
      else if \<not> legalAttemptTransition (att_state a) (re_EventType event) then Inl EIllegalTransition
      else res_bind (insert_event \<lparr>ev_event_id = re_EventID event, ev_attempt_id = att_id a,
                                   ev_sequence = re_Sequence event, ev_kind = re_EventType event,
                                   ev_reported_at = re_ReportedAt event, ev_payload = event_payload event\<rparr> d) (\<lambda>d1.
             let d2 = (if re_Result event \<noteq> []
                       then insert_log_or_skip
                              \<lparr>log_event_id = re_EventID event @ '':stdout'', log_attempt_id = att_id a,
                               log_stream = ''stdout'', log_sequence = re_Sequence event,
                               log_reported_at = re_ReportedAt event, log_payload = re_Result event,
                               log_checksum = sha (re_Result event)\<rparr> d1
                       else d1)
             in res_bind (applyRunEventTransition now event (att_id a) (att_runner_id a) (event_payload event) d2)
                  (\<lambda>d3. Inr (update_attempt (\<lambda>a'. att_id a' = att_id a)
                         (\<lambda>a'. a'\<lparr>att_last_sequence := re_Sequence event,
                                 att_state_version := att_state_version a' + 1\<rparr>) d3))))"

definition ApplyRunEvent ::
  "(string \<Rightarrow> string) \<Rightarrow> time \<Rightarrow> time \<Rightarrow> RunEventInput \<Rightarrow> db \<Rightarrow> store_error + db" where
  "ApplyRunEvent sha clock now event0 d =
     (if re_EventID event0 = [] \<or> re_RunID event0 = [] \<or> re_Attempt event0 \<le> 0 \<or> re_Sequence event0 \<le> 0
         \<or> re_EventType event0 = [] \<or> re_Envelope event0 = []
      then Inl EIncomplete
      else (let event = (if re_ReportedAt event0 = 0 then event0\<lparr>re_ReportedAt := clock\<rparr> else event0)
            in (case event_attempt event d of
                  None \<Rightarrow> Inl ENoRows
                | Some a \<Rightarrow>
                    (if re_RunnerSessionID event \<noteq> [] \<and> re_RunnerSessionID event \<noteq> att_session_id a
                     then Inl ESession
                     else if re_FencingToken event \<noteq> 0 \<and> re_FencingToken event \<noteq> att_fencing_token a
                     then Inl EFencing
                     else if list_ex (\<lambda>i. in_event_id i = re_EventID event) (inbox d) then Inr d
                     else (let d1 = d\<lparr>inbox := inbox d @
                                   [\<lparr>in_event_id = re_EventID event, in_attempt_id = att_id a,
                                     in_event_type = re_EventType event, in_subject = re_Subject event,
                                     in_envelope = re_Envelope event\<rparr>]\<rparr>
                           in if re_EventType event = ''log_chunk'' then applyLogChunkEvent sha event (att_id a) d1
                              else apply_state_event sha now event a d1)))))"

section \<open>Direct repository operations\<close>

definition RunStore_Transition :: "time \<Rightarrow> string \<Rightarrow> run_state list \<Rightarrow> run_state \<Rightarrow> run_row option tx" where
  "RunStore_Transition now ident from to d =
     (if from = [] then Inl EIncomplete
      else updated_run ident (\<lambda>r. run_state r \<in> set from)
             (\<lambda>r. (set_run_state to now r)
                    \<lparr>run_completed_at := (if to \<in> {SUCCEEDED, FAILED, CANCELLED} then Some now
                                         else run_completed_at r)\<rparr>) d)"

definition CreateAttempt :: "attempt_row \<Rightarrow> db \<Rightarrow> store_error + db" where
  "CreateAttempt a d =
     (if att_number a \<le> 0 \<or> att_fencing_token a \<le> 0 \<or> att_lease_not_after a = 0 then Inl EIncomplete
      else if \<not> list_ex (\<lambda>r. run_id r = att_run_id a) (runs d)
              \<or> \<not> list_ex (\<lambda>s. rs_id s = att_session_id a \<and> rs_runner_id s = att_runner_id a) (sessions d)
      then Inl EConstraint
      else insert_attempt
             (a\<lparr>att_state := A_WAITING, att_state_version := 0, att_last_sequence := 0, att_dispatched_at := None,
               att_accepted_at := None, att_started_at := None, att_last_heartbeat_at := None,
               att_cancel_requested_at := None, att_finished_at := None, att_exit_code := None,
               att_termination_reason := None, att_result := None, att_max_memory := 0,
               att_average_memory := 0\<rparr>) d)"

definition AppendEvent :: "time \<Rightarrow> event_row \<Rightarrow> db \<Rightarrow> store_error + db" where
  "AppendEvent clock e0 d =
     (let e = (if ev_reported_at e0 = 0 then e0\<lparr>ev_reported_at := clock\<rparr> else e0)
      in if ev_sequence e \<le> 0 \<or> ev_event_id e = [] \<or> ev_attempt_id e = [] \<or> ev_kind e = [] then Inl EIncomplete
         else if \<not> list_ex (\<lambda>a. att_id a = ev_attempt_id e) (attempts d) then Inl EConstraint
         else insert_event e d)"

definition AppendLogChunk :: "(string \<Rightarrow> string) \<Rightarrow> time \<Rightarrow> log_row \<Rightarrow> db \<Rightarrow> store_error + db" where
  "AppendLogChunk sha clock l0 d =
     (if log_event_id l0 = [] \<or> log_attempt_id l0 = [] \<or> log_sequence l0 \<le> 0
         \<or> (log_stream l0 \<noteq> ''stdout'' \<and> log_stream l0 \<noteq> ''stderr'')
      then Inl EIncomplete
      else (let l1 = (if log_reported_at l0 = 0 then l0\<lparr>log_reported_at := clock\<rparr> else l0);
                l = (if log_checksum l1 = [] then l1\<lparr>log_checksum := sha (log_payload l1)\<rparr> else l1)
            in if \<not> list_ex (\<lambda>a. att_id a = log_attempt_id l) (attempts d)
                  \<or> list_ex (log_conflict l) (log_chunks d)
               then Inl EConstraint else Inr (d\<lparr>log_chunks := log_chunks d @ [l]\<rparr>)))"

definition MaxRunLogChunksPerRead :: nat where
  "MaxRunLogChunksPerRead = 1000"

definition ListLogChunks :: "string \<Rightarrow> string \<Rightarrow> int \<Rightarrow> db \<Rightarrow> store_error + log_row list" where
  "ListLogChunks rid stream after d =
     (let items = sql_limit (MaxRunLogChunksPerRead + 1) log_sequence
                    [l. l \<leftarrow> log_chunks d, a \<leftarrow> attempts d, att_id a = log_attempt_id l, att_run_id a = rid,
                        log_stream l = stream, log_sequence l > after]
      in if length items > MaxRunLogChunksPerRead then Inl ELogBudget else Inr items)"

end
