(* ===== verification/ScheduleStore.thy ===== *)
theory ScheduleStore
  imports Cron TimeFormat RunStore
begin

text \<open>
  The schedule store (\<^verbatim>\<open>store/schedules.go\<close>) and the scheduler loop
  (\<^verbatim>\<open>controlplane/schedule_runner.go\<close>): versions of schedules, the transaction that turns one
  due schedule into a run under its misfire and concurrency policies, and the loop that
  repeats it. The callback \<open>next\<close> returns \<open>None\<close> for an error; \<open>rid\<close> is the random run
  identifier (\<open>None\<close> when the random source fails). The loop over missed occurrences is written
  as the code has it: the assignment in its body declares a new variable, so the one that the
  condition tests never changes.

  \<^verbatim>\<open>recordGlobalVariableReferences\<close> searches the JSON of a text; escaping neither adds nor
  removes references, so the text itself is searched here, and a variable is identified by its
  name.
\<close>

record ScheduleDefinition =
  sd_ID :: string
  sd_Name :: string
  sd_TaskID :: string
  sd_Expression :: string
  sd_Timezone :: string
  sd_Enabled :: bool
  sd_NextFireAt :: "time option"
  sd_MisfirePolicy :: string
  sd_ConcurrencyPolicy :: string
  sd_CatchupLimit :: int
  sd_DeadlineSeconds :: int
  sd_MaxConcurrentRuns :: int

record ScheduleRecord =
  sr_ID :: string
  sr_Name :: string
  sr_TaskID :: string
  sr_Expression :: string
  sr_Timezone :: string
  sr_Enabled :: bool
  sr_NextFireAt :: "time option"
  sr_State :: string
  sr_MisfirePolicy :: string
  sr_ConcurrencyPolicy :: string
  sr_CatchupLimit :: int
  sr_DeadlineSeconds :: int
  sr_MaxConcurrentRuns :: int
  sr_ActiveVersion :: int

record DueScheduleRecord =
  ds_ID :: string
  ds_TaskID :: string
  ds_TaskVersionID :: string
  ds_ScheduleVersionID :: string
  ds_Expression :: string
  ds_Timezone :: string
  ds_MisfirePolicy :: string
  ds_ConcurrencyPolicy :: string
  ds_NextFireAt :: time
  ds_CatchupLimit :: int
  ds_DeadlineSeconds :: int
  ds_MaxConcurrentRuns :: int
  ds_ActiveRuns :: nat

definition defaultStartDeadlineSeconds :: int where "defaultStartDeadlineSeconds = 60"
definition minimumStartDeadlineSeconds :: int where "minimumStartDeadlineSeconds = 30"

section \<open>Reading\<close>

definition current_versions :: "db \<Rightarrow> (schedule_row \<times> schedule_version_row) list" where
  "current_versions d =
     [(s, sv). s \<leftarrow> schedules d, sv \<leftarrow> schedule_versions d, sch_current_version_id s = Some (sv_id sv)]"

definition scanSchedule :: "schedule_row \<times> schedule_version_row \<Rightarrow> ScheduleRecord" where
  "scanSchedule row =
     (case row of (s, sv) \<Rightarrow>
        \<lparr>sr_ID = sch_id s, sr_Name = sch_name s, sr_TaskID = sch_task_id s, sr_Expression = sv_expression sv,
         sr_Timezone = sv_timezone sv, sr_Enabled = sch_enabled s, sr_NextFireAt = sch_next_fire_at s,
         sr_State = (if sch_enabled s then ''ACTIVE'' else ''DISABLED''), sr_MisfirePolicy = sv_misfire_policy sv,
         sr_ConcurrencyPolicy = sv_concurrency_policy sv, sr_CatchupLimit = sv_catchup_limit sv,
         sr_DeadlineSeconds = sv_start_deadline_seconds sv, sr_MaxConcurrentRuns = sv_max_concurrent_runs sv,
         sr_ActiveVersion = sv_version sv\<rparr>)"

definition ScheduleStore_List :: "db \<Rightarrow> ScheduleRecord list" where
  "ScheduleStore_List d =
     map scanSchedule (sort_key (\<lambda>(s, sv). (ToLower (sch_name s), sch_id s)) (current_versions d))"

definition ScheduleStore_Find :: "string \<Rightarrow> db \<Rightarrow> ScheduleRecord option" where
  "ScheduleStore_Find ident d = map_option scanSchedule (find_row (\<lambda>(s, sv). sch_id s = ident) (current_versions d))"

section \<open>Creating and changing schedules\<close>

definition normalizeScheduleDefinition :: "ScheduleDefinition \<Rightarrow> ScheduleDefinition" where
  "normalizeScheduleDefinition def0 =
     def0\<lparr>sd_Name := TrimSpace (sd_Name def0),
          sd_Timezone := (if sd_Timezone def0 = [] then ''UTC'' else sd_Timezone def0),
          sd_MisfirePolicy := (if sd_MisfirePolicy def0 = [] then ''SKIP_ALL'' else sd_MisfirePolicy def0),
          sd_DeadlineSeconds := (if sd_DeadlineSeconds def0 = 0 then defaultStartDeadlineSeconds
                                 else sd_DeadlineSeconds def0),
          sd_ConcurrencyPolicy := (if sd_ConcurrencyPolicy def0 = [] then ''ALLOW'' else sd_ConcurrencyPolicy def0)\<rparr>"

text \<open>The text is a reference to a global variable and nothing else.\<close>

definition only_reference :: "string \<Rightarrow> bool" where
  "only_reference s = (case match_reference s of Some (_, rest) \<Rightarrow> rest = [] | None \<Rightarrow> False)"

definition validateScheduleDefinition ::
  "(string \<Rightarrow> Location option) \<Rightarrow> ScheduleDefinition \<Rightarrow> store_error + unit" where
  "validateScheduleDefinition load def0 =
     (if sd_ID def0 = [] \<or> sd_Name def0 = [] \<or> sd_TaskID def0 = [] \<or> sd_Expression def0 = [] then Inl EScheduleInvalid
      else if (case ScheduleLocation load (sd_Timezone def0) of Inl _ \<Rightarrow> True | Inr _ \<Rightarrow> False)
              \<and> \<not> only_reference (sd_Timezone def0)
      then Inl ETimezoneInvalid
      else if sd_DeadlineSeconds def0 < minimumStartDeadlineSeconds then Inl EDeadlineInvalid
      else Inr ())"

definition insertScheduleVersion ::
  "string \<Rightarrow> string \<Rightarrow> int \<Rightarrow> string \<Rightarrow> ScheduleDefinition \<Rightarrow> db \<Rightarrow> store_error + db" where
  "insertScheduleVersion scheduleID taskID version taskVersionID def0 d =
     (if list_ex (\<lambda>sv. sv_id sv = scheduleID @ ''-v'' @ Itoa version
                     \<or> sv_schedule_id sv = scheduleID \<and> sv_version sv = version) (schedule_versions d)
         \<or> version \<le> 0 \<or> sd_CatchupLimit def0 < 0 \<or> sd_DeadlineSeconds def0 < 0 \<or> sd_MaxConcurrentRuns def0 < 0
         \<or> \<not> list_ex (\<lambda>tv. tv_id tv = taskVersionID \<and> tv_task_id tv = taskID) (task_versions d)
      then Inl EConstraint
      else Inr (d\<lparr>schedule_versions := schedule_versions d @
             [\<lparr>sv_id = scheduleID @ ''-v'' @ Itoa version, sv_schedule_id = scheduleID, sv_task_id = taskID,
               sv_version = version, sv_task_version_id = taskVersionID, sv_expression = sd_Expression def0,
               sv_timezone = sd_Timezone def0, sv_misfire_policy = sd_MisfirePolicy def0,
               sv_catchup_limit = sd_CatchupLimit def0, sv_start_deadline_seconds = sd_DeadlineSeconds def0,
               sv_concurrency_policy = sd_ConcurrencyPolicy def0,
               sv_max_concurrent_runs = sd_MaxConcurrentRuns def0\<rparr>]\<rparr>))"

definition reference_names :: "string \<Rightarrow> string list" where
  "reference_names s = concat (map (\<lambda>p. case p of Ref n \<Rightarrow> [n] | Lit _ \<Rightarrow> []) (pieces s))"

fun record_references :: "string \<Rightarrow> string \<Rightarrow> string list \<Rightarrow> string list \<Rightarrow> db \<Rightarrow> store_error + db" where
  "record_references ownerType ownerID [] seen d = Inr d"
| "record_references ownerType ownerID (name # names) seen d =
     (if ToLower name \<in> set seen then record_references ownerType ownerID names seen d
      else (case find_row (\<lambda>(n, _). ToLower n = ToLower name) (globals d) of
              None \<Rightarrow> Inl (EUndefinedVariable name)
            | Some (n, _) \<Rightarrow>
                (let row = (n, ownerType, ownerID)
                 in record_references ownerType ownerID names (ToLower name # seen)
                      (if row \<in> set (variable_references d) then d
                       else d\<lparr>variable_references := variable_references d @ [row]\<rparr>))))"

definition recordGlobalVariableReferences :: "string \<Rightarrow> string \<Rightarrow> string list \<Rightarrow> db \<Rightarrow> store_error + db" where
  "recordGlobalVariableReferences ownerType ownerID texts d =
     record_references ownerType ownerID (concat (map reference_names texts)) [] d"

definition task_current :: "string \<Rightarrow> db \<Rightarrow> store_error + string" where
  "task_current taskID d =
     (case find_row (\<lambda>t. task_id t = taskID \<and> \<not> task_is_deleted t) (tasks d) of
        None \<Rightarrow> Inl ENoRows
      | Some t \<Rightarrow> (case task_current_version_id t of None \<Rightarrow> Inl EScan | Some v \<Rightarrow> Inr v))"

text \<open>Names of schedules are unique up to case.\<close>

definition name_taken :: "string \<Rightarrow> string \<Rightarrow> db \<Rightarrow> bool" where
  "name_taken ident name d = list_ex (\<lambda>s. sch_id s \<noteq> ident \<and> ToLower (sch_name s) = ToLower name) (schedules d)"

definition set_schedule :: "string \<Rightarrow> (schedule_row \<Rightarrow> schedule_row) \<Rightarrow> db \<Rightarrow> db" where
  "set_schedule ident f d = d\<lparr>schedules := sql_update (\<lambda>s. sch_id s = ident) f (schedules d)\<rparr>"

definition ScheduleStore_Create ::
  "(string \<Rightarrow> Location option) \<Rightarrow> ScheduleDefinition \<Rightarrow> ScheduleRecord tx" where
  "ScheduleStore_Create load def0 d =
     (let def1 = normalizeScheduleDefinition def0
      in res_bind (validateScheduleDefinition load def1) (\<lambda>_.
         res_bind (task_current (sd_TaskID def1) d) (\<lambda>taskVersionID.
         res_bind (require EConstraint (\<not> list_ex (\<lambda>s. sch_id s = sd_ID def1) (schedules d)
                                        \<and> \<not> name_taken (sd_ID def1) (sd_Name def1) d)) (\<lambda>_.
           let d1 = d\<lparr>schedules := schedules d @
                  [\<lparr>sch_id = sd_ID def1, sch_task_id = sd_TaskID def1, sch_current_version_id = None,
                    sch_name = sd_Name def1, sch_enabled = sd_Enabled def1, sch_next_fire_at = sd_NextFireAt def1\<rparr>]\<rparr>
           in res_bind (insertScheduleVersion (sd_ID def1) (sd_TaskID def1) 1 taskVersionID def1 d1) (\<lambda>d2.
              res_bind (recordGlobalVariableReferences ''schedule_version'' (sd_ID def1 @ ''-v1'')
                          [sd_Expression def1, sd_Timezone def1, sd_Name def1] d2) (\<lambda>d3.
                let d4 = set_schedule (sd_ID def1) (\<lambda>s. s\<lparr>sch_current_version_id := Some (sd_ID def1 @ ''-v1'')\<rparr>) d3
                in (case ScheduleStore_Find (sd_ID def1) d4 of
                      None \<Rightarrow> Inl ENotCreated
                    | Some item \<Rightarrow> Inr (item, d4))))))))"

definition max_schedule_version :: "string \<Rightarrow> db \<Rightarrow> int" where
  "max_schedule_version ident d =
     foldr (\<lambda>sv m. max (sv_version sv) m) (filter (\<lambda>sv. sv_schedule_id sv = ident) (schedule_versions d)) 0"

definition ScheduleStore_Update ::
  "(string \<Rightarrow> Location option) \<Rightarrow> string \<Rightarrow> ScheduleDefinition \<Rightarrow> ScheduleRecord tx" where
  "ScheduleStore_Update load ident def0 d =
     (let def1 = (normalizeScheduleDefinition def0)\<lparr>sd_ID := ident\<rparr>
      in res_bind (validateScheduleDefinition load def1) (\<lambda>_.
           case find_row (\<lambda>s. sch_id s = ident) (schedules d) of
             None \<Rightarrow> Inl ENoRows
           | Some s \<Rightarrow>
               (let def2 = (if sd_TaskID def1 = [] then def1\<lparr>sd_TaskID := sch_task_id s\<rparr> else def1)
                in res_bind (task_current (sd_TaskID def2) d) (\<lambda>taskVersionID.
                     let version = max_schedule_version ident d + 1;
                         versionID = ident @ ''-v'' @ Itoa version
                     in res_bind (insertScheduleVersion ident (sd_TaskID def2) version taskVersionID def2 d) (\<lambda>d1.
                        res_bind (recordGlobalVariableReferences ''schedule_version'' versionID
                                    [sd_Expression def2, sd_Timezone def2, sd_Name def2] d1) (\<lambda>d2.
                        res_bind (require EConstraint (\<not> name_taken ident (sd_Name def2) d2)) (\<lambda>_.
                          let d3 = set_schedule ident
                                     (\<lambda>s. s\<lparr>sch_task_id := sd_TaskID def2, sch_name := sd_Name def2,
                                            sch_enabled := sd_Enabled def2, sch_current_version_id := Some versionID,
                                            sch_next_fire_at := sd_NextFireAt def2\<rparr>) d2
                          in (case ScheduleStore_Find ident d3 of
                                None \<Rightarrow> Inl ENotCreated
                              | Some item \<Rightarrow> Inr (item, d3)))))))))"

text \<open>
  Deleting a schedule deletes its versions, unless a run still refers to one of them: the foreign
  key of \<^verbatim>\<open>runs\<close> has no delete action.
\<close>

definition ScheduleStore_Delete :: "string \<Rightarrow> bool tx" where
  "ScheduleStore_Delete ident d =
     (let doomed = map sv_id (filter (\<lambda>sv. sv_schedule_id sv = ident) (schedule_versions d))
      in if \<not> list_ex (\<lambda>s. sch_id s = ident) (schedules d) then Inr (False, d)
         else if list_ex (\<lambda>r. case run_schedule_version_id r of None \<Rightarrow> False | Some v \<Rightarrow> v \<in> set doomed) (runs d)
         then Inl EConstraint
         else Inr (True, d\<lparr>schedules := filter (\<lambda>s. sch_id s \<noteq> ident) (schedules d),
                          schedule_versions := filter (\<lambda>sv. sv_schedule_id sv \<noteq> ident) (schedule_versions d)\<rparr>))"

definition SetEnabled :: "string \<Rightarrow> bool \<Rightarrow> ScheduleRecord option tx" where
  "SetEnabled ident enabled d =
     (if sql_count (\<lambda>s. sch_id s = ident) (schedules d) = 0 then Inr (None, d)
      else (let d' = set_schedule ident (\<lambda>s. s\<lparr>sch_enabled := enabled\<rparr>) d
            in Inr (ScheduleStore_Find ident d', d')))"

section \<open>Turning a due schedule into a run\<close>

definition active_runs :: "string \<Rightarrow> db \<Rightarrow> nat" where
  "active_runs version d =
     sql_count (\<lambda>r. run_schedule_version_id r = Some version
                  \<and> run_state r \<in> {WAITING, RUNNING, RETRY_WAIT, CANCELLING}) (runs d)"

definition due_rows :: "time \<Rightarrow> db \<Rightarrow> (schedule_row \<times> schedule_version_row) list" where
  "due_rows now d =
     filter (\<lambda>(s, sv).
         sch_enabled s
         \<and> (case sch_next_fire_at s of None \<Rightarrow> True | Some t \<Rightarrow> t \<le> now)
         \<and> \<not> (sv_concurrency_policy sv = ''ALLOW'' \<and> sv_max_concurrent_runs sv > 0
               \<and> int (active_runs (sv_id sv) d) \<ge> sv_max_concurrent_runs sv
              \<or> sv_concurrency_policy sv = ''QUEUE'' \<and> active_runs (sv_id sv) d > 0)) (current_versions d)"

definition due_query :: "time \<Rightarrow> db \<Rightarrow> (schedule_row \<times> schedule_version_row) option" where
  "due_query now d =
     sql_first (\<lambda>(s, sv). (sch_next_fire_at s = None, coalesce (sch_next_fire_at s) 0, sch_id s)) (due_rows now d)"

definition due_record :: "db \<Rightarrow> schedule_row \<times> schedule_version_row \<Rightarrow> DueScheduleRecord" where
  "due_record d row =
     (case row of (s, sv) \<Rightarrow>
        \<lparr>ds_ID = sch_id s, ds_TaskID = sch_task_id s, ds_TaskVersionID = sv_task_version_id sv,
         ds_ScheduleVersionID = sv_id sv, ds_Expression = sv_expression sv, ds_Timezone = sv_timezone sv,
         ds_MisfirePolicy = sv_misfire_policy sv, ds_ConcurrencyPolicy = sv_concurrency_policy sv, ds_NextFireAt = 0,
         ds_CatchupLimit = sv_catchup_limit sv, ds_DeadlineSeconds = sv_start_deadline_seconds sv,
         ds_MaxConcurrentRuns = sv_max_concurrent_runs sv, ds_ActiveRuns = active_runs (sv_id sv) d\<rparr>)"

definition deadlineValue :: "time \<Rightarrow> int \<Rightarrow> time" where
  "deadlineValue occurrence seconds =
     (if seconds \<le> 0 then occurrence + defaultStartDeadlineSeconds * second else occurrence + seconds * second)"

text \<open>What the loop passes to \<open>next\<close>: expression, time zone and instant, all other fields zero.\<close>

definition bare_due :: "string \<Rightarrow> string \<Rightarrow> time \<Rightarrow> DueScheduleRecord" where
  "bare_due expression timezone instant =
     \<lparr>ds_ID = [], ds_TaskID = [], ds_TaskVersionID = [], ds_ScheduleVersionID = [], ds_Expression = expression,
      ds_Timezone = timezone, ds_MisfirePolicy = [], ds_ConcurrencyPolicy = [], ds_NextFireAt = instant,
      ds_CatchupLimit = 0, ds_DeadlineSeconds = 0, ds_MaxConcurrentRuns = 0, ds_ActiveRuns = 0\<rparr>"

text \<open>The loop over missed occurrences with \<open>n = 1000 - len(missed)\<close> turns left; \<open>inner\<close> is the shadowed variable.\<close>

fun missed_loop ::
  "(DueScheduleRecord \<Rightarrow> time option) \<Rightarrow> DueScheduleRecord \<Rightarrow> time \<Rightarrow> time \<Rightarrow> nat \<Rightarrow> time list \<Rightarrow> store_error + time list" where
  "missed_loop nxt due now current 0 missed = Inr missed"
| "missed_loop nxt due now current (Suc n) missed =
     (if current > now then Inr missed
      else (case nxt (bare_due (ds_Expression due) (ds_Timezone due) current) of
              None \<Rightarrow> Inl ENextFailed
            | Some inner \<Rightarrow>
                (if inner = 0 then Inl ENextEmpty else missed_loop nxt due now current n (missed @ [current]))))"

definition nth_time :: "time list \<Rightarrow> nat \<Rightarrow> store_error + time" where
  "nth_time ts i = (if i < length ts then Inr (ts ! i) else Inl EPanic)"

definition chooseDueOccurrence ::
  "DueScheduleRecord \<Rightarrow> time \<Rightarrow> time \<Rightarrow> (DueScheduleRecord \<Rightarrow> time option) \<Rightarrow> store_error + time \<times> time" where
  "chooseDueOccurrence due now nextFire nxt =
     (if nextFire > now then Inr (ds_NextFireAt due, nextFire)
      else res_bind (missed_loop nxt due now nextFire 999 [ds_NextFireAt due]) (\<lambda>missed.
             let current = nextFire
             in if ds_MisfirePolicy due = ''SKIP_ALL'' \<or> ds_MisfirePolicy due = ''FAIL_AND_ALERT''
                then Inr (0, current)
                else if ds_MisfirePolicy due = ''RUN_LATEST'' then Inr (last missed, current)
                else if ds_MisfirePolicy due = ''RUN_UP_TO_N''
                then (let limit = ds_CatchupLimit due
                      in if limit \<le> 0 \<or> int (length missed) \<le> limit then Inr (hd missed, nextFire)
                         else (let index = length missed - nat limit
                               in res_bind (nth_time missed index) (\<lambda>occurrence.
                                  res_bind (nth_time missed (index + 1)) (\<lambda>following. Inr (occurrence, following)))))
                else Inr (hd missed, nextFire)))"

definition set_next_fire :: "string \<Rightarrow> time \<Rightarrow> db \<Rightarrow> db" where
  "set_next_fire ident t d = set_schedule ident (\<lambda>s. s\<lparr>sch_next_fire_at := Some t\<rparr>) d"

definition replace_active :: "time \<Rightarrow> string \<Rightarrow> db \<Rightarrow> db" where
  "replace_active sqlnow version d =
     update_run (\<lambda>r. run_schedule_version_id r = Some version \<and> run_state r \<in> {WAITING, DISPATCHED, RUNNING, RETRY_WAIT})
       (\<lambda>r. (set_run_state CANCELLING sqlnow r)
              \<lparr>run_cancellation_requested_at := Some (coalesce (run_cancellation_requested_at r) sqlnow),
               run_cancellation_reason := Some ''schedule replacement''\<rparr>) d"

text \<open>\<^verbatim>\<open>INSERT INTO runs ... ON CONFLICT (idempotency_key) DO NOTHING\<close>\<close>

definition insert_run_once :: "run_row \<Rightarrow> db \<Rightarrow> store_error + db" where
  "insert_run_once r d =
     (if list_ex (\<lambda>r'. run_idempotency_key r' = run_idempotency_key r) (runs d) then Inr d else insert_run r d)"

definition scheduled_run :: "string \<Rightarrow> DueScheduleRecord \<Rightarrow> time \<Rightarrow> (string, string) gomap \<Rightarrow> time \<Rightarrow> run_row" where
  "scheduled_run rid due occurrence vars sqlnow =
     (new_run rid (ds_TaskID due) (ds_TaskVersionID due) ''SCHEDULE'' occurrence vars
        (Some (deadlineValue occurrence (ds_DeadlineSeconds due))) (ds_ID due @ '':'' @ rfc3339_nano occurrence) sqlnow)
     \<lparr>run_schedule_version_id := Some (ds_ScheduleVersionID due)\<rparr>"

text \<open>The end of the transaction, once the schedule, its due record and its next firing are known.\<close>

definition fire_schedule ::
  "string option \<Rightarrow> (DueScheduleRecord \<Rightarrow> time option) \<Rightarrow> time \<Rightarrow> time \<Rightarrow> (string, string) gomap \<Rightarrow> DueScheduleRecord
     \<Rightarrow> time \<Rightarrow> (string \<times> bool) tx" where
  "fire_schedule rid nxt now sqlnow vars due nextFire d =
     (if ds_ConcurrencyPolicy due = ''SKIP'' \<and> ds_ActiveRuns due > 0
      then Inr (([], True), set_next_fire (ds_ID due) nextFire d)
      else if ds_ConcurrencyPolicy due = ''ALLOW'' \<and> ds_MaxConcurrentRuns due > 0
              \<and> int (ds_ActiveRuns due) \<ge> ds_MaxConcurrentRuns due
      then Inr (([], False), d)
      else if ds_ConcurrencyPolicy due = ''QUEUE'' \<and> ds_ActiveRuns due > 0 then Inr (([], False), d)
      else (let d1 = (if ds_ConcurrencyPolicy due = ''REPLACE'' \<and> ds_ActiveRuns due > 0
                      then replace_active sqlnow (ds_ScheduleVersionID due) d else d)
            in res_bind (chooseDueOccurrence due now nextFire nxt) (\<lambda>(occurrence, nextFire').
                 if occurrence = 0 then Inr (([], True), set_next_fire (ds_ID due) nextFire' d1)
                 else (case rid of
                         None \<Rightarrow> Inl ERandom
                       | Some runID \<Rightarrow>
                           (if nextFire' = 0 then Inl ENextEmpty
                            else res_bind (insert_run_once (scheduled_run runID due occurrence vars sqlnow) d1) (\<lambda>d2.
                                   Inr ((runID, True), set_next_fire (ds_ID due) nextFire' d2)))))))"

definition createDueRun ::
  "string option \<Rightarrow> (DueScheduleRecord \<Rightarrow> time option) \<Rightarrow> time \<Rightarrow> time \<Rightarrow> (string \<times> bool) tx" where
  "createDueRun rid nxt now sqlnow d =
     (case due_query now d of
        None \<Rightarrow> Inr (([], False), d)
      | Some (s, sv) \<Rightarrow>
          (let vars = loadGlobalVariables d; due0 = due_record d (s, sv)
           in res_bind (undefined_error (ResolveGlobalVariables (ds_Expression due0) vars)) (\<lambda>expression.
              res_bind (undefined_error (ResolveGlobalVariables (ds_Timezone due0) vars)) (\<lambda>timezone.
                let due = due0\<lparr>ds_Expression := expression, ds_Timezone := timezone,
                               ds_NextFireAt := (case sch_next_fire_at s of None \<Rightarrow> now | Some t \<Rightarrow> t)\<rparr>
                in (case nxt due of
                      None \<Rightarrow> Inl ENextFailed
                    | Some nextFire \<Rightarrow>
                        (if \<not> nextFire > ds_NextFireAt due then Inl ENextStuck
                         else if sch_next_fire_at s = None
                         then Inr (([], True), set_next_fire (ds_ID due) nextFire d)
                         else fire_schedule rid nxt now sqlnow vars due nextFire d))))))"

definition checkStoragePressure :: "pressure_provider \<Rightarrow> store_error + unit" where
  "checkStoragePressure provider =
     (case provider of
        None \<Rightarrow> Inr ()
      | Some (Inl _) \<Rightarrow> Inl EPressureUnknown
      | Some (Inr pressure) \<Rightarrow>
          (if sp_State pressure = StorageUnavailable then Inl EStorageUnavailable
           else if RejectNewRuns pressure then Inl EStorageExhausted
           else Inr ()))"

definition CreateDueRun ::
  "pressure_provider \<Rightarrow> string option \<Rightarrow> (DueScheduleRecord \<Rightarrow> time option) option \<Rightarrow> time \<Rightarrow> time \<Rightarrow> (string \<times> bool) tx" where
  "CreateDueRun provider rid nxt now sqlnow d =
     (case nxt of
        None \<Rightarrow> Inl ENextRequired
      | Some f \<Rightarrow> res_bind (checkStoragePressure provider) (\<lambda>_. createDueRun rid f now sqlnow d))"

section \<open>The scheduler loop\<close>

definition cron_next :: "(string \<Rightarrow> Location option) \<Rightarrow> DueScheduleRecord \<Rightarrow> time option" where
  "cron_next load due =
     (case NextFire load (ds_Expression due) (ds_Timezone due) (ds_NextFireAt due) of Inl _ \<Rightarrow> None | Inr t \<Rightarrow> Some t)"

text \<open>At most \<open>n\<close> transactions; \<open>rids\<close> yields their random identifiers. What committed before an error stays.\<close>

fun due_loop ::
  "pressure_provider \<Rightarrow> (nat \<Rightarrow> string option) \<Rightarrow> (string \<Rightarrow> Location option) \<Rightarrow> time \<Rightarrow> time \<Rightarrow> nat \<Rightarrow> db \<Rightarrow> store_error option \<times> db" where
  "due_loop provider rids load now sqlnow 0 d = (None, d)"
| "due_loop provider rids load now sqlnow (Suc n) d =
     (case CreateDueRun provider (rids n) (Some (cron_next load)) now sqlnow d of
        Inl e \<Rightarrow> (Some e, d)
      | Inr ((_, changed), d') \<Rightarrow> if changed then due_loop provider rids load now sqlnow n d' else (None, d'))"

definition scheduleDueRuns ::
  "pressure_provider \<Rightarrow> (nat \<Rightarrow> string option) \<Rightarrow> (string \<Rightarrow> Location option) \<Rightarrow> time \<Rightarrow> time \<Rightarrow> db \<Rightarrow> store_error option \<times> db" where
  "scheduleDueRuns provider rids load now sqlnow d = due_loop provider rids load now sqlnow 100 d"

end
