(* ===== verification/CronFacts.thy ===== *)
theory CronFacts
  imports Cron
begin

text \<open>Correctness of the cron parser and of the search for the next firing.\<close>

section \<open>The values of a field\<close>

lemma cron_values_upper:
  "cron_values n v end step vs = Some r \<Longrightarrow> set vs \<subseteq> set r \<and> set r \<subseteq> set vs \<union> {.. end}
     \<and> (distinct vs \<longrightarrow> distinct r)"
proof (induction n arbitrary: v vs)
  case (Suc n)
  show ?case
  proof (cases "v \<le> end")
    case True
    then have "cron_values n (wrap64 (v + step)) end step (List.insert v vs) = Some r" using Suc.prems by simp
    from Suc.IH [OF this] True show ?thesis by auto
  next
    case False
    then show ?thesis using Suc.prems by simp
  qed
qed simp

text \<open>Without overflow the loop enumerates an arithmetic progression.\<close>

lemma cron_values_progression:
  assumes "0 < step" "in64 v" "end + step < 2 ^ 63" "nat (end + 1 - v) < n"
  shows "\<exists>r. cron_values n v end step vs = Some r
           \<and> set r = set vs \<union> {x. v \<le> x \<and> x \<le> end \<and> step dvd (x - v)}"
  using assms
proof (induction n arbitrary: v vs)
  case (Suc n)
  show ?case
  proof (cases "v \<le> end")
    case True
    then have in64: "in64 (v + step)" using Suc.prems by (simp add: in64_def)
    then have w: "wrap64 (v + step) = v + step" by (rule wrap64_id)
    have "nat (end + 1 - (v + step)) < n" using Suc.prems True by linarith
    from Suc.IH [OF Suc.prems(1) in64 Suc.prems(3) this, of "List.insert v vs"]
    obtain r where r: "cron_values n (v + step) end step (List.insert v vs) = Some r"
      "set r = set (List.insert v vs) \<union> {x. v + step \<le> x \<and> x \<le> end \<and> step dvd (x - (v + step))}" by blast
    have "{x. v \<le> x \<and> x \<le> end \<and> step dvd (x - v)}
          = insert v {x. v + step \<le> x \<and> x \<le> end \<and> step dvd (x - (v + step))}" (is "?A = insert v ?B")
    proof (intro set_eqI iffI)
      fix x
      assume x: "x \<in> ?A"
      then obtain k where k: "x - v = step * k" by (auto simp: dvd_def)
      then have "0 \<le> step * k" using x by auto
      then have "k = 0 \<or> 1 \<le> k" using Suc.prems(1) by (auto simp: zero_le_mult_iff)
      then show "x \<in> insert v ?B"
      proof
        assume "1 \<le> k"
        then have "step \<le> step * k" using Suc.prems(1) by simp
        moreover have "x - (v + step) = step * (k - 1)" using k by (simp add: algebra_simps)
        moreover have "v + step \<le> x" using k calculation(1) by linarith
        ultimately show ?thesis using x by simp
      qed (use k in simp)
    next
      fix x
      assume "x \<in> insert v ?B"
      then show "x \<in> ?A"
      proof
        assume "x \<in> ?B"
        then have "step dvd (x - (v + step)) + step" by (intro dvd_add) auto
        then have "step dvd (x - v)" by (rule back_subst [of "(dvd) step"]) simp
        then show ?thesis using \<open>x \<in> ?B\<close> Suc.prems(1) by simp
      qed (use True in simp)
    qed
    then show ?thesis using True r by (auto simp: w)
  next
    case False
    then show ?thesis by auto
  qed
qed simp

text \<open>With overflow two turns of the loop lower the value, until the next sum leaves the field.\<close>

lemma cron_values_overflow:
  assumes "2 ^ 63 - 59 \<le> step" "step < 2 ^ 63" "end \<le> 59" "- 59 \<le> v" "v + 59 \<le> 2 * int k"
  shows "\<exists>r. cron_values (2 * k + 2 + n) v end step vs = Some r"
  using assms(4,5)
proof (induction k arbitrary: v vs)
  case 0
  then have v: "v = - 59" by simp
  then have "in64 (v + step)" using assms(1,2) by (simp add: in64_def)
  then show ?case using v assms by (simp add: wrap64_id numeral_2_eq_2)
next
  case (Suc k)
  have n: "2 * Suc k + 2 + n = Suc (Suc (2 * k + 2 + n))" by simp
  consider "v > end" | "v \<le> end" "v + step < 2 ^ 63" | "v \<le> end" "2 ^ 63 \<le> v + step" by linarith
  then show ?case
  proof cases
    case 2
    then have "in64 (v + step)" using assms Suc.prems by (simp add: in64_def)
    then show ?thesis using 2 assms Suc.prems unfolding n by (simp add: wrap64_id)
  next
    case 3
    have "wrap64 (v + step) = v + step - 2 ^ 64"
    proof -
      have "v + step + 2 ^ 63 = (v + step - 2 ^ 63) + 2 ^ 64 * 1" by simp
      then have "(v + step + 2 ^ 63) mod 2 ^ 64 = (v + step - 2 ^ 63) mod 2 ^ 64" by (metis mod_mult_self2)
      also have "\<dots> = v + step - 2 ^ 63" using 3 assms by (intro mod_pos_pos_trivial) auto
      finally show ?thesis by (simp add: wrap64_def)
    qed
    moreover have "wrap64 (v + step - 2 ^ 64 + step) = v + step - 2 ^ 64 + step"
      using 3 assms by (intro wrap64_id) (simp add: in64_def)
    moreover have "\<exists>r. cron_values (2 * k + 2 + n) (v + step - 2 ^ 64 + step) end step
                     (List.insert (v + step - 2 ^ 64) (List.insert v vs)) = Some r"
      using 3 assms(1-3) Suc.prems by (intro Suc.IH) auto
    ultimately show ?thesis unfolding n using 3 assms by (simp del: power_numeral)
  qed (simp add: n)
qed

lemma cron_values_total:
  assumes "0 \<le> v" "end \<le> 59" "0 < step" "step < 2 ^ 63"
  shows "\<exists>r. cron_values cron_fuel v end step vs = Some r"
proof (cases "v \<le> end")
  case True
  show ?thesis
  proof (cases "step < 2 ^ 63 - 59")
    case True
    have "in64 v" using assms \<open>v \<le> end\<close> by (simp add: in64_def)
    moreover have "nat (end + 1 - v) < cron_fuel" using assms by (simp add: cron_fuel_def)
    ultimately show ?thesis
      using cron_values_progression [of step v "end" cron_fuel vs] assms True by auto
  next
    case False
    have "(200 :: nat) = 2 * 59 + 2 + 80" by simp
    then show ?thesis unfolding cron_fuel_def
      using cron_values_overflow [of step "end" v 59 80 vs] assms False True by simp
  qed
next
  case False
  then show ?thesis by (simp add: cron_fuel_def eval_nat_numeral)
qed

lemma parseCronPart_step:
  assumes "parseCronPart part lo hi = Inr (start, end, step)"
  shows "0 < step" "step < 2 ^ 63"
  using assms Atoi_in64
  by (auto simp: parseCronPart_def parseCronStep_def in64_def split: sum.splits option.splits if_splits prod.splits)

lemma parse_parts_upper:
  "parse_parts ps lo hi vs = Inr r \<Longrightarrow> set vs \<subseteq> {.. hi} \<Longrightarrow> distinct vs \<Longrightarrow> set r \<subseteq> {.. hi} \<and> distinct r"
proof (induction ps arbitrary: vs)
  case (Cons p ps)
  then obtain start end' step vs' where
      b: "parseCronPart p lo hi = Inr (start, end', step)" "end' \<le> hi"
      "cron_values cron_fuel start end' step vs = Some vs'" "parse_parts ps lo hi vs' = Inr r"
    by (auto split: if_splits sum.splits option.splits prod.splits)
  have "set vs' \<subseteq> {.. hi}" "distinct vs'" using cron_values_upper [OF b(3)] b(2) Cons.prems(2,3) by auto
  then show ?case using Cons.IH b(4) by blast
qed simp

lemma parseCronField_upper:
  assumes "parseCronField field lo hi = Inr r"
  shows "set r \<subseteq> {.. hi}" "distinct r"
  using parse_parts_upper [OF assms [unfolded parseCronField_def]] by auto

lemma parse_parts_returns:
  "0 \<le> lo \<Longrightarrow> hi \<le> 59 \<Longrightarrow> parse_parts ps lo hi vs \<noteq> Inl CronLoop"
proof (induction ps arbitrary: vs)
  case (Cons p ps)
  have "parseCronPart p lo hi \<noteq> Inl CronLoop"
    by (auto simp: parseCronPart_def parseCronStep_def parseCronRange_def
        split: sum.splits option.splits if_splits prod.splits)
  moreover have "cron_values cron_fuel start end' step vs \<noteq> None"
    if "parseCronPart p lo hi = Inr (start, end', step)" "lo \<le> start" "end' \<le> hi" for start end' step
    using cron_values_total [of start end' step vs] parseCronPart_step [OF that(1)] that Cons.prems by auto
  ultimately show ?case
    using Cons.IH [OF Cons.prems] by (auto simp: not_less split: sum.splits option.splits prod.splits)
qed simp

text \<open>A short numeral cannot overflow.\<close>

lemma digits_value_bound: "digits_value acc s = Some n \<Longrightarrow> n < (acc + 1) * 10 ^ length s"
proof (induction s arbitrary: acc)
  case (Cons c s)
  then have d: "is_digit c" "digits_value (acc * 10 + digit_val c) s = Some n" by (auto split: if_splits)
  have "digit_val c < 10" using d(1) by (auto simp: is_digit_def digit_val_def less_eq_char_def)
  then have "(acc * 10 + digit_val c + 1) * 10 ^ length s \<le> (acc + 1) * 10 * 10 ^ length s"
    by (intro mult_le_mono1) simp
  then show ?case using Cons.IH [OF d(2)] by (simp only: length_Cons power_Suc mult.assoc)
qed simp

lemma Atoi_bound: "Atoi s = Some v \<Longrightarrow> \<bar>v\<bar> < 10 ^ length s"
proof -
  assume a: "Atoi s = Some v"
  have b: "int n < 10 ^ length s" if "digits_value 0 t = Some n" "length t \<le> length s" for t n
  proof -
    have "n < 10 ^ length t" using digits_value_bound [OF that(1)] by simp
    also have "\<dots> \<le> (10 :: nat) ^ length s" using that(2) by (intro power_increasing) auto
    finally show ?thesis by (metis of_nat_less_iff of_nat_numeral of_nat_power)
  qed
  show ?thesis
    using a by (auto simp: Atoi_def Let_def simp del: of_nat_less_numeral_power_cancel_iff dest!: b split: if_splits option.splits)
qed

lemma length_Split_part: "p \<in> set (Split c s) \<Longrightarrow> length p \<le> length s"
proof (induction s arbitrary: p)
  case (Cons x xs)
  then show ?case by (cases "Split c xs") (auto split: if_splits intro: le_SucI)
qed simp

lemma parseCronPart_short:
  assumes "parseCronPart part lo hi = Inr (start, end, step)" "length part \<le> 18"
  shows "step < 10 ^ 18"
proof (cases "cut (CHR ''/'') part")
  case None
  then show ?thesis
    using assms by (auto simp: parseCronPart_def parseCronStep_def split: sum.splits prod.splits)
next
  case (Some ab)
  then obtain a b where ab: "cut (CHR ''/'') part = Some (a, b)" by (cases ab) auto
  then have "Atoi b = Some step"
    using assms by (auto simp: parseCronPart_def parseCronStep_def split: sum.splits option.splits if_splits prod.splits)
  then have "\<bar>step\<bar> < 10 ^ length b" by (rule Atoi_bound)
  moreover have "length b \<le> 18" using cut_eq_Some [OF ab] assms(2) by auto
  then have "(10 :: int) ^ length b \<le> 10 ^ 18" by (intro power_increasing) auto
  ultimately show ?thesis by linarith
qed

text \<open>What the text of a field denotes: the union of its parts' progressions.\<close>

definition cron_part_values :: "int \<Rightarrow> int \<Rightarrow> string \<Rightarrow> int set" where
  "cron_part_values lo hi part =
     (case parseCronPart part lo hi of
        Inl _ \<Rightarrow> {}
      | Inr (start, end, step) \<Rightarrow> {v. start \<le> v \<and> v \<le> end \<and> step dvd (v - start)})"

lemma parse_parts_values:
  assumes "parse_parts ps lo hi vs = Inr r" "0 \<le> lo" "hi \<le> 59" "\<And>p. p \<in> set ps \<Longrightarrow> length p \<le> 18"
  shows "set r = set vs \<union> (\<Union>p \<in> set ps. cron_part_values lo hi p)
         \<and> (\<forall>p \<in> set ps. cron_part_values lo hi p \<subseteq> {lo .. hi})"
  using assms(1,4)
proof (induction ps arbitrary: vs)
  case (Cons p ps)
  then obtain start end' step vs' where
      b: "parseCronPart p lo hi = Inr (start, end', step)" "lo \<le> start" "end' \<le> hi"
      "cron_values cron_fuel start end' step vs = Some vs'" "parse_parts ps lo hi vs' = Inr r"
    by (auto split: if_splits sum.splits option.splits prod.splits simp: not_less)
  have "set vs' = set vs \<union> cron_part_values lo hi p"
  proof (cases "start \<le> end'")
    case True
    have "step < 10 ^ 18" using parseCronPart_short [OF b(1)] Cons.prems(2) by simp
    moreover have "nat (end' + 1 - start) < cron_fuel" using b assms(2,3) by (simp add: cron_fuel_def)
    moreover have "in64 start" using True b assms(2,3) by (simp add: in64_def)
    ultimately show ?thesis
      using cron_values_progression [of step start end' cron_fuel vs] parseCronPart_step [OF b(1)] b assms(3)
      by (auto simp: cron_part_values_def)
  next
    case False
    then have "cron_part_values lo hi p = {}" using b by (auto simp: cron_part_values_def)
    moreover have "vs' = vs" using b(4) False by (simp add: cron_fuel_def eval_nat_numeral)
    ultimately show ?thesis by simp
  qed
  moreover have "cron_part_values lo hi p \<subseteq> {lo .. hi}" using b by (auto simp: cron_part_values_def)
  ultimately show ?case using Cons.IH [OF b(5)] Cons.prems(2) by auto
qed simp

section \<open>The search\<close>

lemma first_from:
  fixes i j :: int
  assumes "\<not> Q i"
  shows "(i \<le> j \<and> Q j \<and> (\<forall>k. i \<le> k \<and> k < j \<longrightarrow> \<not> Q k))
         \<longleftrightarrow> (i + 1 \<le> j \<and> Q j \<and> (\<forall>k. i + 1 \<le> k \<and> k < j \<longrightarrow> \<not> Q k))"
  using assms by (metis add1_zle_eq order_le_less)

definition first_minute :: "(time \<Rightarrow> bool) \<Rightarrow> time \<Rightarrow> int \<Rightarrow> int \<Rightarrow> bool" where
  "first_minute P base i j \<longleftrightarrow>
     i \<le> j \<and> P (base + j * minute) \<and> (\<forall>k. i \<le> k \<and> k < j \<longrightarrow> \<not> P (base + k * minute))"

lemma cron_search_Some:
  "cron_search P base i = Some t \<longleftrightarrow>
     (\<exists>j. j \<le> cron_window \<and> t = base + j * minute \<and> first_minute P base i j)"
proof (induction P base i rule: cron_search.induct)
  case (1 P base i)
  show ?case
  proof (cases "i \<le> cron_window \<and> \<not> P (base + i * minute)")
    case True
    then have "cron_search P base i = cron_search P base (i + 1)" by (subst cron_search.simps) simp
    moreover have "first_minute P base i j = first_minute P base (i + 1) j" for j
      using first_from [of "\<lambda>i. P (base + i * minute)" i j] True unfolding first_minute_def by blast
    ultimately show ?thesis using "1.IH" True by simp
  next
    case False
    then show ?thesis
    proof (cases "i \<le> cron_window")
      case True
      with False have "P (base + i * minute)" by blast
      moreover have "first_minute P base i j \<longleftrightarrow> j = i" for j
        unfolding first_minute_def using calculation by (metis order.refl order_le_less leD)
      ultimately show ?thesis using True by (subst cron_search.simps) auto
    qed (subst cron_search.simps, auto simp: first_minute_def)
  qed
qed

lemma cron_search_finds:
  assumes "i \<le> j" "j \<le> cron_window" "P (base + j * minute)"
  shows "\<exists>t. cron_search P base i = Some t"
  using assms
proof (induction P base i rule: cron_search.induct)
  case (1 P base i)
  show ?case
  proof (cases "P (base + i * minute)")
    case False
    then have "i + 1 \<le> j" using "1.prems" by (metis order_le_less zless_imp_add1_zle)
    then show ?thesis using "1.IH" "1.prems" False by (subst cron_search.simps) simp
  qed (use "1.prems" in \<open>subst cron_search.simps, simp\<close>)
qed

text \<open>The minutes the search looks at are the whole minutes after \<open>now\<close>.\<close>

lemma whole_minute_after:
  assumes "now < u" "u mod minute = 0"
  obtains k where "1 \<le> k" "u = truncate_minute now + k * minute"
proof -
  have n: "now = now div minute * minute + now mod minute" "0 \<le> now mod minute" by simp_all
  have u: "u = u div minute * minute" using assms(2) by (metis add.right_neutral div_mult_mod_eq)
  have "now div minute * minute < u div minute * minute" using n u assms(1) by linarith
  then have "now div minute < u div minute" by simp
  moreover have "truncate_minute now = now div minute * minute"
    using n by (simp only: truncate_minute_def minus_mod_eq_div_mult)
  then have "u = truncate_minute now + (u div minute - now div minute) * minute"
    using u by (simp only: left_diff_distrib)
  ultimately show thesis using that [of "u div minute - now div minute"] by linarith
qed

lemma candidate_after:
  assumes "1 \<le> k"
  shows "now < truncate_minute now + k * minute" "(truncate_minute now + k * minute) mod minute = 0"
proof -
  have "now mod minute < minute" by simp
  then show "now < truncate_minute now + k * minute" using assms by (simp add: truncate_minute_def)
  have "truncate_minute now = now div minute * minute" by (simp only: truncate_minute_def minus_mod_eq_div_mult)
  then have "truncate_minute now + k * minute = (now div minute + k) * minute" by (simp only: distrib_right)
  then show "(truncate_minute now + k * minute) mod minute = 0" by (simp only: mod_mult_self2_is_0)
qed

section \<open>A matching minute repeats within the window\<close>

lemma local_parts:
  assumes "t = s * second" "s + off = d * 86400 + h * 3600 + m * 60 + x"
    and "0 \<le> h" "h < 24" "0 \<le> m" "m < 60" "0 \<le> x" "x < 60"
  shows "local_day (\<lambda>_. off) t = d" "t_Hour (\<lambda>_. off) t = h" "t_Minute (\<lambda>_. off) t = m"
proof -
  have ls: "local_seconds (\<lambda>_. off) t = d * 86400 + (h * 3600 + (m * 60 + x))"
    using assms(1,2) by (simp add: local_seconds_def)
  have a: "0 \<le> m * 60 + x" "m * 60 + x < 3600" using assms by linarith+
  have b: "0 \<le> h * 3600 + (m * 60 + x)" "h * 3600 + (m * 60 + x) < 86400" using a assms by linarith+
  show "local_day (\<lambda>_. off) t = d" unfolding local_day_def ls using b by simp
  show "t_Hour (\<lambda>_. off) t = h" unfolding t_Hour_def ls using a b by simp
  have "d * 86400 + (h * 3600 + (m * 60 + x)) = (m * 60 + x) + 3600 * (d * 24 + h)" by simp
  then have "(d * 86400 + (h * 3600 + (m * 60 + x))) mod 3600 = m * 60 + x"
    using a by (metis mod_mult_self2 mod_pos_pos_trivial)
  then show "t_Minute (\<lambda>_. off) t = m" unfolding t_Minute_def ls using assms by simp
qed

text \<open>For a constant offset any local hour and minute of a later day within 2921 days is in the window.\<close>

lemma minute_in_window:
  assumes "local_day (\<lambda>_. off) (truncate_minute now) = D" "D < n" "n \<le> D + 2921"
    and "0 \<le> h" "h < 24" "0 \<le> m" "m < 60"
  obtains k where "1 \<le> k" "k \<le> cron_window"
    "local_day (\<lambda>_. off) (truncate_minute now + k * minute) = n"
    "t_Hour (\<lambda>_. off) (truncate_minute now + k * minute) = h"
    "t_Minute (\<lambda>_. off) (truncate_minute now + k * minute) = m"
proof -
  define q where "q = now div minute"
  have base: "truncate_minute now = q * minute" by (simp only: q_def truncate_minute_def minus_mod_eq_div_mult)
  define S where "S = n * 86400 + h * 3600 + m * 60"
  define x where "x = (off - S) mod 60"
  define k where "k = (S - off + x) div 60 - q"
  have x: "0 \<le> x" "x < 60" by (simp_all add: x_def)
  have "(S - off + x) mod 60 = (S - off + (off - S)) mod 60" unfolding x_def by (rule mod_add_right_eq)
  then have s60: "(S - off + x) div 60 * 60 = S - off + x"
    using div_mult_mod_eq [of "S - off + x" 60] by simp
  have sum: "(q + k) * 60 = S - off + x" using s60 by (simp add: k_def)
  have t: "truncate_minute now + k * minute = ((q + k) * 60) * second" by (simp add: base algebra_simps)
  have "(q + k) * 60 + off = n * 86400 + h * 3600 + m * 60 + x" using sum by (simp add: S_def)
  note parts = local_parts [OF t this assms(4-7) x]
  have D: "D * 86400 \<le> q * 60 + off" "q * 60 + off < D * 86400 + 86400"
    using assms(1) by (auto simp: base local_day_def local_seconds_def)
  have lo: "(D + 1) * 86400 \<le> n * 86400" and hi: "n * 86400 \<le> (D + 2921) * 86400"
    using assms(2,3) by simp_all
  have "k * 60 = S + x - off - q * 60" using sum by (simp add: algebra_simps)
  then have "0 < k * 60" "k * 60 \<le> 2922 * 86400"
    using D lo hi assms(4-7) x by (simp_all add: S_def)
  then have "1 \<le> k" "k \<le> cron_window" by (simp_all add: cron_window_def)
  then show thesis using that parts by blast
qed

lemma parseCronFields_Inr:
  assumes "parseCronFields expression = Inr (mi, ho, days, mon, dow)"
  shows "set days \<subseteq> {.. 31}" "distinct days" "set dow \<subseteq> {.. 6}" "distinct dow"
  using assms parseCronField_upper
  by (auto simp: parseCronFields_def Let_def split: if_splits sum.splits)

text \<open>A field of 31 different days of at most 31 contains one that every month has.\<close>

lemma any_day_exists:
  assumes "set days \<subseteq> {.. 31}" "distinct days" "cronFieldIsAny days 1 31"
  shows "\<exists>day \<in> set days. day \<le> 1"
proof (rule ccontr)
  assume "\<not> ?thesis"
  then have "set days \<subseteq> {2 .. 31}" using assms(1) by force
  then have "card (set days) \<le> card {2 .. 31 :: int}" by (intro card_mono) auto
  then show False using assms(2,3) by (simp add: distinct_card cronFieldIsAny_def)
qed

lemma month_days_le: "month_days y m \<le> (if m = 2 then 29 else if m \<in> {4, 6, 9, 11} then 30 else 31)"
  by (auto simp: month_days_def)

lemma t_date: "date_of_day (local_day loc t) = (y, m, d) \<Longrightarrow> t_Month loc t = m \<and> t_Day loc t = d"
  by (simp add: t_Month_def t_Day_def)

text \<open>The calendar shortcut is taken only when nothing matches.\<close>

lemma no_calendar_date_no_match:
  assumes "parseCronFields expression = Inr (mi, ho, days, mon, dow)"
    and "cronFieldIsAny dow 0 6" "\<not> cronHasCalendarDate days mon"
  shows "\<not> cronMinuteMatches loc t mi ho (cron_calendar days mon dow)"
proof
  assume m: "cronMinuteMatches loc t mi ho (cron_calendar days mon dow)"
  obtain y m d where date: "date_of_day (local_day loc t) = (y, m, d)" by (metis prod_cases3)
  note r = date_of_day_range [OF date]
  have mon: "m \<in> set mon" using m t_date [OF date] by (auto simp: cronMinuteMatches_def cron_calendar_def split: if_splits)
  have "d \<le> (if m = 2 then 29 else if m \<in> {4, 6, 9, 11} then 30 else 31)"
    using r(4) month_days_le by (rule order_trans)
  moreover have "d \<in> set days \<or> (\<exists>day \<in> set days. day \<le> 1)"
    using m t_date [OF date] assms(2) any_day_exists parseCronFields_Inr(1,2) [OF assms(1)]
    by (auto simp: cronMinuteMatches_def cron_calendar_def split: if_splits)
  moreover have "1 \<le> (if m = 2 then 29 else if m \<in> {4, 6, 9, 11} then 30 else (31 :: int))" by simp
  ultimately have "\<exists>day \<in> set days. day \<le> (if m = 2 then 29 else if m \<in> {4, 6, 9, 11} then 30 else 31)"
    by (meson order_trans)
  then show False using assms(3) mon by (auto simp: cronHasCalendarDate_def Let_def list_ex_iff)
qed

text \<open>A minute that matches once matches again inside the search window.\<close>

lemma match_recurs:
  assumes "cronMinuteMatches (\<lambda>_. off) t mi ho cal"
  shows "\<exists>k \<ge> 1. k \<le> cron_window \<and> cronMinuteMatches (\<lambda>_. off) (truncate_minute now + k * minute) mi ho cal"
proof -
  let ?loc = "\<lambda>_ :: time. off"
  obtain y m d where date: "date_of_day (local_day ?loc t) = (y, m, d)" by (metis prod_cases3)
  note r = date_of_day_range [OF date]
  define D where "D = local_day ?loc (truncate_minute now)"
  have w: "0 \<le> t_Weekday ?loc t" "t_Weekday ?loc t \<le> 6" by (simp_all add: t_Weekday_def)
  have h: "0 \<le> t_Hour ?loc t" "t_Hour ?loc t < 24" "0 \<le> t_Minute ?loc t" "t_Minute ?loc t < 60"
    by (simp_all add: t_Hour_def t_Minute_def pos_imp_zdiv_nonneg_iff int_div_less_self)
  have day: "d \<le> (if m = 2 then 29 else if m \<in> {4, 6, 9, 11} then 30 else 31)"
    using r(4) month_days_le by (rule order_trans)
  let ?byweek = "\<not> cc_dowAny cal \<and> t_Weekday ?loc t \<in> set (cc_dow cal)"
  have "\<exists>n > D. n \<le> D + 2921 \<and> fst (snd (date_of_day n)) = m
          \<and> (if ?byweek then (n + 1) mod 7 = t_Weekday ?loc t else snd (snd (date_of_day n)) = d)"
  proof (cases ?byweek)
    case True
    then show ?thesis using weekday_comes [OF r(1,2) w, of D] by simp
  next
    case False
    then show ?thesis using date_comes [OF r(1-3) day, of D] by force
  qed
  then obtain n where n: "D < n" "n \<le> D + 2921" "fst (snd (date_of_day n)) = m"
    "if ?byweek then (n + 1) mod 7 = t_Weekday ?loc t else snd (snd (date_of_day n)) = d" by blast
  obtain k where k: "1 \<le> k" "k \<le> cron_window" "local_day ?loc (truncate_minute now + k * minute) = n"
    "t_Hour ?loc (truncate_minute now + k * minute) = t_Hour ?loc t"
    "t_Minute ?loc (truncate_minute now + k * minute) = t_Minute ?loc t"
    by (rule minute_in_window [OF D_def [symmetric] n(1,2) h])
  let ?u = "truncate_minute now + k * minute"
  have "t_Month ?loc ?u = t_Month ?loc t" using k(3) n(3) t_date [OF date] by (simp add: t_Month_def)
  moreover have "if ?byweek then t_Weekday ?loc ?u = t_Weekday ?loc t else t_Day ?loc ?u = t_Day ?loc t"
    using k(3) n(4) t_date [OF date] by (simp add: t_Day_def t_Weekday_def split: if_splits)
  ultimately have "cronMinuteMatches ?loc ?u mi ho cal"
    using assms k(4,5) by (auto simp: cronMinuteMatches_def split: if_splits)
  then show ?thesis using k(1,2) by blast
qed

section \<open>Properties\<close>

lemma nextCronMinute_Inr:
  assumes "parseCronFields expression = Inr (mi, ho, days, mon, dow)" and "nextCronMinute loc now expression = Inr t"
  obtains j where "j \<le> cron_window" "t = truncate_minute now + j * minute"
    "first_minute (\<lambda>c. cronMinuteMatches loc c mi ho (cron_calendar days mon dow)) (truncate_minute now) 1 j"
  using assms by (auto simp: nextCronMinute_def cron_search_Some split: if_splits option.splits)

lemma nextCronMinute_after: "nextCronMinute loc now expression = Inr t \<Longrightarrow> now < t"
proof -
  assume a: "nextCronMinute loc now expression = Inr t"
  then obtain mi ho days mon dow where p: "parseCronFields expression = Inr (mi, ho, days, mon, dow)"
    by (cases "parseCronFields expression") (auto simp: nextCronMinute_def)
  show ?thesis by (rule nextCronMinute_Inr [OF p a]) (auto simp: first_minute_def intro: candidate_after(1))
qed

text \<open>What \<open>createDueRun\<close> relies on: a next firing is later than the instant it was asked for.\<close>

lemma NextFire_after: "NextFire load expression timezone now = Inr t \<Longrightarrow> now < t"
  using nextCronMinute_after
  by (auto simp: NextFire_def Schedule_Next_def split: if_splits sum.splits)





text \<open>
  A field of the cron expression denotes the union of its comma-separated parts, each the
  progression from its start to its end by its step, inside the range of the field. Stated for fields
  of at most 18 bytes, which cannot hold a step large enough to overflow; the loop over the values
  returns for every field.
\<close>

theorem parseCronField_denotes:
  assumes "0 \<le> lo" "hi \<le> 59"
  shows "parseCronField field lo hi \<noteq> Inl CronLoop
         \<and> (length field \<le> 18 \<longrightarrow> (\<forall>r. parseCronField field lo hi = Inr r
              \<longrightarrow> set r = (\<Union>part \<in> set (Split (CHR '','') field). cron_part_values lo hi part)
                \<and> set r \<subseteq> {lo .. hi}))"
proof (intro conjI impI allI)
  show "parseCronField field lo hi \<noteq> Inl CronLoop"
    unfolding parseCronField_def by (rule parse_parts_returns [OF assms])
  fix r assume "length field \<le> 18" and r: "parseCronField field lo hi = Inr r"
  then have "length p \<le> 18" if "p \<in> set (Split (CHR '','') field)" for p using length_Split_part [OF that] by simp
  from parse_parts_values [OF r [unfolded parseCronField_def splitComma_Split] assms this]
  have "set r = (\<Union>p \<in> set (Split (CHR '','') field). cron_part_values lo hi p)
        \<and> (\<forall>p \<in> set (Split (CHR '','') field). cron_part_values lo hi p \<subseteq> {lo .. hi})" by simp
  then show "set r = (\<Union>part \<in> set (Split (CHR '','') field). cron_part_values lo hi part)" "set r \<subseteq> {lo .. hi}"
    by auto
qed

theorem parseCronField_denotes_witness:
  "parseCronField ''10-20/5,50'' 0 59 = Inr [50, 20, 15, 10]
   \<and> set [50, 20, 15, 10] = (\<Union>part \<in> set (Split (CHR '','') ''10-20/5,50''). cron_part_values 0 59 part)"
proof -
  have "parseCronField ''10-20/5,50'' 0 59 = Inr [50, 20, 15, 10]" by code_simp
  then show ?thesis using parseCronField_denotes [of 0 59 "''10-20/5,50''"] by simp
qed

text \<open>The overflowing step, evaluated.\<close>

lemma huge_step_part: "parseCronPart ''5/9223372036854775807'' 0 59 = Inr (5, 59, 9223372036854775807)"
proof -
  have "Atoi ''9223372036854775807'' = Some 9223372036854775807"
    by (simp add: Atoi_def in64_def digit_val_def is_digit_def less_eq_char_def)
  moreover have "Atoi ''5'' = Some 5" by code_simp
  ultimately show ?thesis by (simp add: parseCronPart_def parseCronStep_def parseCronRange_def)
qed

lemma huge_step_values:
  "cron_values cron_fuel 5 59 9223372036854775807 []
     = Some [- 1, - 9223372036854775808, 1, - 9223372036854775806, 3, - 9223372036854775804, 5]"
proof -
  have "cron_values (Suc (Suc (Suc (Suc (Suc (Suc (Suc (Suc n)))))))) 5 59 9223372036854775807 []
     = Some [- 1, - 9223372036854775808, 1, - 9223372036854775806, 3, - 9223372036854775804, 5]" for n
    by (simp add: wrap64_def)
  from this [of 192] show ?thesis by (simp add: cron_fuel_def)
qed

text \<open>
  Two inputs the range check lets through. A step close to the largest int64 overflows the
  loop variable and adds negative numbers and values the field does not denote; a start above
  the range, when followed by a step, is accepted and denotes no value at all.
\<close>

theorem parseCronField_gaps:
  "parseCronField ''5/9223372036854775807'' 0 59 =
     Inr [- 1, - 9223372036854775808, 1, - 9223372036854775806, 3, - 9223372036854775804, 5]
   \<and> parseCronField ''70/5'' 0 59 = Inr [] \<and> parseCronField ''70'' 0 59 = Inl CronOutOfRange"
proof (intro conjI)
  show "parseCronField ''5/9223372036854775807'' 0 59 =
     Inr [- 1, - 9223372036854775808, 1, - 9223372036854775806, 3, - 9223372036854775804, 5]"
    by (simp add: parseCronField_def splitComma_Split huge_step_part huge_step_values)
  show "parseCronField ''70/5'' 0 59 = Inr []" "parseCronField ''70'' 0 59 = Inl CronOutOfRange" by code_simp+
qed

end
