(* ===== verification/RunInvariant.thy ===== *)
theory RunInvariant
  imports RunStore
begin

text \<open>
  The invariant of the run store and its preservation by every operation that the control plane
  runs: the tables \<open>runs\<close>, \<open>attempts\<close>, \<open>runners\<close> and \<open>leases\<close> agree on which
  attempts are in flight.
\<close>

section \<open>The invariant\<close>

definition live :: "attempt_row \<Rightarrow> bool" where
  "live a \<longleftrightarrow> att_state a \<in> {A_DISPATCHED, A_ACCEPTED, A_RUNNING, A_CANCELLING}"

definition in_flight :: "run_row \<Rightarrow> bool" where
  "in_flight r \<longleftrightarrow> run_state r \<in> {DISPATCHED, RUNNING, CANCELLING}"

definition keys_unique :: "db \<Rightarrow> bool" where
  "keys_unique d \<longleftrightarrow>
     distinct (map run_id (runs d)) \<and> distinct (map att_id (attempts d)) \<and> distinct (map rr_id (runners d))"

definition live_runs :: "db \<Rightarrow> bool" where
  "live_runs d \<longleftrightarrow>
     (\<forall>a \<in> set (attempts d). live a \<longrightarrow> (\<exists>r \<in> set (runs d). run_id r = att_run_id a \<and> in_flight r))"

definition one_live_attempt :: "db \<Rightarrow> bool" where
  "one_live_attempt d \<longleftrightarrow>
     (\<forall>a \<in> set (attempts d). \<forall>b \<in> set (attempts d). live a \<and> live b \<and> att_run_id a = att_run_id b \<longrightarrow> a = b)"

definition live_on :: "string \<Rightarrow> attempt_row list \<Rightarrow> nat" where
  "live_on runner atts = sql_count (\<lambda>a. live a \<and> att_runner_id a = runner) atts"

definition counts_exact :: "db \<Rightarrow> bool" where
  "counts_exact d \<longleftrightarrow> (\<forall>rr \<in> set (runners d). rr_active_count rr = live_on (rr_id rr) (attempts d))"

definition within_capacity :: "db \<Rightarrow> bool" where
  "within_capacity d \<longleftrightarrow> (\<forall>rr \<in> set (runners d). rr_active_count rr \<le> rr_capacity rr)"

definition leases_live :: "db \<Rightarrow> bool" where
  "leases_live d \<longleftrightarrow>
     (\<forall>l \<in> set (leases d). lease_state l = ACTIVE
        \<longrightarrow> (\<exists>a \<in> set (attempts d). att_id a = lease_attempt_id l \<and> live a))"

definition leases_exclusive :: "db \<Rightarrow> bool" where
  "leases_exclusive d \<longleftrightarrow>
     (\<forall>rid. sql_count (\<lambda>l. lease_state l = ACTIVE \<and> lease_resource_id l = rid) (leases d) \<le> 1)"

definition store_inv :: "db \<Rightarrow> bool" where
  "store_inv d \<longleftrightarrow>
     keys_unique d \<and> live_runs d \<and> one_live_attempt d \<and> counts_exact d \<and> within_capacity d
     \<and> leases_live d \<and> leases_exclusive d"

lemmas inv_defs = store_inv_def keys_unique_def live_runs_def one_live_attempt_def counts_exact_def
  within_capacity_def leases_live_def leases_exclusive_def

lemma store_inv_cong:
  assumes "store_inv d" "runs d' = runs d" "attempts d' = attempts d" "runners d' = runners d" "leases d' = leases d"
  shows "store_inv d'"
  using assms(1) unfolding inv_defs assms(2-5) .

text \<open>Only the runs differ.\<close>

lemma store_inv_runs:
  assumes "store_inv d" "attempts d' = attempts d" "runners d' = runners d" "leases d' = leases d"
    and "distinct (map run_id (runs d'))" "live_runs d'"
  shows "store_inv d'"
  using assms unfolding store_inv_def keys_unique_def one_live_attempt_def counts_exact_def within_capacity_def
    leases_live_def leases_exclusive_def assms(2-4) by blast

section \<open>Generic steps\<close>

text \<open>A run update that keeps in-flight runs in flight.\<close>

lemma inv_update_run:
  assumes inv: "store_inv d" and ident: "\<And>r. P r \<Longrightarrow> run_id (f r) = run_id r"
    and flight: "\<And>r. r \<in> set (runs d) \<Longrightarrow> P r \<Longrightarrow> in_flight r \<Longrightarrow> in_flight (f r)"
  shows "store_inv (update_run P f d)"
proof -
  have "live_runs (update_run P f d)"
    unfolding live_runs_def
  proof (intro ballI impI)
    fix a
    assume "a \<in> set (attempts (update_run P f d))" "live a"
    then obtain r where r: "r \<in> set (runs d)" "run_id r = att_run_id a" "in_flight r"
      using inv by (auto simp: inv_defs update_run_def)
    let ?r = "if P r then f r else r"
    have "?r \<in> set (runs (update_run P f d))" using r(1) by (auto simp: update_run_def set_sql_update)
    moreover have "run_id ?r = att_run_id a" "in_flight ?r" using r ident flight by auto
    ultimately show "\<exists>r \<in> set (runs (update_run P f d)). run_id r = att_run_id a \<and> in_flight r" by blast
  qed
  moreover have "distinct (map run_id (runs (update_run P f d)))"
    using inv map_sql_update [of P run_id f "runs d", OF ident]
    by (simp add: store_inv_def keys_unique_def update_run_def)
  ultimately show ?thesis by (intro store_inv_runs [OF inv]) (simp_all add: update_run_def)
qed

text \<open>An attempt update that keeps identity and liveness.\<close>

lemma live_on_update:
  assumes "\<And>a. a \<in> set atts \<Longrightarrow> P a \<Longrightarrow> att_runner_id (f a) = att_runner_id a \<and> (live (f a) \<longleftrightarrow> live a)"
  shows "live_on runner (sql_update P f atts) = live_on runner atts"
  using assms by (induction atts) (auto simp: live_on_def)

lemma inv_update_attempt:
  assumes inv: "store_inv d"
    and same: "\<And>a. att_id (f a) = att_id a \<and> att_run_id (f a) = att_run_id a \<and> att_runner_id (f a) = att_runner_id a"
    and live: "\<And>a. a \<in> set (attempts d) \<Longrightarrow> P a \<Longrightarrow> live (f a) \<longleftrightarrow> live a"
  shows "store_inv (update_attempt P f d)"
proof -
  define g where "g = (\<lambda>a. if P a then f a else a)"
  have atts: "attempts (update_attempt P f d) = map g (attempts d)"
    by (simp add: update_attempt_def sql_update_def g_def)
  have rest: "runs (update_attempt P f d) = runs d" "runners (update_attempt P f d) = runners d"
    "leases (update_attempt P f d) = leases d" by (simp_all add: update_attempt_def)
  have g: "att_id (g a) = att_id a" "att_run_id (g a) = att_run_id a" "att_runner_id (g a) = att_runner_id a" for a
    using same by (auto simp: g_def)
  have gl: "live (g a) \<longleftrightarrow> live a" if "a \<in> set (attempts d)" for a using live that by (auto simp: g_def)
  have "map att_id (map g (attempts d)) = map att_id (attempts d)" using g by simp
  then have "keys_unique (update_attempt P f d)" using inv unfolding store_inv_def keys_unique_def atts rest by (simp only: simp_thms)
  moreover have "live_on runner (map g (attempts d)) = live_on runner (attempts d)" for runner
    using live_on_update [of "attempts d" P f runner] same live by (simp add: sql_update_def g_def)
  then have "counts_exact (update_attempt P f d)" using inv unfolding store_inv_def counts_exact_def atts rest by simp
  moreover have "one_live_attempt (update_attempt P f d)"
    unfolding one_live_attempt_def atts
  proof (intro ballI impI)
    fix x y
    assume "x \<in> set (map g (attempts d))" "y \<in> set (map g (attempts d))"
    then obtain a b where ab: "a \<in> set (attempts d)" "b \<in> set (attempts d)" "x = g a" "y = g b" by auto
    assume "live x \<and> live y \<and> att_run_id x = att_run_id y"
    then have "live a \<and> live b \<and> att_run_id a = att_run_id b" using ab g gl by simp
    then have "a = b" using ab inv by (simp add: store_inv_def one_live_attempt_def)
    then show "x = y" using ab by simp
  qed
  moreover have "live_runs (update_attempt P f d)"
    unfolding live_runs_def atts rest
  proof (intro ballI impI)
    fix x
    assume "x \<in> set (map g (attempts d))" "live x"
    then obtain a where "a \<in> set (attempts d)" "x = g a" by auto
    then show "\<exists>r \<in> set (runs d). run_id r = att_run_id x \<and> in_flight r"
      using inv g gl \<open>live x\<close> by (simp add: store_inv_def live_runs_def)
  qed
  moreover have "leases_live (update_attempt P f d)"
    unfolding leases_live_def atts rest
  proof (intro ballI impI)
    fix l
    assume "l \<in> set (leases d)" "lease_state l = ACTIVE"
    then obtain a where "a \<in> set (attempts d)" "att_id a = lease_attempt_id l" "live a"
      using inv by (auto simp: store_inv_def leases_live_def)
    then show "\<exists>x \<in> set (map g (attempts d)). att_id x = lease_attempt_id l \<and> live x"
      using g gl by (intro bexI [of _ "g a"]) simp_all
  qed
  ultimately show ?thesis using inv unfolding store_inv_def leases_exclusive_def within_capacity_def rest by blast
qed

text \<open>
  An attempt leaves flight: its row becomes terminal, its runner's count goes down, its leases
  are released, and its run may take any state.
\<close>

lemma live_on_finish:
  assumes "distinct (map att_id atts)" "a \<in> set atts" "live a" "\<not> live (f a)"
  shows "live_on runner (sql_update (\<lambda>x. att_id x = att_id a) f atts)
         = live_on runner atts - (if att_runner_id a = runner then 1 else 0)"
    and "att_runner_id a = runner \<Longrightarrow> 0 < live_on runner atts"
proof -
  obtain xs ys where atts: "atts = xs @ a # ys" using assms(2) by (meson split_list)
  have out: "att_id x \<noteq> att_id a" if "x \<in> set xs \<union> set ys" for x
    using assms(1) that unfolding atts by (auto simp: rev_image_eqI)
  have "sql_update (\<lambda>x. att_id x = att_id a) f xs = xs" "sql_update (\<lambda>x. att_id x = att_id a) f ys = ys"
    using out by (auto intro!: sql_update_none)
  then show "live_on runner (sql_update (\<lambda>x. att_id x = att_id a) f atts)
         = live_on runner atts - (if att_runner_id a = runner then 1 else 0)"
    using assms(3,4) by (simp add: atts live_on_def)
  show "att_runner_id a = runner \<Longrightarrow> 0 < live_on runner atts" using assms(3) by (simp add: atts live_on_def)
qed

lemma releaseRunResources_simps [simp]:
  "runs (releaseRunResources now rid aid d) = runs d" "attempts (releaseRunResources now rid aid d) = attempts d"
  "run_events (releaseRunResources now rid aid d) = run_events d"
  by (simp_all add: releaseRunResources_def Let_def)

lemma inv_finish:
  assumes inv: "store_inv d" and a: "a \<in> set (attempts d)" "live a"
    and atts: "attempts d' = sql_update (\<lambda>x. att_id x = att_id a) f (attempts d)"
    and f: "\<And>x. att_id (f x) = att_id x \<and> att_run_id (f x) = att_run_id x \<and> att_runner_id (f x) = att_runner_id x
                \<and> \<not> live (f x)"
    and runs: "runs d' = sql_update P g (runs d)"
    and g: "\<And>r. P r \<Longrightarrow> run_id r = att_run_id a" "\<And>r. P r \<Longrightarrow> run_id (g r) = run_id r"
    and rest: "runners d' = runners d" "leases d' = leases d"
  shows "store_inv (releaseRunResources now (att_runner_id a) (att_id a) d')"
proof -
  define e where "e = releaseRunResources now (att_runner_id a) (att_id a) d'"
  have ea: "attempts e = sql_update (\<lambda>x. att_id x = att_id a) f (attempts d)" and er: "runs e = sql_update P g (runs d)"
    using atts runs by (simp_all add: e_def)
  have err: "runners e = sql_update (\<lambda>rr. rr_id rr = att_runner_id a \<and> rr_active_count rr > 0)
               (\<lambda>rr. rr\<lparr>rr_active_count := rr_active_count rr - 1\<rparr>) (runners d)"
    and el: "leases e = sql_update (\<lambda>l. lease_attempt_id l = att_id a \<and> lease_state l = ACTIVE)
               (\<lambda>l. l\<lparr>lease_state := RELEASED, lease_released_at := Some now\<rparr>) (leases d)"
    using rest by (simp_all add: e_def releaseRunResources_def Let_def)
  have da: "distinct (map att_id (attempts d))" using inv by (simp add: store_inv_def keys_unique_def)
  have same: "x = a" if "x \<in> set (attempts d)" "att_id x = att_id a" for x
    using distinct_map_eq_key [OF da that(1) a(1) that(2)] .
  have live_e: "x \<in> set (attempts d) \<and> att_id x \<noteq> att_id a" if "x \<in> set (attempts e)" "live x" for x
    using that f unfolding ea by (auto elim: in_sql_updateE)
  have other: "att_run_id x \<noteq> att_run_id a" if "x \<in> set (attempts e)" "live x" for x
    using live_e [OF that] that inv a same by (auto simp: store_inv_def one_live_attempt_def)
  have "keys_unique e"
    using inv map_sql_update [of "\<lambda>x. att_id x = att_id a" att_id f "attempts d"] f map_sql_update [of P run_id g "runs d", OF g(2)]
      map_sql_update [of "\<lambda>rr. rr_id rr = att_runner_id a \<and> rr_active_count rr > 0" rr_id
        "\<lambda>rr. rr\<lparr>rr_active_count := rr_active_count rr - 1\<rparr>" "runners d"]
    unfolding store_inv_def keys_unique_def ea er err by simp
  moreover have "live_runs e"
    unfolding live_runs_def
  proof (intro ballI impI)
    fix x
    assume x: "x \<in> set (attempts e)" "live x"
    then obtain r where r: "r \<in> set (runs d)" "run_id r = att_run_id x" "in_flight r"
      using live_e [OF x] inv by (auto simp: store_inv_def live_runs_def)
    then have "\<not> P r" using g(1) other [OF x] by auto
    then have "r \<in> set (runs e)" using r(1) unfolding er set_sql_update by (force intro: image_eqI [of _ _ r])
    with r show "\<exists>r \<in> set (runs e). run_id r = att_run_id x \<and> in_flight r" by blast
  qed
  moreover have "one_live_attempt e"
    using live_e inv unfolding store_inv_def one_live_attempt_def by blast
  moreover have "counts_exact e"
    unfolding counts_exact_def
  proof
    fix rr
    assume "rr \<in> set (runners e)"
    then obtain r0 where r0: "r0 \<in> set (runners d)"
      "rr = (if rr_id r0 = att_runner_id a \<and> rr_active_count r0 > 0
             then r0\<lparr>rr_active_count := rr_active_count r0 - 1\<rparr> else r0)"
      unfolding err set_sql_update by auto
    have "rr_active_count r0 = live_on (rr_id r0) (attempts d)"
      using r0(1) inv by (simp add: store_inv_def counts_exact_def)
    then show "rr_active_count rr = live_on (rr_id rr) (attempts e)"
      using live_on_finish [OF da a, of f "rr_id r0"] f r0(2) unfolding ea by auto
  qed
  moreover have "within_capacity e"
    unfolding within_capacity_def
  proof
    fix rr
    assume "rr \<in> set (runners e)"
    then obtain r0 where "r0 \<in> set (runners d)"
      "rr_active_count rr \<le> rr_active_count r0" "rr_capacity rr = rr_capacity r0"
      unfolding err set_sql_update by auto
    then show "rr_active_count rr \<le> rr_capacity rr"
      using inv by (auto simp: store_inv_def within_capacity_def intro: order_trans)
  qed
  moreover have "leases_live e"
    unfolding leases_live_def
  proof (intro ballI impI)
    fix l
    assume l: "l \<in> set (leases e)" "lease_state l = ACTIVE"
    then have l0: "l \<in> set (leases d)" "lease_attempt_id l \<noteq> att_id a" unfolding el by (auto elim: in_sql_updateE)
    then obtain x where x: "x \<in> set (attempts d)" "att_id x = lease_attempt_id l" "live x"
      using inv l(2) by (auto simp: store_inv_def leases_live_def)
    have "x \<in> set (attempts e)"
      using x l0(2) unfolding ea set_sql_update by (force intro: image_eqI [of _ _ x])
    then show "\<exists>x \<in> set (attempts e). att_id x = lease_attempt_id l \<and> live x" using x by blast
  qed
  moreover have "leases_exclusive e"
    unfolding leases_exclusive_def
  proof
    fix rid
    have "sql_count (\<lambda>l. lease_state l = ACTIVE \<and> lease_resource_id l = rid) (leases e)
          \<le> sql_count (\<lambda>l. lease_state l = ACTIVE \<and> lease_resource_id l = rid) (leases d)"
      unfolding el by (rule sql_count_update_le) simp
    then show "sql_count (\<lambda>l. lease_state l = ACTIVE \<and> lease_resource_id l = rid) (leases e) \<le> 1"
      using inv unfolding store_inv_def leases_exclusive_def by (blast intro: order_trans)
  qed
  ultimately show ?thesis unfolding store_inv_def e_def by blast
qed

section \<open>Start claims and events\<close>

lemma find_row_Some: "find_row P xs = Some x \<Longrightarrow> x \<in> set xs \<and> P x"
  unfolding find_row_def by (auto simp: find_Some_iff)

lemma run_attempts_set: "(r, a) \<in> set (run_attempts d) \<longleftrightarrow> r \<in> set (runs d) \<and> a \<in> set (attempts d) \<and> att_run_id a = run_id r"
  by (auto simp: run_attempts_def)

lemma set_run_state_simps [simp]:
  "run_id (set_run_state s now r) = run_id r" "run_state (set_run_state s now r) = s"
  by (simp_all add: set_run_state_def)

lemma update_simps [simp]:
  "attempts (update_run P f d) = attempts d" "runners (update_run P f d) = runners d" "leases (update_run P f d) = leases d"
  "run_events (update_run P f d) = run_events d" "run_events (update_attempt Q g d) = run_events d"
  "runs (update_attempt Q g d) = runs d" "runners (update_attempt Q g d) = runners d" "leases (update_attempt Q g d) = leases d"
  "runs (update_run P f d) = sql_update P f (runs d)" "attempts (update_attempt Q g d) = sql_update Q g (attempts d)"
  by (simp_all add: update_run_def update_attempt_def)

lemma inv_ClaimStart:
  assumes "store_inv d" "ClaimStart now inp d = Inr (res, d')"
  shows "store_inv d'"
proof (cases "d' = d")
  case False
  with assms(2) obtain r a where ra: "(r, a) \<in> set (run_attempts d)" "run_id r = sc_RunID inp" "run_state r = DISPATCHED"
      "att_state a = A_DISPATCHED \<or> att_state a = A_ACCEPTED"
      and d': "d' = update_run (\<lambda>r'. run_id r' = sc_RunID inp \<and> run_state r' = DISPATCHED) (set_run_state RUNNING now)
                (update_attempt (\<lambda>a'. att_id a' = att_id a)
                   (\<lambda>a'. a'\<lparr>att_state := A_RUNNING, att_accepted_at := Some (coalesce (att_accepted_at a') now),
                           att_started_at := Some (coalesce (att_started_at a') now),
                           att_last_sequence := max (att_last_sequence a') 1,
                           att_state_version := att_state_version a' + 1\<rparr>) d)"
    by (auto simp: ClaimStart_def dest!: find_row_Some split: if_splits option.splits prod.splits)
  have a: "a \<in> set (attempts d)" using ra(1) by (simp add: run_attempts_set)
  have da: "distinct (map att_id (attempts d))" using assms(1) by (simp add: inv_defs)
  have "x = a" if "x \<in> set (attempts d)" "att_id x = att_id a" for x
    using distinct_map_eq_key [OF da that(1) a that(2)] .
  then show ?thesis
    unfolding d' using assms(1) ra(4)
    by (intro inv_update_run inv_update_attempt) (auto simp: live_def in_flight_def)
qed (use assms in simp)

lemma event_attempt_Some:
  assumes "event_attempt event d = Some a"
  shows "a \<in> set (attempts d)" "att_run_id a = re_RunID event"
  using find_row_Some [OF assms [unfolded event_attempt_def]] by auto

lemma legal_live: "legalAttemptTransition s t \<Longrightarrow> s \<in> {A_DISPATCHED, A_ACCEPTED, A_RUNNING, A_CANCELLING}"
  by (auto simp: legalAttemptTransition_def split: if_splits)

text \<open>Changing an attempt's row outside identity and state changes nothing the invariant sees.\<close>

lemma inv_update_attempt_same:
  assumes "store_inv d" "\<And>a. att_id (f a) = att_id a \<and> att_run_id (f a) = att_run_id a \<and> att_runner_id (f a) = att_runner_id a
     \<and> att_state (f a) = att_state a"
  shows "store_inv (update_attempt P f d)"
  using assms by (intro inv_update_attempt) (auto simp: live_def)

lemma inv_insert_event: "store_inv d \<Longrightarrow> insert_event e d = Inr d' \<Longrightarrow> store_inv d'"
  by (auto simp: insert_event_def elim!: store_inv_cong split: if_splits)

lemma insert_event_simps:
  assumes "insert_event e d = Inr d'"
  shows "attempts d' = attempts d" "runs d' = runs d" "runners d' = runners d" "leases d' = leases d"
  using assms by (auto simp: insert_event_def split: if_splits)

lemma insert_log_simps [simp]:
  "attempts (insert_log_or_skip l d) = attempts d" "runs (insert_log_or_skip l d) = runs d"
  "runners (insert_log_or_skip l d) = runners d" "leases (insert_log_or_skip l d) = leases d"
  by (simp_all add: insert_log_or_skip_def)

lemma updateRetryState_runs:
  assumes "updateRetryState now event d = Inr d'"
  obtains g where "d' = update_run (\<lambda>r. run_id r = re_RunID event \<and> not_final r) g d" and "\<And>r. run_id (g r) = run_id r"
  using assms
  by (auto simp: updateRetryState_def updateTerminalRun_def Let_def split: option.splits if_splits)

lemma applyUnknownRunState_runs:
  assumes "applyUnknownRunState now event policy d = Inr d'"
  obtains g where "d' = update_run (\<lambda>r. run_id r = re_RunID event \<and> not_final r) g d" and "\<And>r. run_id (g r) = run_id r"
proof -
  from assms obtain state where "d' = update_run (\<lambda>r. run_id r = re_RunID event \<and> not_final r)
            (\<lambda>r. if state = ''retry_wait''
                 then (set_run_state RETRY_WAIT now r)\<lparr>run_retry_not_before := Some (now + second)\<rparr>
                 else if state = ''failed''
                 then (set_run_state FAILED now r)\<lparr>run_completed_at := Some (re_ReportedAt event)\<rparr>
                 else set_run_state UNKNOWN now r) d"
    by (auto simp: applyUnknownRunState_def split: option.splits)
  then show thesis by (rule that) (simp split: if_split)
qed

lemma inv_applyCompleted:
  assumes inv: "store_inv d" and a: "a \<in> set (attempts d)" "live a" "att_run_id a = re_RunID event"
    and ok: "applyCompletedRunEvent now event (att_id a) (att_runner_id a) payload d = Inr d'"
  shows "store_inv d'"
proof -
  define f :: "attempt_row \<Rightarrow> attempt_row" where "f = (\<lambda>x. x\<lparr>att_state := fst (completed_state (re_EventType event)),
       att_finished_at := Some (coalesce (att_finished_at x) (re_ReportedAt event)),
       att_termination_reason := (if re_Error event = [] then None else Some (re_Error event)),
       att_exit_code := re_ExitCode event, att_result := Some payload,
       att_max_memory := coalesce (map_of (re_Metrics event) ''max_memory_bytes'') (att_max_memory x),
       att_average_memory := coalesce (map_of (re_Metrics event) ''average_memory_bytes'') (att_average_memory x)\<rparr>)"
  define d1 where "d1 = update_attempt (\<lambda>x. att_id x = att_id a) f d"
  have f: "att_id (f x) = att_id x \<and> att_run_id (f x) = att_run_id x \<and> att_runner_id (f x) = att_runner_id x \<and> \<not> live (f x)" for x
    by (auto simp: f_def live_def completed_state_def)
  from ok obtain d2 where d2: "d' = releaseRunResources now (att_runner_id a) (att_id a) d2"
    "(if re_EventType event = ''failed'' \<or> re_EventType event = ''timed_out'' then updateRetryState now event d1
      else Inr (updateTerminalRun now event (snd (completed_state (re_EventType event))) d1)) = Inr d2"
    unfolding applyCompletedRunEvent_def Let_def f_def [symmetric] d1_def [symmetric]
    by (auto simp: res_bind_Inr)
  obtain g where g: "d2 = update_run (\<lambda>r. run_id r = re_RunID event \<and> not_final r) g d1" "\<And>r. run_id (g r) = run_id r"
  proof (cases "re_EventType event = ''failed'' \<or> re_EventType event = ''timed_out''")
    case True
    then show thesis using d2(2) that by (auto elim: updateRetryState_runs)
  next
    case False
    then show thesis using d2(2) that by (auto simp: updateTerminalRun_def)
  qed
  show ?thesis
    unfolding d2(1)
    by (rule inv_finish [OF inv a(1,2), where f = f and g = g and P = "\<lambda>r. run_id r = re_RunID event \<and> not_final r"])
      (use f g a(3) in \<open>simp_all add: d1_def\<close>)
qed

lemma inv_applyUnknown:
  assumes inv: "store_inv d" and a: "a \<in> set (attempts d)" "live a" "att_run_id a = re_RunID event"
    and ok: "applyUnknownRunEvent now event (att_id a) (att_runner_id a) d = Inr d'"
  shows "store_inv d'"
proof -
  define f :: "attempt_row \<Rightarrow> attempt_row" where "f = (\<lambda>x. x\<lparr>att_state := A_UNKNOWN,
       att_finished_at := Some (coalesce (att_finished_at x) (re_ReportedAt event)),
       att_termination_reason := Some ''runner restart''\<rparr>)"
  define d1 where "d1 = update_attempt (\<lambda>x. att_id x = att_id a) f d"
  have f: "att_id (f x) = att_id x \<and> att_run_id (f x) = att_run_id x \<and> att_runner_id (f x) = att_runner_id x \<and> \<not> live (f x)" for x
    by (auto simp: f_def live_def)
  from ok obtain policy d2 where d2: "d' = releaseRunResources now (att_runner_id a) (att_id a) d2"
    "applyUnknownRunState now event policy d1 = Inr d2"
    unfolding applyUnknownRunEvent_def Let_def f_def [symmetric] d1_def [symmetric]
    by (auto simp: res_bind_Inr split: option.splits)
  obtain g where g: "d2 = update_run (\<lambda>r. run_id r = re_RunID event \<and> not_final r) g d1" "\<And>r. run_id (g r) = run_id r"
    by (rule applyUnknownRunState_runs [OF d2(2)]) (rule that)
  show ?thesis
    unfolding d2(1)
    by (rule inv_finish [OF inv a(1,2), where f = f and g = g and P = "\<lambda>r. run_id r = re_RunID event \<and> not_final r"])
      (use f g a(3) in \<open>simp_all add: d1_def\<close>)
qed

lemma inv_unique_attempt:
  assumes "store_inv d" "a \<in> set (attempts d)" "x \<in> set (attempts d)" "att_id x = att_id a"
  shows "x = a"
  using assms distinct_map_eq_key [of att_id "attempts d" x a] by (simp add: inv_defs)

lemma inv_transition:
  assumes inv: "store_inv d" and a: "a \<in> set (attempts d)" "live a" "att_run_id a = re_RunID event"
    and ok: "applyRunEventTransition now event (att_id a) (att_runner_id a) payload d = Inr d'"
  shows "store_inv d'"
proof -
  note uniq = inv_unique_attempt [OF inv a(1)]
  have acc: "store_inv (update_attempt (\<lambda>x. att_id x = att_id a)
             (\<lambda>x. x\<lparr>att_state := (if att_state x = A_RUNNING then att_state x else A_ACCEPTED),
                   att_accepted_at := Some (coalesce (att_accepted_at x) (re_ReportedAt event))\<rparr>) d)"
    by (rule inv_update_attempt [OF inv]) (use uniq a(2) in \<open>auto simp: live_def\<close>)
  have hb: "store_inv (update_attempt (\<lambda>x. att_id x = att_id a)
             (\<lambda>x. x\<lparr>att_last_heartbeat_at := Some (re_ReportedAt event)\<rparr>) d)"
    by (rule inv_update_attempt_same [OF inv]) simp
  have "store_inv (update_attempt (\<lambda>x. att_id x = att_id a)
          (\<lambda>x. x\<lparr>att_state := A_RUNNING, att_started_at := Some (coalesce (att_started_at x) (re_ReportedAt event))\<rparr>) d)"
    by (rule inv_update_attempt [OF inv]) (use uniq a(2) in \<open>auto simp: live_def\<close>)
  then have st: "store_inv (startRunAttempt now event (att_id a) d)"
    unfolding startRunAttempt_def by (rule inv_update_run) (auto simp: in_flight_def)
  show ?thesis
    using ok acc hb st inv_applyCompleted [OF inv a] inv_applyUnknown [OF inv a]
    unfolding applyRunEventTransition_def by (auto split: if_splits)
qed

lemma inv_apply_state_event:
  assumes inv: "store_inv d" and a: "a \<in> set (attempts d)" "att_run_id a = re_RunID event"
    and ok: "apply_state_event sha now event a d = Inr d'"
  shows "store_inv d'"
proof (cases "re_Sequence event \<le> att_last_sequence a")
  case False
  with ok obtain d1 d2 d3 where legal: "legalAttemptTransition (att_state a) (re_EventType event)"
    and d1: "insert_event \<lparr>ev_event_id = re_EventID event, ev_attempt_id = att_id a,
                 ev_sequence = re_Sequence event, ev_kind = re_EventType event,
                 ev_reported_at = re_ReportedAt event, ev_payload = event_payload event\<rparr> d = Inr d1"
    and d2: "d2 = d1 \<or> (\<exists>l. d2 = insert_log_or_skip l d1)"
    and d3: "applyRunEventTransition now event (att_id a) (att_runner_id a) (event_payload event) d2 = Inr d3"
    and d': "d' = update_attempt (\<lambda>a'. att_id a' = att_id a)
               (\<lambda>a'. a'\<lparr>att_last_sequence := re_Sequence event, att_state_version := att_state_version a' + 1\<rparr>) d3"
    by (auto simp: apply_state_event_def res_bind_Inr Let_def split: if_splits)
  have inv2: "store_inv d2"
    using d2 inv_insert_event [OF inv d1] by (auto elim: store_inv_cong)
  have "a \<in> set (attempts d2)" using d2 a(1) insert_event_simps [OF d1] by auto
  moreover have "live a" using legal_live [OF legal] by (simp add: live_def)
  ultimately have "store_inv d3" using inv_transition [OF inv2 _ _ a(2) d3] by blast
  then show ?thesis unfolding d' by (rule inv_update_attempt_same) simp
qed (use ok inv in \<open>simp add: apply_state_event_def\<close>)

lemma inv_ApplyRunEvent:
  assumes "store_inv d" "ApplyRunEvent sha clock now event d = Inr d'"
  shows "store_inv d'"
proof -
  define ev where "ev = (if re_ReportedAt event = 0 then event\<lparr>re_ReportedAt := clock\<rparr> else event)"
  from assms(2) obtain a where a: "event_attempt ev d = Some a"
    and c: "d' = d \<or> (\<exists>row. applyLogChunkEvent sha ev (att_id a) (d\<lparr>inbox := inbox d @ [row]\<rparr>) = Inr d'
                      \<or> apply_state_event sha now ev a (d\<lparr>inbox := inbox d @ [row]\<rparr>) = Inr d')"
    unfolding ApplyRunEvent_def Let_def ev_def [symmetric] by (auto split: if_splits option.splits)
  have inv1: "store_inv (d\<lparr>inbox := inbox d @ [row]\<rparr>)" for row by (rule store_inv_cong [OF assms(1)]) simp_all
  have "store_inv d'" if "applyLogChunkEvent sha ev (att_id a) (d\<lparr>inbox := inbox d @ [row]\<rparr>) = Inr d'" for row
    using that store_inv_cong [OF inv1 [of row], of d'] by (auto simp: applyLogChunkEvent_def split: if_splits)
  moreover have "store_inv d'" if "apply_state_event sha now ev a (d\<lparr>inbox := inbox d @ [row]\<rparr>) = Inr d'" for row
    by (rule inv_apply_state_event [OF inv1 _ _ that]) (use event_attempt_Some [OF a] in simp_all)
  ultimately show ?thesis using c assms(1) by blast
qed

section \<open>The reconcilers\<close>

text \<open>
  A candidate read from a snapshot is still valid, or it is a duplicate whose event exists, in
  which case processing it fails.
\<close>

definition candidate_ok :: "string \<Rightarrow> string \<Rightarrow> string \<Rightarrow> int \<Rightarrow> db \<Rightarrow> bool" where
  "candidate_ok aid rid runner sequence d \<longleftrightarrow>
     (\<exists>a \<in> set (attempts d). att_id a = aid \<and> att_run_id a = rid \<and> att_runner_id a = runner \<and> live a)
     \<or> (\<exists>e \<in> set (run_events d). ev_attempt_id e = aid \<and> ev_sequence e = sequence)"

lemma insert_event_Inr:
  "insert_event e d = Inr d' \<Longrightarrow>
     d' = d\<lparr>run_events := run_events d @ [e]\<rparr>
     \<and> \<not> (\<exists>e' \<in> set (run_events d). ev_attempt_id e' = ev_attempt_id e \<and> ev_sequence e' = ev_sequence e)"
  by (auto simp: insert_event_def list_ex_iff split: if_splits)

text \<open>The attempt of a candidate is finished, everything else stays valid.\<close>

definition finishes :: "string \<Rightarrow> string \<Rightarrow> string \<Rightarrow> int \<Rightarrow> db \<Rightarrow> db \<Rightarrow> bool" where
  "finishes aid rid runner sequence d d' \<longleftrightarrow>
     (\<exists>e f P g d1 now.
        insert_event e d = Inr d1 \<and> ev_attempt_id e = aid \<and> ev_sequence e = sequence
        \<and> (\<forall>x. att_id (f x) = att_id x \<and> att_run_id (f x) = att_run_id x \<and> att_runner_id (f x) = att_runner_id x
               \<and> \<not> live (f x))
        \<and> (\<forall>r. P r \<longrightarrow> run_id r = rid \<and> run_id (g r) = run_id r)
        \<and> (let e2 = releaseRunResources now runner aid
                        (update_run P g (update_attempt (\<lambda>x. att_id x = aid) f d1))
           in runs d' = runs e2 \<and> attempts d' = attempts e2 \<and> runners d' = runners e2 \<and> leases d' = leases e2
              \<and> run_events d' = run_events e2))"

lemma finishes_inv:
  assumes inv: "store_inv d" and ok: "candidate_ok aid rid runner sequence d"
    and fin: "finishes aid rid runner sequence d d'"
  shows "store_inv d'"
proof -
  from fin obtain e f P g d1 now where
    d1: "insert_event e d = Inr d1" "ev_attempt_id e = aid" "ev_sequence e = sequence"
    and f: "\<forall>x. att_id (f x) = att_id x \<and> att_run_id (f x) = att_run_id x \<and> att_runner_id (f x) = att_runner_id x \<and> \<not> live (f x)"
    and g: "\<forall>r. P r \<longrightarrow> run_id r = rid \<and> run_id (g r) = run_id r"
    and d': "runs d' = runs (releaseRunResources now runner aid (update_run P g (update_attempt (\<lambda>x. att_id x = aid) f d1)))"
      "attempts d' = attempts (releaseRunResources now runner aid (update_run P g (update_attempt (\<lambda>x. att_id x = aid) f d1)))"
      "runners d' = runners (releaseRunResources now runner aid (update_run P g (update_attempt (\<lambda>x. att_id x = aid) f d1)))"
      "leases d' = leases (releaseRunResources now runner aid (update_run P g (update_attempt (\<lambda>x. att_id x = aid) f d1)))"
    unfolding finishes_def Let_def by blast
  obtain a where a: "a \<in> set (attempts d)" "att_id a = aid" "att_run_id a = rid" "att_runner_id a = runner" "live a"
    using ok insert_event_Inr [OF d1(1)] d1(2,3) unfolding candidate_ok_def by auto
  have "store_inv (releaseRunResources now runner aid (update_run P g (update_attempt (\<lambda>x. att_id x = aid) f d1)))"
    unfolding a(2) [symmetric] a(4) [symmetric]
    by (rule inv_finish [OF inv a(1,5), where f = f and P = P and g = g])
      (use f g a insert_event_simps [OF d1(1)] in auto)
  then show ?thesis by (rule store_inv_cong) (rule d')+
qed

lemma finishes_keeps:
  assumes ok: "candidate_ok aid' rid' runner' sequence' d" and fin: "finishes aid rid runner sequence d d'"
    and same: "aid' = aid \<Longrightarrow> sequence' = sequence"
  shows "candidate_ok aid' rid' runner' sequence' d'"
proof -
  from fin obtain e f d1 where d1: "insert_event e d = Inr d1" "ev_attempt_id e = aid" "ev_sequence e = sequence"
    and atts: "attempts d' = sql_update (\<lambda>x. att_id x = aid) f (attempts d1)" and evs: "run_events d' = run_events d1"
    unfolding finishes_def Let_def by auto
  have ev: "run_events d' = run_events d @ [e]" using insert_event_Inr [OF d1(1)] evs by simp
  show ?thesis
  proof (cases "aid' = aid")
    case True
    then show ?thesis using same d1(2,3) ev by (auto simp: candidate_ok_def)
  next
    case False
    from ok show ?thesis
      unfolding candidate_ok_def
    proof
      assume "\<exists>a \<in> set (attempts d). att_id a = aid' \<and> att_run_id a = rid' \<and> att_runner_id a = runner' \<and> live a"
      then obtain a where a: "a \<in> set (attempts d)" "att_id a = aid' \<and> att_run_id a = rid' \<and> att_runner_id a = runner' \<and> live a"
        by blast
      have "a \<in> set (attempts d')"
        using a False insert_event_simps(1) [OF d1(1)] unfolding atts set_sql_update by (force intro: image_eqI [of _ _ a])
      with a show "(\<exists>a \<in> set (attempts d'). att_id a = aid' \<and> att_run_id a = rid' \<and> att_runner_id a = runner' \<and> live a)
         \<or> (\<exists>e \<in> set (run_events d'). ev_attempt_id e = aid' \<and> ev_sequence e = sequence')" by blast
    qed (use ev in auto)
  qed
qed

lemma td_facts [simp]:
  "ev_attempt_id (td_event now c) = td_attemptID c" "ev_sequence (td_event now c) = td_sequence c"
  "att_id (td_attempt now c a) = att_id a" "att_run_id (td_attempt now c a) = att_run_id a"
  "att_runner_id (td_attempt now c a) = att_runner_id a" "\<not> live (td_attempt now c a)"
  "run_id (td_run now sqlnow c r) = run_id r"
  by (simp_all add: td_event_def td_attempt_def td_run_def live_def)

lemma sn_facts [simp]:
  "ev_attempt_id (sn_event clock s) = sn_attemptID s" "ev_sequence (sn_event clock s) = sn_sequence s"
  "att_id (sn_attempt clock s a) = att_id a" "att_run_id (sn_attempt clock s a) = att_run_id a"
  "att_runner_id (sn_attempt clock s a) = att_runner_id a" "\<not> live (sn_attempt clock s a)"
  "run_id (sn_run clock sqlnow s r) = run_id r"
  by (simp_all add: sn_event_def sn_attempt_def sn_run_def live_def)

lemma reconcile_dispatch_finishes:
  assumes "reconcile_dispatch now sqlnow c d = Inr d'"
  shows "finishes (td_attemptID c) (td_runID c) (td_runnerID c) (td_sequence c) d d'"
proof -
  let ?P = "\<lambda>r. run_id r = td_runID c \<and> run_state r \<in> {DISPATCHED, RUNNING}"
  from assms obtain d1 ob where d1: "insert_event (td_event now c) d = Inr d1"
    and d': "d' = (releaseRunResources sqlnow (td_runnerID c) (td_attemptID c)
              (update_run ?P (td_run now sqlnow c)
                (update_attempt (\<lambda>a. att_id a = td_attemptID c) (td_attempt now c) d1)))\<lparr>outbox := ob\<rparr>"
    unfolding reconcile_dispatch_def Let_def by (auto simp: res_bind_Inr)
  show ?thesis
    unfolding finishes_def Let_def
    by (rule exI [of _ "td_event now c"], rule exI [of _ "td_attempt now c"], rule exI [of _ ?P],
        rule exI [of _ "td_run now sqlnow c"], rule exI [of _ d1], rule exI [of _ sqlnow])
      (use d1 d' in simp)
qed

lemma reconcile_cancellation_finishes:
  assumes "reconcile_cancellation clock sqlnow c d = Inr d'"
  shows "finishes (sn_attemptID c) (sn_runID c) (sn_runnerID c) (sn_sequence c) d d'"
proof -
  let ?P = "\<lambda>r. run_id r = sn_runID c \<and> run_state r = CANCELLING"
  from assms obtain d1 where d1: "insert_event (sn_event clock c) d = Inr d1"
    and d': "d' = releaseRunResources sqlnow (sn_runnerID c) (sn_attemptID c)
              (update_run ?P (sn_run clock sqlnow c)
                (update_attempt (\<lambda>a. att_id a = sn_attemptID c) (sn_attempt clock c) d1))"
    unfolding reconcile_cancellation_def Let_def by (auto simp: res_bind_Inr)
  show ?thesis
    unfolding finishes_def Let_def
    by (rule exI [of _ "sn_event clock c"], rule exI [of _ "sn_attempt clock c"], rule exI [of _ ?P],
        rule exI [of _ "sn_run clock sqlnow c"], rule exI [of _ d1], rule exI [of _ sqlnow])
      (use d1 d' in simp)
qed

text \<open>Candidates of one batch that name the same attempt were read from the same row.\<close>

lemma inv_reconcile_dispatches:
  assumes "store_inv d" and "\<And>c. c \<in> set cs \<Longrightarrow> candidate_ok (td_attemptID c) (td_runID c) (td_runnerID c) (td_sequence c) d"
    and "\<And>c c'. c \<in> set cs \<Longrightarrow> c' \<in> set cs \<Longrightarrow> td_attemptID c = td_attemptID c' \<Longrightarrow> td_sequence c = td_sequence c'"
    and "reconcile_dispatches now sqlnow cs d = Inr d'"
  shows "store_inv d'"
  using assms
proof (induction cs arbitrary: d)
  case Nil
  from Nil.prems(1,4) show ?case by simp
next
  case (Cons c cs)
  from Cons.prems(4) obtain d1 where d1: "reconcile_dispatch now sqlnow c d = Inr d1"
    "reconcile_dispatches now sqlnow cs d1 = Inr d'" by (auto simp: res_bind_Inr)
  note fin = reconcile_dispatch_finishes [OF d1(1)]
  show ?case
  proof (rule Cons.IH [OF _ _ _ d1(2)])
    show "store_inv d1" by (rule finishes_inv [OF Cons.prems(1) _ fin]) (simp add: Cons.prems(2))
    show "candidate_ok (td_attemptID x) (td_runID x) (td_runnerID x) (td_sequence x) d1" if "x \<in> set cs" for x
      by (rule finishes_keeps [OF Cons.prems(2) fin Cons.prems(3)]) (simp_all add: that)
    show "td_sequence x = td_sequence y" if "x \<in> set cs" "y \<in> set cs" "td_attemptID x = td_attemptID y" for x y
      by (rule Cons.prems(3)) (simp_all add: that)
  qed
qed

lemma inv_reconcile_cancellations:
  assumes "store_inv d" and "\<And>c. c \<in> set cs \<Longrightarrow> candidate_ok (sn_attemptID c) (sn_runID c) (sn_runnerID c) (sn_sequence c) d"
    and "\<And>c c'. c \<in> set cs \<Longrightarrow> c' \<in> set cs \<Longrightarrow> sn_attemptID c = sn_attemptID c' \<Longrightarrow> sn_sequence c = sn_sequence c'"
    and "reconcile_cancellations clock sqlnow cs d = Inr d'"
  shows "store_inv d'"
  using assms
proof (induction cs arbitrary: d)
  case Nil
  from Nil.prems(1,4) show ?case by simp
next
  case (Cons c cs)
  from Cons.prems(4) obtain d1 where d1: "reconcile_cancellation clock sqlnow c d = Inr d1"
    "reconcile_cancellations clock sqlnow cs d1 = Inr d'" by (auto simp: res_bind_Inr)
  note fin = reconcile_cancellation_finishes [OF d1(1)]
  show ?case
  proof (rule Cons.IH [OF _ _ _ d1(2)])
    show "store_inv d1" by (rule finishes_inv [OF Cons.prems(1) _ fin]) (simp add: Cons.prems(2))
    show "candidate_ok (sn_attemptID x) (sn_runID x) (sn_runnerID x) (sn_sequence x) d1" if "x \<in> set cs" for x
      by (rule finishes_keeps [OF Cons.prems(2) fin Cons.prems(3)]) (simp_all add: that)
    show "sn_sequence x = sn_sequence y" if "x \<in> set cs" "y \<in> set cs" "sn_attemptID x = sn_attemptID y" for x y
      by (rule Cons.prems(3)) (simp_all add: that)
  qed
qed

lemma in_sql_limit: "x \<in> set (sql_limit n k xs) \<Longrightarrow> x \<in> set xs"
  unfolding sql_limit_def by (auto dest: in_set_takeD)

lemma timed_out_row:
  assumes "c \<in> set (timed_out_rows now d)"
  obtains r a where "r \<in> set (runs d)" "a \<in> set (attempts d)" "att_run_id a = run_id r" "live a" "in_flight r"
    "c = \<lparr>td_attemptID = att_id a, td_runID = att_run_id a, td_runnerID = att_runner_id a,
          td_attemptState = att_state a, td_lastSequence = att_last_sequence a,
          td_startFailed = (case start_deadline r a of None \<Rightarrow> False | Some t \<Rightarrow> t \<le> now)\<rparr>"
proof -
  from assms obtain r a where c: "c = \<lparr>td_attemptID = att_id a, td_runID = att_run_id a, td_runnerID = att_runner_id a,
          td_attemptState = att_state a, td_lastSequence = att_last_sequence a,
          td_startFailed = (case start_deadline r a of None \<Rightarrow> False | Some t \<Rightarrow> t \<le> now)\<rparr>"
    and "(r, a) \<in> set [(r, a). (r, a) \<leftarrow> run_attempts d, tv \<leftarrow> task_versions d, tv_id tv = run_task_version_id r,
                   dispatch_timed_out now r a tv]"
    unfolding timed_out_rows_def by (auto dest!: in_sql_limit)
  then have "(r, a) \<in> set (run_attempts d)" and "\<exists>tv. dispatch_timed_out now r a tv"
    by (auto split: if_splits)
  then show thesis using that [OF _ _ _ _ _ c] by (auto simp: run_attempts_set dispatch_timed_out_def live_def in_flight_def)
qed

lemma stale_row:
  assumes "c \<in> set (stale_rows cutoff d)"
  obtains r a where "r \<in> set (runs d)" "a \<in> set (attempts d)" "att_run_id a = run_id r" "live a" "run_state r = CANCELLING"
    "c = \<lparr>sn_attemptID = att_id a, sn_runID = att_run_id a, sn_runnerID = att_runner_id a,
          sn_lastSequence = att_last_sequence a, sn_reason = coalesce (run_cancellation_reason r) []\<rparr>"
  using assms unfolding stale_rows_def
  by (auto dest!: in_sql_limit simp: run_attempts_set live_def)

lemma inv_ReconcileTimedOutDispatches:
  assumes inv: "store_inv d" and ok: "ReconcileTimedOutDispatches now sqlnow d = Inr d'"
  shows "store_inv d'"
proof (rule inv_reconcile_dispatches [OF inv])
  show "reconcile_dispatches now sqlnow (timed_out_rows now d) d = Inr d'"
    using ok by (simp add: ReconcileTimedOutDispatches_def split: if_splits)
  show "candidate_ok (td_attemptID c) (td_runID c) (td_runnerID c) (td_sequence c) d" if "c \<in> set (timed_out_rows now d)" for c
    using that by (rule timed_out_row) (auto simp: candidate_ok_def)
  show "td_sequence c = td_sequence c'"
    if c: "c \<in> set (timed_out_rows now d)" "c' \<in> set (timed_out_rows now d)" "td_attemptID c = td_attemptID c'" for c c'
    by (rule timed_out_row [OF c(1)], rule timed_out_row [OF c(2)])
      (use c(3) inv_unique_attempt [OF inv] in \<open>auto simp: td_sequence_def\<close>)
qed

lemma inv_ReconcileStaleCancellations:
  assumes inv: "store_inv d" and ok: "ReconcileStaleCancellations cutoff clock sqlnow d = Inr d'"
  shows "store_inv d'"
proof (rule inv_reconcile_cancellations [OF inv])
  show "reconcile_cancellations clock sqlnow (stale_rows cutoff d) d = Inr d'"
    using ok by (simp add: ReconcileStaleCancellations_def split: if_splits)
  show "candidate_ok (sn_attemptID c) (sn_runID c) (sn_runnerID c) (sn_sequence c) d" if "c \<in> set (stale_rows cutoff d)" for c
    using that by (rule stale_row) (auto simp: candidate_ok_def)
  show "sn_sequence c = sn_sequence c'"
    if c: "c \<in> set (stale_rows cutoff d)" "c' \<in> set (stale_rows cutoff d)" "sn_attemptID c = sn_attemptID c'" for c c'
    by (rule stale_row [OF c(1)], rule stale_row [OF c(2)])
      (use c(3) inv_unique_attempt [OF inv] in \<open>auto simp: sn_sequence_def\<close>)
qed

section \<open>Dispatch\<close>

lemma sql_first_Some: "sql_first k xs = Some x \<Longrightarrow> x \<in> set xs \<and> (\<forall>y \<in> set xs. k x \<le> k y)"
proof -
  assume "sql_first k xs = Some x"
  then obtain ys where s: "sort_key k xs = x # ys" by (auto simp: sql_first_def split: list.splits)
  then have x: "set (x # ys) = set xs" by (metis set_sort)
  have "sorted (map k (x # ys))" using s by (metis sorted_sort_key)
  then show ?thesis using x by auto
qed

lemma claim_query_Some:
  assumes "claim_query now d = Some (r, tv, t, rr, rp, rs)"
  shows "r \<in> set (runs d)" "tv \<in> set (task_versions d)" "tv_id tv = run_task_version_id r" "run_claimable now d r tv"
    "list_all (resource_free now d) (required_resources d (tv_id tv))" "rr \<in> set (runners d)" "rs \<in> set (sessions d)"
    "runner_eligible now tv rr rs"
  using sql_first_Some [OF assms [unfolded claim_query_def], THEN conjunct1] unfolding claim_rows_def
  by (clarsimp; fastforce split: if_splits)+

lemma acquire_lease_props:
  assumes "acquire_lease now lid tok c rid d = Inr d'"
  shows "attempts d' = attempts d" "runs d' = runs d" "runners d' = runners d" "run_events d' = run_events d"
    "outbox d' = outbox d" "inbox d' = inbox d"
    and "l \<in> set (leases d') \<Longrightarrow> lease_state l = ACTIVE \<Longrightarrow>
           l \<in> set (leases d) \<or> lease_attempt_id l = dc_AttemptID c \<and> lease_resource_id l = rid"
    and "leases_exclusive d \<Longrightarrow> leases_exclusive d'"
proof -
  define expired where "expired = sql_update (\<lambda>l. lease_resource_id l = rid \<and> lease_state l = ACTIVE \<and> lease_expires_at l \<le> now)
                   (\<lambda>l. l\<lparr>lease_state := EXPIRED, lease_released_at := Some now\<rparr>) (leases d)"
  from assms obtain row rs where d': "d' = d\<lparr>resources := rs, leases := expired @ [row]\<rparr>"
    and row: "lease_attempt_id row = dc_AttemptID c" "lease_resource_id row = rid"
    and free: "\<And>l. l \<in> set expired \<Longrightarrow> \<not> (lease_resource_id l = rid \<and> lease_state l = ACTIVE)"
    unfolding acquire_lease_def Let_def expired_def [symmetric]
    by (auto simp: list_ex_iff split: if_splits option.splits)
  show "attempts d' = attempts d" "runs d' = runs d" "runners d' = runners d" "run_events d' = run_events d"
    "outbox d' = outbox d" "inbox d' = inbox d" by (simp_all add: d')
  have act: "l \<in> set (leases d)" if "l \<in> set expired" "lease_state l = ACTIVE" for l
    using that unfolding expired_def by (auto elim: in_sql_updateE)
  show "l \<in> set (leases d) \<or> lease_attempt_id l = dc_AttemptID c \<and> lease_resource_id l = rid"
    if "l \<in> set (leases d')" "lease_state l = ACTIVE" using that act row by (auto simp: d')
  assume ex: "leases_exclusive d"
  have le: "sql_count (\<lambda>l. lease_state l = ACTIVE \<and> lease_resource_id l = x) expired
        \<le> sql_count (\<lambda>l. lease_state l = ACTIVE \<and> lease_resource_id l = x) (leases d)" for x
    unfolding expired_def by (rule sql_count_update_le) simp
  have none: "sql_count (\<lambda>l. lease_state l = ACTIVE \<and> lease_resource_id l = rid) expired = 0"
    using free by (auto simp: sql_count_0)
  show "leases_exclusive d'"
    unfolding leases_exclusive_def
  proof
    fix x
    show "sql_count (\<lambda>l. lease_state l = ACTIVE \<and> lease_resource_id l = x) (leases d') \<le> 1"
      using le [of x] none ex row by (cases "x = rid") (auto simp: d' leases_exclusive_def intro: order_trans)
  qed
qed

lemma acquire_leases_props:
  assumes "acquire_leases now fresh i c rids d = Inr d'"
  shows "attempts d' = attempts d \<and> runs d' = runs d \<and> runners d' = runners d
     \<and> (\<forall>l \<in> set (leases d'). lease_state l = ACTIVE \<longrightarrow> l \<in> set (leases d) \<or> lease_attempt_id l = dc_AttemptID c)
     \<and> (leases_exclusive d \<longrightarrow> leases_exclusive d')"
  using assms
proof (induction rids arbitrary: i d)
  case (Cons rid rids)
  from Cons.prems obtain d1 where d1: "acquire_lease now (fresh (2 * i)) (fresh (2 * i + 1)) c rid d = Inr d1"
    "acquire_leases now fresh (i + 1) c rids d1 = Inr d'" by (auto simp: res_bind_Inr)
  note p = acquire_lease_props [OF d1(1)]
  from Cons.IH [OF d1(2)] p(1-3,8) p(7) show ?case by metis
qed simp

lemma insert_attempt_Inr:
  "insert_attempt a d = Inr d' \<Longrightarrow> d' = d\<lparr>attempts := attempts d @ [a]\<rparr> \<and> att_id a \<notin> att_id ` set (attempts d)
     \<and> (\<forall>x \<in> set (attempts d). att_run_id x = att_run_id a \<longrightarrow> att_number x \<noteq> att_number a)"
  by (auto simp: insert_attempt_def list_ex_iff split: if_splits)

lemma no_live_attempt:
  assumes "store_inv d" "r \<in> set (runs d)" "\<not> in_flight r" "a \<in> set (attempts d)" "live a"
  shows "att_run_id a \<noteq> run_id r"
proof
  assume "att_run_id a = run_id r"
  moreover obtain r' where "r' \<in> set (runs d)" "run_id r' = att_run_id a" "in_flight r'"
    using assms(1,4,5) by (auto simp: store_inv_def live_runs_def)
  ultimately have "r' = r" using assms(1,2) distinct_map_eq_key [of run_id "runs d" r' r] by (simp add: inv_defs)
  then show False using assms(3) \<open>in_flight r'\<close> by simp
qed

lemma dispatch_candidate_Inr:
  assumes "dispatch_candidate now fresh envelope c d = Inr d'"
  obtains d2 row where "acquire_leases now fresh 0 c (dc_Resources c)
      (d\<lparr>attempts := attempts d @ [new_attempt c A_DISPATCHED (Some now)]\<rparr>) = Inr d2"
    and "dc_AttemptID c \<notin> att_id ` set (attempts d)"
    and "d' = d2\<lparr>runs := sql_update (\<lambda>r. run_id r = dc_RunID c \<and> run_state r \<in> {WAITING, RETRY_WAIT})
                            (set_run_state DISPATCHED now) (runs d2),
                runners := sql_update (\<lambda>rr. rr_id rr = dc_RunnerID c)
                     (\<lambda>rr. rr\<lparr>rr_active_count := rr_active_count rr + 1\<rparr>) (runners d2),
                outbox := outbox d2 @ [row]\<rparr>"
    and "row = new_outbox (dc_AttemptID c) (dc_AttemptID c) ''execute'' (dc_RunnerID c) envelope now"
proof -
  from assms obtain d1 d2 where d1: "insert_attempt (new_attempt c A_DISPATCHED (Some now)) d = Inr d1"
    and d2: "acquire_leases now fresh 0 c (dc_Resources c) d1 = Inr d2"
    and d3: "insert_outbox (new_outbox (dc_AttemptID c) (dc_AttemptID c) ''execute'' (dc_RunnerID c) envelope now)
       ((update_run (\<lambda>r. run_id r = dc_RunID c \<and> run_state r \<in> {WAITING, RETRY_WAIT}) (set_run_state DISPATCHED now) d2)
          \<lparr>runners := sql_update (\<lambda>rr. rr_id rr = dc_RunnerID c) (\<lambda>rr. rr\<lparr>rr_active_count := rr_active_count rr + 1\<rparr>)
              (runners d2)\<rparr>) = Inr d'"
    unfolding dispatch_candidate_def Let_def by (auto simp: res_bind_Inr)
  have "att_id (new_attempt c A_DISPATCHED (Some now)) = dc_AttemptID c" by (simp add: new_attempt_def)
  then show thesis
    using that [OF _ _ _ refl, of d2] insert_attempt_Inr [OF d1] d2 d3
    by (auto simp: insert_outbox_def update_run_def split: if_splits)
qed

lemma inv_dispatch:
  assumes inv: "store_inv d" and r: "r \<in> set (runs d)" "run_id r = dc_RunID c" "run_state r \<in> {WAITING, RETRY_WAIT}"
    and cap: "\<And>rr. rr \<in> set (runners d) \<Longrightarrow> rr_id rr = dc_RunnerID c \<Longrightarrow> rr_active_count rr < rr_capacity rr"
    and ok: "dispatch_candidate now fresh envelope c d = Inr d'"
  shows "store_inv d'"
proof -
  define a0 where "a0 = new_attempt c A_DISPATCHED (Some now)"
  have a0: "att_id a0 = dc_AttemptID c" "att_run_id a0 = dc_RunID c" "att_runner_id a0 = dc_RunnerID c" "live a0"
    by (simp_all add: a0_def new_attempt_def live_def)
  obtain d2 row where d2: "acquire_leases now fresh 0 c (dc_Resources c) (d\<lparr>attempts := attempts d @ [a0]\<rparr>) = Inr d2"
    and new: "dc_AttemptID c \<notin> att_id ` set (attempts d)"
    and d': "d' = d2\<lparr>runs := sql_update (\<lambda>r. run_id r = dc_RunID c \<and> run_state r \<in> {WAITING, RETRY_WAIT})
                            (set_run_state DISPATCHED now) (runs d2),
                runners := sql_update (\<lambda>rr. rr_id rr = dc_RunnerID c)
                     (\<lambda>rr. rr\<lparr>rr_active_count := rr_active_count rr + 1\<rparr>) (runners d2),
                outbox := outbox d2 @ [row]\<rparr>"
    by (rule dispatch_candidate_Inr [OF ok]) (use that a0_def in blast)
  note p = acquire_leases_props [OF d2]
  have atts: "attempts d' = attempts d @ [a0]" using p by (simp add: d')
  have runs: "runs d' = sql_update (\<lambda>r. run_id r = dc_RunID c \<and> run_state r \<in> {WAITING, RETRY_WAIT})
                (set_run_state DISPATCHED now) (runs d)" using p by (simp add: d')
  have rrs: "runners d' = sql_update (\<lambda>rr. rr_id rr = dc_RunnerID c)
               (\<lambda>rr. rr\<lparr>rr_active_count := rr_active_count rr + 1\<rparr>) (runners d)" using p by (simp add: d')
  have ls: "leases d' = leases d2" by (simp add: d')
  have idle: "\<not> in_flight r" using r(3) by (auto simp: in_flight_def)
  note none = no_live_attempt [OF inv r(1) idle]
  have "keys_unique d'"
    using inv new a0(1) unfolding store_inv_def keys_unique_def atts runs rrs
    by (simp add: map_sql_update image_iff)
  moreover have "live_runs d'"
    unfolding live_runs_def
  proof (intro ballI impI)
    fix x
    assume x: "x \<in> set (attempts d')" "live x"
    show "\<exists>r \<in> set (runs d'). run_id r = att_run_id x \<and> in_flight r"
    proof (cases "x = a0")
      case True
      have "set_run_state DISPATCHED now r \<in> set (runs d')"
        unfolding runs set_sql_update using r by (force intro: image_eqI [of _ _ r])
      then show ?thesis using True a0 r(2)
        by (intro bexI [of _ "set_run_state DISPATCHED now r"]) (auto simp: in_flight_def)
    next
      case False
      then have "x \<in> set (attempts d)" using x(1) by (simp add: atts)
      then obtain r' where r': "r' \<in> set (runs d)" "run_id r' = att_run_id x" "in_flight r'"
        using inv x(2) by (auto simp: store_inv_def live_runs_def)
      have "r' \<in> set (runs d')"
        unfolding runs set_sql_update using r' by (force simp: in_flight_def intro: image_eqI [of _ _ r'])
      then show ?thesis using r' by blast
    qed
  qed
  moreover have "one_live_attempt d'"
    unfolding one_live_attempt_def
  proof (intro ballI impI)
    fix x y
    assume xy: "x \<in> set (attempts d')" "y \<in> set (attempts d')" "live x \<and> live y \<and> att_run_id x = att_run_id y"
    have out: "att_run_id z \<noteq> att_run_id a0" if "z \<in> set (attempts d)" "live z" for z
      using none [OF that] a0(2) r(2) by simp
    have "x = a0 \<longleftrightarrow> y = a0" using xy out [of x] out [of y] by (auto simp: atts)
    then show "x = y" using xy inv by (auto simp: atts store_inv_def one_live_attempt_def)
  qed
  moreover have "counts_exact d'"
    unfolding counts_exact_def
  proof
    fix rr
    assume "rr \<in> set (runners d')"
    then obtain r0 where r0: "r0 \<in> set (runners d)"
      "rr = (if rr_id r0 = dc_RunnerID c then r0\<lparr>rr_active_count := rr_active_count r0 + 1\<rparr> else r0)"
      unfolding rrs set_sql_update by auto
    then show "rr_active_count rr = live_on (rr_id rr) (attempts d')"
      using inv a0(3,4) by (auto simp: store_inv_def counts_exact_def atts live_on_def)
  qed
  moreover have "within_capacity d'"
    using inv cap unfolding store_inv_def within_capacity_def rrs set_sql_update by (auto simp: Suc_le_eq)
  moreover have "leases_live d'"
    unfolding leases_live_def
  proof (intro ballI impI)
    fix l
    assume l: "l \<in> set (leases d')" "lease_state l = ACTIVE"
    then consider "l \<in> set (leases d)" | "lease_attempt_id l = dc_AttemptID c" using p ls by auto
    then show "\<exists>x \<in> set (attempts d'). att_id x = lease_attempt_id l \<and> live x"
    proof cases
      case 1
      then show ?thesis using inv l(2) unfolding atts by (auto simp: store_inv_def leases_live_def)
    next
      case 2
      then show ?thesis using a0 unfolding atts by auto
    qed
  qed
  moreover have "leases_exclusive d'"
    using p inv unfolding store_inv_def leases_exclusive_def ls by simp
  ultimately show ?thesis unfolding store_inv_def by blast
qed

lemma build_candidate_Inr:
  assumes "build_candidate digest token clock d (r, tv, t, rr, rp, rs) = Inr c"
  shows "dc_RunID c = run_id r" "dc_RunnerID c = rs_runner_id rs" "dc_RunnerSessionID c = rs_id rs"
    "dc_AttemptNumber c = max_attempt (run_id r) (attempts d) + 1"
    "dc_AttemptID c = run_id r @ ''-attempt-'' @ Itoa (dc_AttemptNumber c)"
    "dc_Resources c = remdups (map res_id (required_resources d (tv_id tv)))"
    "dc_LeaseNotAfter c = clock + (tv_duration_seconds tv + 30) * second"
    "dc_DurationSeconds c = tv_duration_seconds tv" "dc_MaxOutputBytes c = tv_max_output_bytes tv"
    "dc_Digest c = resolvedExecutionDigest digest (c\<lparr>dc_DurationSeconds := 0, dc_MaxOutputBytes := 0\<rparr>)"
  using assms unfolding build_candidate_def Let_def
  by (auto simp: res_bind_Inr undefined_error_def resolvedExecutionDigest_def split: option.splits sum.splits)

lemma ClaimWaiting_Inr:
  assumes "ClaimWaiting digest token fresh clock now build d = Inr (Some c, d')"
  obtains r tv t rr rp rs builder envelope where "claim_query now d = Some (r, tv, t, rr, rp, rs)"
    and "build_candidate digest token clock d (r, tv, t, rr, rp, rs) = Inr c"
    and "build = Some builder" "builder c = Some envelope" "envelope \<noteq> []"
    and "dispatch_candidate now fresh envelope c d = Inr d'"
  using assms unfolding ClaimWaiting_def
  by (auto simp: res_bind_Inr split: option.splits if_splits)

lemma inv_ClaimWaiting:
  assumes inv: "store_inv d" and ok: "ClaimWaiting digest token fresh clock now build d = Inr (res, d')"
  shows "store_inv d'"
proof (cases res)
  case None
  then have "d' = d"
    using ok unfolding ClaimWaiting_def by (auto simp: res_bind_Inr split: option.splits if_splits)
  then show ?thesis using inv by simp
next
  case (Some c)
  from ok [unfolded Some] show ?thesis
  proof (rule ClaimWaiting_Inr)
    fix r tv t rr rp rs builder envelope
    assume q: "claim_query now d = Some (r, tv, t, rr, rp, rs)"
      and c: "build_candidate digest token clock d (r, tv, t, rr, rp, rs) = Inr c"
      and dc: "dispatch_candidate now fresh envelope c d = Inr d'"
    show "store_inv d'"
    proof (rule inv_dispatch [OF inv claim_query_Some(1) [OF q] _ _ _ dc])
      show "run_id r = dc_RunID c" "run_state r \<in> {WAITING, RETRY_WAIT}"
        using build_candidate_Inr(1) [OF c] claim_query_Some(4) [OF q] by (auto simp: run_claimable_def)
      fix x
      assume x: "x \<in> set (runners d)" "rr_id x = dc_RunnerID c"
      have e: "runner_eligible now tv rr rs" "rr \<in> set (runners d)" using claim_query_Some [OF q] by blast+
      then have "rr_id x = rr_id rr" using x(2) build_candidate_Inr(2) [OF c] by (simp add: runner_eligible_def)
      then have "x = rr" using inv x(1) e(2) distinct_map_eq_key [of rr_id "runners d" x rr] by (simp add: inv_defs)
      then show "rr_active_count x < rr_capacity x" using e(1) by (simp add: runner_eligible_def)
    qed
  qed
qed

section \<open>The other operations\<close>

lemma inv_insert_run: "store_inv d \<Longrightarrow> insert_run r d = Inr d' \<Longrightarrow> store_inv d'"
proof -
  assume inv: "store_inv d" and ok: "insert_run r d = Inr d'"
  have d': "d' = d\<lparr>runs := runs d @ [r]\<rparr>" and new: "run_id r \<notin> run_id ` set (runs d)"
    using ok by (auto simp: insert_run_def list_ex_iff run_conflict_def split: if_splits)
  have "distinct (map run_id (runs d'))" using inv new by (simp add: store_inv_def keys_unique_def d')
  moreover have "live_runs d'" using inv by (auto simp: store_inv_def live_runs_def d')
  ultimately show ?thesis by (intro store_inv_runs [OF inv]) (simp_all add: d')
qed

lemma inv_RunStore_Create:
  assumes "store_inv d" "RunStore_Create provider clock now def0 d = Inr (res, d')"
  shows "store_inv d'"
  using assms(2) inv_insert_run [OF assms(1)] unfolding RunStore_Create_def Let_def
  by (auto simp: res_bind_Inr split: option.splits if_splits)

lemma inv_updated_run:
  assumes inv: "store_inv d" and ok: "updated_run ident P f d = Inr (res, d')"
    and f: "\<And>r. run_id (f r) = run_id r" "\<And>r. r \<in> set (runs d) \<Longrightarrow> P r \<Longrightarrow> in_flight r \<Longrightarrow> in_flight (f r)"
  shows "store_inv d'"
proof (cases "sql_count (\<lambda>r. run_id r = ident \<and> P r) (runs d) = 0")
  case False
  then have "d' = update_run (\<lambda>r. run_id r = ident \<and> P r) f d" using ok by (simp add: updated_run_def Let_def)
  then show ?thesis using f by (auto intro!: inv_update_run [OF inv])
qed (use ok inv in \<open>simp add: updated_run_def\<close>)

lemma inv_RequestCancellation:
  assumes inv: "store_inv d" and ok: "RequestCancellation now ident reason d = Inr (res, d')"
  shows "store_inv d'"
proof (cases "TrimSpace reason = []")
  case False
  note u = ok [unfolded RequestCancellation_def Let_def if_not_P [OF False]]
  show ?thesis by (rule inv_updated_run [OF inv u]) (auto simp: in_flight_def split: if_splits)
qed (use ok in \<open>simp add: RequestCancellation_def\<close>)

lemma inv_RunStore_Retry:
  assumes inv: "store_inv d" and ok: "RunStore_Retry now ident reason d = Inr (res, d')"
  shows "store_inv d'"
  by (rule inv_updated_run [OF inv ok [unfolded RunStore_Retry_def]]) (auto simp: in_flight_def)

lemma inv_ClaimCancelling:
  assumes "store_inv d" "ClaimCancelling now build d = Inr (res, d')"
  shows "store_inv d'"
proof -
  from assms(2) have "d' = d \<or> (\<exists>aid ob. d' = update_attempt (\<lambda>a. att_id a = aid) (\<lambda>a. a\<lparr>att_cancel_requested_at := Some now\<rparr>) d
       \<or> d' = (update_attempt (\<lambda>a. att_id a = aid) (\<lambda>a. a\<lparr>att_cancel_requested_at := Some now\<rparr>) d)\<lparr>outbox := ob\<rparr>)"
    unfolding ClaimCancelling_def Let_def by (auto split: option.splits if_splits prod.splits)
  moreover have "store_inv (update_attempt (\<lambda>a. att_id a = aid) (\<lambda>a. a\<lparr>att_cancel_requested_at := Some now\<rparr>) d)" for aid
    by (rule inv_update_attempt_same [OF assms(1)]) simp
  moreover have "store_inv (d1\<lparr>outbox := ob\<rparr>)" if "store_inv d1" for d1 ob by (rule store_inv_cong [OF that]) simp_all
  ultimately show ?thesis using assms(1) by blast
qed

lemma inv_CreateAttempt:
  assumes inv: "store_inv d" and ok: "CreateAttempt a d = Inr d'"
  shows "store_inv d'"
proof -
  define a0 where "a0 = a\<lparr>att_state := A_WAITING, att_state_version := 0, att_last_sequence := 0, att_dispatched_at := None,
               att_accepted_at := None, att_started_at := None, att_last_heartbeat_at := None,
               att_cancel_requested_at := None, att_finished_at := None, att_exit_code := None,
               att_termination_reason := None, att_result := None, att_max_memory := 0, att_average_memory := 0\<rparr>"
  have "insert_attempt a0 d = Inr d'" using ok by (auto simp: CreateAttempt_def a0_def split: if_splits)
  then have d': "d' = d\<lparr>attempts := attempts d @ [a0]\<rparr>" and new: "att_id a0 \<notin> att_id ` set (attempts d)"
    using insert_attempt_Inr by blast+
  have dead: "\<not> live a0" by (simp add: a0_def live_def)
  have "keys_unique d'" using inv new by (simp add: inv_defs d')
  moreover have "live_runs d'" "one_live_attempt d'" "leases_live d'"
    using inv dead by (auto simp: store_inv_def live_runs_def one_live_attempt_def leases_live_def d')
  moreover have "counts_exact d'" using inv dead by (simp add: inv_defs d' live_on_def)
  ultimately show ?thesis using inv by (simp add: store_inv_def leases_exclusive_def within_capacity_def d')
qed

section \<open>The reachable databases\<close>

text \<open>One step of the run store, as the control plane takes it.\<close>

inductive store_step :: "db \<Rightarrow> db \<Rightarrow> bool" where
  create: "RunStore_Create provider clock now def0 d = Inr (r, d') \<Longrightarrow> store_step d d'"
| claim_waiting: "ClaimWaiting digest token fresh clock now build d = Inr (c, d') \<Longrightarrow> store_step d d'"
| claim_start: "ClaimStart now inp d = Inr (g, d') \<Longrightarrow> store_step d d'"
| apply_event: "ApplyRunEvent sha clock now event d = Inr d' \<Longrightarrow> store_step d d'"
| request_cancellation: "RequestCancellation now ident reason d = Inr (r, d') \<Longrightarrow> store_step d d'"
| retry: "RunStore_Retry now ident reason d = Inr (r, d') \<Longrightarrow> store_step d d'"
| claim_cancelling: "ClaimCancelling now cbuild d = Inr (cc, d') \<Longrightarrow> store_step d d'"
| timed_out: "ReconcileTimedOutDispatches clock now d = Inr d' \<Longrightarrow> store_step d d'"
| stale: "ReconcileStaleCancellations cutoff clock now d = Inr d' \<Longrightarrow> store_step d d'"
| create_attempt: "CreateAttempt a d = Inr d' \<Longrightarrow> store_step d d'"
| append_event: "AppendEvent clock e d = Inr d' \<Longrightarrow> store_step d d'"
| append_log: "AppendLogChunk sha clock l d = Inr d' \<Longrightarrow> store_step d d'"
| published: "d' = MarkDispatchPublished now mid d \<Longrightarrow> store_step d d'"
| retry_dispatch: "d' = RetryDispatch now mid err d \<Longrightarrow> store_step d d'"

inductive_cases store_stepE: "store_step d d'"

inductive store_steps :: "db \<Rightarrow> db \<Rightarrow> bool" where
  start: "store_steps d d"
| step: "store_steps d d' \<Longrightarrow> store_step d' d'' \<Longrightarrow> store_steps d d''"

lemma inv_store_step:
  assumes "store_step d d'" "store_inv d"
  shows "store_inv d'"
  using assms
proof (induction rule: store_step.induct)
  case (append_event clock e d d')
  then show ?case by (auto simp: AppendEvent_def Let_def intro: inv_insert_event split: if_splits)
next
  case (append_log sha clock l d d')
  have "store_inv (d\<lparr>log_chunks := ls\<rparr>)" for ls by (rule store_inv_cong [OF append_log.prems]) simp_all
  then show ?case using append_log.hyps by (auto simp: AppendLogChunk_def Let_def split: if_splits)
next
  case (published d' now mid d)
  have "store_inv (d\<lparr>outbox := ob\<rparr>)" for ob by (rule store_inv_cong [OF published.prems]) simp_all
  then show ?case using published.hyps by (simp add: MarkDispatchPublished_def)
next
  case (retry_dispatch d' now mid err d)
  have "store_inv (d\<lparr>outbox := ob\<rparr>)" for ob by (rule store_inv_cong [OF retry_dispatch.prems]) simp_all
  then show ?case using retry_dispatch.hyps by (simp add: RetryDispatch_def)
qed (erule (1) inv_RunStore_Create [rotated] inv_ClaimWaiting [rotated] inv_ClaimStart [rotated]
      inv_ApplyRunEvent [rotated] inv_RequestCancellation [rotated] inv_RunStore_Retry [rotated]
      inv_ClaimCancelling [rotated] inv_ReconcileTimedOutDispatches [rotated]
      inv_ReconcileStaleCancellations [rotated] inv_CreateAttempt [rotated])+

lemma inv_store_steps: "store_steps d d' \<Longrightarrow> store_inv d \<Longrightarrow> store_inv d'"
  by (induction rule: store_steps.induct) (auto dest: inv_store_step)

end
