(* ===== verification/RunProperties.thy ===== *)
theory RunProperties
  imports RunInvariant
begin

text \<open>
  What the run store guarantees over any sequence of its transactions, what its central
  transactions do one by one, and where they fall short of their documentation.
\<close>

section \<open>A sample database\<close>

definition sample_db :: db where
  "sample_db =
     \<lparr>runs = [new_run ''run'' ''task'' ''task-v1'' ''MANUAL'' 100 [(''HOME'', ''/srv'')] (Some (100 + minute)) ''run'' 100],
      attempts = [],
      tasks = [\<lparr>task_id = ''task'', task_current_version_id = Some ''task-v1'', task_name = ''Task'', task_is_deleted = False\<rparr>],
      task_versions = [\<lparr>tv_id = ''task-v1'', tv_task_id = ''task'', tv_version = 1, tv_runner_pool_id = ''pool'',
          tv_pinned_runner_id = None, tv_placement_selectors = JObject [], tv_command = [''ls'', ''$ENV:HOME''],
          tv_working_directory = [], tv_environment = [], tv_secret_references = SecretMap [(''TOKEN'', ''s1'')],
          tv_duration_seconds = 60, tv_max_output_bytes = 1000, tv_max_attempts = 3, tv_initial_backoff_seconds = 1,
          tv_max_backoff_seconds = 60, tv_backoff_multiplier = 2, tv_retryable_exit_codes = [],
          tv_retryable_reasons = [], tv_ambiguity_policy = ''RETRY''\<rparr>],
      runners = [\<lparr>rr_id = ''runner'', rr_pool_id = Some ''pool'', rr_name = ''Runner'', rr_desired_state = ''ENABLED'',
          rr_observed_state = ''ONLINE'', rr_capacity = 1, rr_active_count = 0, rr_capabilities = JObject [], rr_nats_endpoint = [],
          rr_control_plane_url = [], rr_is_archived = False, rr_is_deleted = False, rr_last_seen_at = Some 100\<rparr>],
      pools = [\<lparr>rp_id = ''pool'', rp_name = ''Pool'', rp_description = [], rp_enabled = True, rp_is_deleted = False\<rparr>],
      sessions = [\<lparr>rs_id = ''session'', rs_runner_id = ''runner'', rs_boot_id = ''boot'', rs_last_heartbeat_at = 100,
          rs_current_capacity = None, rs_disconnected_at = None\<rparr>],
      runner_keys = [], enrollments = [], runner_metrics = [],
      resources = [\<lparr>res_id = ''gpu'', res_kind = ''exclusive'', res_next_fencing_token = 7, res_enabled = True\<rparr>],
      requirements = [(''task-v1'', ''gpu'')], leases = [], outbox = [], inbox = [], run_events = [], log_chunks = [],
      exit_codes = [0, 1, 2, 5, 6], globals = [], schedules = [], schedule_versions = [],
      variable_references = []\<rparr>"

definition sample_fresh :: "nat \<Rightarrow> string" where
  "sample_fresh i = ''lease-'' @ show_nat i"
definition sample_clock :: time where "sample_clock = unix_epoch + 1000"
definition sample_claim where
  "sample_claim = ClaimWaiting (\<lambda>_. ''digest'') (Some ''token'') sample_fresh sample_clock 1000 (Some (\<lambda>_. Some [1])) sample_db"
definition sample_dispatched :: db where
  "sample_dispatched = (case sample_claim of Inl _ \<Rightarrow> sample_db | Inr (_, d) \<Rightarrow> d)"

lemma sample_inv: "store_inv sample_db"
  by (simp add: inv_defs sample_db_def new_run_def live_on_def)

lemma sample_claim_ok: "sample_claim = Inr (Some (the (fst (projr sample_claim))), sample_dispatched)"
proof -
  have "case sample_claim of Inl _ \<Rightarrow> False | Inr (c, _) \<Rightarrow> c \<noteq> None" by code_simp
  then obtain c d where e: "sample_claim = Inr (Some c, d)" by (auto split: sum.splits)
  show ?thesis unfolding sample_dispatched_def e by simp
qed

lemma sample_steps: "store_steps sample_db sample_dispatched"
  using sample_claim_ok unfolding sample_claim_def
  by (blast intro: store_steps.step [OF store_steps.start] store_step.claim_waiting)

section \<open>Invariants of every reachable database\<close>

text \<open>
  C1. Exclusive execution. Whatever the control plane, the runners and the users do, a run has at
  most one attempt in flight, and an attempt in flight belongs to a run that is dispatched,
  running or being cancelled: a run that waits, waits for a retry or has finished has none.
\<close>

theorem at_most_one_live_attempt:
  assumes "store_inv d" "store_steps d d'"
    and "a \<in> set (attempts d')" "live a"
  shows "(\<exists>r \<in> set (runs d'). run_id r = att_run_id a \<and> run_state r \<in> {DISPATCHED, RUNNING, CANCELLING})
         \<and> (\<forall>b \<in> set (attempts d'). live b \<and> att_run_id b = att_run_id a \<longrightarrow> b = a)"
  using inv_store_steps [OF assms(2,1)] assms(3,4)
  by (auto simp: store_inv_def live_runs_def one_live_attempt_def in_flight_def)

theorem at_most_one_live_attempt_witness:
  "\<exists>a \<in> set (attempts sample_dispatched). live a
     \<and> (\<exists>r \<in> set (runs sample_dispatched). run_id r = att_run_id a \<and> run_state r \<in> {DISPATCHED, RUNNING, CANCELLING})"
proof -
  have "list_ex live (attempts sample_dispatched)" by code_simp
  then obtain a where a: "a \<in> set (attempts sample_dispatched)" "live a" by (auto simp: list_ex_iff)
  from at_most_one_live_attempt [OF sample_inv sample_steps a] a show ?thesis by blast
qed





section \<open>Finished runs\<close>

lemma sql_update_keeps: "r \<in> set rs \<Longrightarrow> \<not> P r \<Longrightarrow> r \<in> set (sql_update P f rs)"
  unfolding set_sql_update by (rule image_eqI [of _ _ r]) simp_all

definition final_states :: "run_state set" where
  "final_states = {SUCCEEDED, FAILED, CANCELLED}"

definition keeps :: "run_state set \<Rightarrow> db \<Rightarrow> db \<Rightarrow> bool" where
  "keeps S d d' \<longleftrightarrow> (\<forall>r \<in> set (runs d). run_state r \<in> S \<longrightarrow> r \<in> set (runs d'))"

lemma keeps_same: "runs d' = runs d \<Longrightarrow> keeps S d d'"
  by (simp add: keeps_def)

lemma keeps_trans: "keeps S d d' \<Longrightarrow> keeps S d' d'' \<Longrightarrow> keeps S d d''"
  by (simp add: keeps_def)

lemma keeps_mono: "keeps S d d' \<Longrightarrow> T \<subseteq> S \<Longrightarrow> keeps T d d'"
  by (auto simp: keeps_def)

lemma keeps_append: "runs d' = runs d @ rs \<Longrightarrow> keeps S d d'"
  by (simp add: keeps_def)

lemma keeps_update: "runs d' = sql_update P f (runs d) \<Longrightarrow> (\<And>r. P r \<Longrightarrow> run_state r \<notin> S) \<Longrightarrow> keeps S d d'"
  unfolding keeps_def by (metis sql_update_keeps)

lemma keeps_reconcile_dispatch:
  assumes "reconcile_dispatch now sqlnow c d = Inr d'"
  shows "keeps final_states d d'"
  using assms insert_event_simps(2)
  by (intro keeps_update [of d' "\<lambda>r. run_id r = td_runID c \<and> run_state r \<in> {DISPATCHED, RUNNING}" "td_run now sqlnow c"])
    (auto simp: reconcile_dispatch_def res_bind_Inr Let_def final_states_def)

lemma keeps_reconcile_cancellation:
  assumes "reconcile_cancellation clock sqlnow c d = Inr d'"
  shows "keeps final_states d d'"
  using assms insert_event_simps(2)
  by (intro keeps_update [of d' "\<lambda>r. run_id r = sn_runID c \<and> run_state r = CANCELLING" "sn_run clock sqlnow c"])
    (auto simp: reconcile_cancellation_def res_bind_Inr Let_def final_states_def)

lemma keeps_dispatches: "reconcile_dispatches now sqlnow cs d = Inr d' \<Longrightarrow> keeps final_states d d'"
  by (induction cs arbitrary: d) (auto simp: res_bind_Inr keeps_same intro: keeps_trans keeps_reconcile_dispatch)

lemma keeps_cancellations: "reconcile_cancellations now sqlnow cs d = Inr d' \<Longrightarrow> keeps final_states d d'"
  by (induction cs arbitrary: d) (auto simp: res_bind_Inr keeps_same intro: keeps_trans keeps_reconcile_cancellation)

section \<open>The shape of an applied event\<close>

text \<open>Two rows of the same attempt: everything the control plane fixed at dispatch agrees.\<close>

definition same_attempt :: "attempt_row \<Rightarrow> attempt_row \<Rightarrow> bool" where
  "same_attempt b a \<longleftrightarrow>
     att_id b = att_id a \<and> att_run_id b = att_run_id a \<and> att_number b = att_number a \<and> att_runner_id b = att_runner_id a
     \<and> att_session_id b = att_session_id a \<and> att_lease_token b = att_lease_token a
     \<and> att_fencing_token b = att_fencing_token a \<and> att_digest b = att_digest a
     \<and> att_lease_not_after b = att_lease_not_after a"

text \<open>
  \<open>d'\<close> differs from \<open>d\<close> in the attempt \<open>aid\<close> and in runs that are not final. The function
  on attempts keeps the sequence, or sets it to \<open>n\<close>.
\<close>

definition touches :: "string \<Rightarrow> string \<Rightarrow> int option \<Rightarrow> db \<Rightarrow> db \<Rightarrow> bool" where
  "touches aid rid n d d' \<longleftrightarrow>
     inbox d' = inbox d
     \<and> (\<exists>f. attempts d' = sql_update (\<lambda>a. att_id a = aid) f (attempts d)
            \<and> (\<forall>a. same_attempt (f a) a \<and> att_last_sequence (f a) = (case n of None \<Rightarrow> att_last_sequence a | Some k \<Rightarrow> k)))
     \<and> (\<exists>P g. runs d' = sql_update P g (runs d) \<and> (\<forall>r. P r \<longrightarrow> run_id r = rid \<and> not_final r))"

lemma touchesI:
  assumes "attempts d' = sql_update (\<lambda>a. att_id a = aid) f (attempts d)" "runs d' = sql_update P g (runs d)" "inbox d' = inbox d"
    and "\<And>a. same_attempt (f a) a" "\<And>a. att_last_sequence (f a) = att_last_sequence a"
    and "\<And>r. P r \<Longrightarrow> run_id r = rid \<and> not_final r"
  shows "touches aid rid None d d'"
  unfolding touches_def using assms by auto

lemma inbox_simps [simp]:
  "inbox (update_run P f d) = inbox d" "inbox (update_attempt Q g d) = inbox d"
  "inbox (releaseRunResources now rid aid d) = inbox d" "inbox (insert_log_or_skip l d) = inbox d"
  by (simp_all add: update_run_def update_attempt_def releaseRunResources_def insert_log_or_skip_def Let_def)

lemma touches_completed:
  assumes "applyCompletedRunEvent now event aid rid payload d = Inr d'"
  shows "touches aid (re_RunID event) None d d'"
proof -
  define f :: "attempt_row \<Rightarrow> attempt_row" where "f = (\<lambda>x. x\<lparr>att_state := fst (completed_state (re_EventType event)),
       att_finished_at := Some (coalesce (att_finished_at x) (re_ReportedAt event)),
       att_termination_reason := (if re_Error event = [] then None else Some (re_Error event)),
       att_exit_code := re_ExitCode event, att_result := Some payload,
       att_max_memory := coalesce (map_of (re_Metrics event) ''max_memory_bytes'') (att_max_memory x),
       att_average_memory := coalesce (map_of (re_Metrics event) ''average_memory_bytes'') (att_average_memory x)\<rparr>)"
  define d1 where "d1 = update_attempt (\<lambda>x. att_id x = aid) f d"
  from assms obtain d2 where d2: "d' = releaseRunResources now rid aid d2"
    "(if re_EventType event = ''failed'' \<or> re_EventType event = ''timed_out'' then updateRetryState now event d1
      else Inr (updateTerminalRun now event (snd (completed_state (re_EventType event))) d1)) = Inr d2"
    unfolding applyCompletedRunEvent_def Let_def f_def [symmetric] d1_def [symmetric]
    by (auto simp: res_bind_Inr)
  obtain g where g: "d2 = update_run (\<lambda>r. run_id r = re_RunID event \<and> not_final r) g d1"
  proof (cases "re_EventType event = ''failed'' \<or> re_EventType event = ''timed_out''")
    case True
    then show thesis using d2(2) that by (auto elim: updateRetryState_runs)
  next
    case False
    then show thesis using d2(2) that by (auto simp: updateTerminalRun_def)
  qed
  show ?thesis
    by (rule touchesI [where f = f and g = g and P = "\<lambda>r. run_id r = re_RunID event \<and> not_final r"])
      (simp_all add: d2(1) g d1_def f_def same_attempt_def)
qed

lemma touches_unknown:
  assumes "applyUnknownRunEvent now event aid rid d = Inr d'"
  shows "touches aid (re_RunID event) None d d'"
proof -
  define f :: "attempt_row \<Rightarrow> attempt_row" where "f = (\<lambda>x. x\<lparr>att_state := A_UNKNOWN,
       att_finished_at := Some (coalesce (att_finished_at x) (re_ReportedAt event)),
       att_termination_reason := Some ''runner restart''\<rparr>)"
  define d1 where "d1 = update_attempt (\<lambda>x. att_id x = aid) f d"
  from assms obtain policy d2 where d2: "d' = releaseRunResources now rid aid d2"
    "applyUnknownRunState now event policy d1 = Inr d2"
    unfolding applyUnknownRunEvent_def Let_def f_def [symmetric] d1_def [symmetric]
    by (auto simp: res_bind_Inr split: option.splits)
  obtain g where g: "d2 = update_run (\<lambda>r. run_id r = re_RunID event \<and> not_final r) g d1"
    using d2(2) by (auto elim: applyUnknownRunState_runs)
  show ?thesis
    by (rule touchesI [where f = f and g = g and P = "\<lambda>r. run_id r = re_RunID event \<and> not_final r"])
      (simp_all add: d2(1) g d1_def f_def same_attempt_def)
qed

lemma sql_update_False: "sql_update (\<lambda>_. False) f xs = xs"
  by (simp add: sql_update_def)

lemma touches_transition:
  assumes "applyRunEventTransition now event aid rid payload d = Inr d'"
  shows "touches aid (re_RunID event) None d d'"
proof -
  have a: "touches aid (re_RunID event) None d (update_attempt (\<lambda>x. att_id x = aid) f d)"
    if "\<And>x. same_attempt (f x) x" "\<And>x. att_last_sequence (f x) = att_last_sequence x" for f
    by (rule touchesI [where f = f and P = "\<lambda>_. False" and g = id]) (simp_all add: that sql_update_False)
  have s: "touches aid (re_RunID event) None d (startRunAttempt now event aid d)"
    unfolding startRunAttempt_def
    by (rule touchesI [where f = "\<lambda>a. a\<lparr>att_state := A_RUNNING,
            att_started_at := Some (coalesce (att_started_at a) (re_ReportedAt event))\<rparr>"
          and P = "\<lambda>r. run_id r = re_RunID event \<and> run_state r = DISPATCHED" and g = "set_run_state RUNNING now"])
      (simp_all add: same_attempt_def not_final_def)
  show ?thesis
    using assms s touches_completed touches_unknown unfolding applyRunEventTransition_def
    by (auto split: if_splits intro!: a simp: same_attempt_def)
qed

text \<open>An applied state event: nothing changes, or the attempt and its sequence do.\<close>

lemma touches_state_event:
  assumes "apply_state_event sha now event a d = Inr d'"
  shows "d' = d \<and> re_Sequence event \<le> att_last_sequence a
         \<or> touches (att_id a) (re_RunID event) (Some (re_Sequence event)) d d' \<and> att_last_sequence a < re_Sequence event
           \<and> legalAttemptTransition (att_state a) (re_EventType event)"
proof (cases "re_Sequence event \<le> att_last_sequence a")
  case False
  with assms obtain d1 d2 d3 where legal: "legalAttemptTransition (att_state a) (re_EventType event)"
    and d1: "insert_event \<lparr>ev_event_id = re_EventID event, ev_attempt_id = att_id a,
                 ev_sequence = re_Sequence event, ev_kind = re_EventType event,
                 ev_reported_at = re_ReportedAt event, ev_payload = event_payload event\<rparr> d = Inr d1"
    and d2: "d2 = d1 \<or> (\<exists>l. d2 = insert_log_or_skip l d1)"
    and d3: "applyRunEventTransition now event (att_id a) (att_runner_id a) (event_payload event) d2 = Inr d3"
    and d': "d' = update_attempt (\<lambda>a'. att_id a' = att_id a)
               (\<lambda>a'. a'\<lparr>att_last_sequence := re_Sequence event, att_state_version := att_state_version a' + 1\<rparr>) d3"
    by (auto simp: apply_state_event_def res_bind_Inr Let_def split: if_splits)
  have same: "attempts d2 = attempts d" "runs d2 = runs d" "inbox d2 = inbox d"
    using d2 insert_event_simps [OF d1] insert_event_Inr [OF d1] by auto
  obtain f P g where f: "attempts d3 = sql_update (\<lambda>x. att_id x = att_id a) f (attempts d)" "\<And>x. same_attempt (f x) x"
    and r: "runs d3 = sql_update P g (runs d)" "\<And>r. P r \<Longrightarrow> run_id r = re_RunID event \<and> not_final r" and i: "inbox d3 = inbox d"
    using touches_transition [OF d3] unfolding touches_def same by auto
  define h where "h = (\<lambda>x. (f x)\<lparr>att_last_sequence := re_Sequence event, att_state_version := att_state_version (f x) + 1\<rparr>)"
  have "attempts d' = sql_update (\<lambda>x. att_id x = att_id a) h (attempts d)"
    using f(2) unfolding d' by (auto simp: f(1) sql_update_def h_def same_attempt_def)
  moreover have "same_attempt (h x) x \<and> att_last_sequence (h x) = re_Sequence event" for x
    using f(2) [of x] by (simp add: h_def same_attempt_def)
  moreover have "runs d' = sql_update P g (runs d)" "inbox d' = inbox d" using r(1) i by (simp_all add: d')
  ultimately have "touches (att_id a) (re_RunID event) (Some (re_Sequence event)) d d'"
    unfolding touches_def using r(2) by auto
  then show ?thesis using False legal by simp
qed (use assms in \<open>simp add: apply_state_event_def\<close>)

text \<open>The outcome of an event: refused by identity, known already, a log chunk, or a state event.\<close>

definition event_time :: "time \<Rightarrow> RunEventInput \<Rightarrow> RunEventInput" where
  "event_time clock event = (if re_ReportedAt event = 0 then event\<lparr>re_ReportedAt := clock\<rparr> else event)"

lemma event_time_simps [simp]:
  "re_EventID (event_time clock e) = re_EventID e" "re_RunID (event_time clock e) = re_RunID e"
  "re_Attempt (event_time clock e) = re_Attempt e" "re_RunnerID (event_time clock e) = re_RunnerID e"
  "re_LeaseToken (event_time clock e) = re_LeaseToken e" "re_Sequence (event_time clock e) = re_Sequence e"
  "re_EventType (event_time clock e) = re_EventType e" "re_ExitCode (event_time clock e) = re_ExitCode e"
  "re_RunnerSessionID (event_time clock e) = re_RunnerSessionID e"
  "re_FencingToken (event_time clock e) = re_FencingToken e"
  by (simp_all add: event_time_def)

lemma ApplyRunEvent_Inr:
  assumes "ApplyRunEvent sha clock now event d = Inr d'"
  obtains a row where "event_attempt (event_time clock event) d = Some a"
    and "re_RunnerSessionID event = [] \<or> re_RunnerSessionID event = att_session_id a"
    and "re_FencingToken event = 0 \<or> re_FencingToken event = att_fencing_token a"
    and "in_event_id row = re_EventID event"
    and "d' = d \<and> (\<exists>i \<in> set (inbox d). in_event_id i = re_EventID event)
         \<or> re_EventType event = ''log_chunk'' \<and> applyLogChunkEvent sha (event_time clock event) (att_id a) (d\<lparr>inbox := inbox d @ [row]\<rparr>) = Inr d'
         \<or> re_EventType event \<noteq> ''log_chunk'' \<and> apply_state_event sha now (event_time clock event) a (d\<lparr>inbox := inbox d @ [row]\<rparr>) = Inr d'"
proof -
  from assms obtain a where a: "event_attempt (event_time clock event) d = Some a"
    unfolding ApplyRunEvent_def Let_def event_time_def [symmetric] by (auto split: if_splits option.splits)
  show thesis
    by (rule that [OF a, of "\<lparr>in_event_id = re_EventID event, in_attempt_id = att_id a,
           in_event_type = re_EventType event, in_subject = re_Subject (event_time clock event),
           in_envelope = re_Envelope (event_time clock event)\<rparr>"])
      (use assms a in \<open>auto simp: ApplyRunEvent_def Let_def event_time_def [symmetric] list_ex_iff split: if_splits\<close>)
qed

lemma applyLogChunk_simps:
  assumes "applyLogChunkEvent sha e aid d = Inr d'"
  shows "attempts d' = attempts d" "runs d' = runs d" "inbox d' = inbox d"
  using assms by (auto simp: applyLogChunkEvent_def split: if_splits)

lemma ApplyRunEvent_touches:
  assumes "ApplyRunEvent sha clock now event d = Inr d'"
  obtains a where "event_attempt (event_time clock event) d = Some a" "\<exists>i \<in> set (inbox d'). in_event_id i = re_EventID event"
    and "attempts d' = attempts d \<and> runs d' = runs d
         \<or> touches (att_id a) (re_RunID event) (Some (re_Sequence event)) (d\<lparr>inbox := inbox d'\<rparr>) d'
           \<and> att_last_sequence a < re_Sequence event"
  using assms
proof (rule ApplyRunEvent_Inr)
  fix a row
  let ?e = "event_time clock event" and ?d = "d\<lparr>inbox := inbox d @ [row]\<rparr>"
  assume a: "event_attempt ?e d = Some a" and row: "in_event_id row = re_EventID event"
    and "d' = d \<and> (\<exists>i \<in> set (inbox d). in_event_id i = re_EventID event)
      \<or> re_EventType event = ''log_chunk'' \<and> applyLogChunkEvent sha ?e (att_id a) ?d = Inr d'
      \<or> re_EventType event \<noteq> ''log_chunk'' \<and> apply_state_event sha now ?e a ?d = Inr d'"
  then consider "d' = d" "\<exists>i \<in> set (inbox d). in_event_id i = re_EventID event"
    | "applyLogChunkEvent sha ?e (att_id a) ?d = Inr d'" | "apply_state_event sha now ?e a ?d = Inr d'" by blast
  then show thesis
  proof cases
    case 1
    then show thesis using that [OF a] by simp
  next
    case 2
    show thesis by (rule that [OF a]) (simp_all add: applyLogChunk_simps [OF 2] row)
  next
    case 3
    from touches_state_event [OF 3] show thesis
    proof
      assume "d' = ?d \<and> re_Sequence ?e \<le> att_last_sequence a"
      then show thesis using that [OF a] row by simp
    next
      assume t: "touches (att_id a) (re_RunID ?e) (Some (re_Sequence ?e)) ?d d' \<and> att_last_sequence a < re_Sequence ?e
        \<and> legalAttemptTransition (att_state a) (re_EventType ?e)"
      then have "inbox d' = inbox d @ [row]" by (simp add: touches_def)
      then show thesis using that [OF a] row t by simp
    qed
  qed
qed

section \<open>Finished runs stay finished\<close>

lemma keeps_updated_run:
  assumes "updated_run ident P f d = Inr (res, d')" "\<And>r. P r \<Longrightarrow> run_state r \<notin> S"
  shows "keeps S d d'"
proof (cases "runs d' = runs d")
  case False
  then have "runs d' = sql_update (\<lambda>r. run_id r = ident \<and> P r) f (runs d)"
    using assms(1) by (auto simp: updated_run_def Let_def update_run_def split: if_splits)
  then show ?thesis by (rule keeps_update) (use assms(2) in blast)
qed (simp add: keeps_same)

lemma keeps_ClaimWaiting:
  assumes "ClaimWaiting digest token fresh clock now build d = Inr (res, d')"
  shows "keeps final_states d d'"
proof (cases res)
  case None
  then have "d' = d"
    using assms unfolding ClaimWaiting_def by (auto simp: res_bind_Inr split: option.splits if_splits)
  then show ?thesis by (simp add: keeps_same)
next
  case (Some c)
  from assms [unfolded Some] obtain envelope where "dispatch_candidate now fresh envelope c d = Inr d'"
    by (rule ClaimWaiting_Inr)
  then obtain d2 where d2: "acquire_leases now fresh 0 c (dc_Resources c)
      (d\<lparr>attempts := attempts d @ [new_attempt c A_DISPATCHED (Some now)]\<rparr>) = Inr d2"
    and "runs d' = sql_update (\<lambda>r. run_id r = dc_RunID c \<and> run_state r \<in> {WAITING, RETRY_WAIT})
                            (set_run_state DISPATCHED now) (runs d2)"
    by (auto elim!: dispatch_candidate_Inr)
  moreover have "runs d2 = runs d" using acquire_leases_props [OF d2] by simp
  ultimately have "runs d' = sql_update (\<lambda>r. run_id r = dc_RunID c \<and> run_state r \<in> {WAITING, RETRY_WAIT})
                            (set_run_state DISPATCHED now) (runs d)" by simp
  then show ?thesis by (rule keeps_update) (auto simp: final_states_def)
qed

lemma keeps_ClaimStart:
  assumes "ClaimStart now inp d = Inr (res, d')"
  shows "keeps final_states d d'"
proof (cases "runs d' = runs d")
  case False
  then have "runs d' = sql_update (\<lambda>r. run_id r = sc_RunID inp \<and> run_state r = DISPATCHED) (set_run_state RUNNING now) (runs d)"
    using assms unfolding ClaimStart_def by (auto simp: update_run_def update_attempt_def split: if_splits option.splits prod.splits)
  then show ?thesis by (rule keeps_update) (auto simp: final_states_def)
qed (simp add: keeps_same)

lemma keeps_ApplyRunEvent:
  assumes "ApplyRunEvent sha clock now event d = Inr d'"
  shows "keeps final_states d d'"
  using assms
proof (rule ApplyRunEvent_touches)
  fix a
  assume "attempts d' = attempts d \<and> runs d' = runs d
    \<or> touches (att_id a) (re_RunID event) (Some (re_Sequence event)) (d\<lparr>inbox := inbox d'\<rparr>) d' \<and> att_last_sequence a < re_Sequence event"
  then show ?thesis
    by (auto simp: touches_def not_final_def final_states_def intro: keeps_same keeps_update)
qed

lemma keeps_ClaimCancelling:
  assumes "ClaimCancelling now build d = Inr (res, d')"
  shows "keeps S d d'"
  using assms unfolding ClaimCancelling_def Let_def
  by (intro keeps_same) (auto split: option.splits prod.splits if_splits)

lemma keeps_RunStore_Create:
  assumes "RunStore_Create provider clock now def0 d = Inr (res, d')"
  shows "keeps S d d'"
  using assms unfolding RunStore_Create_def Let_def
  by (auto simp: res_bind_Inr insert_run_def keeps_append split: option.splits if_splits)

lemma runs_unchanged:
  "CreateAttempt a d = Inr d' \<Longrightarrow> runs d' = runs d" "AppendEvent clock e d = Inr d' \<Longrightarrow> runs d' = runs d"
  "AppendLogChunk sha clock l d = Inr d' \<Longrightarrow> runs d' = runs d" "runs (MarkDispatchPublished now mid d) = runs d"
  "runs (RetryDispatch now mid err d) = runs d"
  by (auto simp: CreateAttempt_def AppendEvent_def AppendLogChunk_def MarkDispatchPublished_def RetryDispatch_def Let_def
      insert_attempt_def insert_event_def split: if_splits)

text \<open>Only a retry by a user touches the row of a run that has finished.\<close>

lemma store_step_keeps:
  assumes "store_step d d'"
  shows "keeps final_states d d' \<or> (\<exists>now ident reason res. RunStore_Retry now ident reason d = Inr (res, d'))"
  using assms
proof cases
  case (request_cancellation now ident reason r)
  then show ?thesis
    by (auto simp: RequestCancellation_def Let_def final_states_def elim!: keeps_updated_run split: if_splits)
qed (auto simp: runs_unchanged ReconcileTimedOutDispatches_def ReconcileStaleCancellations_def
    dest: keeps_RunStore_Create keeps_ClaimWaiting keeps_ClaimStart keeps_ApplyRunEvent keeps_ClaimCancelling
      keeps_dispatches keeps_cancellations intro: keeps_same split: if_splits)

lemma store_steps_keep:
  assumes "store_steps d d'"
  shows "keeps {SUCCEEDED, CANCELLED} d d'"
  using assms
proof induction
  case (step d d' d'')
  have "keeps {SUCCEEDED, CANCELLED} d' d''" if "RunStore_Retry now ident reason d' = Inr (res, d'')" for now ident reason res
    by (rule keeps_updated_run [OF that [unfolded RunStore_Retry_def]]) auto
  moreover have "keeps final_states d' d'' \<Longrightarrow> keeps {SUCCEEDED, CANCELLED} d' d''"
    by (erule keeps_mono) (simp add: final_states_def)
  ultimately show ?case using step store_step_keeps [OF step(2)] keeps_trans by blast
qed (simp add: keeps_same)


definition sample_cancelled :: db where
  "sample_cancelled = (case RequestCancellation 200 ''run'' ''no longer needed'' sample_db of Inl _ \<Rightarrow> sample_db | Inr (_, d) \<Rightarrow> d)"


section \<open>Redelivered and late events\<close>

lemma find_row_sql_update:
  assumes "\<And>x. P (f x) = P x"
  shows "find_row P (sql_update Q f xs) = map_option (\<lambda>x. if Q x then f x else x) (find_row P xs)"
  using assms by (induction xs) (auto simp: find_row_def sql_update_def)

lemma event_attempt_touched:
  assumes "event_attempt e d = Some a"
    and "attempts d' = attempts d \<or> touches aid rid n (d\<lparr>inbox := ib\<rparr>) d'"
  obtains b where "event_attempt e d' = Some b" "same_attempt b a"
proof -
  consider "attempts d' = attempts d"
    | f where "attempts d' = sql_update (\<lambda>a. att_id a = aid) f (attempts d)" "\<And>x. same_attempt (f x) x"
    using assms(2) unfolding touches_def by auto
  then show thesis
  proof cases
    case 1
    show thesis by (rule that [of a]) (use assms(1) 1 in \<open>simp_all add: event_attempt_def same_attempt_def\<close>)
  next
    case (2 f)
    let ?P = "\<lambda>a. att_run_id a = re_RunID e \<and> att_number a = re_Attempt e
                  \<and> att_runner_id a = re_RunnerID e \<and> att_lease_token a = re_LeaseToken e"
    have "?P (f x) = ?P x" for x using 2(2) [of x] by (simp add: same_attempt_def)
    from find_row_sql_update [of ?P f "\<lambda>a. att_id a = aid" "attempts d", OF this]
    have "event_attempt e d' = Some (if att_id a = aid then f a else a)"
      using assms(1) unfolding event_attempt_def 2(1) by simp
    then show thesis by (rule that) (use 2(2) [of a] in \<open>auto simp: same_attempt_def\<close>)
  qed
qed

lemma ApplyRunEvent_known:
  assumes "event_attempt (event_time clock event) d = Some a" "\<exists>i \<in> set (inbox d). in_event_id i = re_EventID event"
    and "re_RunnerSessionID event = [] \<or> re_RunnerSessionID event = att_session_id a"
    and "re_FencingToken event = 0 \<or> re_FencingToken event = att_fencing_token a"
    and "re_EventID event \<noteq> []" "re_RunID event \<noteq> []" "re_Attempt event > 0" "re_Sequence event > 0"
    and "re_EventType event \<noteq> []" "re_Envelope event \<noteq> []"
  shows "ApplyRunEvent sha clock now event d = Inr d"
  using assms unfolding ApplyRunEvent_def Let_def event_time_def [symmetric] by (auto simp: list_ex_iff)

lemma ApplyRunEvent_complete:
  assumes "ApplyRunEvent sha clock now event d = Inr d'"
  shows "re_EventID event \<noteq> []" "re_RunID event \<noteq> []" "re_Attempt event > 0" "re_Sequence event > 0"
    "re_EventType event \<noteq> []" "re_Envelope event \<noteq> []"
  using assms unfolding ApplyRunEvent_def by (auto split: if_splits)

lemma event_attempt_clock: "event_attempt (event_time clock event) d = event_attempt event d"
  by (simp add: event_attempt_def)

text \<open>
  C13. Redelivery. The broker delivers at least once; applying the same event again, at any later
  time, succeeds and changes nothing.
\<close>

theorem ApplyRunEvent_idempotent:
  assumes "ApplyRunEvent sha clock now event d = Inr d'"
  shows "ApplyRunEvent sha clock' now' event d' = Inr d'"
  using assms
proof (rule ApplyRunEvent_touches)
  fix a
  assume a: "event_attempt (event_time clock event) d = Some a"
    and known: "\<exists>i \<in> set (inbox d'). in_event_id i = re_EventID event"
    and t: "attempts d' = attempts d \<and> runs d' = runs d
      \<or> touches (att_id a) (re_RunID event) (Some (re_Sequence event)) (d\<lparr>inbox := inbox d'\<rparr>) d' \<and> att_last_sequence a < re_Sequence event"
  obtain b where b: "event_attempt (event_time clock' event) d' = Some b" "same_attempt b a"
    using event_attempt_touched [OF a] t unfolding event_attempt_clock by blast
  have "(re_RunnerSessionID event = [] \<or> re_RunnerSessionID event = att_session_id a)
        \<and> (re_FencingToken event = 0 \<or> re_FencingToken event = att_fencing_token a)"
    using assms by (rule ApplyRunEvent_Inr) (use a in auto)
  then show ?thesis
    using b(2) by (intro ApplyRunEvent_known [OF b(1) known] ApplyRunEvent_complete [OF assms]) (auto simp: same_attempt_def)
qed

definition sample_event :: "string \<Rightarrow> int \<Rightarrow> RunEventInput" where
  "sample_event kind n =
     \<lparr>re_EventID = ''event-'' @ Itoa n, re_RunID = ''run'', re_RunnerID = ''runner'', re_RunnerSessionID = ''session'',
      re_LeaseToken = ''token'', re_EventType = kind, re_EventChannel = [], re_Subject = ''glyphflow.events.runner'',
      re_Error = [], re_Result = [], re_Metrics = [], re_ExitCode = None, re_Attempt = 1, re_Sequence = n,
      re_FencingToken = 0, re_ReportedAt = 1100, re_Envelope = [1]\<rparr>"

definition apply_sample :: "string \<Rightarrow> int \<Rightarrow> db \<Rightarrow> db" where
  "apply_sample kind n d =
     (case ApplyRunEvent (\<lambda>_. ''sum'') 1100 1100 (sample_event kind n) d of Inl _ \<Rightarrow> d | Inr d' \<Rightarrow> d')"

definition sample_accepted :: db where
  "sample_accepted = apply_sample ''accepted'' 1 sample_dispatched"

lemma Inr_case: "(case m of Inl _ \<Rightarrow> False | Inr _ \<Rightarrow> True) \<Longrightarrow> m = Inr (case m of Inl _ \<Rightarrow> x | Inr y \<Rightarrow> y)"
  by (simp split: sum.splits)

lemma sample_accepted_ok:
  "ApplyRunEvent (\<lambda>_. ''sum'') 1100 1100 (sample_event ''accepted'' 1) sample_dispatched = Inr sample_accepted"
  unfolding sample_accepted_def apply_sample_def by (rule Inr_case) code_simp

theorem ApplyRunEvent_idempotent_witness:
  "ApplyRunEvent (\<lambda>_. ''sum'') 9000 9000 (sample_event ''accepted'' 1) sample_accepted = Inr sample_accepted
   \<and> list_all (\<lambda>a. att_state a = A_ACCEPTED) (attempts sample_accepted)"
proof
  show "ApplyRunEvent (\<lambda>_. ''sum'') 9000 9000 (sample_event ''accepted'' 1) sample_accepted = Inr sample_accepted"
    by (rule ApplyRunEvent_idempotent [OF sample_accepted_ok])
  show "list_all (\<lambda>a. att_state a = A_ACCEPTED) (attempts sample_accepted)" by code_simp
qed

lemma event_order_parts:
  assumes "store_inv d" "ApplyRunEvent sha clock now event d = Inr d'"
  shows "a \<in> set (attempts d) \<Longrightarrow> \<exists>b \<in> set (attempts d'). same_attempt b a \<and> att_last_sequence a \<le> att_last_sequence b
           \<and> (att_last_sequence b = att_last_sequence a \<or> att_last_sequence b = re_Sequence event)"
    and "event_attempt event d = Some x \<Longrightarrow> re_Sequence event \<le> att_last_sequence x
           \<Longrightarrow> attempts d' = attempts d \<and> runs d' = runs d"
proof -
  from assms(2) obtain x' where x': "event_attempt (event_time clock event) d = Some x'"
    and t: "attempts d' = attempts d \<and> runs d' = runs d
      \<or> touches (att_id x') (re_RunID event) (Some (re_Sequence event)) (d\<lparr>inbox := inbox d'\<rparr>) d' \<and> att_last_sequence x' < re_Sequence event"
    by (rule ApplyRunEvent_touches)
  show "event_attempt event d = Some x \<Longrightarrow> re_Sequence event \<le> att_last_sequence x
           \<Longrightarrow> attempts d' = attempts d \<and> runs d' = runs d"
    using x' t unfolding event_attempt_clock by auto
  show "\<exists>b \<in> set (attempts d'). same_attempt b a \<and> att_last_sequence a \<le> att_last_sequence b
           \<and> (att_last_sequence b = att_last_sequence a \<or> att_last_sequence b = re_Sequence event)"
    if a: "a \<in> set (attempts d)"
  proof -
    from t consider "attempts d' = attempts d"
      | f where "attempts d' = sql_update (\<lambda>y. att_id y = att_id x') f (attempts d)"
          "\<And>y. same_attempt (f y) y" "\<And>y. att_last_sequence (f y) = re_Sequence event" "att_last_sequence x' < re_Sequence event"
      unfolding touches_def by auto
    then show "\<exists>b \<in> set (attempts d'). same_attempt b a \<and> att_last_sequence a \<le> att_last_sequence b
           \<and> (att_last_sequence b = att_last_sequence a \<or> att_last_sequence b = re_Sequence event)"
    proof cases
      case 1
      then show ?thesis using a by (auto simp: same_attempt_def intro: bexI [of _ a])
    next
      case (2 f)
      have "a = x'" if "att_id a = att_id x'"
        using inv_unique_attempt [OF assms(1) event_attempt_Some(1) [OF x'] a that] .
      moreover have "(if att_id a = att_id x' then f a else a) \<in> set (attempts d')"
        unfolding 2(1) set_sql_update by (rule imageI [OF a])
      ultimately show ?thesis
        using 2(2-4) by (auto simp: same_attempt_def intro!: bexI [of _ "if att_id a = att_id x' then f a else a"])
    qed
  qed
qed

text \<open>
  C14. Order of events. Applying an event never lowers the sequence number of any attempt, it
  keeps whatever the dispatch fixed (runner, session, lease, fencing token, digest), and an
  event whose sequence number is not above the last applied one changes neither attempts nor runs.
\<close>

theorem event_order:
  assumes "store_inv d" "ApplyRunEvent sha clock now event d = Inr d'"
  shows "(\<forall>a \<in> set (attempts d). \<exists>b \<in> set (attempts d'). same_attempt b a \<and> att_last_sequence a \<le> att_last_sequence b
            \<and> (att_last_sequence b = att_last_sequence a \<or> att_last_sequence b = re_Sequence event))
         \<and> (\<forall>x. event_attempt event d = Some x \<and> re_Sequence event \<le> att_last_sequence x
              \<longrightarrow> attempts d' = attempts d \<and> runs d' = runs d)"
  using event_order_parts [OF assms] by blast

lemma sample_dispatched_inv: "store_inv sample_dispatched"
  by (rule inv_store_steps [OF sample_steps sample_inv])

theorem event_order_witness:
  "\<exists>a \<in> set (attempts sample_dispatched). \<exists>b \<in> set (attempts sample_accepted).
     same_attempt b a \<and> att_last_sequence a \<le> att_last_sequence b"
proof -
  have "attempts sample_dispatched \<noteq> []" by code_simp
  then obtain a where "a \<in> set (attempts sample_dispatched)" using list.set_intros(1) neq_Nil_conv by metis
  then show ?thesis using event_order [OF sample_dispatched_inv sample_accepted_ok] by blast
qed

section \<open>Start claims\<close>

text \<open>The deadline of a start and what the worker presents.\<close>

definition claim_matches :: "StartClaimInput \<Rightarrow> run_row \<Rightarrow> attempt_row \<Rightarrow> bool" where
  "claim_matches inp r a \<longleftrightarrow>
     run_id r = sc_RunID inp \<and> att_run_id a = run_id r \<and> att_number a = sc_Attempt inp
     \<and> att_runner_id a = sc_RunnerID inp \<and> att_session_id a = sc_RunnerSessionID inp
     \<and> att_lease_token a = sc_LeaseToken inp \<and> att_fencing_token a = sc_FencingToken inp \<and> att_digest a = sc_Digest inp"

lemma ClaimStart_granted:
  assumes "ClaimStart now inp d = Inr ((t, True), d')"
  obtains r a where "(r, a) \<in> set (run_attempts d)" "claim_matches inp r a"
    and "t = now"
    and "run_state r = RUNNING \<and> att_state a = A_RUNNING \<and> d' = d
       \<or> run_state r = DISPATCHED \<and> att_state a \<in> {A_DISPATCHED, A_ACCEPTED} \<and> now < att_lease_not_after a
         \<and> (\<exists>deadline. start_deadline r a = Some deadline \<and> now < deadline)
         \<and> d' = update_run (\<lambda>r'. run_id r' = sc_RunID inp \<and> run_state r' = DISPATCHED) (set_run_state RUNNING now)
                  (update_attempt (\<lambda>a'. att_id a' = att_id a)
                     (\<lambda>a'. a'\<lparr>att_state := A_RUNNING, att_accepted_at := Some (coalesce (att_accepted_at a') now),
                            att_started_at := Some (coalesce (att_started_at a') now),
                            att_last_sequence := max (att_last_sequence a') 1,
                            att_state_version := att_state_version a' + 1\<rparr>) d)"
proof -
  from assms obtain r a where f: "find_row (\<lambda>(r, a). run_id r = sc_RunID inp \<and> att_number a = sc_Attempt inp)
      (run_attempts d) = Some (r, a)"
    unfolding ClaimStart_def by (auto split: if_splits option.splits prod.splits)
  from find_row_Some [OF f] have "(r, a) \<in> set (run_attempts d)" "run_id r = sc_RunID inp" "att_number a = sc_Attempt inp"
    by auto
  then show thesis
    by (rule_tac that [of r a])
      (use assms f in \<open>auto simp: ClaimStart_def claim_matches_def run_attempts_set split: if_splits option.splits\<close>)
qed

lemma run_attempts_map:
  assumes "runs d' = map F (runs d)" "attempts d' = map G (attempts d)"
    and "\<And>r. run_id (F r) = run_id r" "\<And>a. att_run_id (G a) = att_run_id a"
  shows "run_attempts d' = map (\<lambda>(r, a). (F r, G a)) (run_attempts d)"
proof -
  have "concat (map (\<lambda>a. if att_run_id a = run_id (F r) then [(F r, a)] else []) (map G as))
        = map (\<lambda>(r, a). (F r, G a)) (concat (map (\<lambda>a. if att_run_id a = run_id r then [(r, a)] else []) as))" for r as
    by (induction as) (simp_all add: assms(3,4))
  then show ?thesis
    unfolding run_attempts_def assms(1,2) by (simp add: map_concat o_def)
qed

lemma find_row_map: "(\<And>x. P (h x) = P x) \<Longrightarrow> find_row P (map h xs) = map_option h (find_row P xs)"
  by (induction xs) (simp_all add: find_row_def)

lemma ClaimStart_again:
  assumes "ClaimStart now inp d = Inr ((t, True), d')"
  shows "ClaimStart now' inp d' = Inr ((now', True), d')"
proof -
  have complete: "\<not> (sc_RunID inp = [] \<or> sc_RunnerID inp = [] \<or> sc_RunnerSessionID inp = [] \<or> sc_LeaseToken inp = []
         \<or> sc_Digest inp = [] \<or> sc_Attempt inp \<le> 0 \<or> sc_FencingToken inp \<le> 0)"
    using assms unfolding ClaimStart_def by (auto split: if_splits)
  let ?P = "\<lambda>(r, a). run_id r = sc_RunID inp \<and> att_number a = sc_Attempt inp"
  from assms obtain r a deadline where f: "find_row ?P (run_attempts d) = Some (r, a)" and sd: "start_deadline r a = Some deadline"
    unfolding ClaimStart_def by (auto split: if_splits option.splits prod.splits)
  define F where "F = (\<lambda>r'. if run_id r' = sc_RunID inp \<and> run_state r' = DISPATCHED then set_run_state RUNNING now r' else r')"
  define u :: "attempt_row \<Rightarrow> attempt_row" where
    "u = (\<lambda>a'. a'\<lparr>att_state := A_RUNNING, att_accepted_at := Some (coalesce (att_accepted_at a') now),
             att_started_at := Some (coalesce (att_started_at a') now), att_last_sequence := max (att_last_sequence a') 1,
             att_state_version := att_state_version a' + 1\<rparr>)"
  define G where "G = (\<lambda>a'. if att_id a' = att_id a then u a' else a')"
  show ?thesis
  proof (cases "att_state a = A_RUNNING \<and> run_state r = RUNNING")
    case True
    then show ?thesis using assms f sd complete unfolding ClaimStart_def by (auto split: if_splits)
  next
    case False
    have d': "d' = update_run (\<lambda>r'. run_id r' = sc_RunID inp \<and> run_state r' = DISPATCHED) (set_run_state RUNNING now)
                     (update_attempt (\<lambda>a'. att_id a' = att_id a) u d)" and state: "run_state r = DISPATCHED"
      and match: "att_runner_id a = sc_RunnerID inp" "att_session_id a = sc_RunnerSessionID inp"
        "att_lease_token a = sc_LeaseToken inp" "att_fencing_token a = sc_FencingToken inp" "att_digest a = sc_Digest inp"
      using assms f sd complete False unfolding ClaimStart_def u_def by (auto split: if_splits)
    have "run_attempts d' = map (\<lambda>(r, a). (F r, G a)) (run_attempts d)"
      by (rule run_attempts_map) (simp_all add: d' update_run_def update_attempt_def sql_update_def F_def G_def u_def)
    moreover have "?P (case p of (r, a) \<Rightarrow> (F r, G a)) = ?P p" for p
      by (cases p) (simp add: F_def G_def u_def)
    ultimately have f': "find_row ?P (run_attempts d') = Some (F r, G a)"
      using f find_row_map [of ?P "\<lambda>(r, a). (F r, G a)" "run_attempts d"] by simp
    have "start_deadline (F r) (G a) = Some deadline"
      using sd by (simp add: start_deadline_def F_def G_def u_def set_run_state_def split: option.splits)
    moreover have "run_state (F r) = RUNNING" "att_state (G a) = A_RUNNING"
      using state find_row_Some [OF f] by (auto simp: F_def G_def u_def)
    ultimately show ?thesis
      using complete f' match unfolding ClaimStart_def by (simp add: G_def u_def)
  qed
qed

text \<open>
  A start is granted to the holder of the lease only. The granted claim names an attempt of
  the run with the runner, session, lease token, fencing token and digest of its dispatch;
  unless it was started already, the run is dispatched and neither the start deadline nor the
  lease has passed. A worker that repeats the claim, having lost the answer, is granted again
  and nothing changes.
\<close>

theorem ClaimStart_sound:
  assumes "ClaimStart now inp d = Inr ((t, True), d')"
  shows "(\<exists>r a. r \<in> set (runs d) \<and> a \<in> set (attempts d) \<and> claim_matches inp r a
            \<and> (run_state r = RUNNING \<and> att_state a = A_RUNNING
               \<or> run_state r = DISPATCHED \<and> att_state a \<in> {A_DISPATCHED, A_ACCEPTED} \<and> now < att_lease_not_after a
                 \<and> (\<exists>deadline. start_deadline r a = Some deadline \<and> now < deadline)))
         \<and> ClaimStart now' inp d' = Inr ((now', True), d')"
proof
  show "ClaimStart now' inp d' = Inr ((now', True), d')" by (rule ClaimStart_again [OF assms])
qed (use assms in \<open>rule ClaimStart_granted, auto simp: run_attempts_set\<close>)

definition sample_start :: StartClaimInput where
  "sample_start = \<lparr>sc_RunID = ''run'', sc_RunnerID = ''runner'', sc_RunnerSessionID = ''session'',
     sc_LeaseToken = ''token'', sc_Digest = ''digest'', sc_Attempt = 1, sc_FencingToken = 1000\<rparr>"

definition sample_running :: db where
  "sample_running = (case ClaimStart 2000 sample_start sample_dispatched of Inl _ \<Rightarrow> sample_db | Inr (_, d) \<Rightarrow> d)"

lemma sample_start_ok: "ClaimStart 2000 sample_start sample_dispatched = Inr ((2000, True), sample_running)"
proof -
  have "case ClaimStart 2000 sample_start sample_dispatched of Inl _ \<Rightarrow> False | Inr (g, _) \<Rightarrow> g = (2000, True)" by code_simp
  then show ?thesis unfolding sample_running_def by (auto split: sum.splits)
qed

theorem ClaimStart_sound_witness:
  "ClaimStart 9000 sample_start sample_running = Inr ((9000, True), sample_running)
   \<and> (\<exists>r a. r \<in> set (runs sample_dispatched) \<and> a \<in> set (attempts sample_dispatched) \<and> claim_matches sample_start r a)"
  using ClaimStart_sound [OF sample_start_ok, of 9000] by blast

end
