(* ===== verification/DispatchProperties.thy ===== *)
theory DispatchProperties
  imports RunProperties
begin

text \<open>
  The dispatch transaction and what follows it: which run and runner it picks, fencing tokens of
  resource leases, authorisation of secret requests, automatic retries and their delays, and the
  places where reconciliation and retries disagree with the documentation.
\<close>

section \<open>Fencing tokens\<close>

text \<open>What identifies a lease: later updates change its state only.\<close>

definition lease_key :: "lease_row \<Rightarrow> string \<times> string \<times> string \<times> nat" where
  "lease_key l = (lease_id l, lease_resource_id l, lease_attempt_id l, lease_fencing_token l)"

definition fencing_inv :: "db \<Rightarrow> bool" where
  "fencing_inv d \<longleftrightarrow>
     distinct (map res_id (resources d))
     \<and> (\<forall>l \<in> set (leases d). \<forall>res \<in> set (resources d).
          res_id res = lease_resource_id l \<longrightarrow> lease_fencing_token l \<le> res_next_fencing_token res)"

text \<open>\<open>d'\<close> has the leases of \<open>d\<close> and new ones of the attempt, each with a higher token than any of its resource in \<open>d\<close>.\<close>

definition fresher :: "string \<Rightarrow> db \<Rightarrow> db \<Rightarrow> bool" where
  "fresher aid d d' \<longleftrightarrow>
     (\<forall>l \<in> set (leases d). \<exists>l' \<in> set (leases d'). lease_key l' = lease_key l)
     \<and> (\<forall>l' \<in> set (leases d'). (\<exists>l \<in> set (leases d). lease_key l = lease_key l')
          \<or> lease_attempt_id l' = aid
            \<and> (\<forall>l \<in> set (leases d). lease_resource_id l = lease_resource_id l' \<longrightarrow> lease_fencing_token l < lease_fencing_token l'))"

lemma map_eq_ex:
  assumes "map f xs = map f ys" "x \<in> set xs"
  shows "\<exists>y \<in> set ys. f y = f x"
proof -
  have "f x \<in> f ` set ys" using arg_cong [OF assms(1), of set] assms(2) by (metis imageI list.set_map)
  then show ?thesis by force
qed

lemma fresher_refl: "map lease_key (leases d') = map lease_key (leases d) \<Longrightarrow> fresher aid d d'"
  unfolding fresher_def using map_eq_ex [of lease_key "leases d'" "leases d"] map_eq_ex [of lease_key "leases d" "leases d'"]
  by simp

lemma fresher_trans:
  assumes "fresher aid d d1" "fresher aid d1 d2"
  shows "fresher aid d d2"
proof -
  have "(\<exists>l \<in> set (leases d). lease_key l = lease_key l')
          \<or> lease_attempt_id l' = aid
            \<and> (\<forall>l \<in> set (leases d). lease_resource_id l = lease_resource_id l' \<longrightarrow> lease_fencing_token l < lease_fencing_token l')"
    if "l' \<in> set (leases d2)" for l'
  proof (cases "\<exists>l \<in> set (leases d1). lease_key l = lease_key l'")
    case True
    then obtain l1 where l1: "l1 \<in> set (leases d1)" "lease_key l1 = lease_key l'" by blast
    then show ?thesis using assms(1) unfolding fresher_def by (auto simp: lease_key_def)
  next
    case False
    then have n: "lease_attempt_id l' = aid"
      "\<And>l. l \<in> set (leases d1) \<Longrightarrow> lease_resource_id l = lease_resource_id l' \<Longrightarrow> lease_fencing_token l < lease_fencing_token l'"
      using assms(2) that unfolding fresher_def by blast+
    have "lease_fencing_token l < lease_fencing_token l'"
      if l: "l \<in> set (leases d)" "lease_resource_id l = lease_resource_id l'" for l
    proof -
      obtain l1 where "l1 \<in> set (leases d1)" "lease_key l1 = lease_key l" using assms(1) l(1) unfolding fresher_def by blast
      then show ?thesis using n(2) [of l1] l(2) by (simp add: lease_key_def)
    qed
    then show ?thesis using n(1) by blast
  qed
  moreover have "\<exists>l' \<in> set (leases d2). lease_key l' = lease_key l" if "l \<in> set (leases d)" for l
    using assms that unfolding fresher_def by metis
  ultimately show ?thesis unfolding fresher_def by blast
qed

lemma lease_key_update: "(\<And>l. lease_key (f l) = lease_key l) \<Longrightarrow> map lease_key (sql_update P f ls) = map lease_key ls"
  by (induction ls) (simp_all add: sql_update_def)

lemma fencing_keys:
  assumes "fencing_inv d" "map lease_key (leases d') = map lease_key (leases d)" "resources d' = resources d"
  shows "fencing_inv d'"
proof -
  have "\<exists>l \<in> set (leases d). lease_key l = lease_key l'" if "l' \<in> set (leases d')" for l'
    using map_eq_ex [OF assms(2) that] .
  then show ?thesis using assms(1,3) unfolding fencing_inv_def by (fastforce simp: lease_key_def)
qed

lemma acquire_lease_fresher:
  assumes ok: "acquire_lease now lid tok c rid d = Inr d'" and inv: "fencing_inv d"
  shows "fencing_inv d' \<and> fresher (dc_AttemptID c) d d'"
proof -
  define expired where "expired = sql_update (\<lambda>l. lease_resource_id l = rid \<and> lease_state l = ACTIVE \<and> lease_expires_at l \<le> now)
                   (\<lambda>l. l\<lparr>lease_state := EXPIRED, lease_released_at := Some now\<rparr>) (leases d)"
  define rs where "rs = sql_update (\<lambda>res. res_id res = rid \<and> res_enabled res)
                             (\<lambda>res. res\<lparr>res_next_fencing_token := res_next_fencing_token res + 1\<rparr>) (resources d)"
  from ok obtain res row where res: "find_row (\<lambda>res. res_id res = rid \<and> res_enabled res) (resources d) = Some res"
    and d': "d' = d\<lparr>resources := rs, leases := expired @ [row]\<rparr>"
    and row: "lease_attempt_id row = dc_AttemptID c" "lease_resource_id row = rid"
      "lease_fencing_token row = res_next_fencing_token res + 1"
    unfolding acquire_lease_def Let_def expired_def [symmetric] rs_def
    by (auto split: if_splits option.splits)
  have r: "res \<in> set (resources d)" "res_id res = rid" "res_enabled res" using find_row_Some [OF res] by auto
  have keys: "map lease_key expired = map lease_key (leases d)"
    unfolding expired_def by (rule lease_key_update) (simp add: lease_key_def)
  have old: "\<exists>l0 \<in> set (leases d). lease_key l0 = lease_key l" if "l \<in> set expired" for l
    using map_eq_ex [OF keys that] .
  have new: "\<exists>l0 \<in> set expired. lease_key l0 = lease_key l" if "l \<in> set (leases d)" for l
    using map_eq_ex [OF keys [symmetric] that] .
  have bound: "lease_fencing_token l \<le> res_next_fencing_token x"
    if "l \<in> set (leases d)" "x \<in> set (resources d)" "res_id x = lease_resource_id l" for l x
    using inv that unfolding fencing_inv_def by blast
  have "fencing_inv d'"
    unfolding fencing_inv_def
  proof (intro conjI ballI impI)
    have "map res_id rs = map res_id (resources d)" unfolding rs_def by (simp add: map_sql_update)
    then show "distinct (map res_id (resources d'))" using inv by (simp add: d' fencing_inv_def)
    fix l x
    assume l: "l \<in> set (leases d')" and x: "x \<in> set (resources d')" "res_id x = lease_resource_id l"
    from x(1) obtain y where y: "y \<in> set (resources d)" "res_id y = res_id x"
      "x = (if res_id y = rid \<and> res_enabled y then y\<lparr>res_next_fencing_token := res_next_fencing_token y + 1\<rparr> else y)"
      unfolding d' rs_def by (auto simp: set_sql_update)
    have le: "res_next_fencing_token y \<le> res_next_fencing_token x" using y(3) by simp
    show "lease_fencing_token l \<le> res_next_fencing_token x"
    proof (cases "l = row")
      case True
      then have "y = res" using y(1,2) r inv x(2) row distinct_map_eq_key [of res_id "resources d" y res]
        by (simp add: fencing_inv_def)
      then show ?thesis using True row r y(3) by simp
    next
      case False
      then obtain l0 where "l0 \<in> set (leases d)" "lease_key l0 = lease_key l" using l old by (auto simp: d')
      then show ?thesis using bound [of l0 y] y(1,2) x(2) le by (simp add: lease_key_def)
    qed
  qed
  moreover have "fresher (dc_AttemptID c) d d'"
  proof -
    have "lease_fencing_token l < lease_fencing_token row" if "l \<in> set (leases d)" "lease_resource_id l = rid" for l
      using bound [OF that(1) r(1)] that(2) r(2) row(3) by simp
    then show ?thesis unfolding fresher_def using new old row(1,2) by (auto simp: d')
  qed
  ultimately show ?thesis ..
qed

lemma acquire_leases_fresher:
  assumes "acquire_leases now fresh i c rids d = Inr d'" "fencing_inv d"
  shows "fencing_inv d' \<and> fresher (dc_AttemptID c) d d'"
  using assms
proof (induction rids arbitrary: i d)
  case (Cons rid rids)
  then obtain d1 where d1: "acquire_lease now (fresh (2 * i)) (fresh (2 * i + 1)) c rid d = Inr d1"
    "acquire_leases now fresh (i + 1) c rids d1 = Inr d'" by (auto simp: res_bind_Inr)
  from acquire_lease_fresher [OF d1(1) Cons.prems(2)] Cons.IH [OF d1(2)] show ?case by (blast intro: fresher_trans)
qed (simp add: fresher_refl)

lemma ClaimWaiting_fresher:
  assumes "ClaimWaiting digest token fresh clock now build d = Inr (Some c, d')" "fencing_inv d"
  shows "fencing_inv d' \<and> fresher (dc_AttemptID c) d d'"
proof -
  from assms(1) obtain envelope where "dispatch_candidate now fresh envelope c d = Inr d'"
    by (rule ClaimWaiting_Inr)
  then obtain d2 where d2: "acquire_leases now fresh 0 c (dc_Resources c)
      (d\<lparr>attempts := attempts d @ [new_attempt c A_DISPATCHED (Some now)]\<rparr>) = Inr d2"
    and "leases d' = leases d2" "resources d' = resources d2"
    by (auto elim!: dispatch_candidate_Inr)
  moreover have "fencing_inv (d\<lparr>attempts := as\<rparr>)" for as by (rule fencing_keys [OF assms(2)]) simp_all
  ultimately show ?thesis
    using acquire_leases_fresher [OF d2] by (simp add: fresher_def fencing_inv_def)
qed

text \<open>Every other transaction leaves tokens and resources alone.\<close>

definition same_leases :: "db \<Rightarrow> db \<Rightarrow> bool" where
  "same_leases d d' \<longleftrightarrow> map lease_key (leases d') = map lease_key (leases d) \<and> resources d' = resources d"

lemma same_leases_refl [simp]: "same_leases d d"
  by (simp add: same_leases_def)

lemma same_leases_trans: "same_leases d d1 \<Longrightarrow> same_leases d1 d2 \<Longrightarrow> same_leases d d2"
  by (simp add: same_leases_def)

lemma same_leases_update [simp]:
  "same_leases d (update_run P f d') \<longleftrightarrow> same_leases d d'" "same_leases d (update_attempt Q g d') \<longleftrightarrow> same_leases d d'"
  "same_leases d (insert_log_or_skip l d') \<longleftrightarrow> same_leases d d'" "same_leases d (d'\<lparr>outbox := ob\<rparr>) \<longleftrightarrow> same_leases d d'"
  "same_leases d (d'\<lparr>inbox := ib\<rparr>) \<longleftrightarrow> same_leases d d'" "same_leases (d\<lparr>inbox := ib\<rparr>) d' \<longleftrightarrow> same_leases d d'"
  "same_leases (update_attempt Q g d) d' \<longleftrightarrow> same_leases d d'" "same_leases (insert_log_or_skip l d) d' \<longleftrightarrow> same_leases d d'"
  by (simp_all add: same_leases_def update_run_def update_attempt_def insert_log_or_skip_def)

lemma same_leases_release [simp]: "same_leases d (releaseRunResources now rid aid d') \<longleftrightarrow> same_leases d d'"
proof -
  have "map lease_key (leases (releaseRunResources now rid aid d')) = map lease_key (leases d')"
    unfolding releaseRunResources_def Let_def by (simp, rule lease_key_update) (simp add: lease_key_def)
  moreover have "resources (releaseRunResources now rid aid d') = resources d'" by (simp add: releaseRunResources_def Let_def)
  ultimately show ?thesis by (simp add: same_leases_def)
qed

lemma same_leases_event: "insert_event e d = Inr d' \<Longrightarrow> same_leases d d'"
  by (auto dest: insert_event_Inr simp: same_leases_def)

lemma same_leases_retry: "updateRetryState now event d = Inr d' \<Longrightarrow> same_leases d d'"
  by (auto elim: updateRetryState_runs)

lemma same_leases_transition:
  assumes "applyRunEventTransition now event aid rid payload d = Inr d'"
  shows "same_leases d d'"
proof -
  have c: "same_leases d d'" if "applyCompletedRunEvent now event aid rid payload d = Inr d'"
    using that unfolding applyCompletedRunEvent_def Let_def
    by (auto simp: res_bind_Inr updateTerminalRun_def dest!: same_leases_retry split: if_splits)
  have k: "same_leases d d'" if "applyUnknownRunEvent now event aid rid d = Inr d'"
    using that unfolding applyUnknownRunEvent_def Let_def
    by (auto simp: res_bind_Inr applyUnknownRunState_def split: option.splits)
  show ?thesis
    using assms c k unfolding applyRunEventTransition_def by (auto simp: startRunAttempt_def split: if_splits)
qed

lemma same_leases_state_event:
  assumes "apply_state_event sha now event a d = Inr d'"
  shows "same_leases d d'"
  using assms unfolding apply_state_event_def Let_def
  by (auto simp: res_bind_Inr dest!: same_leases_event same_leases_transition intro: same_leases_trans split: if_splits)

lemma same_leases_ApplyRunEvent:
  assumes "ApplyRunEvent sha clock now event d = Inr d'"
  shows "same_leases d d'"
  using assms
proof (rule ApplyRunEvent_Inr)
  fix a row
  assume "d' = d \<and> (\<exists>i \<in> set (inbox d). in_event_id i = re_EventID event)
      \<or> re_EventType event = ''log_chunk''
        \<and> applyLogChunkEvent sha (event_time clock event) (att_id a) (d\<lparr>inbox := inbox d @ [row]\<rparr>) = Inr d'
      \<or> re_EventType event \<noteq> ''log_chunk''
        \<and> apply_state_event sha now (event_time clock event) a (d\<lparr>inbox := inbox d @ [row]\<rparr>) = Inr d'"
  then show ?thesis
    by (auto simp: applyLogChunkEvent_def dest: same_leases_state_event split: if_splits)
qed

lemma same_leases_reconcile:
  "reconcile_dispatches now sqlnow cs d = Inr d' \<Longrightarrow> same_leases d d'"
  "reconcile_cancellations now sqlnow ss d = Inr d' \<Longrightarrow> same_leases d d'"
proof -
  have "reconcile_dispatch now sqlnow c d = Inr d' \<Longrightarrow> same_leases d d'" for c d d'
    by (auto simp: reconcile_dispatch_def res_bind_Inr Let_def dest: same_leases_event)
  then show "reconcile_dispatches now sqlnow cs d = Inr d' \<Longrightarrow> same_leases d d'"
    by (induction cs arbitrary: d) (auto simp: res_bind_Inr, metis same_leases_trans)
  have "reconcile_cancellation now sqlnow c d = Inr d' \<Longrightarrow> same_leases d d'" for c d d'
    by (auto simp: reconcile_cancellation_def res_bind_Inr Let_def dest: same_leases_event)
  then show "reconcile_cancellations now sqlnow ss d = Inr d' \<Longrightarrow> same_leases d d'"
    by (induction ss arbitrary: d) (auto simp: res_bind_Inr, metis same_leases_trans)
qed

lemma same_leases_others:
  "RunStore_Create provider clock now def0 d = Inr (r, d') \<Longrightarrow> same_leases d d'"
  "ClaimStart now inp d = Inr (g, d') \<Longrightarrow> same_leases d d'"
  "updated_run ident P f d = Inr (res, d') \<Longrightarrow> same_leases d d'"
  "ClaimCancelling now cbuild d = Inr (cc, d') \<Longrightarrow> same_leases d d'"
  "CreateAttempt a d = Inr d' \<Longrightarrow> same_leases d d'" "AppendEvent clock e d = Inr d' \<Longrightarrow> same_leases d d'"
  "AppendLogChunk sha clock l d = Inr d' \<Longrightarrow> same_leases d d'" "same_leases d (MarkDispatchPublished now mid d)"
  "same_leases d (RetryDispatch now mid err d)"
  by (auto simp: RunStore_Create_def Let_def res_bind_Inr insert_run_def same_leases_def split: option.splits if_splits)[1]
    (auto simp: ClaimStart_def updated_run_def ClaimCancelling_def CreateAttempt_def AppendEvent_def AppendLogChunk_def
      MarkDispatchPublished_def RetryDispatch_def insert_attempt_def insert_event_def Let_def same_leases_def update_run_def
      update_attempt_def split: if_splits option.splits prod.splits)

lemma fencing_store_step:
  assumes "store_step d d'" "fencing_inv d"
  shows "fencing_inv d'"
proof -
  have same: "same_leases d d' \<Longrightarrow> fencing_inv d'" using fencing_keys [OF assms(2)] by (simp add: same_leases_def)
  from assms(1) show ?thesis
  proof cases
    case (claim_waiting digest token fresh clock now build c)
    then show ?thesis
    proof (cases c)
      case None
      then have "d' = d"
        using claim_waiting unfolding ClaimWaiting_def by (auto simp: res_bind_Inr split: option.splits if_splits)
      then show ?thesis using assms(2) by simp
    qed (use ClaimWaiting_fresher assms(2) in blast)
  next
    case (request_cancellation now ident reason r)
    then show ?thesis by (auto simp: RequestCancellation_def Let_def split: if_splits intro: same same_leases_others(3))
  next
    case (retry now ident reason r)
    then show ?thesis by (auto simp: RunStore_Retry_def intro: same same_leases_others(3))
  next
    case (timed_out clock now)
    then show ?thesis
      by (auto simp: ReconcileTimedOutDispatches_def split: if_splits intro: same same_leases_reconcile)
  next
    case (stale cutoff clock now)
    then show ?thesis
      by (auto simp: ReconcileStaleCancellations_def split: if_splits intro: same same_leases_reconcile)
  next
    case (published now mid)
    then show ?thesis using same same_leases_others(8) by blast
  next
    case (retry_dispatch now mid err)
    then show ?thesis using same same_leases_others(9) by blast
  qed (erule same [OF same_leases_others(1)] same [OF same_leases_others(2)] same [OF same_leases_others(4)]
      same [OF same_leases_others(5)] same [OF same_leases_others(6)] same [OF same_leases_others(7)]
      same [OF same_leases_ApplyRunEvent])+
qed

lemma fencing_store_steps: "store_steps d d' \<Longrightarrow> fencing_inv d \<Longrightarrow> fencing_inv d'"
  by (induction rule: store_steps.induct) (auto dest: fencing_store_step)

text \<open>
  C28. Fencing. After any history, a dispatch that acquires a lease of a resource gets a token
  strictly above every token ever handed out for that resource, so a holder that lost its lease
  can be told from the current one.
\<close>

theorem fencing_tokens_increase:
  assumes "fencing_inv d0" "store_steps d0 d" "ClaimWaiting digest token fresh clock now build d = Inr (Some c, d')"
    and "l' \<in> set (leases d')" "lease_key l' \<notin> lease_key ` set (leases d)"
  shows "lease_attempt_id l' = dc_AttemptID c
         \<and> (\<forall>l \<in> set (leases d). lease_resource_id l = lease_resource_id l' \<longrightarrow> lease_fencing_token l < lease_fencing_token l')"
proof -
  have "fresher (dc_AttemptID c) d d'" using ClaimWaiting_fresher [OF assms(3)] fencing_store_steps [OF assms(2,1)] by simp
  then show ?thesis using assms(4,5) unfolding fresher_def by (metis imageI)
qed

theorem fencing_tokens_increase_witness:
  "\<exists>l' \<in> set (leases sample_dispatched). lease_attempt_id l' = dc_AttemptID (the (fst (projr sample_claim)))
     \<and> lease_fencing_token l' = 8"
proof -
  have "list_ex (\<lambda>l. lease_fencing_token l = 8) (leases sample_dispatched)" by code_simp
  then obtain l' where l': "l' \<in> set (leases sample_dispatched)" "lease_fencing_token l' = 8" by (auto simp: list_ex_iff)
  have "fencing_inv sample_db" "lease_key l' \<notin> lease_key ` set (leases sample_db)"
    by (simp_all add: fencing_inv_def sample_db_def)
  from fencing_tokens_increase [OF this(1) store_steps.start sample_claim_ok [unfolded sample_claim_def] l'(1) this(2)] l'
  show ?thesis unfolding sample_claim_def by blast
qed

section \<open>Which run is dispatched, and where\<close>

lemma sort_key_Nil: "sort_key k xs = [] \<longleftrightarrow> xs = []"
  by (cases xs) (simp_all add: insort_not_Nil)

lemma claim_query_None: "claim_query now d = None \<longleftrightarrow> claim_rows now d = []"
  using sort_key_Nil [of "\<lambda>(r, _). (run_created_at r, run_id r)" "claim_rows now d"]
  by (auto simp: claim_query_def sql_first_def split: list.splits)

lemma claim_query_first:
  assumes "claim_query now d = Some (r, tv, t, rr, rp, rs)" "(r', p) \<in> set (claim_rows now d)"
  shows "(run_created_at r, run_id r) \<le> (run_created_at r', run_id r')"
  using sql_first_Some [OF assms(1) [unfolded claim_query_def]] assms(2) by fastforce

lemma dispatch_candidate_runs:
  assumes "dispatch_candidate now fresh envelope c d = Inr d'"
  shows "runs d' = sql_update (\<lambda>r. run_id r = dc_RunID c \<and> run_state r \<in> {WAITING, RETRY_WAIT}) (set_run_state DISPATCHED now) (runs d)"
    and "attempts d' = attempts d @ [new_attempt c A_DISPATCHED (Some now)]"
    and "new_outbox (dc_AttemptID c) (dc_AttemptID c) ''execute'' (dc_RunnerID c) envelope now \<in> set (outbox d')"
proof -
  from assms obtain d2 where "acquire_leases now fresh 0 c (dc_Resources c)
      (d\<lparr>attempts := attempts d @ [new_attempt c A_DISPATCHED (Some now)]\<rparr>) = Inr d2"
    and d': "runs d' = sql_update (\<lambda>r. run_id r = dc_RunID c \<and> run_state r \<in> {WAITING, RETRY_WAIT}) (set_run_state DISPATCHED now) (runs d2)"
    "attempts d' = attempts d2"
    "new_outbox (dc_AttemptID c) (dc_AttemptID c) ''execute'' (dc_RunnerID c) envelope now \<in> set (outbox d')"
    by (auto elim!: dispatch_candidate_Inr)
  from acquire_leases_props [OF this(1)] d'
  show "runs d' = sql_update (\<lambda>r. run_id r = dc_RunID c \<and> run_state r \<in> {WAITING, RETRY_WAIT}) (set_run_state DISPATCHED now) (runs d)"
    "attempts d' = attempts d @ [new_attempt c A_DISPATCHED (Some now)]"
    "new_outbox (dc_AttemptID c) (dc_AttemptID c) ''execute'' (dc_RunnerID c) envelope now \<in> set (outbox d')" by simp_all
qed

text \<open>
  C27. Dispatch. The transaction claims the oldest run that can be placed; the runner is enabled,
  in the pool of the task, under its capacity, heard of within thirty seconds and has the
  capabilities asked for, and no blocking resource of the task is held. Afterwards the run is
  dispatched, its attempt exists with the next number, and the order the builder made is in the
  outbox, addressed to that runner. Nothing is claimed only when no run can be placed.
\<close>

theorem ClaimWaiting_dispatches:
  assumes "ClaimWaiting digest token fresh clock now (Some builder) d = Inr (res, d')"
  shows "case res of
      None \<Rightarrow> d' = d \<and> claim_rows now d = []
    | Some c \<Rightarrow> \<exists>r tv rr rs envelope. r \<in> set (runs d) \<and> run_id r = dc_RunID c \<and> run_claimable now d r tv
        \<and> tv_id tv = run_task_version_id r \<and> rr \<in> set (runners d) \<and> rr_id rr = dc_RunnerID c
        \<and> runner_eligible now tv rr rs \<and> list_all (resource_free now d) (required_resources d (tv_id tv))
        \<and> (\<forall>(r', p) \<in> set (claim_rows now d). (run_created_at r, run_id r) \<le> (run_created_at r', run_id r'))
        \<and> set_run_state DISPATCHED now r \<in> set (runs d')
        \<and> attempts d' = attempts d @ [new_attempt c A_DISPATCHED (Some now)]
        \<and> dc_AttemptNumber c = max_attempt (run_id r) (attempts d) + 1
        \<and> builder c = Some envelope \<and> envelope \<noteq> []
        \<and> new_outbox (dc_AttemptID c) (dc_AttemptID c) ''execute'' (dc_RunnerID c) envelope now \<in> set (outbox d')"
proof (cases res)
  case None
  then have "d' = d \<and> claim_query now d = None"
    using assms unfolding ClaimWaiting_def by (auto simp: res_bind_Inr split: option.splits if_splits)
  then show ?thesis using None claim_query_None by simp
next
  case (Some c)
  from assms [unfolded Some] show ?thesis
  proof (rule ClaimWaiting_Inr)
    fix r tv t rr rp rs builder' envelope
    assume q: "claim_query now d = Some (r, tv, t, rr, rp, rs)"
      and c: "build_candidate digest token clock d (r, tv, t, rr, rp, rs) = Inr c"
      and b: "Some builder = Some builder'" "builder' c = Some envelope" "envelope \<noteq> []"
      and dc: "dispatch_candidate now fresh envelope c d = Inr d'"
    note q1 = claim_query_Some [OF q] and c1 = build_candidate_Inr [OF c] and d1 = dispatch_candidate_runs [OF dc]
    have "set_run_state DISPATCHED now r \<in> set (runs d')"
      unfolding d1(1) set_sql_update
      by (rule image_eqI [OF _ q1(1)]) (use q1(4) c1(1) in \<open>auto simp: run_claimable_def\<close>)
    moreover have b': "builder c = Some envelope" using b(1,2) by simp
    moreover have "rr_id rr = dc_RunnerID c" using q1(8) c1(2) by (simp add: runner_eligible_def)
    moreover have "\<forall>(r', p) \<in> set (claim_rows now d). (run_created_at r, run_id r) \<le> (run_created_at r', run_id r')"
      using claim_query_first [OF q] by blast
    ultimately show ?thesis
      unfolding Some option.case
      by (intro exI [of _ r] exI [of _ tv] exI [of _ rr] exI [of _ rs] exI [of _ envelope] conjI)
        (use q1 c1(1) [symmetric] c1(4) d1(2,3) b(3) in blast)+
  qed
qed

theorem ClaimWaiting_dispatches_witness:
  "\<exists>r. r \<in> set (runs sample_db) \<and> set_run_state DISPATCHED 1000 r \<in> set (runs sample_dispatched)"
proof -
  define c where "c = the (fst (projr sample_claim))"
  have "ClaimWaiting (\<lambda>_. ''digest'') (Some ''token'') sample_fresh sample_clock 1000 (Some (\<lambda>_. Some [1])) sample_db
          = Inr (Some c, sample_dispatched)"
    using sample_claim_ok unfolding c_def sample_claim_def .
  from ClaimWaiting_dispatches [OF this] show ?thesis by auto
qed

section \<open>Secrets\<close>

lemma map_len_card: "map_len m = card (dom (map_of m))"
  unfolding map_len_def by (simp add: dom_map_of_conv_image_fst length_remdups_card_conv)

lemma get_or_map_of: "get_or x m k = (case map_of m k of None \<Rightarrow> x | Some v \<Rightarrow> v)"
  by (simp add: get_or_def)

text \<open>The loop compares only the keys of the left map and reads a missing key as the empty string.\<close>

lemma sameSecretReferences_iff:
  assumes "\<And>k. map_of left k \<noteq> Some []"
  shows "sameSecretReferences left right \<longleftrightarrow> map_of left = map_of right"
proof
  assume s: "sameSecretReferences left right"
  have v: "map_of right k = Some v" if "map_of left k = Some v" for k v
  proof -
    have "k \<in> set (map fst left)" using that by (auto dest: map_of_SomeD intro: rev_image_eqI)
    then have "get_or [] right k = get_or [] left k"
      using s by (auto simp: sameSecretReferences_def list_all_iff split: if_splits)
    then show ?thesis using that assms [of k] by (auto simp: get_or_map_of split: option.splits)
  qed
  have "dom (map_of left) \<subseteq> dom (map_of right)" using v by blast
  moreover have "card (dom (map_of left)) = card (dom (map_of right))"
    using s by (auto simp: sameSecretReferences_def map_len_card split: if_splits)
  ultimately have "dom (map_of left) = dom (map_of right)" by (simp add: card_subset_eq finite_dom_map_of)
  then show "map_of left = map_of right"
    by (intro map_le_antisym) (use v in \<open>force simp: map_le_def\<close>)+
next
  assume "map_of left = map_of right"
  then show "sameSecretReferences left right"
    by (simp add: sameSecretReferences_def map_len_card get_or_map_of list_all_iff)
qed

text \<open>
  Secrets. A request is authorised only for an attempt that is dispatched or running, with
  the order, runner, session, lease token, fencing token and digest of its dispatch, and only for
  exactly the references of the task version, provided none of those is the empty string.
\<close>

theorem AuthorizeSecretRequest_sound:
  assumes "AuthorizeSecretRequest inp d = Inr ()"
  shows "\<exists>r a tv expected. r \<in> set (runs d) \<and> a \<in> set (attempts d) \<and> tv \<in> set (task_versions d)
     \<and> run_id r = sq_RunID inp \<and> att_run_id a = run_id r \<and> tv_id tv = run_task_version_id r
     \<and> att_id a = sq_OrderID inp \<and> att_number a = sq_Attempt inp \<and> att_runner_id a = sq_RunnerID inp
     \<and> att_session_id a = sq_RunnerSessionID inp \<and> att_lease_token a = sq_LeaseToken inp
     \<and> att_fencing_token a = sq_FencingToken inp \<and> att_digest a = sq_Digest inp \<and> live a
     \<and> tv_secret_references tv = SecretMap expected
     \<and> ((\<forall>k. map_of expected k \<noteq> Some []) \<longrightarrow> map_of expected = map_of (sq_SecretRefs inp))"
proof -
  from assms obtain r a tv expected where
      f: "find_row (\<lambda>((r, a), tv).
                      tv_id tv = run_task_version_id r \<and> att_id a = sq_OrderID inp \<and> run_id r = sq_RunID inp
                      \<and> att_number a = sq_Attempt inp \<and> att_runner_id a = sq_RunnerID inp
                      \<and> att_session_id a = sq_RunnerSessionID inp \<and> att_lease_token a = sq_LeaseToken inp
                      \<and> att_fencing_token a = sq_FencingToken inp \<and> att_digest a = sq_Digest inp
                      \<and> (run_state r = DISPATCHED \<and> att_state a \<in> {A_DISPATCHED, A_ACCEPTED}
                         \<or> run_state r = RUNNING \<and> att_state a = A_RUNNING))
                    (List.product (run_attempts d) (task_versions d)) = Some ((r, a), tv)"
    and e: "decodeSecretReferences (tv_secret_references tv) = Some expected"
      "sameSecretReferences expected (sq_SecretRefs inp)" "map_len (sq_SecretRefs inp) \<noteq> 0"
    unfolding AuthorizeSecretRequest_def by (auto split: if_splits option.splits)
  have "expected \<noteq> []" using e(2,3) by (auto simp: sameSecretReferences_def map_len_def split: if_splits)
  then have sm: "tv_secret_references tv = SecretMap expected"
    using e(1) by (auto simp: decodeSecretReferences_def split: secret_column.splits)
  have "(\<forall>k. map_of expected k \<noteq> Some []) \<longrightarrow> map_of expected = map_of (sq_SecretRefs inp)"
    using sameSecretReferences_iff e(2) by blast
  then show ?thesis
    using find_row_Some [OF f] sm by (intro exI [of _ r] exI [of _ a] exI [of _ tv] exI [of _ expected])
      (auto simp: run_attempts_set live_def)
qed

definition sample_secret_request :: SecretRequestInput where
  "sample_secret_request = \<lparr>sq_OrderID = ''run-attempt-1'', sq_RunID = ''run'', sq_RunnerID = ''runner'',
     sq_RunnerSessionID = ''session'', sq_LeaseToken = ''token'', sq_Digest = ''digest'', sq_Attempt = 1,
     sq_FencingToken = 1000, sq_SecretRefs = [(''TOKEN'', ''s1'')]\<rparr>"

theorem AuthorizeSecretRequest_sound_witness:
  "AuthorizeSecretRequest sample_secret_request sample_dispatched = Inr ()
   \<and> (\<exists>a \<in> set (attempts sample_dispatched). att_lease_token a = ''token'' \<and> live a)"
proof -
  have ok: "AuthorizeSecretRequest sample_secret_request sample_dispatched = Inr ()" by code_simp
  from AuthorizeSecretRequest_sound [OF ok] ok show ?thesis by (auto simp: sample_secret_request_def)
qed

text \<open>
  Without that proviso the comparison is not equality: a task version whose stored reference
  is the empty string authorises a request for a different name and a different secret.
\<close>

theorem sameSecretReferences_confuses_empty:
  "sameSecretReferences [(''A'', [])] [(''B'', ''other-secret'')]
   \<and> map_of [(''A'', [])] \<noteq> map_of [(''B'', ''other-secret'' :: string)]"
  by (auto simp: sameSecretReferences_def map_len_def get_or_def fun_eq_iff)

section \<open>Failed attempts and automatic retries\<close>

definition retry_run :: "time \<Rightarrow> RunEventInput \<Rightarrow> task_version_row \<Rightarrow> run_row \<Rightarrow> run_row" where
  "retry_run now event tv r =
     (if shouldRetry event (tv_max_attempts tv) (tv_retryable_exit_codes tv) (tv_retryable_reasons tv)
      then (set_run_state RETRY_WAIT now r)
             \<lparr>run_retry_not_before := Some (now + interval_seconds (retryDelaySeconds event (tv_initial_backoff_seconds tv)
                                            (tv_max_backoff_seconds tv) (tv_backoff_multiplier tv))),
              run_completed_at := None\<rparr>
      else (set_run_state FAILED now r)\<lparr>run_completed_at := Some (re_ReportedAt event), run_retry_not_before := None\<rparr>)"

lemma updateRetryState_retry_run:
  "updateRetryState now event d =
     (case run_version (re_RunID event) d of
        None \<Rightarrow> Inl ENoRows
      | Some tv \<Rightarrow> Inr (update_run (\<lambda>r. run_id r = re_RunID event \<and> not_final r) (retry_run now event tv) d))"
  by (simp add: updateRetryState_def updateTerminalRun_def retry_run_def [abs_def] Let_def split: option.splits)

lemma run_version_cong: "runs d' = runs d \<Longrightarrow> task_versions d' = task_versions d \<Longrightarrow> run_version rid d' = run_version rid d"
  by (simp add: run_version_def)

lemma unchanged_tables [simp]:
  "task_versions (update_run P f d) = task_versions d" "task_versions (update_attempt Q g d) = task_versions d"
  "task_versions (insert_log_or_skip l d) = task_versions d"
  "exit_codes (update_attempt Q g d) = exit_codes d" "exit_codes (insert_log_or_skip l d) = exit_codes d"
  by (simp_all add: update_run_def update_attempt_def insert_log_or_skip_def)

lemma completed_failed_runs:
  assumes "applyCompletedRunEvent now event aid rid payload d = Inr d'" "re_EventType event \<in> {''failed'', ''timed_out''}"
    and "run_version (re_RunID event) d = Some tv"
  shows "runs d' = sql_update (\<lambda>r. run_id r = re_RunID event \<and> not_final r) (retry_run now event tv) (runs d)"
proof -
  have v: "run_version (re_RunID event) (update_attempt Q g d) = Some tv" for Q g
    using assms(3) run_version_cong [of "update_attempt Q g d" d] by simp
  from assms(1,2) show ?thesis
    unfolding applyCompletedRunEvent_def Let_def by (auto simp: res_bind_Inr updateRetryState_retry_run v update_run_def)
qed

lemma state_event_transition:
  assumes "apply_state_event sha now event a d = Inr d'" "att_last_sequence a < re_Sequence event"
  obtains d2 d3 where "applyRunEventTransition now event (att_id a) (att_runner_id a) (event_payload event) d2 = Inr d3"
    and "runs d2 = runs d" "task_versions d2 = task_versions d" "exit_codes d2 = exit_codes d" "runs d' = runs d3"
    and "legalAttemptTransition (att_state a) (re_EventType event)"
proof -
  let ?e = "\<lparr>ev_event_id = re_EventID event, ev_attempt_id = att_id a, ev_sequence = re_Sequence event,
               ev_kind = re_EventType event, ev_reported_at = re_ReportedAt event, ev_payload = event_payload event\<rparr>"
  from assms obtain d1 d2 d3 where d1: "insert_event ?e d = Inr d1"
    and d2: "d2 = d1 \<or> (\<exists>l. d2 = insert_log_or_skip l d1)"
    and d3: "applyRunEventTransition now event (att_id a) (att_runner_id a) (event_payload event) d2 = Inr d3"
    and d': "d' = update_attempt (\<lambda>a'. att_id a' = att_id a)
               (\<lambda>a'. a'\<lparr>att_last_sequence := re_Sequence event, att_state_version := att_state_version a' + 1\<rparr>) d3"
    and legal: "legalAttemptTransition (att_state a) (re_EventType event)"
    by (auto simp: apply_state_event_def res_bind_Inr Let_def split: if_splits)
  have r: "runs d' = runs d3" by (simp add: d')
  show thesis by (rule that [OF d3 _ _ _ r legal]) (use insert_event_Inr [OF d1] d2 in auto)
qed


definition sample_failed :: db where
  "sample_failed = apply_sample ''failed'' 3 sample_running"


text \<open>
  An automatic retry cannot start late. The start deadline of a run is fixed at its creation and a
  failed attempt does not renew it, so once it has passed no claim of the run's next attempt is
  granted: a task that runs longer than its start delay is never retried successfully.
\<close>

theorem start_refused_after_deadline:
  assumes "store_inv d" "r \<in> set (runs d)" "run_start_deadline_at r = Some s" "s \<le> now" "run_state r \<noteq> RUNNING"
    and "sc_RunID inp = run_id r"
  shows "ClaimStart now inp d \<noteq> Inr ((t, True), d')"
proof
  assume "ClaimStart now inp d = Inr ((t, True), d')"
  then obtain r' a where r': "r' \<in> set (runs d)" "run_id r' = run_id r"
    "run_state r' = RUNNING \<or> (\<exists>deadline. start_deadline r' a = Some deadline \<and> now < deadline)"
    by (rule ClaimStart_granted) (use assms(6) in \<open>auto simp: run_attempts_set claim_matches_def\<close>)
  have "r' = r" using assms(1,2) r'(1,2) distinct_map_eq_key [of run_id "runs d" r' r] by (simp add: inv_defs)
  then show False using r'(3) assms(3-5) by (auto simp: start_deadline_def)
qed

definition sample_redispatched :: db where
  "sample_redispatched =
     (case ClaimWaiting (\<lambda>_. ''digest'') (Some ''token-2'') (\<lambda>i. ''again-'' @ show_nat i) (sample_clock + 20 * second)
             (20 * second) (Some (\<lambda>_. Some [1])) sample_failed of
        Inl _ \<Rightarrow> sample_failed | Inr (_, d) \<Rightarrow> d)"

theorem start_refused_after_deadline_witness:
  "\<exists>r \<in> set (runs sample_redispatched). run_state r = DISPATCHED
     \<and> ClaimStart (100 + minute) (sample_start\<lparr>sc_Attempt := 2\<rparr>) sample_redispatched \<noteq> Inr ((100 + minute, True), sample_redispatched)"
proof -
  have f: "ApplyRunEvent (\<lambda>_. ''sum'') 1100 1100 (sample_event ''failed'' 3) sample_running = Inr sample_failed"
    unfolding sample_failed_def apply_sample_def by (rule Inr_case) code_simp
  have "case ClaimWaiting (\<lambda>_. ''digest'') (Some ''token-2'') (\<lambda>i. ''again-'' @ show_nat i) (sample_clock + 20 * second)
             (20 * second) (Some (\<lambda>_. Some [1])) sample_failed of Inl _ \<Rightarrow> False | Inr _ \<Rightarrow> True" by code_simp
  then obtain c where c: "ClaimWaiting (\<lambda>_. ''digest'') (Some ''token-2'') (\<lambda>i. ''again-'' @ show_nat i) (sample_clock + 20 * second)
             (20 * second) (Some (\<lambda>_. Some [1])) sample_failed = Inr (c, sample_redispatched)"
    unfolding sample_redispatched_def by (auto split: sum.splits)
  have "store_steps sample_db sample_redispatched"
    by (rule store_steps.step [OF store_steps.step [OF store_steps.step [OF sample_steps
          store_step.claim_start [OF sample_start_ok]] store_step.apply_event [OF f]] store_step.claim_waiting [OF c]])
  then have inv: "store_inv sample_redispatched" using inv_store_steps sample_inv by blast
  have "list_ex (\<lambda>r. run_state r = DISPATCHED \<and> run_start_deadline_at r = Some (100 + minute) \<and> run_id r = ''run'')
          (runs sample_redispatched)" by code_simp
  then obtain r where r: "r \<in> set (runs sample_redispatched)" "run_state r = DISPATCHED"
    "run_start_deadline_at r = Some (100 + minute)" "run_id r = ''run''" by (auto simp: list_ex_iff)
  have "ClaimStart (100 + minute) (sample_start\<lparr>sc_Attempt := 2\<rparr>) sample_redispatched \<noteq> Inr ((100 + minute, True), sample_redispatched)"
    by (rule start_refused_after_deadline [OF inv r(1,3)]) (use r in \<open>simp_all add: sample_start_def\<close>)
  then show ?thesis using r by blast
qed

section \<open>The delay before a retry\<close>

lemma retry_seconds_closed:
  fixes s m mx :: rat
  assumes "0 \<le> s" "1 \<le> m"
  shows "retry_seconds times n s m (Some mx) = min mx (s * m ^ n)"
  using assms
proof (induction n arbitrary: s)
  case (Suc n)
  have s: "0 \<le> s * m" using Suc.prems by simp
  have "1 \<le> m ^ n" using Suc.prems(2) by (rule one_le_power)
  then have "s * m * 1 \<le> s * m * m ^ n" using s by (rule mult_left_mono)
  then show ?case using Suc.IH [OF s Suc.prems(2)] by (auto simp: Let_def mult.assoc min_def)
qed auto

text \<open>
  Retry delay. With a maximum configured, the delay before attempt \<open>n + 1\<close> is the initial
  backoff times the multiplier to the power of \<open>n - 1\<close>, capped at the maximum; a multiplier below
  one is read as two.
\<close>

theorem retryDelaySeconds_closed:
  assumes "0 \<le> initial" "0 < mx"
  shows "retryDelaySeconds event initial mx multiplier =
           min (of_int mx) (of_int initial * (if multiplier < 1 then 2 else multiplier) ^ nat (re_Attempt event - 1))"
  unfolding retryDelaySeconds_def Let_def using assms by (simp add: retry_seconds_closed)

theorem retryDelaySeconds_closed_witness:
  "retryDelaySeconds ((sample_event ''failed'' 3)\<lparr>re_Attempt := 4\<rparr>) 5 30 2 = 30
   \<and> retryDelaySeconds ((sample_event ''failed'' 3)\<lparr>re_Attempt := 3\<rparr>) 5 30 0 = 20"
  by (simp add: retryDelaySeconds_closed min_def)

section \<open>Where the transactions fall short\<close>

text \<open>
  Exit codes. An exit code that is not a row of the table of exit codes (which is seeded
  with 0, 1, 2, 5 and 6) makes the final event of an attempt fail: it never changes the attempt or
  the run, which stay as they were until the reconciler times them out.
\<close>

theorem unregistered_exit_code_rejected:
  assumes "re_EventType event \<in> {''completed'', ''failed'', ''timed_out'', ''cancelled''}"
    and "re_ExitCode event = Some code" "code \<notin> set (exit_codes d)"
  shows "\<not> (\<exists>d'. ApplyRunEvent sha clock now event d = Inr d' \<and> (attempts d' \<noteq> attempts d \<or> runs d' \<noteq> runs d))"
proof
  assume "\<exists>d'. ApplyRunEvent sha clock now event d = Inr d' \<and> (attempts d' \<noteq> attempts d \<or> runs d' \<noteq> runs d)"
  then obtain d' where d': "ApplyRunEvent sha clock now event d = Inr d'" "attempts d' \<noteq> attempts d \<or> runs d' \<noteq> runs d" by blast
  from d'(1) show False
  proof (rule ApplyRunEvent_Inr)
    fix a row
    let ?d = "d\<lparr>inbox := inbox d @ [row]\<rparr>" and ?e = "event_time clock event"
    assume "d' = d \<and> (\<exists>i \<in> set (inbox d). in_event_id i = re_EventID event)
      \<or> re_EventType event = ''log_chunk'' \<and> applyLogChunkEvent sha ?e (att_id a) ?d = Inr d'
      \<or> re_EventType event \<noteq> ''log_chunk'' \<and> apply_state_event sha now ?e a ?d = Inr d'"
    then have s: "apply_state_event sha now ?e a ?d = Inr d'" using d'(2) assms(1) by auto
    have "att_last_sequence a < re_Sequence ?e"
      using s d'(2) by (rule_tac ccontr) (auto simp: apply_state_event_def)
    with s obtain d2 d3 where d2: "applyRunEventTransition now ?e (att_id a) (att_runner_id a) (event_payload ?e) d2 = Inr d3"
      "exit_codes d2 = exit_codes ?d" by (rule state_event_transition)
    then have "applyCompletedRunEvent now ?e (att_id a) (att_runner_id a) (event_payload ?e) d2 = Inr d3"
      using assms(1) unfolding applyRunEventTransition_def by (auto split: if_splits)
    then show False
      using assms(2,3) d2(2) unfolding applyCompletedRunEvent_def Let_def
      by (auto simp: res_bind_Inr require_def exit_code_known_def split: if_splits)
  qed
qed

theorem unregistered_exit_code_rejected_witness:
  "ApplyRunEvent (\<lambda>_. ''sum'') 1100 1100 ((sample_event ''failed'' 3)\<lparr>re_ExitCode := Some 23\<rparr>) sample_running = Inl EConstraint
   \<and> \<not> (\<exists>d'. ApplyRunEvent (\<lambda>_. ''sum'') 1100 1100 ((sample_event ''failed'' 3)\<lparr>re_ExitCode := Some 23\<rparr>) sample_running = Inr d'
              \<and> (attempts d' \<noteq> attempts sample_running \<or> runs d' \<noteq> runs sample_running))"
proof
  show "ApplyRunEvent (\<lambda>_. ''sum'') 1100 1100 ((sample_event ''failed'' 3)\<lparr>re_ExitCode := Some 23\<rparr>) sample_running = Inl EConstraint"
    by code_simp
  have "23 \<notin> set (exit_codes sample_running)" by code_simp
  then show "\<not> (\<exists>d'. ApplyRunEvent (\<lambda>_. ''sum'') 1100 1100 ((sample_event ''failed'' 3)\<lparr>re_ExitCode := Some 23\<rparr>) sample_running = Inr d'
              \<and> (attempts d' \<noteq> attempts sample_running \<or> runs d' \<noteq> runs sample_running))"
    by (intro unregistered_exit_code_rejected [of _ 23]) (simp_all add: sample_event_def)
qed

text \<open>
  Timeouts. Once the start deadline of a run has passed, every attempt the reconciler times out,
  one that started and ran into its duration included, is recorded as failed to start, with exit
  code 5; the outcome "execution timeout could not be confirmed" is not reached.
\<close>

theorem timeout_reported_as_start_failure:
  assumes "store_inv d" "c \<in> set (timed_out_rows now d)" "r \<in> set (runs d)" "run_id r = td_runID c"
    and "run_start_deadline_at r = Some s" "s \<le> now"
  shows "td_termination c = ''Start Failure'' \<and> ev_kind (td_event now c) = ''failed'' \<and> td_exit_code c = Some 5
         \<and> att_state (td_attempt now c a) = A_FAILED \<and> run_state (td_run now sqlnow c r) = FAILED"
  using assms(2)
proof (rule timed_out_row)
  fix r' a'
  assume r': "r' \<in> set (runs d)" "att_run_id a' = run_id r'"
    and c: "c = \<lparr>td_attemptID = att_id a', td_runID = att_run_id a', td_runnerID = att_runner_id a',
                    td_attemptState = att_state a', td_lastSequence = att_last_sequence a',
                    td_startFailed = (case start_deadline r' a' of None \<Rightarrow> False | Some t \<Rightarrow> t \<le> now)\<rparr>"
  have "r' = r" using assms(1,3,4) r' c distinct_map_eq_key [of run_id "runs d" r' r] by (simp add: inv_defs)
  then have "td_startFailed c" using assms(5,6) c by (simp add: start_deadline_def)
  then show ?thesis by (simp add: td_termination_def td_event_def td_exit_code_def td_attempt_def td_run_def)
qed

theorem timeout_reported_as_start_failure_witness:
  "\<exists>c \<in> set (timed_out_rows (2000 + 12 * minute) sample_running). td_attemptState c = A_RUNNING \<and> td_exit_code c = Some 5"
proof -
  have inv: "store_inv sample_running"
    by (rule inv_store_steps [OF store_steps.step [OF sample_steps store_step.claim_start [OF sample_start_ok]] sample_inv])
  have "list_ex (\<lambda>c. td_attemptState c = A_RUNNING \<and> td_runID c = ''run'') (timed_out_rows (2000 + 12 * minute) sample_running)"
    by code_simp
  then obtain c where c: "c \<in> set (timed_out_rows (2000 + 12 * minute) sample_running)" "td_attemptState c = A_RUNNING"
    "td_runID c = ''run''" by (auto simp: list_ex_iff)
  have "list_ex (\<lambda>r. run_id r = ''run'' \<and> run_start_deadline_at r = Some (100 + minute)) (runs sample_running)" by code_simp
  then obtain r where r: "r \<in> set (runs sample_running)" "run_id r = ''run''" "run_start_deadline_at r = Some (100 + minute)"
    by (auto simp: list_ex_iff)
  have "(100 + minute :: time) \<le> 2000 + 12 * minute" by code_simp
  from timeout_reported_as_start_failure [OF inv c(1) r(1) _ r(3) this] c r show ?thesis by auto
qed

text \<open>
  The digest of the execution specification does not cover the limits. It is taken before the
  duration and the output limit are set on the candidate, so two task versions that differ only
  there are dispatched under the same digest.
\<close>

theorem digest_ignores_limits:
  assumes "build_candidate digest token clock d (r, tv, t, rr, rp, rs) = Inr c"
  shows "\<exists>c'. build_candidate digest token clock d
                 (r, tv\<lparr>tv_duration_seconds := seconds, tv_max_output_bytes := limit\<rparr>, t, rr, rp, rs) = Inr c'
         \<and> dc_DurationSeconds c' = seconds \<and> dc_MaxOutputBytes c' = limit \<and> dc_Digest c' = dc_Digest c"
  using assms unfolding build_candidate_def Let_def
  by (cases "tv_working_directory tv = []")
    (auto simp: res_bind_Inr undefined_error_def resolvedExecutionDigest_def required_resources_def split: option.splits sum.splits)

theorem digest_ignores_limits_witness:
  "\<exists>(c :: DispatchCandidate) (c' :: DispatchCandidate). dc_Digest c' = dc_Digest c \<and> dc_DurationSeconds c = 60 \<and> dc_DurationSeconds c' = 86400"
proof -
  obtain r tv t rr rp rs c where q: "claim_query 1000 sample_db = Some (r, tv, t, rr, rp, rs)"
    and c: "build_candidate (\<lambda>_. ''digest'') (Some ''token'') sample_clock sample_db (r, tv, t, rr, rp, rs) = Inr c"
    using sample_claim_ok unfolding sample_claim_def by (rule ClaimWaiting_Inr)
  have "tv_duration_seconds tv = 60" using claim_query_Some(2) [OF q] by (simp add: sample_db_def)
  then have "dc_DurationSeconds c = 60" using build_candidate_Inr(8) [OF c] by simp
  then show ?thesis using digest_ignores_limits [OF c, where seconds = 86400 and limit = 5] by blast
qed

end
