(* ===== verification/ScheduleProperties.thy ===== *)
theory ScheduleProperties
  imports ScheduleStore CronFacts DispatchProperties
begin

text \<open>
  What the scheduler guarantees: every transaction on a due schedule moves its next firing
  forward, keeps the invariant of the run store, and leaves nothing due when it reports no change; which
  occurrence the misfire policies choose; versions of schedules are append-only. The interface
  to the cron evaluator is the locale \<open>next_fire\<close>.
\<close>

section \<open>The missed occurrences\<close>

lemma missed_loop_behind:
  assumes "current \<le> now" "nxt (bare_due (ds_Expression due) (ds_Timezone due) current) = Some t" "t \<noteq> 0"
  shows "missed_loop nxt due now current n missed = Inr (missed @ replicate n current)"
  using assms by (induction n arbitrary: missed) simp_all

lemma missed_loop_Inr:
  assumes "missed_loop nxt due now current n missed = Inr ms" "current \<le> now"
  shows "ms = missed @ replicate n current"
  using assms by (induction n arbitrary: missed) (fastforce split: option.splits if_splits)+

lemma nth_time_Inr: "nth_time ts i = Inr t \<longleftrightarrow> i < length ts \<and> t = ts ! i"
  by (auto simp: nth_time_def)

lemma missed_nth:
  assumes "0 < k" "k < Suc n"
  shows "nth_time (a # replicate n b) k = Inr b"
  using assms by (cases k) (simp_all add: nth_time_def)

lemma missed_nth_end: "n < k \<Longrightarrow> nth_time (a # replicate n b) k = Inl EPanic"
  by (simp add: nth_time_def)

lemma catch_up_choice:
  assumes "0 < limit" "limit < int (Suc n)"
  shows "res_bind (nth_time (a # replicate n b) (Suc n - nat limit)) (\<lambda>occ.
           res_bind (nth_time (a # replicate n b) (Suc n - nat limit + 1)) (\<lambda>following. Inr (occ, following)))
         = (if limit = 1 then Inl EPanic else Inr (b, b))"
proof -
  have k: "0 < Suc n - nat limit" "Suc n - nat limit < Suc n" using assms by linarith+
  show ?thesis
  proof (cases "limit = 1")
    case True
    then show ?thesis using missed_nth [OF k] missed_nth_end [of n "Suc n - nat limit + 1" a b] by simp
  next
    case False
    then have "Suc n - nat limit + 1 < Suc n" using assms by linarith
    then show ?thesis using False missed_nth [OF k] missed_nth [of "Suc n - nat limit + 1" n a b] by simp
  qed
qed

text \<open>
  Catching up, as the code does it. Once two occurrences have been missed, the list of missed
  occurrences is the oldest one followed by 999 copies of the second, so \<^verbatim>\<open>RUN_LATEST\<close> runs the
  second oldest occurrence and not the latest, \<^verbatim>\<open>SKIP_ALL\<close> skips one occurrence and not
  all, and \<^verbatim>\<open>RUN_UP_TO_N\<close> with a limit of one indexes past the end of the list and panics.
\<close>

theorem chooseDueOccurrence_behind:
  assumes "nextFire \<le> now" "nxt (bare_due (ds_Expression due) (ds_Timezone due) nextFire) = Some t" "t \<noteq> 0"
  shows "chooseDueOccurrence due now nextFire nxt =
    (if ds_MisfirePolicy due \<in> {''SKIP_ALL'', ''FAIL_AND_ALERT''} then Inr (0, nextFire)
     else if ds_MisfirePolicy due = ''RUN_LATEST'' then Inr (nextFire, nextFire)
     else if ds_MisfirePolicy due = ''RUN_UP_TO_N'' \<and> 0 < ds_CatchupLimit due \<and> ds_CatchupLimit due < 1000
     then (if ds_CatchupLimit due = 1 then Inl EPanic else Inr (nextFire, nextFire))
     else Inr (ds_NextFireAt due, nextFire))"
proof -
  define n :: nat where "n = 999"
  have l: "int (length (ds_NextFireAt due # replicate n nextFire)) = 1000" "int (Suc n) = 1000" by (simp_all add: n_def)
  have m: "missed_loop nxt due now nextFire 999 [ds_NextFireAt due] = Inr (ds_NextFireAt due # replicate n nextFire)"
    using missed_loop_behind [of nextFire now nxt due t n "[ds_NextFireAt due]"] assms by (simp add: n_def)
  have last: "last (ds_NextFireAt due # replicate n nextFire) = nextFire" by (simp add: n_def)
  have c: "0 < ds_CatchupLimit due \<Longrightarrow> ds_CatchupLimit due < 1000 \<Longrightarrow>
      res_bind (nth_time (ds_NextFireAt due # replicate n nextFire) (length (ds_NextFireAt due # replicate n nextFire) - nat (ds_CatchupLimit due)))
        (\<lambda>occ. res_bind (nth_time (ds_NextFireAt due # replicate n nextFire)
                  (length (ds_NextFireAt due # replicate n nextFire) - nat (ds_CatchupLimit due) + 1)) (\<lambda>following. Inr (occ, following)))
      = (if ds_CatchupLimit due = 1 then Inl EPanic else Inr (nextFire, nextFire))"
    using catch_up_choice [of "ds_CatchupLimit due" n "ds_NextFireAt due" nextFire] l by simp
  show ?thesis
    unfolding chooseDueOccurrence_def m res_bind_simps Let_def l last
    using assms(1) c by auto
qed

definition sample_due :: "string \<Rightarrow> int \<Rightarrow> DueScheduleRecord" where
  "sample_due policy limit = (bare_due ''* * * * *'' ''UTC'' (5 * minute))\<lparr>ds_MisfirePolicy := policy, ds_CatchupLimit := limit\<rparr>"

definition minutely :: "DueScheduleRecord \<Rightarrow> time option" where
  "minutely due = Some (ds_NextFireAt due + minute)"

theorem chooseDueOccurrence_behind_witness:
  "chooseDueOccurrence (sample_due ''RUN_LATEST'' 0) (60 * minute) (6 * minute) minutely = Inr (6 * minute, 6 * minute)
   \<and> chooseDueOccurrence (sample_due ''SKIP_ALL'' 0) (60 * minute) (6 * minute) minutely = Inr (0, 6 * minute)
   \<and> chooseDueOccurrence (sample_due ''RUN_UP_TO_N'' 1) (60 * minute) (6 * minute) minutely = Inl EPanic"
proof -
  have "(6 * minute :: time) \<le> 60 * minute" by simp
  moreover have "minutely (bare_due (ds_Expression (sample_due p l)) (ds_Timezone (sample_due p l)) (6 * minute)) = Some (7 * minute)" for p l
    by (simp add: minutely_def bare_due_def)
  ultimately show ?thesis
    by (simp only: chooseDueOccurrence_behind [where t = "7 * minute"]) (simp add: sample_due_def)
qed

lemma chooseDueOccurrence_cases:
  assumes "chooseDueOccurrence due now nextFire nxt = Inr (occ, following)" "ds_NextFireAt due \<le> now"
  shows "following = nextFire \<and> (occ = 0 \<or> occ = ds_NextFireAt due \<or> occ = nextFire \<and> nextFire \<le> now)"
proof (cases "nextFire > now")
  case False
  define n :: nat where "n = 999"
  from False assms(1) obtain ms where ms: "missed_loop nxt due now nextFire n [ds_NextFireAt due] = Inr ms"
    unfolding chooseDueOccurrence_def n_def by (auto simp: res_bind_Inr)
  then have e: "ms = ds_NextFireAt due # replicate n nextFire" using missed_loop_Inr [OF ms] False by simp
  show ?thesis
    using assms(1) False ms
    unfolding chooseDueOccurrence_def n_def [symmetric] e
    by (auto simp: Let_def res_bind_Inr nth_time_Inr nth_Cons' split: if_splits)
qed (use assms in \<open>simp add: chooseDueOccurrence_def\<close>)

section \<open>Effects of one transaction\<close>

lemma insert_run_once_Inr:
  assumes "insert_run_once r d = Inr d'"
  shows "d' = d \<or> insert_run r d = Inr d'" "\<exists>r' \<in> set (runs d'). run_idempotency_key r' = run_idempotency_key r"
    "schedules d' = schedules d"
  using assms by (auto simp: insert_run_once_def insert_run_def list_ex_iff split: if_splits)

lemma set_next_fire_simps [simp]:
  "runs (set_next_fire i t d) = runs d" "attempts (set_next_fire i t d) = attempts d"
  "runners (set_next_fire i t d) = runners d" "leases (set_next_fire i t d) = leases d"
  "schedules (set_next_fire i t d) = sql_update (\<lambda>s. sch_id s = i) (\<lambda>s. s\<lparr>sch_next_fire_at := Some t\<rparr>) (schedules d)"
  by (simp_all add: set_next_fire_def set_schedule_def)

lemma inv_set_next_fire: "store_inv d \<Longrightarrow> store_inv (set_next_fire i t d)"
  by (erule store_inv_cong) simp_all

lemma inv_replace_active: "store_inv d \<Longrightarrow> store_inv (replace_active now v d)"
  unfolding replace_active_def by (rule inv_update_run) (auto simp: in_flight_def)

lemma replace_active_schedules [simp]: "schedules (replace_active now v d) = schedules d"
  by (simp add: replace_active_def update_run_def)

lemma inv_insert_run_once: "store_inv d \<Longrightarrow> insert_run_once r d = Inr d' \<Longrightarrow> store_inv d'"
  using insert_run_once_Inr(1) inv_insert_run by blast

text \<open>The ways a transaction on a due schedule ends without an error.\<close>

definition held_back :: "DueScheduleRecord \<Rightarrow> bool" where
  "held_back due \<longleftrightarrow>
     ds_ConcurrencyPolicy due = ''ALLOW'' \<and> ds_MaxConcurrentRuns due > 0 \<and> int (ds_ActiveRuns due) \<ge> ds_MaxConcurrentRuns due
     \<or> ds_ConcurrencyPolicy due = ''QUEUE'' \<and> ds_ActiveRuns due > 0"

lemma fire_schedule_Inr:
  assumes "fire_schedule rid nxt now sqlnow vars due nextFire d = Inr ((x, changed), d')"
  shows "\<not> changed \<and> d' = d \<and> held_back due
    \<or> changed \<and> d' = set_next_fire (ds_ID due) nextFire d
    \<or> changed \<and> (\<exists>d1 occ fl. (d1 = d \<or> d1 = replace_active sqlnow (ds_ScheduleVersionID due) d)
        \<and> chooseDueOccurrence due now nextFire nxt = Inr (occ, fl)
        \<and> (d' = set_next_fire (ds_ID due) fl d1
           \<or> (\<exists>runID d2. insert_run_once (scheduled_run runID due occ vars sqlnow) d1 = Inr d2 \<and> occ \<noteq> 0
                \<and> d' = set_next_fire (ds_ID due) fl d2)))"
proof (cases "ds_ConcurrencyPolicy due = ''SKIP'' \<and> ds_ActiveRuns due > 0 \<or> held_back due")
  case True
  then show ?thesis using assms by (auto simp: fire_schedule_def held_back_def split: if_splits)
next
  case False
  define d1 where "d1 = (if ds_ConcurrencyPolicy due = ''REPLACE'' \<and> ds_ActiveRuns due > 0
                         then replace_active sqlnow (ds_ScheduleVersionID due) d else d)"
  have "fire_schedule rid nxt now sqlnow vars due nextFire d =
      res_bind (chooseDueOccurrence due now nextFire nxt) (\<lambda>(occurrence, nextFire').
                 if occurrence = 0 then Inr (([], True), set_next_fire (ds_ID due) nextFire' d1)
                 else (case rid of
                         None \<Rightarrow> Inl ERandom
                       | Some runID \<Rightarrow>
                           (if nextFire' = 0 then Inl ENextEmpty
                            else res_bind (insert_run_once (scheduled_run runID due occurrence vars sqlnow) d1) (\<lambda>d2.
                                   Inr ((runID, True), set_next_fire (ds_ID due) nextFire' d2)))))"
    using False unfolding fire_schedule_def Let_def d1_def held_back_def by auto
  with assms obtain occ fl where c: "chooseDueOccurrence due now nextFire nxt = Inr (occ, fl)" "changed"
    and r: "d' = set_next_fire (ds_ID due) fl d1
           \<or> (\<exists>runID d2. insert_run_once (scheduled_run runID due occ vars sqlnow) d1 = Inr d2 \<and> occ \<noteq> 0
                \<and> d' = set_next_fire (ds_ID due) fl d2)"
    by (auto simp: res_bind_Inr split: if_splits option.splits)
  have "d1 = d \<or> d1 = replace_active sqlnow (ds_ScheduleVersionID due) d" by (simp add: d1_def)
  then show ?thesis using c r by blast
qed

lemma createDueRun_Inr:
  assumes "createDueRun rid nxt now sqlnow d = Inr ((x, changed), d')"
  obtains (none) "due_query now d = None" "\<not> changed" "d' = d"
  | (due) s sv due nextFire where "due_query now d = Some (s, sv)" "ds_ID due = sch_id s"
      "ds_NextFireAt due = coalesce (sch_next_fire_at s) now" "ds_ConcurrencyPolicy due = sv_concurrency_policy sv"
      "ds_MaxConcurrentRuns due = sv_max_concurrent_runs sv" "ds_ActiveRuns due = active_runs (sv_id sv) d"
      "ds_ScheduleVersionID due = sv_id sv" "ds_TaskID due = sch_task_id s"
      "ds_NextFireAt due < nextFire"
      "sch_next_fire_at s = None \<and> changed \<and> d' = set_next_fire (sch_id s) nextFire d
       \<or> sch_next_fire_at s \<noteq> None \<and> fire_schedule rid nxt now sqlnow (loadGlobalVariables d) due nextFire d = Inr ((x, changed), d')"
proof (cases "due_query now d")
  case None
  then show thesis using none assms by (simp add: createDueRun_def)
next
  case (Some row)
  obtain s sv where row: "row = (s, sv)" by (cases row)
  from assms obtain expression timezone nextFire where
      n: "ds_NextFireAt ((due_record d (s, sv))\<lparr>ds_Expression := expression, ds_Timezone := timezone,
             ds_NextFireAt := (case sch_next_fire_at s of None \<Rightarrow> now | Some t \<Rightarrow> t)\<rparr>) < nextFire"
    and r: "if sch_next_fire_at s = None then changed \<and> d' = set_next_fire (ds_ID (due_record d (s, sv))) nextFire d
       else fire_schedule rid nxt now sqlnow (loadGlobalVariables d) ((due_record d (s, sv))\<lparr>ds_Expression := expression,
             ds_Timezone := timezone, ds_NextFireAt := (case sch_next_fire_at s of None \<Rightarrow> now | Some t \<Rightarrow> t)\<rparr>) nextFire d
         = Inr ((x, changed), d')"
    unfolding createDueRun_def Some row option.case prod.case Let_def res_bind_Inr
    by (auto simp: res_bind_Inr split: option.split_asm if_split_asm)
  show thesis
    by (rule due [of s sv "(due_record d (s, sv))\<lparr>ds_Expression := expression, ds_Timezone := timezone,
             ds_NextFireAt := (case sch_next_fire_at s of None \<Rightarrow> now | Some t \<Rightarrow> t)\<rparr>" nextFire])
      (use Some row n r in \<open>simp_all add: due_record_def coalesce_def split: if_splits\<close>)
qed

lemma inv_fire_schedule:
  assumes "store_inv d" "fire_schedule rid nxt now sqlnow vars due nextFire d = Inr ((x, changed), d')"
  shows "store_inv d'"
  using fire_schedule_Inr [OF assms(2)] inv_replace_active [OF assms(1)] assms(1)
  by (auto intro!: inv_set_next_fire intro: inv_insert_run_once)

lemma inv_createDueRun:
  assumes "store_inv d" "createDueRun rid nxt now sqlnow d = Inr ((x, changed), d')"
  shows "store_inv d'"
  using assms(2) by (rule createDueRun_Inr) (use assms(1) in \<open>auto intro: inv_set_next_fire inv_fire_schedule\<close>)

lemma inv_due_loop: "due_loop provider rids load now sqlnow n d = (e, d') \<Longrightarrow> store_inv d \<Longrightarrow> store_inv d'"
proof (induction n arbitrary: d)
  case (Suc n)
  have "store_inv d1" if "CreateDueRun provider (rids n) (Some (cron_next load)) now sqlnow d = Inr (x, d1)" for x d1
    using that inv_createDueRun [OF Suc.prems(2)] by (cases x) (auto simp: CreateDueRun_def res_bind_Inr)
  then show ?case using Suc by (auto split: sum.splits if_splits)
qed simp

text \<open>
  C25. Scheduler and dispatcher compose. A round of the scheduler, whether it ends normally or with an
  error halfway, keeps the invariant on which the dispatcher, the event handler and the reconcilers rely.
\<close>

theorem scheduleDueRuns_keeps_invariant:
  assumes "store_inv d" "scheduleDueRuns provider rids load now sqlnow d = (e, d')"
  shows "store_inv d'"
  using inv_due_loop assms unfolding scheduleDueRuns_def by blast

lemma due_query_Some:
  assumes "due_query now d = Some (s, sv)"
  shows "(s, sv) \<in> set (due_rows now d)" "s \<in> set (schedules d)" "sch_current_version_id s = Some (sv_id sv)" "sch_enabled s"
    "sch_next_fire_at s = Some t \<Longrightarrow> t \<le> now"
    "\<not> (sv_concurrency_policy sv = ''ALLOW'' \<and> sv_max_concurrent_runs sv > 0
               \<and> int (active_runs (sv_id sv) d) \<ge> sv_max_concurrent_runs sv)"
    "\<not> (sv_concurrency_policy sv = ''QUEUE'' \<and> active_runs (sv_id sv) d > 0)"
  using sql_first_Some [OF assms [unfolded due_query_def]] by (auto simp: due_rows_def current_versions_def)

lemma due_query_None: "due_query now d = None \<longleftrightarrow> due_rows now d = []"
  using sort_key_Nil [of "\<lambda>(s, sv). (sch_next_fire_at s = None, coalesce (sch_next_fire_at s) 0, sch_id s)" "due_rows now d"]
  by (auto simp: due_query_def sql_first_def split: list.splits)

section \<open>The interface to the cron evaluator\<close>

text \<open>All the store relies on: a next firing is later than the instant it was asked for.\<close>

locale next_fire =
  fixes nxt :: "DueScheduleRecord \<Rightarrow> time option"
  assumes nxt_later: "nxt due = Some t \<Longrightarrow> ds_NextFireAt due < t"
begin

lemma createDueRun_advances:
  assumes "createDueRun rid nxt now sqlnow d = Inr ((x, changed), d')"
  shows "if changed
         then \<exists>s sv t. (s, sv) \<in> set (due_rows now d) \<and> coalesce (sch_next_fire_at s) now < t
                \<and> schedules d' = sql_update (\<lambda>s'. sch_id s' = sch_id s) (\<lambda>s. s\<lparr>sch_next_fire_at := Some t\<rparr>) (schedules d)
         else due_rows now d = [] \<and> d' = d"
  using assms
proof (cases rule: createDueRun_Inr)
  case none
  then show ?thesis using due_query_None by simp
next
  case (due s sv due nextFire)
  note q = due_query_Some [OF due(1)]
  have "changed \<and> schedules d' = sql_update (\<lambda>s'. sch_id s' = sch_id s) (\<lambda>s. s\<lparr>sch_next_fire_at := Some nextFire\<rparr>) (schedules d)"
  proof (cases "sch_next_fire_at s = None")
    case False
    then have le: "ds_NextFireAt due \<le> now" using q(5) due(3) by (auto simp: coalesce_def)
    have nf: "fl = nextFire" if "chooseDueOccurrence due now nextFire nxt = Inr (occ, fl)" for occ fl
      using chooseDueOccurrence_cases [OF that le] by simp
    have "\<not> held_back due" using q(6,7) due(4-6) by (simp add: held_back_def)
    moreover have "fire_schedule rid nxt now sqlnow (loadGlobalVariables d) due nextFire d = Inr ((x, changed), d')"
      using due(10) False by simp
    note fire_schedule_Inr [OF this]
    ultimately show ?thesis using due(2) by (auto simp: insert_run_once_Inr(3) dest: nf)
  qed (use due(10) in simp)
  then show ?thesis using q(1) due(3,9) by auto
qed

lemma never_stuck: "createDueRun rid nxt now sqlnow d \<noteq> Inl ENextStuck"
proof
  assume a: "createDueRun rid nxt now sqlnow d = Inl ENextStuck"
  have m: "missed_loop nxt due now c n ms \<noteq> Inl ENextStuck" for due c n ms
    by (induction n arbitrary: ms) (auto split: option.splits)
  have c: "chooseDueOccurrence due now t nxt \<noteq> Inl ENextStuck" for due t
    using m by (auto simp: chooseDueOccurrence_def res_bind_def Let_def nth_time_def split: sum.splits)
  have f: "fire_schedule rid nxt now sqlnow vars due t d \<noteq> Inl ENextStuck" for vars due t
    using c by (auto simp: fire_schedule_def res_bind_def Let_def insert_run_once_def insert_run_def split: sum.splits option.splits)
  show False
    using a f unfolding createDueRun_def Let_def
    by (auto simp: res_bind_def undefined_error_def split: option.splits sum.splits if_splits dest!: nxt_later)
qed

end

interpretation cron: next_fire "cron_next load" for load
  by unfold_locales (auto simp: cron_next_def dest: NextFire_after split: sum.splits)


section \<open>Replaced runs\<close>

text \<open>A run being cancelled that has no attempt in flight.\<close>

definition orphaned :: "run_row \<Rightarrow> db \<Rightarrow> bool" where
  "orphaned r d \<longleftrightarrow>
     r \<in> set (runs d) \<and> run_state r = CANCELLING \<and> (\<forall>a \<in> set (attempts d). att_run_id a = run_id r \<longrightarrow> \<not> live a)"

lemma orphaned_update:
  assumes "orphaned r d" "runs d' = sql_update P g (runs d)" "\<not> P r" "attempts d' = sql_update Q f (attempts d)"
    and "\<And>a. a \<in> set (attempts d) \<Longrightarrow> Q a \<Longrightarrow> att_run_id (f a) = run_id r \<Longrightarrow> \<not> live (f a)"
  shows "orphaned r d'"
  using assms sql_update_keeps unfolding orphaned_def by (auto elim!: in_sql_updateE)

lemma orphaned_touch:
  assumes "orphaned r d" "store_inv d" "a \<in> set (attempts d)" "att_run_id a \<noteq> run_id r"
    and "runs d' = sql_update P g (runs d)" "\<not> P r"
    and "attempts d' = sql_update (\<lambda>x. att_id x = att_id a) f (attempts d)" "\<And>x. att_run_id (f x) = att_run_id x"
  shows "orphaned r d'"
  by (rule orphaned_update [OF assms(1,5,6,7)]) (use inv_unique_attempt [OF assms(2,3)] assms(4,8) in auto)

lemma orphaned_same: "orphaned r d \<Longrightarrow> runs d' = runs d \<Longrightarrow> attempts d' = attempts d \<Longrightarrow> orphaned r d'"
  by (simp add: orphaned_def)

lemma orphaned_ClaimWaiting:
  assumes "ClaimWaiting digest token fresh clock now build d = Inr (res, d')" "store_inv d" "orphaned r d"
  shows "orphaned r d'"
proof (cases res)
  case None
  then have "d' = d"
    using assms(1) unfolding ClaimWaiting_def by (auto simp: res_bind_Inr split: option.splits if_splits)
  then show ?thesis using assms(3) by simp
next
  case (Some c)
  from assms(1) [unfolded Some] show ?thesis
  proof (rule ClaimWaiting_Inr)
    fix r' tv t rr rp rs builder envelope
    assume q: "claim_query now d = Some (r', tv, t, rr, rp, rs)"
      and c: "build_candidate digest token clock d (r', tv, t, rr, rp, rs) = Inr c"
      and dc: "dispatch_candidate now fresh envelope c d = Inr d'"
    have "run_id r' \<noteq> run_id r"
      using claim_query_Some(1,4) [OF q] assms(2,3) distinct_map_eq_key [of run_id "runs d" r' r]
      by (auto simp: inv_defs orphaned_def run_claimable_def)
    then have n: "dc_RunID c \<noteq> run_id r" using build_candidate_Inr(1) [OF c] by simp
    have "r \<in> set (runs d')"
      unfolding dispatch_candidate_runs(1) [OF dc] by (rule sql_update_keeps) (use n assms(3) in \<open>auto simp: orphaned_def\<close>)
    then show ?thesis
      using assms(3) n by (auto simp: orphaned_def dispatch_candidate_runs(2) [OF dc] new_attempt_def)
  qed
qed

lemma orphaned_ClaimStart:
  assumes "ClaimStart now inp d = Inr (g, d')" "store_inv d" "orphaned r d"
  shows "orphaned r d'"
proof (cases "snd g")
  case False
  then have "d' = d" using assms(1) unfolding ClaimStart_def by (auto split: if_splits option.splits prod.splits)
  then show ?thesis using assms(3) by simp
next
  case True
  then obtain t where "ClaimStart now inp d = Inr ((t, True), d')" using assms(1) by (cases g) auto
  then show ?thesis
  proof (rule ClaimStart_granted)
    fix r' a
    assume ra: "(r', a) \<in> set (run_attempts d)" "claim_matches inp r' a"
      and e: "run_state r' = RUNNING \<and> att_state a = A_RUNNING \<and> d' = d
       \<or> run_state r' = DISPATCHED \<and> att_state a \<in> {A_DISPATCHED, A_ACCEPTED} \<and> now < att_lease_not_after a
         \<and> (\<exists>deadline. start_deadline r' a = Some deadline \<and> now < deadline)
         \<and> d' = update_run (\<lambda>r'. run_id r' = sc_RunID inp \<and> run_state r' = DISPATCHED) (set_run_state RUNNING now)
                  (update_attempt (\<lambda>a'. att_id a' = att_id a)
                     (\<lambda>a'. a'\<lparr>att_state := A_RUNNING, att_accepted_at := Some (coalesce (att_accepted_at a') now),
                            att_started_at := Some (coalesce (att_started_at a') now),
                            att_last_sequence := max (att_last_sequence a') 1,
                            att_state_version := att_state_version a' + 1\<rparr>) d)"
    have r': "r' \<in> set (runs d)" "a \<in> set (attempts d)" "att_run_id a = run_id r'" using ra(1) by (simp_all add: run_attempts_set)
    show ?thesis
    proof (cases "d' = d")
      case False
      then have "run_id r' \<noteq> run_id r"
        using e r'(1) assms(2,3) distinct_map_eq_key [of run_id "runs d" r' r] by (auto simp: inv_defs orphaned_def)
      then show ?thesis
        using e False r'(3) assms(3)
        by (intro orphaned_touch [OF assms(3,2) r'(2), where d' = d' and P = "\<lambda>r'. run_id r' = sc_RunID inp \<and> run_state r' = DISPATCHED"
              and g = "set_run_state RUNNING now" and f = "\<lambda>a'. a'\<lparr>att_state := A_RUNNING, att_accepted_at := Some (coalesce (att_accepted_at a') now),
                            att_started_at := Some (coalesce (att_started_at a') now),
                            att_last_sequence := max (att_last_sequence a') 1,
                            att_state_version := att_state_version a' + 1\<rparr>"])
          (simp_all add: update_run_def update_attempt_def orphaned_def)
    qed (use assms(3) in simp)
  qed
qed

lemma orphaned_ApplyRunEvent:
  assumes "ApplyRunEvent sha clock now event d = Inr d'" "store_inv d" "orphaned r d"
  shows "orphaned r d'"
  using assms(1)
proof (rule ApplyRunEvent_Inr)
  fix a row
  let ?d = "d\<lparr>inbox := inbox d @ [row]\<rparr>" and ?e = "event_time clock event"
  assume a: "event_attempt ?e d = Some a"
    and "d' = d \<and> (\<exists>i \<in> set (inbox d). in_event_id i = re_EventID event)
      \<or> re_EventType event = ''log_chunk'' \<and> applyLogChunkEvent sha ?e (att_id a) ?d = Inr d'
      \<or> re_EventType event \<noteq> ''log_chunk'' \<and> apply_state_event sha now ?e a ?d = Inr d'"
  then consider "d' = d" | "applyLogChunkEvent sha ?e (att_id a) ?d = Inr d'" | "apply_state_event sha now ?e a ?d = Inr d'" by blast
  then show ?thesis
  proof cases
    case 2
    then show ?thesis using orphaned_same [OF assms(3)] applyLogChunk_simps [OF 2] by simp
  next
    case 3
    note a1 = event_attempt_Some [OF a]
    from touches_state_event [OF 3] show ?thesis
    proof
      assume t: "touches (att_id a) (re_RunID ?e) (Some (re_Sequence ?e)) ?d d' \<and> att_last_sequence a < re_Sequence ?e
        \<and> legalAttemptTransition (att_state a) (re_EventType ?e)"
      then obtain f P g where f: "attempts d' = sql_update (\<lambda>x. att_id x = att_id a) f (attempts d)" "\<And>x. same_attempt (f x) x"
        and g: "runs d' = sql_update P g (runs d)" "\<And>r. P r \<Longrightarrow> run_id r = re_RunID event"
        unfolding touches_def by auto
      have "live a" using t legal_live by (auto simp: live_def)
      then have n: "re_RunID event \<noteq> run_id r" using a1 assms(3) by (auto simp: orphaned_def)
      then have "\<not> P r" using g(2) [of r] by auto
      then show ?thesis
        by (intro orphaned_touch [OF assms(3,2) a1(1) _ g(1) _ f(1)]) (use n a1(2) f(2) in \<open>auto simp: same_attempt_def\<close>)
    qed (use orphaned_same [OF assms(3)] in simp)
  qed (use assms(3) in simp)
qed

lemma orphaned_reconcile_dispatch:
  assumes "reconcile_dispatch now sqlnow c d = Inr d'" "orphaned r d"
  shows "orphaned r d'"
proof -
  from assms(1) have e: "runs d' = sql_update (\<lambda>r. run_id r = td_runID c \<and> run_state r \<in> {DISPATCHED, RUNNING}) (td_run now sqlnow c) (runs d)"
    "attempts d' = sql_update (\<lambda>a. att_id a = td_attemptID c) (td_attempt now c) (attempts d)"
    using insert_event_simps(1,2) unfolding reconcile_dispatch_def Let_def
    by (auto simp: res_bind_Inr update_run_def update_attempt_def)
  show ?thesis by (rule orphaned_update [OF assms(2) e(1) _ e(2)]) (use assms(2) in \<open>auto simp: orphaned_def\<close>)
qed

lemma orphaned_dispatches: "reconcile_dispatches now sqlnow cs d = Inr d' \<Longrightarrow> orphaned r d \<Longrightarrow> orphaned r d'"
  by (induction cs arbitrary: d) (auto simp: res_bind_Inr intro: orphaned_reconcile_dispatch)

lemma orphaned_reconcile_cancellation:
  assumes "reconcile_cancellation clock sqlnow c d = Inr d'" "orphaned r d" "sn_runID c \<noteq> run_id r"
  shows "orphaned r d'"
proof -
  from assms(1) have e: "runs d' = sql_update (\<lambda>r. run_id r = sn_runID c \<and> run_state r = CANCELLING) (sn_run clock sqlnow c) (runs d)"
    "attempts d' = sql_update (\<lambda>a. att_id a = sn_attemptID c) (sn_attempt clock c) (attempts d)"
    using insert_event_simps(1,2) unfolding reconcile_cancellation_def Let_def
    by (auto simp: res_bind_Inr update_run_def update_attempt_def)
  show ?thesis by (rule orphaned_update [OF assms(2) e(1) _ e(2)]) (use assms(3) in auto)
qed

lemma orphaned_cancellations:
  "reconcile_cancellations clock sqlnow cs d = Inr d' \<Longrightarrow> orphaned r d \<Longrightarrow> (\<And>c. c \<in> set cs \<Longrightarrow> sn_runID c \<noteq> run_id r)
   \<Longrightarrow> orphaned r d'"
  by (induction cs arbitrary: d) (auto simp: res_bind_Inr intro: orphaned_reconcile_cancellation)

lemma orphaned_stale:
  assumes "ReconcileStaleCancellations cutoff clock sqlnow d = Inr d'" "orphaned r d"
  shows "orphaned r d'"
proof -
  have "sn_runID c \<noteq> run_id r" if "c \<in> set (stale_rows cutoff d)" for c
    using that by (rule stale_row) (use assms(2) in \<open>auto simp: orphaned_def\<close>)
  then show ?thesis
    using assms by (auto simp: ReconcileStaleCancellations_def split: if_splits intro: orphaned_cancellations)
qed

lemma orphaned_updated_run:
  assumes "updated_run ident P f d = Inr (res, d')" "orphaned r d" "\<not> P r"
  shows "orphaned r d'"
proof (cases "d' = d")
  case False
  then have e: "runs d' = sql_update (\<lambda>r. run_id r = ident \<and> P r) f (runs d)" "attempts d' = attempts d"
    using assms(1) by (auto simp: updated_run_def Let_def update_run_def split: if_splits)
  have "attempts d' = sql_update (\<lambda>_. False) id (attempts d)" using e(2) by (simp add: sql_update_False)
  then show ?thesis by (rule orphaned_update [OF assms(2) e(1), rotated]) (use assms(3) in simp_all)
qed (use assms(2) in simp)

lemma orphaned_more:
  assumes "orphaned r d" "set (runs d) \<subseteq> set (runs d')" "attempts d' = attempts d"
  shows "orphaned r d'"
  using assms by (auto simp: orphaned_def)

lemma orphaned_create: "orphaned r d \<Longrightarrow> RunStore_Create provider clock now def0 d = Inr (x, d') \<Longrightarrow> orphaned r d'"
  by (erule orphaned_more) (auto simp: RunStore_Create_def insert_run_def insert_event_def Let_def res_bind_Inr split: if_splits option.splits)

lemma orphaned_append_event: "orphaned r d \<Longrightarrow> AppendEvent clock e d = Inr d' \<Longrightarrow> orphaned r d'"
  by (erule orphaned_more) (auto simp: AppendEvent_def insert_event_def Let_def res_bind_Inr split: if_splits option.splits)

lemma orphaned_append_log: "orphaned r d \<Longrightarrow> AppendLogChunk sha clock l d = Inr d' \<Longrightarrow> orphaned r d'"
  by (erule orphaned_more) (auto simp: AppendLogChunk_def Let_def res_bind_Inr split: if_splits option.splits)

lemma orphaned_outbox: "orphaned r d \<Longrightarrow> orphaned r (MarkDispatchPublished now mid d)"
    "orphaned r d \<Longrightarrow> orphaned r (RetryDispatch now mid err d)"
  by (erule orphaned_more; simp add: MarkDispatchPublished_def RetryDispatch_def)+

lemma orphaned_create_attempt: "orphaned r d \<Longrightarrow> CreateAttempt a d = Inr d' \<Longrightarrow> orphaned r d'"
  by (auto simp: orphaned_def CreateAttempt_def insert_attempt_def insert_event_def Let_def res_bind_Inr live_def
      split: if_splits option.splits)

lemmas orphaned_others = orphaned_create orphaned_append_event orphaned_append_log orphaned_create_attempt

lemma orphaned_ClaimCancelling:
  assumes "ClaimCancelling now build d = Inr (res, d')" "orphaned r d"
  shows "orphaned r d'"
proof -
  have "runs d' = runs d"
    using assms(1) unfolding ClaimCancelling_def Let_def by (auto split: option.splits prod.splits if_splits)
  moreover have "\<exists>a \<in> set (attempts d). att_run_id a = att_run_id b \<and> (live b \<longleftrightarrow> live a)" if b: "b \<in> set (attempts d')" for b
  proof -
    have "\<exists>a \<in> set (attempts d). att_run_id a = att_run_id b \<and> (live b \<longleftrightarrow> live a)"
      if "b \<in> set (sql_update Q (\<lambda>a'. a'\<lparr>att_cancel_requested_at := Some now\<rparr>) (attempts d))" for Q
      using that by (auto simp: live_def elim!: in_sql_updateE)
    then show ?thesis
      using assms(1) b unfolding ClaimCancelling_def Let_def
      by (auto simp: update_attempt_def split: option.splits prod.splits if_splits)
  qed
  ultimately show ?thesis using assms(2) unfolding orphaned_def by metis
qed

lemma orphaned_store_step:
  assumes "store_step d d'" "store_inv d" "orphaned r d"
  shows "orphaned r d'"
  using assms(1)
proof cases
  case (request_cancellation now ident reason x)
  then have n: "TrimSpace reason \<noteq> []" by (auto simp: RequestCancellation_def)
  show ?thesis
    by (rule orphaned_updated_run [OF request_cancellation [unfolded RequestCancellation_def Let_def if_not_P [OF n]] assms(3)])
      (use assms(3) in \<open>simp add: orphaned_def\<close>)
next
  case (retry now ident reason x)
  then show ?thesis
    using orphaned_updated_run [OF retry [unfolded RunStore_Retry_def] assms(3)] assms(3) by (auto simp: orphaned_def)
next
  case (timed_out clock now)
  then show ?thesis
    using assms(3) by (auto simp: ReconcileTimedOutDispatches_def split: if_splits intro: orphaned_dispatches)
next
  case (published now mid)
  then show ?thesis using orphaned_outbox(1) [OF assms(3)] by simp
next
  case (retry_dispatch now mid err)
  then show ?thesis using orphaned_outbox(2) [OF assms(3)] by simp
qed (use assms(2,3) in \<open>blast intro: orphaned_others orphaned_ClaimCancelling orphaned_stale orphaned_ApplyRunEvent
    orphaned_ClaimStart orphaned_ClaimWaiting\<close>)+

lemma orphaned_store_steps: "store_steps d d' \<Longrightarrow> store_inv d \<Longrightarrow> orphaned r d \<Longrightarrow> orphaned r d'"
  by (induction rule: store_steps.induct) (blast intro: orphaned_store_step inv_store_steps)+

text \<open>
  A replaced run that was still waiting never ends. The policy \<^verbatim>\<open>REPLACE\<close> puts waiting runs
  into the state \<^verbatim>\<open>CANCELLING\<close> too, but those have no attempt whose runner could confirm the
  cancellation: whatever the control plane does afterwards, the run stays there.
\<close>

theorem replaced_waiting_run_stuck:
  assumes "store_inv d" "r \<in> set (runs d)" "run_schedule_version_id r = Some v" "run_state r \<in> {WAITING, RETRY_WAIT}"
    and "store_steps (replace_active now v d) d'"
  shows "\<exists>x \<in> set (runs d'). run_id x = run_id r \<and> run_state x = CANCELLING"
proof -
  define x where "x = (set_run_state CANCELLING now r)
      \<lparr>run_cancellation_requested_at := Some (coalesce (run_cancellation_requested_at r) now),
       run_cancellation_reason := Some ''schedule replacement''\<rparr>"
  have "x \<in> set (runs (replace_active now v d))"
    unfolding replace_active_def update_run_def x_def using assms(2-4) by (auto simp: set_sql_update intro!: image_eqI [of _ _ r])
  moreover have "\<not> live a" if "a \<in> set (attempts d)" "att_run_id a = run_id r" for a
    using no_live_attempt [OF assms(1,2) _ that(1)] that(2) assms(4) by (auto simp: in_flight_def)
  moreover have "attempts (replace_active now v d) = attempts d" by (simp add: replace_active_def)
  ultimately have "orphaned x (replace_active now v d)" by (simp add: orphaned_def x_def)
  from orphaned_store_steps [OF assms(5) inv_replace_active [OF assms(1)] this] show ?thesis
    unfolding orphaned_def by (intro bexI [of _ x]) (simp_all add: x_def)
qed

definition sample_scheduled :: db where
  "sample_scheduled = sample_db\<lparr>runs := map (\<lambda>r. r\<lparr>run_schedule_version_id := Some ''nightly-v1''\<rparr>) (runs sample_db)\<rparr>"

theorem replaced_waiting_run_stuck_witness:
  "\<exists>x \<in> set (runs (replace_active 500 ''nightly-v1'' sample_scheduled)). run_id x = ''run'' \<and> run_state x = CANCELLING"
proof -
  have inv: "store_inv sample_scheduled" by (simp add: inv_defs sample_scheduled_def sample_db_def new_run_def live_on_def)
  have "list_ex (\<lambda>r. run_id r = ''run'' \<and> run_schedule_version_id r = Some ''nightly-v1'' \<and> run_state r = WAITING) (runs sample_scheduled)"
    by code_simp
  then obtain r where r: "r \<in> set (runs sample_scheduled)" "run_id r = ''run''" "run_schedule_version_id r = Some ''nightly-v1''"
    "run_state r = WAITING" by (auto simp: list_ex_iff)
  from replaced_waiting_run_stuck [OF inv r(1,3) _ store_steps.start] r(2,4) show ?thesis by auto
qed

section \<open>A sample schedule\<close>

definition cron_db :: "string \<Rightarrow> db \<Rightarrow> db" where
  "cron_db policy d = d\<lparr>
     schedules := [\<lparr>sch_id = ''nightly'', sch_task_id = ''task'', sch_current_version_id = Some ''nightly-v1'', sch_name = ''Nightly'',
         sch_enabled = True, sch_next_fire_at = Some (5 * minute)\<rparr>],
     schedule_versions := [\<lparr>sv_id = ''nightly-v1'', sv_schedule_id = ''nightly'', sv_task_id = ''task'', sv_version = 1,
         sv_task_version_id = ''task-v1'', sv_expression = ''* * * * *'', sv_timezone = ''UTC'', sv_misfire_policy = ''SKIP_ALL'',
         sv_catchup_limit = 0, sv_start_deadline_seconds = 60, sv_concurrency_policy = policy, sv_max_concurrent_runs = 0\<rparr>]\<rparr>"

definition utc_only :: "string \<Rightarrow> Location option" where
  "utc_only name = (if name = ''UTC'' then Some (\<lambda>_. 0) else None)"

definition sample_round :: "db \<Rightarrow> store_error option \<times> db" where
  "sample_round d = scheduleDueRuns None (\<lambda>i. Some (''run-'' @ show_nat i)) utc_only (5 * minute) (5 * minute) d"

theorem scheduleDueRuns_keeps_invariant_witness:
  "store_inv (snd (sample_round (cron_db ''ALLOW'' sample_db)))
   \<and> map run_id (runs (snd (sample_round (cron_db ''ALLOW'' sample_db)))) = [''run'', ''run-99'']"
proof
  have "store_inv (cron_db ''ALLOW'' sample_db)" by (rule store_inv_cong [OF sample_inv]) (simp_all add: cron_db_def)
  then show "store_inv (snd (sample_round (cron_db ''ALLOW'' sample_db)))"
    by (rule scheduleDueRuns_keeps_invariant [where e = "fst (sample_round (cron_db ''ALLOW'' sample_db))"])
      (simp add: sample_round_def)
  show "map run_id (runs (snd (sample_round (cron_db ''ALLOW'' sample_db)))) = [''run'', ''run-99'']" by code_simp
qed

definition dispatched_run :: "db \<Rightarrow> db" where
  "dispatched_run d = d\<lparr>runs := map (\<lambda>r. r\<lparr>run_schedule_version_id := Some ''nightly-v1'', run_state := DISPATCHED\<rparr>) (runs d)\<rparr>"

text \<open>
  The policies \<^verbatim>\<open>SKIP\<close> and \<^verbatim>\<open>QUEUE\<close> overlook dispatched runs. The number of active
  runs that they test does not count runs in the state \<^verbatim>\<open>DISPATCHED\<close>, so a second run of the
  schedule is created while the first is on its way to a runner.
\<close>

theorem skip_overlaps_dispatched:
  "map (\<lambda>r. (run_id r, run_state r)) (runs (snd (sample_round (cron_db ''SKIP'' (dispatched_run sample_db)))))
     = [(''run'', DISPATCHED), (''run-99'', WAITING)]
   \<and> map (\<lambda>r. (run_id r, run_state r)) (runs (snd (sample_round (cron_db ''QUEUE'' (dispatched_run sample_db)))))
     = [(''run'', DISPATCHED), (''run-99'', WAITING)]"
  by code_simp

section \<open>Versions of schedules\<close>

lemma record_references_only:
  assumes "record_references kind owner names seen d = Inr d'"
  shows "\<exists>refs. d' = d\<lparr>variable_references := variable_references d @ refs\<rparr>"
  using assms
proof (induction names arbitrary: seen d)
  case Nil
  then show ?case by (intro exI [of _ "[]"]) simp
next
  case (Cons n ns)
  show ?case
  proof (cases "ToLower n \<in> set seen")
    case False
    with Cons.prems obtain m v where "record_references kind owner ns (ToLower n # seen)
        (if (m, kind, owner) \<in> set (variable_references d) then d
         else d\<lparr>variable_references := variable_references d @ [(m, kind, owner)]\<rparr>) = Inr d'"
      by (auto simp: Let_def split: option.splits)
    from Cons.IH [OF this] show ?thesis
    proof
      fix refs
      assume "d' = (if (m, kind, owner) \<in> set (variable_references d) then d
         else d\<lparr>variable_references := variable_references d @ [(m, kind, owner)]\<rparr>)
           \<lparr>variable_references := variable_references (if (m, kind, owner) \<in> set (variable_references d) then d
         else d\<lparr>variable_references := variable_references d @ [(m, kind, owner)]\<rparr>) @ refs\<rparr>"
      then show ?thesis
        by (intro exI [of _ "(if (m, kind, owner) \<in> set (variable_references d) then [] else [(m, kind, owner)]) @ refs"]) simp
    qed
  qed (use Cons in simp)
qed

lemma foldr_max_le: "x \<in> set xs \<Longrightarrow> (f x :: int) \<le> foldr (\<lambda>y m. max (f y) m) xs b"
  by (induction xs) auto

lemma max_schedule_version_ge: "sv \<in> set (schedule_versions d) \<Longrightarrow> sv_schedule_id sv = i \<Longrightarrow> sv_version sv \<le> max_schedule_version i d"
  unfolding max_schedule_version_def by (rule foldr_max_le) simp

text \<open>
  Updating a schedule appends a version. The versions there were are unchanged, the new one has
  a higher number than any other of the schedule, carries the definition given, and becomes current.
\<close>

theorem ScheduleStore_Update_appends:
  assumes "ScheduleStore_Update load ident def0 d = Inr (item, d')"
  shows "\<exists>sv. schedule_versions d' = schedule_versions d @ [sv] \<and> sv_schedule_id sv = ident
     \<and> (\<forall>sv' \<in> set (schedule_versions d). sv_schedule_id sv' = ident \<longrightarrow> sv_version sv' < sv_version sv)
     \<and> sv_expression sv = sd_Expression def0 \<and> sv_start_deadline_seconds sv \<ge> 30
     \<and> (\<forall>s \<in> set (schedules d'). sch_id s = ident \<longrightarrow> sch_current_version_id s = Some (sv_id sv) \<and> sch_enabled s = sd_Enabled def0)
     \<and> runs d' = runs d"
proof -
  define def1 where "def1 = (normalizeScheduleDefinition def0)\<lparr>sd_ID := ident\<rparr>"
  from assms obtain s where v: "validateScheduleDefinition load def1 = Inr ()" and
    s: "find_row (\<lambda>s. sch_id s = ident) (schedules d) = Some s"
    unfolding ScheduleStore_Update_def Let_def def1_def by (auto simp: res_bind_Inr split: option.splits)
  define def2 where "def2 = (if sd_TaskID def1 = [] then def1\<lparr>sd_TaskID := sch_task_id s\<rparr> else def1)"
  define version where "version = max_schedule_version ident d + 1"
  from assms s obtain tv d1 d2 where
      d1: "insertScheduleVersion ident (sd_TaskID def2) version tv def2 d = Inr d1"
    and d2: "recordGlobalVariableReferences ''schedule_version'' (ident @ ''-v'' @ Itoa version)
               [sd_Expression def2, sd_Timezone def2, sd_Name def2] d1 = Inr d2"
    and d': "d' = set_schedule ident (\<lambda>s. s\<lparr>sch_task_id := sd_TaskID def2, sch_name := sd_Name def2,
               sch_enabled := sd_Enabled def2, sch_current_version_id := Some (ident @ ''-v'' @ Itoa version),
               sch_next_fire_at := sd_NextFireAt def2\<rparr>) d2"
    unfolding ScheduleStore_Update_def Let_def def1_def [symmetric]
    by (auto simp: res_bind_Inr def2_def version_def split: option.splits)
  from d2 obtain refs where e2: "d2 = d1\<lparr>variable_references := variable_references d1 @ refs\<rparr>"
    unfolding recordGlobalVariableReferences_def using record_references_only by blast
  from d1 obtain sv where e1: "d1 = d\<lparr>schedule_versions := schedule_versions d @ [sv]\<rparr>" "sv_schedule_id sv = ident"
      "sv_version sv = version" "sv_id sv = ident @ ''-v'' @ Itoa version" "sv_expression sv = sd_Expression def2"
      "sv_start_deadline_seconds sv = sd_DeadlineSeconds def2"
    unfolding insertScheduleVersion_def by (auto split: if_splits)
  have "sd_Expression def2 = sd_Expression def0" "sd_Enabled def2 = sd_Enabled def0" "sd_DeadlineSeconds def2 = sd_DeadlineSeconds def1"
    by (simp_all add: def2_def def1_def normalizeScheduleDefinition_def)
  moreover have "sd_DeadlineSeconds def1 \<ge> 30"
    using v by (auto simp: validateScheduleDefinition_def minimumStartDeadlineSeconds_def split: if_splits)
  ultimately show ?thesis
    using e1 e2 d' max_schedule_version_ge
    by (intro exI [of _ sv]) (fastforce simp: version_def set_schedule_def set_sql_update)
qed

definition sample_update :: ScheduleDefinition where
  "sample_update = \<lparr>sd_ID = [], sd_Name = ''Nightly'', sd_TaskID = ''task'', sd_Expression = ''0 2 * * *'', sd_Timezone = [],
     sd_Enabled = True, sd_NextFireAt = None, sd_MisfirePolicy = [], sd_ConcurrencyPolicy = [], sd_CatchupLimit = 0,
     sd_DeadlineSeconds = 0, sd_MaxConcurrentRuns = 0\<rparr>"

theorem ScheduleStore_Update_appends_witness:
  "\<exists>item d'. ScheduleStore_Update utc_only ''nightly'' sample_update (cron_db ''ALLOW'' sample_db) = Inr (item, d')
     \<and> runs d' = runs (cron_db ''ALLOW'' sample_db) \<and> sr_ActiveVersion item = 2"
proof -
  have "case ScheduleStore_Update utc_only ''nightly'' sample_update (cron_db ''ALLOW'' sample_db) of
          Inl _ \<Rightarrow> False | Inr (item, _) \<Rightarrow> sr_ActiveVersion item = 2" by code_simp
  then obtain item d' where ok: "ScheduleStore_Update utc_only ''nightly'' sample_update (cron_db ''ALLOW'' sample_db) = Inr (item, d')"
    "sr_ActiveVersion item = 2" by (auto split: sum.splits)
  then show ?thesis using ScheduleStore_Update_appends [OF ok(1)] by blast
qed

end
