(* ===== verification/SchedulePolicy.thy ===== *)
theory SchedulePolicy
  imports Prelude "HOL-Library.AList"
begin

text \<open>
  Schedule policies (\<^verbatim>\<open>controlplane/policy.go\<close>) and the in-memory queue of interval schedules
  (\<^verbatim>\<open>controlplane/due.go\<close>). Policies are the strings of the code. A Go map that is ranged over
  is a list: its order stands for the unspecified order of the range. The loop that moves a
  schedule past \<open>now\<close> need not end for every interval, so it is a partial function; that it
  ends for every schedule the queue can hold is proved.
\<close>

section \<open>Policies\<close>

record SchedulePolicy =
  sp_Misfire :: string
  sp_Concurrency :: string
  sp_MaxConcurrentRuns :: int
  sp_CatchUpLimit :: int
  sp_StartDeadline :: duration
  sp_ExecutionTimeout :: duration

datatype policy_error = UnsupportedMisfire | MaxOnlyForAllow | AllowNeedsMax | UnsupportedConcurrency | InvalidDeadlines

definition SchedulePolicy_Validate :: "SchedulePolicy \<Rightarrow> policy_error + unit" where
  "SchedulePolicy_Validate p =
     (if sp_Misfire p \<notin> {''SKIP_ALL'', ''RUN_LATEST'', ''RUN_ALL'', ''RUN_UP_TO_N'', ''FAIL_AND_ALERT''} then Inl UnsupportedMisfire
      else if sp_Concurrency p \<in> {''QUEUE'', ''SKIP'', ''REPLACE''} \<and> sp_MaxConcurrentRuns p \<noteq> 0 then Inl MaxOnlyForAllow
      else if sp_Concurrency p = ''ALLOW'' \<and> sp_MaxConcurrentRuns p < 1 then Inl AllowNeedsMax
      else if sp_Concurrency p \<notin> {''QUEUE'', ''SKIP'', ''REPLACE'', ''ALLOW''} then Inl UnsupportedConcurrency
      else if sp_StartDeadline p < 0 \<or> sp_ExecutionTimeout p \<le> 0 \<or> sp_CatchUpLimit p < 0 then Inl InvalidDeadlines
      else Inr ())"

text \<open>\<^verbatim>\<open>Time.Sub\<close> saturates at the limits of a duration.\<close>

definition time_sub :: "time \<Rightarrow> time \<Rightarrow> duration" where
  "time_sub t u = max (- (2 ^ 63)) (min (2 ^ 63 - 1) (t - u))"

definition OccurrencesDue :: "SchedulePolicy \<Rightarrow> time \<Rightarrow> time \<Rightarrow> duration \<Rightarrow> int \<Rightarrow> policy_error + int" where
  "OccurrencesDue p now nxt interval active =
     res_bind (SchedulePolicy_Validate p) (\<lambda>_.
       if interval \<le> 0 \<or> \<not> nxt < now then Inr 0
       else if sp_Concurrency p = ''SKIP'' \<and> active > 0 then Inr 0
       else if sp_Concurrency p = ''REPLACE'' \<and> active > 0 then Inr 1
       else (let count = wrap64 (quot (time_sub now nxt) interval + 1)
             in if sp_Misfire p = ''SKIP_ALL'' then Inr 1
                else if sp_Misfire p = ''RUN_LATEST'' then Inr 1
                else if sp_Misfire p = ''RUN_UP_TO_N''
                then (let limit = (if sp_CatchUpLimit p = 0 then sp_MaxConcurrentRuns p else sp_CatchUpLimit p)
                      in if limit > 0 \<and> count > limit then Inr limit else Inr count)
                else Inr count))"

record ScheduleDecision =
  dec_Occurrences :: int
  dec_Skipped :: bool
  dec_Failed :: bool
  dec_Replaced :: bool
  dec_Deadline :: time

definition SchedulePolicy_Evaluate :: "SchedulePolicy \<Rightarrow> time \<Rightarrow> time \<Rightarrow> duration \<Rightarrow> int \<Rightarrow> policy_error + ScheduleDecision" where
  "SchedulePolicy_Evaluate p now nxt interval active =
     res_bind (OccurrencesDue p now nxt interval active) (\<lambda>occurrences.
       let failed = (sp_Misfire p = ''FAIL_AND_ALERT'' \<and> occurrences > 0)
       in Inr \<lparr>dec_Occurrences = (if failed then 0 else occurrences),
               dec_Skipped = (sp_Concurrency p = ''SKIP'' \<and> active > 0), dec_Failed = failed,
               dec_Replaced = (sp_Concurrency p = ''REPLACE'' \<and> active > 0),
               dec_Deadline = (if sp_StartDeadline p > 0 then nxt + sp_StartDeadline p else 0)\<rparr>)"

definition DeadlineExceeded :: "SchedulePolicy \<Rightarrow> time \<Rightarrow> time \<Rightarrow> bool" where
  "DeadlineExceeded p scheduled started \<longleftrightarrow> sp_StartDeadline p > 0 \<and> started > scheduled + sp_StartDeadline p"

definition AllowsConcurrency :: "SchedulePolicy \<Rightarrow> int \<Rightarrow> bool" where
  "AllowsConcurrency p active =
     (if sp_Concurrency p = ''QUEUE'' then active = 0
      else if sp_Concurrency p = ''SKIP'' then active = 0
      else if sp_Concurrency p = ''REPLACE'' then True
      else if sp_Concurrency p = ''ALLOW'' then active < sp_MaxConcurrentRuns p
      else False)"

text \<open>The reference: the occurrences \<open>nxt, nxt + interval, ...\<close> up to \<open>now\<close>.\<close>

definition missed_occurrences :: "time \<Rightarrow> time \<Rightarrow> duration \<Rightarrow> int set" where
  "missed_occurrences now nxt interval = {k. 0 \<le> k \<and> nxt + k * interval \<le> now}"

lemma le_div_pos: "0 < i \<Longrightarrow> k \<le> x div i \<longleftrightarrow> k * i \<le> (x :: int)"
proof
  assume i: "0 < i" and "k \<le> x div i"
  then have "k * i \<le> x div i * i" by simp
  also have "\<dots> \<le> x" using i pos_mod_sign [OF i, of x] by (simp add: div_mult_mod_eq [symmetric] minus_mod_eq_div_mult [symmetric])
  finally show "k * i \<le> x" .
next
  assume i: "0 < i" and "k * i \<le> x"
  then have "k * i div i \<le> x div i" by (intro zdiv_mono1)
  then show "k \<le> x div i" using i by simp
qed

lemma missed_occurrences_card:
  assumes "0 < interval" "nxt \<le> now"
  shows "int (card (missed_occurrences now nxt interval)) = (now - nxt) div interval + 1"
proof -
  have "missed_occurrences now nxt interval = {0..(now - nxt) div interval}"
    unfolding missed_occurrences_def using le_div_pos [OF assms(1)] by (auto simp: algebra_simps)
  moreover have "0 \<le> (now - nxt) div interval" using assms by (simp add: pos_imp_zdiv_nonneg_iff)
  ultimately show ?thesis by simp
qed

text \<open>
  Catching up, as the policy means it. For a valid policy that is not blocked by an active run, a
  schedule behind by less than 292 years has as many due occurrences as there are missed ones
  under \<^verbatim>\<open>RUN_ALL\<close> and \<^verbatim>\<open>FAIL_AND_ALERT\<close>, at most the limit of them under \<^verbatim>\<open>RUN_UP_TO_N\<close>, and one under
  \<^verbatim>\<open>SKIP_ALL\<close> and \<^verbatim>\<open>RUN_LATEST\<close>.
\<close>

theorem OccurrencesDue_counts:
  assumes "SchedulePolicy_Validate p = Inr ()" "0 < interval" "nxt < now" "now - nxt < 2 ^ 62"
    and "\<not> (sp_Concurrency p \<in> {''SKIP'', ''REPLACE''} \<and> active > 0)"
  shows "OccurrencesDue p now nxt interval active =
    (let missed = int (card (missed_occurrences now nxt interval));
         limit = (if sp_CatchUpLimit p = 0 then sp_MaxConcurrentRuns p else sp_CatchUpLimit p)
     in if sp_Misfire p \<in> {''SKIP_ALL'', ''RUN_LATEST''} then Inr 1
        else if sp_Misfire p = ''RUN_UP_TO_N'' \<and> limit > 0 then Inr (min limit missed)
        else Inr missed)"
proof -
  have s: "time_sub now nxt = now - nxt" using assms(3,4) by (simp add: time_sub_def)
  have "0 \<le> (now - nxt) div interval" using assms(2,3) by (simp add: pos_imp_zdiv_nonneg_iff)
  moreover have "(now - nxt) div interval \<le> now - nxt" using assms(2,3) by (simp add: int_div_le_self)
  ultimately have "in64 ((now - nxt) div interval + 1)" using assms(4) by (simp add: in64_def)
  then have "wrap64 (quot (time_sub now nxt) interval + 1) = int (card (missed_occurrences now nxt interval))"
    using assms(2,3) missed_occurrences_card [OF assms(2)] by (simp add: s quot_nonneg wrap64_id)
  then show ?thesis using assms unfolding OccurrencesDue_def Let_def by (auto simp: min_def)
qed

definition sample_policy :: "string \<Rightarrow> int \<Rightarrow> SchedulePolicy" where
  "sample_policy misfire limit = \<lparr>sp_Misfire = misfire, sp_Concurrency = ''ALLOW'', sp_MaxConcurrentRuns = 5, sp_CatchUpLimit = limit,
     sp_StartDeadline = 0, sp_ExecutionTimeout = 1\<rparr>"

theorem OccurrencesDue_counts_witness:
  "OccurrencesDue (sample_policy ''RUN_UP_TO_N'' 3) (10 * minute) (5 * minute) minute 1
     = Inr (min 3 (int (card (missed_occurrences (10 * minute) (5 * minute) minute))))
   \<and> OccurrencesDue (sample_policy ''RUN_UP_TO_N'' 3) (10 * minute) (5 * minute) minute 1 = Inr 3"
proof
  show "OccurrencesDue (sample_policy ''RUN_UP_TO_N'' 3) (10 * minute) (5 * minute) minute 1
     = Inr (min 3 (int (card (missed_occurrences (10 * minute) (5 * minute) minute))))"
    by (subst OccurrencesDue_counts) (simp_all add: sample_policy_def SchedulePolicy_Validate_def)
  show "OccurrencesDue (sample_policy ''RUN_UP_TO_N'' 3) (10 * minute) (5 * minute) minute 1 = Inr 3" by code_simp
qed

section \<open>The queue of interval schedules\<close>

record DueSchedule =
  du_ID :: string
  du_NextFire :: time
  du_Interval :: duration
  du_OccurrenceAt :: time

type_synonym DueScheduleQueue = "(string, DueSchedule) gomap"

definition NewDueScheduleQueue :: DueScheduleQueue where
  "NewDueScheduleQueue = []"

definition DueScheduleQueue_Add :: "DueSchedule \<Rightarrow> DueScheduleQueue \<Rightarrow> DueScheduleQueue" where
  "DueScheduleQueue_Add schedule q =
     (if du_ID schedule = [] \<or> du_Interval schedule \<le> 0 then q else AList.update (du_ID schedule) schedule q)"

partial_function (option) advance :: "time \<Rightarrow> duration \<Rightarrow> time \<Rightarrow> time option" where
  "advance now interval nxt = (if nxt > now then Some nxt else advance now interval (nxt + interval))"

text \<open>The outer \<open>None\<close> is a call that does not return, the inner one the result \<^verbatim>\<open>DueSchedule{}, false\<close>.\<close>

definition DueScheduleQueue_Claim :: "time \<Rightarrow> DueScheduleQueue \<Rightarrow> (DueSchedule option \<times> DueScheduleQueue) option" where
  "DueScheduleQueue_Claim now q =
     (case List.find (\<lambda>(_, s). \<not> du_NextFire s > now) q of
        None \<Rightarrow> Some (None, q)
      | Some (ident, s) \<Rightarrow>
          (case advance now (du_Interval s) (du_NextFire s) of
             None \<Rightarrow> None
           | Some t \<Rightarrow>
               Some (Some (s\<lparr>du_NextFire := t, du_OccurrenceAt := du_NextFire s\<rparr>),
                     AList.update ident (s\<lparr>du_NextFire := t\<rparr>) q)))"

lemma advance_returns:
  assumes "0 < interval"
  shows "\<exists>t k. advance now interval nxt = Some t \<and> 0 \<le> k \<and> t = nxt + k * interval \<and> now < t \<and> (nxt \<le> now \<longrightarrow> t - interval \<le> now)"
proof (induction "nat (now + 1 - nxt)" arbitrary: nxt rule: less_induct)
  case less
  show ?case
  proof (cases "nxt > now")
    case True
    then show ?thesis by (subst advance.simps) (auto intro!: exI [of _ "0 :: int"])
  next
    case False
    then have "nat (now + 1 - (nxt + interval)) < nat (now + 1 - nxt)" using assms by simp
    from less [OF this] obtain t k where t: "advance now interval (nxt + interval) = Some t" "0 \<le> k"
      "t = nxt + interval + k * interval" "now < t" "nxt + interval \<le> now \<longrightarrow> t - interval \<le> now" by blast
    have k: "t = nxt + (k + 1) * interval" using t(3) by (simp add: algebra_simps)
    have "t - interval \<le> now"
    proof (cases "nxt + interval \<le> now")
      case False
      then have "t = nxt + interval" using t(1) by (simp add: advance.simps)
      then show ?thesis using \<open>\<not> nxt > now\<close> by simp
    qed (use t(5) in simp)
    then show ?thesis using t(1,2,4) k False by (subst advance.simps) (auto intro!: exI [of _ "k + 1"])
  qed
qed

text \<open>The queues the operations can build.\<close>

inductive queue_reachable :: "DueScheduleQueue \<Rightarrow> bool" where
  new: "queue_reachable NewDueScheduleQueue"
| add: "queue_reachable q \<Longrightarrow> queue_reachable (DueScheduleQueue_Add s q)"
| claim: "queue_reachable q \<Longrightarrow> DueScheduleQueue_Claim now q = Some (r, q') \<Longrightarrow> queue_reachable q'"

definition queue_inv :: "DueScheduleQueue \<Rightarrow> bool" where
  "queue_inv q \<longleftrightarrow> distinct (map fst q) \<and> (\<forall>i s. (i, s) \<in> set q \<longrightarrow> du_ID s = i \<and> 0 < du_Interval s)"

lemma update_entry: "p \<in> set (AList.update k v al) \<Longrightarrow> p \<in> set al \<or> p = (k, v)"
  by (induction al) (auto split: if_splits)

lemma find_due: "List.find P xs = Some x \<Longrightarrow> x \<in> set xs \<and> P x"
  by (auto simp: find_Some_iff)

lemma queue_inv_reachable: "queue_reachable q \<Longrightarrow> queue_inv q"
proof (induction rule: queue_reachable.induct)
  case (add q s)
  then show ?case
    by (auto simp: queue_inv_def DueScheduleQueue_Add_def distinct_update dest!: update_entry)
next
  case (claim q now r q')
  then show ?case
    by (auto simp: queue_inv_def DueScheduleQueue_Claim_def distinct_update split: option.splits dest!: update_entry find_due)
qed (simp add: queue_inv_def NewDueScheduleQueue_def)

text \<open>
  Claims of the interval queue return, for every queue its operations can build. Nothing is
  returned only when nothing is due; otherwise the occurrence is one that was due, the next
  firing is the first one of the schedule's grid after \<open>now\<close>, and the schedule is not claimed
  again at that instant.
\<close>

theorem DueScheduleQueue_Claim_total:
  assumes "queue_reachable q"
  shows "\<exists>r q'. DueScheduleQueue_Claim now q = Some (r, q')
    \<and> (case r of
         None \<Rightarrow> (\<forall>(i, s) \<in> set q. du_NextFire s > now)
       | Some s \<Rightarrow> du_OccurrenceAt s \<le> now \<and> now < du_NextFire s \<and> du_NextFire s - du_Interval s \<le> now
           \<and> du_Interval s dvd du_NextFire s - du_OccurrenceAt s
           \<and> (\<forall>now' r' q''. now' \<le> now \<and> DueScheduleQueue_Claim now' q' = Some (Some r', q'') \<longrightarrow> du_ID r' \<noteq> du_ID s))"
proof (cases "List.find (\<lambda>(_, s). \<not> du_NextFire s > now) q")
  case None
  then have "\<forall>(i, s) \<in> set q. du_NextFire s > now" by (auto simp: find_None_iff)
  then show ?thesis using None by (intro exI [of _ None] exI [of _ q]) (simp add: DueScheduleQueue_Claim_def)
next
  case (Some x)
  obtain i s where x: "x = (i, s)" by (cases x)
  have item: "(i, s) \<in> set q" "du_NextFire s \<le> now" using find_due [OF Some] x by auto
  have inv: "queue_inv q" by (rule queue_inv_reachable [OF assms])
  then have s: "du_ID s = i" "0 < du_Interval s" using item(1) by (auto simp: queue_inv_def)
  obtain t k where t: "advance now (du_Interval s) (du_NextFire s) = Some t" "t = du_NextFire s + k * du_Interval s" "now < t"
    "t - du_Interval s \<le> now" using advance_returns [OF s(2), of now "du_NextFire s"] item(2) by blast
  define q' where "q' = AList.update i (s\<lparr>du_NextFire := t\<rparr>) q"
  have c: "DueScheduleQueue_Claim now q = Some (Some (s\<lparr>du_NextFire := t, du_OccurrenceAt := du_NextFire s\<rparr>), q')"
    by (simp add: DueScheduleQueue_Claim_def Some x t(1) q'_def)
  have inv': "queue_inv q'" by (rule queue_inv_reachable [OF queue_reachable.claim [OF assms c]])
  have "du_ID r' \<noteq> i" if le: "now' \<le> now" and "DueScheduleQueue_Claim now' q' = Some (Some r', q'')" for now' r' q''
  proof -
    from that(2) obtain j u where u: "(j, u) \<in> set q'" "du_NextFire u \<le> now'" "du_ID r' = du_ID u"
      by (auto simp: DueScheduleQueue_Claim_def split: option.splits dest!: find_due)
    have "u \<noteq> s\<lparr>du_NextFire := t\<rparr>" using u(2) le t(3) by auto
    moreover have "map_of q' i = Some (s\<lparr>du_NextFire := t\<rparr>)" by (simp add: q'_def update_conv')
    moreover have "map_of q' j = Some u" using u(1) inv' by (simp add: queue_inv_def)
    moreover have "du_ID u = j" using u(1) inv' by (auto simp: queue_inv_def)
    ultimately show ?thesis using u(3) by auto
  qed
  then show ?thesis using c item(2) t s by (auto intro!: exI)
qed

theorem DueScheduleQueue_Claim_total_witness:
  "\<exists>s q'. DueScheduleQueue_Claim (10 * minute) (DueScheduleQueue_Add \<lparr>du_ID = ''tick'', du_NextFire = 5 * minute,
      du_Interval = 2 * minute, du_OccurrenceAt = 0\<rparr> NewDueScheduleQueue) = Some (Some s, q') \<and> 10 * minute < du_NextFire s"
proof -
  let ?q = "DueScheduleQueue_Add \<lparr>du_ID = ''tick'', du_NextFire = 5 * minute, du_Interval = 2 * minute, du_OccurrenceAt = 0\<rparr>
      NewDueScheduleQueue"
  have reach: "queue_reachable ?q" by (rule queue_reachable.add [OF queue_reachable.new])
  obtain r q' where r: "DueScheduleQueue_Claim (10 * minute) ?q = Some (r, q')"
    and c: "case r of
         None \<Rightarrow> (\<forall>(i, s) \<in> set ?q. du_NextFire s > 10 * minute)
       | Some s \<Rightarrow> du_OccurrenceAt s \<le> 10 * minute \<and> 10 * minute < du_NextFire s \<and> du_NextFire s - du_Interval s \<le> 10 * minute
           \<and> du_Interval s dvd du_NextFire s - du_OccurrenceAt s
           \<and> (\<forall>now' r' q''. now' \<le> 10 * minute \<and> DueScheduleQueue_Claim now' q' = Some (Some r', q'') \<longrightarrow> du_ID r' \<noteq> du_ID s)"
    using DueScheduleQueue_Claim_total [OF reach, of "10 * minute"] by (elim exE conjE)
  show ?thesis
  proof (cases r)
    case None
    then show ?thesis using c by (simp add: DueScheduleQueue_Add_def NewDueScheduleQueue_def)
  qed (use r c in simp)
qed

end
