(* ===== verification/Codec.thy ===== *)
theory Codec
  imports Prelude
begin

text \<open>
  The byte-level encodings of the wire protocol: \<^verbatim>\<open>base64.StdEncoding\<close> as the envelope uses it
  (\<^verbatim>\<open>protocol/envelope.go\<close>), the length-prefixed payload frame (\<^verbatim>\<open>protocol/binary_codec.go\<close>)
  and the domain-separated message that is signed (\<^verbatim>\<open>signingBytes\<close> of
  \<^verbatim>\<open>protocol/signature.go\<close>). The lemmas give the round trips, the size bounds and the
  injectivity that the rest of the protocol rests on.
\<close>

section \<open>Bytes and base64\<close>

definition bytes_of :: "string \<Rightarrow> bytes" where
  "bytes_of s = map of_char s"

definition b64_alphabet :: string where
  "b64_alphabet = ''ABCDEFGHIJKLMNOPQRSTUVWXYZabcdefghijklmnopqrstuvwxyz0123456789+/''"

definition b64_char :: "nat \<Rightarrow> char" where
  "b64_char n = b64_alphabet ! n"

text \<open>The value of a base64 digit; any other character is corrupt input.\<close>

definition b64_val :: "char \<Rightarrow> nat option" where
  "b64_val c =
     (if is_upper c then Some (of_char c - 65)
      else if is_lower c then Some (of_char c - 71)
      else if is_digit c then Some (of_char c + 4)
      else if c = CHR ''+'' then Some 62
      else if c = CHR ''/'' then Some 63
      else None)"

fun b64_encode :: "bytes \<Rightarrow> string" where
  "b64_encode [] = []"
| "b64_encode [a] =
     [b64_char (unat a div 4), b64_char (unat a mod 4 * 16), CHR ''='', CHR ''='']"
| "b64_encode [a, b] =
     [b64_char (unat a div 4), b64_char (unat a mod 4 * 16 + unat b div 16),
      b64_char (unat b mod 16 * 4), CHR ''='']"
| "b64_encode (a # b # c # rest) =
     [b64_char (unat a div 4), b64_char (unat a mod 4 * 16 + unat b div 16),
      b64_char (unat b mod 16 * 4 + unat c div 64), b64_char (unat c mod 64)]
     @ b64_encode rest"

text \<open>
  Decoding works on groups of four digits, with padding only in the last group. The bits
  that padding leaves over are not checked, as in \<^verbatim>\<open>StdEncoding\<close> without \<^verbatim>\<open>Strict\<close>.
\<close>

fun b64_groups :: "string \<Rightarrow> bytes option" where
  "b64_groups [] = Some []"
| "b64_groups (p # q # r # s # rest) =
     (case (b64_val p, b64_val q) of
        (Some a, Some b) \<Rightarrow>
          (if r = CHR ''='' then
             (if s = CHR ''='' \<and> rest = [] then Some [of_nat (a * 4 + b div 16)] else None)
           else (case b64_val r of
              None \<Rightarrow> None
            | Some c \<Rightarrow>
                (if s = CHR ''='' then
                   (if rest = []
                    then Some [of_nat (a * 4 + b div 16), of_nat (b mod 16 * 16 + c div 4)]
                    else None)
                 else (case (b64_val s, b64_groups rest) of
                    (Some d, Some bs) \<Rightarrow>
                      Some (of_nat (a * 4 + b div 16) # of_nat (b mod 16 * 16 + c div 4)
                            # of_nat (c mod 4 * 64 + d) # bs)
                  | _ \<Rightarrow> None))))
      | _ \<Rightarrow> None)"
| "b64_groups _ = None"

text \<open>\<^verbatim>\<open>DecodeString\<close> skips carriage returns and line feeds.\<close>

definition b64_decode :: "string \<Rightarrow> bytes option" where
  "b64_decode s = b64_groups (filter (\<lambda>c. c \<noteq> CHR 0x0A \<and> c \<noteq> CHR 0x0D) s)"

definition encodeBase64 :: "bytes \<Rightarrow> string" where
  "encodeBase64 value = b64_encode value"

section \<open>The payload frame\<close>

definition DefaultMaxEnvelopeBytes :: int where
  "DefaultMaxEnvelopeBytes = 2 ^ 20"

definition payloadMagic :: bytes where
  "payloadMagic = [71, 70, 80, 1, 0]"

definition maxPayloadFrameBytes :: int where
  "maxPayloadFrameBytes = DefaultMaxEnvelopeBytes"

datatype codec_error = JSONFailed | PayloadTooLarge | InvalidFrameLength

text \<open>\<^verbatim>\<open>binary.BigEndian\<close> for a uint32.\<close>

definition be32 :: "32 word \<Rightarrow> bytes" where
  "be32 w = [of_nat (unat w div 2 ^ 24), of_nat (unat w div 2 ^ 16 mod 256),
             of_nat (unat w div 2 ^ 8 mod 256), of_nat (unat w mod 256)]"

definition from_be32 :: "bytes \<Rightarrow> 32 word" where
  "from_be32 bs = of_nat (unat (bs ! 0) * 2 ^ 24 + unat (bs ! 1) * 2 ^ 16
                          + unat (bs ! 2) * 2 ^ 8 + unat (bs ! 3))"

text \<open>The JSON text of the value is the result of \<^verbatim>\<open>json.Marshal\<close>, passed in.\<close>

definition encodePayloadFrame :: "bytes option \<Rightarrow> codec_error + bytes" where
  "encodePayloadFrame marshalled =
     (case marshalled of
        None \<Rightarrow> Inl JSONFailed
      | Some canonical \<Rightarrow>
          (if int (length canonical) > maxPayloadFrameBytes then Inl PayloadTooLarge
           else Inr (payloadMagic @ be32 (of_nat (length canonical)) @ canonical)))"

definition decodePayloadFrame :: "bytes \<Rightarrow> codec_error + bytes" where
  "decodePayloadFrame raw =
     (if length raw < length payloadMagic + 4
         \<or> take (length payloadMagic) raw \<noteq> payloadMagic then Inr raw
      else
        (let len = from_be32 (take 4 (drop (length payloadMagic) raw))
         in if int (unat len) > maxPayloadFrameBytes
               \<or> int (unat len) \<noteq> int (length raw) - int (length payloadMagic) - 4
            then Inl InvalidFrameLength
            else Inr (drop (length payloadMagic + 4) raw)))"

section \<open>The signed message\<close>

definition signingBytes :: "string \<Rightarrow> bytes \<Rightarrow> bytes" where
  "signingBytes domain payload = bytes_of domain @ [0] @ payload"

section \<open>Lemmas\<close>

lemma b64_val_char_all: "\<forall>n \<in> set [0..<64]. b64_val (b64_char n) = Some n"
  by code_simp

lemma b64_val_char [simp]: "n < 64 \<Longrightarrow> b64_val (b64_char n) = Some n"
  using b64_val_char_all by simp

lemma b64_val_special [simp]:
  "b64_val (CHR ''='') = None" "b64_val (CHR 0x0A) = None" "b64_val (CHR 0x0D) = None"
  by code_simp+

lemma b64_char_not_special [simp]:
  assumes "n < 64"
  shows "b64_char n \<noteq> CHR ''=''" "b64_char n \<noteq> CHR 0x0A" "b64_char n \<noteq> CHR 0x0D"
  using b64_val_char [OF assms] b64_val_special by (metis option.distinct(1))+

lemma unat_byte_lt [simp]: "unat (a :: 8 word) < 256"
  using unsigned_less [of a, where ?'a = nat] by simp

lemma sextet_bounds:
  fixes a b c :: nat
  assumes "a < 256" "b < 256" "c < 256"
  shows "a div 4 < 64" "a mod 4 * 16 < 64" "a mod 4 * 16 + b div 16 < 64"
    "b mod 16 * 4 < 64" "b mod 16 * 4 + c div 64 < 64" "c mod 64 < 64"
proof -
  have "a mod 4 < 4" "b mod 16 < 16" "b div 16 < 16" "c div 64 < 4" using assms by simp_all
  then show "a div 4 < 64" "a mod 4 * 16 < 64" "a mod 4 * 16 + b div 16 < 64"
    "b mod 16 * 4 < 64" "b mod 16 * 4 + c div 64 < 64" "c mod 64 < 64" using assms by linarith+
qed

lemma sextet_first:
  assumes "b < 256"
  shows "(a :: nat) div 4 * 4 + (a mod 4 * 16 + b div 16) div 16 = a"
proof -
  from assms have "b div 16 div 16 = 0" by (simp add: div_mult2_eq [symmetric])
  then show ?thesis by simp
qed

lemma sextet_second:
  assumes "b < 256" "c < 256"
  shows "((a :: nat) mod 4 * 16 + b div 16) mod 16 * 16 + (b mod 16 * 4 + c div 64) div 4 = b"
proof -
  from assms have "c div 64 div 4 = 0" "b div 16 < 16" by (simp_all add: div_mult2_eq [symmetric])
  then show ?thesis by simp
qed

lemma sextet_third:
  assumes "c < 256"
  shows "((b :: nat) mod 16 * 4 + c div 64) mod 4 * 64 + c mod 64 = c"
proof -
  from assms have "c div 64 < 4" by simp
  then show ?thesis by simp
qed

lemma b64_sextets [simp]:
  fixes a b c :: "8 word"
  shows "unat a div 4 < 64" "unat a mod 4 * 16 < 64" "unat a mod 4 * 16 + unat b div 16 < 64"
    "unat b mod 16 * 4 < 64" "unat b mod 16 * 4 + unat c div 64 < 64" "unat c mod 64 < 64"
  using sextet_bounds [of "unat a" "unat b" "unat c"] by simp_all

lemma b64_bytes:
  fixes a b c :: "8 word"
  shows "(of_nat (unat a div 4 * 4 + (unat a mod 4 * 16 + unat b div 16) div 16) :: 8 word) = a"
    and "(of_nat (unat a div 4 * 4 + unat a mod 4 * 16 div 16) :: 8 word) = a"
    and "(of_nat ((unat a mod 4 * 16 + unat b div 16) mod 16 * 16
                  + (unat b mod 16 * 4 + unat c div 64) div 4) :: 8 word) = b"
    and "(of_nat ((unat a mod 4 * 16 + unat b div 16) mod 16 * 16
                  + unat b mod 16) :: 8 word) = b"
    and "(of_nat ((unat b mod 16 * 4 + unat c div 64) mod 4 * 64 + unat c mod 64) :: 8 word) = c"
  using sextet_first [of "unat b" "unat a"] sextet_first [of 0 "unat a"]
    sextet_second [of "unat b" "unat c" "unat a"] sextet_second [of "unat b" 0 "unat a"]
    sextet_third [of "unat c" "unat b"]
  by (simp_all del: of_nat_add of_nat_mult)

lemma b64_groups_encode: "b64_groups (b64_encode bs) = Some bs"
  by (induction bs rule: b64_encode.induct)
    (simp_all add: b64_bytes del: of_nat_add of_nat_mult div_mult_self1 div_mult_self2
      div_mult_self3 div_mult_self4 mod_mult_self1 mod_mult_self2 mod_mult_self3 mod_mult_self4
      div_mult_self_is_m div_mult_self1_is_m nonzero_mult_div_cancel_right)

lemma b64_encode_no_newline:
  "c \<in> set (b64_encode bs) \<Longrightarrow> c \<noteq> CHR 0x0A \<and> c \<noteq> CHR 0x0D"
  by (induction bs rule: b64_encode.induct) auto

lemma b64_decode_encode [simp]: "b64_decode (b64_encode bs) = Some bs"
proof -
  have "filter (\<lambda>c. c \<noteq> CHR 0x0A \<and> c \<noteq> CHR 0x0D) (b64_encode bs) = b64_encode bs"
    by (rule filter_True) (use b64_encode_no_newline in blast)
  then show ?thesis by (simp add: b64_decode_def b64_groups_encode)
qed

lemma b64_encode_eq_Nil [simp]: "b64_encode bs = [] \<longleftrightarrow> bs = []"
  by (cases bs rule: b64_encode.cases) simp_all

lemma length_be32 [simp]: "length (be32 w) = 4"
  by (simp add: be32_def)

lemma unat_of_nat_byte [simp]: "n < 256 \<Longrightarrow> unat (of_nat n :: 8 word) = n"
  by (simp add: unat_of_nat)

lemma from_be32_be32 [simp]: "from_be32 (be32 w) = w"
proof -
  let ?n = "unat w"
  have "?n < 2 ^ 32" using unsigned_less [of w, where ?'a = nat] by simp
  then have hi: "?n div 16777216 < 256" by simp
  have "?n = ?n div 256 * 256 + ?n mod 256"
    and "?n div 256 = ?n div 256 div 256 * 256 + ?n div 256 mod 256"
    and "?n div 65536 = ?n div 65536 div 256 * 256 + ?n div 65536 mod 256"
    by (rule div_mult_mod_eq [symmetric])+
  moreover have "?n div 256 div 256 = ?n div 65536" and "?n div 65536 div 256 = ?n div 16777216"
    by (simp_all add: div_mult2_eq [symmetric])
  ultimately have "?n div 16777216 * 16777216 + ?n div 65536 mod 256 * 65536
        + ?n div 256 mod 256 * 256 + ?n mod 256 = ?n"
    by linarith
  with hi show ?thesis
    by (simp add: from_be32_def be32_def del: of_nat_add of_nat_mult)
qed

lemma payloadMagic_simps [simp]:
  "length payloadMagic = 5" "maxPayloadFrameBytes = 2 ^ 20"
  by (simp_all add: payloadMagic_def maxPayloadFrameBytes_def DefaultMaxEnvelopeBytes_def)

lemma unat_frame_length: "int n \<le> 2 ^ 20 \<Longrightarrow> unat (of_nat n :: 32 word) = n"
  by (simp add: unat_of_nat)

lemma decode_encode_frame:
  assumes "encodePayloadFrame marshalled = Inr frame"
  shows "\<exists>canonical. marshalled = Some canonical \<and> decodePayloadFrame frame = Inr canonical
           \<and> length frame = length canonical + 9"
proof -
  from assms obtain canonical where m: "marshalled = Some canonical"
    and len: "int (length canonical) \<le> 2 ^ 20"
    and frame: "frame = payloadMagic @ be32 (of_nat (length canonical)) @ canonical"
    by (auto simp: encodePayloadFrame_def split: option.splits if_splits)
  from len have u: "unat (of_nat (length canonical) :: 32 word) = length canonical"
    by (rule unat_frame_length)
  have t4: "take 4 (be32 (of_nat (length canonical)) @ canonical) = be32 (of_nat (length canonical))"
    by simp
  show ?thesis
    using m len u by (simp add: frame decodePayloadFrame_def t4 Let_def del: of_nat_unat)
qed

lemma decode_frame_Inr_length: "decodePayloadFrame raw = Inr payload \<Longrightarrow> length payload \<le> length raw"
  by (auto simp: decodePayloadFrame_def Let_def split: if_splits)

lemma of_char_byte_inject [simp]: "(of_char c :: 8 word) = of_char d \<longleftrightarrow> c = d"
proof
  assume "(of_char c :: 8 word) = of_char d"
  moreover have "unat (of_char c :: 8 word) = of_char c" for c
  proof -
    have "(of_char c :: 8 word) = of_nat (of_char c)" by (rule of_nat_of_char [symmetric])
    moreover have "(of_char c :: nat) < 256" by simp
    ultimately show ?thesis by (metis unat_of_nat_byte)
  qed
  ultimately have "(of_char c :: nat) = of_char d" by metis
  then show "c = d" by simp
qed simp

lemma bytes_of_inject [simp]: "bytes_of s = bytes_of t \<longleftrightarrow> s = t"
  unfolding bytes_of_def by (rule inj_map_eq_map) (rule injI, simp)

lemma zero_in_bytes_of: "0 \<in> set (bytes_of s) \<longleftrightarrow> CHR 0x00 \<in> set s"
proof -
  have "(of_char c :: 8 word) = 0 \<longleftrightarrow> c = CHR 0x00" for c
    using of_char_byte_inject [of c "CHR 0x00"] by simp
  then show ?thesis by (force simp: bytes_of_def)
qed

lemma append_sep_inject:
  assumes "x \<notin> set as" "x \<notin> set bs" "as @ x # cs = bs @ x # ds"
  shows "as = bs \<and> cs = ds"
  using assms by (induction as arbitrary: bs) (case_tac bs; auto)+

end
