(* ===== verification/Protocol.thy ===== *)
theory Protocol
  imports Codec
begin

text \<open>
  The signed message protocol between control plane and workers
  (\<^verbatim>\<open>backend/internal/protocol\<close>): payload types, envelopes, Ed25519 signing with a domain
  string, keyrings, field, time, identity and freshness validation, replay detection and the
  two verifiers \<open>VerifyOrder\<close> and \<open>VerifyEvent\<close>.

  \<^verbatim>\<open>encoding/json\<close> and \<^verbatim>\<open>crypto/ed25519\<close> are the fields of one parameter, the record
  \<open>lib\<close>; what a theorem needs of them (reading back what was written, accepting what was
  signed) is a hypothesis of that theorem. A signature is a function of the key and the
  message, as Ed25519 defines it.
\<close>

section \<open>Payload types\<close>

datatype OrderType = OrderExecute | OrderCancel | OtherOrder string

datatype EventType = EventAccepted | EventRejected | EventStarted | EventLogChunk | EventHeartbeat
  | EventCompleted | EventFailed | EventTimedOut | EventCancelled | EventUnknown | OtherEvent string

definition OrderType_Valid :: "OrderType \<Rightarrow> bool" where
  "OrderType_Valid t \<longleftrightarrow> t = OrderExecute \<or> t = OrderCancel"

definition EventType_Valid :: "EventType \<Rightarrow> bool" where
  "EventType_Valid t =
     (case t of
        EventAccepted \<Rightarrow> True | EventRejected \<Rightarrow> True | EventStarted \<Rightarrow> True
      | EventLogChunk \<Rightarrow> True | EventHeartbeat \<Rightarrow> True | EventCompleted \<Rightarrow> True
      | EventFailed \<Rightarrow> True | EventTimedOut \<Rightarrow> True | EventCancelled \<Rightarrow> True
      | _ \<Rightarrow> False)"

definition ProtocolVersion :: "8 word" where
  "ProtocolVersion = 1"

record Envelope =
  env_Version :: "8 word"
  env_KeyID :: string
  env_Payload :: string
  env_Signature :: string

record ResourceLimits =
  MaxOutputBytes :: "64 word"
  MaxMemoryBytes :: "64 word"
  MaxProcesses :: "64 word"

record OrderPayload =
  ord_Version :: "8 word"
  ord_OrderID :: string
  ord_RunID :: string
  ord_TaskID :: string
  ord_TaskName :: string
  ord_TaskVersion :: "32 word"
  ord_Attempt :: "32 word"
  ord_LeaseToken :: string
  ord_RunnerID :: string
  ord_IssuedAt :: time
  ord_NotBefore :: time
  ord_ExpiresAt :: time
  ord_Type :: OrderType
  ord_Command :: "string list"
  ord_WorkingDir :: string
  ord_Environment :: "(string, string) gomap"
  ord_SecretRefs :: "(string, string) gomap"
  ord_TargetOrderID :: string
  ord_DurationSeconds :: "32 word"
  ord_Limits :: ResourceLimits
  ord_Resources :: "(string, string) gomap"
  ord_Issuer :: string
  ord_Recipient :: string
  ord_RunnerSessionID :: string
  ord_FencingToken :: "64 word"
  ord_LeaseNotAfter :: time
  ord_ExecutionSpecDigest :: string

record EventPayload =
  evt_Version :: "8 word"
  evt_EventID :: string
  evt_OrderID :: string
  evt_RunID :: string
  evt_TaskID :: string
  evt_Attempt :: "32 word"
  evt_LeaseToken :: string
  evt_RunnerID :: string
  evt_Sequence :: "64 word"
  evt_ObservedAt :: time
  evt_Type :: EventType
  evt_Result :: string
  evt_Metrics :: "(string, int) gomap"
  evt_OutputDigest :: string
  evt_ExitCode :: "int option"
  evt_Error :: string
  evt_RunnerSessionID :: string
  evt_FencingToken :: "64 word"
  evt_EventChannel :: string

record RunnerControlPayload =
  ctl_Version :: "8 word"
  ctl_Type :: string
  ctl_RunnerID :: string
  ctl_Capacity :: int
  ctl_IssuedAt :: time

record StartClaimPayload =
  sc_Version :: "8 word"
  sc_RequestID :: string
  sc_RunID :: string
  sc_RunnerID :: string
  sc_RunnerSessionID :: string
  sc_LeaseToken :: string
  sc_Attempt :: "32 word"
  sc_FencingToken :: "64 word"
  sc_ExecutionSpecDigest :: string
  sc_IssuedAt :: time

record SecretDeliveryRequest =
  sd_Version :: "8 word"
  sd_RequestID :: string
  sd_OrderID :: string
  sd_RunID :: string
  sd_Attempt :: "32 word"
  sd_LeaseToken :: string
  sd_RunnerID :: string
  sd_RunnerSessionID :: string
  sd_FencingToken :: "64 word"
  sd_ExecutionSpecDigest :: string
  sd_SecretRefs :: "(string, string) gomap"
  sd_IssuedAt :: time

record SecretDeliveryResponse =
  sr_Version :: "8 word"
  sr_RequestID :: string
  sr_Values :: "(string, string) gomap"
  sr_Error :: string
  sr_RespondedAt :: time

text \<open>The parts of the Go standard library the protocol calls.\<close>

record lib =
  envelope_marshal :: "Envelope \<Rightarrow> bytes option"
  envelope_unmarshal :: "bytes \<Rightarrow> Envelope option"
  order_marshal :: "OrderPayload \<Rightarrow> bytes option"
  order_unmarshal :: "bytes \<Rightarrow> OrderPayload option"
  event_marshal :: "EventPayload \<Rightarrow> bytes option"
  event_unmarshal :: "bytes \<Rightarrow> EventPayload option"
  control_marshal :: "RunnerControlPayload \<Rightarrow> bytes option"
  control_unmarshal :: "bytes \<Rightarrow> RunnerControlPayload option"
  ed25519_sign :: "bytes \<Rightarrow> bytes \<Rightarrow> bytes"
  ed25519_verify :: "bytes \<Rightarrow> bytes \<Rightarrow> bytes \<Rightarrow> bool"

datatype proto_error =
    JSONError | Base64Error | Frame codec_error
  | EnvelopePayloadEmpty | EnvelopeSignatureEmpty | EnvelopeLimitNotPositive
  | EnvelopeTooLarge | UnsupportedVersion | EnvelopeKeyIDEmpty
  | UnsupportedOrderVersion | UnsupportedOrderType
  | UnsupportedEventVersion | UnsupportedEventType
  | UnsupportedControlVersion | InvalidControl
  | InvalidPrivateKey | InvalidPublicKey | InvalidSignature
  | KeyIDRequired | KeyGenerationFailed
  | UnknownSigningKey | SigningKeyRevoked | InvalidSigningKey
  | SigningKeyNotYetValid | SigningKeyExpired
  | ExecutionFieldsRequired | EmptyArgument | InvalidSecretRef
  | NegativeTolerance | OrderTimesRequired | IssuedInFuture | NotBeforePrecedesIssue
  | ExpirationNotAfterNotBefore | OrderNotYetValid | OrderExpired
  | ObservationTimeRequired | ObservedInFuture
  | IdentityRequired | IdentityMismatch
  | FreshnessIncomplete | FreshnessMismatch | LeaseExpired
  | SequenceNotPositive | UnexpectedSequence | EventErrorTooLarge
  | MessageIDEmpty | ReplayDetected | ReplayLogIO
  | StartClaimIncomplete | SecretRequestIncomplete
  | SecretResponseIncomplete | SecretResponseValuesWithError | SecretResponseNoValues

section \<open>Envelopes\<close>

definition NewEnvelope :: "string \<Rightarrow> bytes \<Rightarrow> Envelope" where
  "NewEnvelope keyID payload =
     \<lparr>env_Version = ProtocolVersion, env_KeyID = keyID, env_Payload = encodeBase64 payload,
      env_Signature = []\<rparr>"

definition PayloadBytes :: "Envelope \<Rightarrow> proto_error + bytes" where
  "PayloadBytes e =
     (if env_Payload e = [] then Inl EnvelopePayloadEmpty
      else (case b64_decode (env_Payload e) of None \<Rightarrow> Inl Base64Error | Some b \<Rightarrow> Inr b))"

definition SignatureBytes :: "Envelope \<Rightarrow> proto_error + bytes" where
  "SignatureBytes e =
     (if env_Signature e = [] then Inl EnvelopeSignatureEmpty
      else (case b64_decode (env_Signature e) of None \<Rightarrow> Inl Base64Error | Some b \<Rightarrow> Inr b))"

definition EncodeEnvelope :: "lib \<Rightarrow> Envelope \<Rightarrow> proto_error + bytes" where
  "EncodeEnvelope L e = (case envelope_marshal L e of None \<Rightarrow> Inl JSONError | Some b \<Rightarrow> Inr b)"

definition DecodeEnvelopeLimited :: "lib \<Rightarrow> bytes \<Rightarrow> int \<Rightarrow> proto_error + Envelope" where
  "DecodeEnvelopeLimited L raw maxBytes =
     (if maxBytes \<le> 0 then Inl EnvelopeLimitNotPositive
      else if int (length raw) > maxBytes then Inl EnvelopeTooLarge
      else (case envelope_unmarshal L raw of
         None \<Rightarrow> Inl JSONError
       | Some envelope \<Rightarrow>
           (if env_Version envelope \<noteq> ProtocolVersion then Inl UnsupportedVersion
            else if env_KeyID envelope = [] then Inl EnvelopeKeyIDEmpty
            else (case PayloadBytes envelope of
               Inl err \<Rightarrow> Inl err
             | Inr _ \<Rightarrow>
                 (if env_Signature envelope \<noteq> [] then
                    (case SignatureBytes envelope of Inl err \<Rightarrow> Inl err | Inr _ \<Rightarrow> Inr envelope)
                  else Inr envelope)))))"

definition DecodeEnvelope :: "lib \<Rightarrow> bytes \<Rightarrow> proto_error + Envelope" where
  "DecodeEnvelope L raw = DecodeEnvelopeLimited L raw DefaultMaxEnvelopeBytes"

section \<open>Payload encoding and decoding\<close>

definition frame_of :: "bytes option \<Rightarrow> proto_error + bytes" where
  "frame_of m = (case encodePayloadFrame m of Inl e \<Rightarrow> Inl (Frame e) | Inr b \<Rightarrow> Inr b)"

definition EncodeOrderPayload :: "lib \<Rightarrow> OrderPayload \<Rightarrow> proto_error + bytes" where
  "EncodeOrderPayload L payload = frame_of (order_marshal L payload)"

definition EncodeEventPayload :: "lib \<Rightarrow> EventPayload \<Rightarrow> proto_error + bytes" where
  "EncodeEventPayload L payload = frame_of (event_marshal L payload)"

definition EncodeRunnerControlPayload :: "lib \<Rightarrow> RunnerControlPayload \<Rightarrow> proto_error + bytes" where
  "EncodeRunnerControlPayload L payload = frame_of (control_marshal L payload)"

definition DecodeOrderPayload :: "lib \<Rightarrow> bytes \<Rightarrow> proto_error + OrderPayload" where
  "DecodeOrderPayload L raw =
     (case decodePayloadFrame raw of
        Inl e \<Rightarrow> Inl (Frame e)
      | Inr framed \<Rightarrow>
          (case order_unmarshal L framed of
             None \<Rightarrow> Inl JSONError
           | Some payload \<Rightarrow>
               (if ord_Version payload \<noteq> ProtocolVersion then Inl UnsupportedOrderVersion
                else if \<not> OrderType_Valid (ord_Type payload) then Inl UnsupportedOrderType
                else Inr payload)))"

definition DecodeEventPayload :: "lib \<Rightarrow> bytes \<Rightarrow> proto_error + EventPayload" where
  "DecodeEventPayload L raw =
     (case decodePayloadFrame raw of
        Inl e \<Rightarrow> Inl (Frame e)
      | Inr framed \<Rightarrow>
          (case event_unmarshal L framed of
             None \<Rightarrow> Inl JSONError
           | Some payload \<Rightarrow>
               (if evt_Version payload \<noteq> ProtocolVersion then Inl UnsupportedEventVersion
                else if \<not> EventType_Valid (evt_Type payload)
                        \<and> \<not> (evt_Type payload = EventUnknown \<and> evt_EventID payload \<noteq> []
                             \<and> evt_OrderID payload \<noteq> [] \<and> evt_RunnerID payload \<noteq> []
                             \<and> evt_Attempt payload > 0 \<and> evt_Sequence payload > 0)
                then Inl UnsupportedEventType
                else Inr payload)))"

definition DecodeRunnerControlPayload :: "lib \<Rightarrow> bytes \<Rightarrow> proto_error + RunnerControlPayload" where
  "DecodeRunnerControlPayload L raw =
     (case decodePayloadFrame raw of
        Inl e \<Rightarrow> Inl (Frame e)
      | Inr framed \<Rightarrow>
          (case control_unmarshal L framed of
             None \<Rightarrow> Inl JSONError
           | Some payload \<Rightarrow>
               (if ctl_Version payload \<noteq> ProtocolVersion then Inl UnsupportedControlVersion
                else if ctl_Type payload \<noteq> ''capacity'' \<or> ctl_RunnerID payload = []
                        \<or> ctl_Capacity payload < 1 \<or> ctl_IssuedAt payload = 0
                then Inl InvalidControl
                else Inr payload)))"

section \<open>Signatures and keys\<close>

definition OrderSignatureDomain :: string where
  "OrderSignatureDomain = ''glyphflow/order/v1''"

definition EventSignatureDomain :: string where
  "EventSignatureDomain = ''glyphflow/event/v1''"

definition StartClaimSignatureDomain :: string where
  "StartClaimSignatureDomain = ''glyphflow/start-claim/v1''"

definition SecretDeliverySignatureDomain :: string where
  "SecretDeliverySignatureDomain = ''glyphflow/secret-delivery/v1''"

definition Sign :: "lib \<Rightarrow> bytes \<Rightarrow> string \<Rightarrow> Envelope \<Rightarrow> proto_error + Envelope" where
  "Sign L privateKey domain e =
     (if length privateKey \<noteq> 64 then Inl InvalidPrivateKey
      else (case PayloadBytes e of
         Inl err \<Rightarrow> Inl err
       | Inr payload \<Rightarrow>
           Inr (e\<lparr>env_Signature :=
                    encodeBase64 (ed25519_sign L privateKey (signingBytes domain payload))\<rparr>)))"

definition Verify :: "lib \<Rightarrow> bytes \<Rightarrow> string \<Rightarrow> Envelope \<Rightarrow> proto_error + unit" where
  "Verify L publicKey domain e =
     (if length publicKey \<noteq> 32 then Inl InvalidPublicKey
      else (case PayloadBytes e of
         Inl err \<Rightarrow> Inl err
       | Inr payload \<Rightarrow>
           (case SignatureBytes e of
              Inl err \<Rightarrow> Inl err
            | Inr signature \<Rightarrow>
                (if length signature \<noteq> 64
                    \<or> \<not> ed25519_verify L publicKey (signingBytes domain payload) signature
                 then Inl InvalidSignature else Inr ()))))"

definition VerifyRawEnvelope ::
    "lib \<Rightarrow> bytes \<Rightarrow> bytes \<Rightarrow> string \<Rightarrow> proto_error + (Envelope \<times> bytes)" where
  "VerifyRawEnvelope L raw publicKey domain =
     (case DecodeEnvelope L raw of
        Inl err \<Rightarrow> Inl err
      | Inr envelope \<Rightarrow>
          (case Verify L publicKey domain envelope of
             Inl err \<Rightarrow> Inl err
           | Inr _ \<Rightarrow>
               (case PayloadBytes envelope of
                  Inl err \<Rightarrow> Inl err
                | Inr payload \<Rightarrow> Inr (envelope, payload))))"

record VerificationKey =
  vk_ID :: string
  vk_PublicKey :: bytes
  vk_NotBefore :: time
  vk_NotAfter :: time
  vk_Revoked :: bool

type_synonym Keyring = "(string, VerificationKey) gomap"

record SigningKey =
  sk_ID :: string
  sk_Private :: bytes
  sk_Public :: VerificationKey
  sk_CreatedAt :: time

text \<open>The key pair is what \<^verbatim>\<open>ed25519.GenerateKey\<close> returned (public, private).\<close>

definition GenerateSigningKey ::
    "(bytes \<times> bytes) option \<Rightarrow> string \<Rightarrow> time \<Rightarrow> duration \<Rightarrow> proto_error + SigningKey" where
  "GenerateSigningKey pair ident now validFor =
     (if ident = [] \<or> validFor \<le> 0 then Inl KeyIDRequired
      else (case pair of
         None \<Rightarrow> Inl KeyGenerationFailed
       | Some (public, private) \<Rightarrow>
           Inr \<lparr>sk_ID = ident, sk_Private = private,
                sk_Public = \<lparr>vk_ID = ident, vk_PublicKey = public, vk_NotBefore = now,
                             vk_NotAfter = now + validFor, vk_Revoked = False\<rparr>,
                sk_CreatedAt = now\<rparr>))"

definition SignOrder :: "lib \<Rightarrow> SigningKey \<Rightarrow> bytes \<Rightarrow> proto_error + Envelope" where
  "SignOrder L k payload = Sign L (sk_Private k) OrderSignatureDomain (NewEnvelope (sk_ID k) payload)"

definition SignEvent :: "lib \<Rightarrow> SigningKey \<Rightarrow> bytes \<Rightarrow> proto_error + Envelope" where
  "SignEvent L k payload = Sign L (sk_Private k) EventSignatureDomain (NewEnvelope (sk_ID k) payload)"

definition Keyring_Revoke :: "string \<Rightarrow> Keyring \<Rightarrow> proto_error + Keyring" where
  "Keyring_Revoke ident k =
     (case map_of k ident of
        None \<Rightarrow> Inl UnknownSigningKey
      | Some key \<Rightarrow> Inr (AList.update ident (key\<lparr>vk_Revoked := True\<rparr>) k))"

definition VerifyAt :: "lib \<Rightarrow> Keyring \<Rightarrow> Envelope \<Rightarrow> string \<Rightarrow> time \<Rightarrow> proto_error + unit" where
  "VerifyAt L k envelope domain now =
     (case map_of k (env_KeyID envelope) of
        None \<Rightarrow> Inl UnknownSigningKey
      | Some key \<Rightarrow>
          (if vk_ID key \<noteq> env_KeyID envelope \<or> vk_Revoked key then Inl SigningKeyRevoked
           else if length (vk_PublicKey key) \<noteq> 32 then Inl InvalidSigningKey
           else if vk_NotBefore key \<noteq> 0 \<and> now < vk_NotBefore key then Inl SigningKeyNotYetValid
           else if vk_NotAfter key \<noteq> 0 \<and> now > vk_NotAfter key then Inl SigningKeyExpired
           else Verify L (vk_PublicKey key) domain envelope))"

section \<open>Validation\<close>

definition MaxEventErrorBytes :: nat where
  "MaxEventErrorBytes = 4096"

text \<open>
  The two regular expressions of \<^verbatim>\<open>validation.go\<close>:
  \<^verbatim>\<open>^[A-Za-z0-9._:/-]+$\<close> and \<^verbatim>\<open>^[A-Za-z_][A-Za-z0-9_]*$\<close>.
\<close>

definition secretRefPattern :: "string \<Rightarrow> bool" where
  "secretRefPattern s \<longleftrightarrow>
     s \<noteq> [] \<and> list_all (\<lambda>c. is_upper c \<or> is_lower c \<or> is_digit c \<or> c \<in> set ''._:/-'') s"

definition secretEnvironmentNamePattern :: "string \<Rightarrow> bool" where
  "secretEnvironmentNamePattern s \<longleftrightarrow>
     s \<noteq> [] \<and> (is_upper (hd s) \<or> is_lower (hd s) \<or> hd s = CHR ''_'')
     \<and> list_all (\<lambda>c. is_upper c \<or> is_lower c \<or> is_digit c \<or> c = CHR ''_'') (tl s)"

text \<open>\<^verbatim>\<open>strings.Contains(s, "..")\<close>.\<close>

fun contains_dotdot :: "string \<Rightarrow> bool" where
  "contains_dotdot (a # b # s) \<longleftrightarrow> (a = CHR ''.'' \<and> b = CHR ''.'') \<or> contains_dotdot (b # s)"
| "contains_dotdot _ \<longleftrightarrow> False"

definition valid_secret_ref :: "string \<times> string \<Rightarrow> bool" where
  "valid_secret_ref e \<longleftrightarrow>
     secretEnvironmentNamePattern (fst e) \<and> secretRefPattern (snd e) \<and> \<not> contains_dotdot (snd e)"

definition ValidateExecution :: "OrderPayload \<Rightarrow> proto_error + unit" where
  "ValidateExecution p =
     (if ord_OrderID p = [] \<or> ord_RunID p = [] \<or> ord_RunnerID p = [] \<or> ord_RunnerSessionID p = []
         \<or> ord_LeaseToken p = [] \<or> ord_WorkingDir p = [] \<or> ord_DurationSeconds p = 0
         \<or> ord_Command p = []
      then Inl ExecutionFieldsRequired
      else if \<not> list_all (\<lambda>arg. arg \<noteq> []) (ord_Command p) then Inl EmptyArgument
      else if \<not> list_all valid_secret_ref (ord_SecretRefs p) then Inl InvalidSecretRef
      else Inr ())"

definition Order_ValidateTime :: "OrderPayload \<Rightarrow> time \<Rightarrow> duration \<Rightarrow> proto_error + unit" where
  "Order_ValidateTime p now clockTolerance =
     (if clockTolerance < 0 then Inl NegativeTolerance
      else if ord_IssuedAt p = 0 \<or> ord_NotBefore p = 0 \<or> ord_ExpiresAt p = 0
        then Inl OrderTimesRequired
      else if ord_IssuedAt p > now + clockTolerance then Inl IssuedInFuture
      else if ord_NotBefore p < ord_IssuedAt p - clockTolerance then Inl NotBeforePrecedesIssue
      else if \<not> ord_ExpiresAt p > ord_NotBefore p then Inl ExpirationNotAfterNotBefore
      else if now < ord_NotBefore p - clockTolerance then Inl OrderNotYetValid
      else if now > ord_ExpiresAt p + clockTolerance then Inl OrderExpired
      else Inr ())"

definition Event_ValidateTime :: "EventPayload \<Rightarrow> time \<Rightarrow> duration \<Rightarrow> proto_error + unit" where
  "Event_ValidateTime p now clockTolerance =
     (if clockTolerance < 0 then Inl NegativeTolerance
      else if evt_ObservedAt p = 0 then Inl ObservationTimeRequired
      else if evt_ObservedAt p > now + clockTolerance then Inl ObservedInFuture
      else Inr ())"

record identityContext =
  ic_runnerID :: string
  ic_runID :: string
  ic_attempt :: "32 word"
  ic_leaseToken :: string

definition validateIdentity :: "identityContext \<Rightarrow> identityContext \<Rightarrow> proto_error + unit" where
  "validateIdentity actual expected =
     (if ic_runnerID actual = [] \<or> ic_runID actual = [] \<or> ic_leaseToken actual = []
         \<or> ic_attempt actual = 0 then Inl IdentityRequired
      else if ic_runnerID actual \<noteq> ic_runnerID expected \<or> ic_runID actual \<noteq> ic_runID expected
              \<or> ic_attempt actual \<noteq> ic_attempt expected
              \<or> ic_leaseToken actual \<noteq> ic_leaseToken expected
        then Inl IdentityMismatch
      else Inr ())"

definition Order_ValidateIdentity ::
    "OrderPayload \<Rightarrow> string \<Rightarrow> string \<Rightarrow> 32 word \<Rightarrow> string \<Rightarrow> proto_error + unit" where
  "Order_ValidateIdentity p runnerID runID attempt leaseToken =
     validateIdentity
       \<lparr>ic_runnerID = ord_RunnerID p, ic_runID = ord_RunID p, ic_attempt = ord_Attempt p,
        ic_leaseToken = ord_LeaseToken p\<rparr>
       \<lparr>ic_runnerID = runnerID, ic_runID = runID, ic_attempt = attempt, ic_leaseToken = leaseToken\<rparr>"

definition Event_ValidateIdentity ::
    "EventPayload \<Rightarrow> string \<Rightarrow> string \<Rightarrow> 32 word \<Rightarrow> string \<Rightarrow> proto_error + unit" where
  "Event_ValidateIdentity p runnerID runID attempt leaseToken =
     validateIdentity
       \<lparr>ic_runnerID = evt_RunnerID p, ic_runID = evt_RunID p, ic_attempt = evt_Attempt p,
        ic_leaseToken = evt_LeaseToken p\<rparr>
       \<lparr>ic_runnerID = runnerID, ic_runID = runID, ic_attempt = attempt, ic_leaseToken = leaseToken\<rparr>"

record FreshnessContext =
  fc_RunnerID :: string
  fc_SessionID :: string
  fc_RunID :: string
  fc_Recipient :: string
  fc_LeaseToken :: string
  fc_ExecutionSpecDigest :: string
  fc_Attempt :: "32 word"
  fc_FencingToken :: "64 word"
  fc_LeaseNotAfter :: time

definition ValidateFreshness :: "OrderPayload \<Rightarrow> FreshnessContext \<Rightarrow> time \<Rightarrow> proto_error + unit" where
  "ValidateFreshness p ctx now =
     (if fc_RunnerID ctx = [] \<or> fc_SessionID ctx = [] \<or> fc_Recipient ctx = []
         \<or> fc_LeaseToken ctx = [] \<or> fc_ExecutionSpecDigest ctx = [] \<or> fc_Attempt ctx = 0
         \<or> fc_FencingToken ctx = 0 \<or> fc_LeaseNotAfter ctx = 0 then Inl FreshnessIncomplete
      else (case Order_ValidateIdentity p (fc_RunnerID ctx) (fc_RunID ctx) (fc_Attempt ctx)
                   (fc_LeaseToken ctx) of
         Inl err \<Rightarrow> Inl err
       | Inr _ \<Rightarrow>
           (if ord_RunnerSessionID p \<noteq> fc_SessionID ctx \<or> ord_Recipient p \<noteq> fc_Recipient ctx
               \<or> ord_ExecutionSpecDigest p \<noteq> fc_ExecutionSpecDigest ctx
               \<or> ord_FencingToken p \<noteq> fc_FencingToken ctx
               \<or> ord_LeaseNotAfter p \<noteq> fc_LeaseNotAfter ctx then Inl FreshnessMismatch
            else if now > ord_LeaseNotAfter p then Inl LeaseExpired
            else Inr ())))"

definition ValidateSequence :: "EventPayload \<Rightarrow> 64 word \<Rightarrow> proto_error + unit" where
  "ValidateSequence p expected =
     (if evt_Sequence p = 0 \<or> expected = 0 then Inl SequenceNotPositive
      else if evt_Sequence p \<noteq> expected then Inl UnexpectedSequence
      else Inr ())"

definition ValidateError :: "EventPayload \<Rightarrow> proto_error + unit" where
  "ValidateError p =
     (if length (bytes_of (evt_Error p)) > MaxEventErrorBytes then Inl EventErrorTooLarge
      else Inr ())"

definition StartClaim_Validate :: "StartClaimPayload \<Rightarrow> proto_error + unit" where
  "StartClaim_Validate p =
     (if sc_Version p \<noteq> ProtocolVersion \<or> sc_RequestID p = [] \<or> sc_RunID p = [] \<or> sc_RunnerID p = []
         \<or> sc_RunnerSessionID p = [] \<or> sc_LeaseToken p = [] \<or> sc_Attempt p = 0
         \<or> sc_FencingToken p = 0 \<or> sc_ExecutionSpecDigest p = [] \<or> sc_IssuedAt p = 0
      then Inl StartClaimIncomplete else Inr ())"

text \<open>A Go struct literal: the fields not named have their zero value.\<close>

definition zero_OrderPayload :: OrderPayload where
  "zero_OrderPayload =
     \<lparr>ord_Version = 0, ord_OrderID = [], ord_RunID = [], ord_TaskID = [], ord_TaskName = [],
      ord_TaskVersion = 0, ord_Attempt = 0, ord_LeaseToken = [], ord_RunnerID = [],
      ord_IssuedAt = 0, ord_NotBefore = 0, ord_ExpiresAt = 0, ord_Type = OtherOrder [],
      ord_Command = [], ord_WorkingDir = [], ord_Environment = [], ord_SecretRefs = [],
      ord_TargetOrderID = [], ord_DurationSeconds = 0,
      ord_Limits = \<lparr>MaxOutputBytes = 0, MaxMemoryBytes = 0, MaxProcesses = 0\<rparr>,
      ord_Resources = [], ord_Issuer = [], ord_Recipient = [], ord_RunnerSessionID = [],
      ord_FencingToken = 0, ord_LeaseNotAfter = 0, ord_ExecutionSpecDigest = []\<rparr>"

definition SecretRequest_Validate :: "SecretDeliveryRequest \<Rightarrow> proto_error + unit" where
  "SecretRequest_Validate p =
     (if sd_Version p \<noteq> ProtocolVersion \<or> sd_RequestID p = [] \<or> sd_OrderID p = [] \<or> sd_RunID p = []
         \<or> sd_Attempt p = 0 \<or> sd_LeaseToken p = [] \<or> sd_RunnerID p = []
         \<or> sd_RunnerSessionID p = [] \<or> sd_FencingToken p = 0 \<or> sd_ExecutionSpecDigest p = []
         \<or> sd_IssuedAt p = 0 \<or> sd_SecretRefs p = []
      then Inl SecretRequestIncomplete
      else ValidateExecution
             (zero_OrderPayload\<lparr>ord_OrderID := sd_OrderID p, ord_RunID := sd_RunID p,
                ord_RunnerID := sd_RunnerID p, ord_RunnerSessionID := sd_RunnerSessionID p,
                ord_LeaseToken := sd_LeaseToken p, ord_SecretRefs := sd_SecretRefs p,
                ord_Command := [''secret-delivery''], ord_WorkingDir := ''.'',
                ord_DurationSeconds := 1\<rparr>))"

definition SecretResponse_Validate :: "SecretDeliveryResponse \<Rightarrow> proto_error + unit" where
  "SecretResponse_Validate p =
     (if sr_Version p \<noteq> ProtocolVersion \<or> sr_RequestID p = [] \<or> sr_RespondedAt p = 0
        then Inl SecretResponseIncomplete
      else if sr_Error p \<noteq> [] \<and> sr_Values p \<noteq> [] then Inl SecretResponseValuesWithError
      else if sr_Error p = [] \<and> sr_Values p = [] then Inl SecretResponseNoValues
      else Inr ())"

section \<open>Replay detection\<close>

text \<open>
  An \<open>Accept\<close> returns the error, if any, and the state it leaves. \<^verbatim>\<open>ReplayGuard\<close> keeps the
  identifiers in memory only.
\<close>

definition ReplayGuard_Accept ::
    "string \<Rightarrow> string list \<Rightarrow> proto_error option \<times> string list" where
  "ReplayGuard_Accept messageID seen =
     (if messageID = [] then (Some MessageIDEmpty, seen)
      else if messageID \<in> set seen then (Some ReplayDetected, seen)
      else (None, messageID # seen))"

text \<open>
  \<^verbatim>\<open>ReplayLog\<close> also appends a line to a file. The environment decides how the append goes:
  the file cannot be opened, only the first bytes of the line are written, the line is written
  but \<^verbatim>\<open>Sync\<close> or \<^verbatim>\<open>Close\<close> reports an error, or all is well.
\<close>

datatype append_outcome = OpenFails | WriteFails nat | SyncFails | CloseFails | Appended

record ReplayLog =
  rl_file :: string
  rl_seen :: "string list"

definition ReplayLog_Accept ::
    "append_outcome \<Rightarrow> string \<Rightarrow> ReplayLog \<Rightarrow> proto_error option \<times> ReplayLog" where
  "ReplayLog_Accept io ident l =
     (if ident = [] then (Some MessageIDEmpty, l)
      else if ident \<in> set (rl_seen l) then (Some ReplayDetected, l)
      else (case io of
         OpenFails \<Rightarrow> (Some ReplayLogIO, l)
       | WriteFails n \<Rightarrow>
           (Some ReplayLogIO, l\<lparr>rl_file := rl_file l @ take n (ident @ [CHR 0x0A])\<rparr>)
       | SyncFails \<Rightarrow> (Some ReplayLogIO, l\<lparr>rl_file := rl_file l @ ident @ [CHR 0x0A]\<rparr>)
       | CloseFails \<Rightarrow> (Some ReplayLogIO, l\<lparr>rl_file := rl_file l @ ident @ [CHR 0x0A]\<rparr>)
       | Appended \<Rightarrow>
           (None, l\<lparr>rl_file := rl_file l @ ident @ [CHR 0x0A], rl_seen := ident # rl_seen l\<rparr>)))"

text \<open>
  \<^verbatim>\<open>bufio.Scanner\<close>: the lines of the file, a final carriage return of a line dropped, no
  line after a final line feed, and an error for a line of 64 KiB or more.
\<close>

definition scan_lines :: "string \<Rightarrow> string list option" where
  "scan_lines content =
     (let parts = Split (CHR 0x0A) content;
          lines = (if last parts = [] then butlast parts else parts)
      in if list_all (\<lambda>l. length l < 65536) lines
         then Some (map (\<lambda>l. if l \<noteq> [] \<and> last l = CHR 0x0D then butlast l else l) lines)
         else None)"

definition OpenReplayLog :: "string option \<Rightarrow> proto_error + ReplayLog" where
  "OpenReplayLog file =
     (case file of
        None \<Rightarrow> Inr \<lparr>rl_file = [], rl_seen = []\<rparr>
      | Some content \<Rightarrow>
          (case scan_lines content of
             None \<Rightarrow> Inl ReplayLogIO
           | Some ls \<Rightarrow> Inr \<lparr>rl_file = content, rl_seen = filter (\<lambda>l. l \<noteq> []) ls\<rparr>))"

section \<open>The verifiers\<close>

definition mustPayload :: "Envelope \<Rightarrow> bytes" where
  "mustPayload envelope = (case PayloadBytes envelope of Inl _ \<Rightarrow> [] | Inr b \<Rightarrow> b)"

text \<open>
  The acceptor is optional, as the source's nil interface; the verifier threads its state.
\<close>

type_synonym 's acceptor = "(string \<Rightarrow> 's \<Rightarrow> proto_error option \<times> 's) option"

definition VerifyOrder ::
    "lib \<Rightarrow> bytes \<Rightarrow> Keyring \<Rightarrow> time \<Rightarrow> string \<Rightarrow> string \<Rightarrow> 32 word \<Rightarrow> string \<Rightarrow> duration
     \<Rightarrow> 's acceptor \<Rightarrow> 's \<Rightarrow> (proto_error + OrderPayload) \<times> 's" where
  "VerifyOrder L raw keys now runnerID runID attempt leaseToken tolerance replay st =
     (case DecodeEnvelope L raw of
        Inl err \<Rightarrow> (Inl err, st)
      | Inr envelope \<Rightarrow>
     (case VerifyAt L keys envelope OrderSignatureDomain now of
        Inl err \<Rightarrow> (Inl err, st)
      | Inr _ \<Rightarrow>
     (case DecodeOrderPayload L (mustPayload envelope) of
        Inl err \<Rightarrow> (Inl err, st)
      | Inr payload \<Rightarrow>
     (case Order_ValidateTime payload now tolerance of
        Inl err \<Rightarrow> (Inl err, st)
      | Inr _ \<Rightarrow>
     (case Order_ValidateIdentity payload runnerID runID attempt leaseToken of
        Inl err \<Rightarrow> (Inl err, st)
      | Inr _ \<Rightarrow>
     (case ValidateExecution payload of
        Inl err \<Rightarrow> (Inl err, st)
      | Inr _ \<Rightarrow>
     (case replay of
        None \<Rightarrow> (Inr payload, st)
      | Some accept \<Rightarrow>
          (case accept (ord_OrderID payload) st of
             (Some err, st') \<Rightarrow> (Inl err, st')
           | (None, st') \<Rightarrow> (Inr payload, st')))))))))"

definition VerifyEvent ::
    "lib \<Rightarrow> bytes \<Rightarrow> Keyring \<Rightarrow> time \<Rightarrow> string \<Rightarrow> string \<Rightarrow> 32 word \<Rightarrow> string \<Rightarrow> 64 word
     \<Rightarrow> duration \<Rightarrow> 's acceptor \<Rightarrow> 's \<Rightarrow> (proto_error + EventPayload) \<times> 's" where
  "VerifyEvent L raw keys now runnerID runID attempt leaseToken expectedSequence tolerance replay st =
     (case DecodeEnvelope L raw of
        Inl err \<Rightarrow> (Inl err, st)
      | Inr envelope \<Rightarrow>
     (case VerifyAt L keys envelope EventSignatureDomain now of
        Inl err \<Rightarrow> (Inl err, st)
      | Inr _ \<Rightarrow>
     (case DecodeEventPayload L (mustPayload envelope) of
        Inl err \<Rightarrow> (Inl err, st)
      | Inr payload \<Rightarrow>
     (case Event_ValidateTime payload now tolerance of
        Inl err \<Rightarrow> (Inl err, st)
      | Inr _ \<Rightarrow>
     (case Event_ValidateIdentity payload runnerID runID attempt leaseToken of
        Inl err \<Rightarrow> (Inl err, st)
      | Inr _ \<Rightarrow>
     (case ValidateSequence payload expectedSequence of
        Inl err \<Rightarrow> (Inl err, st)
      | Inr _ \<Rightarrow>
     (case ValidateError payload of
        Inl err \<Rightarrow> (Inl err, st)
      | Inr _ \<Rightarrow>
     (case replay of
        None \<Rightarrow> (Inr payload, st)
      | Some accept \<Rightarrow>
          (case accept (evt_EventID payload) st of
             (Some err, st') \<Rightarrow> (Inl err, st')
           | (None, st') \<Rightarrow> (Inr payload, st'))))))))))"

end
