(* ===== verification/WorkerStore.thy ===== *)
theory WorkerStore
  imports Protocol TimeFormat Database
begin

text \<open>
  The durable state of a worker (\<^verbatim>\<open>worker/store.go\<close>, \<^verbatim>\<open>worker/recovery.go\<close>): the inbox
  of orders, the outbox of events and the message table of one SQLite file, and the operations
  on them. Every statement is atomic and \<^verbatim>\<open>RecoverOrders\<close> is one transaction: an error
  leaves the store as it was. Instants are stored as texts and compared as texts, as in the code. \<open>clock\<close> is
  \<^verbatim>\<open>time.Now()\<close>; \<open>notice\<close> is the JSON encoder of the unsigned recovery notice.

  A conflict on the target of \<^verbatim>\<open>ON CONFLICT ... DO NOTHING\<close> is checked before the other unique
  constraints, which are errors.
\<close>

section \<open>State\<close>

record inbox_order =
  io_OrderID :: string
  io_ExecutionAttemptID :: string
  io_RunID :: string
  io_TaskVersionID :: string
  io_RunnerID :: string
  io_RunnerSessionID :: string
  io_ExecutorBootID :: string
  io_Envelope :: bytes
  io_State :: string
  io_LeaseToken :: string
  io_FencingToken :: int
  io_LeaseNotAfter :: string
  io_ExecutionSpecDigest :: string
  io_ProcessID :: int
  io_AttemptNumber :: int
  io_ReceivedAt :: string
  io_ClaimedAt :: "string option"
  io_ProcessStartedAt :: "string option"
  io_FinishedAt :: "string option"
  io_LastError :: "string option"

record outbox_event =
  oe_EventID :: string
  oe_OrderID :: string
  oe_Channel :: string
  oe_Sequence :: int
  oe_EventType :: string
  oe_Envelope :: bytes
  oe_State :: string
  oe_AvailableAt :: string
  oe_PublishedAt :: "string option"
  oe_CreatedAt :: string

record LocalStore =
  ls_messages :: "(string \<times> OrderPayload) list"
  ls_orders :: "inbox_order list"
  ls_events :: "outbox_event list"

datatype worker_error =
    OrderFieldsRequired | OrderNotClaimable | EventFieldsRequired | RetentionNegative | RecoveryInputs | SQLConstraint
  | Proto proto_error

definition OpenStore :: LocalStore where
  "OpenStore = \<lparr>ls_messages = [], ls_orders = [], ls_events = []\<rparr>"

section \<open>Orders\<close>

text \<open>The argument \<open>order\<close> has the fields the caller sets; the rest of the row is fixed here.\<close>

definition PutOrder :: "time \<Rightarrow> time \<Rightarrow> inbox_order \<Rightarrow> LocalStore \<Rightarrow> worker_error + LocalStore" where
  "PutOrder clock leaseNotAfter order s =
     (if io_OrderID order = [] \<or> io_ExecutionAttemptID order = [] \<or> io_RunID order = [] \<or> io_RunnerID order = []
         \<or> io_RunnerSessionID order = [] \<or> io_Envelope order = []
      then Inl OrderFieldsRequired
      else if list_ex (\<lambda>row. io_OrderID row = io_OrderID order) (ls_orders s) then Inr s
      else if list_ex (\<lambda>row. io_ExecutionAttemptID row = io_ExecutionAttemptID order) (ls_orders s) then Inl SQLConstraint
      else Inr (s\<lparr>ls_orders := ls_orders s @
             [order\<lparr>io_State := ''RECEIVED'', io_LeaseNotAfter := rfc3339_nano leaseNotAfter,
                    io_AttemptNumber := max 1 (io_AttemptNumber order), io_ReceivedAt := rfc3339_nano clock,
                    io_ClaimedAt := None, io_ProcessStartedAt := None, io_FinishedAt := None, io_LastError := None\<rparr>]\<rparr>))"

definition ClaimOrder :: "time \<Rightarrow> string \<Rightarrow> string \<Rightarrow> int \<Rightarrow> LocalStore \<Rightarrow> worker_error + LocalStore" where
  "ClaimOrder clock orderID bootID processID s =
     (if sql_count (\<lambda>row. io_OrderID row = orderID \<and> io_State row = ''RECEIVED'') (ls_orders s) \<noteq> 1 then Inl OrderNotClaimable
      else Inr (s\<lparr>ls_orders := sql_update (\<lambda>row. io_OrderID row = orderID \<and> io_State row = ''RECEIVED'')
             (\<lambda>row. row\<lparr>io_State := ''CLAIMED'', io_ExecutorBootID := bootID, io_ProcessID := processID,
                       io_ClaimedAt := Some (rfc3339_nano clock)\<rparr>) (ls_orders s)\<rparr>))"

definition MarkProcessStarted :: "time \<Rightarrow> string \<Rightarrow> LocalStore \<Rightarrow> LocalStore" where
  "MarkProcessStarted clock orderID s =
     s\<lparr>ls_orders := sql_update (\<lambda>row. io_OrderID row = orderID \<and> io_State row = ''CLAIMED'')
        (\<lambda>row. row\<lparr>io_State := ''RUNNING'', io_ProcessStartedAt := Some (rfc3339_nano clock)\<rparr>) (ls_orders s)\<rparr>"

definition FinishOrder :: "time \<Rightarrow> string \<Rightarrow> string \<Rightarrow> string \<Rightarrow> LocalStore \<Rightarrow> LocalStore" where
  "FinishOrder clock orderID state lastError s =
     s\<lparr>ls_orders := sql_update (\<lambda>row. io_OrderID row = orderID \<and> io_State row \<in> {''CLAIMED'', ''RUNNING''})
        (\<lambda>row. row\<lparr>io_State := state, io_LastError := Some lastError, io_FinishedAt := Some (rfc3339_nano clock)\<rparr>) (ls_orders s)\<rparr>"

section \<open>Events\<close>

definition put_event_row :: "outbox_event \<Rightarrow> LocalStore \<Rightarrow> worker_error + LocalStore" where
  "put_event_row e s =
     (if list_ex (\<lambda>row. oe_EventID row = oe_EventID e) (ls_events s) then Inr s
      else if list_ex (\<lambda>row. oe_OrderID row = oe_OrderID e \<and> oe_Channel row = oe_Channel e \<and> oe_Sequence row = oe_Sequence e) (ls_events s)
      then Inl SQLConstraint
      else Inr (s\<lparr>ls_events := ls_events s @ [e]\<rparr>))"

definition PutEvent :: "time \<Rightarrow> time \<Rightarrow> outbox_event \<Rightarrow> LocalStore \<Rightarrow> worker_error + LocalStore" where
  "PutEvent clock1 clock2 event s =
     (if oe_EventID event = [] \<or> oe_OrderID event = [] \<or> oe_Channel event = [] \<or> oe_Sequence event \<le> 0 \<or> oe_Envelope event = []
      then Inl EventFieldsRequired
      else put_event_row (event\<lparr>oe_State := ''PENDING'', oe_AvailableAt := rfc3339_nano clock1, oe_PublishedAt := None,
                               oe_CreatedAt := rfc3339_nano clock2\<rparr>) s)"

definition PendingEvents :: "time \<Rightarrow> int \<Rightarrow> LocalStore \<Rightarrow> outbox_event list" where
  "PendingEvents clock limit0 s =
     (let limit = (if limit0 < 1 then 100 else limit0)
      in sql_limit (nat limit) (\<lambda>e. (oe_AvailableAt e, oe_CreatedAt e, oe_EventID e))
           (filter (\<lambda>e. oe_State e = ''PENDING'' \<and> oe_AvailableAt e \<le> rfc3339_nano clock) (ls_events s)))"

definition MarkEventPublished :: "time \<Rightarrow> string \<Rightarrow> LocalStore \<Rightarrow> LocalStore" where
  "MarkEventPublished clock eventID s =
     s\<lparr>ls_events := sql_update (\<lambda>e. oe_EventID e = eventID \<and> oe_State e = ''PENDING'')
        (\<lambda>e. e\<lparr>oe_State := ''PUBLISHED'', oe_PublishedAt := Some (rfc3339_nano clock)\<rparr>) (ls_events s)\<rparr>"

definition superseded :: "LocalStore \<Rightarrow> outbox_event \<Rightarrow> bool" where
  "superseded s old \<longleftrightarrow>
     list_ex (\<lambda>e. oe_OrderID e = oe_OrderID old \<and> oe_Channel e = oe_Channel old \<and> oe_Sequence e > oe_Sequence old) (ls_events s)"

definition CompactPublishedEvents :: "time \<Rightarrow> duration \<Rightarrow> int \<Rightarrow> LocalStore \<Rightarrow> worker_error + (nat \<times> LocalStore)" where
  "CompactPublishedEvents clock olderThan limit0 s =
     (if olderThan < 0 then Inl RetentionNegative
      else (let limit = (if limit0 < 1 then 1000 else limit0);
                cutoff = rfc3339_nano (clock - olderThan);
                doomed = map oe_EventID (sql_limit (nat limit) (\<lambda>e. (coalesce (oe_PublishedAt e) [], oe_EventID e))
                           (filter (\<lambda>e. oe_State e = ''PUBLISHED''
                                       \<and> (case oe_PublishedAt e of None \<Rightarrow> False | Some t \<Rightarrow> t < cutoff)
                                       \<and> superseded s e) (ls_events s)))
            in Inr (sql_count (\<lambda>e. oe_EventID e \<in> set doomed) (ls_events s),
                    s\<lparr>ls_events := filter (\<lambda>e. oe_EventID e \<notin> set doomed) (ls_events s)\<rparr>)))"

section \<open>Recovery after a restart\<close>

definition max_sequence :: "string \<Rightarrow> string \<Rightarrow> LocalStore \<Rightarrow> int" where
  "max_sequence orderID channel s =
     foldr (\<lambda>e m. max (oe_Sequence e) m) (filter (\<lambda>e. oe_OrderID e = orderID \<and> oe_Channel e = channel) (ls_events s)) 0"

definition recovery_event :: "time \<Rightarrow> string \<Rightarrow> string \<Rightarrow> bytes \<Rightarrow> LocalStore \<Rightarrow> outbox_event" where
  "recovery_event clock bootID orderID envelope s =
     \<lparr>oe_EventID = ''recovery:'' @ bootID @ '':'' @ orderID, oe_OrderID = orderID, oe_Channel = ''state'',
      oe_Sequence = max_sequence orderID ''state'' s + 1, oe_EventType = ''unknown'', oe_Envelope = envelope, oe_State = ''PENDING'',
      oe_AvailableAt = rfc3339_nano clock, oe_PublishedAt = None, oe_CreatedAt = rfc3339_nano clock\<rparr>"

definition orphans :: "string \<Rightarrow> LocalStore \<Rightarrow> inbox_order list" where
  "orphans bootID s = filter (\<lambda>row. io_ExecutorBootID row = bootID \<and> io_State row \<in> {''CLAIMED'', ''RUNNING''}) (ls_orders s)"

definition mark_unknown :: "string \<Rightarrow> LocalStore \<Rightarrow> LocalStore" where
  "mark_unknown bootID s =
     s\<lparr>ls_orders := sql_update (\<lambda>row. io_ExecutorBootID row = bootID \<and> io_State row \<in> {''CLAIMED'', ''RUNNING''})
        (\<lambda>row. row\<lparr>io_State := ''UNKNOWN'', io_LastError := Some ''runner restart''\<rparr>) (ls_orders s)\<rparr>"

text \<open>One notice per order; \<open>envelope\<close> builds its bytes from the order and the sequence number, and may fail.\<close>

fun notify_unknown ::
  "(inbox_order \<Rightarrow> int \<Rightarrow> worker_error + bytes) \<Rightarrow> (nat \<Rightarrow> time) \<Rightarrow> string \<Rightarrow> inbox_order list \<Rightarrow> LocalStore \<Rightarrow> worker_error + LocalStore" where
  "notify_unknown envelope clock bootID [] s = Inr s"
| "notify_unknown envelope clock bootID (row # rows) s =
     res_bind (envelope row (max_sequence (io_OrderID row) ''state'' s + 1)) (\<lambda>raw.
     res_bind (put_event_row (recovery_event (clock (length rows)) bootID (io_OrderID row) raw s) s) (\<lambda>s'.
       notify_unknown envelope clock bootID rows s'))"

definition recover_with ::
  "(inbox_order \<Rightarrow> int \<Rightarrow> worker_error + bytes) \<Rightarrow> (nat \<Rightarrow> time) \<Rightarrow> string \<Rightarrow> LocalStore \<Rightarrow> worker_error + (string list \<times> LocalStore)" where
  "recover_with envelope clock bootID s =
     res_bind (notify_unknown envelope clock bootID (orphans bootID s) s) (\<lambda>s'.
       Inr (map io_OrderID (orphans bootID s), mark_unknown bootID s'))"

definition RecoverOrders ::
  "((string, string) gomap \<Rightarrow> bytes) \<Rightarrow> (nat \<Rightarrow> time) \<Rightarrow> string \<Rightarrow> LocalStore \<Rightarrow> worker_error + (string list \<times> LocalStore)" where
  "RecoverOrders notice clock bootID s =
     recover_with (\<lambda>row _. Inr (notice [(''order_id'', io_OrderID row), (''reason'', ''runner restart''), (''state'', ''UNKNOWN'')]))
       clock bootID s"

definition proto_result :: "proto_error + 'a \<Rightarrow> worker_error + 'a" where
  "proto_result m = (case m of Inl e \<Rightarrow> Inl (Proto e) | Inr x \<Rightarrow> Inr x)"

definition signed_notice :: "lib \<Rightarrow> SigningKey \<Rightarrow> time \<Rightarrow> string \<Rightarrow> inbox_order \<Rightarrow> int \<Rightarrow> worker_error + bytes" where
  "signed_notice L key clock bootID row sequence =
     res_bind (proto_result (DecodeEnvelope L (io_Envelope row))) (\<lambda>envelope.
     res_bind (proto_result (PayloadBytes envelope)) (\<lambda>raw.
     res_bind (proto_result (DecodeOrderPayload L raw)) (\<lambda>order.
     res_bind (proto_result (EncodeEventPayload L
        \<lparr>evt_Version = ProtocolVersion, evt_EventID = ''recovery:'' @ bootID @ '':'' @ io_OrderID row, evt_OrderID = io_OrderID row,
         evt_RunID = ord_RunID order, evt_TaskID = ord_TaskID order, evt_Attempt = ord_Attempt order,
         evt_LeaseToken = ord_LeaseToken order, evt_RunnerID = ord_RunnerID order, evt_Sequence = word_of_int sequence,
         evt_ObservedAt = clock, evt_Type = EventUnknown, evt_Result = [], evt_Metrics = [], evt_OutputDigest = [],
         evt_ExitCode = None, evt_Error = ''runner restart'', evt_RunnerSessionID = ord_RunnerSessionID order,
         evt_FencingToken = ord_FencingToken order, evt_EventChannel = ''state''\<rparr>)) (\<lambda>payload.
     res_bind (proto_result (SignEvent L key payload)) (\<lambda>signed. proto_result (EncodeEnvelope L signed))))))"

definition RecoverOrdersSigned ::
  "lib \<Rightarrow> SigningKey \<Rightarrow> time \<Rightarrow> string \<Rightarrow> LocalStore \<Rightarrow> worker_error + (string list \<times> LocalStore)" where
  "RecoverOrdersSigned L key clock bootID s =
     (if bootID = [] \<or> length (sk_Private key) \<noteq> 64 then Inl RecoveryInputs
      else recover_with (signed_notice L key clock bootID) (\<lambda>_. clock) bootID s)"

section \<open>Accepting an order\<close>

definition put_message :: "string \<Rightarrow> OrderPayload \<Rightarrow> LocalStore \<Rightarrow> LocalStore" where
  "put_message ident payload s =
     (if list_ex (\<lambda>(i, _). i = ident) (ls_messages s) then s else s\<lparr>ls_messages := ls_messages s @ [(ident, payload)]\<rparr>)"

definition received_order :: "OrderPayload \<Rightarrow> bytes \<Rightarrow> inbox_order" where
  "received_order p raw =
     \<lparr>io_OrderID = ord_OrderID p, io_ExecutionAttemptID = ord_OrderID p @ ''-attempt'', io_RunID = ord_RunID p,
      io_TaskVersionID = ord_TaskID p, io_RunnerID = ord_RunnerID p, io_RunnerSessionID = ord_RunnerSessionID p,
      io_ExecutorBootID = [], io_Envelope = raw, io_State = ''RECEIVED'', io_LeaseToken = ord_LeaseToken p,
      io_FencingToken = sint (ord_FencingToken p), io_LeaseNotAfter = [], io_ExecutionSpecDigest = ord_ExecutionSpecDigest p,
      io_ProcessID = 0, io_AttemptNumber = uint (ord_Attempt p), io_ReceivedAt = [], io_ClaimedAt = None,
      io_ProcessStartedAt = None, io_FinishedAt = None, io_LastError = None\<rparr>"

text \<open>Two statements, not one transaction: an error of the second leaves the effect of the first.\<close>

definition AcceptOrder ::
  "lib \<Rightarrow> bytes \<Rightarrow> Keyring \<Rightarrow> time \<Rightarrow> time \<Rightarrow> string \<Rightarrow> string \<Rightarrow> 32 word \<Rightarrow> string \<Rightarrow> duration \<Rightarrow> LocalStore
     \<Rightarrow> (worker_error + OrderPayload) \<times> LocalStore" where
  "AcceptOrder L raw keys now clock runnerID runID attempt leaseToken tolerance s =
     (case fst (VerifyOrder L raw keys now runnerID runID attempt leaseToken tolerance None ()) of
        Inl e \<Rightarrow> (Inl (Proto e), s)
      | Inr payload \<Rightarrow>
          (let s1 = put_message (ord_OrderID payload) payload s
           in (case PutOrder clock (ord_ExpiresAt payload) (received_order payload raw) s1 of
                 Inl e \<Rightarrow> (Inl e, s1)
               | Inr s2 \<Rightarrow> (Inr payload, s2))))"

end
