(* ===== verification/WorkerExecutor.thy ===== *)
theory WorkerExecutor
  imports Prelude
begin

text \<open>
  How a worker runs a command and collects its output (\<^verbatim>\<open>worker/worker.go\<close>, \<^verbatim>\<open>platform/security.go\<close>).
  The process itself is outside the model: what it does is the sequence of events the
  select loop of \<^verbatim>\<open>runCommand\<close> receives. \<open>onChunk\<close> is the callback that persists output; it
  has a state of its own. Memory sampling does not touch the output and is left out of the loop.
\<close>

section \<open>Checks before the start\<close>

text \<open>\<open>canonical\<close> is \<^verbatim>\<open>canonicalPath\<close>, which asks the file system to resolve symbolic links.\<close>

definition AllowedPath :: "(string \<Rightarrow> string option) \<Rightarrow> string \<Rightarrow> string \<Rightarrow> bool" where
  "AllowedPath canonical root path =
     (case canonical root of
        None \<Rightarrow> False
      | Some base \<Rightarrow>
          (case canonical path of
             None \<Rightarrow> False
           | Some clean \<Rightarrow> clean = base \<or> prefix (base @ ''/'') clean))"

record Executor =
  ex_Roots :: "string list"
  ex_AllowedCommands :: "(string, bool) gomap"
  ex_MaxOutputBytes :: int
  ex_Environment :: "(string, string) gomap"

text \<open>The texts of the errors an execution can end with; \<open>Other\<close> is an error of the operating system or of the callback.\<close>

datatype exec_error =
    CommandRequired | DeadlineRequired | OutputLimitRequired | ExecutableNotAllowed | OutsideRoots
  | ErrOutputLimit | Other string

definition exec_text :: "exec_error \<Rightarrow> string" where
  "exec_text e =
     (case e of
        CommandRequired \<Rightarrow> ''command is required''
      | DeadlineRequired \<Rightarrow> ''execution deadline is required''
      | OutputLimitRequired \<Rightarrow> ''maximum output bytes must be greater than zero''
      | ExecutableNotAllowed \<Rightarrow> ''executable is not allowed''
      | OutsideRoots \<Rightarrow> ''working directory is outside configured roots''
      | ErrOutputLimit \<Rightarrow> ''command output exceeds configured limit''
      | Other t \<Rightarrow> t)"

text \<open>\<open>absolute\<close> is \<^verbatim>\<open>filepath.Abs\<close>, which may fail to read the current directory.\<close>

definition validateExecution ::
  "(string \<Rightarrow> string + string) \<Rightarrow> (string \<Rightarrow> string option) \<Rightarrow> Executor \<Rightarrow> bool \<Rightarrow> string list \<Rightarrow> string \<Rightarrow> exec_error + string" where
  "validateExecution absolute canonical e hasDeadline args dir =
     (if args = [] then Inl CommandRequired
      else if \<not> hasDeadline then Inl DeadlineRequired
      else if ex_MaxOutputBytes e \<le> 0 then Inl OutputLimitRequired
      else if ex_AllowedCommands e \<noteq> [] \<and> \<not> get_or False (ex_AllowedCommands e) (hd args) then Inl ExecutableNotAllowed
      else (case absolute dir of
              Inl err \<Rightarrow> Inl (Other err)
            | Inr clean \<Rightarrow>
                (if list_ex (\<lambda>root. AllowedPath canonical root clean) (ex_Roots e) then Inr clean else Inl OutsideRoots)))"

text \<open>
  The environment of the process: the worker's own with the values of the order, which replace the
  entries of the same name in place and are appended otherwise. An entry without a name keeps its place.
\<close>

definition entry_name :: "string \<Rightarrow> string option" where
  "entry_name entry = (case cut (CHR ''='') entry of Some (name, _) \<Rightarrow> if name = [] then None else Some name | None \<Rightarrow> None)"

definition env_positions :: "string list \<Rightarrow> (string, nat) gomap" where
  "env_positions environment =
     fold (\<lambda>index positions. case entry_name (environment ! index) of None \<Rightarrow> positions | Some name \<Rightarrow> AList.update name index positions)
       [0..<length environment] []"

definition applyCommandEnvironment :: "string list \<Rightarrow> (string, string) gomap \<Rightarrow> string list" where
  "applyCommandEnvironment inherited given =
     (let positions = env_positions inherited
      in fold (\<lambda>(name, v) environment.
              let entry = name @ ''='' @ v
              in (case map_of positions name of Some index \<Rightarrow> environment[index := entry] | None \<Rightarrow> environment @ [entry])) given inherited)"

section \<open>Collecting output\<close>

record boundedBuffer =
  bb_data :: string
  bb_limit :: int
  bb_exceeded :: bool

record 'c collector =
  co_output :: boundedBuffer
  co_buffers :: "(string, string) gomap"
  co_callbackErr :: "exec_error option"
  co_stopped :: bool
  co_cancelled :: bool
  co_sink :: 'c

definition new_collector :: "int \<Rightarrow> 'c \<Rightarrow> 'c collector" where
  "new_collector limit sink =
     \<lparr>co_output = \<lparr>bb_data = [], bb_limit = limit, bb_exceeded = False\<rparr>, co_buffers = [(''stdout'', []), (''stderr'', [])],
      co_callbackErr = None, co_stopped = False, co_cancelled = False, co_sink = sink\<rparr>"

definition processExecutorChunk :: "string \<Rightarrow> string \<Rightarrow> 'c collector \<Rightarrow> 'c collector" where
  "processExecutorChunk stream bytes st =
     (if co_stopped st then st
      else (let remaining = bb_limit (co_output st) - int (length (bb_data (co_output st)))
            in if remaining \<le> 0
               then st\<lparr>co_output := (co_output st)\<lparr>bb_exceeded := True\<rparr>, co_stopped := True, co_cancelled := True\<rparr>
               else (let over = int (length bytes) > remaining;
                         accepted = (if over then take (nat remaining) bytes else bytes);
                         st1 = (if over
                                then st\<lparr>co_output := (co_output st)\<lparr>bb_exceeded := True\<rparr>, co_stopped := True, co_cancelled := True\<rparr>
                                else st)
                     in st1\<lparr>co_output := (co_output st1)\<lparr>bb_data := bb_data (co_output st1) @ accepted\<rparr>,
                            co_buffers := AList.update stream (get_or [] (co_buffers st1) stream @ accepted) (co_buffers st1)\<rparr>)))"

definition flushExecutorBuffer ::
  "(string \<Rightarrow> string \<Rightarrow> 'c \<Rightarrow> exec_error option \<times> 'c) \<Rightarrow> string \<Rightarrow> 'c collector \<Rightarrow> 'c collector" where
  "flushExecutorBuffer onChunk stream st =
     (if co_callbackErr st \<noteq> None \<or> get_or [] (co_buffers st) stream = [] then st
      else (let chunk = get_or [] (co_buffers st) stream;
                st1 = st\<lparr>co_buffers := AList.update stream [] (co_buffers st)\<rparr>
            in (case onChunk stream chunk (co_sink st1) of
                  (None, sink) \<Rightarrow> st1\<lparr>co_sink := sink\<rparr>
                | (Some e, sink) \<Rightarrow> st1\<lparr>co_sink := sink, co_callbackErr := Some e, co_stopped := True, co_cancelled := True\<rparr>)))"

definition flushExecutorBuffers ::
  "(string \<Rightarrow> string \<Rightarrow> 'c \<Rightarrow> exec_error option \<times> 'c) \<Rightarrow> 'c collector \<Rightarrow> 'c collector" where
  "flushExecutorBuffers onChunk st = flushExecutorBuffer onChunk ''stderr'' (flushExecutorBuffer onChunk ''stdout'' st)"

text \<open>What the select loop receives: output of the process, or the tick of the flush timer.\<close>

datatype loop_event = Output string string | FlushTick

fun run_loop :: "(string \<Rightarrow> string \<Rightarrow> 'c \<Rightarrow> exec_error option \<times> 'c) \<Rightarrow> loop_event list \<Rightarrow> 'c collector \<Rightarrow> 'c collector" where
  "run_loop onChunk [] st = st"
| "run_loop onChunk (Output stream bytes # es) st = run_loop onChunk es (processExecutorChunk stream bytes st)"
| "run_loop onChunk (FlushTick # es) st = run_loop onChunk es (flushExecutorBuffers onChunk st)"

definition drainExecutorChunks ::
  "(string \<Rightarrow> string \<Rightarrow> 'c \<Rightarrow> exec_error option \<times> 'c) \<Rightarrow> (string \<times> string) list \<Rightarrow> int option \<Rightarrow> exec_error option \<Rightarrow> 'c collector
     \<Rightarrow> (string \<times> int option \<times> exec_error option) \<times> 'c collector" where
  "drainExecutorChunks onChunk left exitCode waitErr st =
     (let st1 = fold (\<lambda>(stream, bytes) s. processExecutorChunk stream bytes s) left st;
          st2 = flushExecutorBuffers onChunk st1
      in ((bb_data (co_output st2), exitCode,
           if co_callbackErr st2 \<noteq> None then co_callbackErr st2
           else if bb_exceeded (co_output st2) then Some ErrOutputLimit
           else waitErr), st2))"

text \<open>
  What the process does: it may fail to start; otherwise the events up to its end, the output still in
  the channel then, its exit code and the error of waiting for it.
\<close>

record process_run =
  pr_startError :: "exec_error option"
  pr_events :: "loop_event list"
  pr_left :: "(string \<times> string) list"
  pr_exitCode :: "int option"
  pr_waitErr :: "exec_error option"

definition runCommand ::
  "int \<Rightarrow> process_run \<Rightarrow> (string \<Rightarrow> string \<Rightarrow> 'c \<Rightarrow> exec_error option \<times> 'c) \<Rightarrow> 'c \<Rightarrow> (string \<times> int option \<times> exec_error option) \<times> 'c" where
  "runCommand limit run onChunk sink =
     (case pr_startError run of
        Some e \<Rightarrow> (([], None, Some e), sink)
      | None \<Rightarrow>
          (case drainExecutorChunks onChunk (pr_left run) (pr_exitCode run) (pr_waitErr run)
                  (run_loop onChunk (pr_events run) (new_collector limit sink)) of
             (r, st) \<Rightarrow> (r, co_sink st)))"

definition RunStreamingWithExitCode ::
  "(string \<Rightarrow> string + string) \<Rightarrow> (string \<Rightarrow> string option) \<Rightarrow> Executor \<Rightarrow> bool \<Rightarrow> string list \<Rightarrow> string \<Rightarrow> process_run
     \<Rightarrow> (string \<Rightarrow> string \<Rightarrow> 'c \<Rightarrow> exec_error option \<times> 'c) \<Rightarrow> 'c \<Rightarrow> (string \<times> int option \<times> exec_error option) \<times> 'c" where
  "RunStreamingWithExitCode absolute canonical e hasDeadline args dir run onChunk sink =
     (case validateExecution absolute canonical e hasDeadline args dir of
        Inl err \<Rightarrow> (([], None, Some err), sink)
      | Inr _ \<Rightarrow> runCommand (ex_MaxOutputBytes e) run onChunk sink)"

section \<open>Output is delivered completely and in order\<close>

text \<open>What the process wrote, in the order the worker received it, and that sequence cut after \<open>n\<close> bytes.\<close>

definition output_of :: "process_run \<Rightarrow> (string \<times> string) list" where
  "output_of run = concat (map (\<lambda>e. case e of Output stream bytes \<Rightarrow> [(stream, bytes)] | FlushTick \<Rightarrow> []) (pr_events run)) @ pr_left run"

fun cut_output :: "nat \<Rightarrow> (string \<times> string) list \<Rightarrow> (string \<times> string) list" where
  "cut_output n [] = []"
| "cut_output n ((stream, bytes) # xs) = (stream, take n bytes) # cut_output (n - length bytes) xs"

definition of_stream :: "string \<Rightarrow> (string \<times> string) list \<Rightarrow> string" where
  "of_stream stream xs = concat (map snd (filter (\<lambda>x. fst x = stream) xs))"

text \<open>A callback together with the list of the chunks it has taken over.\<close>

definition recording ::
  "(string \<Rightarrow> string \<Rightarrow> 'c \<Rightarrow> exec_error option \<times> 'c) \<Rightarrow> string \<Rightarrow> string \<Rightarrow> 'c \<times> (string \<times> string) list
     \<Rightarrow> exec_error option \<times> ('c \<times> (string \<times> string) list)" where
  "recording onChunk stream bytes sink =
     (case onChunk stream bytes (fst sink) of
        (None, c) \<Rightarrow> (None, (c, snd sink @ [(stream, bytes)]))
      | (Some e, c) \<Rightarrow> (Some e, (c, snd sink)))"

lemma of_stream_simps [simp]:
  "of_stream s [] = []" "of_stream s (xs @ ys) = of_stream s xs @ of_stream s ys"
  "of_stream s ((s', b) # xs) = (if s' = s then b @ of_stream s xs else of_stream s xs)"
  by (auto simp: of_stream_def)

lemma cut_output_snoc:
  "cut_output n (xs @ [(s, b)]) = cut_output n xs @ [(s, take (n - length (concat (map snd xs))) b)]"
  by (induction n xs rule: cut_output.induct) simp_all

lemma concat_cut_output: "concat (map snd (cut_output n xs)) = take n (concat (map snd xs))"
  by (induction n xs rule: cut_output.induct) simp_all

abbreviation streams :: "string set" where "streams \<equiv> {''stdout'', ''stderr''}"

text \<open>The state of the collector after the output \<open>xs\<close>.\<close>

definition collected :: "nat \<Rightarrow> (string \<times> string) list \<Rightarrow> ('c \<times> (string \<times> string) list) collector \<Rightarrow> bool" where
  "collected n xs st \<longleftrightarrow>
     bb_limit (co_output st) = int n
     \<and> (if co_callbackErr st = None
        then (\<forall>s \<in> streams. of_stream s (snd (co_sink st)) @ get_or [] (co_buffers st) s = of_stream s (cut_output n xs))
             \<and> bb_data (co_output st) = take n (concat (map snd xs)) \<and> bb_exceeded (co_output st) = co_stopped st
             \<and> (if co_stopped st then n \<le> length (concat (map snd xs)) else length (concat (map snd xs)) \<le> n)
        else co_stopped st \<and> (\<forall>s \<in> streams. prefix (of_stream s (snd (co_sink st))) (of_stream s (cut_output n xs))))"

lemma collected_process:
  assumes "collected n xs st" "stream \<in> streams"
  shows "collected n (xs @ [(stream, bytes)]) (processExecutorChunk stream bytes st)"
proof (cases "co_stopped st")
  case True
  with assms show ?thesis
    by (auto simp: collected_def processExecutorChunk_def cut_output_snoc split: if_splits)
next
  case False
  then have err: "co_callbackErr st = None" using assms(1) by (auto simp: collected_def split: if_splits)
  let ?l = "length (concat (map snd xs))"
  have st: "bb_limit (co_output st) = int n" "bb_data (co_output st) = concat (map snd xs)" "?l \<le> n" "\<not> bb_exceeded (co_output st)"
    and parts: "\<forall>s \<in> streams. of_stream s (snd (co_sink st)) @ get_or [] (co_buffers st) s = of_stream s (cut_output n xs)"
    using assms(1) False err by (auto simp: collected_def)
  have cut: "int (length bytes) > int n - int ?l \<longleftrightarrow> length bytes > n - ?l" "nat (int n - int ?l) = n - ?l"
    "int n - int ?l \<le> 0 \<longleftrightarrow> n = ?l" using st(3) by auto
  show ?thesis
    using False err st parts cut assms(2)
    by (auto simp: collected_def processExecutorChunk_def Let_def cut_output_snoc)
qed

lemma collected_flush:
  assumes "collected n xs st" "stream \<in> streams"
  shows "collected n xs (flushExecutorBuffer (recording onChunk) stream st)"
proof (cases "co_callbackErr st \<noteq> None \<or> get_or [] (co_buffers st) stream = []")
  case True
  with assms show ?thesis by (auto simp: flushExecutorBuffer_def)
next
  case False
  let ?chunk = "get_or [] (co_buffers st) stream"
  obtain r c where r: "onChunk stream ?chunk (fst (co_sink st)) = (r, c)" by force
  have parts: "of_stream s (snd (co_sink st)) @ get_or [] (co_buffers st) s = of_stream s (cut_output n xs)" if "s \<in> streams" for s
    using assms(1) False that by (auto simp: collected_def)
  have start: "prefix (of_stream s (snd (co_sink st))) (of_stream s (cut_output n xs))" if "s \<in> streams" for s
    using parts [OF that] by (metis prefixI)
  show ?thesis
  proof (cases r)
    case None
    have "of_stream s (snd (co_sink st) @ [(stream, ?chunk)]) @ get_or [] (AList.update stream [] (co_buffers st)) s
        = of_stream s (cut_output n xs)" if "s \<in> streams" for s using parts [OF that] by auto
    then show ?thesis using assms(1) False r None by (auto simp: collected_def flushExecutorBuffer_def recording_def Let_def)
  next
    case (Some e)
    then show ?thesis using assms(1) False r start by (auto simp: collected_def flushExecutorBuffer_def recording_def Let_def)
  qed
qed

lemma collected_flushes: "collected n xs st \<Longrightarrow> collected n xs (flushExecutorBuffers (recording onChunk) st)"
  unfolding flushExecutorBuffers_def by (intro collected_flush) simp_all

lemma collected_loop:
  assumes "collected n xs st" "\<forall>e \<in> set es. case e of Output stream _ \<Rightarrow> stream \<in> streams | FlushTick \<Rightarrow> True"
  shows "collected n (xs @ concat (map (\<lambda>e. case e of Output stream bytes \<Rightarrow> [(stream, bytes)] | FlushTick \<Rightarrow> []) es)) (run_loop (recording onChunk) es st)"
  using assms
proof (induction es arbitrary: xs st)
  case (Cons e es)
  show ?case
  proof (cases e)
    case (Output stream bytes)
    with Cons.prems have "collected n (xs @ [(stream, bytes)]) (processExecutorChunk stream bytes st)" by (simp add: collected_process)
    from Cons.IH [OF this] Cons.prems(2) Output show ?thesis by simp
  next
    case FlushTick
    from Cons.IH [OF collected_flushes [OF Cons.prems(1)]] Cons.prems(2) FlushTick show ?thesis by simp
  qed
qed simp

lemma collected_drain:
  assumes "collected n xs st" "\<forall>x \<in> set left. fst x \<in> streams"
  shows "collected n (xs @ left) (fold (\<lambda>(stream, bytes) s. processExecutorChunk stream bytes s) left st)"
  using assms
proof (induction left arbitrary: xs st)
  case (Cons x left)
  obtain stream bytes where x: "x = (stream, bytes)" by force
  with Cons.prems have "collected n (xs @ [x]) (processExecutorChunk stream bytes st)" by (simp add: collected_process)
  from Cons.IH [OF this] Cons.prems(2) x show ?case by simp
qed simp

text \<open>After the final flush nothing is left in the buffers, unless the callback failed.\<close>

lemma flush_empties:
  "co_callbackErr (flushExecutorBuffer onChunk s st) = None \<Longrightarrow> get_or [] (co_buffers (flushExecutorBuffer onChunk s st)) s = []"
  "get_or [] (co_buffers st) s' = [] \<Longrightarrow> get_or [] (co_buffers (flushExecutorBuffer onChunk s st)) s' = []"
  "co_callbackErr (flushExecutorBuffer onChunk s st) = None \<Longrightarrow> co_callbackErr st = None"
  by (auto simp: flushExecutorBuffer_def Let_def split: prod.splits option.splits if_splits)

lemma flushes_empty:
  assumes "co_callbackErr (flushExecutorBuffers onChunk st) = None" "s \<in> streams"
  shows "get_or [] (co_buffers (flushExecutorBuffers onChunk st)) s = []"
  using assms flush_empties unfolding flushExecutorBuffers_def by (metis insertE singletonD)

lemma callback_ok_process: "co_callbackErr (processExecutorChunk s b st) = co_callbackErr st"
  by (simp add: processExecutorChunk_def Let_def)

lemma callback_ok_flush:
  "(\<And>s b c. fst (onChunk s b c) = None) \<Longrightarrow> co_callbackErr (flushExecutorBuffer (recording onChunk) s st) = co_callbackErr st"
  by (auto simp: flushExecutorBuffer_def recording_def Let_def split: prod.splits option.splits)
     (metis fst_conv option.distinct(1))

lemma callback_ok_flushes:
  "(\<And>s b c. fst (onChunk s b c) = None) \<Longrightarrow> co_callbackErr (flushExecutorBuffers (recording onChunk) st) = co_callbackErr st"
  by (simp add: flushExecutorBuffers_def callback_ok_flush)

lemma callback_ok_loop:
  "(\<And>s b c. fst (onChunk s b c) = None) \<Longrightarrow> co_callbackErr (run_loop (recording onChunk) es st) = co_callbackErr st"
  by (induction "recording onChunk" es st rule: run_loop.induct) (simp_all add: callback_ok_process callback_ok_flushes)

lemma callback_ok_drain: "co_callbackErr (fold (\<lambda>(s, b) st. processExecutorChunk s b st) left st) = co_callbackErr st"
  by (induction left arbitrary: st) (auto simp: callback_ok_process)

lemma collected_new: "collected n [] (new_collector (int n) (sink, []))"
  by (simp add: collected_def new_collector_def get_or_def)

text \<open>
  The output of a command is delivered completely and in order. For each of the two streams the
  chunks handed to the callback, joined, are a prefix of what the process wrote to that stream within
  the output limit; when the callback never fails they are all of it, the output returned is the
  first \<^verbatim>\<open>MaxOutputBytes\<close> bytes of both streams as received, and output beyond the limit is an
  error. Flushes may happen at any time.
\<close>

theorem output_delivered:
  assumes run: "runCommand limit run (recording onChunk) (sink, []) = ((out, code, err), (sink', log))"
    and "pr_startError run = None" "0 < limit" "\<forall>x \<in> set (output_of run). fst x \<in> streams"
  shows "(\<forall>s \<in> streams. prefix (of_stream s log) (of_stream s (cut_output (nat limit) (output_of run))))
    \<and> ((\<forall>s b c. fst (onChunk s b c) = None) \<longrightarrow>
       (\<forall>s \<in> streams. of_stream s log = of_stream s (cut_output (nat limit) (output_of run)))
       \<and> out = take (nat limit) (concat (map snd (output_of run)))
       \<and> (limit < int (length (concat (map snd (output_of run)))) \<longrightarrow> err = Some ErrOutputLimit))"
proof
  let ?xs = "output_of run" and ?n = "nat limit"
  define st1 where "st1 = fold (\<lambda>(s, b) st. processExecutorChunk s b st) (pr_left run)
    (run_loop (recording onChunk) (pr_events run) (new_collector limit (sink, [])))"
  define st2 where "st2 = flushExecutorBuffers (recording onChunk) st1"
  have res: "co_sink st2 = (sink', log)" "out = bb_data (co_output st2)"
    "err = (if co_callbackErr st2 \<noteq> None then co_callbackErr st2 else if bb_exceeded (co_output st2) then Some ErrOutputLimit else pr_waitErr run)"
    using run assms(2) by (auto simp: runCommand_def drainExecutorChunks_def Let_def st2_def st1_def)
  have "case e of Output stream _ \<Rightarrow> stream \<in> streams | FlushTick \<Rightarrow> True" if "e \<in> set (pr_events run)" for e
    using assms(4) that by (cases e) (force simp: output_of_def)+
  moreover have "\<forall>x \<in> set (pr_left run). fst x \<in> streams" using assms(4) by (simp add: output_of_def)
  ultimately have "collected ?n ?xs st1"
    unfolding st1_def output_of_def
    using assms(3) collected_new [of ?n sink] by (intro collected_drain collected_loop [where xs = "[]", simplified]) auto
  then have c: "collected ?n ?xs st2" unfolding st2_def by (rule collected_flushes)
  show "\<forall>s \<in> streams. prefix (of_stream s log) (of_stream s (cut_output ?n ?xs))"
    using c res(1) by (auto simp: collected_def split: if_splits) (metis prefixI)+
  show "(\<forall>s b c. fst (onChunk s b c) = None) \<longrightarrow>
       (\<forall>s \<in> streams. of_stream s log = of_stream s (cut_output ?n ?xs)) \<and> out = take ?n (concat (map snd ?xs))
       \<and> (limit < int (length (concat (map snd ?xs))) \<longrightarrow> err = Some ErrOutputLimit)"
  proof
    assume ok: "\<forall>s b c. fst (onChunk s b c) = None"
    then have none: "co_callbackErr st2 = None"
      by (simp add: st2_def st1_def callback_ok_flushes callback_ok_drain callback_ok_loop new_collector_def)
    then have empty: "get_or [] (co_buffers st2) s = []" if "s \<in> streams" for s using flushes_empty that unfolding st2_def by blast
    have "of_stream s log = of_stream s (cut_output ?n ?xs)" if "s \<in> streams" for s
      using c none that empty [OF that] res(1) by (auto simp: collected_def)
    moreover have "out = take ?n (concat (map snd ?xs))" using c none res(2) by (simp add: collected_def)
    moreover have "err = Some ErrOutputLimit" if "limit < int (length (concat (map snd ?xs)))"
      using c none res(3) that assms(3) by (auto simp: collected_def split: if_splits)
    ultimately show "(\<forall>s \<in> streams. of_stream s log = of_stream s (cut_output ?n ?xs)) \<and> out = take ?n (concat (map snd ?xs))
       \<and> (limit < int (length (concat (map snd ?xs))) \<longrightarrow> err = Some ErrOutputLimit)" by blast
  qed
qed

definition sample_process :: process_run where
  "sample_process = \<lparr>pr_startError = None, pr_events = [Output ''stdout'' ''ab'', FlushTick, Output ''stderr'' ''cd'', Output ''stdout'' ''ef''],
     pr_left = [(''stderr'', ''gh'')], pr_exitCode = Some 0, pr_waitErr = None\<rparr>"

theorem output_delivered_witness:
  "\<exists>code sink' log. runCommand 7 sample_process (recording (\<lambda>s b c. (None, c))) ((), []) = ((''abcdefg'', code, Some ErrOutputLimit), (sink', log))
     \<and> of_stream ''stdout'' log = ''abef'' \<and> of_stream ''stderr'' log = ''cdg''"
proof -
  obtain out code err sink' log where r:
    "runCommand 7 sample_process (recording (\<lambda>s b c. (None, c))) ((), []) = ((out, code, err), (sink', log))" by (metis surj_pair)
  have o: "output_of sample_process = [(''stdout'', ''ab''), (''stderr'', ''cd''), (''stdout'', ''ef''), (''stderr'', ''gh'')]"
    by (simp add: output_of_def sample_process_def)
  have "out = ''abcdefg''" "err = Some ErrOutputLimit" "of_stream ''stdout'' log = ''abef''" "of_stream ''stderr'' log = ''cdg''"
    using output_delivered [OF r] unfolding o by (simp_all add: sample_process_def)
  then show ?thesis using r by blast
qed

text \<open>
  A working directory is accepted only inside a configured root, and only for an allowed
  executable with a deadline and an output limit: when the checks pass, the canonical directory is a
  root itself or lies below one.
\<close>

theorem validateExecution_sound:
  assumes "validateExecution absolute canonical e hasDeadline args dir = Inr clean"
  shows "(\<exists>root \<in> set (ex_Roots e). \<exists>base path rest. canonical root = Some base \<and> canonical clean = Some path
      \<and> (path = base \<or> path = base @ ''/'' @ rest))
    \<and> hasDeadline \<and> 0 < ex_MaxOutputBytes e \<and> args \<noteq> [] \<and> absolute dir = Inr clean
    \<and> (ex_AllowedCommands e = [] \<or> map_of (ex_AllowedCommands e) (hd args) = Some True)"
proof (intro conjI)
  have "list_ex (\<lambda>root. AllowedPath canonical root clean) (ex_Roots e)"
    using assms by (auto simp: validateExecution_def split: if_splits option.splits sum.splits)
  then obtain root where root: "root \<in> set (ex_Roots e)" "AllowedPath canonical root clean" by (auto simp: list_ex_iff)
  then obtain base path where "canonical root = Some base" "canonical clean = Some path" "path = base \<or> prefix (base @ ''/'') path"
    by (auto simp: AllowedPath_def split: option.splits)
  then show "\<exists>root \<in> set (ex_Roots e). \<exists>base path rest. canonical root = Some base \<and> canonical clean = Some path
      \<and> (path = base \<or> path = base @ ''/'' @ rest)"
    using root(1) by (auto simp: prefix_def)
  show "hasDeadline" "0 < ex_MaxOutputBytes e" "args \<noteq> []" "absolute dir = Inr clean"
    "ex_AllowedCommands e = [] \<or> map_of (ex_AllowedCommands e) (hd args) = Some True"
    using assms by (auto simp: validateExecution_def get_or_def split: if_splits option.splits sum.splits)
qed

definition sample_executor :: Executor where
  "sample_executor = \<lparr>ex_Roots = [''/srv''], ex_AllowedCommands = [(''ls'', True)], ex_MaxOutputBytes = 100, ex_Environment = []\<rparr>"

theorem validateExecution_sound_witness:
  "validateExecution Inr Some sample_executor True [''ls'', ''-l''] ''/srv/job'' = Inr ''/srv/job''
   \<and> (\<exists>root \<in> set (ex_Roots sample_executor). \<exists>base path rest. Some root = Some base \<and> Some ''/srv/job'' = Some path
        \<and> (path = base \<or> path = base @ ''/'' @ rest))"
proof -
  have v: "validateExecution Inr Some sample_executor True [''ls'', ''-l''] ''/srv/job'' = Inr ''/srv/job''"
    by (simp add: validateExecution_def sample_executor_def get_or_def AllowedPath_def)
  show ?thesis using validateExecution_sound [OF v] v by blast
qed

text \<open>The root directory itself, configured as a root, admits nothing below it.\<close>

theorem filesystem_root_admits_nothing:
  assumes "canonical root = Some ''/''" "canonical path = Some (CHR ''/'' # c # cs)" "c \<noteq> CHR ''/''"
  shows "\<not> AllowedPath canonical root path"
  using assms by (simp add: AllowedPath_def)

end
