(* ===== verification/WorkerRuntime.thy ===== *)
theory WorkerRuntime
  imports WorkerStore WorkerExecutor
begin

text \<open>
  The order runtime of a worker (\<^verbatim>\<open>worker/runtime.go\<close>, \<^verbatim>\<open>worker/recovery.go\<close>): from a signed message of the
  broker to the process and back to the events in the outbox. The state is the durable store, the
  messages the broker took over, the table of active orders with their cancellation flags, and the
  identifiers of the orders whose command was started.

  Outside the model are the start claim and the secret delivery (functions of the runtime
  record), the process (a function of its environment) and the outside world: the readings of the
  clock and the answers of the broker. Every reading has its own index, the path of the call that makes
  it, so that the theorems hold for all of them. The table of active orders is present, as the
  worker's main program sets it up.
\<close>

section \<open>State\<close>

record world =
  w_now :: "nat list \<Rightarrow> time"
  w_publish :: "nat list \<Rightarrow> bool"

definition site :: "nat \<Rightarrow> world \<Rightarrow> world" where
  "site n w = \<lparr>w_now = (\<lambda>p. w_now w (n # p)), w_publish = (\<lambda>p. w_publish w (n # p))\<rparr>"

datatype start_answer = StartGranted | StartRejected | StartUnavailable

datatype runtime_error =
    RuntimeNotConfigured | PublisherNotConfigured | PublishRefused | UnsupportedWorkerOrder | SecretDeliveryUnavailable
  | StartClaimFailed | InvalidOutputStream | Store worker_error

record OrderRuntime =
  rt_StartClaimer :: "StartClaimPayload \<Rightarrow> start_answer"
  rt_SecretFetcher :: "(SecretDeliveryRequest \<Rightarrow> (string, string) gomap option) option"
  rt_RunnerID :: string
  rt_ExecutorBootID :: string
  rt_ProcessID :: int
  rt_ControlPublicKey :: bytes
  rt_SigningKey :: SigningKey
  rt_Executor :: Executor
  rt_ErrorText :: "runtime_error \<Rightarrow> string"

record WorkerState =
  ws_store :: LocalStore
  ws_published :: "(string \<times> bytes) list"
  ws_active :: "(string, bool) gomap"
  ws_executed :: "string list"

record eventRecord =
  er_typeName :: EventType
  er_sequence :: "64 word"
  er_result :: string
  er_errorText :: string
  er_exitCode :: "int option"
  er_channel :: string
  er_metrics :: "(string, int) gomap"

definition event_type_text :: "EventType \<Rightarrow> string" where
  "event_type_text t =
     (case t of
        EventAccepted \<Rightarrow> ''accepted'' | EventRejected \<Rightarrow> ''rejected'' | EventStarted \<Rightarrow> ''started''
      | EventLogChunk \<Rightarrow> ''log_chunk'' | EventHeartbeat \<Rightarrow> ''heartbeat'' | EventCompleted \<Rightarrow> ''completed''
      | EventFailed \<Rightarrow> ''failed'' | EventTimedOut \<Rightarrow> ''timed_out'' | EventCancelled \<Rightarrow> ''cancelled''
      | EventUnknown \<Rightarrow> ''unknown'' | OtherEvent s \<Rightarrow> s)"

definition state_event :: "EventType \<Rightarrow> 64 word \<Rightarrow> eventRecord" where
  "state_event typeName sequence =
     \<lparr>er_typeName = typeName, er_sequence = sequence, er_result = [], er_errorText = [], er_exitCode = None,
      er_channel = ''state'', er_metrics = []\<rparr>"

section \<open>Active orders\<close>

definition ActiveOrders_put :: "string \<Rightarrow> WorkerState \<Rightarrow> WorkerState" where
  "ActiveOrders_put ident st = st\<lparr>ws_active := AList.update ident False (ws_active st)\<rparr>"

definition ActiveOrders_remove :: "string \<Rightarrow> WorkerState \<Rightarrow> WorkerState" where
  "ActiveOrders_remove ident st = st\<lparr>ws_active := AList.delete ident (ws_active st)\<rparr>"

definition ActiveOrders_cancel :: "string \<Rightarrow> WorkerState \<Rightarrow> bool \<times> WorkerState" where
  "ActiveOrders_cancel ident st =
     (case map_of (ws_active st) ident of
        None \<Rightarrow> (False, st)
      | Some _ \<Rightarrow> (True, st\<lparr>ws_active := AList.update ident True (ws_active st)\<rparr>))"

definition ActiveOrders_Count :: "WorkerState \<Rightarrow> int" where
  "ActiveOrders_Count st = int (length (ws_active st))"

section \<open>Events\<close>

definition event_id :: "OrderPayload \<Rightarrow> eventRecord \<Rightarrow> string" where
  "event_id order event =
     (if er_typeName event = EventLogChunk
      then ord_OrderID order @ '':'' @ er_channel event @ '':'' @ show_nat (unat (er_sequence event))
      else ord_OrderID order @ '':'' @ event_type_text (er_typeName event))"

definition persistEvent ::
  "world \<Rightarrow> lib \<Rightarrow> OrderRuntime \<Rightarrow> OrderPayload \<Rightarrow> eventRecord \<Rightarrow> LocalStore \<Rightarrow> worker_error + LocalStore" where
  "persistEvent w L rt order event s =
     res_bind (proto_result (EncodeEventPayload L
       \<lparr>evt_Version = ProtocolVersion, evt_EventID = event_id order event, evt_OrderID = ord_OrderID order,
        evt_RunID = ord_RunID order, evt_TaskID = ord_TaskID order, evt_Attempt = ord_Attempt order,
        evt_LeaseToken = ord_LeaseToken order, evt_RunnerID = ord_RunnerID order, evt_Sequence = er_sequence event,
        evt_ObservedAt = w_now w [0], evt_Type = er_typeName event, evt_Result = er_result event, evt_Metrics = er_metrics event,
        evt_OutputDigest = [], evt_ExitCode = er_exitCode event, evt_Error = er_errorText event,
        evt_RunnerSessionID = ord_RunnerSessionID order, evt_FencingToken = ord_FencingToken order,
        evt_EventChannel = er_channel event\<rparr>)) (\<lambda>payload.
     res_bind (proto_result (SignEvent L (rt_SigningKey rt) payload)) (\<lambda>envelope.
     res_bind (proto_result (EncodeEnvelope L envelope)) (\<lambda>raw.
       PutEvent (w_now w [1]) (w_now w [2])
         \<lparr>oe_EventID = event_id order event, oe_OrderID = ord_OrderID order, oe_Channel = er_channel event,
          oe_Sequence = sint (er_sequence event), oe_EventType = event_type_text (er_typeName event), oe_Envelope = raw,
          oe_State = [], oe_AvailableAt = [], oe_PublishedAt = None, oe_CreatedAt = []\<rparr> s)))"

fun publish_loop :: "world \<Rightarrow> nat \<Rightarrow> outbox_event list \<Rightarrow> WorkerState \<Rightarrow> runtime_error option \<times> WorkerState" where
  "publish_loop w i [] st = (None, st)"
| "publish_loop w i (pending # rest) st =
     (if \<not> w_publish w [i] then (Some PublishRefused, st)
      else publish_loop w (Suc i) rest
             (st\<lparr>ws_published := ws_published st @ [(oe_EventID pending, oe_Envelope pending)],
                 ws_store := MarkEventPublished (w_now w [2, i]) (oe_EventID pending) (ws_store st)\<rparr>))"

definition PublishPendingEvents :: "world \<Rightarrow> string \<Rightarrow> WorkerState \<Rightarrow> runtime_error option \<times> WorkerState" where
  "PublishPendingEvents w runnerID st =
     (if runnerID = [] then (Some PublisherNotConfigured, st)
      else (case publish_loop w 0 (PendingEvents (w_now w [0]) 100 (ws_store st)) st of
              (Some e, st') \<Rightarrow> (Some e, st')
            | (None, st') \<Rightarrow>
                (case CompactPublishedEvents (w_now w [1]) (24 * hour) 1000 (ws_store st') of
                   Inl e \<Rightarrow> (Some (Store e), st')
                 | Inr (_, s) \<Rightarrow> (None, st'\<lparr>ws_store := s\<rparr>))))"

definition publishEvent ::
  "world \<Rightarrow> lib \<Rightarrow> OrderRuntime \<Rightarrow> OrderPayload \<Rightarrow> eventRecord \<Rightarrow> WorkerState \<Rightarrow> (runtime_error + unit) \<times> WorkerState" where
  "publishEvent w L rt order event st =
     (case persistEvent (site 0 w) L rt order event (ws_store st) of
        Inl e \<Rightarrow> (Inl (Store e), st)
      | Inr s \<Rightarrow> (Inr (), snd (PublishPendingEvents (site 1 w) (rt_RunnerID rt) (st\<lparr>ws_store := s\<rparr>))))"

section \<open>Executing an order\<close>

definition controlPlaneKeyID :: string where
  "controlPlaneKeyID = ''control-plane''"

definition control_keyring :: "OrderRuntime \<Rightarrow> Keyring" where
  "control_keyring rt =
     [(controlPlaneKeyID, \<lparr>vk_ID = controlPlaneKeyID, vk_PublicKey = rt_ControlPublicKey rt, vk_NotBefore = 0, vk_NotAfter = 0, vk_Revoked = False\<rparr>)]"

definition fetchExecutionSecrets ::
  "time \<Rightarrow> OrderRuntime \<Rightarrow> OrderPayload \<Rightarrow> runtime_error + (string, string) gomap option" where
  "fetchExecutionSecrets now rt payload =
     (if ord_SecretRefs payload = [] then Inr None
      else (case rt_SecretFetcher rt of
              None \<Rightarrow> Inl SecretDeliveryUnavailable
            | Some fetch \<Rightarrow>
                (case fetch \<lparr>sd_Version = ProtocolVersion, sd_RequestID = ord_OrderID payload, sd_OrderID = ord_OrderID payload,
                       sd_RunID = ord_RunID payload, sd_Attempt = ord_Attempt payload, sd_LeaseToken = ord_LeaseToken payload,
                       sd_RunnerID = ord_RunnerID payload, sd_RunnerSessionID = ord_RunnerSessionID payload,
                       sd_FencingToken = ord_FencingToken payload, sd_ExecutionSpecDigest = ord_ExecutionSpecDigest payload,
                       sd_SecretRefs = ord_SecretRefs payload, sd_IssuedAt = now\<rparr> of
                   None \<Rightarrow> Inl SecretDeliveryUnavailable
                 | Some secrets \<Rightarrow> Inr (Some secrets))))"

text \<open>The result says which order to go on with, and whether to go on at all.\<close>

definition claimExecution ::
  "world \<Rightarrow> lib \<Rightarrow> OrderRuntime \<Rightarrow> bytes \<Rightarrow> OrderPayload \<Rightarrow> OrderPayload \<Rightarrow> WorkerState
     \<Rightarrow> (runtime_error + OrderPayload \<times> bool) \<times> WorkerState" where
  "claimExecution w L rt raw order payload st =
     (case rt_StartClaimer rt \<lparr>sc_Version = ProtocolVersion, sc_RequestID = ord_OrderID payload, sc_RunID = ord_RunID payload,
             sc_RunnerID = ord_RunnerID payload, sc_RunnerSessionID = ord_RunnerSessionID payload, sc_LeaseToken = ord_LeaseToken payload,
             sc_Attempt = ord_Attempt payload, sc_FencingToken = ord_FencingToken payload,
             sc_ExecutionSpecDigest = ord_ExecutionSpecDigest payload, sc_IssuedAt = w_now w [0]\<rparr> of
        StartRejected \<Rightarrow> (Inr (payload, False), st)
      | StartUnavailable \<Rightarrow> (Inl StartClaimFailed, st)
      | StartGranted \<Rightarrow>
          (case AcceptOrder L raw (control_keyring rt) (w_now w [1]) (w_now w [2]) (rt_RunnerID rt) (ord_RunID order) (ord_Attempt order)
                  (ord_LeaseToken order) second (ws_store st) of
             (Inl e, s) \<Rightarrow> (Inl (Store e), st\<lparr>ws_store := s\<rparr>)
           | (Inr accepted, s) \<Rightarrow>
               (case ClaimOrder (w_now w [3]) (ord_OrderID accepted) (rt_ExecutorBootID rt) (rt_ProcessID rt) s of
                  Inl _ \<Rightarrow> (Inr (accepted, False), st\<lparr>ws_store := s\<rparr>)
                | Inr s1 \<Rightarrow>
                    (case publishEvent (site 4 w) L rt accepted (state_event EventAccepted 1) (st\<lparr>ws_store := s1\<rparr>) of
                       (Inl e, st') \<Rightarrow> (Inl e, st')
                     | (Inr _, st') \<Rightarrow>
                         (Inr (accepted, True),
                          st'\<lparr>ws_store := MarkProcessStarted (w_now w [5]) (ord_OrderID accepted) (ws_store st')\<rparr>)))))"

record log_sink =
  sk_state :: WorkerState
  sk_sequences :: "(string, 64 word) gomap"
  sk_streamed :: bool
  sk_calls :: nat

definition maxEventLogChunkBytes :: nat where
  "maxEventLogChunkBytes = 65536"

function persist_chunks ::
  "world \<Rightarrow> lib \<Rightarrow> OrderRuntime \<Rightarrow> OrderPayload \<Rightarrow> string \<Rightarrow> string \<Rightarrow> log_sink \<Rightarrow> runtime_error option \<times> log_sink" where
  "persist_chunks w L rt payload stream chunk sink =
     (if chunk = [] then (None, sink)
      else (let size = min (length chunk) maxEventLogChunkBytes;
                sequence = get_or 0 (sk_sequences sink) stream + 1;
                sink1 = sink\<lparr>sk_sequences := AList.update stream sequence (sk_sequences sink), sk_calls := Suc (sk_calls sink)\<rparr>
            in (case persistEvent (site 0 (site (sk_calls sink) w)) L rt payload
                       \<lparr>er_typeName = EventLogChunk, er_sequence = sequence, er_result = take size chunk, er_errorText = [],
                        er_exitCode = None, er_channel = stream, er_metrics = []\<rparr> (ws_store (sk_state sink1)) of
                  Inl e \<Rightarrow> (Some (Store e), sink1)
                | Inr s \<Rightarrow>
                    persist_chunks w L rt payload stream (drop size chunk)
                      (sink1\<lparr>sk_state := snd (PublishPendingEvents (site 1 (site (sk_calls sink) w)) (rt_RunnerID rt)
                                              ((sk_state sink1)\<lparr>ws_store := s\<rparr>)),
                             sk_streamed := True\<rparr>))))"
  by pat_completeness auto
termination
  by (relation "measure (\<lambda>(_, _, _, _, _, chunk, _). length chunk)") (auto simp: maxEventLogChunkBytes_def)

declare persist_chunks.simps [simp del]

definition persistOutputChunks ::
  "world \<Rightarrow> lib \<Rightarrow> OrderRuntime \<Rightarrow> OrderPayload \<Rightarrow> string \<Rightarrow> string \<Rightarrow> log_sink \<Rightarrow> runtime_error option \<times> log_sink" where
  "persistOutputChunks w L rt payload stream chunk sink =
     (if stream \<noteq> ''stdout'' \<and> stream \<noteq> ''stderr'' then (Some InvalidOutputStream, sink)
      else persist_chunks w L rt payload stream chunk sink)"

definition execution_environment :: "Executor \<Rightarrow> OrderPayload \<Rightarrow> (string, string) gomap option \<Rightarrow> (string, string) gomap" where
  "execution_environment e payload secrets =
     (case secrets of
        Some given \<Rightarrow> fold (\<lambda>(name, v) m. AList.update name v m) given
                       (fold (\<lambda>(name, v) m. AList.update name v m) (ord_Environment payload) [])
      | None \<Rightarrow> (if ord_Environment payload \<noteq> [] then ord_Environment payload else ex_Environment e))"

record executionResult =
  xr_output :: string
  xr_exitCode :: "int option"
  xr_runErr :: "exec_error option"
  xr_streamed :: bool
  xr_maxMemory :: int
  xr_averageMemory :: int

text \<open>
  What the machine contributes to one execution: path resolution, the process, whether the deadline
  passed, whether a cancellation arrives meanwhile, and the memory figures.
\<close>

record machine =
  mc_absolute :: "string \<Rightarrow> string + string"
  mc_canonical :: "string \<Rightarrow> string option"
  mc_process :: "(string, string) gomap \<Rightarrow> process_run"
  mc_timedOut :: bool
  mc_cancelled :: bool
  mc_maxMemory :: int
  mc_averageMemory :: int

definition on_chunk ::
  "world \<Rightarrow> lib \<Rightarrow> OrderRuntime \<Rightarrow> OrderPayload \<Rightarrow> string \<Rightarrow> string \<Rightarrow> log_sink \<Rightarrow> exec_error option \<times> log_sink" where
  "on_chunk w L rt payload stream chunk sink =
     (case persistOutputChunks w L rt payload stream chunk sink of
        (None, sink') \<Rightarrow> (None, sink')
      | (Some e, sink') \<Rightarrow> (Some (Other (rt_ErrorText rt e)), sink'))"

definition runExecutor ::
  "world \<Rightarrow> lib \<Rightarrow> OrderRuntime \<Rightarrow> machine \<Rightarrow> OrderPayload \<Rightarrow> (string, string) gomap option \<Rightarrow> WorkerState
     \<Rightarrow> executionResult \<times> WorkerState" where
  "runExecutor w L rt mc payload secrets st =
     (case RunStreamingWithExitCode (mc_absolute mc) (mc_canonical mc) (rt_Executor rt) True (ord_Command payload) (ord_WorkingDir payload)
             (mc_process mc (execution_environment (rt_Executor rt) payload secrets)) (on_chunk w L rt payload)
             \<lparr>sk_state = st, sk_sequences = [(''stdout'', 0), (''stderr'', 0)], sk_streamed = False, sk_calls = 0\<rparr> of
        ((output, exitCode, runErr), sink) \<Rightarrow>
          (\<lparr>xr_output = output, xr_exitCode = exitCode, xr_runErr = runErr, xr_streamed = sk_streamed sink,
            xr_maxMemory = mc_maxMemory mc, xr_averageMemory = mc_averageMemory mc\<rparr>, sk_state sink))"

definition normalizeExecutionResult :: "bool \<Rightarrow> int option \<Rightarrow> string option \<Rightarrow> int option \<times> string option \<times> bool" where
  "normalizeExecutionResult timedOut exitCode runErr =
     (let runErr1 = (case exitCode of
                       Some code \<Rightarrow> if code \<noteq> 0 \<and> runErr = None then Some (''process exited with code '' @ Itoa code) else runErr
                     | None \<Rightarrow> runErr);
          exitCode1 = (if exitCode = None \<and> runErr1 \<noteq> None then Some 1 else exitCode)
      in if timedOut then (Some 6, Some ''Timeout'', True) else (exitCode1, runErr1, False))"

definition terminalEventType :: "string option \<Rightarrow> bool \<Rightarrow> bool \<Rightarrow> EventType" where
  "terminalEventType runErr timedOut cancelled =
     (if cancelled then EventCancelled
      else if timedOut then EventTimedOut
      else if runErr \<noteq> None then EventFailed
      else EventCompleted)"

definition terminalState :: "string option \<Rightarrow> bool \<Rightarrow> string" where
  "terminalState runErr cancelled =
     (if cancelled then ''CANCELLED'' else if runErr \<noteq> None then ''FAILED'' else ''COMPLETED'')"

definition order_cancelled :: "string \<Rightarrow> WorkerState \<Rightarrow> bool" where
  "order_cancelled ident st = get_or False (ws_active st) ident"

definition terminal_event :: "bool \<Rightarrow> executionResult \<Rightarrow> bool \<Rightarrow> eventRecord" where
  "terminal_event timedOut result cancelled =
     (case normalizeExecutionResult timedOut (xr_exitCode result) (map_option exec_text (xr_runErr result)) of
        (exitCode, runErr, late) \<Rightarrow>
          \<lparr>er_typeName = terminalEventType runErr late cancelled, er_sequence = 3,
           er_result = (if xr_streamed result then [] else xr_output result),
           er_errorText = (case runErr of None \<Rightarrow> [] | Some t \<Rightarrow> t), er_exitCode = exitCode, er_channel = ''state'',
           er_metrics = [(''max_memory_bytes'', xr_maxMemory result), (''average_memory_bytes'', xr_averageMemory result)]\<rparr>)"

definition finishExecution ::
  "world \<Rightarrow> lib \<Rightarrow> OrderRuntime \<Rightarrow> bool \<Rightarrow> OrderPayload \<Rightarrow> executionResult \<Rightarrow> WorkerState \<Rightarrow> (runtime_error + unit) \<times> WorkerState" where
  "finishExecution w L rt timedOut payload result st =
     (let cancelled = order_cancelled (ord_OrderID payload) st;
          event = terminal_event timedOut result cancelled;
          runErr = fst (snd (normalizeExecutionResult timedOut (xr_exitCode result) (map_option exec_text (xr_runErr result))))
      in (case publishEvent (site 0 w) L rt payload event st of
            (Inl e, st') \<Rightarrow> (Inl e, st')
          | (Inr _, st') \<Rightarrow>
              (Inr (), st'\<lparr>ws_store := FinishOrder (w_now w [1]) (ord_OrderID payload)
                            (terminalState runErr (order_cancelled (ord_OrderID payload) st')) (er_errorText event) (ws_store st')\<rparr>)))"

text \<open>
  \<^verbatim>\<open>handleExecution\<close> in two parts: up to the start of the process, and from there. The first part
  yields the order to execute and its secrets, or nothing when there is nothing to do.
\<close>

definition begin_execution ::
  "world \<Rightarrow> lib \<Rightarrow> OrderRuntime \<Rightarrow> bytes \<Rightarrow> OrderPayload \<Rightarrow> Keyring \<Rightarrow> WorkerState
     \<Rightarrow> (runtime_error + (OrderPayload \<times> (string, string) gomap option) option) \<times> WorkerState" where
  "begin_execution w L rt raw order keyring st =
     (case fst (VerifyOrder L raw keyring (w_now w [0]) (rt_RunnerID rt) (ord_RunID order) (ord_Attempt order) (ord_LeaseToken order)
                  second None ()) of
        Inl e \<Rightarrow> (Inl (Store (Proto e)), st)
      | Inr payload \<Rightarrow>
          (if ord_Type payload \<noteq> OrderExecute then (Inl UnsupportedWorkerOrder, st)
           else (case fetchExecutionSecrets (w_now w [1]) rt payload of
                   Inl e \<Rightarrow> (Inl e, st)
                 | Inr secrets \<Rightarrow>
                     (case claimExecution (site 2 w) L rt raw order payload st of
                        (Inl e, st1) \<Rightarrow> (Inl e, st1)
                      | (Inr (accepted, proceed), st1) \<Rightarrow>
                          (if \<not> proceed then (Inr None, st1)
                           else (case publishEvent (site 3 w) L rt accepted (state_event EventStarted 2) st1 of
                                   (Inl e, st2) \<Rightarrow> (Inl e, st2)
                                 | (Inr _, st2) \<Rightarrow>
                                     (Inr (Some (accepted, secrets)),
                                      ActiveOrders_put (ord_OrderID accepted)
                                        (st2\<lparr>ws_executed := ws_executed st2 @ [ord_OrderID accepted]\<rparr>))))))))"

definition handleExecution ::
  "world \<Rightarrow> lib \<Rightarrow> OrderRuntime \<Rightarrow> machine \<Rightarrow> bytes \<Rightarrow> OrderPayload \<Rightarrow> Keyring \<Rightarrow> WorkerState \<Rightarrow> (runtime_error + unit) \<times> WorkerState" where
  "handleExecution w L rt mc raw order keyring st =
     (case begin_execution (site 0 w) L rt raw order keyring st of
        (Inl e, st1) \<Rightarrow> (Inl e, st1)
      | (Inr None, st1) \<Rightarrow> (Inr (), st1)
      | (Inr (Some (payload, secrets)), st1) \<Rightarrow>
          (case runExecutor (site 1 w) L rt mc payload secrets st1 of
             (result, st2) \<Rightarrow>
               (let st3 = (if mc_cancelled mc then snd (ActiveOrders_cancel (ord_OrderID payload) st2) else st2)
                in (case finishExecution (site 2 w) L rt (mc_timedOut mc) payload result st3 of
                      (r, st4) \<Rightarrow> (r, ActiveOrders_remove (ord_OrderID payload) st4)))))"

definition Handle ::
  "world \<Rightarrow> lib \<Rightarrow> OrderRuntime \<Rightarrow> machine \<Rightarrow> bytes \<Rightarrow> WorkerState \<Rightarrow> (runtime_error + unit) \<times> WorkerState" where
  "Handle w L rt mc raw st =
     (if rt_RunnerID rt = [] \<or> length (rt_ControlPublicKey rt) \<noteq> 32 \<or> length (sk_Private (rt_SigningKey rt)) \<noteq> 64
      then (Inl RuntimeNotConfigured, st)
      else (case DecodeEnvelope L raw of
              Inl e \<Rightarrow> (Inl (Store (Proto e)), st)
            | Inr envelope \<Rightarrow>
           (case VerifyAt L (control_keyring rt) envelope OrderSignatureDomain (w_now w [0]) of
              Inl e \<Rightarrow> (Inl (Store (Proto e)), st)
            | Inr _ \<Rightarrow>
           (case PayloadBytes envelope of
              Inl e \<Rightarrow> (Inl (Store (Proto e)), st)
            | Inr rawPayload \<Rightarrow>
           (case DecodeOrderPayload L rawPayload of
              Inl e \<Rightarrow> (Inl (Store (Proto e)), st)
            | Inr order \<Rightarrow>
               (if ord_Type order = OrderCancel
                then (case Order_ValidateTime order (w_now w [1]) second of
                        Inl e \<Rightarrow> (Inl (Store (Proto e)), st)
                      | Inr _ \<Rightarrow>
                     (case Order_ValidateIdentity order (rt_RunnerID rt) (ord_RunID order) (ord_Attempt order) (ord_LeaseToken order) of
                        Inl e \<Rightarrow> (Inl (Store (Proto e)), st)
                      | Inr _ \<Rightarrow>
                     (case ValidateExecution order of
                        Inl e \<Rightarrow> (Inl (Store (Proto e)), st)
                      | Inr _ \<Rightarrow> (Inr (), snd (ActiveOrders_cancel (ord_TargetOrderID order) st)))))
                else handleExecution (site 2 w) L rt mc raw order (control_keyring rt) st))))))"

section \<open>Recovery at start-up\<close>

definition RecoverDurableSigned ::
  "lib \<Rightarrow> SigningKey \<Rightarrow> time \<Rightarrow> string \<Rightarrow> LocalStore \<Rightarrow> worker_error + (string list \<times> LocalStore)" where
  "RecoverDurableSigned L key clock previousBootID s =
     (if previousBootID = [] \<or> length (sk_Private key) \<noteq> 64 then Inl RecoveryInputs
      else RecoverOrdersSigned L key clock previousBootID s)"

end
