(* ===== verification/WorkerProperties.thy ===== *)
theory WorkerProperties
  imports WorkerStore
begin

text \<open>
  What the durable state of a worker guarantees: an order is claimed at most once, sequence
  numbers of a channel are unique and never reused, compaction included, and a restart reports every
  order that was in flight.
\<close>

section \<open>Steps of the store\<close>

inductive worker_step :: "LocalStore \<Rightarrow> LocalStore \<Rightarrow> bool" where
  accept: "AcceptOrder L raw keys now clock runnerID runID attempt leaseToken tolerance s = (r, s') \<Longrightarrow> worker_step s s'"
| claim: "ClaimOrder clock orderID bootID processID s = Inr s' \<Longrightarrow> worker_step s s'"
| started: "s' = MarkProcessStarted clock orderID s \<Longrightarrow> worker_step s s'"
| finish: "s' = FinishOrder clock orderID state lastError s \<Longrightarrow> state \<in> {''COMPLETED'', ''FAILED'', ''CANCELLED''} \<Longrightarrow> worker_step s s'"
| put_event: "PutEvent clock1 clock2 event s = Inr s' \<Longrightarrow> worker_step s s'"
| published: "s' = MarkEventPublished clock eventID s \<Longrightarrow> worker_step s s'"
| compact: "CompactPublishedEvents clock olderThan limit s = Inr (n, s') \<Longrightarrow> worker_step s s'"
| recover: "RecoverOrders notice clocks bootID s = Inr (ids, s') \<Longrightarrow> worker_step s s'"
| recover_signed: "RecoverOrdersSigned L key clock bootID s = Inr (ids, s') \<Longrightarrow> worker_step s s'"

inductive worker_steps :: "LocalStore \<Rightarrow> LocalStore \<Rightarrow> bool" where
  start: "worker_steps s s"
| step: "worker_steps s s' \<Longrightarrow> worker_step s' s'' \<Longrightarrow> worker_steps s s''"

text \<open>The effect of a step on the two tables.\<close>

lemma put_event_row_Inr:
  assumes "put_event_row e s = Inr s'"
  shows "s' = s \<and> (\<exists>row \<in> set (ls_events s). oe_EventID row = oe_EventID e)
    \<or> s' = s\<lparr>ls_events := ls_events s @ [e]\<rparr> \<and> (\<forall>row \<in> set (ls_events s). oe_EventID row \<noteq> oe_EventID e
        \<and> \<not> (oe_OrderID row = oe_OrderID e \<and> oe_Channel row = oe_Channel e \<and> oe_Sequence row = oe_Sequence e))"
  using assms by (auto simp: put_event_row_def list_ex_iff split: if_splits)

lemma notify_orders: "notify_unknown envelope clock bootID rows s = Inr s' \<Longrightarrow> ls_orders s' = ls_orders s \<and> ls_messages s' = ls_messages s"
proof (induction rows arbitrary: s)
  case (Cons row rows)
  then obtain raw s1 where "put_event_row (recovery_event (clock (length rows)) bootID (io_OrderID row) raw s) s = Inr s1"
    "notify_unknown envelope clock bootID rows s1 = Inr s'" by (auto simp: res_bind_Inr)
  moreover from this(1) have "ls_orders s1 = ls_orders s \<and> ls_messages s1 = ls_messages s"
    by (auto simp: put_event_row_def split: if_splits)
  ultimately show ?case using Cons.IH [of s1] by simp
qed simp

lemma recover_with_Inr:
  assumes "recover_with envelope clock bootID s = Inr (ids, s')"
  obtains s1 where "notify_unknown envelope clock bootID (orphans bootID s) s = Inr s1" "s' = mark_unknown bootID s1"
    "ids = map io_OrderID (orphans bootID s)" "ls_orders s1 = ls_orders s"
proof -
  from assms obtain s1 where s1: "notify_unknown envelope clock bootID (orphans bootID s) s = Inr s1" "s' = mark_unknown bootID s1"
    "ids = map io_OrderID (orphans bootID s)" by (auto simp: recover_with_def res_bind_Inr)
  show thesis by (rule that [OF s1]) (use notify_orders [OF s1(1)] in simp)
qed

lemma order_updates:
  "ls_orders (MarkProcessStarted clock oid s) = sql_update (\<lambda>row. io_OrderID row = oid \<and> io_State row = ''CLAIMED'')
     (\<lambda>row. row\<lparr>io_State := ''RUNNING'', io_ProcessStartedAt := Some (rfc3339_nano clock)\<rparr>) (ls_orders s)"
  "ls_orders (FinishOrder clock oid state lastError s) = sql_update (\<lambda>row. io_OrderID row = oid \<and> io_State row \<in> {''CLAIMED'', ''RUNNING''})
     (\<lambda>row. row\<lparr>io_State := state, io_LastError := Some lastError, io_FinishedAt := Some (rfc3339_nano clock)\<rparr>) (ls_orders s)"
  "ls_orders (mark_unknown bootID s) = sql_update (\<lambda>row. io_ExecutorBootID row = bootID \<and> io_State row \<in> {''CLAIMED'', ''RUNNING''})
     (\<lambda>row. row\<lparr>io_State := ''UNKNOWN'', io_LastError := Some ''runner restart''\<rparr>) (ls_orders s)"
  by (simp_all add: MarkProcessStarted_def FinishOrder_def mark_unknown_def)

section \<open>Claims\<close>

text \<open>The order has left the inbox's initial state.\<close>

definition taken :: "string \<Rightarrow> LocalStore \<Rightarrow> bool" where
  "taken orderID s \<longleftrightarrow>
     orderID \<in> io_OrderID ` set (ls_orders s)
     \<and> (\<forall>row \<in> set (ls_orders s). io_OrderID row = orderID \<longrightarrow> io_State row \<noteq> ''RECEIVED'')"

lemma key_update: "(\<And>row. k (f row) = k row) \<Longrightarrow> k ` set (sql_update P f rows) = k ` set rows"
  unfolding set_sql_update image_image by (rule image_cong) auto

lemma taken_update:
  assumes "taken orderID s" "ls_orders s' = sql_update P f (ls_orders s)" "\<And>row. io_OrderID (f row) = io_OrderID row"
    and "\<And>row. io_State (f row) \<noteq> ''RECEIVED''"
  shows "taken orderID s'"
  using assms key_update [of io_OrderID f P "ls_orders s", OF assms(3)] unfolding taken_def by (auto elim!: in_sql_updateE)

lemma taken_same: "taken orderID s \<Longrightarrow> ls_orders s' = ls_orders s \<Longrightarrow> taken orderID s'"
  by (simp add: taken_def)

lemma taken_mark_unknown: "taken orderID s \<Longrightarrow> ls_orders s1 = ls_orders s \<Longrightarrow> taken orderID (mark_unknown bootID s1)"
  by (rule taken_update [OF taken_same order_updates(3)]) simp_all

lemma taken_PutOrder:
  assumes "taken orderID s" "PutOrder clock t order s = Inr s'"
  shows "taken orderID s'"
proof (cases "s' = s")
  case False
  then have new: "io_OrderID order \<notin> io_OrderID ` set (ls_orders s)"
    and s': "set (ls_orders s') = insert (last (ls_orders s')) (set (ls_orders s))" "io_OrderID (last (ls_orders s')) = io_OrderID order"
    using assms(2) by (auto simp: PutOrder_def list_ex_iff split: if_splits)
  have "io_OrderID order \<noteq> orderID" using new assms(1) by (auto simp: taken_def)
  then show ?thesis using assms(1) s' by (auto simp: taken_def)
qed (use assms(1) in simp)

lemma taken_step:
  assumes "worker_step s s'" "taken orderID s"
  shows "taken orderID s'"
  using assms(1)
proof cases
  case (accept L raw keys now clock runnerID runID attempt leaseToken tolerance r)
  have "taken orderID (put_message i p s)" for i p by (rule taken_same [OF assms(2)]) (simp add: put_message_def)
  then show ?thesis
    using accept assms(2) by (auto simp: AcceptOrder_def Let_def split: sum.splits dest: taken_PutOrder [rotated])
next
  case (claim clock oid bootID processID)
  have "ls_orders s' = sql_update (\<lambda>row. io_OrderID row = oid \<and> io_State row = ''RECEIVED'')
             (\<lambda>row. row\<lparr>io_State := ''CLAIMED'', io_ExecutorBootID := bootID, io_ProcessID := processID,
                       io_ClaimedAt := Some (rfc3339_nano clock)\<rparr>) (ls_orders s)"
    using claim by (auto simp: ClaimOrder_def split: if_splits)
  then show ?thesis by (rule taken_update [OF assms(2)]) simp_all
next
  case (started clock oid)
  show ?thesis unfolding started by (rule taken_update [OF assms(2) order_updates(1)]) simp_all
next
  case (finish clock oid state lastError)
  show ?thesis unfolding finish(1) by (rule taken_update [OF assms(2) order_updates(2)]) (use finish(2) in auto)
next
  case (put_event clock1 clock2 event)
  then have "ls_orders s' = ls_orders s" by (auto simp: PutEvent_def put_event_row_def split: if_splits)
  then show ?thesis by (rule taken_same [OF assms(2)])
next
  case (published clock eventID)
  then show ?thesis using taken_same [OF assms(2)] by (simp add: MarkEventPublished_def)
next
  case (compact clock olderThan limit n)
  then have "ls_orders s' = ls_orders s" by (auto simp: CompactPublishedEvents_def Let_def split: if_splits)
  then show ?thesis by (rule taken_same [OF assms(2)])
next
  case (recover notice clocks bootID ids)
  then show ?thesis
    unfolding RecoverOrders_def by (rule recover_with_Inr) (use taken_mark_unknown [OF assms(2)] in auto)
next
  case (recover_signed L key clock bootID ids)
  then have "recover_with (signed_notice L key clock bootID) (\<lambda>_. clock) bootID s = Inr (ids, s')"
    by (auto simp: RecoverOrdersSigned_def split: if_splits)
  then show ?thesis by (rule recover_with_Inr) (use taken_mark_unknown [OF assms(2)] in auto)
qed

lemma taken_steps: "worker_steps s s' \<Longrightarrow> taken orderID s \<Longrightarrow> taken orderID s'"
  by (induction rule: worker_steps.induct) (auto intro: taken_step)

lemma ClaimOrder_taken:
  assumes "ClaimOrder clock orderID bootID processID s = Inr s'"
  shows "taken orderID s'"
proof -
  let ?P = "\<lambda>row. io_OrderID row = orderID \<and> io_State row = ''RECEIVED''"
  let ?f = "\<lambda>row. row\<lparr>io_State := ''CLAIMED'', io_ExecutorBootID := bootID, io_ProcessID := processID,
                       io_ClaimedAt := Some (rfc3339_nano clock)\<rparr>"
  have count: "sql_count ?P (ls_orders s) = 1" and s': "ls_orders s' = sql_update ?P ?f (ls_orders s)"
    using assms by (auto simp: ClaimOrder_def split: if_splits)
  have "\<exists>row \<in> set (ls_orders s). ?P row"
  proof (rule ccontr)
    assume "\<not> ?thesis"
    then have "sql_count ?P (ls_orders s) = 0" by (simp add: sql_count_0)
    with count show False by simp
  qed
  then have "orderID \<in> io_OrderID ` set (ls_orders s)" by blast
  then have "orderID \<in> io_OrderID ` set (ls_orders s')"
    using key_update [of io_OrderID ?f ?P "ls_orders s"] unfolding s' by simp
  moreover have "io_State row \<noteq> ''RECEIVED''" if "row \<in> set (ls_orders s')" "io_OrderID row = orderID" for row
    using that(1) unfolding s' by (rule in_sql_updateE) (use that(2) in auto)
  ultimately show ?thesis unfolding taken_def by blast
qed

text \<open>
  A worker executes an order at most once. After a successful claim of an order no later
  claim of it succeeds, whatever happens in between: redelivery of the same signed order,
  restarts and recovery included.
\<close>

theorem order_claimed_once:
  assumes "ClaimOrder clock orderID bootID processID s = Inr s1" "worker_steps s1 s2"
  shows "ClaimOrder clock' orderID bootID' processID' s2 = Inl OrderNotClaimable"
proof -
  have "taken orderID s2" by (rule taken_steps [OF assms(2) ClaimOrder_taken [OF assms(1)]])
  then have "sql_count (\<lambda>row. io_OrderID row = orderID \<and> io_State row = ''RECEIVED'') (ls_orders s2) = 0"
    by (auto simp: taken_def sql_count_0)
  then show ?thesis by (simp add: ClaimOrder_def)
qed

definition sample_inbox_order :: inbox_order where
  "sample_inbox_order = \<lparr>io_OrderID = ''o1'', io_ExecutionAttemptID = ''o1-attempt'', io_RunID = ''run'', io_TaskVersionID = ''task'',
     io_RunnerID = ''runner'', io_RunnerSessionID = ''session'', io_ExecutorBootID = [], io_Envelope = [1], io_State = ''RECEIVED'',
     io_LeaseToken = ''token'', io_FencingToken = 1, io_LeaseNotAfter = [], io_ExecutionSpecDigest = ''digest'', io_ProcessID = 0,
     io_AttemptNumber = 1, io_ReceivedAt = [], io_ClaimedAt = None, io_ProcessStartedAt = None, io_FinishedAt = None,
     io_LastError = None\<rparr>"

definition sample_store :: LocalStore where
  "sample_store = OpenStore\<lparr>ls_orders := [sample_inbox_order]\<rparr>"

definition sample_claimed :: LocalStore where
  "sample_claimed = (case ClaimOrder 0 ''o1'' ''boot-1'' 7 sample_store of Inl _ \<Rightarrow> sample_store | Inr s \<Rightarrow> s)"

lemma sample_claimed_ok: "ClaimOrder 0 ''o1'' ''boot-1'' 7 sample_store = Inr sample_claimed"
proof -
  have "case ClaimOrder 0 ''o1'' ''boot-1'' 7 sample_store of Inl _ \<Rightarrow> False | Inr _ \<Rightarrow> True" by code_simp
  then show ?thesis unfolding sample_claimed_def by (auto split: sum.splits)
qed

theorem order_claimed_once_witness:
  "ClaimOrder 0 ''o1'' ''boot-1'' 7 sample_store = Inr sample_claimed
   \<and> ClaimOrder 5 ''o1'' ''boot-2'' 8 (FinishOrder 1 ''o1'' ''COMPLETED'' [] sample_claimed) = Inl OrderNotClaimable"
proof -
  have "worker_steps sample_claimed (FinishOrder 1 ''o1'' ''COMPLETED'' [] sample_claimed)"
    by (rule worker_steps.step [OF worker_steps.start]) (rule worker_step.finish [OF refl], simp)
  then show ?thesis using order_claimed_once [OF sample_claimed_ok] sample_claimed_ok by blast
qed


section \<open>The outbox\<close>

abbreviation event_slot :: "outbox_event \<Rightarrow> string \<times> string \<times> int" where
  "event_slot e \<equiv> (oe_OrderID e, oe_Channel e, oe_Sequence e)"

text \<open>The keys of the tables.\<close>

definition outbox_inv :: "LocalStore \<Rightarrow> bool" where
  "outbox_inv s \<longleftrightarrow> distinct (map oe_EventID (ls_events s)) \<and> distinct (map event_slot (ls_events s)) \<and> distinct (map io_OrderID (ls_orders s))"

lemma outbox_inv_same:
  "outbox_inv s \<Longrightarrow> map oe_EventID (ls_events s') = map oe_EventID (ls_events s) \<Longrightarrow> map event_slot (ls_events s') = map event_slot (ls_events s)
     \<Longrightarrow> map io_OrderID (ls_orders s') = map io_OrderID (ls_orders s) \<Longrightarrow> outbox_inv s'"
  by (simp add: outbox_inv_def)

lemma outbox_inv_put_event_row:
  assumes "outbox_inv s" "put_event_row e s = Inr s'"
  shows "outbox_inv s'"
  using put_event_row_Inr [OF assms(2)]
proof
  assume new: "s' = s\<lparr>ls_events := ls_events s @ [e]\<rparr> \<and> (\<forall>row \<in> set (ls_events s). oe_EventID row \<noteq> oe_EventID e
        \<and> \<not> (oe_OrderID row = oe_OrderID e \<and> oe_Channel row = oe_Channel e \<and> oe_Sequence row = oe_Sequence e))"
  then have "oe_EventID e \<notin> oe_EventID ` set (ls_events s)" "event_slot e \<notin> event_slot ` set (ls_events s)" by (force, force)
  then show ?thesis using new assms(1) by (simp add: outbox_inv_def)
qed (use assms(1) in simp)

lemma outbox_inv_notify: "outbox_inv s \<Longrightarrow> notify_unknown envelope clock bootID rows s = Inr s' \<Longrightarrow> outbox_inv s'"
proof (induction rows arbitrary: s)
  case (Cons row rows)
  then obtain raw s1 where "put_event_row (recovery_event (clock (length rows)) bootID (io_OrderID row) raw s) s = Inr s1"
    "notify_unknown envelope clock bootID rows s1 = Inr s'" by (auto simp: res_bind_Inr)
  then show ?case using Cons.IH outbox_inv_put_event_row [OF Cons.prems(1)] by blast
qed simp

lemma outbox_inv_recover:
  assumes "outbox_inv s" "recover_with envelope clock bootID s = Inr (ids, s')"
  shows "outbox_inv s'"
  using assms(2)
proof (rule recover_with_Inr)
  fix s1 assume s1: "notify_unknown envelope clock bootID (orphans bootID s) s = Inr s1" "s' = mark_unknown bootID s1"
  have "map io_OrderID (ls_orders (mark_unknown bootID s1)) = map io_OrderID (ls_orders s1)"
    unfolding order_updates(3) by (rule map_sql_update) simp
  then show ?thesis using outbox_inv_notify [OF assms(1) s1(1)] s1(2) by (simp add: outbox_inv_def mark_unknown_def)
qed

lemma outbox_inv_PutOrder:
  assumes "outbox_inv s" "PutOrder clock t order s = Inr s'"
  shows "outbox_inv s'"
proof (cases "list_ex (\<lambda>row. io_OrderID row = io_OrderID order) (ls_orders s)")
  case False
  then have "io_OrderID order \<notin> io_OrderID ` set (ls_orders s)" by (auto simp: list_ex_iff)
  moreover have "map io_OrderID (ls_orders s') = map io_OrderID (ls_orders s) @ [io_OrderID order]" "ls_events s' = ls_events s"
    using assms(2) False by (auto simp: PutOrder_def split: if_splits)
  ultimately show ?thesis using assms(1) by (simp add: outbox_inv_def)
qed (use assms in \<open>auto simp: PutOrder_def split: if_splits\<close>)

lemma outbox_inv_step:
  assumes "worker_step s s'" "outbox_inv s"
  shows "outbox_inv s'"
  using assms(1)
proof cases
  case (accept L raw keys now clock runnerID runID attempt leaseToken tolerance r)
  have "outbox_inv (put_message i p s)" for i p using assms(2) by (simp add: put_message_def outbox_inv_def)
  then show ?thesis
    using accept assms(2) by (auto simp: AcceptOrder_def Let_def split: sum.splits dest: outbox_inv_PutOrder [rotated])
next
  case (claim clock oid bootID processID)
  have "ls_orders s' = sql_update (\<lambda>row. io_OrderID row = oid \<and> io_State row = ''RECEIVED'')
             (\<lambda>row. row\<lparr>io_State := ''CLAIMED'', io_ExecutorBootID := bootID, io_ProcessID := processID,
                       io_ClaimedAt := Some (rfc3339_nano clock)\<rparr>) (ls_orders s)" "ls_events s' = ls_events s"
    using claim by (auto simp: ClaimOrder_def split: if_splits)
  moreover from this(1) have "map io_OrderID (ls_orders s') = map io_OrderID (ls_orders s)" by (simp add: sql_update_def)
  ultimately show ?thesis using outbox_inv_same [OF assms(2)] by simp
next
  case (started clock orderID)
  then show ?thesis by (intro outbox_inv_same [OF assms(2)]) (simp_all add: MarkProcessStarted_def sql_update_def)
next
  case (finish clock oid state lastError)
  show ?thesis unfolding finish(1) by (rule outbox_inv_same [OF assms(2)]) (simp_all add: FinishOrder_def sql_update_def)
next
  case (put_event clock1 clock2 event)
  then show ?thesis using outbox_inv_put_event_row [OF assms(2)] by (auto simp: PutEvent_def split: if_splits)
next
  case (published clock eventID)
  then show ?thesis by (intro outbox_inv_same [OF assms(2)]) (simp_all add: MarkEventPublished_def sql_update_def)
next
  case (compact clock olderThan limit n)
  then have "\<exists>P. ls_events s' = filter P (ls_events s)" "ls_orders s' = ls_orders s"
    by (auto simp: CompactPublishedEvents_def Let_def split: if_splits)
  then show ?thesis using assms(2) by (auto simp: outbox_inv_def distinct_map_filter)
next
  case (recover notice clocks bootID ids)
  then show ?thesis unfolding RecoverOrders_def by (rule outbox_inv_recover [OF assms(2)])
next
  case (recover_signed L key clock bootID ids)
  then have "recover_with (signed_notice L key clock bootID) (\<lambda>_. clock) bootID s = Inr (ids, s')"
    by (auto simp: RecoverOrdersSigned_def split: if_splits)
  then show ?thesis by (rule outbox_inv_recover [OF assms(2)])
qed

lemma outbox_inv_steps: "worker_steps s s' \<Longrightarrow> outbox_inv s \<Longrightarrow> outbox_inv s'"
  by (induction rule: worker_steps.induct) (auto intro: outbox_inv_step)

lemma outbox_inv_OpenStore: "outbox_inv OpenStore"
  by (simp add: outbox_inv_def OpenStore_def)

section \<open>Compaction\<close>

lemma max_sequence_ge:
  assumes "e \<in> set (ls_events s)" "oe_OrderID e = orderID" "oe_Channel e = channel"
  shows "oe_Sequence e \<le> max_sequence orderID channel s"
proof -
  have "oe_Sequence e \<le> foldr (\<lambda>e m. max (oe_Sequence e) m) es 0" if "e \<in> set es" for es
    using that by (induction es) auto
  then show ?thesis using assms by (simp add: max_sequence_def)
qed

lemma max_sequence_attained:
  "max_sequence orderID channel s = 0
   \<or> (\<exists>e \<in> set (ls_events s). oe_OrderID e = orderID \<and> oe_Channel e = channel \<and> oe_Sequence e = max_sequence orderID channel s)"
proof -
  have "foldr (\<lambda>e m. max (oe_Sequence e) m) es 0 = 0 \<or> (\<exists>e \<in> set es. oe_Sequence e = foldr (\<lambda>e m. max (oe_Sequence e) m) es 0)"
    for es :: "outbox_event list" by (induction es) (auto simp: max_def)
  from this [of "filter (\<lambda>e. oe_OrderID e = orderID \<and> oe_Channel e = channel) (ls_events s)"]
  show ?thesis unfolding max_sequence_def by auto
qed

lemma max_sequence_nonneg: "0 \<le> max_sequence orderID channel s"
proof -
  have "0 \<le> foldr (\<lambda>e m. max (oe_Sequence e) m) es 0" for es :: "outbox_event list" by (induction es) auto
  then show ?thesis by (simp add: max_sequence_def)
qed

text \<open>What compaction removes: published events with a later one on their channel.\<close>

lemma compact_removes:
  assumes "CompactPublishedEvents clock olderThan limit s = Inr (n, s')" "outbox_inv s" "e \<in> set (ls_events s)" "e \<notin> set (ls_events s')"
  shows "oe_State e = ''PUBLISHED'' \<and> superseded s e"
proof -
  define cutoff where "cutoff = rfc3339_nano (clock - olderThan)"
  define old where "old = filter (\<lambda>e. oe_State e = ''PUBLISHED'' \<and> (case oe_PublishedAt e of None \<Rightarrow> False | Some t \<Rightarrow> t < cutoff) \<and> superseded s e) (ls_events s)"
  define doomed where "doomed = map oe_EventID (sql_limit (nat (if limit < 1 then 1000 else limit)) (\<lambda>e. (coalesce (oe_PublishedAt e) [], oe_EventID e)) old)"
  have s': "ls_events s' = filter (\<lambda>e. oe_EventID e \<notin> set doomed) (ls_events s)"
  proof -
    have "CompactPublishedEvents clock olderThan limit s = (if olderThan < 0 then Inl RetentionNegative
        else Inr (sql_count (\<lambda>e. oe_EventID e \<in> set doomed) (ls_events s), s\<lparr>ls_events := filter (\<lambda>e. oe_EventID e \<notin> set doomed) (ls_events s)\<rparr>))"
      unfolding CompactPublishedEvents_def Let_def doomed_def old_def cutoff_def by (rule refl)
    then show ?thesis using assms(1) by (auto split: if_splits)
  qed
  then have "oe_EventID e \<in> set doomed" using assms(3,4) by auto
  then obtain e' where e': "e' \<in> set (sql_limit (nat (if limit < 1 then 1000 else limit)) (\<lambda>e. (coalesce (oe_PublishedAt e) [], oe_EventID e)) old)"
    "oe_EventID e' = oe_EventID e" unfolding doomed_def by auto
  then have "e' \<in> set old" by (auto simp: sql_limit_def dest: in_set_takeD)
  then have "e' \<in> set (ls_events s)" "oe_State e' = ''PUBLISHED''" "superseded s e'" by (auto simp: old_def)
  moreover from this(1) have "e' = e" using distinct_map_eq_key [of oe_EventID "ls_events s" e' e] assms(2,3) e'(2) by (auto simp: outbox_inv_def)
  ultimately show ?thesis by blast
qed

lemma compact_subset: "CompactPublishedEvents clock olderThan limit s = Inr (n, s') \<Longrightarrow> set (ls_events s') \<subseteq> set (ls_events s)"
  by (auto simp: CompactPublishedEvents_def Let_def split: if_splits)

lemma compact_keeps_max:
  assumes "CompactPublishedEvents clock olderThan limit s = Inr (n, s')" "outbox_inv s"
  shows "max_sequence orderID channel s' = max_sequence orderID channel s"
proof (rule antisym)
  show "max_sequence orderID channel s' \<le> max_sequence orderID channel s"
    using max_sequence_attained [of orderID channel s'] compact_subset [OF assms(1)] max_sequence_ge [of _ s] max_sequence_nonneg [of orderID channel s]
    by fastforce
  show "max_sequence orderID channel s \<le> max_sequence orderID channel s'"
  proof (cases "max_sequence orderID channel s = 0")
    case False
    then obtain e where e: "e \<in> set (ls_events s)" "oe_OrderID e = orderID" "oe_Channel e = channel" "oe_Sequence e = max_sequence orderID channel s"
      using max_sequence_attained by blast
    then have "\<not> superseded s e" using max_sequence_ge [of _ s orderID channel] by (fastforce simp: superseded_def list_ex_iff)
    then have "e \<in> set (ls_events s')" using compact_removes [OF assms e(1)] by blast
    then show ?thesis using max_sequence_ge [of e s'] e by simp
  qed (use max_sequence_nonneg in simp)
qed

text \<open>
  Compaction forgets nothing that matters. In every store a worker can reach, removing old
  published events keeps every event that is still to be published, and keeps the highest sequence
  number of every channel, so that no later event reuses a number.
\<close>

theorem compaction_safe:
  assumes "worker_steps OpenStore s" "CompactPublishedEvents clock olderThan limit s = Inr (n, s')"
  shows "max_sequence orderID channel s' = max_sequence orderID channel s
    \<and> filter (\<lambda>e. oe_State e = ''PENDING'') (ls_events s') = filter (\<lambda>e. oe_State e = ''PENDING'') (ls_events s)"
proof
  have inv: "outbox_inv s" by (rule outbox_inv_steps [OF assms(1) outbox_inv_OpenStore])
  show "max_sequence orderID channel s' = max_sequence orderID channel s" by (rule compact_keeps_max [OF assms(2) inv])
  obtain P where P: "ls_events s' = filter P (ls_events s)"
    using assms(2) by (auto simp: CompactPublishedEvents_def Let_def split: if_splits)
  have "P e" if "e \<in> set (ls_events s)" "oe_State e = ''PENDING''" for e
  proof (rule ccontr)
    assume "\<not> P e"
    then have "e \<notin> set (ls_events s')" by (simp add: P)
    with compact_removes [OF assms(2) inv \<open>e \<in> set (ls_events s)\<close>] that(2) show False by simp
  qed
  then show "filter (\<lambda>e. oe_State e = ''PENDING'') (ls_events s') = filter (\<lambda>e. oe_State e = ''PENDING'') (ls_events s)"
    unfolding P filter_filter by (intro filter_cong) auto
qed

definition sample_event :: "string \<Rightarrow> int \<Rightarrow> outbox_event" where
  "sample_event ident sequence = \<lparr>oe_EventID = ident, oe_OrderID = ''o1'', oe_Channel = ''state'', oe_Sequence = sequence, oe_EventType = ''started'',
     oe_Envelope = [1], oe_State = [], oe_AvailableAt = [], oe_PublishedAt = None, oe_CreatedAt = []\<rparr>"

text \<open>Two events of one channel, 20 milliseconds apart; the first one is published.\<close>

definition put_or_keep :: "time \<Rightarrow> outbox_event \<Rightarrow> LocalStore \<Rightarrow> LocalStore" where
  "put_or_keep t e s = (case PutEvent t t e s of Inl _ \<Rightarrow> s | Inr s' \<Rightarrow> s')"

definition sample_pending :: LocalStore where
  "sample_pending = put_or_keep 120000000 (sample_event ''e2'' 2) (put_or_keep 100000000 (sample_event ''e1'' 1) OpenStore)"

definition sample_outbox :: LocalStore where
  "sample_outbox = MarkEventPublished 200000000 ''e1'' sample_pending"

lemma put_or_keep_steps: "worker_steps s0 s \<Longrightarrow> worker_steps s0 (put_or_keep t e s)"
  by (auto simp: put_or_keep_def split: sum.splits intro: worker_steps.step worker_step.put_event)

lemma sample_outbox_reachable: "worker_steps OpenStore sample_outbox"
  unfolding sample_outbox_def sample_pending_def
  by (rule worker_steps.step [OF put_or_keep_steps [OF put_or_keep_steps [OF worker_steps.start]] worker_step.published]) (rule refl)

theorem compaction_safe_witness:
  "\<exists>s'. CompactPublishedEvents (48 * hour) (24 * hour) 1000 sample_outbox = Inr (1, s') \<and> max_sequence ''o1'' ''state'' s' = 2"
proof -
  have "case CompactPublishedEvents (48 * hour) (24 * hour) 1000 sample_outbox of Inl _ \<Rightarrow> False | Inr (n, _) \<Rightarrow> n = 1" by code_simp
  then obtain s' where s': "CompactPublishedEvents (48 * hour) (24 * hour) 1000 sample_outbox = Inr (1, s')" by (auto split: sum.splits)
  have "max_sequence ''o1'' ''state'' sample_outbox = 2" by code_simp
  with compaction_safe [OF sample_outbox_reachable s', of "''o1''" "''state''"] s' show ?thesis by auto
qed

text \<open>
  Trailing zeros are not written, so that the texts of two instants within a second need not compare as
  the instants do: the outbox hands out the second event of the channel before the first.
\<close>

theorem pending_events_out_of_order:
  "map oe_Sequence (PendingEvents second 100 sample_pending) = [2, 1]"
  by code_simp

section \<open>Recovery\<close>

lemma put_event_row_keeps: "put_event_row e s = Inr s' \<Longrightarrow> x \<in> set (ls_events s) \<Longrightarrow> x \<in> set (ls_events s')"
  by (auto simp: put_event_row_def split: if_splits)

lemma notify_keeps:
  "notify_unknown envelope clock bootID rows s = Inr s' \<Longrightarrow> x \<in> set (ls_events s) \<Longrightarrow> x \<in> set (ls_events s')"
proof (induction rows arbitrary: s)
  case (Cons row rows)
  then obtain raw s1 where "put_event_row (recovery_event (clock (length rows)) bootID (io_OrderID row) raw s) s = Inr s1"
    "notify_unknown envelope clock bootID rows s1 = Inr s'" by (auto simp: res_bind_Inr)
  then show ?case using Cons.IH [of s1] put_event_row_keeps [of _ s s1 x] Cons.prems(2) by blast
qed simp

text \<open>The notice of a restart: a pending event above all earlier ones of the order.\<close>

definition restart_notice :: "string \<Rightarrow> string \<Rightarrow> LocalStore \<Rightarrow> outbox_event \<Rightarrow> bool" where
  "restart_notice bootID orderID s e \<longleftrightarrow>
     oe_EventID e = ''recovery:'' @ bootID @ '':'' @ orderID \<and> oe_OrderID e = orderID \<and> oe_Channel e = ''state'' \<and> oe_EventType e = ''unknown''
     \<and> oe_State e = ''PENDING''
     \<and> list_all (\<lambda>e'. oe_OrderID e' = orderID \<and> oe_Channel e' = ''state'' \<longrightarrow> oe_Sequence e' < oe_Sequence e) (ls_events s)"

lemma notify_reports:
  assumes "notify_unknown envelope clock bootID rows s = Inr s'" "row \<in> set rows"
    and "\<forall>e \<in> set (ls_events s0). e \<in> set (ls_events s)"
    and "\<forall>e \<in> set (ls_events s). oe_EventID e = ''recovery:'' @ bootID @ '':'' @ io_OrderID row \<longrightarrow> restart_notice bootID (io_OrderID row) s0 e"
  shows "\<exists>e \<in> set (ls_events s'). restart_notice bootID (io_OrderID row) s0 e"
  using assms
proof (induction rows arbitrary: s)
  case (Cons row1 rows)
  then obtain raw s1 where put: "put_event_row (recovery_event (clock (length rows)) bootID (io_OrderID row1) raw s) s = Inr s1"
    and rest: "notify_unknown envelope clock bootID rows s1 = Inr s'" by (auto simp: res_bind_Inr)
  let ?e = "recovery_event (clock (length rows)) bootID (io_OrderID row1) raw s"
  have notice: "restart_notice bootID (io_OrderID row1) s0 ?e"
    using Cons.prems(3) max_sequence_ge [of _ s "io_OrderID row1" "''state''"] by (force simp: restart_notice_def recovery_event_def list_all_iff)
  have sub: "\<forall>e \<in> set (ls_events s0). e \<in> set (ls_events s1)" using Cons.prems(3) put_event_row_keeps [OF put] by blast
  have grown: "e \<in> set (ls_events s) \<or> e = ?e" if "e \<in> set (ls_events s1)" for e using put_event_row_Inr [OF put] that by auto
  show ?case
  proof (cases "io_OrderID row1 = io_OrderID row")
    case True
    have "\<exists>e \<in> set (ls_events s1). restart_notice bootID (io_OrderID row) s0 e"
      using put_event_row_Inr [OF put] notice Cons.prems(4) True by (auto simp: recovery_event_def)
    then show ?thesis using notify_keeps [OF rest] by blast
  next
    case False
    have "oe_EventID ?e \<noteq> ''recovery:'' @ bootID @ '':'' @ io_OrderID row" using False by (simp add: recovery_event_def)
    then have "\<forall>e \<in> set (ls_events s1). oe_EventID e = ''recovery:'' @ bootID @ '':'' @ io_OrderID row \<longrightarrow> restart_notice bootID (io_OrderID row) s0 e"
      using grown Cons.prems(4) by blast
    then show ?thesis using Cons.IH [OF rest _ sub] Cons.prems(2) False by auto
  qed
qed simp

lemma orphans_mark_unknown: "orphans bootID (mark_unknown bootID s) = []"
  unfolding orphans_def order_updates(3) filter_empty_conv
  by (rule ballI, erule in_sql_updateE) simp_all

lemma recover_reports:
  assumes "recover_with envelope clock bootID s = Inr (ids, s')"
  shows "ids = map io_OrderID (orphans bootID s)" "orphans bootID s' = []"
    and "\<lbrakk>row \<in> set (orphans bootID s); \<forall>e \<in> set (ls_events s). oe_EventID e \<noteq> ''recovery:'' @ bootID @ '':'' @ io_OrderID row\<rbrakk>
      \<Longrightarrow> \<exists>e \<in> set (ls_events s'). restart_notice bootID (io_OrderID row) s e"
  using assms
proof -
  obtain s1 where s1: "notify_unknown envelope clock bootID (orphans bootID s) s = Inr s1" "s' = mark_unknown bootID s1"
    "ids = map io_OrderID (orphans bootID s)" using assms by (rule recover_with_Inr)
  show "ids = map io_OrderID (orphans bootID s)" "orphans bootID s' = []" using s1 orphans_mark_unknown by simp_all
  assume row: "row \<in> set (orphans bootID s)" "\<forall>e \<in> set (ls_events s). oe_EventID e \<noteq> ''recovery:'' @ bootID @ '':'' @ io_OrderID row"
  show "\<exists>e \<in> set (ls_events s'). restart_notice bootID (io_OrderID row) s e"
    using notify_reports [OF s1(1) row(1), of s] row(2) s1(2) by (simp add: mark_unknown_def)
qed



end
