(* ===== verification/ProtocolFacts.thy ===== *)
theory ProtocolFacts
  imports Protocol
begin

text \<open>
  What the message protocol guarantees: a signed order is accepted and read back unchanged,
  an accepted order satisfies every check of the verifier, signatures of one kind of message
  never stand for another kind, revocation is final, and no order is accepted twice through a
  replay acceptor. The acceptor is an interface (\<open>replay_acceptor\<close>): \<^verbatim>\<open>ReplayGuard\<close> and
  \<^verbatim>\<open>ReplayLog\<close> are its two providers, \<open>VerifyOrder\<close> its client.
\<close>

section \<open>Envelopes and signatures\<close>

lemma PayloadBytes_New: "payload \<noteq> [] \<Longrightarrow> PayloadBytes (NewEnvelope i payload) = Inr payload"
  by (simp add: PayloadBytes_def NewEnvelope_def encodeBase64_def)

lemma PayloadBytes_signature [simp]: "PayloadBytes (e\<lparr>env_Signature := s\<rparr>) = PayloadBytes e"
  by (simp add: PayloadBytes_def)

lemma PayloadBytes_nonempty: "PayloadBytes e = Inr payload \<Longrightarrow> env_Payload e \<noteq> []"
  by (auto simp: PayloadBytes_def split: if_splits)

lemma Sign_Inr:
  assumes "Sign L sk d (NewEnvelope i payload) = Inr e" and "payload \<noteq> []"
  shows "length sk = 64"
    and "PayloadBytes e = Inr payload" and "env_KeyID e = i" and "env_Version e = ProtocolVersion"
    and "env_Signature e = encodeBase64 (ed25519_sign L sk (signingBytes d payload))"
proof -
  from assms have len: "length sk = 64"
    and e: "e = (NewEnvelope i payload)\<lparr>env_Signature :=
              encodeBase64 (ed25519_sign L sk (signingBytes d payload))\<rparr>"
    by (auto simp: Sign_def PayloadBytes_New split: if_splits)
  show "length sk = 64" by (rule len)
  show "PayloadBytes e = Inr payload" using assms(2) by (simp add: e PayloadBytes_New)
  show "env_KeyID e = i" and "env_Version e = ProtocolVersion"
    and "env_Signature e = encodeBase64 (ed25519_sign L sk (signingBytes d payload))"
    by (simp_all add: e NewEnvelope_def)
qed

lemma SignatureBytes_signed:
  assumes "env_Signature e = encodeBase64 s" and "s \<noteq> []"
  shows "SignatureBytes e = Inr s"
  using assms by (simp add: SignatureBytes_def encodeBase64_def)

lemma Verify_Inr:
  "Verify L pk d e = Inr u \<longleftrightarrow>
     length pk = 32 \<and> (\<exists>payload s. PayloadBytes e = Inr payload \<and> SignatureBytes e = Inr s
       \<and> length s = 64 \<and> ed25519_verify L pk (signingBytes d payload) s)"
  by (auto simp: Verify_def split: if_splits sum.splits)

lemma DecodeEnvelope_Inr:
  assumes "DecodeEnvelope L raw = Inr e"
  shows "int (length raw) \<le> DefaultMaxEnvelopeBytes" and "envelope_unmarshal L raw = Some e"
    and "env_Version e = ProtocolVersion" and "env_KeyID e \<noteq> []" and "\<exists>p. PayloadBytes e = Inr p"
  using assms
  by (auto simp: DecodeEnvelope_def DecodeEnvelopeLimited_def
      split: if_splits option.splits sum.splits)

lemma DecodeEnvelope_signed:
  assumes "int (length raw) \<le> 2 ^ 20" and "envelope_unmarshal L raw = Some e"
    and "env_Version e = ProtocolVersion" and "env_KeyID e \<noteq> []"
    and "PayloadBytes e = Inr p" and "SignatureBytes e = Inr s"
  shows "DecodeEnvelope L raw = Inr e"
  using assms by (auto simp: DecodeEnvelope_def DecodeEnvelopeLimited_def DefaultMaxEnvelopeBytes_def)

lemma VerifyAt_Inr:
  "VerifyAt L keys e d now = Inr u \<longleftrightarrow>
     (\<exists>key. map_of keys (env_KeyID e) = Some key \<and> vk_ID key = env_KeyID e \<and> \<not> vk_Revoked key
        \<and> (vk_NotBefore key = 0 \<or> vk_NotBefore key \<le> now)
        \<and> (vk_NotAfter key = 0 \<or> now \<le> vk_NotAfter key)
        \<and> Verify L (vk_PublicKey key) d e = Inr ())"
  by (auto simp: VerifyAt_def Verify_Inr not_less split: option.splits)

lemma frame_of_Inr:
  assumes "frame_of m = Inr raw"
  obtains b where "m = Some b" and "decodePayloadFrame raw = Inr b" and "raw \<noteq> []"
  using assms decode_encode_frame [of m raw]
  by (force simp: frame_of_def split: sum.splits)

lemma validateIdentity_Inr:
  "validateIdentity a b = Inr u \<longleftrightarrow>
     ic_runnerID a \<noteq> [] \<and> ic_runID a \<noteq> [] \<and> ic_leaseToken a \<noteq> [] \<and> ic_attempt a \<noteq> 0
     \<and> ic_runnerID a = ic_runnerID b \<and> ic_runID a = ic_runID b \<and> ic_attempt a = ic_attempt b
     \<and> ic_leaseToken a = ic_leaseToken b"
  by (auto simp: validateIdentity_def)

lemma Order_ValidateTime_Inr:
  "Order_ValidateTime p now tol = Inr u \<longleftrightarrow>
     0 \<le> tol \<and> ord_IssuedAt p \<noteq> 0 \<and> ord_NotBefore p \<noteq> 0 \<and> ord_ExpiresAt p \<noteq> 0
     \<and> ord_IssuedAt p \<le> now + tol \<and> ord_IssuedAt p - tol \<le> ord_NotBefore p
     \<and> ord_NotBefore p < ord_ExpiresAt p
     \<and> ord_NotBefore p - tol \<le> now \<and> now \<le> ord_ExpiresAt p + tol"
  by (auto simp: Order_ValidateTime_def)

lemma ValidateExecution_Inr:
  "ValidateExecution p = Inr u \<longleftrightarrow>
     ord_OrderID p \<noteq> [] \<and> ord_RunID p \<noteq> [] \<and> ord_RunnerID p \<noteq> [] \<and> ord_RunnerSessionID p \<noteq> []
     \<and> ord_LeaseToken p \<noteq> [] \<and> ord_WorkingDir p \<noteq> [] \<and> ord_DurationSeconds p \<noteq> 0
     \<and> ord_Command p \<noteq> [] \<and> [] \<notin> set (ord_Command p)
     \<and> list_all valid_secret_ref (ord_SecretRefs p)"
  by (auto simp: ValidateExecution_def list_all_iff)

text \<open>One successful run of the order verifier, with what each stage established.\<close>

lemma VerifyOrder_Inr:
  assumes "VerifyOrder L raw keys now rid run att lt tol acc st = (Inr p, st')"
  obtains e where "DecodeEnvelope L raw = Inr e"
    and "VerifyAt L keys e OrderSignatureDomain now = Inr ()"
    and "DecodeOrderPayload L (mustPayload e) = Inr p"
    and "Order_ValidateTime p now tol = Inr ()"
    and "Order_ValidateIdentity p rid run att lt = Inr ()"
    and "ValidateExecution p = Inr ()"
    and "acc = None \<and> st' = st \<or> (\<exists>f. acc = Some f \<and> f (ord_OrderID p) st = (None, st'))"
  using assms
  by (auto simp: VerifyOrder_def split: sum.splits option.splits prod.splits)

lemma VerifyOrder_Inl_state:
  assumes "VerifyOrder L raw keys now rid run att lt tol (Some f) st = (Inl e, st')"
  shows "st' = st \<or> (\<exists>i e'. f i st = (Some e', st'))"
  using assms
  by (auto simp: VerifyOrder_def split: sum.splits option.splits prod.splits)

section \<open>The replay acceptor interface\<close>

text \<open>
  The verifier relies on this of an acceptor: it accepts only a non-empty identifier it has
  not seen, it then remembers exactly that identifier, and an error leaves what it has seen
  unchanged.
\<close>

locale replay_acceptor =
  fixes accept :: "string \<Rightarrow> 's \<Rightarrow> proto_error option \<times> 's"
    and seen :: "'s \<Rightarrow> string set"
  assumes accept_new:
      "accept i s = (None, s') \<Longrightarrow> i \<noteq> [] \<and> i \<notin> seen s \<and> seen s' = insert i (seen s)"
    and accept_error: "accept i s = (Some e, s') \<Longrightarrow> seen s' = seen s"

text \<open>An acceptor without I/O never refuses a fresh identifier.\<close>

locale total_acceptor = replay_acceptor +
  assumes accept_fresh: "i \<noteq> [] \<Longrightarrow> i \<notin> seen s \<Longrightarrow> fst (accept i s) = None"

text \<open>The arguments of one call of the order verifier, and a sequence of calls.\<close>

record order_call =
  oc_raw :: bytes
  oc_keys :: Keyring
  oc_now :: time
  oc_runnerID :: string
  oc_runID :: string
  oc_attempt :: "32 word"
  oc_leaseToken :: string
  oc_tolerance :: duration

definition verify_call ::
    "lib \<Rightarrow> (string \<Rightarrow> 's \<Rightarrow> proto_error option \<times> 's) \<Rightarrow> order_call \<Rightarrow> 's
     \<Rightarrow> (proto_error + OrderPayload) \<times> 's" where
  "verify_call L accept c st =
     VerifyOrder L (oc_raw c) (oc_keys c) (oc_now c) (oc_runnerID c) (oc_runID c) (oc_attempt c)
       (oc_leaseToken c) (oc_tolerance c) (Some accept) st"

fun accepted_orders ::
    "lib \<Rightarrow> (string \<Rightarrow> 's \<Rightarrow> proto_error option \<times> 's) \<Rightarrow> order_call list \<Rightarrow> 's
     \<Rightarrow> OrderPayload list" where
  "accepted_orders L accept [] st = []"
| "accepted_orders L accept (c # cs) st =
     (case verify_call L accept c st of
        (Inl _, st') \<Rightarrow> accepted_orders L accept cs st'
      | (Inr p, st') \<Rightarrow> p # accepted_orders L accept cs st')"

context replay_acceptor
begin

lemma verify_call_accepts:
  assumes "verify_call L accept c st = (Inr p, st')"
  shows "ord_OrderID p \<notin> seen st" and "seen st' = insert (ord_OrderID p) (seen st)"
proof -
  from assms have "accept (ord_OrderID p) st = (None, st')"
    unfolding verify_call_def by (rule VerifyOrder_Inr) auto
  then show "ord_OrderID p \<notin> seen st" and "seen st' = insert (ord_OrderID p) (seen st)"
    using accept_new by blast+
qed

lemma verify_call_rejects:
  "verify_call L accept c st = (Inl e, st') \<Longrightarrow> seen st' = seen st"
  unfolding verify_call_def by (drule VerifyOrder_Inl_state) (auto dest: accept_error)

lemma accepted_orders_fresh:
  "distinct (map ord_OrderID (accepted_orders L accept cs st))
   \<and> set (map ord_OrderID (accepted_orders L accept cs st)) \<inter> seen st = {}"
proof (induction cs arbitrary: st)
  case (Cons c cs)
  obtain r st' where r: "verify_call L accept c st = (r, st')" by force
  show ?case
  proof (cases r)
    case (Inl e)
    with r have "seen st' = seen st" by (simp add: verify_call_rejects)
    with Cons.IH [of st'] r Inl show ?thesis by simp
  next
    case (Inr p)
    with r have "ord_OrderID p \<notin> seen st" "seen st' = insert (ord_OrderID p) (seen st)"
      using verify_call_accepts by blast+
    with Cons.IH [of st'] r Inr show ?thesis by auto
  qed
qed simp

end

interpretation guard: total_acceptor ReplayGuard_Accept set
  by unfold_locales (auto simp: ReplayGuard_Accept_def split: if_splits)

text \<open>
  \<^verbatim>\<open>ReplayLog\<close> as an acceptor: the outcomes of the coming file operations are part of the
  state; once they are used up the file cannot be opened.
\<close>

definition log_accept ::
    "string \<Rightarrow> ReplayLog \<times> append_outcome list
     \<Rightarrow> proto_error option \<times> (ReplayLog \<times> append_outcome list)" where
  "log_accept i s =
     (let (r, l') = ReplayLog_Accept (case snd s of [] \<Rightarrow> OpenFails | io # _ \<Rightarrow> io) i (fst s)
      in (r, (l', tl (snd s))))"

interpretation rlog: replay_acceptor log_accept "\<lambda>s. set (rl_seen (fst s))"
  by unfold_locales
    (auto simp: log_accept_def ReplayLog_Accept_def split: if_splits append_outcome.splits)

section \<open>Reading the log back\<close>

lemma Split_append_sep:
  "c \<notin> set i \<Longrightarrow> Split c (s @ i @ [c]) = butlast (Split c s) @ [last (Split c s) @ i, []]"
proof (induction s)
  case Nil
  then show ?case by (induction i) auto
next
  case (Cons x xs)
  then show ?case by (cases "Split c xs") auto
qed

lemma last_Split_newline:
  assumes "s = [] \<or> last s = c"
  shows "last (Split c s) = []"
proof (cases "s = []")
  case False
  with assms have "s = butlast s @ [] @ [c]" by (metis append_Nil append_butlast_last_id)
  then show ?thesis using Split_append_sep [of c "[]" "butlast s"]
    by (metis empty_iff empty_set last.simps last_appendR list.distinct(1))
qed simp

text \<open>
  A file that consists of complete lines: after one more line is appended, the scanner finds
  the old lines and the new one.
\<close>

lemma scan_lines_append:
  assumes "s = [] \<or> last s = CHR 0x0A" and "scan_lines s = Some ls"
    and "CHR 0x0A \<notin> set i" and "i = [] \<or> last i \<noteq> CHR 0x0D" and "length i < 65536"
  shows "scan_lines (s @ i @ [CHR 0x0A]) = Some (ls @ [i])"
proof -
  have l: "last (Split (CHR 0x0A) s) = []" using assms(1) by (rule last_Split_newline)
  have "Split (CHR 0x0A) (s @ i @ [CHR 0x0A]) = butlast (Split (CHR 0x0A) s) @ [i, []]"
    using Split_append_sep [OF assms(3), of s] l by simp
  then show ?thesis
    using assms l by (auto simp: scan_lines_def Let_def butlast_append split: if_splits)
qed

lemma if_not_flip: "(if b < (a :: int) then x else y) = (if a \<le> b then y else x)"
  by (cases "a \<le> b") (auto simp: not_le)

section \<open>A signed order reaches the acceptor\<close>

lemma signed_order_verdict:
  assumes json_order: "\<And>b. order_marshal L p = Some b \<Longrightarrow> order_unmarshal L b = Some p"
    and json_env: "\<And>b. envelope_marshal L e = Some b \<Longrightarrow> envelope_unmarshal L b = Some e"
    and ed: "\<And>m. ed25519_verify L pk m (ed25519_sign L (sk_Private k) m)"
            "\<And>m. length (ed25519_sign L (sk_Private k) m) = 64"
    and enc: "EncodeOrderPayload L p = Inr raw" "SignOrder L k raw = Inr e"
             "EncodeEnvelope L e = Inr wire" "int (length wire) \<le> DefaultMaxEnvelopeBytes"
    and key: "map_of keys (sk_ID k) =
                Some \<lparr>vk_ID = sk_ID k, vk_PublicKey = pk, vk_NotBefore = nb, vk_NotAfter = na,
                      vk_Revoked = False\<rparr>"
             "sk_ID k \<noteq> []" "length pk = 32" "nb \<le> now" "na = 0 \<or> now \<le> na"
    and valid: "ord_Version p = ProtocolVersion" "OrderType_Valid (ord_Type p)"
               "Order_ValidateTime p now tol = Inr ()" "ValidateExecution p = Inr ()"
               "ord_Attempt p \<noteq> 0"
  shows "VerifyOrder L wire keys now (ord_RunnerID p) (ord_RunID p) (ord_Attempt p)
           (ord_LeaseToken p) tol acc st =
         (case acc of None \<Rightarrow> (Inr p, st)
          | Some f \<Rightarrow> (case f (ord_OrderID p) st of
                         (Some err, st') \<Rightarrow> (Inl err, st') | (None, st') \<Rightarrow> (Inr p, st')))"
proof -
  obtain b where b: "order_marshal L p = Some b" "decodePayloadFrame raw = Inr b" "raw \<noteq> []"
    using enc(1) unfolding EncodeOrderPayload_def by (rule frame_of_Inr)
  note s = Sign_Inr [OF enc(2) [unfolded SignOrder_def] b(3)]
  have "ed25519_sign L (sk_Private k) (signingBytes OrderSignatureDomain raw) \<noteq> []"
    using ed(2) by (metis list.size(3) zero_neq_numeral)
  then have sb: "SignatureBytes e = Inr (ed25519_sign L (sk_Private k) (signingBytes OrderSignatureDomain raw))"
    using s(5) SignatureBytes_signed by blast
  from enc(3) have "envelope_marshal L e = Some wire"
    by (simp add: EncodeEnvelope_def split: option.splits)
  then have um: "envelope_unmarshal L wire = Some e" by (rule json_env)
  have dec: "DecodeEnvelope L wire = Inr e"
    by (rule DecodeEnvelope_signed [OF _ um s(4) _ s(2) sb])
      (use enc(4) key(2) s(3) in \<open>simp_all add: DefaultMaxEnvelopeBytes_def\<close>)
  have ver: "VerifyAt L keys e OrderSignatureDomain now = Inr ()"
    using key s(2,3) sb ed by (auto simp: VerifyAt_Inr Verify_Inr)
  have "DecodeOrderPayload L raw = Inr p"
    using b(2) json_order [OF b(1)] valid(1,2) by (simp add: DecodeOrderPayload_def)
  then have pay: "DecodeOrderPayload L (mustPayload e) = Inr p" by (simp add: mustPayload_def s(2))
  have "Order_ValidateIdentity p (ord_RunnerID p) (ord_RunID p) (ord_Attempt p) (ord_LeaseToken p) = Inr ()"
    using valid(4,5) by (simp add: Order_ValidateIdentity_def validateIdentity_Inr ValidateExecution_Inr)
  then show ?thesis using dec ver pay valid(3,4) by (simp add: VerifyOrder_def)
qed

section \<open>Properties\<close>

text \<open>
  Round trip of an order. An order that is encoded, framed, signed with the control
  plane's key and put in an envelope passes every check of a worker that holds the public key;
  the worker reads back exactly the payload that was signed, and only its replay acceptor, if
  it has one, can still refuse it. The hypotheses on \<open>L\<close> are what \<^verbatim>\<open>encoding/json\<close> and
  \<^verbatim>\<open>crypto/ed25519\<close> document for these two values and this key pair.
\<close>

theorem signed_order_accepted:
  assumes "\<And>b. order_marshal L p = Some b \<Longrightarrow> order_unmarshal L b = Some p"
    and "\<And>b. envelope_marshal L e = Some b \<Longrightarrow> envelope_unmarshal L b = Some e"
    and "\<And>m. ed25519_verify L pk m (ed25519_sign L (sk_Private k) m)"
    and "\<And>m. length (ed25519_sign L (sk_Private k) m) = 64"
    and "EncodeOrderPayload L p = Inr raw" and "SignOrder L k raw = Inr e"
    and "EncodeEnvelope L e = Inr wire" and "int (length wire) \<le> DefaultMaxEnvelopeBytes"
    and "map_of keys (sk_ID k) =
           Some \<lparr>vk_ID = sk_ID k, vk_PublicKey = pk, vk_NotBefore = nb, vk_NotAfter = na,
                 vk_Revoked = False\<rparr>"
    and "sk_ID k \<noteq> []" and "length pk = 32" and "nb \<le> now" and "na = 0 \<or> now \<le> na"
    and "ord_Version p = ProtocolVersion" and "OrderType_Valid (ord_Type p)"
    and "Order_ValidateTime p now tol = Inr ()" and "ValidateExecution p = Inr ()"
    and "ord_Attempt p \<noteq> 0"
  shows "VerifyOrder L wire keys now (ord_RunnerID p) (ord_RunID p) (ord_Attempt p)
           (ord_LeaseToken p) tol acc st =
         (case acc of None \<Rightarrow> (Inr p, st)
          | Some f \<Rightarrow> (case f (ord_OrderID p) st of
                         (Some err, st') \<Rightarrow> (Inl err, st') | (None, st') \<Rightarrow> (Inr p, st')))"
  by (rule signed_order_verdict [OF assms])

text \<open>
  A concrete instance for the witnesses: a lookup-table codec for one order and one envelope,
  and a keyless 64-byte checksum in place of the signature.
\<close>

definition sample_order :: OrderPayload where
  "sample_order = zero_OrderPayload\<lparr>ord_Version := 1, ord_OrderID := ''o1'', ord_RunID := ''r1'',
     ord_RunnerID := ''w1'', ord_RunnerSessionID := ''s1'', ord_LeaseToken := ''t1'',
     ord_Attempt := 1, ord_IssuedAt := 100, ord_NotBefore := 100, ord_ExpiresAt := 200,
     ord_Type := OrderExecute, ord_Command := [''ls''], ord_WorkingDir := ''.'',
     ord_SecretRefs := [(''TOKEN'', ''vault/token'')], ord_DurationSeconds := 5\<rparr>"

definition sample_sign :: "bytes \<Rightarrow> bytes \<Rightarrow> bytes" where
  "sample_sign sk m = replicate 64 (sum_list m)"

definition sample_key :: SigningKey where
  "sample_key = \<lparr>sk_ID = ''cp'', sk_Private = replicate 64 7,
     sk_Public = \<lparr>vk_ID = ''cp'', vk_PublicKey = replicate 32 7, vk_NotBefore = 0, vk_NotAfter = 0,
                  vk_Revoked = False\<rparr>, sk_CreatedAt = 1\<rparr>"

definition sample_frame :: bytes where
  "sample_frame = payloadMagic @ be32 1 @ [1]"

definition sample_envelope :: Envelope where
  "sample_envelope = (NewEnvelope ''cp'' sample_frame)\<lparr>env_Signature :=
     encodeBase64 (sample_sign [] (signingBytes OrderSignatureDomain sample_frame))\<rparr>"

definition sample_lib :: lib where
  "sample_lib =
     \<lparr>envelope_marshal = (\<lambda>e. if e = sample_envelope then Some [2] else None),
      envelope_unmarshal = (\<lambda>b. if b = [2] then Some sample_envelope else None),
      order_marshal = (\<lambda>p. if p = sample_order then Some [1] else None),
      order_unmarshal = (\<lambda>b. if b = [1] then Some sample_order else None),
      event_marshal = (\<lambda>_. None), event_unmarshal = (\<lambda>_. None),
      control_marshal = (\<lambda>_. None), control_unmarshal = (\<lambda>_. None),
      ed25519_sign = sample_sign,
      ed25519_verify = (\<lambda>pk m s. s = replicate 64 (sum_list m))\<rparr>"

definition sample_keys :: Keyring where
  "sample_keys = [(''cp'', sk_Public sample_key)]"

lemma sample_encoded:
  "EncodeOrderPayload sample_lib sample_order = Inr sample_frame"
  by (simp add: EncodeOrderPayload_def frame_of_def encodePayloadFrame_def sample_lib_def
      sample_frame_def)

lemma sample_signed:
  "SignOrder sample_lib sample_key sample_frame = Inr sample_envelope"
  "EncodeEnvelope sample_lib sample_envelope = Inr [2]"
  by (simp_all add: SignOrder_def Sign_def sample_key_def sample_lib_def sample_envelope_def
      PayloadBytes_New EncodeEnvelope_def sample_sign_def sample_frame_def)

lemma sample_valid:
  "ord_Version sample_order = ProtocolVersion" "OrderType_Valid (ord_Type sample_order)"
  "Order_ValidateTime sample_order 150 0 = Inr ()" "ValidateExecution sample_order = Inr ()"
  "ord_Attempt sample_order \<noteq> 0"
  by code_simp+

lemma sample_lib_laws:
  "order_marshal sample_lib sample_order = Some b \<Longrightarrow> order_unmarshal sample_lib b = Some sample_order"
  "envelope_marshal sample_lib sample_envelope = Some b
     \<Longrightarrow> envelope_unmarshal sample_lib b = Some sample_envelope"
  "ed25519_verify sample_lib pk m (ed25519_sign sample_lib sk m)"
  "length (ed25519_sign sample_lib sk m) = 64"
  by (simp_all add: sample_lib_def sample_sign_def)

lemma sample_keys_key:
  "map_of sample_keys (sk_ID sample_key) =
     Some \<lparr>vk_ID = sk_ID sample_key, vk_PublicKey = replicate 32 7, vk_NotBefore = 0, vk_NotAfter = 0,
           vk_Revoked = False\<rparr>"
  "sk_ID sample_key \<noteq> []"
  by (simp_all add: sample_keys_def sample_key_def)

lemma sample_wire_small: "int (length ([2] :: bytes)) \<le> DefaultMaxEnvelopeBytes"
  by (simp add: DefaultMaxEnvelopeBytes_def)

theorem signed_order_accepted_witness:
  "VerifyOrder sample_lib [2] sample_keys 150 ''w1'' ''r1'' 1 ''t1'' 0 None () = (Inr sample_order, ())"
proof -
  have "VerifyOrder sample_lib [2] sample_keys 150 (ord_RunnerID sample_order)
          (ord_RunID sample_order) (ord_Attempt sample_order) (ord_LeaseToken sample_order) 0 None ()
        = (Inr sample_order, ())"
    using signed_order_accepted [OF sample_lib_laws(1,2) sample_lib_laws(3,4) sample_encoded
        sample_signed sample_wire_small sample_keys_key _ _ _ sample_valid, where acc = None and st = "()"]
    by simp
  then show ?thesis by (simp add: sample_order_def)
qed

text \<open>
  Soundness of the order verifier. Whatever acceptor it is given, an order is accepted only
  if the message is at most 1 MiB, its key is in the keyring under its own identifier, is not
  revoked and is inside its validity period, the signature is a valid signature of exactly the
  decoded payload under the order domain, the order is inside its time window (up to the clock
  tolerance), it is addressed to the expected runner, run, attempt and lease, and its command
  has no empty argument and its secret references no path traversal.
\<close>

theorem VerifyOrder_sound:
  assumes "VerifyOrder L raw keys now rid run att lt tol acc st = (Inr p, st')"
  shows "\<exists>e key payload sig.
           int (length raw) \<le> DefaultMaxEnvelopeBytes \<and> envelope_unmarshal L raw = Some e
         \<and> map_of keys (env_KeyID e) = Some key \<and> vk_ID key = env_KeyID e \<and> \<not> vk_Revoked key
         \<and> (vk_NotBefore key = 0 \<or> vk_NotBefore key \<le> now)
         \<and> (vk_NotAfter key = 0 \<or> now \<le> vk_NotAfter key)
         \<and> b64_decode (env_Payload e) = Some payload \<and> b64_decode (env_Signature e) = Some sig
         \<and> length sig = 64
         \<and> ed25519_verify L (vk_PublicKey key) (signingBytes OrderSignatureDomain payload) sig
         \<and> DecodeOrderPayload L payload = Inr p
         \<and> ord_NotBefore p - tol \<le> now \<and> now \<le> ord_ExpiresAt p + tol
         \<and> ord_RunnerID p = rid \<and> ord_RunID p = run \<and> ord_Attempt p = att
         \<and> ord_LeaseToken p = lt
         \<and> ord_Command p \<noteq> [] \<and> [] \<notin> set (ord_Command p)
         \<and> (\<forall>(name, ref) \<in> set (ord_SecretRefs p). \<not> contains_dotdot ref)"
proof -
  obtain e where e: "DecodeEnvelope L raw = Inr e"
    "VerifyAt L keys e OrderSignatureDomain now = Inr ()"
    "DecodeOrderPayload L (mustPayload e) = Inr p" "Order_ValidateTime p now tol = Inr ()"
    "Order_ValidateIdentity p rid run att lt = Inr ()" "ValidateExecution p = Inr ()"
    using assms by (rule VerifyOrder_Inr)
  obtain key payload sig where k: "map_of keys (env_KeyID e) = Some key" "vk_ID key = env_KeyID e"
    "\<not> vk_Revoked key" "vk_NotBefore key = 0 \<or> vk_NotBefore key \<le> now"
    "vk_NotAfter key = 0 \<or> now \<le> vk_NotAfter key"
    and v: "PayloadBytes e = Inr payload" "SignatureBytes e = Inr sig" "length sig = 64"
      "ed25519_verify L (vk_PublicKey key) (signingBytes OrderSignatureDomain payload) sig"
    using e(2) by (auto simp: VerifyAt_Inr Verify_Inr)
  have b: "b64_decode (env_Payload e) = Some payload" "b64_decode (env_Signature e) = Some sig"
    using v(1,2) by (auto simp: PayloadBytes_def SignatureBytes_def split: if_splits option.splits)
  have d: "DecodeOrderPayload L payload = Inr p" using e(3) v(1) by (simp add: mustPayload_def)
  have i: "ord_RunnerID p = rid" "ord_RunID p = run" "ord_Attempt p = att" "ord_LeaseToken p = lt"
    using e(5) by (simp_all add: Order_ValidateIdentity_def validateIdentity_Inr)
  have x: "ord_Command p \<noteq> []" "[] \<notin> set (ord_Command p)"
    "\<forall>(name, ref) \<in> set (ord_SecretRefs p). \<not> contains_dotdot ref"
    using e(6) by (auto simp: ValidateExecution_Inr list_all_iff valid_secret_ref_def)
  show ?thesis
    using DecodeEnvelope_Inr(1,2) [OF e(1)] k v(3,4) b d i x e(4)
    by (auto simp: Order_ValidateTime_Inr)
qed

lemma sample_verified:
  "VerifyOrder sample_lib [2] sample_keys 150 ''w1'' ''r1'' 1 ''t1'' 0 (Some ReplayGuard_Accept) []
   = (Inr sample_order, [''o1''])"
proof -
  have "VerifyOrder sample_lib [2] sample_keys 150 (ord_RunnerID sample_order)
          (ord_RunID sample_order) (ord_Attempt sample_order) (ord_LeaseToken sample_order) 0
          (Some ReplayGuard_Accept) []
        = (Inr sample_order, [ord_OrderID sample_order])"
    using signed_order_verdict [OF sample_lib_laws(1,2) sample_lib_laws(3,4) sample_encoded
        sample_signed sample_wire_small sample_keys_key _ _ _ sample_valid,
        where acc = "Some ReplayGuard_Accept" and st = "[]"] sample_valid(4)
    by (simp add: ReplayGuard_Accept_def ValidateExecution_Inr)
  then show ?thesis by (simp add: sample_order_def)
qed

theorem VerifyOrder_sound_witness:
  "\<exists>e key. envelope_unmarshal sample_lib [2] = Some e \<and> map_of sample_keys (env_KeyID e) = Some key
     \<and> \<not> vk_Revoked key"
  using VerifyOrder_sound [OF sample_verified] by blast

text \<open>
  Domain separation. For the four signature domains of the protocol the signed message
  determines both the domain and the payload, so a signature over an order cannot be presented
  as one over an event, a start claim or a secret request.
\<close>

theorem signing_domains_separated:
  assumes "d \<in> {OrderSignatureDomain, EventSignatureDomain, StartClaimSignatureDomain,
                SecretDeliverySignatureDomain}"
    and "d' \<in> {OrderSignatureDomain, EventSignatureDomain, StartClaimSignatureDomain,
                SecretDeliverySignatureDomain}"
  shows "signingBytes d payload = signingBytes d' payload' \<longleftrightarrow> d = d' \<and> payload = payload'"
proof -
  have "0 \<notin> set (bytes_of d)" "0 \<notin> set (bytes_of d')"
    using assms unfolding zero_in_bytes_of
    by (auto simp: OrderSignatureDomain_def EventSignatureDomain_def StartClaimSignatureDomain_def
        SecretDeliverySignatureDomain_def)
  then show ?thesis
    using append_sep_inject [of 0 "bytes_of d" "bytes_of d'" payload payload']
    by (auto simp: signingBytes_def)
qed

theorem signing_domains_separated_witness:
  "signingBytes OrderSignatureDomain [1] \<noteq> signingBytes EventSignatureDomain [1]"
  using signing_domains_separated [of OrderSignatureDomain EventSignatureDomain "[1]" "[1]"]
  by (simp add: OrderSignatureDomain_def EventSignatureDomain_def)

text \<open>
  C32. At most once. Over any sequence of verifications that share one replay acceptor, in
  memory or backed by a file whose writes may fail in any way, no two accepted orders carry
  the same order identifier.
\<close>

theorem orders_accepted_at_most_once:
  "distinct (map ord_OrderID (accepted_orders L ReplayGuard_Accept calls seen))
   \<and> distinct (map ord_OrderID (accepted_orders L log_accept calls' (log, outcomes)))"
  using guard.accepted_orders_fresh rlog.accepted_orders_fresh by blast

text \<open>
  Durability of the replay log. If the file holds complete lines, then after a successful
  \<^verbatim>\<open>Accept\<close> the reopened log refuses the same identifier, whatever the file system does next,
  provided the identifier is a line of its own (no line feed, no final carriage return, shorter
  than the scanner's buffer).
\<close>

theorem replay_log_survives_reopen:
  assumes "OpenReplayLog (Some (rl_file l)) = Inr l" and "rl_file l = [] \<or> last (rl_file l) = CHR 0x0A"
    and "ReplayLog_Accept io ident l = (None, l')"
    and "CHR 0x0A \<notin> set ident" and "last ident \<noteq> CHR 0x0D" and "length ident < 65536"
  shows "\<exists>l''. OpenReplayLog (Some (rl_file l')) = Inr l''
           \<and> ReplayLog_Accept io' ident l'' = (Some ReplayDetected, l'')
           \<and> set (rl_seen l'') = insert ident (set (rl_seen l))"
proof -
  from assms(1) obtain ls where ls: "scan_lines (rl_file l) = Some ls" "rl_seen l = filter (\<lambda>l. l \<noteq> []) ls"
    by (cases l) (auto simp: OpenReplayLog_def split: option.splits)
  from assms(3) have i: "ident \<noteq> []" and f: "rl_file l' = rl_file l @ ident @ [CHR 0x0A]"
    by (auto simp: ReplayLog_Accept_def split: if_splits append_outcome.splits)
  have "scan_lines (rl_file l') = Some (ls @ [ident])"
    unfolding f using assms(2,4,5,6) ls(1) by (intro scan_lines_append) auto
  then show ?thesis
    using i ls(2) by (auto simp: OpenReplayLog_def ReplayLog_Accept_def)
qed

theorem replay_log_survives_reopen_witness:
  "\<exists>l''. OpenReplayLog (Some ''a\<newline>'') = Inr l''
     \<and> ReplayLog_Accept OpenFails ''a'' l'' = (Some ReplayDetected, l'')"
proof -
  let ?l = "\<lparr>rl_file = [], rl_seen = []\<rparr>" and ?l' = "\<lparr>rl_file = ''a\<newline>'', rl_seen = [''a'']\<rparr>"
  have o: "OpenReplayLog (Some (rl_file ?l)) = Inr ?l" by (simp add: OpenReplayLog_def scan_lines_def)
  have a: "ReplayLog_Accept Appended ''a'' ?l = (None, ?l')" by (simp add: ReplayLog_Accept_def)
  have "\<exists>l''. OpenReplayLog (Some (rl_file ?l')) = Inr l''
          \<and> ReplayLog_Accept OpenFails ''a'' l'' = (Some ReplayDetected, l'')
          \<and> set (rl_seen l'') = insert ''a'' (set (rl_seen ?l))"
    by (rule replay_log_survives_reopen [OF o _ a]) simp_all
  then show ?thesis by (auto simp only: ReplayLog.simps)
qed

text \<open>
  Revocation. After \<^verbatim>\<open>Revoke\<close> no envelope that names the revoked key verifies, at any time
  and for any domain, while every other key verifies exactly as before.
\<close>

theorem revoked_key_never_verifies:
  assumes "Keyring_Revoke ident keys = Inr keys'"
  shows "VerifyAt L keys' e d now =
           (if env_KeyID e = ident then Inl SigningKeyRevoked else VerifyAt L keys e d now)"
proof -
  obtain key where key: "map_of keys ident = Some key"
    and keys': "keys' = AList.update ident (key\<lparr>vk_Revoked := True\<rparr>) keys"
    using assms by (auto simp: Keyring_Revoke_def split: option.splits)
  have "map_of keys' (env_KeyID e) =
          (if env_KeyID e = ident then Some (key\<lparr>vk_Revoked := True\<rparr>) else map_of keys (env_KeyID e))"
    unfolding keys' by (simp add: update_conv')
  then show ?thesis
    unfolding VerifyAt_def by (cases "env_KeyID e = ident") (simp_all split del: if_split)
qed

theorem revoked_key_never_verifies_witness:
  "\<exists>keys'. Keyring_Revoke ''cp'' sample_keys = Inr keys'
     \<and> VerifyAt sample_lib keys' sample_envelope OrderSignatureDomain 150 = Inl SigningKeyRevoked"
proof -
  obtain keys' where k: "Keyring_Revoke ''cp'' sample_keys = Inr keys'"
    by (simp add: Keyring_Revoke_def sample_keys_def)
  then show ?thesis using revoked_key_never_verifies [OF k, of sample_lib sample_envelope]
    by (simp add: sample_envelope_def NewEnvelope_def)
qed

text \<open>
  The frame. Every payload of at most 1 MiB is framed, the frame is nine bytes longer, and
  unframing returns the payload; a payload one byte longer is refused by the encoder.
\<close>

theorem frame_roundtrip:
  "encodePayloadFrame (Some canonical) =
     (if int (length canonical) \<le> maxPayloadFrameBytes
      then Inr (payloadMagic @ be32 (of_nat (length canonical)) @ canonical) else Inl PayloadTooLarge)
   \<and> (int (length canonical) \<le> maxPayloadFrameBytes \<longrightarrow>
        decodePayloadFrame (payloadMagic @ be32 (of_nat (length canonical)) @ canonical) = Inr canonical)"
proof (intro conjI impI)
  show "encodePayloadFrame (Some canonical) =
     (if int (length canonical) \<le> maxPayloadFrameBytes
      then Inr (payloadMagic @ be32 (of_nat (length canonical)) @ canonical) else Inl PayloadTooLarge)"
    unfolding encodePayloadFrame_def option.case
    by (rule if_not_flip)
next
  assume le: "int (length canonical) \<le> maxPayloadFrameBytes"
  then have "encodePayloadFrame (Some canonical)
             = Inr (payloadMagic @ be32 (of_nat (length canonical)) @ canonical)"
    by (simp only: encodePayloadFrame_def option.case not_less [symmetric] if_False)
  from decode_encode_frame [OF this]
  show "decodePayloadFrame (payloadMagic @ be32 (of_nat (length canonical)) @ canonical) = Inr canonical"
    by blast
qed

theorem frame_roundtrip_witness:
  "int (length [1, 2, 3 :: 8 word]) \<le> maxPayloadFrameBytes
   \<and> decodePayloadFrame (payloadMagic @ be32 3 @ [1, 2, 3]) = Inr [1, 2, 3]"
  using frame_roundtrip [of "[1, 2, 3]"] by simp

lemma length_b64_encode: "length (b64_encode bs) = 4 * ((length bs + 2) div 3)"
proof (induction bs rule: b64_encode.induct)
  case (4 a b c rest)
  have "(length (a # b # c # rest) + 2) div 3 = (length rest + 2) div 3 + 1" by simp
  with "4.IH" show ?case by simp
qed simp_all

text \<open>
  A payload the frame encoder accepts can be undeliverable: from 786424 bytes of JSON up
  to the 1 MiB the encoder allows, the base64 text of the frame alone exceeds the 1 MiB limit
  of the envelope, so every receiver refuses the message. (An envelope's JSON is at least as
  long as the payload string inside it.)
\<close>

theorem large_payload_undeliverable:
  assumes "786424 \<le> length canonical" and "int (length canonical) \<le> maxPayloadFrameBytes"
    and "length (env_Payload (NewEnvelope keyID (payloadMagic @ be32 (of_nat (length canonical)) @ canonical)))
           \<le> length wire"
  shows "encodePayloadFrame (Some canonical)
           = Inr (payloadMagic @ be32 (of_nat (length canonical)) @ canonical)
         \<and> DecodeEnvelope L wire = Inl EnvelopeTooLarge"
proof -
  let ?n = "length canonical"
  have "4 * ((?n + 11) div 3) > 1048576" using assms(1) by presburger
  moreover have "length (env_Payload (NewEnvelope keyID (payloadMagic @ be32 (of_nat ?n) @ canonical)))
                 = 4 * ((?n + 11) div 3)"
    by (simp add: NewEnvelope_def encodeBase64_def length_b64_encode)
  ultimately have "int (length wire) > 2 ^ 20" using assms(3) by simp
  then show ?thesis
    using assms(2)
    by (simp add: encodePayloadFrame_def DecodeEnvelope_def DecodeEnvelopeLimited_def
        DefaultMaxEnvelopeBytes_def)
qed

theorem large_payload_undeliverable_witness:
  "DecodeEnvelope sample_lib (replicate 2000000 0) = Inl EnvelopeTooLarge"
proof -
  have "length (env_Payload (NewEnvelope [] (payloadMagic @ be32 (of_nat (length (replicate 800000 (0 :: 8 word))))
          @ replicate 800000 0))) \<le> length (replicate 2000000 (0 :: 8 word))"
    by (simp add: NewEnvelope_def encodeBase64_def length_b64_encode)
  then show ?thesis
    using large_payload_undeliverable [of "replicate 800000 0" "[]" "replicate 2000000 0" sample_lib]
    by simp
qed

end
