(* ===== verification/WorkerRuntimeFacts.thy ===== *)
theory WorkerRuntimeFacts
  imports WorkerRuntime WorkerProperties ProtocolFacts
begin

text \<open>
  What the order runtime of a worker guarantees: no order's command is ever started twice, no
  event that was made durable is lost on the way to the broker, and an execution ends in an event and a
  state of the order that agree.
\<close>

section \<open>Composing store operations\<close>

lemma worker_steps_trans: "worker_steps s' s'' \<Longrightarrow> worker_steps s s' \<Longrightarrow> worker_steps s s''"
  by (induction rule: worker_steps.induct) (auto intro: worker_steps.step)

lemma worker_step_steps: "worker_step s s' \<Longrightarrow> worker_steps s s'"
  by (rule worker_steps.step [OF worker_steps.start])

text \<open>An event is accounted for when the broker has it or the outbox still offers it.\<close>

definition accounted :: "string \<Rightarrow> bytes \<Rightarrow> WorkerState \<Rightarrow> bool" where
  "accounted ident envelope st \<longleftrightarrow>
     (ident, envelope) \<in> set (ws_published st)
     \<or> (\<exists>e \<in> set (ls_events (ws_store st)). oe_EventID e = ident \<and> oe_Envelope e = envelope \<and> oe_State e = ''PENDING'')"

text \<open>What every part of the runtime does to the state, the start of a command apart.\<close>

definition progress :: "WorkerState \<Rightarrow> WorkerState \<Rightarrow> bool" where
  "progress st st' \<longleftrightarrow>
     worker_steps (ws_store st) (ws_store st') \<and> ws_executed st' = ws_executed st
     \<and> (outbox_inv (ws_store st) \<longrightarrow> (\<forall>i v. accounted i v st \<longrightarrow> accounted i v st'))"

lemma progress_refl: "progress st st"
  by (simp add: progress_def worker_steps.start)

lemma progress_trans: "progress st st' \<Longrightarrow> progress st' st'' \<Longrightarrow> progress st st''"
  unfolding progress_def using worker_steps_trans outbox_inv_steps by (metis (no_types, lifting))

lemma progress_same_store:
  "ws_store st' = ws_store st \<Longrightarrow> ws_published st' = ws_published st \<Longrightarrow> ws_executed st' = ws_executed st \<Longrightarrow> progress st st'"
  by (simp add: progress_def worker_steps.start accounted_def)

text \<open>A step of the store that keeps the pending events.\<close>

lemma progress_store:
  assumes "worker_step (ws_store st) s"
    and "\<And>e. e \<in> set (ls_events (ws_store st)) \<Longrightarrow> oe_State e = ''PENDING'' \<Longrightarrow> outbox_inv (ws_store st) \<Longrightarrow> e \<in> set (ls_events s)"
  shows "progress st (st\<lparr>ws_store := s\<rparr>)"
  unfolding progress_def accounted_def using worker_step_steps [OF assms(1)] assms(2) by auto

lemma progress_persistEvent:
  assumes "persistEvent w L rt order event (ws_store st) = Inr s"
  shows "progress st (st\<lparr>ws_store := s\<rparr>)"
proof -
  obtain c1 c2 e where p: "PutEvent c1 c2 e (ws_store st) = Inr s"
    using assms by (auto simp: persistEvent_def res_bind_Inr)
  show ?thesis
  proof (rule progress_store)
    show "worker_step (ws_store st) s" by (rule worker_step.put_event [OF p])
    show "e' \<in> set (ls_events s)" if "e' \<in> set (ls_events (ws_store st))" for e'
      using p that by (auto simp: PutEvent_def dest: put_event_row_keeps split: if_splits)
  qed
qed

lemma progress_compact:
  assumes "CompactPublishedEvents clock olderThan limit (ws_store st) = Inr (n, s)"
  shows "progress st (st\<lparr>ws_store := s\<rparr>)"
proof (rule progress_store)
  show "worker_step (ws_store st) s" by (rule worker_step.compact [OF assms])
  show "e \<in> set (ls_events s)" if "e \<in> set (ls_events (ws_store st))" "oe_State e = ''PENDING''" "outbox_inv (ws_store st)" for e
    using compact_removes [OF assms that(3,1)] that(2) by auto
qed

section \<open>Publishing\<close>

text \<open>A row of the outbox with this identifier and envelope, whatever its state.\<close>

definition stored :: "outbox_event \<Rightarrow> LocalStore \<Rightarrow> bool" where
  "stored p s \<longleftrightarrow> (\<exists>e \<in> set (ls_events s). oe_EventID e = oe_EventID p \<and> oe_Envelope e = oe_Envelope p)"

lemma stored_published: "stored p s \<Longrightarrow> stored p (MarkEventPublished clock ident s)"
proof -
  let ?k = "\<lambda>e. (oe_EventID e, oe_Envelope e)"
  have m: "map ?k (ls_events (MarkEventPublished clock ident s)) = map ?k (ls_events s)" by (simp add: MarkEventPublished_def sql_update_def)
  have "?k ` set (ls_events (MarkEventPublished clock ident s)) = ?k ` set (ls_events s)" using arg_cong [OF m, of set] by simp
  moreover assume "stored p s"
  then have "?k p \<in> ?k ` set (ls_events s)" unfolding stored_def image_iff by (elim bexE conjE) (rule bexI, simp_all)
  ultimately have "?k p \<in> ?k ` set (ls_events (MarkEventPublished clock ident s))" by simp
  then show "stored p (MarkEventPublished clock ident s)" unfolding stored_def image_iff by (elim bexE) (rule bexI, simp_all)
qed

lemma stored_pending: "p \<in> set (PendingEvents clock limit s) \<Longrightarrow> stored p s"
  unfolding PendingEvents_def Let_def stored_def sql_limit_def by (auto dest!: in_set_takeD)

lemma progress_publish_one:
  assumes "stored p (ws_store st)"
  shows "progress st (st\<lparr>ws_published := ws_published st @ [(oe_EventID p, oe_Envelope p)],
                        ws_store := MarkEventPublished clock (oe_EventID p) (ws_store st)\<rparr>)" (is "progress st ?st'")
proof -
  have "accounted i v ?st'" if acc: "accounted i v st" and inv: "outbox_inv (ws_store st)" for i v
  proof (cases "(i, v) \<in> set (ws_published st)")
    case False
    then obtain e where e: "e \<in> set (ls_events (ws_store st))" "oe_EventID e = i" "oe_Envelope e = v" "oe_State e = ''PENDING''"
      using acc by (auto simp: accounted_def)
    obtain e0 where e0: "e0 \<in> set (ls_events (ws_store st))" "oe_EventID e0 = oe_EventID p" "oe_Envelope e0 = oe_Envelope p"
      using assms by (auto simp: stored_def)
    show ?thesis
    proof (cases "i = oe_EventID p")
      case True
      then have "e = e0" using distinct_map_eq_key [of oe_EventID "ls_events (ws_store st)" e e0] inv e e0 by (simp add: outbox_inv_def)
      then show ?thesis using e e0 True by (simp add: accounted_def)
    next
      case diff: False
      have "e \<in> set (ls_events (MarkEventPublished clock (oe_EventID p) (ws_store st)))"
        using e diff by (auto simp: MarkEventPublished_def set_sql_update intro!: image_eqI [of _ _ e])
      then show ?thesis using e by (auto simp: accounted_def)
    qed
  qed (simp add: accounted_def)
  then show ?thesis unfolding progress_def by (auto intro: worker_step_steps worker_step.published)
qed

lemma progress_publish_loop:
  "publish_loop w i ps st = (r, st') \<Longrightarrow> (\<And>p. p \<in> set ps \<Longrightarrow> stored p (ws_store st)) \<Longrightarrow> progress st st'"
proof (induction ps arbitrary: i st)
  case (Cons p ps)
  show ?case
  proof (cases "w_publish w [i]")
    case True
    let ?st1 = "st\<lparr>ws_published := ws_published st @ [(oe_EventID p, oe_Envelope p)],
                   ws_store := MarkEventPublished (w_now w [2, i]) (oe_EventID p) (ws_store st)\<rparr>"
    have "progress st ?st1" by (rule progress_publish_one) (use Cons.prems(2) in simp)
    moreover have "progress ?st1 st'"
      by (rule Cons.IH [of "Suc i"]) (use Cons.prems True stored_published in auto)
    ultimately show ?thesis by (rule progress_trans)
  qed (use Cons.prems progress_refl in auto)
qed (simp add: progress_refl)

lemma progress_PublishPendingEvents: "progress st (snd (PublishPendingEvents w runnerID st))"
proof (cases "runnerID = []")
  case False
  obtain r st1 where loop: "publish_loop w 0 (PendingEvents (w_now w [0]) 100 (ws_store st)) st = (r, st1)" by force
  have p: "progress st st1" by (rule progress_publish_loop [OF loop stored_pending])
  show ?thesis
  proof (cases r)
    case None
    obtain n s where s: "CompactPublishedEvents (w_now w [1]) (24 * hour) 1000 (ws_store st1) = Inr (n, s)"
      by (simp add: CompactPublishedEvents_def Let_def)
    show ?thesis using progress_trans [OF p progress_compact [OF s]] False loop None s by (simp add: PublishPendingEvents_def)
  qed (use False loop p in \<open>simp add: PublishPendingEvents_def\<close>)
qed (simp add: PublishPendingEvents_def progress_refl)

lemma progress_publishEvent: "publishEvent w L rt order event st = (r, st') \<Longrightarrow> progress st st'"
  unfolding publishEvent_def
  by (auto split: sum.splits intro: progress_refl progress_trans [OF progress_persistEvent progress_PublishPendingEvents])

section \<open>Starting a command\<close>

lemma progress_orders:
  assumes "worker_step (ws_store st) s" "ls_events s = ls_events (ws_store st)"
  shows "progress st (st\<lparr>ws_store := s\<rparr>)"
  by (rule progress_store [OF assms(1)]) (simp add: assms(2))

lemma AcceptOrder_events: "AcceptOrder L raw keys now clock runnerID runID attempt leaseToken tolerance s = (r, s') \<Longrightarrow> ls_events s' = ls_events s"
  by (auto simp: AcceptOrder_def Let_def put_message_def PutOrder_def split: sum.splits if_splits)

lemma ClaimOrder_events: "ClaimOrder clock orderID bootID processID s = Inr s' \<Longrightarrow> ls_events s' = ls_events s"
  by (auto simp: ClaimOrder_def split: if_splits)

lemma ClaimOrder_untaken: "ClaimOrder clock orderID bootID processID s = Inr s' \<Longrightarrow> \<not> taken orderID s"
proof
  assume "ClaimOrder clock orderID bootID processID s = Inr s'" "taken orderID s"
  moreover from this(2) have "sql_count (\<lambda>row. io_OrderID row = orderID \<and> io_State row = ''RECEIVED'') (ls_orders s) = 0"
    by (auto simp: taken_def sql_count_0)
  ultimately show False by (simp add: ClaimOrder_def)
qed

text \<open>When the runtime goes on with an order, it is the one that claimed it just now.\<close>

lemma claimExecution_progress:
  assumes "claimExecution w L rt raw order payload st = (r, st')"
  shows "progress st st'"
    and "\<And>p. r = Inr (p, True) \<Longrightarrow> \<not> taken (ord_OrderID p) (ws_store st) \<and> taken (ord_OrderID p) (ws_store st')"
proof -
  obtain a s where acc: "AcceptOrder L raw (control_keyring rt) (w_now w [1]) (w_now w [2]) (rt_RunnerID rt) (ord_RunID order) (ord_Attempt order)
      (ord_LeaseToken order) second (ws_store st) = (a, s)" by force
  have step: "worker_step (ws_store st) s" by (rule worker_step.accept [OF acc])
  have p1: "progress st (st\<lparr>ws_store := s\<rparr>)" by (rule progress_orders [OF step AcceptOrder_events [OF acc]])
  have claimed: "progress st (st\<lparr>ws_store := s1\<rparr>) \<and> \<not> taken oid (ws_store st) \<and> taken oid s1"
    if "ClaimOrder (w_now w [3]) oid (rt_ExecutorBootID rt) (rt_ProcessID rt) s = Inr s1" for oid s1
  proof (intro conjI)
    have "progress (st\<lparr>ws_store := s\<rparr>) (st\<lparr>ws_store := s1\<rparr>)"
      using progress_orders [of "st\<lparr>ws_store := s\<rparr>" s1] worker_step.claim [OF that] ClaimOrder_events [OF that] by simp
    then show "progress st (st\<lparr>ws_store := s1\<rparr>)" by (rule progress_trans [OF p1])
    show "\<not> taken oid (ws_store st)" using ClaimOrder_untaken [OF that] taken_step [OF step] by blast
    show "taken oid s1" by (rule ClaimOrder_taken [OF that])
  qed
  have marked: "progress st (st2\<lparr>ws_store := MarkProcessStarted t oid (ws_store st2)\<rparr>)
      \<and> (taken o' s1 \<longrightarrow> taken o' (MarkProcessStarted t oid (ws_store st2)))"
    if "progress st (st\<lparr>ws_store := s1\<rparr>)" "publishEvent (site 4 w) L rt ord1 ev (st\<lparr>ws_store := s1\<rparr>) = (q, st2)" for s1 ord1 ev q st2 t oid o'
  proof -
    have p2: "progress (st\<lparr>ws_store := s1\<rparr>) st2" by (rule progress_publishEvent [OF that(2)])
    have st: "worker_step (ws_store st2) (MarkProcessStarted t oid (ws_store st2))" by (rule worker_step.started [OF refl])
    have p3: "progress st2 (st2\<lparr>ws_store := MarkProcessStarted t oid (ws_store st2)\<rparr>)"
      by (rule progress_orders [OF st]) (simp add: MarkProcessStarted_def)
    have "worker_steps s1 (ws_store st2)" using p2 by (simp add: progress_def)
    then show ?thesis using progress_trans [OF that(1) progress_trans [OF p2 p3]] taken_steps taken_step [OF st] by blast
  qed
  consider (unchanged) "st' = st" "\<forall>p. r \<noteq> Inr (p, True)"
    | (kept) "st' = st\<lparr>ws_store := s\<rparr>" "\<forall>p. r \<noteq> Inr (p, True)"
    | (failed) accepted s1 e where "ClaimOrder (w_now w [3]) (ord_OrderID accepted) (rt_ExecutorBootID rt) (rt_ProcessID rt) s = Inr s1"
        "publishEvent (site 4 w) L rt accepted (state_event EventAccepted 1) (st\<lparr>ws_store := s1\<rparr>) = (Inl e, st')" "r = Inl e"
    | (started) accepted s1 u st2 where "ClaimOrder (w_now w [3]) (ord_OrderID accepted) (rt_ExecutorBootID rt) (rt_ProcessID rt) s = Inr s1"
        "publishEvent (site 4 w) L rt accepted (state_event EventAccepted 1) (st\<lparr>ws_store := s1\<rparr>) = (Inr u, st2)"
        "r = Inr (accepted, True)" "st' = st2\<lparr>ws_store := MarkProcessStarted (w_now w [5]) (ord_OrderID accepted) (ws_store st2)\<rparr>"
    using assms unfolding claimExecution_def acc by (auto split: start_answer.splits sum.splits prod.splits)
  then have "progress st st' \<and> (\<forall>p. r = Inr (p, True) \<longrightarrow> \<not> taken (ord_OrderID p) (ws_store st) \<and> taken (ord_OrderID p) (ws_store st'))"
  proof cases
    case unchanged
    then show ?thesis using progress_refl by simp
  next
    case kept
    then show ?thesis using p1 by simp
  next
    case (failed accepted s1 e)
    have "progress st st'" by (rule progress_trans [OF conjunct1 [OF claimed [OF failed(1)]] progress_publishEvent [OF failed(2)]])
    then show ?thesis using failed(3) by simp
  next
    case (started accepted s1 u st2)
    note c = claimed [OF started(1)]
    have "progress st st' \<and> (taken (ord_OrderID accepted) s1 \<longrightarrow> taken (ord_OrderID accepted) (ws_store st'))"
      using marked [OF conjunct1 [OF c] started(2), of "w_now w [5]" "ord_OrderID accepted" "ord_OrderID accepted"] started(4) by simp
    then show ?thesis using c started(3) by auto
  qed
  then show "progress st st'" and "\<And>p. r = Inr (p, True) \<Longrightarrow> \<not> taken (ord_OrderID p) (ws_store st) \<and> taken (ord_OrderID p) (ws_store st')"
    by blast+
qed

text \<open>The invariant: the keys of the outbox, and every started order started once and taken.\<close>

definition runtime_inv :: "WorkerState \<Rightarrow> bool" where
  "runtime_inv st \<longleftrightarrow> outbox_inv (ws_store st) \<and> distinct (ws_executed st) \<and> (\<forall>o' \<in> set (ws_executed st). taken o' (ws_store st))"

lemma runtime_inv_progress: "runtime_inv st \<Longrightarrow> progress st st' \<Longrightarrow> runtime_inv st'"
  unfolding runtime_inv_def progress_def using outbox_inv_steps taken_steps by auto

lemma accounted_progress: "runtime_inv st \<Longrightarrow> progress st st' \<Longrightarrow> accounted i v st \<Longrightarrow> accounted i v st'"
  unfolding runtime_inv_def progress_def by blast

lemma begin_execution_cases:
  assumes "begin_execution w L rt raw order keyring st = (r, st')"
  obtains (progress) "progress st st'" "\<forall>x. r \<noteq> Inr (Some x)"
  | (started) p secrets st2 where "r = Inr (Some (p, secrets))" "progress st st2" "\<not> taken (ord_OrderID p) (ws_store st)"
      "taken (ord_OrderID p) (ws_store st2)"
      "st' = ActiveOrders_put (ord_OrderID p) (st2\<lparr>ws_executed := ws_executed st2 @ [ord_OrderID p]\<rparr>)"
proof -
  consider (unchanged) "st' = st" "\<forall>x. r \<noteq> Inr (Some x)"
    | (claimed) payload c where "claimExecution (site 2 w) L rt raw order payload st = (c, st')" "\<forall>x. r \<noteq> Inr (Some x)"
    | (failed) payload p st1 e where "claimExecution (site 2 w) L rt raw order payload st = (Inr (p, True), st1)"
        "publishEvent (site 3 w) L rt p (state_event EventStarted 2) st1 = (Inl e, st')" "\<forall>x. r \<noteq> Inr (Some x)"
    | (started) payload p st1 u st2 secrets where "claimExecution (site 2 w) L rt raw order payload st = (Inr (p, True), st1)"
        "publishEvent (site 3 w) L rt p (state_event EventStarted 2) st1 = (Inr u, st2)" "r = Inr (Some (p, secrets))"
        "st' = ActiveOrders_put (ord_OrderID p) (st2\<lparr>ws_executed := ws_executed st2 @ [ord_OrderID p]\<rparr>)"
    using assms unfolding begin_execution_def by (auto split: sum.splits if_splits prod.splits)
  then show thesis
  proof cases
    case unchanged
    then show thesis by (intro progress) (auto intro: progress_refl)
  next
    case (claimed payload c)
    then show thesis by (intro progress) (auto dest: claimExecution_progress(1))
  next
    case (failed payload p st1 e)
    have "progress st st'" by (rule progress_trans [OF claimExecution_progress(1) [OF failed(1)] progress_publishEvent [OF failed(2)]])
    then show thesis using failed(3) by (rule progress)
  next
    case (started payload p st1 u st2 secrets)
    note c = claimExecution_progress [OF started(1)] and q = progress_publishEvent [OF started(2)]
    have "taken (ord_OrderID p) (ws_store st2)" using c(2) q taken_steps by (auto simp: progress_def)
    then show thesis using that(2) [OF started(3) progress_trans [OF c(1) q]] c(2) started(4) by blast
  qed
qed

lemma runtime_inv_begin:
  assumes "begin_execution w L rt raw order keyring st = (r, st')" "runtime_inv st"
  shows "runtime_inv st' \<and> (accounted i v st \<longrightarrow> accounted i v st')"
  using assms(1)
proof (cases rule: begin_execution_cases)
  case progress
  then show ?thesis
    using runtime_inv_progress [OF assms(2)] accounted_progress [OF assms(2)] by blast+
next
  case (started p secrets st2)
  have "runtime_inv st2" by (rule runtime_inv_progress [OF assms(2) started(2)])
  moreover have "ws_executed st2 = ws_executed st" using started(2) by (simp add: progress_def)
  moreover have "ord_OrderID p \<notin> set (ws_executed st)" using assms(2) started(3) by (auto simp: runtime_inv_def)
  ultimately have "runtime_inv st'" using started(4,5) by (auto simp: runtime_inv_def ActiveOrders_put_def)
  moreover have "accounted i v st'" if "accounted i v st"
    using accounted_progress [OF assms(2) started(2) that] started(5) by (simp add: accounted_def ActiveOrders_put_def)
  ultimately show ?thesis by blast
qed

section \<open>Output and the end of a command\<close>

lemma progress_persist_chunks: "persist_chunks w L rt payload stream chunk sink = (r, sink') \<Longrightarrow> progress (sk_state sink) (sk_state sink')"
proof (induction w L rt payload stream chunk sink arbitrary: r rule: persist_chunks.induct)
  case (1 w L rt payload stream chunk sink)
  show ?case
  proof (cases "chunk = []")
    case True
    then show ?thesis using "1.prems" by (simp add: persist_chunks.simps progress_refl)
  next
    case False
    define size where "size = min (length chunk) maxEventLogChunkBytes"
    define sequence where "sequence = get_or 0 (sk_sequences sink) stream + 1"
    define sink1 where "sink1 = sink\<lparr>sk_sequences := AList.update stream sequence (sk_sequences sink), sk_calls := Suc (sk_calls sink)\<rparr>"
    define ev where "ev = \<lparr>er_typeName = EventLogChunk, er_sequence = sequence, er_result = take size chunk, er_errorText = [],
                        er_exitCode = None, er_channel = stream, er_metrics = []\<rparr>"
    have sink1: "sk_state sink1 = sk_state sink" by (simp add: sink1_def)
    show ?thesis
    proof (cases "persistEvent (site 0 (site (sk_calls sink) w)) L rt payload ev (ws_store (sk_state sink1))")
      case (Inl e)
      then have "sink' = sink1" using "1.prems" False
        by (simp add: persist_chunks.simps [of w L rt payload stream chunk sink] Let_def size_def sequence_def sink1_def ev_def)
      then show ?thesis by (simp add: sink1 progress_refl)
    next
      case (Inr s)
      let ?sink2 = "sink1\<lparr>sk_state := snd (PublishPendingEvents (site 1 (site (sk_calls sink) w)) (rt_RunnerID rt) ((sk_state sink1)\<lparr>ws_store := s\<rparr>)),
                          sk_streamed := True\<rparr>"
      have "persist_chunks w L rt payload stream (drop size chunk) ?sink2 = (r, sink')" using "1.prems" False Inr
        by (simp add: persist_chunks.simps [of w L rt payload stream chunk sink] Let_def size_def sequence_def sink1_def ev_def)
      with "1.IH" [OF False size_def sequence_def sink1_def] Inr have "progress (sk_state ?sink2) (sk_state sink')" by (simp add: ev_def)
      moreover have "progress (sk_state sink) (sk_state ?sink2)"
        using progress_trans [OF progress_persistEvent [OF Inr] progress_PublishPendingEvents] sink1 by simp
      ultimately show ?thesis using progress_trans by blast
    qed
  qed
qed

lemma progress_on_chunk: "on_chunk w L rt payload stream chunk sink = (r, sink') \<Longrightarrow> progress (sk_state sink) (sk_state sink')"
  by (auto simp: on_chunk_def persistOutputChunks_def split: prod.splits option.splits if_splits
      intro: progress_refl progress_persist_chunks)

text \<open>What every call of the callback keeps, the whole execution keeps.\<close>

lemma sink_flush: "(\<And>s b c. P c \<Longrightarrow> P (snd (onChunk s b c))) \<Longrightarrow> P (co_sink st) \<Longrightarrow> P (co_sink (flushExecutorBuffer onChunk s st))"
  by (auto simp: flushExecutorBuffer_def Let_def split: prod.splits option.splits) (metis snd_conv)+

lemma sink_process: "co_sink (processExecutorChunk s b st) = co_sink st"
  by (simp add: processExecutorChunk_def Let_def)

lemma sink_flushes:
  assumes "\<And>s b c. P c \<Longrightarrow> P (snd (onChunk s b c))" "P (co_sink st)"
  shows "P (co_sink (flushExecutorBuffers onChunk st))"
  unfolding flushExecutorBuffers_def
  by (rule sink_flush [where P = P, OF assms(1) sink_flush [where P = P, OF assms(1) assms(2)]])

lemma sink_loop:
  assumes "\<And>s b c. P c \<Longrightarrow> P (snd (onChunk s b c))"
  shows "P (co_sink st) \<Longrightarrow> P (co_sink (run_loop onChunk es st))"
proof (induction es arbitrary: st)
  case (Cons e es)
  show ?case
  proof (cases e)
    case (Output stream bytes)
    then show ?thesis using Cons.IH [of "processExecutorChunk stream bytes st"] Cons.prems by (simp add: sink_process)
  next
    case FlushTick
    then show ?thesis using Cons.IH [OF sink_flushes [where P = P, OF assms Cons.prems]] by simp
  qed
qed simp

lemma sink_drain: "co_sink (fold (\<lambda>(s, b) st. processExecutorChunk s b st) left st) = co_sink st"
  by (induction left arbitrary: st) (auto simp: sink_process)

lemma sink_RunStreaming:
  assumes "\<And>s b c. P c \<Longrightarrow> P (snd (onChunk s b c))" "P sink"
  shows "P (snd (RunStreamingWithExitCode absolute canonical e hasDeadline args dir run onChunk sink))"
proof -
  let ?st = "run_loop onChunk (pr_events run) (new_collector (ex_MaxOutputBytes e) sink)"
  have "P (co_sink ?st)" by (rule sink_loop [where P = P, OF assms(1)]) (simp_all add: new_collector_def assms(2))
  then have "P (co_sink (fold (\<lambda>(s, b) st. processExecutorChunk s b st) (pr_left run) ?st))" by (simp only: sink_drain)
  from sink_flushes [where P = P, OF assms(1) this] show ?thesis using assms(2)
    by (simp add: RunStreamingWithExitCode_def runCommand_def drainExecutorChunks_def Let_def split: sum.split option.split)
qed

lemma progress_runExecutor:
  assumes "runExecutor w L rt mc payload secrets st = (result, st')"
  shows "progress st st'"
proof -
  let ?sink = "\<lparr>sk_state = st, sk_sequences = [(''stdout'', 0), (''stderr'', 0)], sk_streamed = False, sk_calls = 0\<rparr>"
  let ?run = "RunStreamingWithExitCode (mc_absolute mc) (mc_canonical mc) (rt_Executor rt) True (ord_Command payload) (ord_WorkingDir payload)
             (mc_process mc (execution_environment (rt_Executor rt) payload secrets)) (on_chunk w L rt payload) ?sink"
  have "progress st (sk_state (snd ?run))"
  proof (rule sink_RunStreaming [where P = "\<lambda>sink. progress st (sk_state sink)"])
    fix s b and c :: log_sink
    assume "progress st (sk_state c)"
    moreover have "progress (sk_state c) (sk_state (snd (on_chunk w L rt payload s b c)))" by (rule progress_on_chunk [of w L rt payload s b c "fst (on_chunk w L rt payload s b c)"]) simp
    ultimately show "progress st (sk_state (snd (on_chunk w L rt payload s b c)))" by (rule progress_trans)
  qed (simp add: progress_refl)
  moreover have "st' = sk_state (snd ?run)" using assms by (auto simp: runExecutor_def split: prod.splits)
  ultimately show ?thesis by simp
qed

lemma progress_finishExecution:
  assumes "finishExecution w L rt timedOut payload result st = (r, st')"
  shows "progress st st'"
proof -
  obtain q st1 where pub: "publishEvent (site 0 w) L rt payload (terminal_event timedOut result (order_cancelled (ord_OrderID payload) st)) st = (q, st1)"
    by force
  have p1: "progress st st1" by (rule progress_publishEvent [OF pub])
  have p2: "progress st1 (st1\<lparr>ws_store := FinishOrder t oid (terminalState e c) message (ws_store st1)\<rparr>)" for t oid e c message
    by (rule progress_orders [OF worker_step.finish [OF refl]]) (auto simp: terminalState_def FinishOrder_def)
  show ?thesis
  proof (cases q)
    case (Inl e)
    then show ?thesis using assms pub p1 by (simp add: finishExecution_def Let_def)
  next
    case (Inr u)
    then show ?thesis using assms pub progress_trans [OF p1 p2] by (auto simp: finishExecution_def Let_def)
  qed
qed

lemma progress_active:
  "progress st (ActiveOrders_remove ident st)" "progress st (snd (ActiveOrders_cancel ident st))"
  by (auto simp: ActiveOrders_remove_def ActiveOrders_cancel_def split: option.splits intro: progress_same_store progress_refl)

section \<open>All runs of a worker\<close>

text \<open>
  The steps of a worker process and of its restarts, at the granularity at which handlers of different
  messages interleave: a handler up to the start of the command, a call of the output callback, the end
  of a command, a cancellation, a pass of the background publisher, and the recovery after a restart.
\<close>

inductive runtime_step :: "WorkerState \<Rightarrow> WorkerState \<Rightarrow> bool" where
  begin_order: "begin_execution w L rt raw order keyring st = (r, st') \<Longrightarrow> runtime_step st st'"
| execute: "runExecutor w L rt mc payload secrets st = (result, st') \<Longrightarrow> runtime_step st st'"
| chunk: "on_chunk w L rt payload stream chunk sink = (r, sink') \<Longrightarrow> runtime_step (sk_state sink) (sk_state sink')"
| finish: "finishExecution w L rt timedOut payload result st = (r, st') \<Longrightarrow> runtime_step st st'"
| remove: "runtime_step st (ActiveOrders_remove ident st)"
| cancel: "runtime_step st (snd (ActiveOrders_cancel ident st))"
| publish: "runtime_step st (snd (PublishPendingEvents w runnerID st))"
| restart: "RecoverDurableSigned L key clock previousBootID (ws_store st) = Inr (ids, s) \<Longrightarrow> runtime_step st (st\<lparr>ws_store := s, ws_active := []\<rparr>)"

inductive runtime_steps :: "WorkerState \<Rightarrow> WorkerState \<Rightarrow> bool" where
  start: "runtime_steps st st"
| step: "runtime_steps st st' \<Longrightarrow> runtime_step st' st'' \<Longrightarrow> runtime_steps st st''"

definition new_worker :: WorkerState where
  "new_worker = \<lparr>ws_store = OpenStore, ws_published = [], ws_active = [], ws_executed = []\<rparr>"

lemma progress_restart:
  assumes "RecoverDurableSigned L key clock previousBootID (ws_store st) = Inr (ids, s)"
  shows "progress st (st\<lparr>ws_store := s, ws_active := []\<rparr>)"
proof -
  have signed: "RecoverOrdersSigned L key clock previousBootID (ws_store st) = Inr (ids, s)"
    using assms by (simp add: RecoverDurableSigned_def split: if_splits)
  then have r: "recover_with (signed_notice L key clock previousBootID) (\<lambda>_. clock) previousBootID (ws_store st) = Inr (ids, s)"
    by (simp add: RecoverOrdersSigned_def split: if_splits)
  have "progress st (st\<lparr>ws_store := s\<rparr>)"
  proof (rule progress_store)
    show "worker_step (ws_store st) s" by (rule worker_step.recover_signed [OF signed])
    fix e assume "e \<in> set (ls_events (ws_store st))"
    then show "e \<in> set (ls_events s)" using r notify_keeps by (auto elim!: recover_with_Inr simp: mark_unknown_def)
  qed
  then show ?thesis using progress_trans [OF _ progress_same_store [of "st\<lparr>ws_store := s, ws_active := []\<rparr>" "st\<lparr>ws_store := s\<rparr>"]] by simp
qed

lemma runtime_step_inv:
  assumes "runtime_step st st'" "runtime_inv st"
  shows "runtime_inv st' \<and> (accounted i v st \<longrightarrow> accounted i v st')"
proof (cases "progress st st'")
  case True
  then show ?thesis using runtime_inv_progress accounted_progress assms(2) by blast
next
  case False
  from assms(1) obtain w L rt raw order keyring r where "begin_execution w L rt raw order keyring st = (r, st')"
    using False
    by cases (auto dest: progress_runExecutor progress_on_chunk progress_finishExecution progress_restart
        simp: progress_active progress_PublishPendingEvents)
  then show ?thesis by (rule runtime_inv_begin [OF _ assms(2)])
qed

lemma runtime_steps_inv: "runtime_steps st st' \<Longrightarrow> runtime_inv st \<Longrightarrow> runtime_inv st' \<and> (accounted i v st \<longrightarrow> accounted i v st')"
proof (induction rule: runtime_steps.induct)
  case (step st st' st'')
  then show ?case using runtime_step_inv [OF step(2), of i v] by blast
qed simp

lemma runtime_inv_new: "runtime_inv new_worker"
  by (simp add: runtime_inv_def new_worker_def outbox_inv_OpenStore)

text \<open>The handler of a message is a sequence of these steps.\<close>

lemma runtime_steps_one: "runtime_step st st' \<Longrightarrow> runtime_steps st st'"
  by (rule runtime_steps.step [OF runtime_steps.start])

lemma handleExecution_steps:
  assumes "handleExecution w L rt mc raw order keyring st = (r, st')"
  shows "runtime_steps st st'"
proof -
  obtain b st1 where b: "begin_execution (site 0 w) L rt raw order keyring st = (b, st1)" by force
  have s1: "runtime_steps st st1" by (rule runtime_steps_one [OF runtime_step.begin_order [OF b]])
  consider (over) "st' = st1" | (run) payload secrets where "b = Inr (Some (payload, secrets))"
    using assms b by (auto simp: handleExecution_def split: sum.splits option.splits)
  then show ?thesis
  proof cases
    case over
    then show ?thesis using s1 by simp
  next
    case (run payload secrets)
    obtain result st2 where x: "runExecutor (site 1 w) L rt mc payload secrets st1 = (result, st2)" by force
    let ?st3 = "if mc_cancelled mc then snd (ActiveOrders_cancel (ord_OrderID payload) st2) else st2"
    obtain q st4 where f: "finishExecution (site 2 w) L rt (mc_timedOut mc) payload result ?st3 = (q, st4)" by force
    have st': "st' = ActiveOrders_remove (ord_OrderID payload) st4"
      using assms b run x f by (simp add: handleExecution_def Let_def)
    have s2: "runtime_steps st st2" by (rule runtime_steps.step [OF s1 runtime_step.execute [OF x]])
    have s3: "runtime_steps st ?st3" using s2 runtime_steps.step [OF s2 runtime_step.cancel] by simp
    show ?thesis unfolding st' by (rule runtime_steps.step [OF runtime_steps.step [OF s3 runtime_step.finish [OF f]] runtime_step.remove])
  qed
qed

lemma Handle_steps: "Handle w L rt mc raw st = (r, st') \<Longrightarrow> runtime_steps st st'"
  unfolding Handle_def
  by (auto split: if_splits sum.splits intro: runtime_steps.start handleExecution_steps runtime_steps_one [OF runtime_step.cancel])

text \<open>
  C4. A worker never runs an order twice. In every state a worker reaches, across redelivered
  messages, concurrent handlers, failures of the broker and restarts with recovery, no order appears
  twice among those whose command was started.
\<close>

theorem executed_once:
  assumes "runtime_steps new_worker st"
  shows "distinct (ws_executed st)"
  using runtime_steps_inv [OF assms runtime_inv_new] by (simp add: runtime_inv_def)

text \<open>
  C12. No durable event is lost. From any reachable state on, an event that waits in the outbox is,
  after any further steps, still waiting there with the same envelope, or the broker has accepted it:
  failed publications, compaction and restarts never drop it.
\<close>

theorem durable_events_delivered:
  assumes "runtime_steps new_worker st" "runtime_steps st st'"
    and "e \<in> set (ls_events (ws_store st))" "oe_State e = ''PENDING''"
  shows "(oe_EventID e, oe_Envelope e) \<in> set (ws_published st')
    \<or> (\<exists>e' \<in> set (ls_events (ws_store st')). oe_EventID e' = oe_EventID e \<and> oe_Envelope e' = oe_Envelope e \<and> oe_State e' = ''PENDING'')"
proof -
  have "runtime_inv st" using runtime_steps_inv [OF assms(1) runtime_inv_new] by blast
  moreover have "accounted (oe_EventID e) (oe_Envelope e) st" using assms(3,4) by (auto simp: accounted_def)
  ultimately have "accounted (oe_EventID e) (oe_Envelope e) st'" using runtime_steps_inv [OF assms(2)] by blast
  then show ?thesis by (simp add: accounted_def)
qed

section \<open>A worked example\<close>

text \<open>
  One signed order, codecs that know this order, a world in which every reading of the clock is the same and
  the broker is unreachable.
\<close>

definition demo_order :: OrderPayload where
  "demo_order = ProtocolFacts.sample_order\<lparr>ord_SecretRefs := [], ord_WorkingDir := ''/srv''\<rparr>"

definition demo_frame :: bytes where
  "demo_frame = payloadMagic @ be32 1 @ [1]"

definition demo_key :: SigningKey where
  "demo_key = \<lparr>sk_ID = controlPlaneKeyID, sk_Private = replicate 64 0,
     sk_Public = \<lparr>vk_ID = controlPlaneKeyID, vk_PublicKey = replicate 32 0, vk_NotBefore = 0, vk_NotAfter = 0, vk_Revoked = False\<rparr>, sk_CreatedAt = 0\<rparr>"

definition demo_envelope :: Envelope where
  "demo_envelope = (NewEnvelope controlPlaneKeyID demo_frame)\<lparr>env_Signature := encodeBase64 (replicate 64 0)\<rparr>"

definition demo_lib :: lib where
  "demo_lib = \<lparr>envelope_marshal = (\<lambda>_. Some [9]), envelope_unmarshal = (\<lambda>_. Some demo_envelope), order_marshal = (\<lambda>_. Some [1]),
     order_unmarshal = (\<lambda>_. Some demo_order), event_marshal = (\<lambda>_. Some [1]), event_unmarshal = (\<lambda>_. None), control_marshal = (\<lambda>_. None),
     control_unmarshal = (\<lambda>_. None), ed25519_sign = (\<lambda>_ _. replicate 64 0), ed25519_verify = (\<lambda>_ _ _. True)\<rparr>"

definition demo_runtime :: OrderRuntime where
  "demo_runtime = \<lparr>rt_StartClaimer = (\<lambda>_. StartGranted), rt_SecretFetcher = None, rt_RunnerID = ''w1'', rt_ExecutorBootID = ''boot'', rt_ProcessID = 1,
     rt_ControlPublicKey = replicate 32 0, rt_SigningKey = demo_key,
     rt_Executor = \<lparr>ex_Roots = [''/srv''], ex_AllowedCommands = [], ex_MaxOutputBytes = 100, ex_Environment = []\<rparr>, rt_ErrorText = (\<lambda>_. [])\<rparr>"

definition demo_world :: world where
  "demo_world = \<lparr>w_now = (\<lambda>_. 150), w_publish = (\<lambda>_. False)\<rparr>"

lemma demo_world_simps: "site n demo_world = demo_world" "w_now demo_world p = 150" "w_publish demo_world p = False"
  by (simp_all add: site_def demo_world_def)

lemma demo_verified:
  "VerifyOrder demo_lib [9] (control_keyring demo_runtime) 150 ''w1'' (ord_RunID demo_order) (ord_Attempt demo_order) (ord_LeaseToken demo_order)
     second None () = (Inr demo_order, ())"
proof -
  have enc: "EncodeOrderPayload demo_lib demo_order = Inr demo_frame"
    by (simp add: EncodeOrderPayload_def frame_of_def encodePayloadFrame_def demo_lib_def demo_frame_def)
  have sig: "SignOrder demo_lib demo_key demo_frame = Inr demo_envelope"
    by (simp add: SignOrder_def Sign_def demo_key_def demo_lib_def demo_envelope_def PayloadBytes_New demo_frame_def)
  have "ord_Version demo_order = ProtocolVersion" "OrderType_Valid (ord_Type demo_order)"
    "Order_ValidateTime demo_order 150 second = Inr ()" "ValidateExecution demo_order = Inr ()" "ord_Attempt demo_order \<noteq> 0" "ord_RunnerID demo_order = ''w1''"
    by code_simp+
  note valid = this
  show ?thesis
    using signed_order_verdict [OF _ _ _ _ enc sig, of "replicate 32 0" "[9]" "control_keyring demo_runtime" 0 0 150 second None "()"] valid
    by (simp add: demo_lib_def demo_key_def control_keyring_def demo_runtime_def EncodeEnvelope_def DefaultMaxEnvelopeBytes_def controlPlaneKeyID_def)
qed

lemma demo_persist:
  "persistEvent w demo_lib demo_runtime order event s =
     PutEvent (w_now w [1]) (w_now w [2])
         \<lparr>oe_EventID = event_id order event, oe_OrderID = ord_OrderID order, oe_Channel = er_channel event,
          oe_Sequence = sint (er_sequence event), oe_EventType = event_type_text (er_typeName event), oe_Envelope = [9],
          oe_State = [], oe_AvailableAt = [], oe_PublishedAt = None, oe_CreatedAt = []\<rparr> s"
  by (simp add: persistEvent_def EncodeEventPayload_def frame_of_def encodePayloadFrame_def SignEvent_def Sign_def proto_result_def
      PayloadBytes_New EncodeEnvelope_def demo_lib_def demo_runtime_def demo_key_def)

definition demo_begin :: "(runtime_error + (OrderPayload \<times> (string, string) gomap option) option) \<times> WorkerState" where
  "demo_begin = begin_execution demo_world demo_lib demo_runtime [9] demo_order (control_keyring demo_runtime) new_worker"

lemma demo_begin_executes:
  "ws_executed (snd demo_begin) = [''o1'']
   \<and> list_ex (\<lambda>e. oe_EventID e = ''o1:accepted'' \<and> oe_Envelope e = [9] \<and> oe_State e = ''PENDING'') (ls_events (ws_store (snd demo_begin)))"
proof -
  have rt: "rt_RunnerID demo_runtime = ''w1''" "rt_ExecutorBootID demo_runtime = ''boot''" "rt_ProcessID demo_runtime = 1"
    "rt_StartClaimer demo_runtime = (\<lambda>_. StartGranted)" "ord_Type demo_order = OrderExecute" "ord_SecretRefs demo_order = []"
    by (simp_all add: demo_runtime_def demo_order_def ProtocolFacts.sample_order_def)
  have "ws_executed (snd demo_begin) = [''o1'']
   \<and> list_ex (\<lambda>e. oe_EventID e = ''o1:accepted'' \<and> oe_Envelope e = [9] \<and> oe_State e = ''PENDING'') (ls_events (ws_store (snd demo_begin)))"
    unfolding demo_begin_def begin_execution_def claimExecution_def AcceptOrder_def publishEvent_def demo_persist demo_world_simps rt demo_verified
      fetchExecutionSecrets_def PublishPendingEvents_def new_worker_def fst_conv
    by (simp only: sum.case start_answer.case if_False if_True simp_thms) code_simp
  then show ?thesis .
qed

lemma demo_begin_steps: "runtime_steps new_worker (snd demo_begin)"
  by (rule runtime_steps_one, rule runtime_step.begin_order [where r = "fst demo_begin"]) (simp add: demo_begin_def)

theorem executed_once_witness: "ws_executed (snd demo_begin) = [''o1''] \<and> distinct (ws_executed (snd demo_begin))"
  using executed_once [OF demo_begin_steps] demo_begin_executes by blast

theorem durable_events_delivered_witness:
  "\<exists>st'. runtime_steps (snd demo_begin) st'
     \<and> ((''o1:accepted'', [9]) \<in> set (ws_published st')
        \<or> (\<exists>e' \<in> set (ls_events (ws_store st')). oe_EventID e' = ''o1:accepted'' \<and> oe_Envelope e' = [9] \<and> oe_State e' = ''PENDING''))"
proof -
  let ?st' = "snd (PublishPendingEvents (demo_world\<lparr>w_publish := (\<lambda>_. True)\<rparr>) ''w1'' (snd demo_begin))"
  have steps: "runtime_steps (snd demo_begin) ?st'" by (rule runtime_steps_one [OF runtime_step.publish])
  obtain e where e: "e \<in> set (ls_events (ws_store (snd demo_begin)))" "oe_EventID e = ''o1:accepted''" "oe_Envelope e = [9]" "oe_State e = ''PENDING''"
    using demo_begin_executes by (auto simp: list_ex_iff)
  show ?thesis using durable_events_delivered [OF demo_begin_steps steps e(1,4)] steps e(2,3) by auto
qed

section \<open>The end of a command\<close>

text \<open>Publishing touches neither the inbox nor the active orders.\<close>

lemma publish_loop_frame:
  "publish_loop w i ps st = (r, st') \<Longrightarrow> ls_orders (ws_store st') = ls_orders (ws_store st) \<and> ws_active st' = ws_active st"
  by (induction w i ps st rule: publish_loop.induct) (auto simp: MarkEventPublished_def split: if_splits)

lemma PublishPendingEvents_frame:
  "ls_orders (ws_store (snd (PublishPendingEvents w runnerID st))) = ls_orders (ws_store st)
   \<and> ws_active (snd (PublishPendingEvents w runnerID st)) = ws_active st"
proof -
  obtain r st1 where loop: "publish_loop w 0 (PendingEvents (w_now w [0]) 100 (ws_store st)) st = (r, st1)" by force
  show ?thesis using publish_loop_frame [OF loop] loop
    by (auto simp: PublishPendingEvents_def CompactPublishedEvents_def Let_def split: option.splits)
qed

lemma publishEvent_frame:
  assumes "publishEvent w L rt order event st = (r, st')"
  shows "ls_orders (ws_store st') = ls_orders (ws_store st)" "ws_active st' = ws_active st"
proof -
  have "ls_orders s = ls_orders (ws_store st)" if p: "persistEvent (site 0 w) L rt order event (ws_store st) = Inr s" for s
  proof -
    obtain c1 c2 e where "PutEvent c1 c2 e (ws_store st) = Inr s" using p by (auto simp: persistEvent_def res_bind_Inr)
    then show ?thesis by (auto simp: PutEvent_def put_event_row_def split: if_splits)
  qed
  then show "ls_orders (ws_store st') = ls_orders (ws_store st)" "ws_active st' = ws_active st"
    using assms PublishPendingEvents_frame by (auto simp: publishEvent_def split: sum.splits)
qed

definition final_state :: "EventType \<Rightarrow> string" where
  "final_state t = (if t = EventCancelled then ''CANCELLED'' else if t = EventCompleted then ''COMPLETED'' else ''FAILED'')"

lemma terminal_event_facts:
  fixes timedOut cancelled :: bool and result :: executionResult
  defines "ev \<equiv> terminal_event timedOut result cancelled"
  shows "er_typeName ev \<in> {EventCancelled, EventCompleted, EventFailed, EventTimedOut}"
    and "terminalState (fst (snd (normalizeExecutionResult timedOut (xr_exitCode result) (map_option exec_text (xr_runErr result))))) cancelled
       = final_state (er_typeName ev)"
    and "er_typeName ev = EventCompleted \<Longrightarrow> er_errorText ev = [] \<and> er_exitCode ev \<in> {None, Some 0}"
    and "er_typeName ev = EventTimedOut \<Longrightarrow> er_exitCode ev = Some 6"
    and "er_typeName ev = EventFailed \<Longrightarrow> er_exitCode ev \<noteq> None"
  by (auto simp: ev_def terminal_event_def normalizeExecutionResult_def terminalEventType_def terminalState_def final_state_def Let_def
      split: prod.splits option.splits if_splits)

text \<open>
  Event and state of a finished order agree. When an execution ends, the order in the inbox, if
  it is still claimed or running, becomes cancelled, completed or failed exactly as the event put in the
  outbox says, with the error text of that event; a completed order reports no error and no exit code other
  than zero, a timed out one reports code 6, and a failed one always reports a code.
\<close>

theorem finished_order_agrees:
  assumes "finishExecution w L rt timedOut payload result st = (Inr (), st')"
    and "ev = terminal_event timedOut result (order_cancelled (ord_OrderID payload) st)"
  shows "ls_orders (ws_store st') =
      map (\<lambda>row. if io_OrderID row = ord_OrderID payload \<and> io_State row \<in> {''CLAIMED'', ''RUNNING''}
                 then row\<lparr>io_State := final_state (er_typeName ev), io_LastError := Some (er_errorText ev), io_FinishedAt := Some (rfc3339_nano (w_now w [1]))\<rparr>
                 else row) (ls_orders (ws_store st))
    \<and> er_typeName ev \<in> {EventCancelled, EventCompleted, EventFailed, EventTimedOut}
    \<and> (er_typeName ev = EventCompleted \<longrightarrow> er_errorText ev = [] \<and> er_exitCode ev \<in> {None, Some 0})
    \<and> (er_typeName ev = EventTimedOut \<longrightarrow> er_exitCode ev = Some 6)
    \<and> (er_typeName ev = EventFailed \<longrightarrow> er_exitCode ev \<noteq> None)"
proof -
  let ?err = "fst (snd (normalizeExecutionResult timedOut (xr_exitCode result) (map_option exec_text (xr_runErr result))))"
  obtain u st1 where pub: "publishEvent (site 0 w) L rt payload ev st = (Inr u, st1)"
    and st': "st' = st1\<lparr>ws_store := FinishOrder (w_now w [1]) (ord_OrderID payload)
                 (terminalState ?err (order_cancelled (ord_OrderID payload) st1)) (er_errorText ev) (ws_store st1)\<rparr>"
    using assms by (auto simp: finishExecution_def Let_def split: sum.splits prod.splits)
  have store: "ws_store st' = FinishOrder (w_now w [1]) (ord_OrderID payload)
                 (terminalState ?err (order_cancelled (ord_OrderID payload) st1)) (er_errorText ev) (ws_store st1)" using st' by simp
  have "order_cancelled (ord_OrderID payload) st1 = order_cancelled (ord_OrderID payload) st"
    using publishEvent_frame(2) [OF pub] by (simp add: order_cancelled_def)
  then have "terminalState ?err (order_cancelled (ord_OrderID payload) st1) = final_state (er_typeName ev)"
    using terminal_event_facts(2) assms(2) by simp
  then have "ls_orders (ws_store st') =
      map (\<lambda>row. if io_OrderID row = ord_OrderID payload \<and> io_State row \<in> {''CLAIMED'', ''RUNNING''}
                 then row\<lparr>io_State := final_state (er_typeName ev), io_LastError := Some (er_errorText ev), io_FinishedAt := Some (rfc3339_nano (w_now w [1]))\<rparr>
                 else row) (ls_orders (ws_store st))"
    by (simp only: store order_updates(2) publishEvent_frame(1) [OF pub] sql_update_def)
  then show ?thesis using terminal_event_facts(1,3-5) unfolding assms(2) by blast
qed

definition demo_result :: executionResult where
  "demo_result = \<lparr>xr_output = ''hi'', xr_exitCode = Some 3, xr_runErr = None, xr_streamed = False, xr_maxMemory = 0, xr_averageMemory = 0\<rparr>"

theorem finished_order_agrees_witness:
  "\<exists>st'. finishExecution demo_world demo_lib demo_runtime False demo_order demo_result (new_worker\<lparr>ws_store := sample_claimed\<rparr>) = (Inr (), st')
     \<and> map io_State (ls_orders (ws_store st')) = [''FAILED'']"
proof -
  let ?st = "new_worker\<lparr>ws_store := sample_claimed\<rparr>"
  obtain r st' where f: "finishExecution demo_world demo_lib demo_runtime False demo_order demo_result ?st = (r, st')" by force
  have rt: "rt_RunnerID demo_runtime = ''w1''" by (simp add: demo_runtime_def)
  have "fst (finishExecution demo_world demo_lib demo_runtime False demo_order demo_result ?st) = Inr ()"
    unfolding finishExecution_def publishEvent_def demo_persist demo_world_simps rt Let_def by code_simp
  with f have ok: "finishExecution demo_world demo_lib demo_runtime False demo_order demo_result ?st = (Inr (), st')" by simp
  let ?ev = "terminal_event False demo_result (order_cancelled (ord_OrderID demo_order) ?st)"
  have "er_typeName ?ev = EventFailed" by code_simp
  moreover have "map (\<lambda>row. (io_OrderID row = ord_OrderID demo_order, io_State row)) (ls_orders sample_claimed) = [(True, ''CLAIMED'')]" by code_simp
  then obtain row where "ls_orders sample_claimed = [row]" "io_OrderID row = ord_OrderID demo_order" "io_State row = ''CLAIMED''"
    by (cases "ls_orders sample_claimed") auto
  ultimately have "map io_State (ls_orders (ws_store st')) = [''FAILED'']"
    using finished_order_agrees [OF ok refl] by (simp add: final_state_def)
  with ok show ?thesis by (intro exI conjI)
qed

end
