(* ===== verification/Coordination.thy ===== *)
theory Coordination
  imports Prelude
begin

text \<open>
  The in-memory coordination services of the platform package: fenced leases
  (\<^verbatim>\<open>platform/leases.go\<close>), ordered event intake (\<^verbatim>\<open>platform/events.go\<close>), counted capacity
  (\<^verbatim>\<open>platform/resources.go\<close>), placement of runs on runners (\<^verbatim>\<open>platform/placement.go\<close>) and
  bounded log accumulation (\<^verbatim>\<open>platform/execution.go\<close>). Every method holds the mutex of its
  object for its whole body, so a method is one step of its object's state.
\<close>

section \<open>Leases\<close>

record Lease =
  le_Resource :: string
  le_Attempt :: string
  le_Token :: string
  le_Fencing :: "64 word"
  le_Expires :: time
  le_State :: string

record LeaseManager =
  lm_leases :: "(string, Lease) gomap"
  lm_fencing :: "(string, 64 word) gomap"

datatype lease_error = LeaseInputsRequired | AlreadyLeased | StaleRelease | LifetimeRequired | StaleRenewal

definition NewLeaseManager :: LeaseManager where
  "NewLeaseManager = \<lparr>lm_leases = [], lm_fencing = []\<rparr>"

definition LeaseManager_Acquire ::
  "string \<Rightarrow> string \<Rightarrow> string \<Rightarrow> time \<Rightarrow> duration \<Rightarrow> LeaseManager \<Rightarrow> lease_error + (Lease \<times> LeaseManager)" where
  "LeaseManager_Acquire resource attempt token now lifetime m =
     (if resource = [] \<or> attempt = [] \<or> token = [] \<or> lifetime \<le> 0 then Inl LeaseInputsRequired
      else if (case map_of (lm_leases m) resource of None \<Rightarrow> False | Some current \<Rightarrow> le_Expires current > now)
      then Inl AlreadyLeased
      else (let m1 = (case map_of (lm_leases m) resource of
                        None \<Rightarrow> m
                      | Some current \<Rightarrow> m\<lparr>lm_leases := AList.update resource (current\<lparr>le_State := ''EXPIRED''\<rparr>) (lm_leases m)\<rparr>);
                m2 = m1\<lparr>lm_fencing := AList.update resource (get_or 0 (lm_fencing m1) resource + 1) (lm_fencing m1)\<rparr>;
                lease = \<lparr>le_Resource = resource, le_Attempt = attempt, le_Token = token,
                         le_Fencing = get_or 0 (lm_fencing m2) resource, le_Expires = now + lifetime, le_State = ''ACTIVE''\<rparr>
            in Inr (lease, m2\<lparr>lm_leases := AList.update resource lease (lm_leases m2)\<rparr>)))"

definition LeaseManager_Release :: "Lease \<Rightarrow> time \<Rightarrow> LeaseManager \<Rightarrow> lease_error + LeaseManager" where
  "LeaseManager_Release lease now m =
     (case map_of (lm_leases m) (le_Resource lease) of
        None \<Rightarrow> Inl StaleRelease
      | Some current \<Rightarrow>
          (if le_State current \<noteq> ''ACTIVE'' \<or> le_Attempt current \<noteq> le_Attempt lease \<or> le_Token current \<noteq> le_Token lease
              \<or> le_Fencing current \<noteq> le_Fencing lease
           then Inl StaleRelease
           else Inr (m\<lparr>lm_leases := AList.update (le_Resource lease) (current\<lparr>le_State := ''RELEASED''\<rparr>) (lm_leases m)\<rparr>)))"

definition LeaseManager_Renew :: "Lease \<Rightarrow> time \<Rightarrow> duration \<Rightarrow> LeaseManager \<Rightarrow> lease_error + (Lease \<times> LeaseManager)" where
  "LeaseManager_Renew lease now lifetime m =
     (if lifetime \<le> 0 then Inl LifetimeRequired
      else (case map_of (lm_leases m) (le_Resource lease) of
              None \<Rightarrow> Inl StaleRenewal
            | Some current \<Rightarrow>
                (if current \<noteq> lease \<or> le_State current \<noteq> ''ACTIVE'' \<or> \<not> le_Expires current > now then Inl StaleRenewal
                 else (let renewed = current\<lparr>le_Expires := now + lifetime\<rparr>
                       in Inr (renewed, m\<lparr>lm_leases := AList.update (le_Resource lease) renewed (lm_leases m)\<rparr>)))))"

text \<open>The loop visits the entries in the order of the list; the key of an entry is its resource.\<close>

definition lease_due :: "time \<Rightarrow> Lease \<Rightarrow> bool" where
  "lease_due now lease \<longleftrightarrow> le_State lease = ''ACTIVE'' \<and> \<not> le_Expires lease > now"

definition LeaseManager_Expire :: "time \<Rightarrow> LeaseManager \<Rightarrow> Lease list \<times> LeaseManager" where
  "LeaseManager_Expire now m =
     (map (\<lambda>(_, lease). lease\<lparr>le_State := ''EXPIRED''\<rparr>) (filter (\<lambda>(_, lease). lease_due now lease) (lm_leases m)),
      m\<lparr>lm_leases := map (\<lambda>(resource, lease).
            (resource, if lease_due now lease then lease\<lparr>le_State := ''EXPIRED''\<rparr> else lease)) (lm_leases m)\<rparr>)"

section \<open>Events\<close>

record EventTracker =
  et_seen :: "string list"
  et_sequence :: "(string, 64 word) gomap"
  et_channels :: "(string, 64 word) gomap"

datatype event_error = ErrInvalidEvent | ErrOutOfOrderEvent

definition NewEventTracker :: EventTracker where
  "NewEventTracker = \<lparr>et_seen = [], et_sequence = [], et_channels = []\<rparr>"

definition EventTracker_Accept :: "string \<Rightarrow> string \<Rightarrow> 64 word \<Rightarrow> EventTracker \<Rightarrow> (event_error + bool) \<times> EventTracker" where
  "EventTracker_Accept eventID attemptID sequence t =
     (if eventID = [] \<or> attemptID = [] \<or> sequence = 0 then (Inl ErrInvalidEvent, t)
      else if eventID \<in> set (et_seen t) then (Inr False, t)
      else if sequence \<le> get_or 0 (et_sequence t) attemptID then (Inl ErrOutOfOrderEvent, t)
      else (Inr True, t\<lparr>et_seen := eventID # et_seen t, et_sequence := AList.update attemptID sequence (et_sequence t)\<rparr>))"

definition channel_key :: "string \<Rightarrow> string \<Rightarrow> string" where
  "channel_key attemptID channel = attemptID @ [CHR 0x00] @ channel"

definition EventTracker_AcceptChannel ::
  "string \<Rightarrow> string \<Rightarrow> string \<Rightarrow> 64 word \<Rightarrow> EventTracker \<Rightarrow> (event_error + bool) \<times> EventTracker" where
  "EventTracker_AcceptChannel eventID attemptID channel sequence t =
     (if eventID = [] \<or> attemptID = [] \<or> channel = [] \<or> sequence = 0 then (Inl ErrInvalidEvent, t)
      else if eventID \<in> set (et_seen t) then (Inr False, t)
      else (let key = channel_key attemptID channel
            in if sequence \<le> get_or 0 (et_channels t) key then (Inl ErrOutOfOrderEvent, t)
               else (Inr True, t\<lparr>et_seen := eventID # et_seen t, et_channels := AList.update key sequence (et_channels t)\<rparr>)))"

section \<open>Capacity\<close>

record CapacityResource =
  cr_limit :: int
  cr_used :: int

definition NewCapacityResource :: "int \<Rightarrow> CapacityResource" where
  "NewCapacityResource limit = \<lparr>cr_limit = limit, cr_used = 0\<rparr>"

definition CapacityResource_Acquire :: "int \<Rightarrow> CapacityResource \<Rightarrow> bool \<times> CapacityResource" where
  "CapacityResource_Acquire quantity r =
     (if quantity \<le> 0 \<or> wrap64 (cr_used r + quantity) > cr_limit r then (False, r)
      else (True, r\<lparr>cr_used := wrap64 (cr_used r + quantity)\<rparr>))"

definition CapacityResource_Release :: "int \<Rightarrow> CapacityResource \<Rightarrow> CapacityResource" where
  "CapacityResource_Release quantity r =
     (let used = wrap64 (cr_used r - quantity) in r\<lparr>cr_used := (if used < 0 then 0 else used)\<rparr>)"

section \<open>Placement\<close>

record RunnerCandidate =
  rc_ID :: string
  rc_SessionID :: string
  rc_Enabled :: bool
  rc_Draining :: bool
  rc_Online :: bool
  rc_Capacity :: int
  rc_Active :: int
  rc_Capabilities :: "(string, string) gomap"

record PlacementRequest =
  pr_PinnedRunner :: string
  pr_Required :: "(string, string) gomap"

datatype place_error = PinnedUnavailable | NoEligibleRunner

definition eligible :: "RunnerCandidate \<Rightarrow> (string, string) gomap \<Rightarrow> bool" where
  "eligible r required \<longleftrightarrow>
     \<not> (\<not> rc_Enabled r \<or> rc_Draining r \<or> \<not> rc_Online r \<or> rc_SessionID r = [] \<or> rc_Capacity r > 0 \<and> rc_Active r \<ge> rc_Capacity r)
     \<and> list_all (\<lambda>(key, v). get_or [] (rc_Capabilities r) key = v) required"

text \<open>The round-robin loop with \<open>n\<close> runners left to try, at offset \<open>i\<close> from the cursor.\<close>

fun place_from :: "RunnerCandidate list \<Rightarrow> (string, string) gomap \<Rightarrow> nat \<Rightarrow> nat \<Rightarrow> nat \<Rightarrow> nat option" where
  "place_from runners required cursor i 0 = None"
| "place_from runners required cursor i (Suc n) =
     (let idx = (cursor + i) mod length runners
      in if eligible (runners ! idx) required then Some idx else place_from runners required cursor (Suc i) n)"

definition Placer_Select ::
  "RunnerCandidate list \<Rightarrow> PlacementRequest \<Rightarrow> nat \<Rightarrow> (place_error + RunnerCandidate) \<times> nat" where
  "Placer_Select runners request cursor =
     (if pr_PinnedRunner request \<noteq> []
      then (case find (\<lambda>r. rc_ID r = pr_PinnedRunner request \<and> eligible r (pr_Required request)) runners of
              None \<Rightarrow> (Inl PinnedUnavailable, cursor)
            | Some r \<Rightarrow> (Inr r, cursor))
      else (case place_from runners (pr_Required request) cursor 0 (length runners) of
              None \<Rightarrow> (Inl NoEligibleRunner, cursor)
            | Some idx \<Rightarrow> (Inr (runners ! idx), (idx + 1) mod length runners)))"

section \<open>Bounded logs\<close>

record LogAccumulator =
  la_max :: int
  la_total :: int
  la_truncated :: bool
  la_data :: bytes

definition NewLogAccumulator :: "int \<Rightarrow> LogAccumulator option" where
  "NewLogAccumulator limit =
     (if limit \<le> 0 then None else Some \<lparr>la_max = limit, la_total = 0, la_truncated = False, la_data = []\<rparr>)"

definition LogAccumulator_Append :: "bytes \<Rightarrow> LogAccumulator \<Rightarrow> (bytes \<times> bool) \<times> LogAccumulator" where
  "LogAccumulator_Append chunk a =
     (let remaining = la_max a - la_total a
      in if remaining \<le> 0 then (([], True), a\<lparr>la_truncated := True\<rparr>)
         else (let cutoff = int (length chunk) > remaining;
                   kept = (if cutoff then take (nat remaining) chunk else chunk)
               in ((kept, cutoff),
                   a\<lparr>la_truncated := la_truncated a \<or> cutoff, la_data := la_data a @ kept, la_total := la_total a + int (length kept)\<rparr>)))"

definition LogAccumulator_Bytes :: "LogAccumulator \<Rightarrow> bytes \<times> bool" where
  "LogAccumulator_Bytes a = (la_data a, la_truncated a)"

definition BoundLogChunk :: "bytes \<Rightarrow> int \<Rightarrow> (bytes \<times> bool) option" where
  "BoundLogChunk raw limit =
     (if limit \<le> 0 then None
      else if int (length raw) \<le> limit then Some (raw, False)
      else Some (take (nat limit) raw, True))"

end
