(* ===== verification/CoordinationFacts.thy ===== *)
theory CoordinationFacts
  imports Coordination
begin

text \<open>
  What the coordination services promise: leases of one resource never overlap in time and carry
  growing fencing tokens, a holder that has been superseded can neither release nor renew, events
  are accepted once and in order, capacity is never overcommitted below the overflow bound, placement
  finds an eligible runner whenever there is one and starves none, and a log is cut at its limit.
\<close>

section \<open>Leases\<close>

text \<open>
  The states of a manager under a clock that does not go back, with the grants of every resource,
  oldest first: the time of the grant and the lease as last renewed.
\<close>

inductive lease_history :: "LeaseManager \<Rightarrow> (string \<Rightarrow> (time \<times> Lease) list) \<Rightarrow> time \<Rightarrow> bool" where
  new: "lease_history NewLeaseManager (\<lambda>_. []) clock"
| acquire: "lease_history m hist clock \<Longrightarrow> clock \<le> now \<Longrightarrow>
    LeaseManager_Acquire resource attempt token now lifetime m = Inr (lease, m') \<Longrightarrow>
    lease_history m' (hist(resource := hist resource @ [(now, lease)])) now"
| renew: "lease_history m hist clock \<Longrightarrow> clock \<le> now \<Longrightarrow>
    LeaseManager_Renew lease now lifetime m = Inr (lease', m') \<Longrightarrow>
    lease_history m' (hist(le_Resource lease := butlast (hist (le_Resource lease)) @ [(fst (last (hist (le_Resource lease))), lease')])) now"
| release: "lease_history m hist clock \<Longrightarrow> clock \<le> now \<Longrightarrow> LeaseManager_Release lease now m = Inr m' \<Longrightarrow> lease_history m' hist now"
| expire: "lease_history m hist clock \<Longrightarrow> clock \<le> now \<Longrightarrow> LeaseManager_Expire now m = (expired, m') \<Longrightarrow> lease_history m' hist now"

abbreviation disjoint_grants :: "(time \<times> Lease) list \<Rightarrow> bool" where
  "disjoint_grants \<equiv> sorted_wrt (\<lambda>g g'. le_Expires (snd g) \<le> fst g')"

text \<open>The entry of the map is the last grant, up to its state.\<close>

definition current_grant :: "Lease option \<Rightarrow> (time \<times> Lease) list \<Rightarrow> bool" where
  "current_grant entry h \<longleftrightarrow>
     (case entry of None \<Rightarrow> h = [] | Some current \<Rightarrow> h \<noteq> [] \<and> current\<lparr>le_State := ''ACTIVE''\<rparr> = snd (last h))"

definition grants_inv :: "string \<Rightarrow> (time \<times> Lease) list \<Rightarrow> time \<Rightarrow> bool" where
  "grants_inv r h clock \<longleftrightarrow>
     disjoint_grants h \<and> (\<forall>g \<in> set h. fst g \<le> clock \<and> le_Resource (snd g) = r)
     \<and> map (le_Fencing \<circ> snd) h = map of_nat [1..<Suc (length h)]"

definition lease_inv :: "LeaseManager \<Rightarrow> (string \<Rightarrow> (time \<times> Lease) list) \<Rightarrow> time \<Rightarrow> bool" where
  "lease_inv m hist clock \<longleftrightarrow>
     (\<forall>r. get_or 0 (lm_fencing m) r = of_nat (length (hist r)) \<and> current_grant (map_of (lm_leases m) r) (hist r)
          \<and> grants_inv r (hist r) clock)"

lemma grants_inv_later: "grants_inv r h clock \<Longrightarrow> clock \<le> now \<Longrightarrow> grants_inv r h now"
  unfolding grants_inv_def by (meson order_trans)

lemma grants_inv_snoc:
  assumes "grants_inv r h clock" "clock \<le> now" "h \<noteq> [] \<longrightarrow> le_Expires (snd (last h)) \<le> now"
    and "le_Resource l = r" "le_Fencing l = of_nat (Suc (length h))"
  shows "grants_inv r (h @ [(now, l)]) now"
proof -
  have "le_Expires (snd g) \<le> now" if "g \<in> set h" for g
  proof (cases h rule: rev_cases)
    case (snoc h0 g0)
    have "le_Expires (snd g) \<le> fst g0" "fst g0 \<le> clock" if "g \<in> set h0" for g
      using assms(1) snoc that by (auto simp: grants_inv_def sorted_wrt_append)
    then show ?thesis using that assms(2,3) snoc by fastforce
  qed (use that in simp)
  then show ?thesis using assms by (auto simp: grants_inv_def sorted_wrt_append dest: order_trans)
qed

lemma grants_inv_replace_last:
  assumes "grants_inv r h clock" "h \<noteq> []" "le_Resource l = r" "le_Fencing l = le_Fencing (snd (last h))"
  shows "grants_inv r (butlast h @ [(fst (last h), l)]) clock"
  using assms(2)
proof (cases h rule: rev_cases)
  case (snoc h0 g0)
  then show ?thesis using assms by (auto simp: grants_inv_def sorted_wrt_append)
qed simp

lemma lease_invD:
  assumes "lease_inv m hist clock"
  shows "get_or 0 (lm_fencing m) r = of_nat (length (hist r))" "current_grant (map_of (lm_leases m) r) (hist r)"
    "clock \<le> now \<Longrightarrow> grants_inv r (hist r) now"
  using assms grants_inv_later unfolding lease_inv_def by blast+

lemma lease_inv_update:
  assumes "lease_inv m hist clock" "clock \<le> now"
    and "lm_fencing m' = lm_fencing m" "lm_leases m' = AList.update r l (lm_leases m)"
    and "hist r \<noteq> []" "l\<lparr>le_State := ''ACTIVE''\<rparr> = snd (last (hist r))"
  shows "lease_inv m' hist now"
  unfolding lease_inv_def
  using lease_invD(1,2) [OF assms(1)] lease_invD(3) [OF assms(1,2)] assms(3-6) by (simp add: current_grant_def update_conv')

lemma lease_inv_Acquire:
  assumes "lease_inv m hist clock" "clock \<le> now"
    and acq: "LeaseManager_Acquire resource attempt token now lifetime m = Inr (lease, m')"
  shows "lease_inv m' (hist(resource := hist resource @ [(now, lease)])) now"
proof -
  have free: "\<not> (case map_of (lm_leases m) resource of None \<Rightarrow> False | Some current \<Rightarrow> le_Expires current > now)"
    and lease: "lease = \<lparr>le_Resource = resource, le_Attempt = attempt, le_Token = token,
       le_Fencing = get_or 0 (lm_fencing m) resource + 1, le_Expires = now + lifetime, le_State = ''ACTIVE''\<rparr>"
    and m': "\<forall>r. map_of (lm_leases m') r = (if r = resource then Some lease else map_of (lm_leases m) r)"
      "lm_fencing m' = AList.update resource (get_or 0 (lm_fencing m) resource + 1) (lm_fencing m)"
    using acq by (auto simp: LeaseManager_Acquire_def Let_def update_conv' split: if_splits option.splits)
  have inv: "get_or 0 (lm_fencing m) r = of_nat (length (hist r))" "current_grant (map_of (lm_leases m) r) (hist r)"
    "grants_inv r (hist r) clock" for r using lease_invD [OF assms(1)] by blast+
  have "le_Expires (snd (last (hist resource))) \<le> now" if held: "hist resource \<noteq> []"
  proof -
    obtain current where current: "map_of (lm_leases m) resource = Some current"
      using inv(2) [of resource] held by (cases "map_of (lm_leases m) resource") (auto simp: current_grant_def)
    then have "current\<lparr>le_State := ''ACTIVE''\<rparr> = snd (last (hist resource))" using inv(2) [of resource] by (simp add: current_grant_def)
    then have "le_Expires (snd (last (hist resource))) = le_Expires (current\<lparr>le_State := ''ACTIVE''\<rparr>)" by simp
    then show ?thesis using free current by simp
  qed
  then have "grants_inv resource (hist resource @ [(now, lease)]) now"
    using grants_inv_snoc [OF inv(3) [of resource] assms(2)] by (simp add: lease inv(1))
  then show ?thesis
    using inv grants_inv_later [OF inv(3) assms(2)] m' lease by (simp add: lease_inv_def current_grant_def)
qed

lemma current_granted:
  assumes "lease_inv m hist clock" "map_of (lm_leases m) r = Some current"
  shows "hist r \<noteq> []" "current\<lparr>le_State := ''ACTIVE''\<rparr> = snd (last (hist r))"
  using assms by (auto simp: lease_inv_def current_grant_def dest: spec [of _ r])

lemma lease_inv_Renew:
  assumes "lease_inv m hist clock" "clock \<le> now" "LeaseManager_Renew lease now lifetime m = Inr (lease', m')"
  shows "lease_inv m' (hist(le_Resource lease := butlast (hist (le_Resource lease)) @ [(fst (last (hist (le_Resource lease))), lease')])) now"
proof -
  let ?r = "le_Resource lease"
  have l: "map_of (lm_leases m) ?r = Some lease" "le_State lease = ''ACTIVE''" "lease' = lease\<lparr>le_Expires := now + lifetime\<rparr>"
    and m': "m' = m\<lparr>lm_leases := AList.update ?r lease' (lm_leases m)\<rparr>"
    using assms(3) by (auto simp: LeaseManager_Renew_def Let_def split: if_splits option.splits)
  have "lease\<lparr>le_State := ''ACTIVE''\<rparr> = lease" using l(2) by (cases lease) simp
  then have last: "lease = snd (last (hist ?r))" using current_granted(2) [OF assms(1) l(1)] by simp
  have inv: "get_or 0 (lm_fencing m) r = of_nat (length (hist r))" "current_grant (map_of (lm_leases m) r) (hist r)"
    "grants_inv r (hist r) now" for r using lease_invD(1,2) [OF assms(1)] lease_invD(3) [OF assms(1,2)] by blast+
  have "grants_inv ?r (butlast (hist ?r) @ [(fst (last (hist ?r)), lease')]) now"
    by (rule grants_inv_replace_last [OF inv(3) current_granted(1) [OF assms(1) l(1)]]) (simp_all add: l(3) last [symmetric])
  then show ?thesis
    using inv current_granted(1) [OF assms(1) l(1)] l(2,3) m'
    by (auto simp: lease_inv_def current_grant_def update_conv')
qed

lemma lease_inv_Release:
  assumes "lease_inv m hist clock" "clock \<le> now" "LeaseManager_Release lease now m = Inr m'"
  shows "lease_inv m' hist now"
proof -
  obtain current where c: "map_of (lm_leases m) (le_Resource lease) = Some current"
    and m': "m' = m\<lparr>lm_leases := AList.update (le_Resource lease) (current\<lparr>le_State := ''RELEASED''\<rparr>) (lm_leases m)\<rparr>"
    using assms(3) by (auto simp: LeaseManager_Release_def split: if_splits option.splits)
  show ?thesis
    by (rule lease_inv_update [OF assms(1,2), where l = "current\<lparr>le_State := ''RELEASED''\<rparr>"])
      (use current_granted [OF assms(1) c] m' in simp_all)
qed

lemma lease_inv_Expire:
  assumes "lease_inv m hist clock" "clock \<le> now" "LeaseManager_Expire now m = (expired, m')"
  shows "lease_inv m' hist now"
proof -
  have entries: "map_of (lm_leases m') r = map_option (\<lambda>l. if lease_due now l then l\<lparr>le_State := ''EXPIRED''\<rparr> else l) (map_of (lm_leases m) r)"
    "lm_fencing m' = lm_fencing m" for r
    using assms(3) by (auto simp: LeaseManager_Expire_def map_of_map)
  have "current_grant (map_of (lm_leases m') r) (hist r)" for r
    using lease_invD(2) [OF assms(1), of r] unfolding entries(1) current_grant_def by (cases "map_of (lm_leases m) r") auto
  then show ?thesis
    unfolding lease_inv_def using lease_invD(1) [OF assms(1)] lease_invD(3) [OF assms(1,2)] entries(2) by simp
qed

lemma lease_inv_history: "lease_history m hist clock \<Longrightarrow> lease_inv m hist clock"
proof (induction rule: lease_history.induct)
  case (new clock)
  then show ?case by (simp add: lease_inv_def NewLeaseManager_def get_or_def current_grant_def grants_inv_def)
next
  case (acquire m hist clock now resource attempt token lifetime lease m')
  then show ?case by (simp only: lease_inv_Acquire)
next
  case (renew m hist clock now lease lifetime lease' m')
  then show ?case by (simp only: lease_inv_Renew)
next
  case (release m hist clock now lease m')
  then show ?case by (simp only: lease_inv_Release)
next
  case (expire m hist clock now expired m')
  then show ?case by (simp only: lease_inv_Expire)
qed

lemma leases_fenced_steps:
  assumes "lease_history m hist clock" "length (hist r) < 2 ^ 64" "i < j" "j < length (hist r)"
  shows "le_Expires (snd (hist r ! i)) \<le> fst (hist r ! j) \<and> le_Fencing (snd (hist r ! i)) < le_Fencing (snd (hist r ! j))"
proof -
  have inv: "grants_inv r (hist r) clock" using lease_inv_history [OF assms(1)] by (simp add: lease_inv_def)
  have fencing: "le_Fencing (snd (hist r ! k)) = of_nat (Suc k)" if "k < length (hist r)" for k
  proof -
    have "map (le_Fencing \<circ> snd) (hist r) ! k = map of_nat [1..<Suc (length (hist r))] ! k"
      using inv by (simp add: grants_inv_def)
    then show ?thesis using that by (simp del: upt_Suc add: nth_upt)
  qed
  have "le_Fencing (snd (hist r ! i)) < le_Fencing (snd (hist r ! j))"
    using assms(2-4) by (simp add: fencing word_less_nat_alt unat_of_nat take_bit_nat_eq_self del: of_nat_Suc)
  moreover have "le_Expires (snd (hist r ! i)) \<le> fst (hist r ! j)"
    using inv assms(3,4) by (auto simp: grants_inv_def sorted_wrt_iff_nth_less)
  ultimately show ?thesis by blast
qed

text \<open>
  C34. Leases are fenced and mutually exclusive. Under a clock that does not go back, of two grants
  of one resource the later one was made only after the earlier one, as last renewed, had expired, and
  as long as the 64-bit counter has not wrapped it carries the larger fencing token.
\<close>

theorem leases_fenced:
  assumes "lease_history m hist clock" "length (hist r) < 2 ^ 64" "i < j" "j < length (hist r)"
  shows "le_Expires (snd (hist r ! i)) \<le> fst (hist r ! j) \<and> le_Fencing (snd (hist r ! i)) < le_Fencing (snd (hist r ! j))"
  by (rule leases_fenced_steps [OF assms])

definition sample_grants :: "(Lease \<times> LeaseManager) \<times> (Lease \<times> LeaseManager)" where
  "sample_grants =
     (case LeaseManager_Acquire ''printer'' ''a1'' ''t1'' 100 50 NewLeaseManager of
        Inl _ \<Rightarrow> undefined
      | Inr (l1, m1) \<Rightarrow>
          (case LeaseManager_Acquire ''printer'' ''a2'' ''t2'' 150 10 m1 of
             Inl _ \<Rightarrow> undefined
           | Inr (l2, m2) \<Rightarrow> ((l1, m1), (l2, m2))))"

lemma sample_grants_history:
  "lease_history (snd (snd sample_grants)) ((\<lambda>_. [])(''printer'' := [(100, fst (fst sample_grants)), (150, fst (snd sample_grants))])) 150"
proof -
  have acquired: "LeaseManager_Acquire ''printer'' ''a1'' ''t1'' 100 50 NewLeaseManager = Inr (fst sample_grants)"
    "LeaseManager_Acquire ''printer'' ''a2'' ''t2'' 150 10 (snd (fst sample_grants)) = Inr (snd sample_grants)"
    by (simp_all add: sample_grants_def LeaseManager_Acquire_def NewLeaseManager_def Let_def)
  have "lease_history (snd (fst sample_grants)) ((\<lambda>_. [])(''printer'' := [(100, fst (fst sample_grants))])) 100"
    using lease_history.acquire [OF lease_history.new [of 0], of 100 "''printer''" "''a1''" "''t1''" 50] acquired(1)
    by (metis append_Nil prod.collapse zero_le_numeral)
  from lease_history.acquire [OF this, of 150 "''printer''" "''a2''" "''t2''" 10 "fst (snd sample_grants)" "snd (snd sample_grants)"]
  show ?thesis using acquired(2) by simp
qed

theorem leases_fenced_witness:
  "le_Expires (fst (fst sample_grants)) \<le> 150 \<and> le_Fencing (fst (fst sample_grants)) < le_Fencing (fst (snd sample_grants))"
  using leases_fenced [OF sample_grants_history, of "''printer''" 0 1] by simp

text \<open>
  A superseded holder is refused: with the lease of any grant but the last one of a resource,
  neither a release nor a renewal succeeds, whatever the clock says.
\<close>

theorem stale_holder_refused:
  assumes "lease_history m hist clock" "length (hist r) < 2 ^ 64" "Suc i < length (hist r)"
  shows "LeaseManager_Release (snd (hist r ! i)) now m = Inl StaleRelease
    \<and> (\<exists>e. LeaseManager_Renew (snd (hist r ! i)) now lifetime m = Inl e)"
proof -
  let ?old = "snd (hist r ! i)"
  have inv: "lease_inv m hist clock" by (rule lease_inv_history [OF assms(1)])
  then have "grants_inv r (hist r) clock" by (simp add: lease_inv_def)
  then have "le_Resource ?old = r" using assms(3) by (simp add: grants_inv_def)
  moreover obtain current where c: "map_of (lm_leases m) r = Some current"
    using lease_invD(2) [OF inv, of r] assms(3) by (cases "map_of (lm_leases m) r") (auto simp: current_grant_def)
  moreover have "le_Fencing ?old \<noteq> le_Fencing current"
  proof -
    have "le_Fencing ?old < le_Fencing (snd (hist r ! (length (hist r) - 1)))"
      using leases_fenced_steps [OF assms(1,2), of i "length (hist r) - 1"] assms(3) by simp
    moreover have "le_Fencing (current\<lparr>le_State := ''ACTIVE''\<rparr>) = le_Fencing (snd (last (hist r)))"
      using current_granted(2) [OF inv c] by simp
    ultimately show ?thesis using current_granted(1) [OF inv c] by (simp add: last_conv_nth)
  qed
  ultimately show ?thesis by (auto simp: LeaseManager_Release_def LeaseManager_Renew_def)
qed

theorem stale_holder_refused_witness:
  "LeaseManager_Release (fst (fst sample_grants)) 151 (snd (snd sample_grants)) = Inl StaleRelease
   \<and> (\<exists>e. LeaseManager_Renew (fst (fst sample_grants)) 151 20 (snd (snd sample_grants)) = Inl e)"
  using stale_holder_refused [OF sample_grants_history, of "''printer''" 0 151 20] by simp

text \<open>Releasing a lease does not free the resource before the lease's expiry.\<close>

theorem released_lease_blocks:
  assumes "LeaseManager_Release lease now m = Inr m'" "map_of (lm_leases m) (le_Resource lease) = Some current" "le_Expires current > later"
    and "le_Resource lease \<noteq> []" "attempt \<noteq> []" "token \<noteq> []" "lifetime > 0"
  shows "LeaseManager_Acquire (le_Resource lease) attempt token later lifetime m' = Inl AlreadyLeased"
  using assms by (auto simp: LeaseManager_Release_def LeaseManager_Acquire_def update_conv' split: if_splits)

section \<open>Events\<close>

text \<open>
  What the intake of events relies on: an accepted event has a fresh identifier and a sequence number
  above the last one of its stream, which becomes the last one; nothing else lowers a stream, and
  whatever is not accepted changes nothing.
\<close>

locale ordered_acceptor =
  fixes accept :: "string \<Rightarrow> 'stream \<Rightarrow> 64 word \<Rightarrow> 's \<Rightarrow> (event_error + bool) \<times> 's"
    and seen :: "'s \<Rightarrow> string set"
    and latest :: "'s \<Rightarrow> 'stream \<Rightarrow> 64 word"
  assumes accept_new: "accept i c n s = (Inr True, s') \<Longrightarrow> i \<notin> seen s \<and> seen s' = insert i (seen s)"
    and accept_above: "accept i c n s = (Inr True, s') \<Longrightarrow> latest s c < n \<and> latest s' c = n"
    and accept_keeps: "accept i c n s = (Inr True, s') \<Longrightarrow> latest s c' \<le> latest s' c'"
    and accept_refused: "fst (accept i c n s) \<noteq> Inr True \<Longrightarrow> snd (accept i c n s) = s"

text \<open>The events accepted from a sequence of deliveries.\<close>

fun accepted_events ::
  "(string \<Rightarrow> 'stream \<Rightarrow> 64 word \<Rightarrow> 's \<Rightarrow> (event_error + bool) \<times> 's) \<Rightarrow> (string \<times> 'stream \<times> 64 word) list \<Rightarrow> 's
     \<Rightarrow> (string \<times> 'stream \<times> 64 word) list" where
  "accepted_events accept [] s = []"
| "accepted_events accept ((i, c, n) # es) s =
     (case accept i c n s of (r, s') \<Rightarrow> if r = Inr True then (i, c, n) # accepted_events accept es s' else accepted_events accept es s')"

definition stream_sequence :: "'stream \<Rightarrow> (string \<times> 'stream \<times> 64 word) list \<Rightarrow> 64 word list" where
  "stream_sequence c es = map (\<lambda>(_, _, n). n) (filter (\<lambda>(_, c', _). c' = c) es)"

context ordered_acceptor
begin

lemma accepted_once:
  "distinct (map fst (accepted_events accept es s)) \<and> set (map fst (accepted_events accept es s)) \<inter> seen s = {}"
proof (induction es arbitrary: s)
  case (Cons e es)
  obtain i c n where e: "e = (i, c, n)" by (cases e)
  obtain r s' where r: "accept i c n s = (r, s')" by force
  show ?case
  proof (cases "r = Inr True")
    case True
    with accept_new r Cons.IH [of s'] e show ?thesis by auto
  next
    case False
    with accept_refused [of i c n s] r Cons.IH [of s] e show ?thesis by simp
  qed
qed simp

lemma accepted_in_order:
  "sorted_wrt (<) (stream_sequence c (accepted_events accept es s)) \<and> (\<forall>n \<in> set (stream_sequence c (accepted_events accept es s)). latest s c < n)"
proof (induction es arbitrary: s)
  case (Cons e es)
  obtain i c' n where e: "e = (i, c', n)" by (cases e)
  obtain r s' where r: "accept i c' n s = (r, s')" by force
  show ?case
  proof (cases "r = Inr True")
    case True
    with r have a: "accept i c' n s = (Inr True, s')" by simp
    have "\<forall>n \<in> set (stream_sequence c (accepted_events accept es s')). latest s c < n"
      using Cons.IH [of s'] accept_keeps [OF a, of c] le_less_trans by blast
    then show ?thesis
      using accept_above [OF a] Cons.IH [of s'] e r True by (cases "c' = c") (auto simp: stream_sequence_def)
  next
    case False
    with accept_refused [of i c' n s] r Cons.IH [of s] e show ?thesis by simp
  qed
qed (simp add: stream_sequence_def)

end

interpretation attempts: ordered_acceptor EventTracker_Accept "\<lambda>t. set (et_seen t)" "\<lambda>t. get_or 0 (et_sequence t)"
  by unfold_locales (auto simp: EventTracker_Accept_def split: if_splits)

abbreviation accept_on_channel :: "string \<Rightarrow> string \<times> string \<Rightarrow> 64 word \<Rightarrow> EventTracker \<Rightarrow> (event_error + bool) \<times> EventTracker" where
  "accept_on_channel i c \<equiv> EventTracker_AcceptChannel i (fst c) (snd c)"

interpretation streams: ordered_acceptor accept_on_channel "\<lambda>t. set (et_seen t)" "\<lambda>t c. get_or 0 (et_channels t) (channel_key (fst c) (snd c))"
  by unfold_locales (auto simp: EventTracker_AcceptChannel_def Let_def split: if_splits)

text \<open>
  Events are accepted once and in order. Of any sequence of deliveries, with duplicates and
  reorderings, the channel intake accepts events with pairwise different identifiers, and on every
  channel of every attempt their sequence numbers increase strictly.
\<close>

theorem events_once_in_order:
  "distinct (map fst (accepted_events accept_on_channel es NewEventTracker))
   \<and> sorted_wrt (<) (stream_sequence c (accepted_events accept_on_channel es NewEventTracker))"
  using streams.accepted_once streams.accepted_in_order by blast

theorem attempt_events_once_in_order:
  "distinct (map fst (accepted_events EventTracker_Accept es NewEventTracker))
   \<and> sorted_wrt (<) (stream_sequence c (accepted_events EventTracker_Accept es NewEventTracker))"
  using attempts.accepted_once attempts.accepted_in_order by blast

section \<open>Capacity\<close>

inductive capacity_reachable :: "int \<Rightarrow> CapacityResource \<Rightarrow> bool" for bound :: int where
  new: "capacity_reachable bound (NewCapacityResource limit)" if "0 \<le> limit" "limit \<le> bound"
| acquire: "capacity_reachable bound (snd (CapacityResource_Acquire quantity r))" if "capacity_reachable bound r" "quantity \<le> bound"
| release: "capacity_reachable bound (CapacityResource_Release quantity r)" if "capacity_reachable bound r" "0 \<le> quantity" "quantity \<le> bound"

lemma capacity_bounded:
  assumes "capacity_reachable bound r" "bound < 2 ^ 62"
  shows "0 \<le> cr_used r \<and> cr_used r \<le> cr_limit r \<and> cr_limit r \<le> bound"
  using assms(1)
proof induction
  case (new limit)
  then show ?case by (simp add: NewCapacityResource_def)
next
  case (acquire r quantity)
  then have "wrap64 (cr_used r + quantity) = cr_used r + quantity" if "quantity > 0"
    using that assms(2) by (intro wrap64_id) (simp add: in64_def)
  then show ?case using acquire by (auto simp: CapacityResource_Acquire_def)
next
  case (release r quantity)
  then have "wrap64 (cr_used r - quantity) = cr_used r - quantity"
    using assms(2) by (intro wrap64_id) (simp add: in64_def)
  then show ?case using release by (simp add: CapacityResource_Release_def Let_def)
qed

text \<open>
  Capacity is never overcommitted while limits and quantities stay below \<^verbatim>\<open>2^62\<close>: in every
  reachable state the units in use lie between zero and the limit, and an acquisition succeeds
  exactly when its positive quantity still fits.
\<close>

theorem capacity_never_overcommitted:
  assumes "capacity_reachable bound r" "bound < 2 ^ 62" "quantity \<le> bound"
  shows "0 \<le> cr_used r \<and> cr_used r \<le> cr_limit r
    \<and> fst (CapacityResource_Acquire quantity r) = (0 < quantity \<and> cr_used r + quantity \<le> cr_limit r)"
proof -
  have b: "0 \<le> cr_used r \<and> cr_used r \<le> cr_limit r \<and> cr_limit r \<le> bound" by (rule capacity_bounded [OF assms(1,2)])
  then have "wrap64 (cr_used r + quantity) = cr_used r + quantity" if "quantity > 0"
    using that assms(2,3) by (intro wrap64_id) (simp add: in64_def)
  then show ?thesis using b by (auto simp: CapacityResource_Acquire_def)
qed

theorem capacity_never_overcommitted_witness:
  "fst (CapacityResource_Acquire 4 (snd (CapacityResource_Acquire 3 (NewCapacityResource 5)))) = False"
proof -
  have "capacity_reachable 5 (snd (CapacityResource_Acquire 3 (NewCapacityResource 5)))"
    by (rule capacity_reachable.acquire [OF capacity_reachable.new]) simp_all
  from capacity_never_overcommitted [OF this, of 4] show ?thesis
    by (simp add: CapacityResource_Acquire_def NewCapacityResource_def wrap64_def)
qed

text \<open>Beyond that bound the sum wraps around and the check lets it pass.\<close>

theorem capacity_overflow:
  "CapacityResource_Acquire (2 ^ 63 - 1) \<lparr>cr_limit = 10, cr_used = 5\<rparr> = (True, \<lparr>cr_limit = 10, cr_used = 4 - 2 ^ 63\<rparr>)"
  by (simp add: CapacityResource_Acquire_def wrap64_def)

section \<open>Placement\<close>

lemma place_from_Some:
  "place_from runners required cursor i n = Some idx \<Longrightarrow>
     \<exists>k<n. idx = (cursor + i + k) mod length runners \<and> eligible (runners ! idx) required
       \<and> (\<forall>k'<k. \<not> eligible (runners ! ((cursor + i + k') mod length runners)) required)"
proof (induction n arbitrary: i)
  case (Suc n)
  show ?case
  proof (cases "eligible (runners ! ((cursor + i) mod length runners)) required")
    case True
    with Suc.prems show ?thesis by (intro exI [of _ 0]) (auto simp: Let_def)
  next
    case False
    with Suc.prems have "place_from runners required cursor (Suc i) n = Some idx" by (simp add: Let_def)
    from Suc.IH [OF this] obtain k where k: "k < n" "idx = (cursor + Suc i + k) mod length runners" "eligible (runners ! idx) required"
      "\<forall>k'<k. \<not> eligible (runners ! ((cursor + Suc i + k') mod length runners)) required" by blast
    have "\<not> eligible (runners ! ((cursor + i + k') mod length runners)) required" if "k' < Suc k" for k'
      using that False k(4) by (cases k') auto
    with k show ?thesis by (intro exI [of _ "Suc k"]) auto
  qed
qed simp

lemma place_from_None:
  "place_from runners required cursor i n = None \<Longrightarrow> k < n \<Longrightarrow> \<not> eligible (runners ! ((cursor + i + k) mod length runners)) required"
proof (induction n arbitrary: i k)
  case (Suc n)
  show ?case
  proof (cases k)
    case 0
    with Suc.prems show ?thesis by (auto simp: Let_def split: if_splits)
  next
    case (Suc k0)
    with Suc.prems Suc.IH [of "Suc i" k0] show ?thesis by (auto simp: Let_def split: if_splits)
  qed
qed simp

lemma offset_of_index:
  fixes cursor i len :: nat
  assumes "i < len"
  obtains k where "k < len" "(cursor + k) mod len = i"
proof
  let ?k = "(i + len - cursor mod len) mod len"
  have "cursor mod len < len" using assms by simp
  then have "cursor mod len + (i + len - cursor mod len) = i + len" by linarith
  then have "(cursor mod len + (i + len - cursor mod len)) mod len = i" using assms by simp
  then show "(cursor + ?k) mod len = i" by (simp add: mod_simps)
  show "?k < len" using assms by (intro mod_less_divisor) simp
qed

text \<open>
  Placement is sound and complete. The runner returned is one of the candidates, is eligible
  and is the pinned one when the request pins a runner; an error means that no candidate qualifies.
\<close>

theorem Placer_Select_correct:
  "case fst (Placer_Select runners request cursor) of
     Inr r \<Rightarrow> r \<in> set runners \<and> eligible r (pr_Required request) \<and> pr_PinnedRunner request \<in> {[], rc_ID r}
   | Inl _ \<Rightarrow> \<not> (\<exists>r \<in> set runners. eligible r (pr_Required request) \<and> pr_PinnedRunner request \<in> {[], rc_ID r})"
proof (cases "pr_PinnedRunner request = []")
  case True
  show ?thesis
  proof (cases "place_from runners (pr_Required request) cursor 0 (length runners)")
    case None
    have "\<not> eligible r (pr_Required request)" if "r \<in> set runners" for r
    proof -
      obtain i where i: "i < length runners" "r = runners ! i" using \<open>r \<in> set runners\<close> by (auto simp: in_set_conv_nth)
      obtain k where "k < length runners" "(cursor + k) mod length runners = i" using offset_of_index [OF i(1)] by blast
      with place_from_None [OF None, of k] i show ?thesis by simp
    qed
    then show ?thesis using True None by (simp add: Placer_Select_def)
  next
    case (Some idx)
    from place_from_Some [OF Some] have "runners ! idx \<in> set runners \<and> eligible (runners ! idx) (pr_Required request)"
      by (cases "length runners") (auto intro!: nth_mem)
    then show ?thesis using True Some by (simp add: Placer_Select_def)
  qed
next
  case False
  then show ?thesis by (auto simp: Placer_Select_def find_None_iff find_Some_iff split: option.splits)
qed

text \<open>The runners of \<open>n\<close> consecutive placements of one request while the candidates do not change.\<close>

fun placements :: "RunnerCandidate list \<Rightarrow> PlacementRequest \<Rightarrow> nat \<Rightarrow> nat \<Rightarrow> RunnerCandidate list" where
  "placements runners request 0 cursor = []"
| "placements runners request (Suc n) cursor =
     (case Placer_Select runners request cursor of
        (Inl _, cursor') \<Rightarrow> placements runners request n cursor'
      | (Inr r, cursor') \<Rightarrow> r # placements runners request n cursor')"

lemma placements_mono: "m \<le> n \<Longrightarrow> set (placements runners request m cursor) \<subseteq> set (placements runners request n cursor)"
proof (induction m arbitrary: n cursor)
  case (Suc m)
  then obtain n' where n: "n = Suc n'" "m \<le> n'" by (metis Suc_le_D Suc_le_mono)
  obtain r cursor' where "Placer_Select runners request cursor = (r, cursor')" by force
  then show ?case using Suc.IH [OF n(2), of cursor'] n(1) by (auto split: sum.splits)
qed simp

lemma placements_reach:
  assumes "pr_PinnedRunner request = []" "eligible (runners ! ((cursor + k) mod length runners)) (pr_Required request)" "k < length runners"
  shows "runners ! ((cursor + k) mod length runners) \<in> set (placements runners request (Suc k) cursor)"
  using assms(2,3)
proof (induction k arbitrary: cursor rule: less_induct)
  case (less k)
  let ?len = "length runners"
  obtain idx where idx: "place_from runners (pr_Required request) cursor 0 ?len = Some idx"
    using place_from_None [of runners "pr_Required request" cursor 0 ?len k] less.prems by (cases "place_from runners (pr_Required request) cursor 0 ?len") auto
  obtain k0 where k0: "idx = (cursor + k0) mod ?len" "\<forall>k'<k0. \<not> eligible (runners ! ((cursor + k') mod ?len)) (pr_Required request)"
    using place_from_Some [OF idx] by auto
  have select: "Placer_Select runners request cursor = (Inr (runners ! idx), (idx + 1) mod ?len)"
    using assms(1) idx by (simp add: Placer_Select_def)
  have "k0 \<le> k" using k0(2) less.prems(1) not_le_imp_less by blast
  show ?case
  proof (cases "k0 = k")
    case True
    then show ?thesis using select k0(1) by simp
  next
    case False
    then obtain d where d: "k = Suc (k0 + d)" using \<open>k0 \<le> k\<close> by (metis add_Suc_right le_neq_implies_less less_imp_Suc_add)
    have same: "((idx + 1) mod ?len + d) mod ?len = (cursor + k) mod ?len" by (simp add: k0(1) d mod_simps ac_simps)
    have "runners ! (((idx + 1) mod ?len + d) mod ?len) \<in> set (placements runners request (Suc d) ((idx + 1) mod ?len))"
      using less.IH [of d "(idx + 1) mod ?len"] less.prems unfolding same d by simp
    moreover have "Suc d \<le> k" using d by simp
    ultimately show ?thesis unfolding same using select placements_mono [of "Suc d" k runners request "(idx + 1) mod ?len"] by auto
  qed
qed

text \<open>
  Placement starves no runner. While the candidates stay the same, a runner that stays eligible
  is chosen at least once in any run of as many consecutive placements as there are candidates,
  wherever the cursor was left by earlier requests.
\<close>

theorem placement_fair:
  assumes "pr_PinnedRunner request = []" "r \<in> set runners" "eligible r (pr_Required request)"
  shows "r \<in> set (placements runners request (length runners) cursor)"
proof -
  obtain i where i: "i < length runners" "r = runners ! i" using assms(2) by (auto simp: in_set_conv_nth)
  obtain k where k: "k < length runners" "(cursor + k) mod length runners = i" using offset_of_index [OF i(1)] by blast
  have "r \<in> set (placements runners request (Suc k) cursor)"
    using placements_reach [of request runners cursor k] assms i k by simp
  then show ?thesis using placements_mono [of "Suc k" "length runners" runners request cursor] k(1) by (auto simp del: placements.simps)
qed

definition sample_runner :: "string \<Rightarrow> RunnerCandidate" where
  "sample_runner ident = \<lparr>rc_ID = ident, rc_SessionID = ''s'', rc_Enabled = True, rc_Draining = False, rc_Online = True,
     rc_Capacity = 2, rc_Active = 1, rc_Capabilities = [(''os'', ''linux'')]\<rparr>"

theorem placement_fair_witness:
  "sample_runner ''b'' \<in> set (placements [sample_runner ''a'', sample_runner ''b''] \<lparr>pr_PinnedRunner = [], pr_Required = [(''os'', ''linux'')]\<rparr> 2 4)"
  using placement_fair [of "\<lparr>pr_PinnedRunner = [], pr_Required = [(''os'', ''linux'')]\<rparr>" "sample_runner ''b''"
      "[sample_runner ''a'', sample_runner ''b'']" 4]
  by (simp add: sample_runner_def eligible_def get_or_def numeral_2_eq_2)

section \<open>Bounded logs\<close>

fun append_all :: "bytes list \<Rightarrow> LogAccumulator \<Rightarrow> bytes list \<times> LogAccumulator" where
  "append_all [] a = ([], a)"
| "append_all (chunk # chunks) a =
     (case LogAccumulator_Append chunk a of ((kept, _), a') \<Rightarrow> case append_all chunks a' of (rest, a'') \<Rightarrow> (kept # rest, a''))"

definition log_inv :: "int \<Rightarrow> bytes \<Rightarrow> LogAccumulator \<Rightarrow> bool" where
  "log_inv limit raw a \<longleftrightarrow> la_max a = limit \<and> la_data a = take (nat limit) raw \<and> la_total a = int (length (la_data a))
     \<and> (int (length raw) > limit \<longrightarrow> la_truncated a) \<and> (la_truncated a \<longrightarrow> int (length raw) \<ge> limit)"

lemma log_inv_Append:
  assumes "log_inv limit raw a" "0 < limit" "LogAccumulator_Append chunk a = ((kept, cutoff), a')"
  shows "log_inv limit (raw @ chunk) a' \<and> la_data a' = la_data a @ kept"
  using assms by (auto simp: log_inv_def LogAccumulator_Append_def Let_def min_def nat_diff_distrib' split: if_splits)

lemma log_inv_append_all:
  "log_inv limit raw a \<Longrightarrow> 0 < limit \<Longrightarrow> append_all chunks a = (kept, a') \<Longrightarrow>
     log_inv limit (raw @ concat chunks) a' \<and> la_data a' = la_data a @ concat kept"
proof (induction chunks arbitrary: raw a kept)
  case (Cons chunk chunks)
  obtain k c a1 where app: "LogAccumulator_Append chunk a = ((k, c), a1)" by (metis surj_pair)
  obtain rest where rest: "append_all chunks a1 = (rest, a')" "kept = k # rest" using Cons.prems(3) app by (auto split: prod.splits)
  show ?case using Cons.IH [OF _ Cons.prems(2) rest(1), of "raw @ chunk"] log_inv_Append [OF Cons.prems(1,2) app] rest(2) by simp
qed simp

text \<open>
  A log is its prefix. Whatever the chunks and their boundaries, an accumulator with limit \<open>n\<close>
  holds the first \<open>n\<close> bytes of what was written, which are also the bytes it reported as accepted;
  a log that lost bytes is marked truncated, and a log marked truncated is full.
\<close>

theorem log_is_prefix:
  assumes "NewLogAccumulator limit = Some a" "append_all chunks a = (kept, a')"
  shows "fst (LogAccumulator_Bytes a') = take (nat limit) (concat chunks) \<and> concat kept = take (nat limit) (concat chunks)
    \<and> (int (length (concat chunks)) > limit \<longrightarrow> snd (LogAccumulator_Bytes a'))
    \<and> (snd (LogAccumulator_Bytes a') \<longrightarrow> int (length (concat chunks)) \<ge> limit)"
proof -
  have "0 < limit" "log_inv limit [] a" "la_data a = []"
    using assms(1) by (auto simp: NewLogAccumulator_def log_inv_def split: if_splits)
  then show ?thesis using log_inv_append_all [OF _ _ assms(2), of limit "[]"] by (auto simp: log_inv_def LogAccumulator_Bytes_def)
qed

theorem log_is_prefix_witness:
  "\<exists>a kept a'. NewLogAccumulator 3 = Some a \<and> append_all [[1, 2], [3, 4], [5]] a = (kept, a')
     \<and> LogAccumulator_Bytes a' = ([1, 2, 3], True) \<and> concat kept = [1, 2, 3]"
proof -
  obtain a where a: "NewLogAccumulator 3 = Some a" by (simp add: NewLogAccumulator_def)
  obtain kept a' where k: "append_all [[1, 2], [3, 4], [5]] a = (kept, a')" by force
  from log_is_prefix [OF a k] have "fst (LogAccumulator_Bytes a') = [1, 2, 3]" "snd (LogAccumulator_Bytes a')" "concat kept = [1, 2, 3]"
    by simp_all
  then show ?thesis using a k by (metis (full_types) prod.collapse)
qed

end
