(* ===== verification/Projection.thy ===== *)
theory Projection
  imports Cron TimeFormat "HOL-Library.Product_Lexorder"
begin

text \<open>
  The schedule projection of the control plane (\<^verbatim>\<open>controlplane/projection.go\<close>, \<^verbatim>\<open>controlplane/projection_service.go\<close>):
  the occurrences of all schedules in the coming week, and a sweep over each exclusive resource
  that reports which of them would collide. \<open>load\<close> is \<^verbatim>\<open>time.LoadLocation\<close>. The maps the source
  iterates over are association lists; \<^verbatim>\<open>sort.Slice\<close> is modelled by a stable sort, and the
  comparators used here leave open only the order of entries that agree in all they compare.
\<close>

section \<open>Data\<close>

record ScheduleProjectionResource =
  spr_ID :: string
  spr_Name :: string
  spr_Kind :: string

record ScheduleProjectionInput =
  spi_ScheduleID :: string
  spi_ScheduleName :: string
  spi_ScheduleVersionID :: string
  spi_TaskID :: string
  spi_TaskName :: string
  spi_TaskVersionID :: string
  spi_Expression :: string
  spi_Timezone :: string
  spi_RunnerPoolID :: string
  spi_RunnerPoolName :: string
  spi_PinnedRunnerID :: string
  spi_PinnedRunnerName :: string
  spi_DurationSeconds :: int
  spi_Resources :: "ScheduleProjectionResource list"

record ProjectionResource =
  prs_ID :: string
  prs_Name :: string

record ProjectionOccurrence =
  po_ID :: string
  po_ScheduleID :: string
  po_ScheduleName :: string
  po_ScheduleVersionID :: string
  po_TaskID :: string
  po_TaskName :: string
  po_TaskVersionID :: string
  po_Timezone :: string
  po_LaneID :: string
  po_LaneLabel :: string
  po_StartAt :: time
  po_EndAt :: time

record ProjectionSegment =
  ps_Occurrence :: ProjectionOccurrence
  ps_OccurrenceCount :: int
  ps_Conflicted :: bool
  ps_ExclusiveResources :: "ProjectionResource list"

record ProjectionConflict =
  pc_ID :: string
  pc_ResourceID :: string
  pc_ResourceName :: string
  pc_StartAt :: time
  pc_EndAt :: time
  pc_Occurrences :: "ProjectionOccurrence list"

record ProjectionReport =
  rep_Available :: bool
  rep_CalculatedAt :: time
  rep_WindowStart :: time
  rep_WindowEnd :: time
  rep_DurationSource :: string
  rep_Segments :: "ProjectionSegment list"
  rep_Conflicts :: "ProjectionConflict list"

record projectionWindow =
  pw_occurrence :: ProjectionOccurrence
  pw_resources :: "ProjectionResource list"

record projectionEvent =
  pe_at :: time
  pe_start :: bool
  pe_occurrence :: ProjectionOccurrence

datatype projection_error =
    TimeRequired | InputIncomplete | InvalidDuration string | CronFailed string cron_error | NotIncreasing string

definition ProjectionHorizon :: duration where
  "ProjectionHorizon = 7 * 24 * hour"

section \<open>Occurrences of one schedule\<close>

definition fallbackName :: "string \<Rightarrow> string \<Rightarrow> string" where
  "fallbackName name ident = (if TrimSpace name \<noteq> [] then name else ident)"

definition projectionLane :: "ScheduleProjectionInput \<Rightarrow> string \<times> string" where
  "projectionLane input =
     (if spi_PinnedRunnerID input \<noteq> []
      then (''runner:'' @ spi_PinnedRunnerID input, ''Runner: '' @ fallbackName (spi_PinnedRunnerName input) (spi_PinnedRunnerID input))
      else (''pool:'' @ spi_RunnerPoolID input, ''Any runner in '' @ fallbackName (spi_RunnerPoolName input) (spi_RunnerPoolID input)))"

definition normal_kind :: "string \<Rightarrow> string" where
  "normal_kind kind = ToLower (map (\<lambda>c. if c = CHR ''_'' then CHR ''-'' else c) (TrimSpace kind))"

fun exclusive_loop :: "ScheduleProjectionResource list \<Rightarrow> string list \<Rightarrow> ProjectionResource list" where
  "exclusive_loop [] seen = []"
| "exclusive_loop (resource # rs) seen =
     (if normal_kind (spr_Kind resource) \<noteq> ''exclusive'' \<or> spr_ID resource = [] \<or> spr_ID resource \<in> set seen
      then exclusive_loop rs seen
      else \<lparr>prs_ID = spr_ID resource, prs_Name = fallbackName (spr_Name resource) (spr_ID resource)\<rparr>
             # exclusive_loop rs (spr_ID resource # seen))"

definition exclusiveResources :: "ScheduleProjectionResource list \<Rightarrow> ProjectionResource list" where
  "exclusiveResources resources = sort_key prs_ID (exclusive_loop resources [])"

definition projected_occurrence :: "ScheduleProjectionInput \<Rightarrow> time \<Rightarrow> time \<Rightarrow> ProjectionOccurrence" where
  "projected_occurrence input at_time finish =
     \<lparr>po_ID = spi_ScheduleID input @ ''@'' @ rfc3339_nano at_time, po_ScheduleID = spi_ScheduleID input,
      po_ScheduleName = fallbackName (spi_ScheduleName input) (spi_ScheduleID input), po_ScheduleVersionID = spi_ScheduleVersionID input,
      po_TaskID = spi_TaskID input, po_TaskName = fallbackName (spi_TaskName input) (spi_TaskID input),
      po_TaskVersionID = spi_TaskVersionID input, po_Timezone = spi_Timezone input, po_LaneID = fst (projectionLane input),
      po_LaneLabel = snd (projectionLane input), po_StartAt = at_time, po_EndAt = finish\<rparr>"

text \<open>The loop over the firings from \<open>cursor\<close> on; each turn moves the cursor forward.\<close>

function project_from ::
  "(string \<Rightarrow> Location option) \<Rightarrow> ScheduleProjectionInput \<Rightarrow> ProjectionResource list \<Rightarrow> time \<Rightarrow> time \<Rightarrow> projection_error + projectionWindow list" where
  "project_from load input resources until cursor =
     (if \<not> cursor < until then Inr []
      else (case NextFire load (spi_Expression input) (spi_Timezone input) cursor of
              Inl e \<Rightarrow> Inl (CronFailed (spi_ScheduleID input) e)
            | Inr next \<Rightarrow>
                (if \<not> next > cursor then Inl (NotIncreasing (spi_ScheduleID input))
                 else if \<not> next < until then Inr []
                 else (let finish = next + wrap64 (spi_DurationSeconds input * second)
                       in if \<not> finish > next then Inl (InvalidDuration (spi_ScheduleID input))
                          else res_bind (project_from load input resources until next) (\<lambda>rest.
                                 Inr (\<lparr>pw_occurrence = projected_occurrence input next finish, pw_resources = resources\<rparr> # rest))))))"
  by pat_completeness auto
termination
  by (relation "measure (\<lambda>(_, _, _, until, cursor). nat (until - cursor))") auto

declare project_from.simps [simp del]

definition projectScheduleInput ::
  "(string \<Rightarrow> Location option) \<Rightarrow> ScheduleProjectionInput \<Rightarrow> time \<Rightarrow> time \<Rightarrow> projection_error + projectionWindow list" where
  "projectScheduleInput load input start until =
     (if spi_ScheduleID input = [] \<or> spi_TaskID input = [] \<or> spi_TaskVersionID input = [] \<or> spi_Expression input = [] then Inl InputIncomplete
      else if spi_DurationSeconds input \<le> 0 then Inl (InvalidDuration (spi_ScheduleID input))
      else project_from load input (exclusiveResources (spi_Resources input)) until start)"

section \<open>Conflicts on one resource\<close>

definition projectionEvents :: "ProjectionOccurrence list \<Rightarrow> projectionEvent list" where
  "projectionEvents occurrences =
     sort_key (\<lambda>e. (pe_at e, pe_start e, po_ID (pe_occurrence e)))
       (concat (map (\<lambda>o'. [\<lparr>pe_at = po_StartAt o', pe_start = True, pe_occurrence = o'\<rparr>,
                           \<lparr>pe_at = po_EndAt o', pe_start = False, pe_occurrence = o'\<rparr>]) occurrences))"

definition updateActiveOccurrences ::
  "projectionEvent list \<Rightarrow> (string, ProjectionOccurrence) gomap \<Rightarrow> (string, ProjectionOccurrence) gomap" where
  "updateActiveOccurrences events active0 =
     fold (\<lambda>e m. AList.update (po_ID (pe_occurrence e)) (pe_occurrence e) m) (filter pe_start events)
       (fold (\<lambda>e m. AList.delete (po_ID (pe_occurrence e)) m) (filter (\<lambda>e. \<not> pe_start e) events) active0)"

definition addActiveOccurrences :: "(string, ProjectionOccurrence) gomap \<Rightarrow> ProjectionConflict \<Rightarrow> ProjectionConflict" where
  "addActiveOccurrences active0 conflict =
     conflict\<lparr>pc_Occurrences := sort_key po_StartAt
        (pc_Occurrences conflict
         @ filter (\<lambda>o'. po_ID o' \<notin> po_ID ` set (pc_Occurrences conflict)) (map snd active0))\<rparr>"

definition new_conflict :: "string \<Rightarrow> string \<Rightarrow> time \<Rightarrow> ProjectionConflict" where
  "new_conflict resourceID resourceName at_time =
     \<lparr>pc_ID = resourceID @ ''@'' @ rfc3339_nano at_time, pc_ResourceID = resourceID,
      pc_ResourceName = fallbackName resourceName resourceID, pc_StartAt = at_time, pc_EndAt = 0, pc_Occurrences = []\<rparr>"

definition opt_list :: "'a option \<Rightarrow> 'a list" where
  "opt_list x = (case x of None \<Rightarrow> [] | Some y \<Rightarrow> [y])"

text \<open>The sweep: one turn handles all events of one instant; what follows them is the rest.\<close>

function sweep ::
  "string \<Rightarrow> string \<Rightarrow> projectionEvent list \<Rightarrow> (string, ProjectionOccurrence) gomap \<Rightarrow> ProjectionConflict option \<Rightarrow> ProjectionConflict list
     \<Rightarrow> ProjectionConflict list" where
  "sweep resourceID resourceName [] active0 current result = result"
| "sweep resourceID resourceName (e # es) active0 current result =
     (let group = e # takeWhile (\<lambda>x. pe_at x = pe_at e) es;
          rest = dropWhile (\<lambda>x. pe_at x = pe_at e) es;
          active1 = updateActiveOccurrences group active0
      in if rest = [] \<or> \<not> pe_at (hd rest) > pe_at e \<or> length active1 < 2
         then sweep resourceID resourceName rest active1 None (result @ opt_list current)
         else (let conflict = (case current of None \<Rightarrow> new_conflict resourceID resourceName (pe_at e) | Some c \<Rightarrow> c);
                   extended = addActiveOccurrences active1 (conflict\<lparr>pc_EndAt := pe_at (hd rest)\<rparr>)
               in sweep resourceID resourceName rest active1 (Some extended) result))"
  by pat_completeness auto
termination
  by (relation "measure (\<lambda>(_, _, es, _). length es)") (auto simp: less_Suc_eq_le length_dropWhile_le)

definition conflictsForResource :: "string \<Rightarrow> ProjectionOccurrence list \<Rightarrow> string \<Rightarrow> ProjectionConflict list" where
  "conflictsForResource resourceID occurrences resourceName = sweep resourceID resourceName (projectionEvents occurrences) [] None []"

section \<open>The report\<close>

definition projectionConflicts :: "(string, ProjectionOccurrence list) gomap \<Rightarrow> (string, string) gomap \<Rightarrow> ProjectionConflict list" where
  "projectionConflicts byResource names =
     sort_key (\<lambda>c. (pc_StartAt c, pc_ResourceName c, pc_ResourceID c))
       (concat (map (\<lambda>(resourceID, occurrences). conflictsForResource resourceID occurrences (get_or [] names resourceID)) byResource))"

definition projectionSegments :: "projectionWindow list \<Rightarrow> string list \<Rightarrow> ProjectionSegment list" where
  "projectionSegments windows conflicted =
     map (\<lambda>w. \<lparr>ps_Occurrence = pw_occurrence w, ps_OccurrenceCount = 1,
               ps_Conflicted = (po_ID (pw_occurrence w) \<in> set conflicted), ps_ExclusiveResources = pw_resources w\<rparr>)
       (sort_key (\<lambda>w. (po_LaneLabel (pw_occurrence w), po_ScheduleID (pw_occurrence w), po_StartAt (pw_occurrence w))) windows)"

fun project_all ::
  "(string \<Rightarrow> Location option) \<Rightarrow> time \<Rightarrow> time \<Rightarrow> ScheduleProjectionInput list \<Rightarrow> projection_error + projectionWindow list" where
  "project_all load start until [] = Inr []"
| "project_all load start until (input # inputs) =
     res_bind (projectScheduleInput load input start until) (\<lambda>projected.
     res_bind (project_all load start until inputs) (\<lambda>rest. Inr (projected @ rest)))"

text \<open>The two maps filled along the windows.\<close>

definition add_window ::
  "projectionWindow \<Rightarrow> (string, ProjectionOccurrence list) gomap \<times> (string, string) gomap
     \<Rightarrow> (string, ProjectionOccurrence list) gomap \<times> (string, string) gomap" where
  "add_window w maps =
     fold (\<lambda>r (byResource, names).
            (AList.update (prs_ID r) (get_or [] byResource (prs_ID r) @ [pw_occurrence w]) byResource, AList.update (prs_ID r) (prs_Name r) names))
       (pw_resources w) maps"

definition BuildScheduleProjection ::
  "(string \<Rightarrow> Location option) \<Rightarrow> ScheduleProjectionInput list \<Rightarrow> time \<Rightarrow> projection_error + ProjectionReport" where
  "BuildScheduleProjection load inputs now =
     (if now = 0 then Inl TimeRequired
      else (let until = now + ProjectionHorizon
            in res_bind (project_all load now until inputs) (\<lambda>windows.
                 let maps = fold add_window windows ([], []);
                     conflicts = projectionConflicts (fst maps) (snd maps);
                     conflicted = concat (map (\<lambda>c. map po_ID (pc_Occurrences c)) conflicts)
                 in Inr \<lparr>rep_Available = True, rep_CalculatedAt = now, rep_WindowStart = now, rep_WindowEnd = until,
                         rep_DurationSource = ''task_duration'', rep_Segments = projectionSegments windows conflicted,
                         rep_Conflicts = conflicts\<rparr>)))"

section \<open>Reading the schedules\<close>

definition valueOrID :: "string option \<Rightarrow> string \<Rightarrow> string" where
  "valueOrID v ident = (case v of Some t \<Rightarrow> if t \<noteq> [] then t else ident | None \<Rightarrow> ident)"

definition valueOrEmpty :: "string option \<Rightarrow> string" where
  "valueOrEmpty v = (case v of None \<Rightarrow> [] | Some t \<Rightarrow> t)"

text \<open>
  \<^verbatim>\<open>ListScheduleProjection\<close> on the rows of its query: one row per schedule and resource, the rows of
  one schedule in sequence; the resource columns are null for a schedule without resources.
\<close>

definition add_projection_row ::
  "ScheduleProjectionInput \<times> (string option \<times> string option \<times> string option) \<Rightarrow> ScheduleProjectionInput list \<Rightarrow> ScheduleProjectionInput list" where
  "add_projection_row row items =
     (case row of (item, resourceID, resourceName, resourceKind) \<Rightarrow>
        let items1 = (if items = [] \<or> spi_ScheduleID (last items) \<noteq> spi_ScheduleID item then items @ [item] else items)
        in (case resourceID of
              None \<Rightarrow> items1
            | Some rid \<Rightarrow>
                (if rid = [] then items1
                 else butlast items1 @ [(last items1)\<lparr>spi_Resources := spi_Resources (last items1) @
                        [\<lparr>spr_ID = rid, spr_Name = valueOrID resourceName rid, spr_Kind = valueOrEmpty resourceKind\<rparr>]\<rparr>])))"

definition ListScheduleProjection ::
  "(ScheduleProjectionInput \<times> (string option \<times> string option \<times> string option)) list \<Rightarrow> ScheduleProjectionInput list" where
  "ListScheduleProjection rows = fold add_projection_row rows []"

section \<open>The service\<close>

record ProjectionService =
  psv_snapshot :: "ProjectionReport option"

definition CheckScheduleConflicts ::
  "(string \<Rightarrow> Location option) \<Rightarrow> ScheduleProjectionInput list \<Rightarrow> ScheduleProjectionInput \<Rightarrow> string \<Rightarrow> time \<Rightarrow> projection_error + ProjectionConflict list" where
  "CheckScheduleConflicts load inputs candidate excludeScheduleID now =
     (let filtered = filter (\<lambda>i. excludeScheduleID = [] \<or> spi_ScheduleID i \<noteq> excludeScheduleID) inputs
      in res_bind (BuildScheduleProjection load (filtered @ [candidate]) now) (\<lambda>report.
           Inr (filter (\<lambda>c. list_ex (\<lambda>o'. po_ScheduleID o' = spi_ScheduleID candidate) (pc_Occurrences c)) (rep_Conflicts report))))"

text \<open>\<open>inputs\<close> is the answer of the repository; a failed refresh keeps the last snapshot.\<close>

definition ProjectionService_Refresh ::
  "(string \<Rightarrow> Location option) \<Rightarrow> ScheduleProjectionInput list option \<Rightarrow> time \<Rightarrow> ProjectionService \<Rightarrow> bool \<times> ProjectionService" where
  "ProjectionService_Refresh load inputs now s =
     (case inputs of
        None \<Rightarrow> (False, s)
      | Some given \<Rightarrow>
          (case BuildScheduleProjection load given now of
             Inl _ \<Rightarrow> (False, s)
           | Inr report \<Rightarrow> (True, s\<lparr>psv_snapshot := Some report\<rparr>)))"

definition empty_report :: ProjectionReport where
  "empty_report = \<lparr>rep_Available = False, rep_CalculatedAt = 0, rep_WindowStart = 0, rep_WindowEnd = 0, rep_DurationSource = [],
     rep_Segments = [], rep_Conflicts = []\<rparr>"

definition ProjectionService_Snapshot :: "ProjectionService \<Rightarrow> ProjectionReport" where
  "ProjectionService_Snapshot s = (case psv_snapshot s of None \<Rightarrow> empty_report | Some report \<Rightarrow> report)"

end
