(* ===== verification/ProjectionFacts.thy ===== *)
theory ProjectionFacts
  imports Projection CronFacts "HOL-Library.Multiset"
begin

text \<open>
  The conflict report is exact: an occurrence takes part in a reported conflict of a resource if
  and only if its interval overlaps that of another occurrence on the same resource.
\<close>

section \<open>The sweep\<close>

definition active_at :: "time \<Rightarrow> ProjectionOccurrence list \<Rightarrow> ProjectionOccurrence list" where
  "active_at t occs = filter (\<lambda>o'. po_StartAt o' \<le> t \<and> t < po_EndAt o') occs"

definition event_set :: "ProjectionOccurrence list \<Rightarrow> projectionEvent set" where
  "event_set occs = {e. pe_occurrence e \<in> set occs
     \<and> pe_at e = (if pe_start e then po_StartAt (pe_occurrence e) else po_EndAt (pe_occurrence e))}"

definition flagged :: "ProjectionConflict list \<Rightarrow> ProjectionOccurrence set" where
  "flagged cs = (\<Union>c \<in> set cs. set (pc_Occurrences c))"

text \<open>Occurrences with different identifiers and intervals that are not empty.\<close>

definition proper :: "ProjectionOccurrence list \<Rightarrow> bool" where
  "proper occs \<longleftrightarrow> distinct (map po_ID occs) \<and> (\<forall>o' \<in> set occs. po_StartAt o' < po_EndAt o')"

lemma flagged_simps [simp]:
  "flagged [] = {}" "flagged (cs @ ds) = flagged cs \<union> flagged ds" "flagged (c # cs) = set (pc_Occurrences c) \<union> flagged cs"
  by (auto simp: flagged_def)

lemma set_projectionEvents: "set (projectionEvents occs) = event_set occs"
proof
  show "set (projectionEvents occs) \<subseteq> event_set occs" by (auto simp: projectionEvents_def event_set_def)
  show "event_set occs \<subseteq> set (projectionEvents occs)"
  proof
    fix e assume e: "e \<in> event_set occs"
    then show "e \<in> set (projectionEvents occs)"
      by (cases e; cases "pe_start e") (auto simp: projectionEvents_def event_set_def intro!: bexI [of _ "pe_occurrence e"])
  qed
qed

lemma sorted_projectionEvents: "sorted (map pe_at (projectionEvents occs))"
proof -
  have "sorted (map (\<lambda>e. (pe_at e, pe_start e, po_ID (pe_occurrence e))) (projectionEvents occs))"
    unfolding projectionEvents_def by (rule sorted_sort_key)
  then show ?thesis by (auto simp: sorted_wrt_map elim!: sorted_wrt_mono_rel [rotated])
qed

text \<open>The active map holds the occurrences that cover an instant.\<close>

definition covers :: "ProjectionOccurrence list \<Rightarrow> time \<Rightarrow> (string, ProjectionOccurrence) gomap \<Rightarrow> bool" where
  "covers occs t m \<longleftrightarrow> distinct (map fst m)
     \<and> (\<forall>k o'. map_of m k = Some o' \<longleftrightarrow> o' \<in> set (active_at t occs) \<and> po_ID o' = k)"

lemma map_of_deletes: "map_of (fold (\<lambda>e m. AList.delete (f e) m) es m) k = (if k \<in> f ` set es then None else map_of m k)"
  by (induction es arbitrary: m) (auto simp: delete_conv')

lemma distinct_deletes: "distinct (map fst m) \<Longrightarrow> distinct (map fst (fold (\<lambda>e m. AList.delete (f e) m) es m))"
  by (induction es arbitrary: m) (auto simp: distinct_delete)

lemma distinct_updates: "distinct (map fst m) \<Longrightarrow> distinct (map fst (fold (\<lambda>e m. AList.update (f e) (g e) m) es m))"
  by (induction es arbitrary: m) (auto simp: distinct_update)

lemma map_of_updates:
  assumes "\<And>e e'. e \<in> set es \<Longrightarrow> e' \<in> set es \<Longrightarrow> f e = f e' \<Longrightarrow> g e = g e'"
  shows "map_of (fold (\<lambda>e m. AList.update (f e) (g e) m) es m) k = Some v
     \<longleftrightarrow> (\<exists>e \<in> set es. f e = k \<and> g e = v) \<or> (k \<notin> f ` set es \<and> map_of m k = Some v)"
  using assms
proof (induction es arbitrary: m)
  case (Cons e es)
  have ih: "map_of (fold (\<lambda>e m. AList.update (f e) (g e) m) es (AList.update (f e) (g e) m)) k = Some v
     \<longleftrightarrow> (\<exists>e' \<in> set es. f e' = k \<and> g e' = v) \<or> (k \<notin> f ` set es \<and> map_of (AList.update (f e) (g e) m) k = Some v)"
    using Cons.IH Cons.prems by simp
  show ?case
  proof (cases "k = f e")
    case True
    have "\<exists>e' \<in> set es. f e' = k \<and> g e' = v" if "k \<in> f ` set es" "g e = v"
    proof -
      from that(1) obtain e' where "e' \<in> set es" "f e' = k" by auto
      then show ?thesis using Cons.prems [of e' e] True that(2) by auto
    qed
    then show ?thesis using ih True by (auto simp: update_conv')
  next
    case False
    then show ?thesis using ih by (auto simp: update_conv')
  qed
qed simp

lemma covers_update:
  assumes "proper occs" "covers occs t0 m" "t0 < t"
    and between: "\<forall>e \<in> event_set occs. \<not> (t0 < pe_at e \<and> pe_at e < t)"
    and batch: "set batch = {e \<in> event_set occs. pe_at e = t}"
  shows "covers occs t (updateActiveOccurrences batch m)"
proof -
  let ?ends = "filter (\<lambda>e. \<not> pe_start e) batch" and ?starts = "filter pe_start batch"
  let ?f = "\<lambda>e. po_ID (pe_occurrence e)"
  have uniq: "a = b" if "a \<in> set occs" "b \<in> set occs" "po_ID a = po_ID b" for a b
    using distinct_map_eq_key [of po_ID occs a b] assms(1) that by (simp add: proper_def)
  have occ: "pe_occurrence e \<in> set occs" if "e \<in> set batch" for e using that batch by (simp add: event_set_def)
  have start_ev: "(\<exists>e \<in> set ?starts. ?f e = k \<and> pe_occurrence e = o') \<longleftrightarrow> o' \<in> set occs \<and> po_StartAt o' = t \<and> po_ID o' = k" for k o'
  proof
    assume "o' \<in> set occs \<and> po_StartAt o' = t \<and> po_ID o' = k"
    then show "\<exists>e \<in> set ?starts. ?f e = k \<and> pe_occurrence e = o'"
      using batch by (intro bexI [of _ "\<lparr>pe_at = t, pe_start = True, pe_occurrence = o'\<rparr>"]) (auto simp: event_set_def)
  qed (use batch in \<open>auto simp: event_set_def\<close>)
  have end_ev: "k \<in> ?f ` set ?ends \<longleftrightarrow> (\<exists>o' \<in> set occs. po_EndAt o' = t \<and> po_ID o' = k)" for k
  proof
    assume "\<exists>o' \<in> set occs. po_EndAt o' = t \<and> po_ID o' = k"
    then obtain o' where "o' \<in> set occs" "po_EndAt o' = t" "po_ID o' = k" by blast
    then show "k \<in> ?f ` set ?ends"
      using batch by (intro image_eqI [of _ _ "\<lparr>pe_at = t, pe_start = False, pe_occurrence = o'\<rparr>"]) (auto simp: event_set_def)
  qed (use batch in \<open>auto simp: event_set_def\<close>)
  have upd: "map_of (updateActiveOccurrences batch m) k = Some o' \<longleftrightarrow>
      (\<exists>e \<in> set ?starts. ?f e = k \<and> pe_occurrence e = o')
      \<or> (k \<notin> ?f ` set ?starts \<and> k \<notin> ?f ` set ?ends \<and> map_of m k = Some o')" for k o'
    unfolding updateActiveOccurrences_def
    using map_of_updates [of ?starts ?f pe_occurrence "fold (\<lambda>e m. AList.delete (?f e) m) ?ends m" k o']
      occ uniq by (auto simp: map_of_deletes)
  have "map_of (updateActiveOccurrences batch m) k = Some o' \<longleftrightarrow> o' \<in> set (active_at t occs) \<and> po_ID o' = k" for k o'
  proof -
    have bounds: "po_StartAt o' \<le> t0 \<or> t \<le> po_StartAt o'" "po_EndAt o' \<le> t0 \<or> t \<le> po_EndAt o'" "po_StartAt o' < po_EndAt o'" if "o' \<in> set occs"
      using between [rule_format, of "\<lparr>pe_at = po_StartAt o', pe_start = True, pe_occurrence = o'\<rparr>"]
        between [rule_format, of "\<lparr>pe_at = po_EndAt o', pe_start = False, pe_occurrence = o'\<rparr>"] that assms(1)
      by (auto simp: event_set_def proper_def)
    have starts: "k \<in> ?f ` set ?starts \<longleftrightarrow> (\<exists>a \<in> set occs. po_StartAt a = t \<and> po_ID a = k)"
    proof -
      have "k \<in> ?f ` set ?starts \<longleftrightarrow> (\<exists>a. \<exists>e \<in> set ?starts. ?f e = k \<and> pe_occurrence e = a)" by auto
      then show ?thesis unfolding start_ev by blast
    qed
    have old: "map_of m k = Some o' \<longleftrightarrow> o' \<in> set occs \<and> po_StartAt o' \<le> t0 \<and> t0 < po_EndAt o' \<and> po_ID o' = k"
      using assms(2) by (auto simp: covers_def active_at_def)
    have "o' \<in> set occs \<and> po_StartAt o' = t \<and> po_ID o' = k
        \<or> (\<not> (\<exists>a \<in> set occs. po_StartAt a = t \<and> po_ID a = k) \<and> \<not> (\<exists>a \<in> set occs. po_EndAt a = t \<and> po_ID a = k)
           \<and> o' \<in> set occs \<and> po_StartAt o' \<le> t0 \<and> t0 < po_EndAt o' \<and> po_ID o' = k)
        \<longleftrightarrow> o' \<in> set occs \<and> po_StartAt o' \<le> t \<and> t < po_EndAt o' \<and> po_ID o' = k" (is "?L \<longleftrightarrow> ?R")
    proof
      assume ?L
      then have o: "o' \<in> set occs" "po_ID o' = k" by auto
      then show ?R using \<open>?L\<close> bounds assms(3) by auto
    next
      assume ?R
      then have o: "o' \<in> set occs" "po_ID o' = k" by auto
      then have "a = o'" if "a \<in> set occs" "po_ID a = k" for a using uniq that by blast
      then show ?L using \<open>?R\<close> bounds assms(3) by fastforce
    qed
    then show ?thesis unfolding upd start_ev starts end_ev old by (simp add: active_at_def)
  qed
  moreover have "distinct (map fst (updateActiveOccurrences batch m))"
    unfolding updateActiveOccurrences_def using assms(2) by (intro distinct_updates distinct_deletes) (simp add: covers_def)
  ultimately show ?thesis by (simp add: covers_def)
qed

lemma covers_values:
  assumes "proper occs" "covers occs t m"
  shows "set (map snd m) = set (active_at t occs)" "length m = length (active_at t occs)"
proof -
  have entry: "(k, o') \<in> set m \<longleftrightarrow> o' \<in> set (active_at t occs) \<and> po_ID o' = k" for k o'
    using assms(2) map_of_eq_Some_iff [of m k o'] by (auto simp: covers_def)
  show "set (map snd m) = set (active_at t occs)"
  proof
    show "set (map snd m) \<subseteq> set (active_at t occs)" using entry by auto
    show "set (active_at t occs) \<subseteq> set (map snd m)"
    proof
      fix o' assume "o' \<in> set (active_at t occs)"
      then have "(po_ID o', o') \<in> set m" by (simp add: entry)
      then have "snd (po_ID o', o') \<in> set (map snd m)" unfolding set_map by (rule imageI)
      then show "o' \<in> set (map snd m)" by simp
    qed
  qed
  have "set m = (\<lambda>o'. (po_ID o', o')) ` set (active_at t occs)"
  proof
    show "set m \<subseteq> (\<lambda>o'. (po_ID o', o')) ` set (active_at t occs)" using entry by auto
    show "(\<lambda>o'. (po_ID o', o')) ` set (active_at t occs) \<subseteq> set m" using entry by auto
  qed
  then have "card (set m) = card (set (active_at t occs))" by (simp add: card_image inj_on_def)
  moreover have "distinct m" using assms(2) by (simp add: covers_def distinct_map)
  moreover have "distinct (active_at t occs)" using assms(1) by (auto simp: active_at_def proper_def distinct_map)
  ultimately show "length m = length (active_at t occs)" by (simp add: distinct_card)
qed

lemma add_active_set:
  assumes "proper occs" "set (pc_Occurrences c) \<subseteq> set occs" "set (map snd m) \<subseteq> set occs"
  shows "set (pc_Occurrences (addActiveOccurrences m c)) = set (pc_Occurrences c) \<union> set (map snd m)"
proof -
  have "o' \<in> set (pc_Occurrences c)" if "o' \<in> set (map snd m)" "po_ID o' \<in> po_ID ` set (pc_Occurrences c)" for o'
  proof -
    from that(2) obtain b where b: "b \<in> set (pc_Occurrences c)" "po_ID b = po_ID o'" by auto
    then have "b = o'" using distinct_map_eq_key [of po_ID occs b o'] assms that(1) by (auto simp: proper_def)
    then show ?thesis using b by simp
  qed
  then show ?thesis by (auto simp: addActiveOccurrences_def)
qed

text \<open>The instants at which the sweep finds a collision.\<close>

definition collisions :: "ProjectionOccurrence list \<Rightarrow> time set \<Rightarrow> ProjectionOccurrence set" where
  "collisions occs T = {o'. \<exists>t \<in> T. 2 \<le> length (active_at t occs) \<and> o' \<in> set (active_at t occs)}"

lemma collisions_Un: "collisions occs (A \<union> B) = collisions occs A \<union> collisions occs B"
  by (auto simp: collisions_def)

lemma collisions_one:
  "collisions occs {t} = (if 2 \<le> length (active_at t occs) then set (active_at t occs) else {})"
  by (auto simp: collisions_def)

lemma sweep_batch:
  assumes "sorted (map pe_at (e # es))" "set (e # es) = {x \<in> event_set occs. t0 < pe_at x}"
  defines "batch \<equiv> e # takeWhile (\<lambda>x. pe_at x = pe_at e) es" and "rest \<equiv> dropWhile (\<lambda>x. pe_at x = pe_at e) es"
  shows "set batch = {x \<in> event_set occs. pe_at x = pe_at e}" "set rest = {x \<in> event_set occs. pe_at e < pe_at x}"
    and "sorted (map pe_at rest)" "t0 < pe_at e" "\<forall>x \<in> event_set occs. \<not> (t0 < pe_at x \<and> pe_at x < pe_at e)"
proof -
  have split: "es = takeWhile (\<lambda>x. pe_at x = pe_at e) es @ rest" by (simp add: rest_def)
  have ge: "pe_at e \<le> pe_at x" if "x \<in> set es" for x using assms(1) that by auto
  have "sorted (map pe_at (takeWhile (\<lambda>x. pe_at x = pe_at e) es @ rest))" using assms(1) split by simp
  then show sorted_rest: "sorted (map pe_at rest)" by (simp add: sorted_append)
  have gt: "pe_at e < pe_at x" if x: "x \<in> set rest" for x
  proof (cases rest)
    case (Cons y ys)
    have "pe_at y \<noteq> pe_at e" using Cons by (simp add: rest_def dropWhile_eq_Cons_conv)
    moreover have "pe_at e \<le> pe_at y" using ge [of y] Cons split by (metis Un_iff list.set_intros(1) set_append)
    moreover have "pe_at y \<le> pe_at x" using sorted_rest Cons x by auto
    ultimately show ?thesis by simp
  qed (use x in simp)
  show t0: "t0 < pe_at e" using assms(2) by auto
  have all: "x \<in> set (e # es) \<longleftrightarrow> x \<in> event_set occs \<and> t0 < pe_at x" for x using assms(2) by auto
  have parts: "x \<in> set (e # es) \<longleftrightarrow> x \<in> set batch \<or> x \<in> set rest" for x using split unfolding batch_def by (metis Un_iff set_ConsD set_append list.set_intros)
  have eq: "pe_at x = pe_at e" if "x \<in> set batch" for x using that by (auto simp: batch_def dest: set_takeWhileD)
  have later: "t0 < pe_at x" if "pe_at e \<le> pe_at x" for x using t0 that by linarith
  show "set batch = {x \<in> event_set occs. pe_at x = pe_at e}"
  proof (intro set_eqI iffI)
    fix x assume "x \<in> {x \<in> event_set occs. pe_at x = pe_at e}"
    then have "x \<in> set batch \<or> x \<in> set rest" "pe_at x = pe_at e" using all [of x] parts [of x] later [of x] by auto
    then show "x \<in> set batch" using gt [of x] by auto
  qed (use all parts eq in blast)
  show "set rest = {x \<in> event_set occs. pe_at e < pe_at x}"
  proof (intro set_eqI iffI)
    fix x assume "x \<in> {x \<in> event_set occs. pe_at e < pe_at x}"
    then have "x \<in> set batch \<or> x \<in> set rest" "pe_at e < pe_at x" using all [of x] parts [of x] later [of x] by auto
    then show "x \<in> set rest" using eq [of x] by auto
  qed (use all parts gt in blast)
  show "\<forall>x \<in> event_set occs. \<not> (t0 < pe_at x \<and> pe_at x < pe_at e)" using all ge by force
qed

lemma sweep_flags:
  assumes "proper occs" "covers occs t0 m" "sorted (map pe_at es)" "set es = {x \<in> event_set occs. t0 < pe_at x}"
    and "flagged (opt_list current) \<subseteq> set occs" "es = [] \<longrightarrow> current = None"
  shows "flagged (sweep rid name es m current result) = flagged result \<union> flagged (opt_list current) \<union> collisions occs (pe_at ` set es)"
  using assms(2-6)
proof (induction rid name es m current result arbitrary: t0 rule: sweep.induct)
  case (1 rid name m current result)
  then show ?case by (simp add: collisions_def opt_list_def)
next
  case (2 rid name e es m current result)
  let ?batch = "e # takeWhile (\<lambda>x. pe_at x = pe_at e) es" and ?rest = "dropWhile (\<lambda>x. pe_at x = pe_at e) es"
  let ?m1 = "updateActiveOccurrences ?batch m" and ?t = "pe_at e"
  note b = sweep_batch [OF "2.prems"(2,3)]
  have c1: "covers occs ?t ?m1" by (rule covers_update [OF assms(1) "2.prems"(1) b(4,5,1)])
  note values1 = covers_values [OF assms(1) c1]
  have later: "?t < pe_at (hd ?rest)" if "?rest \<noteq> []" using b(2) hd_in_set [OF that] by auto
  have none: "active_at ?t occs = []" if "?rest = []"
  proof -
    have "po_EndAt o' \<le> ?t" if "o' \<in> set occs" for o'
      using b(2) \<open>?rest = []\<close> that by (force simp: event_set_def dest: spec [of _ "\<lparr>pe_at = po_EndAt o', pe_start = False, pe_occurrence = o'\<rparr>"])
    then have "\<not> (po_StartAt o' \<le> ?t \<and> ?t < po_EndAt o')" if "o' \<in> set occs" for o' using that not_le by blast
    then show ?thesis by (simp add: active_at_def filter_empty_conv)
  qed
  have times: "collisions occs (pe_at ` set (e # es)) = collisions occs {?t} \<union> collisions occs (pe_at ` set ?rest)"
  proof -
    have "set es = set (takeWhile (\<lambda>x. pe_at x = ?t) es) \<union> set ?rest" by (metis set_append takeWhile_dropWhile_id)
    moreover have "pe_at ` set (takeWhile (\<lambda>x. pe_at x = ?t) es) \<subseteq> {?t}" by (auto dest: set_takeWhileD)
    ultimately have "pe_at ` set (e # es) = {?t} \<union> pe_at ` set ?rest" by auto
    then show ?thesis by (simp only: collisions_Un)
  qed
  show ?case
  proof (cases "?rest = [] \<or> \<not> pe_at (hd ?rest) > ?t \<or> length ?m1 < 2")
    case True
    have "collisions occs {?t} = {}"
      using True later none values1(2) by (cases "?rest = []") (auto simp: collisions_one)
    moreover have "flagged (sweep rid name ?rest ?m1 None (result @ opt_list current))
        = flagged (result @ opt_list current) \<union> flagged (opt_list None) \<union> collisions occs (pe_at ` set ?rest)"
      by (rule "2.IH"(1) [OF refl refl refl True c1 b(3,2)]) (simp_all add: opt_list_def)
    ultimately show ?thesis unfolding times using True by (simp add: Let_def opt_list_def)
  next
    case False
    define c where "c = (case current of None \<Rightarrow> new_conflict rid name ?t | Some c \<Rightarrow> c)"
    define x where "x = addActiveOccurrences ?m1 (c\<lparr>pc_EndAt := pe_at (hd ?rest)\<rparr>)"
    have old: "set (pc_Occurrences c) = flagged (opt_list current)"
      by (cases current) (simp_all add: c_def opt_list_def new_conflict_def)
    have vals: "set (map snd ?m1) \<subseteq> set occs" unfolding values1(1) by (auto simp: active_at_def)
    have x: "flagged (opt_list (Some x)) = flagged (opt_list current) \<union> set (active_at ?t occs)"
      using add_active_set [of occs "c\<lparr>pc_EndAt := pe_at (hd ?rest)\<rparr>" ?m1] assms(1) "2.prems"(4) old vals values1(1)
      by (simp add: x_def opt_list_def)
    have "flagged (sweep rid name ?rest ?m1 (Some x) result)
        = flagged result \<union> flagged (opt_list (Some x)) \<union> collisions occs (pe_at ` set ?rest)"
    proof (rule "2.IH"(2) [OF refl refl refl False c_def x_def c1 b(3,2)])
      show "flagged (opt_list (Some x)) \<subseteq> set occs" unfolding x using "2.prems"(4) vals values1(1) by auto
    qed (use False in simp)
    moreover have "collisions occs {?t} = set (active_at ?t occs)" using False values1(2) by (simp add: collisions_one)
    moreover have "sweep rid name (e # es) m current result = sweep rid name ?rest ?m1 (Some x) result"
      by (simp only: sweep.simps Let_def False if_False c_def x_def)
    ultimately show ?thesis unfolding times x by auto
  qed
qed

lemma two_elements: "distinct xs \<Longrightarrow> a \<in> set xs \<Longrightarrow> 2 \<le> length xs \<longleftrightarrow> (\<exists>b \<in> set xs. b \<noteq> a)"
proof -
  assume d: "distinct xs" "a \<in> set xs"
  have "length xs = card (set xs)" using distinct_card [OF d(1)] by simp
  also have "\<dots> = Suc (card (set xs - {a}))" by (rule card.remove [OF finite_set d(2)])
  finally have "2 \<le> length xs \<longleftrightarrow> set xs - {a} \<noteq> {}" by (auto simp: card_eq_0_iff Suc_le_eq card_gt_0_iff)
  then show "2 \<le> length xs \<longleftrightarrow> (\<exists>b \<in> set xs. b \<noteq> a)" by blast
qed

text \<open>Two occurrences overlap when each starts before the other ends.\<close>

definition overlap :: "ProjectionOccurrence \<Rightarrow> ProjectionOccurrence \<Rightarrow> bool" where
  "overlap a b \<longleftrightarrow> po_StartAt a < po_EndAt b \<and> po_StartAt b < po_EndAt a"

lemma conflicts_flagged:
  assumes "proper occs"
  shows "flagged (conflictsForResource rid occs name) = {a \<in> set occs. \<exists>b \<in> set occs. b \<noteq> a \<and> overlap a b}"
proof -
  obtain t0 where t0: "\<forall>e \<in> event_set occs. t0 < pe_at e"
  proof -
    have fin: "finite (pe_at ` event_set occs)" using set_projectionEvents [of occs] by (metis finite_imageI finite_set)
    have "Min (insert 0 (pe_at ` event_set occs)) - 1 < pe_at e" if "e \<in> event_set occs" for e
    proof -
      have "Min (insert 0 (pe_at ` event_set occs)) \<le> pe_at e" using fin \<open>e \<in> event_set occs\<close> by (intro Min_le) auto
      then show ?thesis by linarith
    qed
    then show thesis by (intro that) blast
  qed
  have "active_at t0 occs = []"
    using t0 by (force simp: active_at_def filter_empty_conv event_set_def dest: spec [of _ "\<lparr>pe_at = po_StartAt _, pe_start = True, pe_occurrence = _\<rparr>"])
  then have "covers occs t0 []" by (simp add: covers_def)
  then have sw: "flagged (conflictsForResource rid occs name) = collisions occs (pe_at ` event_set occs)"
    unfolding conflictsForResource_def
    using sweep_flags [OF assms, of t0 "[]" "projectionEvents occs" None rid name "[]"] t0 sorted_projectionEvents
    by (auto simp: set_projectionEvents opt_list_def)
  have dist: "distinct (active_at t occs)" for t using assms by (auto simp: active_at_def proper_def distinct_map)
  show ?thesis unfolding sw
  proof (intro set_eqI iffI)
    fix a assume "a \<in> collisions occs (pe_at ` event_set occs)"
    then obtain t where t: "2 \<le> length (active_at t occs)" "a \<in> set (active_at t occs)" by (auto simp: collisions_def)
    then obtain b where "b \<in> set (active_at t occs)" "b \<noteq> a" using two_elements [OF dist] by blast
    then show "a \<in> {a \<in> set occs. \<exists>b \<in> set occs. b \<noteq> a \<and> overlap a b}" using t(2) by (force simp: active_at_def overlap_def)
  next
    fix a assume "a \<in> {a \<in> set occs. \<exists>b \<in> set occs. b \<noteq> a \<and> overlap a b}"
    then obtain b where ab: "a \<in> set occs" "b \<in> set occs" "b \<noteq> a" "overlap a b" by blast
    let ?t = "max (po_StartAt a) (po_StartAt b)"
    have proper: "po_StartAt a < po_EndAt a" "po_StartAt b < po_EndAt b" using assms ab by (auto simp: proper_def)
    then have act: "a \<in> set (active_at ?t occs)" "b \<in> set (active_at ?t occs)" using ab by (auto simp: active_at_def overlap_def)
    have "?t \<in> pe_at ` event_set occs"
    proof (cases "po_StartAt a \<le> po_StartAt b")
      case True
      then show ?thesis using ab(2) by (intro image_eqI [of _ _ "\<lparr>pe_at = po_StartAt b, pe_start = True, pe_occurrence = b\<rparr>"]) (auto simp: event_set_def)
    next
      case False
      then show ?thesis using ab(1) by (intro image_eqI [of _ _ "\<lparr>pe_at = po_StartAt a, pe_start = True, pe_occurrence = a\<rparr>"]) (auto simp: event_set_def)
    qed
    then show "a \<in> collisions occs (pe_at ` event_set occs)"
      using act ab(3) two_elements [OF dist act(1)] by (auto simp: collisions_def)
  qed
qed

section \<open>The windows of the schedules\<close>

definition resource_ids :: "projectionWindow \<Rightarrow> string set" where
  "resource_ids w = prs_ID ` set (pw_resources w)"

definition proper_window :: "projectionWindow \<Rightarrow> bool" where
  "proper_window w \<longleftrightarrow> po_StartAt (pw_occurrence w) < po_EndAt (pw_occurrence w) \<and> distinct (map prs_ID (pw_resources w))"

lemma exclusive_loop_distinct:
  "distinct (map prs_ID (exclusive_loop rs seen)) \<and> prs_ID ` set (exclusive_loop rs seen) \<inter> set seen = {}"
proof (induction rs seen rule: exclusive_loop.induct)
  case (2 resource rs seen)
  then show ?case by (auto split: if_splits)
qed simp

lemma distinct_exclusiveResources: "distinct (map prs_ID (exclusiveResources rs))"
  using exclusive_loop_distinct [of rs "[]"] by (simp add: exclusiveResources_def distinct_map)

lemma project_from_windows:
  "project_from load input rs until cursor = Inr ws \<Longrightarrow> w \<in> set ws \<Longrightarrow>
     po_StartAt (pw_occurrence w) < po_EndAt (pw_occurrence w) \<and> pw_resources w = rs \<and> cursor < po_StartAt (pw_occurrence w)
     \<and> po_StartAt (pw_occurrence w) < until"
proof (induction load input rs until cursor arbitrary: ws rule: project_from.induct)
  case (1 load input rs until cursor)
  from "1.prems" have c: "cursor < until" by (subst (asm) (1) project_from.simps) (auto split: if_splits)
  obtain nxt where n: "NextFire load (spi_Expression input) (spi_Timezone input) cursor = Inr nxt"
    using "1.prems" c by (subst (asm) (1) project_from.simps) (auto split: sum.splits)
  define finish where "finish = nxt + wrap64 (spi_DurationSeconds input * second)"
  have ok: "cursor < nxt" "nxt < until" "nxt < finish"
    and res: "res_bind (project_from load input rs until nxt)
        (\<lambda>rest. Inr (\<lparr>pw_occurrence = projected_occurrence input nxt finish, pw_resources = rs\<rparr> # rest)) = Inr ws"
    using "1.prems" c n by (subst (asm) (1) project_from.simps, auto simp: Let_def finish_def split: if_splits)+
  from res obtain rest where rest: "project_from load input rs until nxt = Inr rest"
    "ws = \<lparr>pw_occurrence = projected_occurrence input nxt finish, pw_resources = rs\<rparr> # rest" by (auto simp: res_bind_Inr)
  show ?case
  proof (cases "w \<in> set rest")
    case True
    have "po_StartAt (pw_occurrence w) < po_EndAt (pw_occurrence w) \<and> pw_resources w = rs \<and> nxt < po_StartAt (pw_occurrence w)
        \<and> po_StartAt (pw_occurrence w) < until"
      by (rule "1.IH" [OF _ n _ _ finish_def _ rest(1) True]) (use c ok in auto)
    then show ?thesis using ok(1) by auto
  next
    case False
    then show ?thesis using "1.prems"(2) rest(2) ok by (auto simp: projected_occurrence_def)
  qed
qed

lemma project_all_windows: "project_all load start until inputs = Inr ws \<Longrightarrow> w \<in> set ws \<Longrightarrow> proper_window w"
proof (induction inputs arbitrary: ws)
  case (Cons input inputs)
  then obtain ws1 ws2 where ws: "projectScheduleInput load input start until = Inr ws1" "project_all load start until inputs = Inr ws2" "ws = ws1 @ ws2"
    by (auto simp: res_bind_Inr)
  show ?case
  proof (cases "w \<in> set ws2")
    case False
    then have "w \<in> set ws1" using Cons.prems(2) ws(3) by simp
    moreover have "project_from load input (exclusiveResources (spi_Resources input)) until start = Inr ws1"
      using ws(1) by (simp add: projectScheduleInput_def split: if_splits)
    ultimately show ?thesis using project_from_windows distinct_exclusiveResources by (metis proper_window_def)
  qed (use Cons.IH ws(2) in blast)
qed simp

section \<open>Grouping by resource\<close>

lemma add_window_get:
  assumes "distinct (map prs_ID rs)"
  shows "get_or [] (fst (fold (\<lambda>r (b, n). (AList.update (prs_ID r) (get_or [] b (prs_ID r) @ [x]) b, AList.update (prs_ID r) (prs_Name r) n)) rs (b, n))) rid
    = get_or [] b rid @ (if rid \<in> prs_ID ` set rs then [x] else [])"
  using assms by (induction rs arbitrary: b n) auto

lemma add_window_keys:
  "distinct (map fst b) \<Longrightarrow>
     distinct (map fst (fst (fold (\<lambda>r (b, n). (AList.update (prs_ID r) (get_or [] b (prs_ID r) @ [x]) b, AList.update (prs_ID r) (prs_Name r) n)) rs (b, n))))"
  by (induction rs arbitrary: b n) (auto simp: distinct_update)

lemma windows_get:
  assumes "\<forall>w \<in> set ws. proper_window w"
  shows "get_or [] (fst (fold add_window ws maps)) rid
    = get_or [] (fst maps) rid @ map pw_occurrence (filter (\<lambda>w. rid \<in> resource_ids w) ws)"
  using assms
proof (induction ws arbitrary: maps)
  case (Cons w ws)
  have "get_or [] (fst (add_window w maps)) rid = get_or [] (fst maps) rid @ (if rid \<in> resource_ids w then [pw_occurrence w] else [])"
    using Cons.prems add_window_get [of "pw_resources w" "pw_occurrence w" "fst maps" "snd maps" rid]
    by (simp add: add_window_def resource_ids_def proper_window_def)
  then show ?case using Cons by simp
qed simp

lemma windows_keys: "distinct (map fst (fst maps)) \<Longrightarrow> distinct (map fst (fst (fold add_window ws maps)))"
proof (induction ws arbitrary: maps)
  case (Cons w ws)
  have "distinct (map fst (fst (add_window w maps)))"
    using add_window_keys [OF Cons.prems, of "pw_occurrence w" "pw_resources w" "snd maps"] by (simp add: add_window_def)
  then show ?case using Cons.IH by simp
qed simp

lemma get_or_entry: "distinct (map fst m) \<Longrightarrow> (k, v) \<in> set m \<Longrightarrow> get_or d m k = v"
  by (simp add: get_or_def)

lemma get_or_entries: "x \<in> set (get_or [] m k) \<Longrightarrow> \<exists>v. (k, v) \<in> set m \<and> x \<in> set v"
  by (cases "map_of m k") (auto simp: get_or_def dest: map_of_SomeD)

lemma report_flagged:
  assumes "\<forall>w \<in> set ws. proper_window w" "distinct (map (po_ID \<circ> pw_occurrence) ws)"
  defines "maps \<equiv> fold add_window ws ([], [])"
  shows "flagged (projectionConflicts (fst maps) (snd maps))
    = {a. \<exists>w \<in> set ws. \<exists>w' \<in> set ws. a = pw_occurrence w \<and> pw_occurrence w' \<noteq> a \<and> resource_ids w \<inter> resource_ids w' \<noteq> {}
          \<and> overlap a (pw_occurrence w')}"
proof -
  let ?on = "\<lambda>rid. map pw_occurrence (filter (\<lambda>w. rid \<in> resource_ids w) ws)"
  have get: "get_or [] (fst maps) rid = ?on rid" for rid
    using windows_get [OF assms(1), of "([], [])" rid] by (simp add: maps_def get_or_def)
  have keys: "distinct (map fst (fst maps))" unfolding maps_def by (rule windows_keys) simp
  have proper: "proper (?on rid)" for rid
  proof -
    have "distinct (map po_ID (?on rid))" using assms(2) by (simp add: distinct_map_filter comp_assoc [symmetric])
    then show ?thesis using assms(1) by (auto simp: proper_def proper_window_def)
  qed
  have "flagged (projectionConflicts (fst maps) (snd maps))
      = (\<Union>(rid, occs) \<in> set (fst maps). flagged (conflictsForResource rid occs (get_or [] (snd maps) rid)))"
    by (auto simp: projectionConflicts_def flagged_def)
  also have "\<dots> = (\<Union>(rid, occs) \<in> set (fst maps). {a \<in> set (?on rid). \<exists>b \<in> set (?on rid). b \<noteq> a \<and> overlap a b})"
  proof (rule SUP_cong [OF refl])
    fix x assume x: "x \<in> set (fst maps)"
    obtain rid occs where rid: "x = (rid, occs)" by force
    have "occs = ?on rid" using get_or_entry [OF keys, of rid occs "[]"] x rid get by simp
    then show "(case x of (rid, occs) \<Rightarrow> flagged (conflictsForResource rid occs (get_or [] (snd maps) rid)))
        = (case x of (rid, occs) \<Rightarrow> {a \<in> set (?on rid). \<exists>b \<in> set (?on rid). b \<noteq> a \<and> overlap a b})"
      using conflicts_flagged [OF proper] rid by simp
  qed
  also have "\<dots> = (\<Union>rid. {a \<in> set (?on rid). \<exists>b \<in> set (?on rid). b \<noteq> a \<and> overlap a b})"
  proof
    show "(\<Union>rid. {a \<in> set (?on rid). \<exists>b \<in> set (?on rid). b \<noteq> a \<and> overlap a b})
        \<subseteq> (\<Union>(rid, occs) \<in> set (fst maps). {a \<in> set (?on rid). \<exists>b \<in> set (?on rid). b \<noteq> a \<and> overlap a b})"
    proof
      fix a assume "a \<in> (\<Union>rid. {a \<in> set (?on rid). \<exists>b \<in> set (?on rid). b \<noteq> a \<and> overlap a b})"
      then obtain rid where a: "a \<in> {a \<in> set (?on rid). \<exists>b \<in> set (?on rid). b \<noteq> a \<and> overlap a b}" by blast
      then have "a \<in> set (get_or [] (fst maps) rid)" unfolding get by blast
      then obtain occs where "(rid, occs) \<in> set (fst maps)" using get_or_entries by fast
      then show "a \<in> (\<Union>(rid, occs) \<in> set (fst maps). {a \<in> set (?on rid). \<exists>b \<in> set (?on rid). b \<noteq> a \<and> overlap a b})"
        using a by (intro UN_I [of "(rid, occs)"]) simp_all
    qed
  qed blast
  also have "\<dots> = {a. \<exists>w \<in> set ws. \<exists>w' \<in> set ws. a = pw_occurrence w \<and> pw_occurrence w' \<noteq> a \<and> resource_ids w \<inter> resource_ids w' \<noteq> {}
          \<and> overlap a (pw_occurrence w')}" by auto
  finally show ?thesis .
qed

text \<open>With distinct identifiers, the marks by identifier are the marks by occurrence.\<close>

lemma marked_window_iff:
  assumes "\<forall>w \<in> set ws. proper_window w" "distinct (map (po_ID \<circ> pw_occurrence) ws)" "w \<in> set ws"
  shows "po_ID (pw_occurrence w) \<in> po_ID ` flagged (projectionConflicts (fst (fold add_window ws ([], []))) (snd (fold add_window ws ([], []))))
    \<longleftrightarrow> (\<exists>w' \<in> set ws. pw_occurrence w' \<noteq> pw_occurrence w \<and> resource_ids w \<inter> resource_ids w' \<noteq> {}
       \<and> overlap (pw_occurrence w) (pw_occurrence w'))" (is "_ \<in> _ ` ?flagged \<longleftrightarrow> ?other")
proof -
  have fl: "?flagged = {a. \<exists>w \<in> set ws. \<exists>w' \<in> set ws. a = pw_occurrence w \<and> pw_occurrence w' \<noteq> a
       \<and> resource_ids w \<inter> resource_ids w' \<noteq> {} \<and> overlap a (pw_occurrence w')}"
    by (rule report_flagged [OF assms(1,2)])
  have eq: "w1 = w" if "w1 \<in> set ws" "po_ID (pw_occurrence w1) = po_ID (pw_occurrence w)" for w1
    using distinct_map_eq_key [OF assms(2) that(1) assms(3)] that(2) by simp
  show ?thesis
  proof
    assume "po_ID (pw_occurrence w) \<in> po_ID ` ?flagged"
    then obtain a where a: "a \<in> ?flagged" "po_ID a = po_ID (pw_occurrence w)" by auto
    from a(1) obtain w1 w' where w1: "w1 \<in> set ws" "a = pw_occurrence w1" "w' \<in> set ws" "pw_occurrence w' \<noteq> a"
      "resource_ids w1 \<inter> resource_ids w' \<noteq> {}" "overlap a (pw_occurrence w')" unfolding fl by blast
    moreover have "w1 = w" using eq [OF w1(1)] w1(2) a(2) by simp
    ultimately show ?other by blast
  next
    assume ?other
    then show "po_ID (pw_occurrence w) \<in> po_ID ` ?flagged" using assms(3) unfolding fl by blast
  qed
qed

lemma segment_ids:
  assumes "mset segs = mset (map seg ws)" "\<forall>w. ps_Occurrence (seg w) = pw_occurrence w"
  shows "mset (map (po_ID \<circ> ps_Occurrence) segs) = mset (map (po_ID \<circ> pw_occurrence) ws)"
  using arg_cong [OF assms(1), of "image_mset (po_ID \<circ> ps_Occurrence)"] assms(2)
  by (simp add: image_mset.compositionality comp_def)

lemma report_segments:
  assumes "BuildScheduleProjection load inputs now = Inr report"
  obtains ws seg where "project_all load now (now + ProjectionHorizon) inputs = Inr ws" "mset (rep_Segments report) = mset (map seg ws)"
    "\<forall>w. ps_Occurrence (seg w) = pw_occurrence w" "\<forall>w. ps_ExclusiveResources (seg w) = pw_resources w"
    "\<forall>w. ps_Conflicted (seg w) \<longleftrightarrow>
       po_ID (pw_occurrence w) \<in> po_ID ` flagged (projectionConflicts (fst (fold add_window ws ([], []))) (snd (fold add_window ws ([], []))))"
proof -
  obtain ws where ws: "project_all load now (now + ProjectionHorizon) inputs = Inr ws"
    and segs: "rep_Segments report = (let maps = fold add_window ws ([], []); conflicts = projectionConflicts (fst maps) (snd maps)
           in projectionSegments ws (concat (map (\<lambda>c. map po_ID (pc_Occurrences c)) conflicts)))"
    using assms by (auto simp: BuildScheduleProjection_def Let_def res_bind_Inr split: if_splits)
  show ?thesis
    by (rule that [OF ws, of "\<lambda>w. \<lparr>ps_Occurrence = pw_occurrence w, ps_OccurrenceCount = 1,
           ps_Conflicted = (po_ID (pw_occurrence w) \<in> po_ID ` flagged (projectionConflicts (fst (fold add_window ws ([], []))) (snd (fold add_window ws ([], []))))),
           ps_ExclusiveResources = pw_resources w\<rparr>"])
      (simp_all add: segs projectionSegments_def Let_def flagged_def image_UN)
qed

text \<open>
  C15. The projection reports exactly the collisions. In a report whose occurrences have different
  identifiers, a segment is marked as conflicting if and only if another occurrence of the week uses
  one of its exclusive resources in an interval that overlaps its own.
\<close>

theorem projection_conflicts_exact:
  assumes "BuildScheduleProjection load inputs now = Inr report" "distinct (map (po_ID \<circ> ps_Occurrence) (rep_Segments report))"
    and "s \<in> set (rep_Segments report)"
  shows "ps_Conflicted s \<longleftrightarrow>
    (\<exists>s' \<in> set (rep_Segments report). ps_Occurrence s' \<noteq> ps_Occurrence s
       \<and> prs_ID ` set (ps_ExclusiveResources s) \<inter> prs_ID ` set (ps_ExclusiveResources s') \<noteq> {}
       \<and> po_StartAt (ps_Occurrence s) < po_EndAt (ps_Occurrence s') \<and> po_StartAt (ps_Occurrence s') < po_EndAt (ps_Occurrence s))"
proof -
  from report_segments [OF assms(1)] obtain ws seg where ws: "project_all load now (now + ProjectionHorizon) inputs = Inr ws"
    and segs: "mset (rep_Segments report) = mset (map seg ws)"
    and seg: "\<forall>w. ps_Occurrence (seg w) = pw_occurrence w" "\<forall>w. ps_ExclusiveResources (seg w) = pw_resources w"
      "\<forall>w. ps_Conflicted (seg w) \<longleftrightarrow>
         po_ID (pw_occurrence w) \<in> po_ID ` flagged (projectionConflicts (fst (fold add_window ws ([], []))) (snd (fold add_window ws ([], []))))"
    by blast
  have proper: "\<forall>w \<in> set ws. proper_window w" using project_all_windows [OF ws] by blast
  have set_segs: "set (rep_Segments report) = seg ` set ws" using arg_cong [OF segs, of set_mset] by simp
  have dist: "distinct (map (po_ID \<circ> pw_occurrence) ws)" using assms(2) segment_ids [OF segs seg(1)] mset_eq_imp_distinct_iff by blast
  obtain w where w: "w \<in> set ws" "s = seg w" using assms(3) unfolding set_segs by blast
  show ?thesis unfolding set_segs w(2) seg(3) [rule_format] marked_window_iff [OF proper dist w(1)]
    by (simp add: seg(1,2) resource_ids_def overlap_def)
qed

section \<open>A week with one collision\<close>

text \<open>Two schedules that fire on New Year's Day at 00:30 only, on one exclusive resource.\<close>

lemma new_year_fields: "parseCronFields ''30 0 1 1 *'' = Inr ([30], [0], [1], [1], [6, 5, 4, 3, 2, 1, 0])"
  by code_simp

lemma new_year_first: "NextFire load ''30 0 1 1 *'' [] (29 * minute) = Inr (30 * minute)"
  by code_simp

lemma new_year_only:
  assumes "cronMinuteMatches (\<lambda>_. 0) t [30] [0] (cron_calendar [1] [1] [6, 5, 4, 3, 2, 1, 0])" "30 * minute < t" "t mod minute = 0"
  shows "\<not> t < 29 * minute + ProjectionHorizon"
proof
  assume lt: "t < 29 * minute + ProjectionHorizon"
  define n where "n = local_day (\<lambda>_. 0) t"
  have date: "snd (snd (date_of_day n)) = 1" and h: "t_Hour (\<lambda>_. 0) t = 0" "t_Minute (\<lambda>_. 0) t = 30"
    using assms(1) by (auto simp: cronMinuteMatches_def cron_calendar_def cronFieldIsAny_def t_Day_def t_Month_def n_def split: if_splits)
  have n: "n = t div 1000000000 div 86400" by (simp add: n_def local_day_def local_seconds_def)
  have "0 \<le> n" "n \<le> 7" unfolding n using lt assms(2) by (simp_all add: ProjectionHorizon_def)
  then have "n \<in> {0, 1, 2, 3, 4, 5, 6, 7}" by auto
  moreover have "list_all (\<lambda>n. snd (snd (date_of_day n)) \<noteq> 1) [1, 2, 3, 4, 5, 6, 7]" by code_simp
  ultimately have "n = 0" using date by auto
  moreover obtain k where k: "t = k * minute" using assms(3) by (auto simp: mod_eq_0_iff_dvd elim: dvdE)
  then have "t div 1000000000 = k * 60" by simp
  ultimately have "k div 1440 = 0" "k mod 1440 div 60 = 0" "k mod 60 = 30"
    using h n by (simp_all add: t_Hour_def t_Minute_def local_seconds_def div_mult2_eq [symmetric] zdiv_zmult2_eq mod_mult_mult2)
  moreover have "30 < k" using assms(2) k by simp
  ultimately show False by presburger
qed

lemma new_year_second: "\<exists>t. \<not> t < 29 * minute + ProjectionHorizon \<and> NextFire load ''30 0 1 1 *'' [] (30 * minute) = Inr t"
proof -
  let ?m = "\<lambda>c. cronMinuteMatches (\<lambda>_. 0) c [30] [0] (cron_calendar [1] [1] [6, 5, 4, 3, 2, 1, 0])"
  have "?m (30 * minute)" by code_simp
  then obtain k where "k \<ge> 1" "k \<le> cron_window" "?m (truncate_minute (30 * minute) + k * minute)" using match_recurs by blast
  then obtain t where t: "cron_search ?m (truncate_minute (30 * minute)) 1 = Some t" using cron_search_finds [of 1 k ?m] by blast
  have "splitFields ''30 0 1 1 *'' = [''30'', ''0'', ''1'', ''1'', ''*'']" by code_simp
  moreover have c: "cronHasCalendarDate [1] [1]" by code_simp
  ultimately have eq: "NextFire load ''30 0 1 1 *'' [] (30 * minute) = Inr t" using t
    by (simp add: NextFire_def Schedule_Next_def nextCronMinute_def new_year_fields)
  from t obtain j where j: "t = truncate_minute (30 * minute) + j * minute" "1 \<le> j" "?m t"
    unfolding cron_search_Some first_minute_def by blast
  have "\<not> t < 29 * minute + ProjectionHorizon"
    using new_year_only [OF j(3)] candidate_after [OF j(2), of "30 * minute"] j(1) by simp
  then show ?thesis using eq by blast
qed

definition new_year_input :: "string \<Rightarrow> int \<Rightarrow> ScheduleProjectionInput" where
  "new_year_input sid seconds =
     \<lparr>spi_ScheduleID = sid, spi_ScheduleName = [], spi_ScheduleVersionID = ''v1'', spi_TaskID = ''t'', spi_TaskName = [],
      spi_TaskVersionID = ''tv'', spi_Expression = ''30 0 1 1 *'', spi_Timezone = [], spi_RunnerPoolID = ''p'', spi_RunnerPoolName = [],
      spi_PinnedRunnerID = [], spi_PinnedRunnerName = [], spi_DurationSeconds = seconds,
      spi_Resources = [\<lparr>spr_ID = ''r'', spr_Name = ''dock'', spr_Kind = ''Exclusive''\<rparr>]\<rparr>"

definition new_year_window :: "string \<Rightarrow> int \<Rightarrow> projectionWindow" where
  "new_year_window sid seconds =
     \<lparr>pw_occurrence = projected_occurrence (new_year_input sid seconds) (30 * minute) (30 * minute + seconds * second),
      pw_resources = [\<lparr>prs_ID = ''r'', prs_Name = ''dock''\<rparr>]\<rparr>"

lemma new_year_windows:
  assumes "0 < seconds" "seconds < 1000000" "sid \<noteq> []"
  shows "projectScheduleInput load (new_year_input sid seconds) (29 * minute) (29 * minute + ProjectionHorizon) = Inr [new_year_window sid seconds]"
proof -
  obtain t where t: "\<not> t < 29 * minute + ProjectionHorizon" "NextFire load ''30 0 1 1 *'' [] (30 * minute) = Inr t"
    using new_year_second by blast
  have "wrap64 (seconds * second) = seconds * second" using assms by (simp add: wrap64_id in64_def)
  then have last: "project_from load (new_year_input sid seconds) rs (29 * minute + ProjectionHorizon) (30 * minute) = Inr []" for rs
    using t NextFire_after [OF t(2)] by (subst project_from.simps) (simp add: new_year_input_def ProjectionHorizon_def)
  have "exclusiveResources (spi_Resources (new_year_input sid seconds)) = [\<lparr>prs_ID = ''r'', prs_Name = ''dock''\<rparr>]"
    unfolding new_year_input_def ScheduleProjectionInput.simps by code_simp
  moreover have "spi_Expression (new_year_input sid seconds) = ''30 0 1 1 *''" "spi_Timezone (new_year_input sid seconds) = []"
    "spi_DurationSeconds (new_year_input sid seconds) = seconds" "spi_ScheduleID (new_year_input sid seconds) = sid"
    "spi_TaskID (new_year_input sid seconds) \<noteq> []" "spi_TaskVersionID (new_year_input sid seconds) \<noteq> []" by (simp_all add: new_year_input_def)
  ultimately show ?thesis using last assms \<open>wrap64 _ = _\<close>
    unfolding projectScheduleInput_def
    by (subst project_from.simps) (simp add: new_year_first [simplified] new_year_window_def ProjectionHorizon_def)
qed

theorem projection_conflicts_exact_witness:
  "\<exists>report s. BuildScheduleProjection (\<lambda>_. None) [new_year_input ''A'' 60, new_year_input ''B'' 3600] (29 * minute) = Inr report
     \<and> s \<in> set (rep_Segments report) \<and> ps_Conflicted s"
proof -
  let ?ws = "[new_year_window ''A'' 60, new_year_window ''B'' 3600]"
  have ws: "project_all (\<lambda>_. None) (29 * minute) (29 * minute + ProjectionHorizon) [new_year_input ''A'' 60, new_year_input ''B'' 3600] = Inr ?ws"
    by (simp add: new_year_windows [simplified])
  then obtain report where report: "BuildScheduleProjection (\<lambda>_. None) [new_year_input ''A'' 60, new_year_input ''B'' 3600] (29 * minute) = Inr report"
    by (auto simp: BuildScheduleProjection_def Let_def)
  from report_segments [OF report] obtain ws f where "project_all (\<lambda>_. None) (29 * minute) (29 * minute + ProjectionHorizon)
      [new_year_input ''A'' 60, new_year_input ''B'' 3600] = Inr ws" and m: "mset (rep_Segments report) = mset (map f ws)"
    and f: "\<forall>w. ps_Occurrence (f w) = pw_occurrence w" "\<forall>w. ps_ExclusiveResources (f w) = pw_resources w"
      "\<forall>w. ps_Conflicted (f w) \<longleftrightarrow>
         po_ID (pw_occurrence w) \<in> po_ID ` flagged (projectionConflicts (fst (fold add_window ws ([], []))) (snd (fold add_window ws ([], []))))"
    .
  then have "ws = ?ws" using ws by simp
  note m = m [unfolded this]
  have segs: "set (rep_Segments report) = {f (new_year_window ''A'' 60), f (new_year_window ''B'' 3600)}"
    using arg_cong [OF m, of set_mset] by simp
  have ne: "po_ID (pw_occurrence (new_year_window ''A'' 60)) \<noteq> po_ID (pw_occurrence (new_year_window ''B'' 3600))"
    by (simp add: new_year_window_def projected_occurrence_def new_year_input_def)
  have "distinct (map (po_ID \<circ> pw_occurrence) ?ws)" using ne by simp
  then have "distinct (map (po_ID \<circ> ps_Occurrence) (rep_Segments report))" using segment_ids [OF m f(1)] mset_eq_imp_distinct_iff by blast
  then have "ps_Conflicted (f (new_year_window ''A'' 60))"
    using projection_conflicts_exact [OF report, of "f (new_year_window ''A'' 60)"] segs ne
    by (auto simp: f new_year_window_def projected_occurrence_def)
  then show ?thesis using report segs by blast
qed

section \<open>Unresolved references\<close>

text \<open>
  The repository hands the expressions over as they are stored. One schedule whose expression does
  not consist of five fields, a reference to a global variable for instance, makes the whole
  projection fail, although \<open>createDueRun\<close> resolves the reference and fires the schedule.
\<close>

lemma project_all_fails:
  "input \<in> set inputs \<Longrightarrow> projectScheduleInput load input start until = Inl e \<Longrightarrow> \<exists>e. project_all load start until inputs = Inl e"
proof (induction inputs)
  case (Cons i inputs)
  then show ?case
    by (cases "projectScheduleInput load i start until"; cases "project_all load start until inputs") (auto simp: res_bind_def)
qed simp

theorem unresolved_expression_fails_projection:
  assumes "input \<in> set inputs" "length (splitFields (spi_Expression input)) \<noteq> 5"
  shows "\<exists>e. BuildScheduleProjection load inputs now = Inl e"
proof -
  have "\<exists>e. NextFire load (spi_Expression input) (spi_Timezone input) now = Inl e"
    using assms(2) by (auto simp: NextFire_def Schedule_Next_def split: sum.splits)
  then obtain e where "NextFire load (spi_Expression input) (spi_Timezone input) now = Inl e" by blast
  then have "\<exists>e. projectScheduleInput load input now (now + ProjectionHorizon) = Inl e"
    unfolding projectScheduleInput_def by (subst project_from.simps) (auto simp: ProjectionHorizon_def split: sum.splits)
  then have "\<exists>e. project_all load now (now + ProjectionHorizon) inputs = Inl e" using project_all_fails [OF assms(1)] by blast
  then show ?thesis by (auto simp: BuildScheduleProjection_def Let_def res_bind_def split: sum.splits)
qed

lemma reference_has_one_field: "length (splitFields ''$ENV:NIGHTLY'') \<noteq> 5"
  by code_simp

end
