(* ===== verification/Runners.thy ===== *)
theory Runners
  imports RunStore
begin

text \<open>
  The store of runner pools, runners, their sessions, keys, enrollments and metrics
  (\<^verbatim>\<open>store/runners.go\<close>, the samples of \<^verbatim>\<open>store/runner_metrics.go\<close>). Every method is a function from
  the database to an error, which rolls back, or a result with the new database; unique indexes, checks and
  foreign keys of \<^verbatim>\<open>migrations/001_canonical.sql\<close> are errors of the statement that violates them.

  \<open>now\<close> is \<^verbatim>\<open>now()\<close> of the database or the time the caller passes, \<open>unhex\<close> is
  \<^verbatim>\<open>decode(text, 'hex')\<close>, \<open>print\<close> the text of a JSON array or object.
\<close>

datatype runner_error =
    RunnerConstraint | RunnerPoolAmbiguous | RunnerPoolInUse | RunnerPoolHasTaskVersions | RunnerPoolNotFound
  | RunnerCapacitySmall | RunnerHasExecutionHistory | RunnerPinned | RunnerIsArchived | RunnerNotFound | RunnerJSON
  | EnrollmentNotFound | EnrollmentUsed | EnrollmentExpired | EnrollmentKeyIncomplete | EnrollmentKeyBound | EnrollmentDecode
  | HeartbeatKeyIncomplete | HeartbeatKeyNotEnrolled | HeartbeatKeyMismatch | SampleInvalid

type_synonym 'r runner_tx = "db \<Rightarrow> runner_error + 'r \<times> db"

section \<open>Pools\<close>

definition pool_name_conflict :: "string \<Rightarrow> string \<Rightarrow> db \<Rightarrow> bool" where
  "pool_name_conflict ident name d \<longleftrightarrow>
     list_ex (\<lambda>p. rp_id p \<noteq> ident \<and> \<not> rp_is_deleted p \<and> ToLower (rp_name p) = ToLower name) (pools d)"

definition EnsurePool :: "string \<Rightarrow> string \<Rightarrow> unit runner_tx" where
  "EnsurePool ident name d =
     (let description = (if ident = ''default'' then ''Default Runner Pool'' else [])
      in if list_ex (\<lambda>p. rp_id p = ident) (pools d)
         then Inr ((), d\<lparr>pools := sql_update (\<lambda>p. rp_id p = ident)
                            (\<lambda>p. if rp_id p = ''default'' \<and> rp_description p = [] then p\<lparr>rp_description := description\<rparr> else p) (pools d)\<rparr>)
         else if pool_name_conflict ident name d then Inl RunnerConstraint
         else Inr ((), d\<lparr>pools := pools d @ [\<lparr>rp_id = ident, rp_name = name, rp_description = description, rp_enabled = True,
                                              rp_is_deleted = False\<rparr>]\<rparr>))"

definition ListPools :: "db \<Rightarrow> pool_row list" where
  "ListPools d = sort_key (\<lambda>p. (ToLower (rp_name p), rp_id p)) (filter (\<lambda>p. \<not> rp_is_deleted p) (pools d))"

definition FindPool :: "string \<Rightarrow> db \<Rightarrow> pool_row option" where
  "FindPool ident d = find_row (\<lambda>p. rp_id p = ident \<and> \<not> rp_is_deleted p) (pools d)"

definition CreatePool :: "pool_row \<Rightarrow> unit runner_tx" where
  "CreatePool item d =
     (if list_ex (\<lambda>p. rp_id p = rp_id item) (pools d) \<or> pool_name_conflict (rp_id item) (rp_name item) d then Inl RunnerConstraint
      else Inr ((), d\<lparr>pools := pools d @ [item\<lparr>rp_is_deleted := False\<rparr>]\<rparr>))"

definition UpdatePool :: "pool_row \<Rightarrow> pool_row option runner_tx" where
  "UpdatePool item d =
     (if FindPool (rp_id item) d = None then Inr (None, d)
      else if pool_name_conflict (rp_id item) (rp_name item) d then Inl RunnerConstraint
      else (let d' = d\<lparr>pools := sql_update (\<lambda>p. rp_id p = rp_id item \<and> \<not> rp_is_deleted p)
                  (\<lambda>p. p\<lparr>rp_name := rp_name item, rp_description := rp_description item, rp_enabled := rp_enabled item\<rparr>) (pools d)\<rparr>
            in Inr (FindPool (rp_id item) d', d')))"

definition DeletePool :: "string \<Rightarrow> unit runner_tx" where
  "DeletePool ident d =
     (if list_ex (\<lambda>rr. rr_pool_id rr = Some ident \<and> \<not> rr_is_archived rr \<and> \<not> rr_is_deleted rr) (runners d)
      then Inl RunnerPoolInUse
      else if list_ex (\<lambda>tv. tv_runner_pool_id tv = ident
                 \<and> list_ex (\<lambda>t. task_id t = tv_task_id tv \<and> \<not> task_is_deleted t) (tasks d)) (task_versions d)
      then Inl RunnerPoolHasTaskVersions
      else if FindPool ident d = None then Inl RunnerPoolNotFound
      else Inr ((), d\<lparr>pools := sql_update (\<lambda>p. rp_id p = ident \<and> \<not> rp_is_deleted p)
                        (\<lambda>p. p\<lparr>rp_is_deleted := True, rp_enabled := False\<rparr>) (pools d)\<rparr>))"

section \<open>Reading runners\<close>

record RunnerMetricsSample =
  ms_CPUPercent :: rat
  ms_MemoryPercent :: rat
  ms_MemoryUsedBytes :: int
  ms_MemoryTotalBytes :: int

text \<open>The percentages come from JSON numbers, which are neither infinite nor NaN.\<close>

definition sample_validate :: "RunnerMetricsSample \<Rightarrow> bool" where
  "sample_validate sample \<longleftrightarrow>
     0 \<le> ms_CPUPercent sample \<and> ms_CPUPercent sample \<le> 100 \<and> 0 \<le> ms_MemoryPercent sample \<and> ms_MemoryPercent sample \<le> 100
     \<and> 0 \<le> ms_MemoryUsedBytes sample \<and> 0 < ms_MemoryTotalBytes sample"

record RunnerRecord =
  rn_ID :: string
  rn_Name :: string
  rn_PoolID :: string
  rn_Pool :: string
  rn_DesiredState :: string
  rn_ObservedState :: string
  rn_NATSEndpoint :: string
  rn_ControlPlaneURL :: string
  rn_Capacity :: nat
  rn_CurrentCapacity :: int
  rn_ActiveCount :: nat
  rn_HeartbeatAt :: "time option"
  rn_Platform :: string
  rn_Architecture :: string
  rn_IsArchived :: bool
  rn_IsDeleted :: bool
  rn_CurrentMetrics :: "metric_row option"

text \<open>\<^verbatim>\<open>COALESCE(column->>'key', '')\<close>\<close>

definition json_text :: "(json \<Rightarrow> string) \<Rightarrow> json \<Rightarrow> string \<Rightarrow> string" where
  "json_text print column key =
     (case column of
        JObject entries \<Rightarrow>
          (case map_of entries key of
             None \<Rightarrow> []
           | Some JNull \<Rightarrow> []
           | Some (JBool b) \<Rightarrow> (if b then ''true'' else ''false'')
           | Some (JNumber n) \<Rightarrow> n
           | Some (JString s) \<Rightarrow> s
           | Some v \<Rightarrow> print v)
      | _ \<Rightarrow> [])"

definition scanRunner :: "(json \<Rightarrow> string) \<Rightarrow> db \<Rightarrow> runner_row \<Rightarrow> RunnerRecord" where
  "scanRunner print d rr =
     (let pool = (case rr_pool_id rr of None \<Rightarrow> None | Some p \<Rightarrow> find_row (\<lambda>rp. rp_id rp = p) (pools d));
          session = sql_first (\<lambda>rs. - rs_last_heartbeat_at rs)
                      (filter (\<lambda>rs. rs_runner_id rs = rr_id rr \<and> rs_disconnected_at rs = None) (sessions d))
      in \<lparr>rn_ID = rr_id rr, rn_Name = rr_name rr,
          rn_PoolID = (case pool of None \<Rightarrow> [] | Some p \<Rightarrow> rp_id p), rn_Pool = (case pool of None \<Rightarrow> [] | Some p \<Rightarrow> rp_name p),
          rn_DesiredState = rr_desired_state rr, rn_ObservedState = rr_observed_state rr,
          rn_NATSEndpoint = rr_nats_endpoint rr, rn_ControlPlaneURL = rr_control_plane_url rr, rn_Capacity = rr_capacity rr,
          rn_CurrentCapacity = (case session of None \<Rightarrow> 0 | Some rs \<Rightarrow> coalesce (rs_current_capacity rs) 0),
          rn_ActiveCount = rr_active_count rr, rn_HeartbeatAt = rr_last_seen_at rr,
          rn_Platform = json_text print (rr_capabilities rr) ''platform'',
          rn_Architecture = json_text print (rr_capabilities rr) ''architecture'',
          rn_IsArchived = rr_is_archived rr, rn_IsDeleted = rr_is_deleted rr,
          rn_CurrentMetrics = sql_first (\<lambda>m. - mr_sampled_at m) (filter (\<lambda>m. mr_runner_id m = rr_id rr) (runner_metrics d))\<rparr>)"

definition RunnerStore_List :: "(json \<Rightarrow> string) \<Rightarrow> db \<Rightarrow> RunnerRecord list" where
  "RunnerStore_List print d =
     map (scanRunner print d) (sort_key rr_id (filter (\<lambda>rr. \<not> rr_is_archived rr \<and> \<not> rr_is_deleted rr) (runners d)))"

definition ListArchived :: "(json \<Rightarrow> string) \<Rightarrow> db \<Rightarrow> RunnerRecord list" where
  "ListArchived print d =
     map (scanRunner print d) (sort_key rr_id (filter (\<lambda>rr. rr_is_archived rr \<or> rr_is_deleted rr) (runners d)))"

definition RunnerStore_Find :: "(json \<Rightarrow> string) \<Rightarrow> string \<Rightarrow> db \<Rightarrow> RunnerRecord option" where
  "RunnerStore_Find print ident d = map_option (scanRunner print d) (find_row (\<lambda>rr. rr_id rr = ident) (runners d))"

section \<open>Administration of runners\<close>

abbreviation in_service :: "string \<Rightarrow> runner_row \<Rightarrow> bool" where
  "in_service ident rr \<equiv> rr_id rr = ident \<and> \<not> rr_is_archived rr \<and> \<not> rr_is_deleted rr"

text \<open>\<^verbatim>\<open>UPDATE runners SET \<dots> WHERE id = $1 AND NOT is_archived AND NOT is_deleted\<close>, then \<^verbatim>\<open>Find\<close>\<close>

definition update_runner :: "(json \<Rightarrow> string) \<Rightarrow> string \<Rightarrow> (runner_row \<Rightarrow> runner_row) \<Rightarrow> RunnerRecord option runner_tx" where
  "update_runner print ident f d =
     (if \<not> list_ex (in_service ident) (runners d) then Inr (None, d)
      else (let d' = d\<lparr>runners := sql_update (in_service ident) f (runners d)\<rparr>
            in Inr (RunnerStore_Find print ident d', d')))"

definition SetDesiredState :: "(json \<Rightarrow> string) \<Rightarrow> string \<Rightarrow> string \<Rightarrow> RunnerRecord option runner_tx" where
  "SetDesiredState print ident state d =
     (if state = ''REVOKED''
      then update_runner print ident (\<lambda>rr. rr\<lparr>rr_desired_state := ''DISABLED'', rr_observed_state := ''REVOKED''\<rparr>) d
      else if state = ''ENABLED''
      then update_runner print ident (\<lambda>rr. rr\<lparr>rr_desired_state := state, rr_observed_state := ''OFFLINE''\<rparr>) d
      else if list_ex (in_service ident) (runners d) \<and> state \<notin> {''DRAINING'', ''DISABLED''} then Inl RunnerConstraint
      else update_runner print ident (\<lambda>rr. rr\<lparr>rr_desired_state := state\<rparr>) d)"

definition UpdateCapacity :: "(json \<Rightarrow> string) \<Rightarrow> string \<Rightarrow> int \<Rightarrow> RunnerRecord option runner_tx" where
  "UpdateCapacity print ident capacity d =
     (if capacity < 1 then Inl RunnerCapacitySmall
      else update_runner print ident (\<lambda>rr. rr\<lparr>rr_capacity := nat capacity\<rparr>) d)"

definition UpdateNATSEndpoint :: "(json \<Rightarrow> string) \<Rightarrow> string \<Rightarrow> string \<Rightarrow> RunnerRecord option runner_tx" where
  "UpdateNATSEndpoint print ident endpoint d = update_runner print ident (\<lambda>rr. rr\<lparr>rr_nats_endpoint := TrimSpace endpoint\<rparr>) d"

definition trim_right_slashes :: "string \<Rightarrow> string" where
  "trim_right_slashes s = rev (dropWhile (\<lambda>c. c = CHR ''/'') (rev s))"

definition UpdateControlPlaneURL :: "(json \<Rightarrow> string) \<Rightarrow> string \<Rightarrow> string \<Rightarrow> RunnerRecord option runner_tx" where
  "UpdateControlPlaneURL print ident endpoint d =
     update_runner print ident (\<lambda>rr. rr\<lparr>rr_control_plane_url := trim_right_slashes (TrimSpace endpoint)\<rparr>) d"

text \<open>
  Deleting the row cascades to sessions, keys, enrollments and metrics, is restricted by execution
  attempts, and would set the pins of task versions to null, which their immutability refuses.
\<close>

definition RunnerStore_Delete :: "string \<Rightarrow> bool runner_tx" where
  "RunnerStore_Delete ident d =
     (if \<not> list_ex (\<lambda>rr. rr_id rr = ident) (runners d) then Inr (False, d)
      else if list_ex (\<lambda>tv. tv_pinned_runner_id tv = Some ident) (task_versions d) then Inl RunnerPinned
      else if list_ex (\<lambda>a. att_runner_id a = ident) (attempts d) then Inl RunnerHasExecutionHistory
      else Inr (True, d\<lparr>runners := filter (\<lambda>rr. rr_id rr \<noteq> ident) (runners d),
                        sessions := filter (\<lambda>rs. rs_runner_id rs \<noteq> ident) (sessions d),
                        runner_keys := filter (\<lambda>rk. rk_runner_id rk \<noteq> ident) (runner_keys d),
                        enrollments := filter (\<lambda>en. en_runner_id en \<noteq> ident) (enrollments d),
                        runner_metrics := filter (\<lambda>m. mr_runner_id m \<noteq> ident) (runner_metrics d)\<rparr>))"

text \<open>The runs that archiving a runner touches, and what becomes of them.\<close>

definition archive_run :: "time \<Rightarrow> run_row \<Rightarrow> run_row" where
  "archive_run now r =
     (let waits = run_state r = WAITING \<or> run_state r = RETRY_WAIT
      in (set_run_state (if waits then CANCELLED else CANCELLING) now r)
           \<lparr>run_cancellation_requested_at := Some (coalesce (run_cancellation_requested_at r) now),
            run_cancellation_reason := Some ''runner archived'',
            run_completed_at := (if waits then Some now else run_completed_at r)\<rparr>)"

definition archived_with :: "string \<Rightarrow> db \<Rightarrow> run_row \<Rightarrow> bool" where
  "archived_with ident d r \<longleftrightarrow>
     list_ex (\<lambda>a. att_run_id a = run_id r \<and> att_runner_id a = ident) (attempts d)
     \<and> run_state r \<in> {WAITING, RUNNING, RETRY_WAIT, CANCELLING}"

definition Archive :: "time \<Rightarrow> string \<Rightarrow> bool runner_tx" where
  "Archive now ident d =
     (case find_row (\<lambda>rr. rr_id rr = ident) (runners d) of
        None \<Rightarrow> Inr (False, d)
      | Some rr \<Rightarrow>
          (if rr_is_archived rr \<or> rr_is_deleted rr then Inr (True, d)
           else Inr (True, d\<lparr>
             runners := sql_update (\<lambda>rr. rr_id rr = ident)
               (\<lambda>rr. rr\<lparr>rr_is_archived := True, rr_is_deleted := True, rr_desired_state := ''DISABLED'',
                       rr_observed_state := ''OFFLINE''\<rparr>) (runners d),
             sessions := sql_update (\<lambda>rs. rs_runner_id rs = ident \<and> rs_disconnected_at rs = None)
               (\<lambda>rs. rs\<lparr>rs_disconnected_at := Some now\<rparr>) (sessions d),
             runner_keys := sql_update (\<lambda>rk. rk_runner_id rk = ident \<and> rk_revoked_at rk = None)
               (\<lambda>rk. rk\<lparr>rk_revoked_at := Some now\<rparr>) (runner_keys d),
             enrollments := filter (\<lambda>en. \<not> (en_runner_id en = ident \<and> en_used_at en = None)) (enrollments d),
             runs := sql_update (archived_with ident d) (archive_run now) (runs d)\<rparr>)))"

section \<open>Enrollment\<close>

record EnrollmentInput =
  ei_ID :: string
  ei_TokenHash :: string
  ei_Requester :: string
  ei_Target :: string
  ei_ExpiresAt :: time
  ei_Artifact :: "json option"

record NewRunner =
  nr_ID :: string
  nr_Name :: string
  nr_PoolID :: string
  nr_Pool :: string
  nr_Capacity :: int
  nr_NATSEndpoint :: string
  nr_ControlPlaneURL :: string

definition pool_of :: "string \<Rightarrow> db \<Rightarrow> runner_error + string option" where
  "pool_of key d =
     (case filter (\<lambda>p. (rp_id p = key \<or> rp_name p = key) \<and> \<not> rp_is_deleted p) (pools d) of
        [] \<Rightarrow> Inr None
      | [p] \<Rightarrow> Inr (Some (rp_id p))
      | _ \<Rightarrow> Inl RunnerPoolAmbiguous)"

definition upsert_runner :: "NewRunner \<Rightarrow> json \<Rightarrow> string option \<Rightarrow> db \<Rightarrow> runner_error + db" where
  "upsert_runner r artifact pool d =
     (let nats = TrimSpace (nr_NATSEndpoint r); url = TrimSpace (nr_ControlPlaneURL r)
      in if list_ex (\<lambda>rr. rr_id rr = nr_ID r) (runners d)
         then Inr (d\<lparr>runners := sql_update (\<lambda>rr. rr_id rr = nr_ID r)
                (\<lambda>rr. rr\<lparr>rr_capacity := (if nr_Capacity r > 0 then nat (nr_Capacity r) else rr_capacity rr),
                        rr_nats_endpoint := (if nats \<noteq> [] then nats else rr_nats_endpoint rr),
                        rr_control_plane_url := (if url \<noteq> [] then url else rr_control_plane_url rr)\<rparr>) (runners d)\<rparr>)
         else if list_ex (\<lambda>rr. \<not> rr_is_archived rr \<and> \<not> rr_is_deleted rr \<and> ToLower (rr_name rr) = ToLower (nr_Name r)) (runners d)
         then Inl RunnerConstraint
         else Inr (d\<lparr>runners := runners d @
                [\<lparr>rr_id = nr_ID r, rr_pool_id = pool, rr_name = nr_Name r, rr_desired_state = ''ENABLED'',
                  rr_observed_state = ''PENDING'', rr_capacity = (if nr_Capacity r > 0 then nat (nr_Capacity r) else 10),
                  rr_active_count = 0, rr_capabilities = artifact, rr_nats_endpoint = nats, rr_control_plane_url = url,
                  rr_is_archived = False, rr_is_deleted = False, rr_last_seen_at = None\<rparr>]\<rparr>))"

definition CreateEnrollment :: "(string \<Rightarrow> bytes option) \<Rightarrow> NewRunner \<Rightarrow> EnrollmentInput \<Rightarrow> unit runner_tx" where
  "CreateEnrollment unhex r enrollment d =
     (case ei_Artifact enrollment of
        None \<Rightarrow> Inl RunnerJSON
      | Some artifact \<Rightarrow>
          res_bind (pool_of (if nr_PoolID r = [] then nr_Pool r else nr_PoolID r) d) (\<lambda>pool.
          res_bind (upsert_runner r artifact pool d) (\<lambda>d1.
            case find_row (\<lambda>rr. rr_id rr = nr_ID r) (runners d1) of
              None \<Rightarrow> Inl RunnerNotFound
            | Some rr \<Rightarrow>
                (if rr_is_archived rr \<or> rr_is_deleted rr then Inl RunnerIsArchived
                 else (let d2 = d1\<lparr>enrollments := filter (\<lambda>en. \<not> (en_runner_id en = nr_ID r \<and> en_used_at en = None)) (enrollments d1)\<rparr>
                       in case unhex (ei_TokenHash enrollment) of
                            None \<Rightarrow> Inl EnrollmentDecode
                          | Some token \<Rightarrow>
                              (if token = [] \<or> list_ex (\<lambda>en. en_id en = ei_ID enrollment) (enrollments d2) then Inl RunnerConstraint
                               else Inr ((), d2\<lparr>enrollments := enrollments d2 @
                                 [\<lparr>en_id = ei_ID enrollment, en_runner_id = nr_ID r, en_token_hash = token,
                                   en_expires_at = ei_ExpiresAt enrollment, en_used_at = None, en_requester = ei_Requester enrollment,
                                   en_target = ei_Target enrollment, en_artifact = artifact\<rparr>]\<rparr>)))))))"

text \<open>Binding the key of an enrollment: a key id belongs to one runner for ever, its key may change.\<close>

definition bind_key :: "time \<Rightarrow> string \<Rightarrow> string \<Rightarrow> bytes \<Rightarrow> db \<Rightarrow> runner_error + db" where
  "bind_key now runnerID keyID publicKey d =
     (case find_row (\<lambda>rk. rk_key_id rk = keyID) (runner_keys d) of
        None \<Rightarrow>
          (if publicKey = [] then Inl RunnerConstraint
           else Inr (d\<lparr>runner_keys := runner_keys d @
             [\<lparr>rk_key_id = keyID, rk_runner_id = runnerID, rk_public_key = publicKey, rk_not_before = now, rk_not_after = None,
               rk_revoked_at = None\<rparr>]\<rparr>))
      | Some rk \<Rightarrow>
          (if rk_runner_id rk \<noteq> runnerID then Inl EnrollmentKeyBound
           else Inr (d\<lparr>runner_keys := sql_update (\<lambda>rk. rk_key_id rk = keyID)
             (\<lambda>rk. rk\<lparr>rk_public_key := publicKey, rk_not_before := now, rk_not_after := None, rk_revoked_at := None\<rparr>) (runner_keys d)\<rparr>)))"

definition consumeEnrollment ::
  "(json \<Rightarrow> string) \<Rightarrow> (string \<Rightarrow> bytes option) \<Rightarrow> time \<Rightarrow> string \<Rightarrow> time \<Rightarrow> string \<Rightarrow> bytes
     \<Rightarrow> db \<Rightarrow> (runner_error + RunnerRecord) \<times> db" where
  "consumeEnrollment print unhex clock tokenHash now keyID publicKey d =
     (let result =
        (case unhex tokenHash of
           None \<Rightarrow> Inl EnrollmentDecode
         | Some token \<Rightarrow>
             (case find_row (\<lambda>en. en_token_hash en = token) (enrollments d) of
                None \<Rightarrow> Inl EnrollmentNotFound
              | Some en \<Rightarrow>
                  (if en_used_at en \<noteq> None then Inl EnrollmentUsed
                   else if \<not> now < en_expires_at en then Inl EnrollmentExpired
                   else (let d1 = d\<lparr>enrollments := sql_update (\<lambda>en. en_token_hash en = token)
                                      (\<lambda>en. en\<lparr>en_used_at := Some clock\<rparr>) (enrollments d)\<rparr>
                         in res_bind (if keyID \<noteq> [] then bind_key clock (en_runner_id en) keyID publicKey d1 else Inr d1) (\<lambda>d2.
                              Inr (en_runner_id en,
                                   d2\<lparr>runners := sql_update (in_service (en_runner_id en))
                                     (\<lambda>rr. rr\<lparr>rr_observed_state := ''PENDING'', rr_last_seen_at := None\<rparr>) (runners d2)\<rparr>))))))
      in case result of
           Inl e \<Rightarrow> (Inl e, d)
         | Inr (runnerID, d') \<Rightarrow>
             (case RunnerStore_Find print runnerID d' of None \<Rightarrow> (Inl RunnerNotFound, d') | Some item \<Rightarrow> (Inr item, d')))"

definition ConsumeEnrollment ::
  "(json \<Rightarrow> string) \<Rightarrow> (string \<Rightarrow> bytes option) \<Rightarrow> time \<Rightarrow> string \<Rightarrow> time \<Rightarrow> db \<Rightarrow> (runner_error + RunnerRecord) \<times> db" where
  "ConsumeEnrollment print unhex clock tokenHash now d = consumeEnrollment print unhex clock tokenHash now [] [] d"

definition ConsumeEnrollmentWithKey ::
  "(json \<Rightarrow> string) \<Rightarrow> (string \<Rightarrow> bytes option) \<Rightarrow> time \<Rightarrow> string \<Rightarrow> time \<Rightarrow> string \<Rightarrow> bytes
     \<Rightarrow> db \<Rightarrow> (runner_error + RunnerRecord) \<times> db" where
  "ConsumeEnrollmentWithKey print unhex clock tokenHash now keyID publicKey d =
     (if keyID = [] \<or> length publicKey \<noteq> 32 then (Inl EnrollmentKeyIncomplete, d)
      else consumeEnrollment print unhex clock tokenHash now keyID publicKey d)"

section \<open>Sessions and heartbeats\<close>

definition session_conflict :: "session_row \<Rightarrow> db \<Rightarrow> bool" where
  "session_conflict s d \<longleftrightarrow>
     list_ex (\<lambda>rs. rs_id rs = rs_id s \<or> rs_runner_id rs = rs_runner_id s \<and> (rs_boot_id rs = rs_boot_id s \<or> rs_disconnected_at rs = None))
       (sessions d)"

definition CreateSession :: "time \<Rightarrow> string \<Rightarrow> string \<Rightarrow> unit runner_tx" where
  "CreateSession now runnerID bootID d =
     (let s = \<lparr>rs_id = runnerID @ ''/'' @ bootID, rs_runner_id = runnerID, rs_boot_id = bootID, rs_last_heartbeat_at = now,
               rs_current_capacity = None, rs_disconnected_at = None\<rparr>
      in if session_conflict s d \<or> \<not> list_ex (\<lambda>rr. rr_id rr = runnerID) (runners d) then Inl RunnerConstraint
         else Inr ((), d\<lparr>sessions := sessions d @ [s]\<rparr>))"

definition RunnerStore_Heartbeat :: "string \<Rightarrow> time \<Rightarrow> db \<Rightarrow> db" where
  "RunnerStore_Heartbeat runnerID now d =
     d\<lparr>runners := sql_update (\<lambda>rr. in_service runnerID rr \<and> rr_observed_state rr \<noteq> ''REVOKED''
                              \<and> (case rr_last_seen_at rr of None \<Rightarrow> True | Some t \<Rightarrow> t < now))
         (\<lambda>rr. rr\<lparr>rr_observed_state := ''ONLINE'', rr_last_seen_at := Some now\<rparr>) (runners d)\<rparr>"

record heartbeatInput =
  hi_runnerID :: string
  hi_bootID :: string
  hi_now :: time
  hi_capacity :: int
  hi_sample :: "RunnerMetricsSample option"
  hi_keyID :: string
  hi_publicKey :: bytes

text \<open>
  The session of the heartbeat: every other session of the runner is closed, then the row of this boot
  is inserted or refreshed.
\<close>

definition close_others :: "heartbeatInput \<Rightarrow> db \<Rightarrow> db" where
  "close_others inp d =
     d\<lparr>sessions := sql_update (\<lambda>rs. rs_runner_id rs = hi_runnerID inp \<and> rs_disconnected_at rs = None \<and> rs_boot_id rs \<noteq> hi_bootID inp)
         (\<lambda>rs. rs\<lparr>rs_disconnected_at := Some (hi_now inp)\<rparr>) (sessions d)\<rparr>"

definition upsert_session :: "heartbeatInput \<Rightarrow> db \<Rightarrow> runner_error + db" where
  "upsert_session inp d =
     (let s = \<lparr>rs_id = hi_runnerID inp @ ''/'' @ hi_bootID inp, rs_runner_id = hi_runnerID inp, rs_boot_id = hi_bootID inp,
               rs_last_heartbeat_at = hi_now inp,
               rs_current_capacity = (if hi_capacity inp > 0 then Some (hi_capacity inp) else None), rs_disconnected_at = None\<rparr>
      in if list_ex (\<lambda>rs. rs_runner_id rs = hi_runnerID inp \<and> rs_boot_id rs = hi_bootID inp) (sessions d)
         then Inr (d\<lparr>sessions := sql_update (\<lambda>rs. rs_runner_id rs = hi_runnerID inp \<and> rs_boot_id rs = hi_bootID inp)
                (\<lambda>rs. rs\<lparr>rs_last_heartbeat_at := hi_now inp, rs_disconnected_at := None,
                        rs_current_capacity := (if hi_capacity inp > 0 then Some (hi_capacity inp) else rs_current_capacity rs)\<rparr>)
                (sessions d)\<rparr>)
         else if session_conflict s d then Inl RunnerConstraint
         else Inr (d\<lparr>sessions := sessions d @ [s]\<rparr>))"

definition insert_metrics :: "heartbeatInput \<Rightarrow> RunnerMetricsSample \<Rightarrow> db \<Rightarrow> runner_error + db" where
  "insert_metrics inp sample d =
     (if \<not> sample_validate sample then Inl RunnerConstraint
      else if list_ex (\<lambda>m. mr_runner_id m = hi_runnerID inp \<and> mr_sampled_at m = hi_now inp) (runner_metrics d) then Inr d
      else Inr (d\<lparr>runner_metrics := runner_metrics d @
             [\<lparr>mr_runner_id = hi_runnerID inp, mr_sampled_at = hi_now inp, mr_cpu_percent = ms_CPUPercent sample,
               mr_memory_percent = ms_MemoryPercent sample, mr_memory_used_bytes = ms_MemoryUsedBytes sample,
               mr_memory_total_bytes = ms_MemoryTotalBytes sample\<rparr>]\<rparr>))"

definition heartbeatWithKeyAndCapacity :: "heartbeatInput \<Rightarrow> db \<Rightarrow> runner_error + db" where
  "heartbeatWithKeyAndCapacity inp d =
     (if hi_runnerID inp = [] \<or> hi_bootID inp = [] \<or> hi_keyID inp = [] \<or> length (hi_publicKey inp) \<noteq> 32
      then Inl HeartbeatKeyIncomplete
      else (case find_row (\<lambda>rr. rr_id rr = hi_runnerID inp) (runners d) of
              None \<Rightarrow> Inl RunnerNotFound
            | Some rr \<Rightarrow>
                (if rr_is_archived rr \<or> rr_is_deleted rr then Inl RunnerIsArchived
                 else res_bind (upsert_session inp (close_others inp d)) (\<lambda>d1.
                   case find_row (\<lambda>rk. rk_key_id rk = hi_keyID inp \<and> rk_revoked_at rk = None) (runner_keys d1) of
                     None \<Rightarrow> Inl HeartbeatKeyNotEnrolled
                   | Some rk \<Rightarrow>
                       (if rk_runner_id rk \<noteq> hi_runnerID inp \<or> rk_public_key rk \<noteq> hi_publicKey inp then Inl HeartbeatKeyMismatch
                        else (let d2 = d1\<lparr>runners := sql_update (\<lambda>rr. in_service (hi_runnerID inp) rr \<and> rr_observed_state rr \<noteq> ''REVOKED'')
                                        (\<lambda>rr. rr\<lparr>rr_observed_state := ''ONLINE'', rr_last_seen_at := Some (hi_now inp)\<rparr>) (runners d1)\<rparr>
                              in case hi_sample inp of None \<Rightarrow> Inr d2 | Some sample \<Rightarrow> insert_metrics inp sample d2))))))"

definition HeartbeatWithKeyAndCapacity :: "string \<Rightarrow> string \<Rightarrow> time \<Rightarrow> int \<Rightarrow> string \<Rightarrow> bytes \<Rightarrow> db \<Rightarrow> runner_error + db" where
  "HeartbeatWithKeyAndCapacity runnerID bootID now capacity keyID publicKey d =
     heartbeatWithKeyAndCapacity
       \<lparr>hi_runnerID = runnerID, hi_bootID = bootID, hi_now = now, hi_capacity = capacity, hi_sample = None, hi_keyID = keyID,
        hi_publicKey = publicKey\<rparr> d"

definition HeartbeatWithKeyAndCapacityAndMetrics ::
  "string \<Rightarrow> string \<Rightarrow> time \<Rightarrow> int \<Rightarrow> RunnerMetricsSample \<Rightarrow> string \<Rightarrow> bytes \<Rightarrow> db \<Rightarrow> runner_error + db" where
  "HeartbeatWithKeyAndCapacityAndMetrics runnerID bootID now capacity sample keyID publicKey d =
     (if \<not> sample_validate sample then Inl SampleInvalid
      else heartbeatWithKeyAndCapacity
       \<lparr>hi_runnerID = runnerID, hi_bootID = bootID, hi_now = now, hi_capacity = capacity, hi_sample = Some sample, hi_keyID = keyID,
        hi_publicKey = publicKey\<rparr> d)"

definition FindPublicKey :: "time \<Rightarrow> db \<Rightarrow> string \<Rightarrow> string \<Rightarrow> bytes option" where
  "FindPublicKey now d runnerID keyID =
     (case find_row (\<lambda>rk. rk_runner_id rk = runnerID \<and> rk_key_id rk = keyID \<and> rk_revoked_at rk = None \<and> rk_not_before rk \<le> now
                       \<and> (case rk_not_after rk of None \<Rightarrow> True | Some t \<Rightarrow> t > now)) (runner_keys d) of
        None \<Rightarrow> None
      | Some rk \<Rightarrow> if length (rk_public_key rk) \<noteq> 32 then None else Some (rk_public_key rk))"

definition MarkStale :: "time \<Rightarrow> db \<Rightarrow> db" where
  "MarkStale cutoff d =
     d\<lparr>runners := sql_update (\<lambda>rr. rr_observed_state rr = ''ONLINE''
                              \<and> ((case rr_last_seen_at rr of None \<Rightarrow> True | Some t \<Rightarrow> t < cutoff)
                                 \<or> \<not> list_ex (\<lambda>rs. rs_runner_id rs = rr_id rr \<and> rs_disconnected_at rs = None) (sessions d)))
         (\<lambda>rr. rr\<lparr>rr_observed_state := ''OFFLINE''\<rparr>) (runners d)\<rparr>"

definition ListRunnerMetrics :: "string \<Rightarrow> time \<Rightarrow> time \<Rightarrow> int \<Rightarrow> db \<Rightarrow> runner_error + metric_row list" where
  "ListRunnerMetrics runnerID from' until limit0 d =
     (if runnerID = [] \<or> from' = 0 \<or> until = 0 \<or> \<not> from' < until then Inl SampleInvalid
      else (let limit = (if limit0 < 1 \<or> limit0 > 2000 then 2000 else limit0)
            in Inr (sql_limit (nat limit) mr_sampled_at
                 (filter (\<lambda>m. mr_runner_id m = runnerID \<and> from' \<le> mr_sampled_at m \<and> mr_sampled_at m \<le> until) (runner_metrics d)))))"

end
