(* ===== verification/Dispatcher.thy ===== *)
theory Dispatcher
  imports Runners Protocol
begin

text \<open>
  The servers of the control plane between the run store and the message queue
  (\<^verbatim>\<open>controlplane/dispatcher.go\<close>, \<^verbatim>\<open>controlplane/start_claim.go\<close>, \<^verbatim>\<open>controlplane/secret_delivery.go\<close>,
  the checks of \<^verbatim>\<open>controlplane/heartbeat.go\<close>) and the worker's side of the two request and reply
  exchanges (\<^verbatim>\<open>worker/start_claim.go\<close>, \<^verbatim>\<open>worker/secrets.go\<close>).

  \<open>L\<close> is the library of the protocol, \<open>J\<close> the JSON codecs of the exchanges, \<open>keys\<close> the interface
  \<^verbatim>\<open>RunnerKeyFinder\<close>. Every reading of the clock is an argument. The queue is the list of the
  messages published so far; whether a publication succeeds is an argument as well.
\<close>

section \<open>Codecs of the exchanges\<close>

record StartClaimReply =
  rp_Granted :: bool
  rp_Retry :: bool
  rp_Error :: string
  rp_Grant :: "Envelope option"

type_synonym StartGrantPayload = "StartClaimPayload \<times> time"

record runnerHeartbeat =
  hb_RunnerID :: string
  hb_BootID :: string
  hb_At :: string
  hb_Capacity :: int
  hb_CPUPercent :: "rat option"
  hb_MemoryPercent :: "rat option"
  hb_MemoryUsedBytes :: "int option"
  hb_MemoryTotalBytes :: "int option"

record exchange_lib =
  claim_marshal :: "StartClaimPayload \<Rightarrow> bytes option"
  claim_unmarshal :: "bytes \<Rightarrow> StartClaimPayload option"
  grant_marshal :: "StartGrantPayload \<Rightarrow> bytes option"
  grant_unmarshal :: "bytes \<Rightarrow> StartGrantPayload option"
  reply_marshal :: "StartClaimReply \<Rightarrow> bytes option"
  reply_unmarshal :: "bytes \<Rightarrow> StartClaimReply option"
  request_marshal :: "SecretDeliveryRequest \<Rightarrow> bytes option"
  request_unmarshal :: "bytes \<Rightarrow> SecretDeliveryRequest option"
  response_marshal :: "SecretDeliveryResponse \<Rightarrow> bytes option"
  response_unmarshal :: "bytes \<Rightarrow> SecretDeliveryResponse option"
  heartbeat_unmarshal :: "bytes \<Rightarrow> runnerHeartbeat option"
  parse_rfc3339 :: "string \<Rightarrow> time option"

type_synonym RunnerKeyFinder = "string \<Rightarrow> string \<Rightarrow> bytes option"

definition queue_Subject :: "string \<Rightarrow> string \<Rightarrow> string" where
  "queue_Subject kind runnerID = ''glyphflow.'' @ kind @ ''.'' @ runnerID"

definition StartClaimSubject :: "string \<Rightarrow> string" where
  "StartClaimSubject runnerID = ''glyphflow.start.'' @ runnerID"

definition SecretDeliverySubject :: "string \<Rightarrow> string" where
  "SecretDeliverySubject runnerID = ''glyphflow.secrets.'' @ runnerID"

section \<open>Orders for claimed runs\<close>

definition execute_order :: "SigningKey \<Rightarrow> time \<Rightarrow> time \<Rightarrow> DispatchCandidate \<Rightarrow> OrderPayload" where
  "execute_order k issued notBefore c =
     \<lparr>ord_Version = ProtocolVersion, ord_OrderID = dc_AttemptID c, ord_RunID = dc_RunID c,
      ord_TaskID = dc_TaskID c, ord_TaskName = dc_TaskName c, ord_TaskVersion = word_of_int (dc_TaskVersion c),
      ord_Attempt = word_of_int (dc_AttemptNumber c), ord_LeaseToken = dc_LeaseToken c, ord_RunnerID = dc_RunnerID c,
      ord_IssuedAt = issued, ord_NotBefore = notBefore, ord_ExpiresAt = dc_LeaseNotAfter c, ord_Type = OrderExecute,
      ord_Command = dc_Command c, ord_WorkingDir = dc_WorkingDirectory c, ord_Environment = dc_Environment c,
      ord_SecretRefs = dc_SecretRefs c, ord_TargetOrderID = [], ord_DurationSeconds = word_of_int (dc_DurationSeconds c),
      ord_Limits = \<lparr>MaxOutputBytes = word_of_int (dc_MaxOutputBytes c), MaxMemoryBytes = 0, MaxProcesses = 0\<rparr>,
      ord_Resources = map (\<lambda>r. (r, r)) (dc_Resources c), ord_Issuer = sk_ID k, ord_Recipient = dc_RunnerID c,
      ord_RunnerSessionID = dc_RunnerSessionID c, ord_FencingToken = word_of_int (dc_FencingToken c),
      ord_LeaseNotAfter = dc_LeaseNotAfter c, ord_ExecutionSpecDigest = dc_Digest c\<rparr>"

definition cancel_order :: "SigningKey \<Rightarrow> time \<Rightarrow> CancellationCandidate \<Rightarrow> OrderPayload" where
  "cancel_order k now c =
     zero_OrderPayload
       \<lparr>ord_Version := ProtocolVersion, ord_OrderID := cn_AttemptID c, ord_TargetOrderID := cn_AttemptID c,
        ord_RunID := cn_RunID c, ord_TaskID := cn_TaskID c, ord_Attempt := word_of_int (cn_AttemptNumber c),
        ord_LeaseToken := cn_LeaseToken c, ord_RunnerID := cn_RunnerID c, ord_IssuedAt := now, ord_NotBefore := now,
        ord_ExpiresAt := cn_LeaseNotAfter c, ord_Type := OrderCancel, ord_Issuer := sk_ID k,
        ord_Recipient := cn_RunnerID c, ord_RunnerSessionID := cn_RunnerSessionID c,
        ord_FencingToken := word_of_int (cn_FencingToken c), ord_LeaseNotAfter := cn_LeaseNotAfter c,
        ord_ExecutionSpecDigest := ''cancel:'' @ cn_Reason c, ord_Command := [''true''], ord_WorkingDir := ''.'',
        ord_DurationSeconds := 1\<rparr>"

definition seal_order :: "lib \<Rightarrow> SigningKey \<Rightarrow> OrderPayload \<Rightarrow> bytes option" where
  "seal_order L k payload =
     (case EncodeOrderPayload L payload of
        Inl _ \<Rightarrow> None
      | Inr raw \<Rightarrow>
          (case SignOrder L k raw of
             Inl _ \<Rightarrow> None
           | Inr envelope \<Rightarrow> (case EncodeEnvelope L envelope of Inl _ \<Rightarrow> None | Inr wire \<Rightarrow> Some wire)))"

text \<open>What one turn of a loop reads from outside: random token, lease identifiers, clocks.\<close>

record turn =
  tn_token :: "string option"
  tn_fresh :: "nat \<Rightarrow> string"
  tn_clock :: time
  tn_now :: time
  tn_issued :: time
  tn_notBefore :: time

text \<open>
  The two loops run at most 100 turns. Each turn is a transaction: when one fails, what the
  earlier turns did stays.
\<close>

fun dispatch_turns ::
  "lib \<Rightarrow> (execution_spec \<Rightarrow> string) \<Rightarrow> SigningKey \<Rightarrow> nat \<Rightarrow> (nat \<Rightarrow> turn) \<Rightarrow> db \<Rightarrow> store_error option \<times> db" where
  "dispatch_turns L digest k 0 w d = (None, d)"
| "dispatch_turns L digest k (Suc n) w d =
     (case ClaimWaiting digest (tn_token (w 0)) (tn_fresh (w 0)) (tn_clock (w 0)) (tn_now (w 0))
             (Some (\<lambda>c. seal_order L k (execute_order k (tn_issued (w 0)) (tn_notBefore (w 0)) c))) d of
        Inl e \<Rightarrow> (Some e, d)
      | Inr (None, d') \<Rightarrow> (None, d')
      | Inr (Some c, d') \<Rightarrow> dispatch_turns L digest k n (\<lambda>i. w (Suc i)) d')"

definition dispatchWaiting ::
  "lib \<Rightarrow> (execution_spec \<Rightarrow> string) \<Rightarrow> SigningKey \<Rightarrow> (nat \<Rightarrow> turn) \<Rightarrow> db \<Rightarrow> store_error option \<times> db" where
  "dispatchWaiting L digest k w d = dispatch_turns L digest k 100 w d"

fun cancel_turns :: "lib \<Rightarrow> SigningKey \<Rightarrow> nat \<Rightarrow> (nat \<Rightarrow> turn) \<Rightarrow> db \<Rightarrow> store_error option \<times> db" where
  "cancel_turns L k 0 w d = (None, d)"
| "cancel_turns L k (Suc n) w d =
     (case ClaimCancelling (tn_now (w 0)) (Some (\<lambda>c. seal_order L k (cancel_order k (tn_issued (w 0)) c))) d of
        Inl e \<Rightarrow> (Some e, d)
      | Inr (None, d') \<Rightarrow> (None, d')
      | Inr (Some c, d') \<Rightarrow> cancel_turns L k n (\<lambda>i. w (Suc i)) d')"

definition dispatchCancellations :: "lib \<Rightarrow> SigningKey \<Rightarrow> (nat \<Rightarrow> turn) \<Rightarrow> db \<Rightarrow> store_error option \<times> db" where
  "dispatchCancellations L k w d = cancel_turns L k 100 w d"

section \<open>Publishing the outbox\<close>

record queue_message =
  qm_Subject :: string
  qm_ID :: string
  qm_Data :: bytes

definition outbox_message :: "outbox_row \<Rightarrow> queue_message" where
  "outbox_message item = \<lparr>qm_Subject = ob_subject item, qm_ID = ob_message_id item, qm_Data = ob_envelope item\<rparr>"

text \<open>\<open>publish\<close> is the queue's answer: the error of a failed publication, or nothing.\<close>

fun publish_items ::
  "(queue_message \<Rightarrow> string option) \<Rightarrow> time \<Rightarrow> outbox_row list \<Rightarrow> db \<times> queue_message list \<Rightarrow> db \<times> queue_message list" where
  "publish_items publish now [] (d, sent) = (d, sent)"
| "publish_items publish now (item # items) (d, sent) =
     (case publish (outbox_message item) of
        Some err \<Rightarrow> publish_items publish now items (RetryDispatch now (ob_message_id item) err d, sent)
      | None \<Rightarrow> publish_items publish now items (MarkDispatchPublished now (ob_message_id item) d, sent @ [outbox_message item]))"

definition publishPending ::
  "(queue_message \<Rightarrow> string option) \<Rightarrow> time \<Rightarrow> db \<times> queue_message list \<Rightarrow> db \<times> queue_message list" where
  "publishPending publish now s = publish_items publish now (PendingDispatch now 100 (fst s)) s"

section \<open>Heartbeats\<close>

datatype event_error =
    SubjectInvalid | EventProto proto_error | KeyNotFound | Stored store_error
  | HeartbeatUnsigned | HeartbeatInvalid | HeartbeatIncomplete | HeartbeatSubject | HeartbeatTimestamp
  | HeartbeatWindow | MetricsIncomplete

text \<open>The call that a heartbeat makes on the runner repository.\<close>

record heartbeat_call =
  hc_RunnerID :: string
  hc_BootID :: string
  hc_At :: time
  hc_Capacity :: int
  hc_Sample :: "RunnerMetricsSample option"
  hc_KeyID :: string
  hc_PublicKey :: bytes

definition heartbeatMetrics :: "runnerHeartbeat \<Rightarrow> event_error + RunnerMetricsSample option" where
  "heartbeatMetrics h =
     (if hb_CPUPercent h = None \<and> hb_MemoryPercent h = None \<and> hb_MemoryUsedBytes h = None \<and> hb_MemoryTotalBytes h = None
      then Inr None
      else (case (hb_CPUPercent h, hb_MemoryPercent h, hb_MemoryUsedBytes h, hb_MemoryTotalBytes h) of
              (Some cpu, Some mem, Some used, Some whole) \<Rightarrow>
                Inr (Some \<lparr>ms_CPUPercent = cpu, ms_MemoryPercent = mem, ms_MemoryUsedBytes = used, ms_MemoryTotalBytes = whole\<rparr>)
            | _ \<Rightarrow> Inl MetricsIncomplete))"

definition recordRunnerHeartbeatForSubject ::
  "lib \<Rightarrow> exchange_lib \<Rightarrow> RunnerKeyFinder \<Rightarrow> time \<Rightarrow> string \<Rightarrow> bytes \<Rightarrow> event_error + heartbeat_call" where
  "recordRunnerHeartbeatForSubject L J keys now subject raw =
     (case DecodeEnvelope L raw of
        Inl _ \<Rightarrow> Inl HeartbeatUnsigned
      | Inr envelope \<Rightarrow>
          (case PayloadBytes envelope of
             Inl e \<Rightarrow> Inl (EventProto e)
           | Inr payload \<Rightarrow>
               (case heartbeat_unmarshal J payload of
                  None \<Rightarrow> Inl HeartbeatInvalid
                | Some h \<Rightarrow>
                    (if TrimSpace (hb_RunnerID h) = [] \<or> TrimSpace (hb_BootID h) = [] \<or> TrimSpace (hb_At h) = []
                     then Inl HeartbeatIncomplete
                     else if subject \<noteq> queue_Subject ''heartbeats'' (hb_RunnerID h) then Inl HeartbeatSubject
                     else (case keys (hb_RunnerID h) (env_KeyID envelope) of
                             None \<Rightarrow> Inl KeyNotFound
                           | Some publicKey \<Rightarrow>
                               (case Verify L publicKey EventSignatureDomain envelope of
                                  Inl e \<Rightarrow> Inl (EventProto e)
                                | Inr _ \<Rightarrow>
                                    (case parse_rfc3339 J (hb_At h) of
                                       None \<Rightarrow> Inl HeartbeatTimestamp
                                     | Some t \<Rightarrow>
                                         (if t < now - 30 * second \<or> t > now + 30 * second then Inl HeartbeatWindow
                                          else res_bind (heartbeatMetrics h) (\<lambda>sample.
                                                 Inr \<lparr>hc_RunnerID = hb_RunnerID h, hc_BootID = hb_BootID h, hc_At = t,
                                                      hc_Capacity = hb_Capacity h, hc_Sample = sample,
                                                      hc_KeyID = env_KeyID envelope, hc_PublicKey = publicKey\<rparr>))))))))) "

definition isRunnerHeartbeat :: "lib \<Rightarrow> exchange_lib \<Rightarrow> bytes \<Rightarrow> bool" where
  "isRunnerHeartbeat L J raw =
     (case DecodeEnvelope L raw of
        Inl _ \<Rightarrow> False
      | Inr envelope \<Rightarrow>
          (case PayloadBytes envelope of
             Inl _ \<Rightarrow> False
           | Inr payload \<Rightarrow>
               (case heartbeat_unmarshal J payload of
                  None \<Rightarrow> False
                | Some h \<Rightarrow> hb_RunnerID h \<noteq> [] \<and> hb_BootID h \<noteq> [] \<and> hb_At h \<noteq> [])))"

section \<open>Events of runners\<close>

definition event_type_text :: "EventType \<Rightarrow> string" where
  "event_type_text t =
     (case t of
        EventAccepted \<Rightarrow> ''accepted'' | EventRejected \<Rightarrow> ''rejected'' | EventStarted \<Rightarrow> ''started''
      | EventLogChunk \<Rightarrow> ''log_chunk'' | EventHeartbeat \<Rightarrow> ''heartbeat'' | EventCompleted \<Rightarrow> ''completed''
      | EventFailed \<Rightarrow> ''failed'' | EventTimedOut \<Rightarrow> ''timed_out'' | EventCancelled \<Rightarrow> ''cancelled''
      | EventUnknown \<Rightarrow> ''unknown'' | OtherEvent s \<Rightarrow> s)"

definition event_input :: "string \<Rightarrow> bytes \<Rightarrow> EventPayload \<Rightarrow> RunEventInput" where
  "event_input subject raw payload =
     \<lparr>re_EventID = evt_EventID payload, re_RunID = evt_RunID payload, re_RunnerID = evt_RunnerID payload,
      re_RunnerSessionID = evt_RunnerSessionID payload, re_LeaseToken = evt_LeaseToken payload,
      re_EventType = event_type_text (evt_Type payload), re_EventChannel = evt_EventChannel payload, re_Subject = subject,
      re_Error = evt_Error payload, re_Result = evt_Result payload, re_Metrics = evt_Metrics payload,
      re_ExitCode = evt_ExitCode payload, re_Attempt = uint (evt_Attempt payload), re_Sequence = sint (evt_Sequence payload),
      re_FencingToken = sint (evt_FencingToken payload), re_ReportedAt = evt_ObservedAt payload, re_Envelope = raw\<rparr>"

definition events_prefix :: string where
  "events_prefix = ''glyphflow.events.''"

text \<open>\<^verbatim>\<open>strings.TrimPrefix\<close>\<close>

definition TrimPrefix :: "string \<Rightarrow> string \<Rightarrow> string" where
  "TrimPrefix s p = (if take (length p) s = p then drop (length p) s else s)"

text \<open>\<open>sha\<close>, \<open>clock\<close>, \<open>sqlnow\<close> are handed to the store; \<open>now\<close> is the clock of the verification.\<close>

definition applyRunnerEvent ::
  "lib \<Rightarrow> exchange_lib \<Rightarrow> RunnerKeyFinder \<Rightarrow> (string \<Rightarrow> string) \<Rightarrow> time \<Rightarrow> time \<Rightarrow> time \<Rightarrow> string \<Rightarrow> bytes \<Rightarrow> db
     \<Rightarrow> event_error + heartbeat_call option \<times> db" where
  "applyRunnerEvent L J keys sha now clock sqlnow subject raw d =
     (let runnerID = TrimPrefix subject events_prefix
      in if runnerID = subject \<or> runnerID = [] then Inl SubjectInvalid
         else if isRunnerHeartbeat L J raw
         then res_bind (recordRunnerHeartbeatForSubject L J keys now subject raw) (\<lambda>call. Inr (Some call, d))
         else (case DecodeEnvelope L raw of
                 Inl e \<Rightarrow> Inl (EventProto e)
               | Inr envelope \<Rightarrow>
                   (case PayloadBytes envelope of
                      Inl e \<Rightarrow> Inl (EventProto e)
                    | Inr rawPayload \<Rightarrow>
                        (case DecodeEventPayload L rawPayload of
                           Inl e \<Rightarrow> Inl (EventProto e)
                         | Inr payload \<Rightarrow>
                             (case keys runnerID (env_KeyID envelope) of
                                None \<Rightarrow> Inl KeyNotFound
                              | Some publicKey \<Rightarrow>
                                  (case fst (VerifyEvent L raw
                                               [(env_KeyID envelope, \<lparr>vk_ID = env_KeyID envelope, vk_PublicKey = publicKey,
                                                   vk_NotBefore = 0, vk_NotAfter = 0, vk_Revoked = False\<rparr>)]
                                               now (evt_RunnerID payload) (evt_RunID payload) (evt_Attempt payload)
                                               (evt_LeaseToken payload) (evt_Sequence payload) (30 * second) None ()) of
                                     Inl e \<Rightarrow> Inl (EventProto e)
                                   | Inr _ \<Rightarrow>
                                       (case ApplyRunEvent sha clock sqlnow (event_input subject raw payload) d of
                                          Inl e \<Rightarrow> Inl (Stored e)
                                        | Inr d' \<Rightarrow> Inr (None, d'))))))))"

section \<open>The dispatcher\<close>

definition cancellationReconciliationDelay :: duration where
  "cancellationReconciliationDelay = 30 * second"

record tick_world =
  tw_execute :: "nat \<Rightarrow> turn"
  tw_cancel :: "nat \<Rightarrow> turn"
  tw_timeouts :: "time \<times> time"
  tw_stale :: "time \<times> time \<times> time"
  tw_publish :: "queue_message \<Rightarrow> string option"
  tw_publish_now :: time

text \<open>One tick of the timer; a failing stage ends it, and the dispatcher with it.\<close>

definition reconcile_stage :: "store_error + db \<Rightarrow> db \<Rightarrow> store_error option \<times> db" where
  "reconcile_stage r d = (case r of Inl e \<Rightarrow> (Some e, d) | Inr d' \<Rightarrow> (None, d'))"

definition dispatcher_tick ::
  "lib \<Rightarrow> (execution_spec \<Rightarrow> string) \<Rightarrow> SigningKey \<Rightarrow> tick_world \<Rightarrow> db \<times> queue_message list \<Rightarrow> store_error option \<times> db \<times> queue_message list" where
  "dispatcher_tick L digest k w s =
     (case dispatchWaiting L digest k (tw_execute w) (fst s) of
        (Some e, d1) \<Rightarrow> (Some e, d1, snd s)
      | (None, d1) \<Rightarrow>
     (case dispatchCancellations L k (tw_cancel w) d1 of
        (Some e, d2) \<Rightarrow> (Some e, d2, snd s)
      | (None, d2) \<Rightarrow>
     (case reconcile_stage (ReconcileTimedOutDispatches (fst (tw_timeouts w)) (snd (tw_timeouts w)) d2) d2 of
        (Some e, d3) \<Rightarrow> (Some e, d3, snd s)
      | (None, d3) \<Rightarrow>
     (case reconcile_stage (ReconcileStaleCancellations (fst (tw_stale w) - cancellationReconciliationDelay)
                              (fst (snd (tw_stale w))) (snd (snd (tw_stale w))) d3) d3 of
        (Some e, d4) \<Rightarrow> (Some e, d4, snd s)
      | (None, d4) \<Rightarrow> (None, publishPending (tw_publish w) (tw_publish_now w) (d4, snd s))))))"

datatype dispatcher_input =
    Tick tick_world
  | Delivery string bytes time time time

text \<open>
  \<^verbatim>\<open>RunDispatcher\<close> on a sequence of ticks and deliveries. A message that is refused is
  redelivered by the queue and changes nothing; an error in a tick ends the dispatcher.
\<close>

fun RunDispatcher ::
  "lib \<Rightarrow> exchange_lib \<Rightarrow> RunnerKeyFinder \<Rightarrow> (execution_spec \<Rightarrow> string) \<Rightarrow> (string \<Rightarrow> string) \<Rightarrow> SigningKey
     \<Rightarrow> dispatcher_input list \<Rightarrow> db \<times> queue_message list \<Rightarrow> store_error option \<times> db \<times> queue_message list" where
  "RunDispatcher L J keys digest sha k [] s = (None, s)"
| "RunDispatcher L J keys digest sha k (Tick w # inputs) s =
     (case dispatcher_tick L digest k w s of
        (Some e, s') \<Rightarrow> (Some e, s')
      | (None, s') \<Rightarrow> RunDispatcher L J keys digest sha k inputs s')"
| "RunDispatcher L J keys digest sha k (Delivery subject raw now clock sqlnow # inputs) s =
     (case applyRunnerEvent L J keys sha now clock sqlnow subject raw (fst s) of
        Inl _ \<Rightarrow> RunDispatcher L J keys digest sha k inputs s
      | Inr (_, d') \<Rightarrow> RunDispatcher L J keys digest sha k inputs (d', snd s))"

section \<open>Start claims\<close>

definition startClaimClockTolerance :: duration where
  "startClaimClockTolerance = 5 * second"

definition start_claim_input :: "StartClaimPayload \<Rightarrow> StartClaimInput" where
  "start_claim_input claim =
     StartClaimInput.make (StartClaimPayload.sc_RunID claim) (StartClaimPayload.sc_RunnerID claim)
       (StartClaimPayload.sc_RunnerSessionID claim) (StartClaimPayload.sc_LeaseToken claim) (sc_ExecutionSpecDigest claim)
       (uint (StartClaimPayload.sc_Attempt claim)) (sint (StartClaimPayload.sc_FencingToken claim))"

definition refused_reply :: "bool \<Rightarrow> string \<Rightarrow> StartClaimReply" where
  "refused_reply retry error = \<lparr>rp_Granted = False, rp_Retry = retry, rp_Error = error, rp_Grant = None\<rparr>"

text \<open>The reply before it is encoded, and the database after the claim.\<close>

definition start_claim_reply ::
  "lib \<Rightarrow> exchange_lib \<Rightarrow> RunnerKeyFinder \<Rightarrow> SigningKey \<Rightarrow> time \<Rightarrow> time \<Rightarrow> bytes \<Rightarrow> db \<Rightarrow> StartClaimReply \<times> db" where
  "start_claim_reply L J keys k now sqlnow raw d =
     (let rejected = (refused_reply False ''start claim rejected'', d)
      in case DecodeEnvelope L raw of
           Inl _ \<Rightarrow> rejected
         | Inr envelope \<Rightarrow>
             (case PayloadBytes envelope of
                Inl _ \<Rightarrow> rejected
              | Inr payloadBytes \<Rightarrow>
                  (case claim_unmarshal J payloadBytes of
                     None \<Rightarrow> rejected
                   | Some claim \<Rightarrow>
                       (if StartClaim_Validate claim \<noteq> Inr () then rejected
                        else (case keys (StartClaimPayload.sc_RunnerID claim) (env_KeyID envelope) of
                                None \<Rightarrow> rejected
                              | Some publicKey \<Rightarrow>
                                  (if Verify L publicKey StartClaimSignatureDomain envelope \<noteq> Inr () then rejected
                                   else if sc_IssuedAt claim > now + startClaimClockTolerance \<or> sc_IssuedAt claim < now - minute
                                   then rejected
                                   else (case ClaimStart sqlnow (start_claim_input claim) d of
                                           Inl _ \<Rightarrow> (refused_reply True ''start claim unavailable'', d)
                                         | Inr ((grantedAt, granted), d') \<Rightarrow>
                                             (if \<not> granted then (refused_reply False ''start claim rejected'', d')
                                              else (case grant_marshal J (claim, grantedAt) of
                                                      None \<Rightarrow> (refused_reply True ''start grant encoding failed'', d')
                                                    | Some grantPayload \<Rightarrow>
                                                        (case Sign L (sk_Private k) StartClaimSignatureDomain (NewEnvelope (sk_ID k) grantPayload) of
                                                           Inl _ \<Rightarrow> (refused_reply True ''start grant signing failed'', d')
                                                         | Inr grant \<Rightarrow>
                                                             (\<lparr>rp_Granted = True, rp_Retry = False, rp_Error = [], rp_Grant = Some grant\<rparr>, d')))))))))))"

text \<open>\<^verbatim>\<open>encodeStartClaimReply\<close> drops the error: a reply that cannot be encoded is the empty message.\<close>

definition encodeStartClaimReply :: "exchange_lib \<Rightarrow> StartClaimReply \<Rightarrow> bytes" where
  "encodeStartClaimReply J reply = (case reply_marshal J reply of None \<Rightarrow> [] | Some raw \<Rightarrow> raw)"

definition startClaimResponse ::
  "lib \<Rightarrow> exchange_lib \<Rightarrow> RunnerKeyFinder \<Rightarrow> SigningKey \<Rightarrow> time \<Rightarrow> time \<Rightarrow> bytes \<Rightarrow> db \<Rightarrow> bytes \<times> db" where
  "startClaimResponse L J keys k now sqlnow raw d =
     (case start_claim_reply L J keys k now sqlnow raw d of (reply, d') \<Rightarrow> (encodeStartClaimReply J reply, d'))"

datatype start_error = ErrStartRejected | ErrStartUnavailable

definition sameStartClaim :: "StartClaimPayload \<Rightarrow> StartClaimPayload \<Rightarrow> bool" where
  "sameStartClaim left right \<longleftrightarrow>
     sc_Version left = sc_Version right \<and> sc_RequestID left = sc_RequestID right
     \<and> StartClaimPayload.sc_RunID left = StartClaimPayload.sc_RunID right
     \<and> StartClaimPayload.sc_RunnerID left = StartClaimPayload.sc_RunnerID right
     \<and> StartClaimPayload.sc_RunnerSessionID left = StartClaimPayload.sc_RunnerSessionID right
     \<and> StartClaimPayload.sc_LeaseToken left = StartClaimPayload.sc_LeaseToken right
     \<and> StartClaimPayload.sc_Attempt left = StartClaimPayload.sc_Attempt right
     \<and> StartClaimPayload.sc_FencingToken left = StartClaimPayload.sc_FencingToken right
     \<and> sc_ExecutionSpecDigest left = sc_ExecutionSpecDigest right \<and> sc_IssuedAt left = sc_IssuedAt right"

definition start_claim_message :: "lib \<Rightarrow> exchange_lib \<Rightarrow> SigningKey \<Rightarrow> StartClaimPayload \<Rightarrow> bytes option" where
  "start_claim_message L J k claim =
     (if length (sk_Private k) \<noteq> 64 \<or> StartClaim_Validate claim \<noteq> Inr () then None
      else (case claim_marshal J claim of
              None \<Rightarrow> None
            | Some payload \<Rightarrow>
                (case Sign L (sk_Private k) StartClaimSignatureDomain (NewEnvelope (sk_ID k) payload) of
                   Inl _ \<Rightarrow> None
                 | Inr envelope \<Rightarrow> (case EncodeEnvelope L envelope of Inl _ \<Rightarrow> None | Inr raw \<Rightarrow> Some raw))))"

definition read_start_reply :: "lib \<Rightarrow> exchange_lib \<Rightarrow> bytes \<Rightarrow> time \<Rightarrow> StartClaimPayload \<Rightarrow> bytes \<Rightarrow> start_error + unit" where
  "read_start_reply L J controlPublicKey now claim response =
     (case reply_unmarshal J response of
        None \<Rightarrow> Inl ErrStartUnavailable
      | Some reply \<Rightarrow>
          (if \<not> rp_Granted reply then Inl (if rp_Retry reply then ErrStartUnavailable else ErrStartRejected)
           else (case rp_Grant reply of
                   None \<Rightarrow> Inl ErrStartUnavailable
                 | Some given \<Rightarrow>
                     (case envelope_marshal L given of
                        None \<Rightarrow> Inl ErrStartUnavailable
                      | Some grantRaw \<Rightarrow>
                          (case VerifyRawEnvelope L grantRaw controlPublicKey StartClaimSignatureDomain of
                             Inl _ \<Rightarrow> Inl ErrStartUnavailable
                           | Inr (_, grantBytes) \<Rightarrow>
                               (case grant_unmarshal J grantBytes of
                                  None \<Rightarrow> Inl ErrStartUnavailable
                                | Some (granted, grantedAt) \<Rightarrow>
                                    (if \<not> sameStartClaim granted claim \<or> grantedAt = 0 \<or> grantedAt > now + 5 * second
                                     then Inl ErrStartUnavailable else Inr ())))))))"

text \<open>\<open>request\<close> is the exchange over the queue: the answer, or nothing on a timeout.\<close>

definition NATSStartClaimer_ClaimStart ::
  "lib \<Rightarrow> exchange_lib \<Rightarrow> SigningKey \<Rightarrow> bytes \<Rightarrow> (string \<Rightarrow> bytes \<Rightarrow> 's \<Rightarrow> bytes option \<times> 's) \<Rightarrow> time \<Rightarrow> StartClaimPayload \<Rightarrow> 's
     \<Rightarrow> (start_error + unit) \<times> 's" where
  "NATSStartClaimer_ClaimStart L J k controlPublicKey request now claim s =
     (if length controlPublicKey \<noteq> 32 then (Inl ErrStartUnavailable, s)
      else (case start_claim_message L J k claim of
              None \<Rightarrow> (Inl ErrStartUnavailable, s)
            | Some raw \<Rightarrow>
                (case request (StartClaimSubject (StartClaimPayload.sc_RunnerID claim)) raw s of
                   (None, s') \<Rightarrow> (Inl ErrStartUnavailable, s')
                 | (Some response, s') \<Rightarrow> (read_start_reply L J controlPublicKey now claim response, s'))))"

section \<open>Secret delivery\<close>

definition secretDeliveryClockTolerance :: duration where
  "secretDeliveryClockTolerance = 5 * second"

datatype integrity = SecretIntegrityUnknown | SecretIntegrityValid | SecretIntegrityFailed
  | SecretIntegrityDecryptionFailed | SecretIntegrityKeyUnavailable

record EncryptedSecretRecord =
  esr_ID :: string
  esr_EncryptedValue :: bytes
  esr_IntegrityStatus :: integrity
  esr_LastValidatedAt :: "time option"

datatype decrypt_error = ErrSecretIntegrity | ErrSecretDecryption

text \<open>\<open>gcm_open\<close> is AES-GCM of the standard library: key, nonce and sealed text to the plain text.\<close>

definition DecryptSecret ::
  "(bytes \<Rightarrow> bytes \<Rightarrow> bytes \<Rightarrow> string option) \<Rightarrow> bytes \<Rightarrow> bytes \<Rightarrow> decrypt_error + string" where
  "DecryptSecret gcm_open key encrypted =
     (if length key \<notin> {16, 24, 32} \<or> length encrypted < 12 then Inl ErrSecretDecryption
      else (case gcm_open key (take 12 encrypted) (drop 12 encrypted) of
              None \<Rightarrow> Inl ErrSecretIntegrity
            | Some plain \<Rightarrow> Inr plain))"

definition EncryptSecret ::
  "(bytes \<Rightarrow> bytes \<Rightarrow> string \<Rightarrow> bytes) \<Rightarrow> bytes option \<Rightarrow> bytes \<Rightarrow> string \<Rightarrow> bytes option" where
  "EncryptSecret gcm_seal nonce key value' =
     (if length key \<notin> {16, 24, 32} then None
      else (case nonce of None \<Rightarrow> None | Some n \<Rightarrow> Some (n @ gcm_seal key n value')))"

type_synonym secret_table = "EncryptedSecretRecord list"

definition SetIntegrityStatus :: "string \<Rightarrow> integrity \<Rightarrow> time \<Rightarrow> secret_table \<Rightarrow> secret_table" where
  "SetIntegrityStatus ident status validatedAt secrets =
     sql_update (\<lambda>r. esr_ID r = ident) (\<lambda>r. r\<lparr>esr_IntegrityStatus := status, esr_LastValidatedAt := Some validatedAt\<rparr>) secrets"

text \<open>
  The loop over the references of the request. It stops at the first reference that has no
  record or does not decrypt; the status of every record it touched is noted.
\<close>

fun collect_secrets ::
  "(bytes \<Rightarrow> bytes \<Rightarrow> bytes \<Rightarrow> string option) \<Rightarrow> bytes \<Rightarrow> time \<Rightarrow> (string, string) gomap \<Rightarrow> (string, string) gomap \<Rightarrow> secret_table
     \<Rightarrow> (string, string) gomap option \<times> secret_table" where
  "collect_secrets gcm_open key now [] values' secrets = (Some values', secrets)"
| "collect_secrets gcm_open key now ((name, ident) # refs) values' secrets =
     (case find_row (\<lambda>r. esr_ID r = ident) secrets of
        None \<Rightarrow> (None, secrets)
      | Some record \<Rightarrow>
          (if length key \<noteq> 32 then (None, SetIntegrityStatus (esr_ID record) SecretIntegrityKeyUnavailable now secrets)
           else (case DecryptSecret gcm_open key (esr_EncryptedValue record) of
                   Inl e \<Rightarrow> (None, SetIntegrityStatus (esr_ID record)
                               (if e = ErrSecretDecryption then SecretIntegrityDecryptionFailed else SecretIntegrityFailed) now secrets)
                 | Inr plain \<Rightarrow>
                     collect_secrets gcm_open key now refs (AList.update name plain values')
                       (SetIntegrityStatus (esr_ID record) SecretIntegrityValid now secrets))))"

definition secret_request_input :: "SecretDeliveryRequest \<Rightarrow> SecretRequestInput" where
  "secret_request_input request =
     \<lparr>sq_OrderID = sd_OrderID request, sq_RunID = sd_RunID request, sq_RunnerID = sd_RunnerID request,
      sq_RunnerSessionID = sd_RunnerSessionID request, sq_LeaseToken = sd_LeaseToken request,
      sq_Digest = sd_ExecutionSpecDigest request, sq_Attempt = uint (sd_Attempt request),
      sq_FencingToken = sint (sd_FencingToken request), sq_SecretRefs = sd_SecretRefs request\<rparr>"

definition secret_delivery_reply ::
  "lib \<Rightarrow> exchange_lib \<Rightarrow> RunnerKeyFinder \<Rightarrow> (bytes \<Rightarrow> bytes \<Rightarrow> bytes \<Rightarrow> string option) \<Rightarrow> bytes \<Rightarrow> time \<Rightarrow> time \<Rightarrow> bytes \<Rightarrow> db \<Rightarrow> secret_table
     \<Rightarrow> SecretDeliveryResponse \<times> secret_table" where
  "secret_delivery_reply L J keys gcm_open encryptionKey received now raw d secrets =
     (let rejected = (\<lambda>ident. \<lparr>sr_Version = ProtocolVersion, sr_RequestID = ident, sr_Values = [],
                              sr_Error = ''secret delivery rejected'', sr_RespondedAt = received\<rparr>)
      in case DecodeEnvelope L raw of
           Inl _ \<Rightarrow> (rejected [], secrets)
         | Inr envelope \<Rightarrow>
             (case PayloadBytes envelope of
                Inl _ \<Rightarrow> (rejected [], secrets)
              | Inr payload \<Rightarrow>
                  (case request_unmarshal J payload of
                     None \<Rightarrow> (rejected [], secrets)
                   | Some request \<Rightarrow>
                       (if SecretRequest_Validate request \<noteq> Inr () then (rejected [], secrets)
                        else let rejection = (rejected (sd_RequestID request), secrets)
                             in case keys (sd_RunnerID request) (env_KeyID envelope) of
                                  None \<Rightarrow> rejection
                                | Some publicKey \<Rightarrow>
                                    (if Verify L publicKey SecretDeliverySignatureDomain envelope \<noteq> Inr () then rejection
                                     else if sd_IssuedAt request > now + secretDeliveryClockTolerance \<or> sd_IssuedAt request < now - minute
                                     then rejection
                                     else if AuthorizeSecretRequest (secret_request_input request) d \<noteq> Inr () then rejection
                                     else (case collect_secrets gcm_open encryptionKey now (sd_SecretRefs request) [] secrets of
                                             (None, secrets') \<Rightarrow> (rejected (sd_RequestID request), secrets')
                                           | (Some values', secrets') \<Rightarrow>
                                               (\<lparr>sr_Version = ProtocolVersion, sr_RequestID = sd_RequestID request, sr_Values = values',
                                                 sr_Error = [], sr_RespondedAt = now\<rparr>, secrets')))))))"

definition signSecretDeliveryResponse :: "lib \<Rightarrow> exchange_lib \<Rightarrow> SigningKey \<Rightarrow> SecretDeliveryResponse \<Rightarrow> bytes" where
  "signSecretDeliveryResponse L J k reply =
     (case response_marshal J reply of
        None \<Rightarrow> []
      | Some payload \<Rightarrow>
          (case Sign L (sk_Private k) SecretDeliverySignatureDomain (NewEnvelope (sk_ID k) payload) of
             Inl _ \<Rightarrow> []
           | Inr envelope \<Rightarrow> (case EncodeEnvelope L envelope of Inl _ \<Rightarrow> [] | Inr raw \<Rightarrow> raw)))"

definition secretDeliveryResponse ::
  "lib \<Rightarrow> exchange_lib \<Rightarrow> RunnerKeyFinder \<Rightarrow> SigningKey \<Rightarrow> (bytes \<Rightarrow> bytes \<Rightarrow> bytes \<Rightarrow> string option) \<Rightarrow> bytes \<Rightarrow> time \<Rightarrow> time \<Rightarrow> bytes
     \<Rightarrow> db \<Rightarrow> secret_table \<Rightarrow> bytes \<times> secret_table" where
  "secretDeliveryResponse L J keys k gcm_open encryptionKey received now raw d secrets =
     (case secret_delivery_reply L J keys gcm_open encryptionKey received now raw d secrets of
        (reply, secrets') \<Rightarrow> (signSecretDeliveryResponse L J k reply, secrets'))"

text \<open>The worker's side: the signed request, and the checks of the response.\<close>

definition secret_request_message :: "lib \<Rightarrow> exchange_lib \<Rightarrow> SigningKey \<Rightarrow> SecretDeliveryRequest \<Rightarrow> bytes option" where
  "secret_request_message L J k request =
     (if length (sk_Private k) \<noteq> 64 \<or> SecretRequest_Validate request \<noteq> Inr () then None
      else (case request_marshal J request of
              None \<Rightarrow> None
            | Some payload \<Rightarrow>
                (case Sign L (sk_Private k) SecretDeliverySignatureDomain (NewEnvelope (sk_ID k) payload) of
                   Inl _ \<Rightarrow> None
                 | Inr envelope \<Rightarrow> (case EncodeEnvelope L envelope of Inl _ \<Rightarrow> None | Inr raw \<Rightarrow> Some raw))))"

definition read_secret_response ::
  "lib \<Rightarrow> exchange_lib \<Rightarrow> bytes \<Rightarrow> time \<Rightarrow> SecretDeliveryRequest \<Rightarrow> bytes \<Rightarrow> (string, string) gomap option" where
  "read_secret_response L J controlPublicKey now request response =
     (case DecodeEnvelope L response of
        Inl _ \<Rightarrow> None
      | Inr envelope \<Rightarrow>
          (if Verify L controlPublicKey SecretDeliverySignatureDomain envelope \<noteq> Inr () then None
           else (case PayloadBytes envelope of
                   Inl _ \<Rightarrow> None
                 | Inr payload \<Rightarrow>
                     (case response_unmarshal J payload of
                        None \<Rightarrow> None
                      | Some reply \<Rightarrow>
                          (if SecretResponse_Validate reply \<noteq> Inr () \<or> sr_RequestID reply \<noteq> sd_RequestID request
                              \<or> sr_RespondedAt reply > now + 5 * second \<or> sr_RespondedAt reply < now - minute then None
                           else if sr_Error reply \<noteq> [] then None
                           else if map_len (sr_Values reply) \<noteq> map_len (sd_SecretRefs request) then None
                           else if \<not> list_all (\<lambda>(name, _). name \<in> fst ` set (sd_SecretRefs request)) (sr_Values reply) then None
                           else Some (sr_Values reply))))))"

definition NATSSecretFetcher_Fetch ::
  "lib \<Rightarrow> exchange_lib \<Rightarrow> SigningKey \<Rightarrow> bytes \<Rightarrow> (string \<Rightarrow> bytes \<Rightarrow> 's \<Rightarrow> bytes option \<times> 's) \<Rightarrow> time \<Rightarrow> SecretDeliveryRequest \<Rightarrow> 's
     \<Rightarrow> (string, string) gomap option \<times> 's" where
  "NATSSecretFetcher_Fetch L J k controlPublicKey request_over now request s =
     (if length controlPublicKey \<noteq> 32 then (None, s)
      else (case secret_request_message L J k request of
              None \<Rightarrow> (None, s)
            | Some raw \<Rightarrow>
                (case request_over (SecretDeliverySubject (sd_RunnerID request)) raw s of
                   (None, s') \<Rightarrow> (None, s')
                 | (Some response, s') \<Rightarrow> (read_secret_response L J controlPublicKey now request response, s'))))"

end
