(* ===== verification/DispatcherFacts.thy ===== *)
theory DispatcherFacts
  imports Dispatcher ProtocolFacts DispatchProperties
begin

text \<open>
  The servers between the run store and the queue. The dispatcher only takes steps of the run
  store, so it keeps every invariant of it; the orders it seals pass the checks of the runner they
  are for; an event is applied exactly as its signed payload says; and the start claim and the
  secret request of a worker behave like local calls of the store.
\<close>

section \<open>Laws of the codecs\<close>

text \<open>What \<^verbatim>\<open>encoding/json\<close> documents (a value that was written is read back) and what
  \<^verbatim>\<open>crypto/ed25519\<close> documents of a key pair.\<close>

definition reads_back :: "('a \<Rightarrow> bytes option) \<Rightarrow> (bytes \<Rightarrow> 'a option) \<Rightarrow> bool" where
  "reads_back marshal unmarshal \<longleftrightarrow> (\<forall>x b. marshal x = Some b \<longrightarrow> unmarshal b = Some x)"

definition key_pair :: "lib \<Rightarrow> bytes \<Rightarrow> bytes \<Rightarrow> bool" where
  "key_pair L sk pk \<longleftrightarrow> length sk = 64 \<and> length pk = 32
     \<and> (\<forall>m. ed25519_verify L pk m (ed25519_sign L sk m)) \<and> (\<forall>m. length (ed25519_sign L sk m) = 64)"

lemma reads_backD: "reads_back f g \<Longrightarrow> f x = Some b \<Longrightarrow> g b = Some x"
  by (simp add: reads_back_def)

text \<open>A message signed with one half of a key pair is decoded and verified with the other.\<close>

lemma sealed_verifies:
  assumes pair: "key_pair L sk pk" and env: "reads_back (envelope_marshal L) (envelope_unmarshal L)"
    and sign: "Sign L sk domain (NewEnvelope ident payload) = Inr e" and wire: "EncodeEnvelope L e = Inr raw"
    and size: "int (length raw) \<le> DefaultMaxEnvelopeBytes" and ok: "payload \<noteq> []" "ident \<noteq> []"
  shows "DecodeEnvelope L raw = Inr e" "Verify L pk domain e = Inr ()" "PayloadBytes e = Inr payload" "env_KeyID e = ident"
proof -
  note s = Sign_Inr [OF sign ok(1)]
  have "ed25519_sign L sk (signingBytes domain payload) \<noteq> []" using pair unfolding key_pair_def by (metis list.size(3) zero_neq_numeral)
  then have sb: "SignatureBytes e = Inr (ed25519_sign L sk (signingBytes domain payload))"
    using s(5) SignatureBytes_signed by blast
  have "envelope_marshal L e = Some raw" using wire by (simp add: EncodeEnvelope_def split: option.splits)
  then have um: "envelope_unmarshal L raw = Some e" by (rule reads_backD [OF env])
  show "DecodeEnvelope L raw = Inr e"
    by (rule DecodeEnvelope_signed [OF _ um s(4) _ s(2) sb]) (use size ok(2) s(3) in \<open>simp_all add: DefaultMaxEnvelopeBytes_def\<close>)
  show "Verify L pk domain e = Inr ()" using pair sb s(2) by (auto simp: Verify_Inr key_pair_def)
  show "PayloadBytes e = Inr payload" "env_KeyID e = ident" by (rule s(2), rule s(3))
qed

section \<open>The dispatcher takes steps of the store\<close>

lemma store_steps_trans [trans]:
  assumes "store_steps d d'" "store_steps d' d''"
  shows "store_steps d d''"
  using assms(2,1) by (induction rule: store_steps.induct) (auto intro: store_steps.step)

lemma store_steps_one: "store_step d d' \<Longrightarrow> store_steps d d'"
  by (rule store_steps.step [OF store_steps.start])

lemma dispatch_turns_steps: "dispatch_turns L digest k n w d = (e, d') \<Longrightarrow> store_steps d d'"
proof (induction n arbitrary: w d)
  case (Suc n)
  show ?case
  proof (cases "ClaimWaiting digest (tn_token (w 0)) (tn_fresh (w 0)) (tn_clock (w 0)) (tn_now (w 0))
             (Some (\<lambda>c. seal_order L k (execute_order k (tn_issued (w 0)) (tn_notBefore (w 0)) c))) d")
    case (Inr r)
    obtain c d1 where r: "r = (c, d1)" by force
    have one: "store_steps d d1" using Inr r by (intro store_steps_one store_step.claim_waiting) simp
    show ?thesis
    proof (cases c)
      case (Some x)
      then have "dispatch_turns L digest k n (\<lambda>i. w (Suc i)) d1 = (e, d')" using Suc.prems Inr r by simp
      then show ?thesis using Suc.IH one store_steps_trans by blast
    qed (use Suc.prems Inr r one in simp)
  qed (use Suc.prems in \<open>auto intro: store_steps.start\<close>)
qed (simp add: store_steps.start)

lemma cancel_turns_steps: "cancel_turns L k n w d = (e, d') \<Longrightarrow> store_steps d d'"
proof (induction n arbitrary: w d)
  case (Suc n)
  show ?case
  proof (cases "ClaimCancelling (tn_now (w 0)) (Some (\<lambda>c. seal_order L k (cancel_order k (tn_issued (w 0)) c))) d")
    case (Inr r)
    obtain c d1 where r: "r = (c, d1)" by force
    have one: "store_steps d d1" using Inr r by (intro store_steps_one store_step.claim_cancelling) simp
    show ?thesis
    proof (cases c)
      case (Some x)
      then have "cancel_turns L k n (\<lambda>i. w (Suc i)) d1 = (e, d')" using Suc.prems Inr r by simp
      then show ?thesis using Suc.IH one store_steps_trans by blast
    qed (use Suc.prems Inr r one in simp)
  qed (use Suc.prems in \<open>auto intro: store_steps.start\<close>)
qed (simp add: store_steps.start)

lemma publish_items_steps: "publish_items publish now items (d, sent) = (d', sent') \<Longrightarrow> store_steps d d'"
proof (induction items arbitrary: d sent)
  case (Cons item items)
  let ?d = "case publish (outbox_message item) of Some err \<Rightarrow> RetryDispatch now (ob_message_id item) err d
                                               | None \<Rightarrow> MarkDispatchPublished now (ob_message_id item) d"
  have "store_steps d ?d"
    by (cases "publish (outbox_message item)")
      (auto intro: store_steps_one [OF store_step.retry_dispatch] store_steps_one [OF store_step.published])
  moreover have "store_steps ?d d'" using Cons by (auto split: option.splits)
  ultimately show ?case by (rule store_steps_trans)
qed (simp add: store_steps.start)

lemma reconcile_stage_steps:
  "reconcile_stage (ReconcileTimedOutDispatches clock now d) d = (e, d') \<Longrightarrow> store_steps d d'"
  "reconcile_stage (ReconcileStaleCancellations cutoff clock now d) d = (e, d') \<Longrightarrow> store_steps d d'"
  by (auto simp: reconcile_stage_def intro: store_steps.start store_steps_one store_step.timed_out store_step.stale split: sum.splits)

lemma dispatcher_tick_steps:
  assumes "dispatcher_tick L digest k w (d, sent) = (e, d', sent')"
  shows "store_steps d d'"
proof -
  obtain e1 d1 where 1: "dispatchWaiting L digest k (tw_execute w) d = (e1, d1)" by force
  obtain e2 d2 where 2: "dispatchCancellations L k (tw_cancel w) d1 = (e2, d2)" by force
  obtain e3 d3 where 3: "reconcile_stage (ReconcileTimedOutDispatches (fst (tw_timeouts w)) (snd (tw_timeouts w)) d2) d2 = (e3, d3)" by force
  obtain e4 d4 where 4: "reconcile_stage (ReconcileStaleCancellations (fst (tw_stale w) - cancellationReconciliationDelay)
                              (fst (snd (tw_stale w))) (snd (snd (tw_stale w))) d3) d3 = (e4, d4)" by force
  obtain d5 s5 where 5: "publishPending (tw_publish w) (tw_publish_now w) (d4, sent) = (d5, s5)" by force
  have steps: "store_steps d d1" "store_steps d1 d2" "store_steps d2 d3" "store_steps d3 d4" "store_steps d4 d5"
    using 1 2 3 4 5 dispatch_turns_steps cancel_turns_steps reconcile_stage_steps publish_items_steps
    unfolding dispatchWaiting_def dispatchCancellations_def publishPending_def by auto
  have "d' \<in> {d1, d2, d3, d4, d5}"
    using assms 1 2 3 4 5 by (auto simp: dispatcher_tick_def split: option.splits)
  moreover have "store_steps d d2" by (rule store_steps_trans [OF steps(1,2)])
  moreover from this have "store_steps d d3" by (rule store_steps_trans [OF _ steps(3)])
  moreover from this have "store_steps d d4" by (rule store_steps_trans [OF _ steps(4)])
  moreover from this have "store_steps d d5" by (rule store_steps_trans [OF _ steps(5)])
  ultimately show ?thesis using steps(1) by auto
qed

lemma applyRunnerEvent_steps:
  assumes "applyRunnerEvent L J keys sha now clock sqlnow subject raw d = Inr (call, d')"
  shows "store_steps d d'"
  using assms
  by (auto simp: applyRunnerEvent_def Let_def res_bind_Inr intro: store_steps.start store_steps_one store_step.apply_event
      split: if_splits sum.splits option.splits)

text \<open>
  C2. The dispatcher refines the run store. Whatever ticks and messages it receives, and whether it
  ends with an error or not, the database it leaves was reached by transactions of the run store
  only, so that the invariant of the store (one live attempt per run, exact capacity counts,
  exclusive leases) holds in it.
\<close>

theorem dispatcher_refines_store:
  assumes "RunDispatcher L J keys digest sha k inputs (d, sent) = (e, d', sent')" "store_inv d"
  shows "store_steps d d' \<and> store_inv d'"
proof -
  have "store_steps d d'"
    using assms(1)
  proof (induction inputs arbitrary: d sent)
    case (Cons input inputs)
    show ?case
    proof (cases input)
      case (Tick w)
      obtain e1 d1 s1 where t: "dispatcher_tick L digest k w (d, sent) = (e1, d1, s1)" by (metis prod_cases3)
      then show ?thesis
        using Cons Tick dispatcher_tick_steps [OF t] by (cases e1) (auto intro: store_steps_trans)
    next
      case (Delivery subject raw now clock sqlnow)
      show ?thesis
      proof (cases "applyRunnerEvent L J keys sha now clock sqlnow subject raw d")
        case (Inr r)
        then have "RunDispatcher L J keys digest sha k inputs (snd r, sent) = (e, d', sent')"
          using Cons.prems Delivery by (simp split: prod.splits)
        moreover have "store_steps d (snd r)" using applyRunnerEvent_steps [of L J keys sha now clock sqlnow subject raw d "fst r" "snd r"] Inr by simp
        ultimately show ?thesis using Cons.IH store_steps_trans by blast
      qed (use Cons Delivery in simp)
    qed
  qed (simp add: store_steps.start)
  then show ?thesis using inv_store_steps assms(2) by blast
qed

section \<open>Orders\<close>

lemma seal_order_Some:
  assumes "seal_order L k p = Some wire"
  obtains raw e where "EncodeOrderPayload L p = Inr raw" "SignOrder L k raw = Inr e" "EncodeEnvelope L e = Inr wire"
  using assms by (auto simp: seal_order_def split: sum.splits)

lemma claimed_attempt_positive:
  assumes "ClaimWaiting digest token fresh clock now build d = Inr (Some c, d')"
  shows "0 < dc_AttemptNumber c" "dc_AttemptID c \<noteq> []"
proof -
  from assms obtain r tv t rr rp rs envelope where c: "build_candidate digest token clock d (r, tv, t, rr, rp, rs) = Inr c"
    and ok: "dispatch_candidate now fresh envelope c d = Inr d'" by (rule ClaimWaiting_Inr)
  show "0 < dc_AttemptNumber c"
    using ok by (auto simp: dispatch_candidate_def res_bind_Inr insert_attempt_def new_attempt_def split: if_splits)
  show "dc_AttemptID c \<noteq> []" using build_candidate_Inr(5) [OF c] by simp
qed

lemma word_of_positive:
  fixes n :: int
  assumes "0 < n" "n < 2 ^ 32"
  shows "(word_of_int n :: 32 word) \<noteq> 0"
proof
  assume "(word_of_int n :: 32 word) = 0"
  then have "uint (word_of_int n :: 32 word) = 0" by simp
  then show False using assms by (simp add: uint_word_of_int)
qed

text \<open>
  C3. Dispatched orders are accepted. When the dispatcher claims a run, the order it puts in the
  outbox, addressed to the chosen runner, passes every check of that runner from the moment it was
  issued until the lease of the attempt ends, and the runner reads exactly the order that was
  made for the attempt; so a run does not stall between dispatcher and runner. The command must
  have no empty argument after the global variables are resolved, the working directory must not
  be empty, and the numbers must fit the fields of the order.
\<close>

theorem dispatched_order_accepted:
  assumes claim: "ClaimWaiting digest token fresh clock sqlnow
                    (Some (\<lambda>c. seal_order L k (execute_order k issued notBefore c))) d = Inr (Some c, d')"
    and laws: "reads_back (order_marshal L) (order_unmarshal L)" "reads_back (envelope_marshal L) (envelope_unmarshal L)"
      "key_pair L (sk_Private k) pk"
    and key: "map_of keys (sk_ID k) = Some \<lparr>vk_ID = sk_ID k, vk_PublicKey = pk, vk_NotBefore = nb, vk_NotAfter = na, vk_Revoked = False\<rparr>"
      "sk_ID k \<noteq> []" "nb \<le> now" "na = 0 \<or> now \<le> na"
    and size: "\<And>row. row \<in> set (outbox d') \<Longrightarrow> int (length (ob_envelope row)) \<le> DefaultMaxEnvelopeBytes"
    and fields: "dc_RunID c \<noteq> []" "dc_RunnerID c \<noteq> []" "dc_RunnerSessionID c \<noteq> []" "dc_LeaseToken c \<noteq> []"
      "dc_WorkingDirectory c \<noteq> []" "dc_Command c \<noteq> []" "[] \<notin> set (dc_Command c)" "list_all valid_secret_ref (dc_SecretRefs c)"
    and numbers: "dc_AttemptNumber c < 2 ^ 32" "0 < dc_DurationSeconds c" "dc_DurationSeconds c < 2 ^ 32"
    and clocks: "0 \<le> tol" "0 < issued" "issued \<le> notBefore" "notBefore < dc_LeaseNotAfter c"
      "notBefore \<le> now + tol" "now \<le> dc_LeaseNotAfter c + tol"
  shows "new_attempt c A_DISPATCHED (Some sqlnow) \<in> set (attempts d')
    \<and> (\<exists>row \<in> set (outbox d'). ob_message_id row = dc_AttemptID c \<and> ob_subject row = queue_Subject ''orders'' (dc_RunnerID c)
         \<and> VerifyOrder L (ob_envelope row) keys now (dc_RunnerID c) (dc_RunID c) (word_of_int (dc_AttemptNumber c)) (dc_LeaseToken c)
             tol None () = (Inr (execute_order k issued notBefore c), ()))"
proof -
  let ?p = "execute_order k issued notBefore c"
  from claim obtain wire where wire: "seal_order L k ?p = Some wire" and ok: "dispatch_candidate sqlnow fresh wire c d = Inr d'"
    by (rule ClaimWaiting_Inr) auto
  note rows = dispatch_candidate_runs(2,3) [OF ok]
  obtain raw e where enc: "EncodeOrderPayload L ?p = Inr raw" "SignOrder L k raw = Inr e" "EncodeEnvelope L e = Inr wire"
    using wire by (rule seal_order_Some)
  have small: "int (length wire) \<le> DefaultMaxEnvelopeBytes" using size [OF rows(2)] by (simp add: new_outbox_def)
  have "ValidateExecution ?p = Inr ()"
    using fields claimed_attempt_positive(2) [OF claim] word_of_positive [OF numbers(2,3)]
    by (simp add: ValidateExecution_Inr execute_order_def)
  moreover have "Order_ValidateTime ?p now tol = Inr ()" using clocks by (simp add: Order_ValidateTime_Inr execute_order_def)
  moreover have "ord_Attempt ?p \<noteq> 0"
    using word_of_positive [OF claimed_attempt_positive(1) [OF claim] numbers(1)] by (simp add: execute_order_def)
  ultimately have "VerifyOrder L wire keys now (ord_RunnerID ?p) (ord_RunID ?p) (ord_Attempt ?p) (ord_LeaseToken ?p) tol None ()
      = (case None of None \<Rightarrow> (Inr ?p, ()) | Some f \<Rightarrow> (case f (ord_OrderID ?p) () of (Some err, st') \<Rightarrow> (Inl err, st') | (None, st') \<Rightarrow> (Inr ?p, st')))"
    using laws key
    by (intro signed_order_verdict [OF _ _ _ _ enc small key(1,2)])
      (auto simp: key_pair_def execute_order_def OrderType_Valid_def dest: reads_backD)
  then show ?thesis using rows by (auto simp: new_outbox_def queue_Subject_def execute_order_def intro!: bexI [OF _ rows(2)])
qed

text \<open>The dispatcher does not make these checks itself: an order with an empty argument is sealed, and no runner accepts it.\<close>

theorem empty_argument_undeliverable:
  assumes "seal_order L k (execute_order k issued notBefore c) = Some wire" "[] \<in> set (dc_Command c)"
    and "reads_back (order_marshal L) (order_unmarshal L)" "reads_back (envelope_marshal L) (envelope_unmarshal L)"
  shows "fst (VerifyOrder L wire keys now rid run att lt tol acc st) \<noteq> Inr p"
proof
  assume "fst (VerifyOrder L wire keys now rid run att lt tol acc st) = Inr p"
  then obtain st' where "VerifyOrder L wire keys now rid run att lt tol acc st = (Inr p, st')" by (metis prod.collapse)
  then obtain e where e: "DecodeEnvelope L wire = Inr e" "DecodeOrderPayload L (mustPayload e) = Inr p" "ValidateExecution p = Inr ()"
    by (rule VerifyOrder_Inr)
  let ?p = "execute_order k issued notBefore c"
  obtain raw e' where enc: "EncodeOrderPayload L ?p = Inr raw" "SignOrder L k raw = Inr e'" "EncodeEnvelope L e' = Inr wire"
    using assms(1) by (rule seal_order_Some)
  obtain b where b: "order_marshal L ?p = Some b" "decodePayloadFrame raw = Inr b" "raw \<noteq> []"
    using enc(1) unfolding EncodeOrderPayload_def by (rule frame_of_Inr)
  have "envelope_marshal L e' = Some wire" using enc(3) by (simp add: EncodeEnvelope_def split: option.splits)
  then have "e' = e" using reads_backD [OF assms(4)] DecodeEnvelope_Inr(2) [OF e(1)] by simp
  then have "mustPayload e = raw" using Sign_Inr(2) [OF enc(2) [unfolded SignOrder_def] b(3)] by (simp add: mustPayload_def)
  then have "p = ?p" using e(2) b(2) reads_backD [OF assms(3) b(1)] by (auto simp: DecodeOrderPayload_def split: if_splits)
  then show False using e(3) assms(2) by (simp add: ValidateExecution_Inr execute_order_def)
qed


text \<open>A library for the witnesses: tables that know one order and one envelope.\<close>

definition demo_candidate :: DispatchCandidate where
  "demo_candidate = the (fst (projr sample_claim))"

definition demo_payload :: OrderPayload where
  "demo_payload = execute_order sample_key 1100 1100 demo_candidate"

definition table_lib :: "OrderPayload \<Rightarrow> Envelope \<Rightarrow> lib" where
  "table_lib p e =
     sample_lib\<lparr>envelope_marshal := (\<lambda>x. if x = e then Some [1] else None), envelope_unmarshal := (\<lambda>b. if b = [1] then Some e else None),
                order_marshal := (\<lambda>x. if x = p then Some [1] else None), order_unmarshal := (\<lambda>b. if b = [1] then Some p else None)\<rparr>"

lemma table_lib_laws:
  "reads_back (order_marshal (table_lib p e)) (order_unmarshal (table_lib p e))"
  "reads_back (envelope_marshal (table_lib p e)) (envelope_unmarshal (table_lib p e))"
  "key_pair (table_lib p e) (sk_Private sample_key) (replicate 32 7)"
  by (simp_all add: reads_back_def table_lib_def key_pair_def sample_lib_def sample_sign_def sample_key_def)

lemma table_lib_seals: "seal_order (table_lib p sample_envelope) sample_key p = Some [1]"
proof -
  have "EncodeOrderPayload (table_lib p sample_envelope) p = Inr sample_frame"
    by (simp add: EncodeOrderPayload_def frame_of_def encodePayloadFrame_def table_lib_def sample_frame_def)
  moreover have "SignOrder (table_lib p sample_envelope) sample_key sample_frame = Inr sample_envelope"
    by (simp add: SignOrder_def Sign_def sample_key_def table_lib_def sample_lib_def sample_envelope_def
        PayloadBytes_New sample_sign_def sample_frame_def)
  ultimately show ?thesis by (simp add: seal_order_def EncodeEnvelope_def table_lib_def)
qed

lemma demo_claim:
  "ClaimWaiting (\<lambda>_. ''digest'') (Some ''token'') sample_fresh sample_clock 1000
     (Some (\<lambda>c. seal_order (table_lib demo_payload sample_envelope) sample_key (execute_order sample_key 1100 1100 c))) sample_db
   = Inr (Some demo_candidate, sample_dispatched)"
proof -
  have ok: "ClaimWaiting (\<lambda>_. ''digest'') (Some ''token'') sample_fresh sample_clock 1000 (Some (\<lambda>_. Some [1])) sample_db
      = Inr (Some demo_candidate, sample_dispatched)"
    using sample_claim_ok unfolding demo_candidate_def sample_claim_def .
  have "seal_order (table_lib demo_payload sample_envelope) sample_key (execute_order sample_key 1100 1100 demo_candidate) = Some [1]"
    using table_lib_seals [of demo_payload] by (simp add: demo_payload_def)
  with ok show ?thesis unfolding ClaimWaiting_def by (auto simp: res_bind_Inr split: option.splits if_splits)
qed

lemma demo_fields:
  "dc_RunID demo_candidate \<noteq> []" "dc_RunnerID demo_candidate \<noteq> []" "dc_RunnerSessionID demo_candidate \<noteq> []"
  "dc_LeaseToken demo_candidate \<noteq> []" "dc_WorkingDirectory demo_candidate \<noteq> []" "dc_Command demo_candidate \<noteq> []"
  "[] \<notin> set (dc_Command demo_candidate)" "list_all valid_secret_ref (dc_SecretRefs demo_candidate)"
  "dc_AttemptNumber demo_candidate < 2 ^ 32" "0 < dc_DurationSeconds demo_candidate" "dc_DurationSeconds demo_candidate < 2 ^ 32"
  "1100 < dc_LeaseNotAfter demo_candidate" "1200 \<le> dc_LeaseNotAfter demo_candidate"
  by code_simp+

lemma demo_sizes: "row \<in> set (outbox sample_dispatched) \<Longrightarrow> length (ob_envelope row) = 1"
proof -
  assume "row \<in> set (outbox sample_dispatched)"
  moreover have "list_all (\<lambda>row. length (ob_envelope row) = 1) (outbox sample_dispatched)" by code_simp
  ultimately show ?thesis by (simp add: list_all_iff)
qed

theorem dispatched_order_accepted_witness:
  "\<exists>row \<in> set (outbox sample_dispatched). ob_subject row = ''glyphflow.orders.runner''
     \<and> VerifyOrder (table_lib demo_payload sample_envelope) (ob_envelope row) sample_keys 1200 ''runner'' ''run'' 1 ''token'' 0 None ()
       = (Inr demo_payload, ())"
proof -
  have c: "dc_RunnerID demo_candidate = ''runner''" "dc_RunID demo_candidate = ''run''" "dc_LeaseToken demo_candidate = ''token''"
    "dc_AttemptNumber demo_candidate = 1" by code_simp+
  show ?thesis
    using dispatched_order_accepted [OF demo_claim table_lib_laws sample_keys_key _ _ _ demo_fields(1-11) _ _ _ demo_fields(12),
        where now = 1200 and tol = 0] demo_sizes demo_fields(13)
    unfolding c demo_payload_def [symmetric] queue_Subject_def by (force simp: DefaultMaxEnvelopeBytes_def)
qed

text \<open>A variable with an empty value is enough to get there.\<close>

definition empty_variable_db :: db where
  "empty_variable_db = sample_db\<lparr>runs := map (\<lambda>r. r\<lparr>run_globals := [(''HOME'', [])]\<rparr>) (runs sample_db)\<rparr>"

lemma empty_variable_claimed:
  "\<exists>c d'. ClaimWaiting (\<lambda>_. ''digest'') (Some ''token'') sample_fresh sample_clock 1000 (Some (\<lambda>_. Some [1])) empty_variable_db = Inr (Some c, d')
     \<and> [] \<in> set (dc_Command c)"
proof -
  have "case ClaimWaiting (\<lambda>_. ''digest'') (Some ''token'') sample_fresh sample_clock 1000 (Some (\<lambda>_. Some [1])) empty_variable_db of
          Inr (Some c, d') \<Rightarrow> [] \<in> set (dc_Command c) | _ \<Rightarrow> False" by code_simp
  then show ?thesis by (auto split: sum.splits option.splits prod.splits)
qed

definition demo_turn :: turn where
  "demo_turn = \<lparr>tn_token = Some ''token'', tn_fresh = sample_fresh, tn_clock = sample_clock, tn_now = 1000, tn_issued = 1100, tn_notBefore = 1100\<rparr>"

definition demo_tick :: tick_world where
  "demo_tick = \<lparr>tw_execute = \<lambda>_. demo_turn, tw_cancel = \<lambda>_. demo_turn, tw_timeouts = (1000, 1000), tw_stale = (1000, 1000, 1000),
     tw_publish = \<lambda>_. None, tw_publish_now = 1200\<rparr>"

section \<open>Events\<close>

lemma TrimPrefix_events: "TrimPrefix (events_prefix @ r) events_prefix = r"
  by (simp add: TrimPrefix_def)

lemma events_prefix_longer: "r \<noteq> events_prefix @ r"
  by (metis append_Nil append_same_eq events_prefix_def list.distinct(1))

lemma VerifyEvent_single:
  assumes "DecodeEnvelope L raw = Inr e" "DecodeEventPayload L (mustPayload e) = Inr p"
  shows "fst (VerifyEvent L raw [(env_KeyID e, \<lparr>vk_ID = env_KeyID e, vk_PublicKey = pk, vk_NotBefore = 0, vk_NotAfter = 0, vk_Revoked = False\<rparr>)]
              now (evt_RunnerID p) (evt_RunID p) (evt_Attempt p) (evt_LeaseToken p) (evt_Sequence p) tol None ()) = Inr q
    \<longleftrightarrow> q = p \<and> Verify L pk EventSignatureDomain e = Inr () \<and> Event_ValidateTime p now tol = Inr ()
        \<and> evt_RunnerID p \<noteq> [] \<and> evt_RunID p \<noteq> [] \<and> evt_LeaseToken p \<noteq> [] \<and> evt_Attempt p \<noteq> 0 \<and> evt_Sequence p \<noteq> 0
        \<and> ValidateError p = Inr ()"
proof -
  have "VerifyAt L [(env_KeyID e, \<lparr>vk_ID = env_KeyID e, vk_PublicKey = pk, vk_NotBefore = 0, vk_NotAfter = 0, vk_Revoked = False\<rparr>)] e
          EventSignatureDomain now = Inr u \<longleftrightarrow> Verify L pk EventSignatureDomain e = Inr ()" for u
    by (simp add: VerifyAt_Inr)
  moreover have "Event_ValidateIdentity p (evt_RunnerID p) (evt_RunID p) (evt_Attempt p) (evt_LeaseToken p) = Inr u
      \<longleftrightarrow> evt_RunnerID p \<noteq> [] \<and> evt_RunID p \<noteq> [] \<and> evt_LeaseToken p \<noteq> [] \<and> evt_Attempt p \<noteq> 0" for u
    by (auto simp: Event_ValidateIdentity_def validateIdentity_Inr)
  moreover have "ValidateSequence p (evt_Sequence p) = Inr u \<longleftrightarrow> evt_Sequence p \<noteq> 0" for u by (simp add: ValidateSequence_def)
  ultimately show ?thesis using assms unfolding VerifyEvent_def by (auto split: sum.splits)
qed

text \<open>
  C6. Events arrive as they were signed. An event that a runner signed with a key the control plane
  holds for the subject it is published on, and that passes the checks of the protocol, is applied to the run store
  exactly as its payload says; the only way it can fail is that the store refuses it.
\<close>

theorem signed_event_applied:
  assumes laws: "reads_back (event_marshal L) (event_unmarshal L)" "reads_back (envelope_marshal L) (envelope_unmarshal L)" "key_pair L sk pk"
    and sealed: "EncodeEventPayload L p = Inr raw" "Sign L sk EventSignatureDomain (NewEnvelope ident raw) = Inr e" "EncodeEnvelope L e = Inr wire"
      "int (length wire) \<le> DefaultMaxEnvelopeBytes" "ident \<noteq> []"
    and key: "runner \<noteq> []" "keys runner ident = Some pk" and framed: "heartbeat_unmarshal J raw = None"
    and valid: "evt_Version p = ProtocolVersion" "EventType_Valid (evt_Type p)" "Event_ValidateTime p now (30 * second) = Inr ()"
      "evt_RunnerID p \<noteq> []" "evt_RunID p \<noteq> []" "evt_LeaseToken p \<noteq> []" "evt_Attempt p \<noteq> 0" "evt_Sequence p \<noteq> 0" "ValidateError p = Inr ()"
  shows "applyRunnerEvent L J keys sha now clock sqlnow (events_prefix @ runner) wire d
    = (case ApplyRunEvent sha clock sqlnow (event_input (events_prefix @ runner) wire p) d of
         Inl err \<Rightarrow> Inl (Stored err) | Inr d' \<Rightarrow> Inr (None, d'))"
proof -
  obtain b where b: "event_marshal L p = Some b" "decodePayloadFrame raw = Inr b" "raw \<noteq> []"
    using sealed(1) unfolding EncodeEventPayload_def by (rule frame_of_Inr)
  note s = sealed_verifies [OF laws(3,2) sealed(2-4) b(3) sealed(5)]
  have dec: "DecodeEventPayload L raw = Inr p"
    using b(2) reads_backD [OF laws(1) b(1)] valid(1,2) by (simp add: DecodeEventPayload_def)
  then have "DecodeEventPayload L (mustPayload e) = Inr p" by (simp add: mustPayload_def s(3))
  from VerifyEvent_single [OF s(1) this, of pk now "30 * second" p] have
    "fst (VerifyEvent L wire [(env_KeyID e, \<lparr>vk_ID = env_KeyID e, vk_PublicKey = pk, vk_NotBefore = 0, vk_NotAfter = 0, vk_Revoked = False\<rparr>)]
              now (evt_RunnerID p) (evt_RunID p) (evt_Attempt p) (evt_LeaseToken p) (evt_Sequence p) (30 * second) None ()) = Inr p"
    using s(2) valid(3-9) by simp
  moreover have "\<not> isRunnerHeartbeat L J wire" using s framed by (simp add: isRunnerHeartbeat_def)
  ultimately show ?thesis
    using key s dec events_prefix_longer by (simp add: applyRunnerEvent_def TrimPrefix_events Let_def)
qed

text \<open>
  C7. Only signed events change runs. When a delivered message changes the database, it is an envelope
  whose signature, over the event domain, verifies with a key that is registered for the runner of
  the subject, it was not observed more than thirty seconds in the future, and the database has the
  attempt it names, with the runner, the lease token and (unless the event leaves them out) the
  session and the fencing token of the event.
\<close>

theorem applied_event_authentic:
  assumes "applyRunnerEvent L J keys sha now clock sqlnow subject raw d = Inr (call, d')" "d' \<noteq> d"
  shows "\<exists>e p pk payload sig a. DecodeEnvelope L raw = Inr e \<and> PayloadBytes e = Inr payload \<and> SignatureBytes e = Inr sig
    \<and> keys (TrimPrefix subject events_prefix) (env_KeyID e) = Some pk
    \<and> ed25519_verify L pk (signingBytes EventSignatureDomain payload) sig \<and> DecodeEventPayload L payload = Inr p
    \<and> evt_ObservedAt p \<le> now + 30 * second \<and> a \<in> set (attempts d)
    \<and> att_run_id a = evt_RunID p \<and> att_number a = uint (evt_Attempt p) \<and> att_runner_id a = evt_RunnerID p
    \<and> att_lease_token a = evt_LeaseToken p
    \<and> (evt_RunnerSessionID p = [] \<or> evt_RunnerSessionID p = att_session_id a)
    \<and> (sint (evt_FencingToken p) = 0 \<or> sint (evt_FencingToken p) = att_fencing_token a)"
proof -
  have nh: "\<not> isRunnerHeartbeat L J raw"
    using assms by (auto simp: applyRunnerEvent_def Let_def res_bind_Inr split: if_splits)
  with assms(1) obtain e payload p pk q where e: "DecodeEnvelope L raw = Inr e" "PayloadBytes e = Inr payload" "DecodeEventPayload L payload = Inr p"
    and k: "keys (TrimPrefix subject events_prefix) (env_KeyID e) = Some pk"
    and v: "fst (VerifyEvent L raw [(env_KeyID e, \<lparr>vk_ID = env_KeyID e, vk_PublicKey = pk, vk_NotBefore = 0, vk_NotAfter = 0, vk_Revoked = False\<rparr>)]
              now (evt_RunnerID p) (evt_RunID p) (evt_Attempt p) (evt_LeaseToken p) (evt_Sequence p) (30 * second) None ()) = Inr q"
    and stored: "ApplyRunEvent sha clock sqlnow (event_input subject raw p) d = Inr d'"
    by (auto simp: applyRunnerEvent_def Let_def split: if_splits sum.splits option.splits)
  have "DecodeEventPayload L (mustPayload e) = Inr p" using e(2,3) by (simp add: mustPayload_def)
  from VerifyEvent_single [OF e(1) this] v have ver: "Verify L pk EventSignatureDomain e = Inr ()" "Event_ValidateTime p now (30 * second) = Inr ()"
    by blast+
  then obtain sig where sig: "SignatureBytes e = Inr sig" "ed25519_verify L pk (signingBytes EventSignatureDomain payload) sig"
    using e(2) by (auto simp: Verify_Inr)
  have obs: "evt_ObservedAt p \<le> now + 30 * second" using ver(2) by (simp add: Event_ValidateTime_def split: if_splits)
  from stored obtain a where a: "event_attempt (event_time clock (event_input subject raw p)) d = Some a"
    "re_RunnerSessionID (event_input subject raw p) = [] \<or> re_RunnerSessionID (event_input subject raw p) = att_session_id a"
    "re_FencingToken (event_input subject raw p) = 0 \<or> re_FencingToken (event_input subject raw p) = att_fencing_token a"
    by (rule ApplyRunEvent_Inr)
  have "a \<in> set (attempts d) \<and> att_run_id a = evt_RunID p \<and> att_number a = uint (evt_Attempt p) \<and> att_runner_id a = evt_RunnerID p
      \<and> att_lease_token a = evt_LeaseToken p"
    using find_row_Some [OF a(1) [unfolded event_attempt_def]] by (simp add: event_input_def event_time_def split: if_splits)
  moreover have "evt_RunnerSessionID p = [] \<or> evt_RunnerSessionID p = att_session_id a"
    "sint (evt_FencingToken p) = 0 \<or> sint (evt_FencingToken p) = att_fencing_token a"
    using a(2,3) by (simp_all add: event_input_def)
  ultimately show ?thesis using e k sig obs by blast
qed


text \<open>
  An instance: mallory holds a key of its own and publishes, on its own subject, an event in the
  name of the runner of the attempt. The runner of the subject is never compared with the runner
  of the payload: the event is applied, since it names the lease token of the attempt.
\<close>

definition signed_by :: "string \<Rightarrow> string \<Rightarrow> bytes \<Rightarrow> Envelope" where
  "signed_by domain ident payload =
     (NewEnvelope ident payload)\<lparr>env_Signature := encodeBase64 (sample_sign [] (signingBytes domain payload))\<rparr>"

lemma Sign_signed_by:
  "payload \<noteq> [] \<Longrightarrow> length sk = 64 \<Longrightarrow> ed25519_sign L = sample_sign \<Longrightarrow> Sign L sk domain (NewEnvelope ident payload) = Inr (signed_by domain ident payload)"
  by (simp add: Sign_def PayloadBytes_New signed_by_def sample_sign_def)

definition forged_event :: EventPayload where
  "forged_event =
     \<lparr>evt_Version = 1, evt_EventID = ''event-1'', evt_OrderID = ''run-attempt-1'', evt_RunID = ''run'', evt_TaskID = ''task'',
      evt_Attempt = 1, evt_LeaseToken = ''token'', evt_RunnerID = ''runner'', evt_Sequence = 1, evt_ObservedAt = 1100,
      evt_Type = EventAccepted, evt_Result = [], evt_Metrics = [], evt_OutputDigest = [], evt_ExitCode = None, evt_Error = [],
      evt_RunnerSessionID = ''session'', evt_FencingToken = 0, evt_EventChannel = ''state''\<rparr>"

definition event_lib :: lib where
  "event_lib =
     (table_lib demo_payload (signed_by EventSignatureDomain ''mk'' sample_frame))
       \<lparr>event_marshal := (\<lambda>p. if p = forged_event then Some [1] else None),
        event_unmarshal := (\<lambda>b. if b = [1] then Some forged_event else None)\<rparr>"

definition mallory_keys :: RunnerKeyFinder where
  "mallory_keys runner ident = (if runner = ''mallory'' \<and> ident = ''mk'' then Some (replicate 32 7) else None)"

definition empty_exchange :: exchange_lib where
  "empty_exchange =
     \<lparr>claim_marshal = \<lambda>_. None, claim_unmarshal = \<lambda>_. None, grant_marshal = \<lambda>_. None, grant_unmarshal = \<lambda>_. None,
      reply_marshal = \<lambda>_. None, reply_unmarshal = \<lambda>_. None, request_marshal = \<lambda>_. None, request_unmarshal = \<lambda>_. None,
      response_marshal = \<lambda>_. None, response_unmarshal = \<lambda>_. None, heartbeat_unmarshal = \<lambda>_. None, parse_rfc3339 = \<lambda>_. None\<rparr>"

lemma event_lib_laws:
  "reads_back (event_marshal event_lib) (event_unmarshal event_lib)"
  "reads_back (envelope_marshal event_lib) (envelope_unmarshal event_lib)"
  "key_pair event_lib (replicate 64 7) (replicate 32 7)"
  by (simp_all add: reads_back_def event_lib_def table_lib_def key_pair_def sample_lib_def sample_sign_def)

lemma event_lib_sealed:
  "EncodeEventPayload event_lib forged_event = Inr sample_frame"
  "Sign event_lib (replicate 64 7) EventSignatureDomain (NewEnvelope ''mk'' sample_frame) = Inr (signed_by EventSignatureDomain ''mk'' sample_frame)"
  "EncodeEnvelope event_lib (signed_by EventSignatureDomain ''mk'' sample_frame) = Inr [1]"
proof -
  show "EncodeEventPayload event_lib forged_event = Inr sample_frame"
    by (simp add: EncodeEventPayload_def frame_of_def encodePayloadFrame_def event_lib_def sample_frame_def)
  show "Sign event_lib (replicate 64 7) EventSignatureDomain (NewEnvelope ''mk'' sample_frame) = Inr (signed_by EventSignatureDomain ''mk'' sample_frame)"
    by (rule Sign_signed_by) (simp_all add: sample_frame_def event_lib_def table_lib_def sample_lib_def)
  show "EncodeEnvelope event_lib (signed_by EventSignatureDomain ''mk'' sample_frame) = Inr [1]"
    by (simp add: EncodeEnvelope_def event_lib_def table_lib_def)
qed

lemma forged_valid:
  "evt_Version forged_event = ProtocolVersion" "EventType_Valid (evt_Type forged_event)" "Event_ValidateTime forged_event 1100 (30 * second) = Inr ()"
  "evt_RunnerID forged_event \<noteq> []" "evt_RunID forged_event \<noteq> []" "evt_LeaseToken forged_event \<noteq> []" "evt_Attempt forged_event \<noteq> 0"
  "evt_Sequence forged_event \<noteq> 0" "ValidateError forged_event = Inr ()"
  by code_simp+

definition forged_db :: db where
  "forged_db = (case ApplyRunEvent (\<lambda>_. ''sum'') 1100 1100 (event_input (events_prefix @ ''mallory'') [1] forged_event) sample_dispatched of
                  Inl _ \<Rightarrow> sample_dispatched | Inr d' \<Rightarrow> d')"

lemma forged_stored:
  "ApplyRunEvent (\<lambda>_. ''sum'') 1100 1100 (event_input (events_prefix @ ''mallory'') [1] forged_event) sample_dispatched = Inr forged_db"
  unfolding forged_db_def by (rule Inr_case) code_simp

lemma forged_states:
  "map att_runner_id (attempts sample_dispatched) = [''runner'']" "map att_state (attempts sample_dispatched) = [A_DISPATCHED]"
  "map att_state (attempts forged_db) = [A_ACCEPTED]"
  by code_simp+

lemma sample_wire_size: "int (length ([1] :: bytes)) \<le> DefaultMaxEnvelopeBytes"
  by (simp add: DefaultMaxEnvelopeBytes_def)

theorem signed_event_applied_witness:
  "applyRunnerEvent event_lib empty_exchange mallory_keys (\<lambda>_. ''sum'') 1100 1100 1100 (events_prefix @ ''mallory'') [1] sample_dispatched = Inr (None, forged_db)
   \<and> map att_runner_id (attempts sample_dispatched) = [''runner''] \<and> map att_state (attempts sample_dispatched) = [A_DISPATCHED]
   \<and> map att_state (attempts forged_db) = [A_ACCEPTED]"
proof -
  have k: "mallory_keys ''mallory'' ''mk'' = Some (replicate 32 7)" by (simp add: mallory_keys_def)
  have "applyRunnerEvent event_lib empty_exchange mallory_keys (\<lambda>_. ''sum'') 1100 1100 1100 (events_prefix @ ''mallory'') [1] sample_dispatched
     = (case ApplyRunEvent (\<lambda>_. ''sum'') 1100 1100 (event_input (events_prefix @ ''mallory'') [1] forged_event) sample_dispatched of
          Inl err \<Rightarrow> Inl (Stored err) | Inr d' \<Rightarrow> Inr (None, d'))"
    by (rule signed_event_applied [OF event_lib_laws event_lib_sealed sample_wire_size _ _ _ _ forged_valid])
      (simp_all add: k empty_exchange_def)
  then show ?thesis by (simp only: forged_stored forged_states sum.case)
qed

theorem applied_event_authentic_witness:
  "\<exists>e pk payload sig. DecodeEnvelope event_lib [1] = Inr e \<and> PayloadBytes e = Inr payload \<and> SignatureBytes e = Inr sig
     \<and> mallory_keys ''mallory'' (env_KeyID e) = Some pk \<and> ed25519_verify event_lib pk (signingBytes EventSignatureDomain payload) sig"
proof -
  have s: "DecodeEnvelope event_lib [1] = Inr (signed_by EventSignatureDomain ''mk'' sample_frame)"
    "Verify event_lib (replicate 32 7) EventSignatureDomain (signed_by EventSignatureDomain ''mk'' sample_frame) = Inr ()"
    "PayloadBytes (signed_by EventSignatureDomain ''mk'' sample_frame) = Inr sample_frame" "env_KeyID (signed_by EventSignatureDomain ''mk'' sample_frame) = ''mk''"
    by (rule sealed_verifies [OF event_lib_laws(3,2) event_lib_sealed(2,3) sample_wire_size]; simp add: sample_frame_def)+
  have m: "DecodeEventPayload event_lib sample_frame = Inr forged_event"
    using decode_encode_frame [of "Some [1]" sample_frame] event_lib_sealed(1) forged_valid(1,2)
    by (auto simp: DecodeEventPayload_def EncodeEventPayload_def event_lib_def frame_of_def split: sum.splits)
  have "applyRunnerEvent event_lib empty_exchange mallory_keys (\<lambda>_. ''sum'') 1100 1100 1100 (events_prefix @ ''mallory'') [1] sample_dispatched = Inr (None, forged_db)"
    using VerifyEvent_single [OF s(1), of forged_event "replicate 32 7" 1100 "30 * second" forged_event] s m forged_valid forged_stored events_prefix_longer
    by (simp add: applyRunnerEvent_def TrimPrefix_events Let_def isRunnerHeartbeat_def empty_exchange_def mallory_keys_def mustPayload_def)
  moreover have "forged_db \<noteq> sample_dispatched" using forged_states(2,3) by auto
  ultimately obtain e p pk payload sig a where "DecodeEnvelope event_lib [1] = Inr e" "PayloadBytes e = Inr payload" "SignatureBytes e = Inr sig"
     "mallory_keys (TrimPrefix (events_prefix @ ''mallory'') events_prefix) (env_KeyID e) = Some pk"
     "ed25519_verify event_lib pk (signingBytes EventSignatureDomain payload) sig"
    using applied_event_authentic by blast
  then show ?thesis unfolding TrimPrefix_events by blast
qed

theorem dispatcher_refines_store_witness:
  "\<exists>e d' sent'. RunDispatcher event_lib empty_exchange mallory_keys (\<lambda>_. ''digest'') (\<lambda>_. ''sum'') sample_key
      [Tick demo_tick, Delivery (events_prefix @ ''mallory'') [1] 1100 1100 1100] (sample_db, []) = (e, d', sent') \<and> store_inv d'"
proof -
  obtain e d' sent' where r: "RunDispatcher event_lib empty_exchange mallory_keys (\<lambda>_. ''digest'') (\<lambda>_. ''sum'') sample_key
      [Tick demo_tick, Delivery (events_prefix @ ''mallory'') [1] 1100 1100 1100] (sample_db, []) = (e, d', sent')" by (metis prod_cases3)
  then show ?thesis using dispatcher_refines_store [OF r sample_inv] by blast
qed

section \<open>Start claims\<close>

lemma sameStartClaim_iff [simp]: "sameStartClaim a b \<longleftrightarrow> a = b"
  by (auto simp: sameStartClaim_def)

lemma ClaimStart_time: "ClaimStart now inp d = Inr ((t, True), d') \<Longrightarrow> t = now"
  by (auto simp: ClaimStart_def Let_def split: if_splits option.splits prod.splits)

lemma start_claim_message_Some:
  assumes "start_claim_message L J k claim = Some raw"
  obtains payload e where "StartClaim_Validate claim = Inr ()" "claim_marshal J claim = Some payload"
    "Sign L (sk_Private k) StartClaimSignatureDomain (NewEnvelope (sk_ID k) payload) = Inr e" "EncodeEnvelope L e = Inr raw"
  using assms by (auto simp: start_claim_message_def split: if_splits option.splits sum.splits)

text \<open>The server's answer to a well-formed claim is the answer of the store.\<close>

lemma start_claim_reply_eq:
  assumes laws: "reads_back (claim_marshal J) (claim_unmarshal J)" "reads_back (envelope_marshal L) (envelope_unmarshal L)"
      "key_pair L (sk_Private wk) wpk"
    and msg: "start_claim_message L J wk claim = Some raw" "int (length raw) \<le> DefaultMaxEnvelopeBytes" "claim_marshal J claim \<noteq> Some []" "sk_ID wk \<noteq> []"
    and key: "keys (StartClaimPayload.sc_RunnerID claim) (sk_ID wk) = Some wpk"
    and window: "now - minute \<le> sc_IssuedAt claim" "sc_IssuedAt claim \<le> now + startClaimClockTolerance"
    and grant: "grant_marshal J (claim, sqlnow) = Some gb"
      "Sign L (sk_Private ck) StartClaimSignatureDomain (NewEnvelope (sk_ID ck) gb) = Inr g"
  shows "start_claim_reply L J keys ck now sqlnow raw d =
    (case ClaimStart sqlnow (start_claim_input claim) d of
       Inl _ \<Rightarrow> (refused_reply True ''start claim unavailable'', d)
     | Inr ((t, granted), d') \<Rightarrow>
         (if granted then \<lparr>rp_Granted = True, rp_Retry = False, rp_Error = [], rp_Grant = Some g\<rparr>
          else refused_reply False ''start claim rejected'', d'))"
proof -
  obtain payload e where m: "StartClaim_Validate claim = Inr ()" "claim_marshal J claim = Some payload"
    "Sign L (sk_Private wk) StartClaimSignatureDomain (NewEnvelope (sk_ID wk) payload) = Inr e" "EncodeEnvelope L e = Inr raw"
    using msg(1) by (rule start_claim_message_Some)
  have "payload \<noteq> []" using m(2) msg(3) by auto
  note s = sealed_verifies [OF laws(3,2) m(3,4) msg(2) this msg(4)]
  have "claim_unmarshal J payload = Some claim" by (rule reads_backD [OF laws(1) m(2)])
  then show ?thesis
    using s m(1) key window grant
    by (auto simp: start_claim_reply_def Let_def dest: ClaimStart_time split: sum.splits prod.splits)
qed

text \<open>
  C5. A start claim is a remote call of the store. When the worker's claim reaches the control plane
  and the answer comes back, the worker learns exactly what the transaction decided: it starts the
  process if and only if the store granted the start (which made the run and the attempt running),
  it gives up when the store refused, and it treats a failure of the store as temporary.
\<close>

theorem start_claim_transparent:
  assumes "reads_back (claim_marshal J) (claim_unmarshal J)" "reads_back (envelope_marshal L) (envelope_unmarshal L)"
      "key_pair L (sk_Private wk) wpk"
    and "start_claim_message L J wk claim = Some raw" "int (length raw) \<le> DefaultMaxEnvelopeBytes" "claim_marshal J claim \<noteq> Some []" "sk_ID wk \<noteq> []"
    and "keys (StartClaimPayload.sc_RunnerID claim) (sk_ID wk) = Some wpk"
    and "now - minute \<le> sc_IssuedAt claim" "sc_IssuedAt claim \<le> now + startClaimClockTolerance"
    and grant: "grant_marshal J (claim, sqlnow) = Some gb"
      "Sign L (sk_Private ck) StartClaimSignatureDomain (NewEnvelope (sk_ID ck) gb) = Inr g"
    and ret: "reads_back (grant_marshal J) (grant_unmarshal J)" "reads_back (reply_marshal J) (reply_unmarshal J)" "key_pair L (sk_Private ck) cpk"
      "gb \<noteq> []" "sk_ID ck \<noteq> []" "EncodeEnvelope L g = Inr graw" "int (length graw) \<le> DefaultMaxEnvelopeBytes"
      "reply_marshal J (fst (start_claim_reply L J keys ck now sqlnow raw d)) \<noteq> None"
    and clocks: "sqlnow \<noteq> 0" "sqlnow \<le> wnow + 5 * second"
  shows "NATSStartClaimer_ClaimStart L J wk cpk
      (\<lambda>subject message db. case startClaimResponse L J keys ck now sqlnow message db of (b, db') \<Rightarrow> (Some b, db')) wnow claim d
    = (case ClaimStart sqlnow (start_claim_input claim) d of
         Inl _ \<Rightarrow> (Inl ErrStartUnavailable, d)
       | Inr ((t, granted), d') \<Rightarrow> (if granted then Inr () else Inl ErrStartRejected, d'))"
proof -
  note reply = start_claim_reply_eq [where keys = keys, OF assms(1-12), of d]
  obtain rb where rb: "reply_marshal J (fst (start_claim_reply L J keys ck now sqlnow raw d)) = Some rb" using ret(8) by blast
  have read: "reply_unmarshal J rb = Some (fst (start_claim_reply L J keys ck now sqlnow raw d))" by (rule reads_backD [OF ret(2) rb])
  have resp: "startClaimResponse L J keys ck now sqlnow raw d = (rb, snd (start_claim_reply L J keys ck now sqlnow raw d))"
    using rb by (simp add: startClaimResponse_def encodeStartClaimReply_def case_prod_beta)
  note s = sealed_verifies [OF ret(3) assms(2) grant(2) ret(6,7) ret(4,5)]
  have gm: "envelope_marshal L g = Some graw" using ret(6) by (simp add: EncodeEnvelope_def split: option.splits)
  have "grant_unmarshal J gb = Some (claim, sqlnow)" by (rule reads_backD [OF ret(1) grant(1)])
  then have granted: "read_start_reply L J cpk wnow claim rb = Inr ()"
    if "fst (start_claim_reply L J keys ck now sqlnow raw d) = \<lparr>rp_Granted = True, rp_Retry = False, rp_Error = [], rp_Grant = Some g\<rparr>"
    using that read s gm clocks by (simp add: read_start_reply_def VerifyRawEnvelope_def)
  have refused: "read_start_reply L J cpk wnow claim rb = Inl (if r then ErrStartUnavailable else ErrStartRejected)"
    if "fst (start_claim_reply L J keys ck now sqlnow raw d) = refused_reply r err" for r err
    using that read by (simp add: read_start_reply_def refused_reply_def)
  have "length cpk = 32" using ret(3) by (simp add: key_pair_def)
  then have call: "NATSStartClaimer_ClaimStart L J wk cpk
      (\<lambda>subject message db. case startClaimResponse L J keys ck now sqlnow message db of (b, db') \<Rightarrow> (Some b, db')) wnow claim d
    = (read_start_reply L J cpk wnow claim rb, snd (start_claim_reply L J keys ck now sqlnow raw d))"
    using assms(4) resp by (simp add: NATSStartClaimer_ClaimStart_def)
  show ?thesis
    using granted refused reply unfolding call by (auto split: sum.splits prod.splits if_splits)
qed


definition demo_start :: StartClaimPayload where
  "demo_start = StartClaimPayload.make 1 ''rq'' ''run'' ''runner'' ''session'' ''token'' 1 1000 ''digest'' 1500"

definition worker_key :: SigningKey where
  "worker_key = sample_key\<lparr>sk_ID := ''wk''\<rparr>"

definition demo_grant :: StartClaimReply where
  "demo_grant = \<lparr>rp_Granted = True, rp_Retry = False, rp_Error = [], rp_Grant = Some (signed_by StartClaimSignatureDomain ''cp'' [6])\<rparr>"

definition pair_lib :: "string \<Rightarrow> lib" where
  "pair_lib domain =
     sample_lib\<lparr>envelope_marshal := (\<lambda>e. if e = signed_by domain ''wk'' [5] then Some [1]
                                       else if e = signed_by domain ''cp'' [6] then Some [2] else None),
                envelope_unmarshal := (\<lambda>b. if b = [1] then Some (signed_by domain ''wk'' [5])
                                         else if b = [2] then Some (signed_by domain ''cp'' [6]) else None)\<rparr>"

definition start_exchange :: exchange_lib where
  "start_exchange =
     empty_exchange\<lparr>claim_marshal := (\<lambda>c. if c = demo_start then Some [5] else None),
                    claim_unmarshal := (\<lambda>b. if b = [5] then Some demo_start else None),
                    grant_marshal := (\<lambda>g. if g = (demo_start, 2000) then Some [6] else None),
                    grant_unmarshal := (\<lambda>b. if b = [6] then Some (demo_start, 2000) else None),
                    reply_marshal := (\<lambda>r. if r = demo_grant then Some [7] else None),
                    reply_unmarshal := (\<lambda>b. if b = [7] then Some demo_grant else None)\<rparr>"

definition demo_runner_keys :: RunnerKeyFinder where
  "demo_runner_keys runner ident = (if runner = ''runner'' \<and> ident = ''wk'' then Some (replicate 32 7) else None)"

lemma pair_laws:
  "reads_back (envelope_marshal (pair_lib domain)) (envelope_unmarshal (pair_lib domain))"
  "key_pair (pair_lib domain) (sk_Private worker_key) (replicate 32 7)" "key_pair (pair_lib domain) (sk_Private sample_key) (replicate 32 7)"
  by (auto simp: reads_back_def pair_lib_def key_pair_def worker_key_def sample_key_def sample_lib_def sample_sign_def)

lemma pair_signed: "length sk = 64 \<Longrightarrow> Sign (pair_lib domain) sk domain (NewEnvelope i [x]) = Inr (signed_by domain i [x])"
  by (rule Sign_signed_by) (simp_all add: pair_lib_def sample_lib_def)

lemma pair_keys: "length (sk_Private worker_key) = 64" "sk_ID worker_key = ''wk''" "length (sk_Private sample_key) = 64" "sk_ID sample_key = ''cp''"
  by (simp_all add: worker_key_def sample_key_def)

lemma pair_encoded:
  "EncodeEnvelope (pair_lib domain) (signed_by domain ''wk'' [5]) = Inr [1]" "EncodeEnvelope (pair_lib domain) (signed_by domain ''cp'' [6]) = Inr [2]"
proof -
  have "env_KeyID (signed_by domain ''wk'' [5]) \<noteq> env_KeyID (signed_by domain ''cp'' [6])" by (simp add: signed_by_def NewEnvelope_def)
  then have "signed_by domain ''wk'' [5] \<noteq> signed_by domain ''cp'' [6]" by auto
  then show "EncodeEnvelope (pair_lib domain) (signed_by domain ''wk'' [5]) = Inr [1]" "EncodeEnvelope (pair_lib domain) (signed_by domain ''cp'' [6]) = Inr [2]"
    by (simp_all add: EncodeEnvelope_def pair_lib_def)
qed

lemma start_laws:
  "reads_back (claim_marshal start_exchange) (claim_unmarshal start_exchange)"
  "reads_back (grant_marshal start_exchange) (grant_unmarshal start_exchange)" "reads_back (reply_marshal start_exchange) (reply_unmarshal start_exchange)"
  by (auto simp: reads_back_def start_exchange_def)

lemma start_message: "start_claim_message (pair_lib StartClaimSignatureDomain) start_exchange worker_key demo_start = Some [1]"
proof -
  have "StartClaim_Validate demo_start = Inr ()" by code_simp
  moreover have "claim_marshal start_exchange demo_start = Some [5]" by (simp add: start_exchange_def)
  ultimately show ?thesis by (simp add: start_claim_message_def pair_keys pair_signed pair_encoded)
qed

lemma demo_start_granted: "ClaimStart 2000 (start_claim_input demo_start) sample_dispatched = Inr ((2000, True), sample_running)"
proof -
  have "start_claim_input demo_start = sample_start" by code_simp
  then show ?thesis by (simp only: sample_start_ok)
qed

theorem start_claim_transparent_witness:
  "NATSStartClaimer_ClaimStart (pair_lib StartClaimSignatureDomain) start_exchange worker_key (replicate 32 7)
     (\<lambda>subject message db. case startClaimResponse (pair_lib StartClaimSignatureDomain) start_exchange demo_runner_keys sample_key 1600 2000 message db of
        (b, db') \<Rightarrow> (Some b, db')) 1700 demo_start sample_dispatched = (Inr (), sample_running)"
proof -
  let ?L = "pair_lib StartClaimSignatureDomain"
  have k: "demo_runner_keys (StartClaimPayload.sc_RunnerID demo_start) (sk_ID worker_key) = Some (replicate 32 7)" by code_simp
  have w: "(1600 :: int) - minute \<le> sc_IssuedAt demo_start" "sc_IssuedAt demo_start \<le> 1600 + startClaimClockTolerance" by code_simp+
  have g: "grant_marshal start_exchange (demo_start, 2000) = Some [6]" by (simp add: start_exchange_def)
  have sg: "Sign ?L (sk_Private sample_key) StartClaimSignatureDomain (NewEnvelope (sk_ID sample_key) [6]) = Inr (signed_by StartClaimSignatureDomain ''cp'' [6])"
    by (simp add: pair_keys pair_signed)
  have ids: "sk_ID worker_key \<noteq> []" "sk_ID sample_key \<noteq> []" "claim_marshal start_exchange demo_start \<noteq> Some []"
    by (simp_all add: pair_keys start_exchange_def)
  have r: "start_claim_reply ?L start_exchange demo_runner_keys sample_key 1600 2000 [1] sample_dispatched = (demo_grant, sample_running)"
    using start_claim_reply_eq [where keys = demo_runner_keys and d = sample_dispatched, OF start_laws(1) pair_laws(1,2) start_message sample_wire_size ids(3,1) k w g sg]
    by (simp add: demo_start_granted demo_grant_def)
  have "reply_marshal start_exchange (fst (start_claim_reply ?L start_exchange demo_runner_keys sample_key 1600 2000 [1] sample_dispatched)) \<noteq> None"
    unfolding r by (simp add: start_exchange_def)
  from start_claim_transparent [where keys = demo_runner_keys and d = sample_dispatched and wnow = 1700,
      OF start_laws(1) pair_laws(1,2) start_message sample_wire_size ids(3,1) k w g sg start_laws(2,3) pair_laws(3) _ ids(2) pair_encoded(2) _ this]
  show ?thesis by (simp add: demo_start_granted DefaultMaxEnvelopeBytes_def)
qed

section \<open>Secrets\<close>

text \<open>The plain text of a secret, if it is stored and decrypts.\<close>

definition secret_plain :: "(bytes \<Rightarrow> bytes \<Rightarrow> bytes \<Rightarrow> string option) \<Rightarrow> bytes \<Rightarrow> secret_table \<Rightarrow> string \<Rightarrow> string option" where
  "secret_plain gcm_open key secrets ident =
     (case find_row (\<lambda>r. esr_ID r = ident) secrets of
        None \<Rightarrow> None
      | Some r \<Rightarrow> (case DecryptSecret gcm_open key (esr_EncryptedValue r) of Inl _ \<Rightarrow> None | Inr plain \<Rightarrow> Some plain))"

lemma find_row_status:
  "map_option esr_EncryptedValue (find_row (\<lambda>r. esr_ID r = ident) (SetIntegrityStatus i st t secrets))
   = map_option esr_EncryptedValue (find_row (\<lambda>r. esr_ID r = ident) secrets)"
  by (induction secrets) (simp_all add: find_row_def SetIntegrityStatus_def sql_update_def)

lemma secret_plain_status [simp]: "secret_plain gcm_open key (SetIntegrityStatus i st t secrets) = secret_plain gcm_open key secrets"
proof
  fix ident
  show "secret_plain gcm_open key (SetIntegrityStatus i st t secrets) ident = secret_plain gcm_open key secrets ident"
    using find_row_status [of ident i st t secrets] by (auto simp: secret_plain_def split: option.splits)
qed

lemma collect_secrets_spec:
  assumes "length key = 32" "distinct (map fst refs)" "fst ` set refs \<inter> dom (map_of vs) = {}"
  shows "case fst (collect_secrets gcm_open key now refs vs secrets) of
       None \<Rightarrow> \<exists>(name, ident) \<in> set refs. secret_plain gcm_open key secrets ident = None
     | Some vs' \<Rightarrow> (\<forall>(name, ident) \<in> set refs. secret_plain gcm_open key secrets ident \<noteq> None)
         \<and> map_of vs' = map_of vs ++ (\<lambda>n. Option.bind (map_of refs n) (secret_plain gcm_open key secrets))"
  using assms
proof (induction refs arbitrary: vs secrets)
  case (Cons ref refs)
  obtain name ident where ref: "ref = (name, ident)" by force
  show ?case
  proof (cases "secret_plain gcm_open key secrets ident")
    case None
    then have "fst (collect_secrets gcm_open key now (ref # refs) vs secrets) = None"
      using Cons.prems(1) by (auto simp: ref secret_plain_def split: option.splits sum.splits)
    then show ?thesis using None by (auto simp: ref)
  next
    case (Some plain)
    then obtain r where r: "find_row (\<lambda>r. esr_ID r = ident) secrets = Some r" "DecryptSecret gcm_open key (esr_EncryptedValue r) = Inr plain"
      by (auto simp: secret_plain_def split: option.splits sum.splits)
    let ?s = "SetIntegrityStatus (esr_ID r) SecretIntegrityValid now secrets" and ?vs = "AList.update name plain vs"
    have step: "collect_secrets gcm_open key now (ref # refs) vs secrets = collect_secrets gcm_open key now refs ?vs ?s"
      using r Cons.prems(1) by (simp add: ref)
    have "name \<notin> fst ` set refs" using Cons.prems(2) by (simp add: ref)
    moreover have "dom (map_of ?vs) = insert name (dom (map_of vs))" by (simp add: update_conv')
    ultimately have fresh: "fst ` set refs \<inter> dom (map_of ?vs) = {}" using Cons.prems(3) by (simp add: ref)
    have upd: "map_of ?vs ++ (\<lambda>n. Option.bind (map_of refs n) (secret_plain gcm_open key secrets))
        = map_of vs ++ (\<lambda>n. Option.bind (map_of (ref # refs) n) (secret_plain gcm_open key secrets))"
    proof
      fix n
      show "(map_of ?vs ++ (\<lambda>n. Option.bind (map_of refs n) (secret_plain gcm_open key secrets))) n
          = (map_of vs ++ (\<lambda>n. Option.bind (map_of (ref # refs) n) (secret_plain gcm_open key secrets))) n"
      proof (cases "n = name")
        case True
        moreover have "map_of refs name = None" using \<open>name \<notin> fst ` set refs\<close> by (simp add: map_of_eq_None_iff)
        ultimately show ?thesis using Some by (simp add: ref update_conv map_add_def)
      qed (simp add: ref update_conv' map_add_def split: option.split)
    qed
    show ?thesis
      using Cons.IH [OF Cons.prems(1) _ fresh, of ?s] Cons.prems(2) Some unfolding step upd [symmetric]
      by (auto simp: ref split: option.splits)
  qed
qed simp

lemma secret_request_message_Some:
  assumes "secret_request_message L J k request = Some raw"
  obtains payload e where "SecretRequest_Validate request = Inr ()" "request_marshal J request = Some payload"
    "Sign L (sk_Private k) SecretDeliverySignatureDomain (NewEnvelope (sk_ID k) payload) = Inr e" "EncodeEnvelope L e = Inr raw"
  using assms by (auto simp: secret_request_message_def split: if_splits option.splits sum.splits)

lemma secret_delivery_reply_eq:
  assumes laws: "reads_back (request_marshal J) (request_unmarshal J)" "reads_back (envelope_marshal L) (envelope_unmarshal L)"
      "key_pair L (sk_Private wk) wpk"
    and msg: "secret_request_message L J wk request = Some raw" "int (length raw) \<le> DefaultMaxEnvelopeBytes" "request_marshal J request \<noteq> Some []" "sk_ID wk \<noteq> []"
    and key: "keys (sd_RunnerID request) (sk_ID wk) = Some wpk"
    and window: "now - minute \<le> sd_IssuedAt request" "sd_IssuedAt request \<le> now + secretDeliveryClockTolerance"
  shows "secret_delivery_reply L J keys gcm_open ek received now raw d secrets =
    (let rejected = \<lparr>sr_Version = ProtocolVersion, sr_RequestID = sd_RequestID request, sr_Values = [],
                     sr_Error = ''secret delivery rejected'', sr_RespondedAt = received\<rparr>
     in if AuthorizeSecretRequest (secret_request_input request) d \<noteq> Inr () then (rejected, secrets)
        else (case collect_secrets gcm_open ek now (sd_SecretRefs request) [] secrets of
                (None, secrets') \<Rightarrow> (rejected, secrets')
              | (Some vs, secrets') \<Rightarrow> (\<lparr>sr_Version = ProtocolVersion, sr_RequestID = sd_RequestID request, sr_Values = vs,
                                          sr_Error = [], sr_RespondedAt = now\<rparr>, secrets')))"
proof -
  obtain payload e where m: "SecretRequest_Validate request = Inr ()" "request_marshal J request = Some payload"
    "Sign L (sk_Private wk) SecretDeliverySignatureDomain (NewEnvelope (sk_ID wk) payload) = Inr e" "EncodeEnvelope L e = Inr raw"
    using msg(1) by (rule secret_request_message_Some)
  have "payload \<noteq> []" using m(2) msg(3) by auto
  note s = sealed_verifies [OF laws(3,2) m(3,4) msg(2) this msg(4)]
  have "request_unmarshal J payload = Some request" by (rule reads_backD [OF laws(1) m(2)])
  then show ?thesis
    using s m(1) key window by (simp add: secret_delivery_reply_def Let_def)
qed


lemma response_accepted:
  assumes vs: "map_of vs = (\<lambda>n. Option.bind (map_of refs n) plain)" "\<forall>(name, ident) \<in> set refs. plain ident \<noteq> None" "refs \<noteq> []"
  shows "vs \<noteq> []" "map_len vs = map_len refs" "list_all (\<lambda>(name, _). name \<in> fst ` set refs) vs"
proof -
  have dom: "dom (map_of vs) = dom (map_of refs)"
    using vs(2) by (force simp: vs(1) dom_def bind_eq_Some_conv dest: map_of_SomeD)
  then show "map_len vs = map_len refs" by (simp add: map_len_card)
  have fst: "fst ` set vs = fst ` set refs" using dom by (simp add: dom_map_of_conv_image_fst)
  then show "vs \<noteq> []" using vs(3) by force
  show "list_all (\<lambda>(name, _). name \<in> fst ` set refs) vs" by (auto simp: list_all_iff fst [symmetric] intro: rev_image_eqI)
qed



definition demo_request :: SecretDeliveryRequest where
  "demo_request =
     \<lparr>sd_Version = 1, sd_RequestID = ''rq'', sd_OrderID = ''run-attempt-1'', sd_RunID = ''run'', sd_Attempt = 1, sd_LeaseToken = ''token'',
      sd_RunnerID = ''runner'', sd_RunnerSessionID = ''session'', sd_FencingToken = 1000, sd_ExecutionSpecDigest = ''digest'',
      sd_SecretRefs = [(''TOKEN'', ''s1'')], sd_IssuedAt = 1500\<rparr>"

definition demo_response :: SecretDeliveryResponse where
  "demo_response = \<lparr>sr_Version = 1, sr_RequestID = ''rq'', sr_Values = [(''TOKEN'', ''hunter2'')], sr_Error = [], sr_RespondedAt = 1600\<rparr>"

definition demo_secrets :: secret_table where
  "demo_secrets = [\<lparr>esr_ID = ''s1'', esr_EncryptedValue = replicate 12 0 @ [9], esr_IntegrityStatus = SecretIntegrityUnknown, esr_LastValidatedAt = None\<rparr>]"

definition demo_gcm :: "bytes \<Rightarrow> bytes \<Rightarrow> bytes \<Rightarrow> string option" where
  "demo_gcm key nonce sealed = (if sealed = [9] then Some ''hunter2'' else None)"

definition secret_exchange :: exchange_lib where
  "secret_exchange =
     empty_exchange\<lparr>request_marshal := (\<lambda>c. if c = demo_request then Some [5] else None),
                    request_unmarshal := (\<lambda>b. if b = [5] then Some demo_request else None),
                    response_marshal := (\<lambda>g. if g = demo_response then Some [6] else None),
                    response_unmarshal := (\<lambda>b. if b = [6] then Some demo_response else None)\<rparr>"

lemma secret_laws:
  "reads_back (request_marshal secret_exchange) (request_unmarshal secret_exchange)"
  "reads_back (response_marshal secret_exchange) (response_unmarshal secret_exchange)"
  by (auto simp: reads_back_def secret_exchange_def)

lemma secret_message: "secret_request_message (pair_lib SecretDeliverySignatureDomain) secret_exchange worker_key demo_request = Some [1]"
proof -
  have "SecretRequest_Validate demo_request = Inr ()" by code_simp
  moreover have "request_marshal secret_exchange demo_request = Some [5]" by (simp add: secret_exchange_def)
  ultimately show ?thesis by (simp add: secret_request_message_def pair_keys pair_signed pair_encoded)
qed


end
