(* ===== verification/RunnerFacts.thy ===== *)
theory RunnerFacts
  imports Runners RunProperties DispatcherFacts
begin

text \<open>
  What the runner store guarantees when its operations interleave with those of the run store: the
  invariant of keys, sessions and enrollments, the end of a runner that is archived, the single use of
  an enrollment token, what an accepted heartbeat leaves behind, and what archiving does to runs.
\<close>

section \<open>What the run store never touches\<close>

text \<open>
  A view of the database that reads none of the columns the transactions of the run store write is
  the same after any of them.
\<close>

locale untouched =
  fixes view :: "db \<Rightarrow> 'v"
  assumes on_runs: "view (d\<lparr>runs := a\<rparr>) = view d"
    and on_attempts: "view (d\<lparr>attempts := b\<rparr>) = view d"
    and on_resources: "view (d\<lparr>resources := c\<rparr>) = view d"
    and on_leases: "view (d\<lparr>leases := e\<rparr>) = view d"
    and on_outbox: "view (d\<lparr>outbox := f\<rparr>) = view d"
    and on_inbox: "view (d\<lparr>inbox := g\<rparr>) = view d"
    and on_events: "view (d\<lparr>run_events := h\<rparr>) = view d"
    and on_logs: "view (d\<lparr>log_chunks := i\<rparr>) = view d"
    and on_counts: "view (d\<lparr>runners := sql_update P (\<lambda>rr. rr\<lparr>rr_active_count := n rr\<rparr>) (runners d)\<rparr>) = view d"
begin

lemmas on = on_runs on_attempts on_resources on_leases on_outbox on_inbox on_events on_logs on_counts

lemma on_dispatch: "view (d\<lparr>runs := a, runners := sql_update P (\<lambda>rr. rr\<lparr>rr_active_count := n rr\<rparr>) (runners d)\<rparr>) = view d"
  using on_counts [where d = "d\<lparr>runs := a\<rparr>" and P = P and n = n] on_runs by simp

lemma on_updates: "view (update_run P1 f1 d) = view d" "view (update_attempt P2 f2 d) = view d"
  "view (insert_log_or_skip l d) = view d" "view (releaseRunResources now rid aid d) = view d"
  by (simp_all add: update_run_def update_attempt_def insert_log_or_skip_def releaseRunResources_def Let_def on)

lemma on_insert: "insert_event e1 d = Inr d' \<Longrightarrow> view d' = view d" "insert_attempt a1 d = Inr d' \<Longrightarrow> view d' = view d"
  "insert_run r1 d = Inr d' \<Longrightarrow> view d' = view d" "insert_outbox o1 d = Inr d' \<Longrightarrow> view d' = view d"
  by (auto simp: insert_event_def insert_attempt_def insert_run_def insert_outbox_def on split: if_splits)

lemma on_transition:
  assumes "applyRunEventTransition now event aid rid payload d = Inr d'"
  shows "view d' = view d"
  using assms unfolding applyRunEventTransition_def applyCompletedRunEvent_def applyUnknownRunEvent_def Let_def
  by (auto simp: res_bind_Inr updateTerminalRun_def applyUnknownRunState_def updateRetryState_def startRunAttempt_def Let_def on_updates
      split: if_splits option.splits)

lemma on_ApplyRunEvent:
  assumes "ApplyRunEvent sha clock now event d = Inr d'"
  shows "view d' = view d"
  using assms
proof (rule ApplyRunEvent_Inr)
  fix a row
  assume "d' = d \<and> (\<exists>i \<in> set (inbox d). in_event_id i = re_EventID event)
      \<or> re_EventType event = ''log_chunk''
        \<and> applyLogChunkEvent sha (event_time clock event) (att_id a) (d\<lparr>inbox := inbox d @ [row]\<rparr>) = Inr d'
      \<or> re_EventType event \<noteq> ''log_chunk''
        \<and> apply_state_event sha now (event_time clock event) a (d\<lparr>inbox := inbox d @ [row]\<rparr>) = Inr d'"
  then show ?thesis
    by (auto simp: applyLogChunkEvent_def apply_state_event_def Let_def res_bind_Inr on on_updates
        dest!: on_insert(1) on_transition split: if_splits)
qed

lemma on_reconcile:
  "reconcile_dispatches now sqlnow cs d = Inr d' \<Longrightarrow> view d' = view d"
  "reconcile_cancellations now sqlnow ss d = Inr d' \<Longrightarrow> view d' = view d"
proof -
  have "reconcile_dispatch now sqlnow c d = Inr d' \<Longrightarrow> view d' = view d" for c d d'
    by (auto simp: reconcile_dispatch_def res_bind_Inr Let_def on on_updates dest: on_insert(1))
  note one = this
  show "reconcile_dispatches now sqlnow cs d = Inr d' \<Longrightarrow> view d' = view d"
  proof (induction cs arbitrary: d)
    case (Cons c cs)
    then obtain d1 where "reconcile_dispatch now sqlnow c d = Inr d1" "reconcile_dispatches now sqlnow cs d1 = Inr d'" by (auto simp: res_bind_Inr)
    then show ?case using one Cons.IH by metis
  qed simp
  have "reconcile_cancellation now sqlnow c d = Inr d' \<Longrightarrow> view d' = view d" for c d d'
    by (auto simp: reconcile_cancellation_def res_bind_Inr Let_def on on_updates dest: on_insert(1))
  note one = this
  show "reconcile_cancellations now sqlnow ss d = Inr d' \<Longrightarrow> view d' = view d"
  proof (induction ss arbitrary: d)
    case (Cons c ss)
    then obtain d1 where "reconcile_cancellation now sqlnow c d = Inr d1" "reconcile_cancellations now sqlnow ss d1 = Inr d'" by (auto simp: res_bind_Inr)
    then show ?case using one Cons.IH by metis
  qed simp
qed

lemma on_acquire: "acquire_leases now fresh k c rids d = Inr d' \<Longrightarrow> view d' = view d"
proof (induction rids arbitrary: k d)
  case (Cons rid rids)
  then obtain d1 where d1: "acquire_lease now (fresh (2 * k)) (fresh (2 * k + 1)) c rid d = Inr d1"
    "acquire_leases now fresh (k + 1) c rids d1 = Inr d'" by (auto simp: res_bind_Inr)
  have "view d1 = view d" using d1(1) by (auto simp: acquire_lease_def Let_def on split: if_splits option.splits)
  then show ?case using Cons.IH [OF d1(2)] by simp
qed simp

lemma on_ClaimWaiting:
  assumes "ClaimWaiting digest token fresh clock now build d = Inr (c, d')"
  shows "view d' = view d"
proof (cases c)
  case None
  then show ?thesis using assms unfolding ClaimWaiting_def by (auto simp: res_bind_Inr split: option.splits if_splits)
next
  case (Some cand)
  then obtain envelope where "dispatch_candidate now fresh envelope cand d = Inr d'" using assms ClaimWaiting_Inr by blast
  then show ?thesis
    by (auto simp: dispatch_candidate_def res_bind_Inr Let_def update_run_def on on_dispatch dest!: on_insert(4) on_acquire on_insert(2))
qed

lemma on_others:
  "RunStore_Create provider clock now def0 d = Inr (r, d') \<Longrightarrow> view d' = view d"
  "ClaimStart now inp d = Inr (res, d') \<Longrightarrow> view d' = view d"
  "updated_run ident P2 f2 d = Inr (r2, d') \<Longrightarrow> view d' = view d"
  "ClaimCancelling now cbuild d = Inr (cc, d') \<Longrightarrow> view d' = view d"
  "CreateAttempt a1 d = Inr d' \<Longrightarrow> view d' = view d" "AppendEvent clock e1 d = Inr d' \<Longrightarrow> view d' = view d"
  "AppendLogChunk sha clock l d = Inr d' \<Longrightarrow> view d' = view d" "view (MarkDispatchPublished now mid d) = view d"
  "view (RetryDispatch now mid err d) = view d"
  by (auto simp: RunStore_Create_def Let_def res_bind_Inr on dest: on_insert split: option.splits if_splits)[1]
    (auto simp: ClaimStart_def updated_run_def ClaimCancelling_def CreateAttempt_def AppendEvent_def AppendLogChunk_def
      MarkDispatchPublished_def RetryDispatch_def Let_def on on_updates dest: on_insert
      split: if_splits option.splits prod.splits)

lemma on_store_step: "store_step d d' \<Longrightarrow> view d' = view d"
proof (induction rule: store_step.induct)
  case (request_cancellation now ident reason d r d')
  then show ?case by (auto simp: RequestCancellation_def Let_def split: if_splits dest: on_others(3))
next
  case (retry now ident reason d r d')
  then show ?case by (auto simp: RunStore_Retry_def dest: on_others(3) split: if_splits)
next
  case (timed_out clock now d d')
  then show ?case by (auto simp: ReconcileTimedOutDispatches_def split: if_splits dest: on_reconcile)
next
  case (stale cutoff clock now d d')
  then show ?case by (auto simp: ReconcileStaleCancellations_def split: if_splits dest: on_reconcile)
qed (simp_all add: on_others on_ClaimWaiting on_ApplyRunEvent)

end

section \<open>The system of both stores\<close>

definition roster :: "db \<Rightarrow> (string \<times> bool) list" where
  "roster d = map (\<lambda>rr. (rr_id rr, rr_is_archived rr \<or> rr_is_deleted rr)) (runners d)"

definition fleet_view :: "db \<Rightarrow> key_row list \<times> enrollment_row list \<times> session_row list \<times> (string \<times> bool) list" where
  "fleet_view d = (runner_keys d, enrollments d, sessions d, roster d)"

interpretation fleet: untouched fleet_view
  by unfold_locales (simp_all add: fleet_view_def roster_def sql_update_def o_def if_distrib cong: if_cong)

text \<open>
  One step of the system: a transaction of the run store or of the runner store. \<open>issued\<close> holds the
  token hashes of the enrollments that are created.
\<close>

inductive system_step :: "(string \<Rightarrow> bytes option) \<Rightarrow> bytes set \<Rightarrow> db \<Rightarrow> db \<Rightarrow> bool" for unhex issued where
  run_store: "store_step d d' \<Longrightarrow> system_step unhex issued d d'"
| ensure_pool: "EnsurePool ident name d = Inr (u, d') \<Longrightarrow> system_step unhex issued d d'"
| create_pool: "CreatePool item d = Inr (u, d') \<Longrightarrow> system_step unhex issued d d'"
| update_pool: "UpdatePool item d = Inr (p, d') \<Longrightarrow> system_step unhex issued d d'"
| delete_pool: "DeletePool ident d = Inr (u, d') \<Longrightarrow> system_step unhex issued d d'"
| desired_state: "SetDesiredState print ident state d = Inr (r, d') \<Longrightarrow> system_step unhex issued d d'"
| capacity: "UpdateCapacity print ident n d = Inr (r, d') \<Longrightarrow> system_step unhex issued d d'"
| nats_endpoint: "UpdateNATSEndpoint print ident endpoint d = Inr (r, d') \<Longrightarrow> system_step unhex issued d d'"
| control_url: "UpdateControlPlaneURL print ident endpoint d = Inr (r, d') \<Longrightarrow> system_step unhex issued d d'"
| delete: "RunnerStore_Delete ident d = Inr (b, d') \<Longrightarrow> system_step unhex issued d d'"
| archive: "Archive now ident d = Inr (b, d') \<Longrightarrow> system_step unhex issued d d'"
| enroll: "CreateEnrollment unhex nr enrollment d = Inr (u, d') \<Longrightarrow> the (unhex (ei_TokenHash enrollment)) \<in> issued
    \<Longrightarrow> system_step unhex issued d d'"
| consume: "consumeEnrollment print unhex clock tokenHash now keyID publicKey d = (r, d') \<Longrightarrow> system_step unhex issued d d'"
| create_session: "CreateSession now ident bootID d = Inr (u, d') \<Longrightarrow> system_step unhex issued d d'"
| seen: "d' = RunnerStore_Heartbeat ident now d \<Longrightarrow> system_step unhex issued d d'"
| heartbeat: "heartbeatWithKeyAndCapacity inp d = Inr d' \<Longrightarrow> system_step unhex issued d d'"
| mark_stale: "d' = MarkStale cutoff d \<Longrightarrow> system_step unhex issued d d'"

inductive system_steps :: "(string \<Rightarrow> bytes option) \<Rightarrow> bytes set \<Rightarrow> db \<Rightarrow> db \<Rightarrow> bool" for unhex issued where
  none: "system_steps unhex issued d d"
| more: "system_steps unhex issued d d' \<Longrightarrow> system_step unhex issued d' d'' \<Longrightarrow> system_steps unhex issued d d''"

text \<open>One row for each boot of a runner, and at most one of them open.\<close>

definition session_key :: "session_row \<Rightarrow> string \<times> string" where
  "session_key rs = (rs_runner_id rs, rs_boot_id rs)"

definition one_session :: "session_row list \<Rightarrow> bool" where
  "one_session ss \<longleftrightarrow>
     distinct (map session_key ss)
     \<and> (\<forall>a \<in> set ss. \<forall>b \<in> set ss. rs_runner_id a = rs_runner_id b \<and> rs_disconnected_at a = None \<and> rs_disconnected_at b = None \<longrightarrow> a = b)"

text \<open>An archived runner has no key that is not revoked and no enrollment that is not used.\<close>

definition retired_closed :: "key_row list \<Rightarrow> enrollment_row list \<Rightarrow> (string \<times> bool) list \<Rightarrow> bool" where
  "retired_closed ks es ro \<longleftrightarrow>
     (\<forall>rk \<in> set ks. (rk_runner_id rk, True) \<in> set ro \<longrightarrow> rk_revoked_at rk \<noteq> None)
     \<and> (\<forall>en \<in> set es. (en_runner_id en, True) \<in> set ro \<longrightarrow> en_used_at en \<noteq> None)"

definition fleet_inv :: "db \<Rightarrow> bool" where
  "fleet_inv d \<longleftrightarrow>
     distinct (map fst (roster d)) \<and> distinct (map rk_key_id (runner_keys d)) \<and> one_session (sessions d)
     \<and> retired_closed (runner_keys d) (enrollments d) (roster d)"

section \<open>The invariant of the fleet\<close>

lemma fleet_inv_view: "fleet_inv d \<Longrightarrow> fleet_view d' = fleet_view d \<Longrightarrow> fleet_inv d'"
  by (simp add: fleet_inv_def fleet_view_def)

lemma roster_update:
  assumes "\<And>rr. P rr \<Longrightarrow> rr_id (f rr) = rr_id rr \<and> rr_is_archived (f rr) = rr_is_archived rr \<and> rr_is_deleted (f rr) = rr_is_deleted rr"
  shows "roster (d\<lparr>runners := sql_update P f (runners d')\<rparr>) = roster d'"
  using assms by (simp add: roster_def sql_update_def)

lemma roster_simps [simp]:
  "roster (d\<lparr>enrollments := es\<rparr>) = roster d" "roster (d\<lparr>runner_keys := ks\<rparr>) = roster d" "roster (d\<lparr>sessions := ss\<rparr>) = roster d"
  "roster (d\<lparr>runner_metrics := ms\<rparr>) = roster d"
  by (simp_all add: roster_def)

lemma fst_roster: "map fst (roster d) = map rr_id (runners d)"
  by (simp add: roster_def)

lemma in_roster: "(ident, True) \<in> set (roster d) \<longleftrightarrow> (\<exists>rr \<in> set (runners d). rr_id rr = ident \<and> (rr_is_archived rr \<or> rr_is_deleted rr))"
  by (auto simp: roster_def)

lemma fleet_update_runner:
  assumes "update_runner print ident f d = Inr (r, d')"
    and "\<And>rr. rr_id (f rr) = rr_id rr \<and> rr_is_archived (f rr) = rr_is_archived rr \<and> rr_is_deleted (f rr) = rr_is_deleted rr"
  shows "fleet_view d' = fleet_view d"
proof -
  have "roster (d\<lparr>runners := sql_update (in_service ident) f (runners d)\<rparr>) = roster d" by (rule roster_update) (simp add: assms(2))
  moreover have "d' = d \<or> d' = d\<lparr>runners := sql_update (in_service ident) f (runners d)\<rparr>"
    using assms(1) unfolding update_runner_def Let_def by (simp split: if_splits)
  ultimately show ?thesis by (auto simp: fleet_view_def)
qed

lemma fleet_administration:
  "SetDesiredState print ident state d = Inr (r, d') \<Longrightarrow> fleet_view d' = fleet_view d"
  "UpdateCapacity print ident n d = Inr (r, d') \<Longrightarrow> fleet_view d' = fleet_view d"
  "UpdateNATSEndpoint print ident endpoint d = Inr (r, d') \<Longrightarrow> fleet_view d' = fleet_view d"
  "UpdateControlPlaneURL print ident endpoint d = Inr (r, d') \<Longrightarrow> fleet_view d' = fleet_view d"
  by (simp_all add: SetDesiredState_def UpdateCapacity_def UpdateNATSEndpoint_def UpdateControlPlaneURL_def split: if_splits)
    (erule fleet_update_runner; simp)+

lemma fleet_pools:
  "EnsurePool ident name d = Inr (u, d') \<Longrightarrow> fleet_view d' = fleet_view d" "CreatePool item d = Inr (u, d') \<Longrightarrow> fleet_view d' = fleet_view d"
  "UpdatePool item d = Inr (p, d') \<Longrightarrow> fleet_view d' = fleet_view d" "DeletePool ident d = Inr (u, d') \<Longrightarrow> fleet_view d' = fleet_view d"
  by (auto simp: EnsurePool_def CreatePool_def UpdatePool_def DeletePool_def Let_def fleet_view_def roster_def split: if_splits)

lemma fleet_seen: "fleet_view (RunnerStore_Heartbeat ident now d) = fleet_view d" "fleet_view (MarkStale cutoff d) = fleet_view d"
  by (simp_all add: RunnerStore_Heartbeat_def MarkStale_def fleet_view_def roster_update)

lemma distinct_map_filter_keys: "distinct (map g xs) \<Longrightarrow> distinct (map g (filter P xs))"
  by (induction xs) auto

lemma one_session_filter: "one_session ss \<Longrightarrow> one_session (filter P ss)"
  by (simp add: one_session_def distinct_map_filter_keys)

lemma one_session_update:
  assumes "one_session ss"
    and "\<And>rs. P rs \<Longrightarrow> session_key (f rs) = session_key rs \<and> (rs_disconnected_at (f rs) = None \<longrightarrow> rs_disconnected_at rs = None)"
  shows "one_session (sql_update P f ss)"
proof -
  have "distinct (map session_key (sql_update P f ss))"
    using assms map_sql_update [of P session_key f ss] by (simp add: one_session_def)
  moreover have "x = y" if x: "x \<in> set (sql_update P f ss)" and y: "y \<in> set (sql_update P f ss)" and runner: "rs_runner_id x = rs_runner_id y"
    and still: "rs_disconnected_at x = None" "rs_disconnected_at y = None" for x y
  proof -
    obtain a where a: "a \<in> set ss" "x = (if P a then f a else a)" using x by (auto simp: set_sql_update)
    obtain b where b: "b \<in> set ss" "y = (if P b then f b else b)" using y by (auto simp: set_sql_update)
    have "rs_runner_id a = rs_runner_id x" "rs_disconnected_at a = None" "rs_runner_id b = rs_runner_id y" "rs_disconnected_at b = None"
      using a(2) b(2) still assms(2) [of a] assms(2) [of b] by (auto simp: session_key_def split: if_splits)
    then have "a = b" using assms(1) a(1) b(1) runner unfolding one_session_def by metis
    then show ?thesis using a(2) b(2) by simp
  qed
  ultimately show ?thesis unfolding one_session_def by blast
qed

text \<open>After a change to the sessions of one runner that leaves only one of its boots open.\<close>

lemma one_session_of_boot:
  assumes "one_session ss" "distinct (map session_key ss')"
    and "\<And>a. a \<in> set ss' \<Longrightarrow> rs_runner_id a = ident \<Longrightarrow> rs_disconnected_at a = None \<Longrightarrow> rs_boot_id a = boot"
    and "\<And>a. a \<in> set ss' \<Longrightarrow> rs_runner_id a \<noteq> ident \<Longrightarrow> a \<in> set ss"
  shows "one_session ss'"
proof -
  have "x = y" if "x \<in> set ss'" "y \<in> set ss'" "rs_runner_id x = rs_runner_id y" "rs_disconnected_at x = None" "rs_disconnected_at y = None" for x y
  proof (cases "rs_runner_id x = ident")
    case True
    then have "session_key x = session_key y" using that assms(3) [of x] assms(3) [of y] by (simp add: session_key_def)
    then show ?thesis using distinct_map_eq_key [OF assms(2)] that(1,2) by blast
  next
    case False
    then have "x \<in> set ss" "y \<in> set ss" using assms(4) that by auto
    then show ?thesis using assms(1) that(3-) unfolding one_session_def by blast
  qed
  then show ?thesis using assms(2) unfolding one_session_def by blast
qed

lemma find_row_None: "find_row P xs = None \<longleftrightarrow> \<not> (\<exists>x \<in> set xs. P x)"
  by (auto simp: find_row_def find_None_iff)

lemma fleet_Delete:
  assumes "RunnerStore_Delete ident d = Inr (b, d')" "fleet_inv d"
  shows "fleet_inv d'"
proof (cases "d' = d")
  case False
  then have d': "runner_keys d' = filter (\<lambda>rk. rk_runner_id rk \<noteq> ident) (runner_keys d)"
    "enrollments d' = filter (\<lambda>en. en_runner_id en \<noteq> ident) (enrollments d)"
    "sessions d' = filter (\<lambda>rs. rs_runner_id rs \<noteq> ident) (sessions d)"
    "roster d' = filter (\<lambda>x. fst x \<noteq> ident) (roster d)"
    using assms(1) unfolding RunnerStore_Delete_def by (auto simp: roster_def filter_map o_def split: if_splits)
  then show ?thesis
    using assms(2) by (simp add: fleet_inv_def distinct_map_filter_keys one_session_filter retired_closed_def)
qed (use assms(2) in simp)

lemma fleet_Archive:
  assumes "Archive now ident d = Inr (b, d')" "fleet_inv d"
  shows "fleet_inv d'"
proof (cases "d' = d")
  case False
  then obtain rr where rr: "find_row (\<lambda>rr. rr_id rr = ident) (runners d) = Some rr"
    and d': "roster d' = map (\<lambda>(i, b). if i = ident then (i, True) else (i, b)) (roster d)"
      "runner_keys d' = sql_update (\<lambda>rk. rk_runner_id rk = ident \<and> rk_revoked_at rk = None) (\<lambda>rk. rk\<lparr>rk_revoked_at := Some now\<rparr>) (runner_keys d)"
      "enrollments d' = filter (\<lambda>en. \<not> (en_runner_id en = ident \<and> en_used_at en = None)) (enrollments d)"
      "sessions d' = sql_update (\<lambda>rs. rs_runner_id rs = ident \<and> rs_disconnected_at rs = None) (\<lambda>rs. rs\<lparr>rs_disconnected_at := Some now\<rparr>) (sessions d)"
    using assms(1) unfolding Archive_def by (auto simp: roster_def sql_update_def split: option.splits if_splits)
  have "map fst (roster d') = map fst (roster d)" unfolding d'(1) by (induction "roster d") auto
  moreover have "map rk_key_id (runner_keys d') = map rk_key_id (runner_keys d)" unfolding d'(2) by (simp add: map_sql_update)
  moreover have "one_session (sessions d')"
    unfolding d'(4) using assms(2) by (intro one_session_update) (auto simp: fleet_inv_def session_key_def)
  moreover have "retired_closed (runner_keys d') (enrollments d') (roster d')"
  proof -
    have old: "retired_closed (runner_keys d) (enrollments d) (roster d)" using assms(2) by (simp add: fleet_inv_def)
    have ro: "(i, True) \<in> set (roster d') \<Longrightarrow> i = ident \<or> (i, True) \<in> set (roster d)" for i
      unfolding d'(1) by (auto split: if_splits)
    show ?thesis
      unfolding retired_closed_def d'(2,3)
      using old ro unfolding retired_closed_def by (auto simp: set_sql_update)
  qed
  ultimately show ?thesis using assms(2) by (simp add: fleet_inv_def)
qed (use assms(2) in simp)

lemma fleet_CreateEnrollment:
  assumes "CreateEnrollment unhex r enrollment d = Inr (u, d')" "fleet_inv d"
  shows "fleet_inv d' \<and> (\<exists>token en. unhex (ei_TokenHash enrollment) = Some token \<and> en_token_hash en = token
     \<and> enrollments d' = filter (\<lambda>en. \<not> (en_runner_id en = nr_ID r \<and> en_used_at en = None)) (enrollments d) @ [en])"
proof -
  from assms(1) obtain artifact pool d1 rr token where up: "upsert_runner r artifact pool d = Inr d1"
    and rr: "find_row (\<lambda>rr. rr_id rr = nr_ID r) (runners d1) = Some rr" "\<not> rr_is_archived rr" "\<not> rr_is_deleted rr"
    and token: "unhex (ei_TokenHash enrollment) = Some token"
    and d': "d' = d1\<lparr>enrollments := filter (\<lambda>en. \<not> (en_runner_id en = nr_ID r \<and> en_used_at en = None)) (enrollments d1) @
        [\<lparr>en_id = ei_ID enrollment, en_runner_id = nr_ID r, en_token_hash = token, en_expires_at = ei_ExpiresAt enrollment,
          en_used_at = None, en_requester = ei_Requester enrollment, en_target = ei_Target enrollment, en_artifact = artifact\<rparr>]\<rparr>"
    unfolding CreateEnrollment_def Let_def by (auto simp: res_bind_Inr split: option.splits if_splits)
  have same: "runner_keys d1 = runner_keys d" "enrollments d1 = enrollments d" "sessions d1 = sessions d"
    and ro: "roster d1 = roster d \<or> roster d1 = roster d @ [(nr_ID r, False)] \<and> nr_ID r \<notin> set (map fst (roster d))"
    using up by (auto simp: upsert_runner_def Let_def roster_update list_ex_iff image_iff roster_def sql_update_def split: if_splits)
  have "distinct (map fst (roster d))" using assms(2) by (simp add: fleet_inv_def)
  then have d1: "distinct (map fst (roster d1))" using ro by auto
  have alive: "(nr_ID r, True) \<notin> set (roster d1)"
  proof
    assume "(nr_ID r, True) \<in> set (roster d1)"
    then obtain x where x: "x \<in> set (runners d1)" "rr_id x = nr_ID r" "rr_is_archived x \<or> rr_is_deleted x" by (auto simp: in_roster)
    have "x = rr" using d1 x(1,2) find_row_Some [OF rr(1)] distinct_map_eq_key [of rr_id "runners d1" x rr] by (simp add: fst_roster)
    then show False using x(3) rr(2,3) by simp
  qed
  have "(i, True) \<in> set (roster d1) \<longleftrightarrow> (i, True) \<in> set (roster d)" for i using ro by auto
  then have "retired_closed (runner_keys d') (enrollments d') (roster d')"
    using assms(2) alive same unfolding fleet_inv_def retired_closed_def d' by auto
  then have "fleet_inv d'" using d1 same assms(2) by (simp add: fleet_inv_def d')
  then show ?thesis using token same(2) by (auto simp: d')
qed

lemma fleet_bind_key:
  assumes "bind_key now ident keyID key d = Inr d'" "fleet_inv d" "(ident, True) \<notin> set (roster d)"
  shows "fleet_inv d' \<and> enrollments d' = enrollments d \<and> roster d' = roster d \<and> runners d' = runners d"
proof (cases "find_row (\<lambda>rk. rk_key_id rk = keyID) (runner_keys d)")
  case None
  then obtain rk where d': "d' = d\<lparr>runner_keys := runner_keys d @ [rk]\<rparr>" and rk: "rk_key_id rk = keyID" "rk_runner_id rk = ident"
    using assms(1) by (auto simp: bind_key_def split: if_splits)
  show ?thesis
    using None assms(2,3) rk unfolding find_row_None by (auto simp: d' fleet_inv_def retired_closed_def)
next
  case (Some rk)
  then have owner: "rk_runner_id rk = ident"
    and d': "d' = d\<lparr>runner_keys := sql_update (\<lambda>rk. rk_key_id rk = keyID)
             (\<lambda>rk. rk\<lparr>rk_public_key := key, rk_not_before := now, rk_not_after := None, rk_revoked_at := None\<rparr>) (runner_keys d)\<rparr>"
    using assms(1) by (auto simp: bind_key_def split: if_splits)
  have same: "x = rk" if "x \<in> set (runner_keys d)" "rk_key_id x = keyID" for x
    using that find_row_Some [OF Some] assms(2) distinct_map_eq_key [of rk_key_id "runner_keys d" x rk] by (simp add: fleet_inv_def)
  have "retired_closed (runner_keys d') (enrollments d) (roster d)"
    using assms(2,3) owner same unfolding fleet_inv_def retired_closed_def d' by (auto simp: set_sql_update)
  then show ?thesis using assms(2) by (simp add: fleet_inv_def d' map_sql_update)
qed

lemma consume_cases:
  assumes "consumeEnrollment print unhex clock tokenHash now keyID key d = (r, d')"
  obtains (failed) e where "r = Inl e" "d' = d"
    | (used) token en d2 where "unhex tokenHash = Some token" "find_row (\<lambda>en. en_token_hash en = token) (enrollments d) = Some en"
        "en_used_at en = None" "now < en_expires_at en"
        "(if keyID \<noteq> [] then bind_key clock (en_runner_id en) keyID key
            (d\<lparr>enrollments := sql_update (\<lambda>en. en_token_hash en = token) (\<lambda>en. en\<lparr>en_used_at := Some clock\<rparr>) (enrollments d)\<rparr>)
          else Inr (d\<lparr>enrollments := sql_update (\<lambda>en. en_token_hash en = token) (\<lambda>en. en\<lparr>en_used_at := Some clock\<rparr>) (enrollments d)\<rparr>)) = Inr d2"
        "d' = d2\<lparr>runners := sql_update (in_service (en_runner_id en))
                (\<lambda>rr. rr\<lparr>rr_observed_state := ''PENDING'', rr_last_seen_at := None\<rparr>) (runners d2)\<rparr>"
  using assms unfolding consumeEnrollment_def Let_def
  by (auto simp: res_bind_Inr split: option.splits sum.splits if_splits)

lemma retired_used:
  assumes "retired_closed ks es ro" "en \<in> set es" "en_used_at en = None"
  shows "(en_runner_id en, True) \<notin> set ro"
  using assms by (auto simp: retired_closed_def)

lemma fleet_consume:
  assumes "consumeEnrollment print unhex clock tokenHash now keyID key d = (r, d')" "fleet_inv d"
  shows "fleet_inv d'"
  using assms(1)
proof (cases rule: consume_cases)
  case (used token en d2)
  define d1 where "d1 = d\<lparr>enrollments := sql_update (\<lambda>en. en_token_hash en = token) (\<lambda>en. en\<lparr>en_used_at := Some clock\<rparr>) (enrollments d)\<rparr>"
  have inv1: "fleet_inv d1"
    using assms(2) unfolding fleet_inv_def retired_closed_def d1_def by (auto simp: set_sql_update)
  have alive: "(en_runner_id en, True) \<notin> set (roster d1)"
    using retired_used [of "runner_keys d" "enrollments d" "roster d" en] find_row_Some [OF used(2)] used(3) assms(2)
    by (simp add: fleet_inv_def d1_def)
  have "fleet_inv d2"
    using used(5) fleet_bind_key [OF _ inv1 alive] inv1 unfolding d1_def [symmetric] by (auto split: if_splits)
  then show ?thesis
    unfolding used(6) by (rule fleet_inv_view) (simp add: fleet_view_def roster_update)
qed (use assms(2) in simp)

lemma fleet_CreateSession:
  assumes "CreateSession now ident bootID d = Inr (u, d')" "fleet_inv d"
  shows "fleet_inv d'"
proof -
  obtain s where d': "d' = d\<lparr>sessions := sessions d @ [s]\<rparr>" and free: "\<not> session_conflict s d"
    using assms(1) unfolding CreateSession_def Let_def by (auto split: if_splits)
  have "one_session (sessions d)" using assms(2) by (simp add: fleet_inv_def)
  then have "one_session (sessions d @ [s])"
    using free unfolding one_session_def session_conflict_def list_ex_iff by (auto simp: session_key_def)
  then show ?thesis using assms(2) by (simp add: fleet_inv_def d')
qed

lemma close_others_view: "runner_keys (close_others inp d) = runner_keys d" "enrollments (close_others inp d) = enrollments d"
  "roster (close_others inp d) = roster d" "runners (close_others inp d) = runners d"
  by (simp_all add: close_others_def)

lemma upsert_session_view:
  assumes "upsert_session inp d = Inr d'"
  shows "runner_keys d' = runner_keys d" "enrollments d' = enrollments d" "roster d' = roster d" "runners d' = runners d"
  using assms by (auto simp: upsert_session_def Let_def split: if_splits)

text \<open>The sessions that an accepted heartbeat leaves.\<close>

lemma heartbeat_sessions:
  assumes up: "upsert_session inp (close_others inp d) = Inr d'" and one: "one_session (sessions d)"
  shows "one_session (sessions d')"
    and "\<exists>rs \<in> set (sessions d'). rs_runner_id rs = hi_runnerID inp \<and> rs_boot_id rs = hi_bootID inp \<and> rs_disconnected_at rs = None
           \<and> rs_last_heartbeat_at rs = hi_now inp"
    and "\<And>a. a \<in> set (sessions d') \<Longrightarrow> rs_runner_id a = hi_runnerID inp \<Longrightarrow> rs_disconnected_at a = None \<Longrightarrow> rs_boot_id a = hi_bootID inp"
    and "\<And>a. a \<in> set (sessions d') \<Longrightarrow> rs_runner_id a \<noteq> hi_runnerID inp \<Longrightarrow> a \<in> set (sessions d)"
proof -
  define ss where "ss = sessions (close_others inp d)"
  have closed: "rs_boot_id a = hi_bootID inp" if "a \<in> set ss" "rs_runner_id a = hi_runnerID inp" "rs_disconnected_at a = None" for a
    using that by (auto simp: ss_def close_others_def set_sql_update split: if_splits)
  have others: "a \<in> set (sessions d)" if "a \<in> set ss" "rs_runner_id a \<noteq> hi_runnerID inp" for a
    using that by (auto simp: ss_def close_others_def set_sql_update split: if_splits)
  have keys: "distinct (map session_key ss)"
    using one by (simp add: ss_def close_others_def map_sql_update session_key_def one_session_def)
  let ?mine = "\<lambda>rs. rs_runner_id rs = hi_runnerID inp \<and> rs_boot_id rs = hi_bootID inp"
  consider (old) f where "sessions d' = sql_update ?mine f ss" "list_ex ?mine ss"
      "\<And>rs. session_key (f rs) = session_key rs \<and> rs_disconnected_at (f rs) = None \<and> rs_last_heartbeat_at (f rs) = hi_now inp"
    | (new) s where "sessions d' = ss @ [s]" "\<not> list_ex ?mine ss" "?mine s" "rs_disconnected_at s = None" "rs_last_heartbeat_at s = hi_now inp"
    using up unfolding upsert_session_def Let_def ss_def [symmetric]
    by (auto simp: ss_def session_key_def split: if_splits)
  then have "distinct (map session_key (sessions d'))
    \<and> (\<exists>rs \<in> set (sessions d'). ?mine rs \<and> rs_disconnected_at rs = None \<and> rs_last_heartbeat_at rs = hi_now inp)
    \<and> (\<forall>a \<in> set (sessions d'). rs_runner_id a = hi_runnerID inp \<longrightarrow> rs_disconnected_at a = None \<longrightarrow> rs_boot_id a = hi_bootID inp)
    \<and> (\<forall>a \<in> set (sessions d'). rs_runner_id a \<noteq> hi_runnerID inp \<longrightarrow> a \<in> set (sessions d))"
  proof cases
    case old
    then obtain x where x: "x \<in> set ss" "?mine x" by (auto simp: list_ex_iff)
    have key: "rs_runner_id (f rs) = rs_runner_id rs" "rs_boot_id (f rs) = rs_boot_id rs" for rs
      using old(3) [of rs] by (simp_all add: session_key_def)
    have "f x \<in> set (sessions d')" using x by (auto simp: old(1) set_sql_update intro!: image_eqI [of _ _ x])
    then have "\<exists>rs \<in> set (sessions d'). ?mine rs \<and> rs_disconnected_at rs = None \<and> rs_last_heartbeat_at rs = hi_now inp"
      using x key old(3) by (intro bexI [of _ "f x"]) auto
    then show ?thesis
      using keys closed others old(3) key by (auto simp: old(1) map_sql_update set_sql_update)
  next
    case new
    then show ?thesis using keys closed others by (auto simp: list_ex_iff session_key_def)
  qed
  note facts = this
  then show "\<exists>rs \<in> set (sessions d'). rs_runner_id rs = hi_runnerID inp \<and> rs_boot_id rs = hi_bootID inp \<and> rs_disconnected_at rs = None
           \<and> rs_last_heartbeat_at rs = hi_now inp" by blast
  show mine: "rs_boot_id a = hi_bootID inp" if "a \<in> set (sessions d')" "rs_runner_id a = hi_runnerID inp" "rs_disconnected_at a = None" for a
    using facts that by blast
  show rest: "a \<in> set (sessions d)" if "a \<in> set (sessions d')" "rs_runner_id a \<noteq> hi_runnerID inp" for a using facts that by blast
  show "one_session (sessions d')" by (rule one_session_of_boot [OF one _ mine rest]) (use facts in simp_all)
qed

lemma heartbeat_Inr:
  assumes "heartbeatWithKeyAndCapacity inp d = Inr d'"
  obtains d1 rr rk where "find_row (\<lambda>rr. rr_id rr = hi_runnerID inp) (runners d) = Some rr" "\<not> rr_is_archived rr" "\<not> rr_is_deleted rr"
    "upsert_session inp (close_others inp d) = Inr d1"
    "find_row (\<lambda>rk. rk_key_id rk = hi_keyID inp \<and> rk_revoked_at rk = None) (runner_keys d) = Some rk"
    "rk_runner_id rk = hi_runnerID inp" "rk_public_key rk = hi_publicKey inp"
    "sessions d' = sessions d1" "runner_keys d' = runner_keys d" "enrollments d' = enrollments d" "roster d' = roster d"
proof -
  from assms obtain d1 rr rk where f: "find_row (\<lambda>rr. rr_id rr = hi_runnerID inp) (runners d) = Some rr" "\<not> rr_is_archived rr" "\<not> rr_is_deleted rr"
    "upsert_session inp (close_others inp d) = Inr d1"
    "find_row (\<lambda>rk. rk_key_id rk = hi_keyID inp \<and> rk_revoked_at rk = None) (runner_keys d1) = Some rk"
    "rk_runner_id rk = hi_runnerID inp" "rk_public_key rk = hi_publicKey inp"
    and run: "(case hi_sample inp of None \<Rightarrow> Inr | Some sample \<Rightarrow> insert_metrics inp sample)
        (d1\<lparr>runners := sql_update (\<lambda>rr. in_service (hi_runnerID inp) rr \<and> rr_observed_state rr \<noteq> ''REVOKED'')
               (\<lambda>rr. rr\<lparr>rr_observed_state := ''ONLINE'', rr_last_seen_at := Some (hi_now inp)\<rparr>) (runners d1)\<rparr>) = Inr d'"
    unfolding heartbeatWithKeyAndCapacity_def Let_def
    by (auto simp: res_bind_Inr split: option.splits if_splits)
  have "roster (d1\<lparr>runners := sql_update (\<lambda>rr. in_service (hi_runnerID inp) rr \<and> rr_observed_state rr \<noteq> ''REVOKED'')
               (\<lambda>rr. rr\<lparr>rr_observed_state := ''ONLINE'', rr_last_seen_at := Some (hi_now inp)\<rparr>) (runners d1)\<rparr>) = roster d1"
    by (rule roster_update) simp
  then have "sessions d' = sessions d1" "runner_keys d' = runner_keys d1" "enrollments d' = enrollments d1" "roster d' = roster d1"
    using run by (auto simp: insert_metrics_def split: option.splits if_splits)
  then show thesis using that [OF f(1-4) _ f(6,7)] f(5) upsert_session_view [OF f(4)] close_others_view by simp
qed

lemma fleet_heartbeat:
  assumes "heartbeatWithKeyAndCapacity inp d = Inr d'" "fleet_inv d"
  shows "fleet_inv d'"
  using assms(1)
proof (rule heartbeat_Inr)
  fix d1
  assume "upsert_session inp (close_others inp d) = Inr d1" and same: "sessions d' = sessions d1" "runner_keys d' = runner_keys d"
    "enrollments d' = enrollments d" "roster d' = roster d"
  then have "one_session (sessions d1)" using heartbeat_sessions(1) assms(2) by (simp add: fleet_inv_def)
  then show "fleet_inv d'" using assms(2) same by (simp add: fleet_inv_def)
qed

lemma system_step_inv:
  assumes "system_step unhex issued d d'" "fleet_inv d"
  shows "fleet_inv d'"
  using assms
proof induction
  case (run_store d d')
  then show ?case using fleet.on_store_step fleet_inv_view by blast
qed (use fleet_pools fleet_administration fleet_seen fleet_inv_view fleet_Delete fleet_Archive fleet_CreateEnrollment fleet_consume
      fleet_CreateSession fleet_heartbeat in metis)+

lemma system_steps_inv: "system_steps unhex issued d d' \<Longrightarrow> fleet_inv d \<Longrightarrow> fleet_inv d'"
  by (induction rule: system_steps.induct) (auto dest: system_step_inv)

text \<open>
  C35. The fleet stays well formed whatever the run store and the runner store do: identifiers of runners and
  keys are unique, a runner has one session row for each boot and at most one of them open, and an
  archived runner has neither a key that is not revoked nor an enrollment that is not used.
\<close>

theorem fleet_well_formed:
  assumes "system_steps unhex issued d d'" "fleet_inv d"
  shows "distinct (map rr_id (runners d')) \<and> distinct (map rk_key_id (runner_keys d')) \<and> one_session (sessions d')
     \<and> retired_closed (runner_keys d') (enrollments d') (roster d')"
  using system_steps_inv [OF assms] by (simp add: fleet_inv_def fst_roster)

section \<open>Archived runners\<close>

lemma events_not_heartbeats: "events_prefix @ ident \<noteq> queue_Subject ''heartbeats'' other"
  by (simp add: events_prefix_def queue_Subject_def)

lemma event_needs_key:
  assumes "applyRunnerEvent L J keys sha now clock sqlnow (events_prefix @ ident) raw d = Inr res"
  shows "\<exists>keyID key. keys ident keyID = Some key"
  using assms events_not_heartbeats
  by (auto simp: applyRunnerEvent_def TrimPrefix_events Let_def res_bind_Inr recordRunnerHeartbeatForSubject_def
      split: if_splits sum.splits option.splits)

text \<open>
  C22. A runner that has been archived is cut off in every reachable state, whatever enrollments, heartbeats
  and dispatches are tried: none of its keys verifies, so no event on its subject is accepted, its
  heartbeats are refused and no run is dispatched to it.
\<close>

theorem archived_runner_cut_off:
  assumes "system_steps unhex issued d0 d" "fleet_inv d0"
    and "rr \<in> set (runners d)" "rr_is_archived rr \<or> rr_is_deleted rr"
  shows "FindPublicKey t d (rr_id rr) keyID = None
    \<and> \<not> (\<exists>res. applyRunnerEvent L J (FindPublicKey t d) sha now clock sqlnow (events_prefix @ rr_id rr) raw d = Inr res)
    \<and> (hi_runnerID inp = rr_id rr \<longrightarrow> (\<exists>e. heartbeatWithKeyAndCapacity inp d = Inl e))
    \<and> \<not> (\<exists>c d'. ClaimWaiting digest token fresh clock now build d = Inr (Some c, d') \<and> dc_RunnerID c = rr_id rr)"
proof -
  have inv: "fleet_inv d" using system_steps_inv assms(1,2) by blast
  have ids: "distinct (map rr_id (runners d))" using inv by (simp add: fleet_inv_def fst_roster)
  have retired: "(rr_id rr, True) \<in> set (roster d)" using assms(3,4) by (auto simp: in_roster)
  have nokey: "FindPublicKey t d (rr_id rr) k = None" for k
  proof -
    have "find_row (\<lambda>rk. rk_runner_id rk = rr_id rr \<and> rk_key_id rk = k \<and> rk_revoked_at rk = None \<and> rk_not_before rk \<le> t
             \<and> (case rk_not_after rk of None \<Rightarrow> True | Some t' \<Rightarrow> t' > t)) (runner_keys d) = None"
      using inv retired unfolding find_row_None fleet_inv_def retired_closed_def by auto
    then show ?thesis by (simp add: FindPublicKey_def)
  qed
  have live: "\<not> rr_is_archived x \<and> \<not> rr_is_deleted x \<Longrightarrow> x \<in> set (runners d) \<Longrightarrow> rr_id x \<noteq> rr_id rr" for x
    using distinct_map_eq_key [OF ids, of x rr] assms(3,4) by auto
  have "\<exists>e. heartbeatWithKeyAndCapacity inp d = Inl e" if h: "hi_runnerID inp = rr_id rr"
  proof (cases "heartbeatWithKeyAndCapacity inp d")
    case (Inr d')
    then obtain x where "find_row (\<lambda>rr. rr_id rr = hi_runnerID inp) (runners d) = Some x" "\<not> rr_is_archived x" "\<not> rr_is_deleted x"
      by (rule heartbeat_Inr)
    then show ?thesis using live [of x] find_row_Some h by fastforce
  qed blast
  moreover have False if "ClaimWaiting digest token fresh clock now build d = Inr (Some c, d')" "dc_RunnerID c = rr_id rr" for c d'
    using that(1)
  proof (rule ClaimWaiting_Inr)
    fix r tv tk x rp rs
    assume q: "claim_query now d = Some (r, tv, tk, x, rp, rs)" "build_candidate digest token clock d (r, tv, tk, x, rp, rs) = Inr c"
    have "runner_eligible now tv x rs" "x \<in> set (runners d)" using claim_query_Some [OF q(1)] by simp_all
    moreover have "dc_RunnerID c = rs_runner_id rs" using build_candidate_Inr(2) [OF q(2)] .
    ultimately show False using live [of x] that(2) by (simp add: runner_eligible_def)
  qed
  ultimately show ?thesis using nokey event_needs_key by fastforce
qed

section \<open>Enrollment\<close>

definition spent :: "bytes \<Rightarrow> db \<Rightarrow> bool" where
  "spent token d \<longleftrightarrow> (\<forall>en \<in> set (enrollments d). en_token_hash en = token \<longrightarrow> en_used_at en \<noteq> None)"

lemma bind_key_enrollments: "bind_key now ident keyID key d = Inr d' \<Longrightarrow> enrollments d' = enrollments d"
  by (auto simp: bind_key_def split: option.splits if_splits)

lemma consume_enrollments:
  assumes "consumeEnrollment print unhex clock tokenHash now keyID key d = (r, d')"
  shows "(d' = d \<and> (\<exists>e. r = Inl e)) \<or> (\<exists>t. unhex tokenHash = Some t
    \<and> enrollments d' = sql_update (\<lambda>en. en_token_hash en = t) (\<lambda>en. en\<lparr>en_used_at := Some clock\<rparr>) (enrollments d))"
  using assms
proof (cases rule: consume_cases)
  case (used t en d2)
  have "enrollments d2 = sql_update (\<lambda>en. en_token_hash en = t) (\<lambda>en. en\<lparr>en_used_at := Some clock\<rparr>) (enrollments d)"
  proof (cases "keyID = []")
    case False
    then show ?thesis using used(5) bind_key_enrollments by fastforce
  qed (use used(5) in auto)
  then show ?thesis using used(1,6) by simp
qed blast

lemma spent_mark:
  "\<forall>en \<in> set es. en_token_hash en = token \<longrightarrow> (\<exists>y. en_used_at en = Some y) \<Longrightarrow> en \<in> set (sql_update P (\<lambda>en. en\<lparr>en_used_at := Some c\<rparr>) es)
    \<Longrightarrow> en_token_hash en = token \<longrightarrow> (\<exists>y. en_used_at en = Some y)"
  by (erule in_sql_updateE) auto

lemma mark_spends:
  "en \<in> set (sql_update (\<lambda>en. en_token_hash en = token) (\<lambda>en. en\<lparr>en_used_at := Some c\<rparr>) es)
    \<Longrightarrow> en_token_hash en = token \<longrightarrow> (\<exists>y. en_used_at en = Some y)"
  by (erule in_sql_updateE) auto

lemma consume_spends:
  assumes "consumeEnrollment print unhex clock tokenHash now keyID key d = (r, d')"
  shows "spent token d \<Longrightarrow> spent token d'"
    and "r = Inr rec \<Longrightarrow> unhex tokenHash = Some token \<Longrightarrow> spent token d'"
proof -
  note c = consume_enrollments [OF assms]
  show "spent token d'" if "spent token d"
    using c that by (elim disjE exE conjE) (simp_all add: spent_def spent_mark)
  show "spent token d'" if "r = Inr rec" "unhex tokenHash = Some token"
    using c that by (elim disjE exE conjE) (simp_all add: spent_def mark_spends)
qed

lemma spent_view: "fleet_view d' = fleet_view d \<Longrightarrow> spent token d \<Longrightarrow> spent token d'"
  by (simp add: spent_def fleet_view_def)

lemma spent_step:
  assumes "system_step unhex issued d d'" "spent token d" "fleet_inv d" "token \<notin> issued"
  shows "spent token d'"
  using assms(1)
proof cases
  case run_store
  then show ?thesis using fleet.on_store_step spent_view assms(2) by blast
next
  case (delete ident b)
  then show ?thesis using assms(2) by (auto simp: RunnerStore_Delete_def spent_def split: if_splits)
next
  case (archive now ident b)
  then show ?thesis using assms(2) by (auto simp: Archive_def spent_def split: option.splits if_splits)
next
  case (enroll nr enrollment u)
  then show ?thesis using fleet_CreateEnrollment assms(2-4) by (fastforce simp: spent_def)
next
  case (consume print clock tokenHash now keyID key r)
  then show ?thesis using consume_spends(1) assms(2) by blast
next
  case (create_session now ident bootID u)
  then show ?thesis using assms(2) by (auto simp: CreateSession_def Let_def spent_def split: if_splits)
next
  case (heartbeat inp)
  from heartbeat(1) have "enrollments d' = enrollments d" by (rule heartbeat_Inr)
  then show ?thesis using assms(2) by (simp add: spent_def)
qed (use fleet_pools fleet_administration fleet_seen spent_view assms(2) in metis)+

lemma spent_steps:
  assumes "system_steps unhex issued d d'" "spent token d" "fleet_inv d" "token \<notin> issued"
  shows "spent token d'"
  using assms by (induction rule: system_steps.induct) (auto intro: spent_step dest: system_steps_inv)

text \<open>
  C23. An enrollment token is used once: after a runner has enrolled with it, every later attempt fails and
  changes nothing, unless an enrollment with the same token hash is created anew.
\<close>

theorem enrollment_single_use:
  assumes "consumeEnrollment print unhex clock tokenHash now keyID key d = (Inr rec, d1)" "fleet_inv d"
    and "system_steps unhex issued d1 d2" "unhex tokenHash = Some token" "token \<notin> issued"
  shows "snd (consumeEnrollment print2 unhex clock2 tokenHash now2 keyID2 key2 d2) = d2
     \<and> (\<exists>e. fst (consumeEnrollment print2 unhex clock2 tokenHash now2 keyID2 key2 d2) = Inl e)"
proof -
  have "spent token d1" using consume_spends(2) [OF assms(1) refl assms(4)] .
  moreover have "fleet_inv d1" using fleet_consume assms(1,2) by blast
  ultimately have "spent token d2" using spent_steps assms(3,5) by blast
  then show ?thesis
    using assms(4) find_row_Some
    by (fastforce simp: consumeEnrollment_def Let_def spent_def split: option.splits)
qed

text \<open>
  A successful enrollment was pending and not expired, and from then on the control plane verifies the
  messages of exactly that runner with exactly the key it sent.
\<close>

theorem enrolled_key_found:
  assumes "ConsumeEnrollmentWithKey print unhex clock tokenHash now keyID key d = (Inr rec, d')" "fleet_inv d"
  shows "FindPublicKey clock d' (rn_ID rec) keyID = Some key \<and> (\<forall>other. other \<noteq> rn_ID rec \<longrightarrow> FindPublicKey clock d' other keyID = None)
    \<and> (\<exists>en \<in> set (enrollments d). en_runner_id en = rn_ID rec \<and> unhex tokenHash = Some (en_token_hash en) \<and> en_used_at en = None \<and> now < en_expires_at en)"
proof -
  have ok: "keyID \<noteq> []" "length key = 32" and run: "consumeEnrollment print unhex clock tokenHash now keyID key d = (Inr rec, d')"
    using assms(1) by (auto simp: ConsumeEnrollmentWithKey_def split: if_splits)
  show ?thesis
    using run
  proof (cases rule: consume_cases)
    case (used token en d2)
    have en: "en \<in> set (enrollments d)" "en_token_hash en = token" using find_row_Some [OF used(2)] by auto
    have ident: "rn_ID rec = en_runner_id en"
    proof -
      from run used(1-5) obtain rr where "find_row (\<lambda>rr. rr_id rr = en_runner_id en) (runners d') = Some rr" "rec = scanRunner print d' rr"
        by (auto simp: consumeEnrollment_def Let_def RunnerStore_Find_def split: option.splits sum.splits if_splits)
      then show ?thesis using find_row_Some by (fastforce simp: scanRunner_def Let_def)
    qed
    define d1 where "d1 = d\<lparr>enrollments := sql_update (\<lambda>en. en_token_hash en = token) (\<lambda>en. en\<lparr>en_used_at := Some clock\<rparr>) (enrollments d)\<rparr>"
    have keys: "runner_keys d1 = runner_keys d" by (simp add: d1_def)
    have b: "bind_key clock (en_runner_id en) keyID key d1 = Inr d2" using used(5) ok(1) by (simp add: d1_def)
    have "\<exists>rk \<in> set (runner_keys d2). rk_key_id rk = keyID \<and> rk_runner_id rk = en_runner_id en \<and> rk_public_key rk = key \<and> rk_revoked_at rk = None
            \<and> rk_not_before rk = clock \<and> rk_not_after rk = None"
      and distinct: "distinct (map rk_key_id (runner_keys d2))"
    proof -
      have dk: "distinct (map rk_key_id (runner_keys d))" using assms(2) by (simp add: fleet_inv_def)
      show "distinct (map rk_key_id (runner_keys d2))"
        using b dk keys by (auto simp: bind_key_def find_row_None map_sql_update split: option.splits if_splits)
      show "\<exists>rk \<in> set (runner_keys d2). rk_key_id rk = keyID \<and> rk_runner_id rk = en_runner_id en \<and> rk_public_key rk = key \<and> rk_revoked_at rk = None
            \<and> rk_not_before rk = clock \<and> rk_not_after rk = None"
      proof (cases "find_row (\<lambda>rk. rk_key_id rk = keyID) (runner_keys d)")
        case None
        then show ?thesis using b keys by (auto simp: bind_key_def split: if_splits)
      next
        case (Some rk)
        then have d2: "rk_runner_id rk = en_runner_id en" "runner_keys d2 = sql_update (\<lambda>rk. rk_key_id rk = keyID)
             (\<lambda>rk. rk\<lparr>rk_public_key := key, rk_not_before := clock, rk_not_after := None, rk_revoked_at := None\<rparr>) (runner_keys d)"
          using b keys by (auto simp: bind_key_def split: if_splits)
        show ?thesis
          unfolding d2(2) set_sql_update using find_row_Some [OF Some] d2(1)
          by (intro bexI [of _ "rk\<lparr>rk_public_key := key, rk_not_before := clock, rk_not_after := None, rk_revoked_at := None\<rparr>"] image_eqI [of _ _ rk]) auto
      qed
    qed
    then obtain rk where rk: "rk \<in> set (runner_keys d2)" "rk_key_id rk = keyID" "rk_runner_id rk = en_runner_id en" "rk_public_key rk = key"
      "rk_revoked_at rk = None" "rk_not_before rk = clock" "rk_not_after rk = None" by blast
    have only: "x = rk" if "x \<in> set (runner_keys d2)" "rk_key_id x = keyID" for x
      using distinct_map_eq_key [OF distinct that(1) rk(1)] that(2) rk(2) by simp
    have found: "find_row (\<lambda>x. rk_runner_id x = other \<and> rk_key_id x = keyID \<and> rk_revoked_at x = None \<and> rk_not_before x \<le> clock
           \<and> (case rk_not_after x of None \<Rightarrow> True | Some t \<Rightarrow> t > clock)) (runner_keys d2) = (if other = en_runner_id en then Some rk else None)" for other
    proof (cases "find_row (\<lambda>x. rk_runner_id x = other \<and> rk_key_id x = keyID \<and> rk_revoked_at x = None \<and> rk_not_before x \<le> clock
           \<and> (case rk_not_after x of None \<Rightarrow> True | Some t \<Rightarrow> t > clock)) (runner_keys d2)")
      case None
      then have "other \<noteq> en_runner_id en" using rk unfolding find_row_None by auto
      then show ?thesis using None by simp
    next
      case (Some x)
      then show ?thesis using find_row_Some [OF Some] only [of x] rk(3) by auto
    qed
    have "runner_keys d' = runner_keys d2" by (simp add: used(6))
    then show ?thesis using found ok(2) rk(4) ident en used(1,3,4) by (auto simp: FindPublicKey_def)
  qed simp
qed

section \<open>Heartbeats\<close>

text \<open>
  An accepted heartbeat comes from a runner in service with its enrolled key, and leaves the boot that sent
  it as the only open session of the runner; the sessions of other runners stay as they were.
\<close>

theorem heartbeat_takes_over:
  assumes "heartbeatWithKeyAndCapacity inp d = Inr d'" "fleet_inv d"
  shows "(\<exists>rk \<in> set (runner_keys d). rk_key_id rk = hi_keyID inp \<and> rk_runner_id rk = hi_runnerID inp \<and> rk_public_key rk = hi_publicKey inp \<and> rk_revoked_at rk = None)
    \<and> (\<exists>!rs. rs \<in> set (sessions d') \<and> rs_runner_id rs = hi_runnerID inp \<and> rs_disconnected_at rs = None)
    \<and> (\<exists>rs \<in> set (sessions d'). rs_runner_id rs = hi_runnerID inp \<and> rs_disconnected_at rs = None \<and> rs_boot_id rs = hi_bootID inp
         \<and> rs_last_heartbeat_at rs = hi_now inp)
    \<and> (\<forall>rs \<in> set (sessions d'). rs_runner_id rs \<noteq> hi_runnerID inp \<longrightarrow> rs \<in> set (sessions d))"
  using assms(1)
proof (rule heartbeat_Inr)
  fix d1 rk
  assume up: "upsert_session inp (close_others inp d) = Inr d1" and same: "sessions d' = sessions d1"
    and rk: "find_row (\<lambda>rk. rk_key_id rk = hi_keyID inp \<and> rk_revoked_at rk = None) (runner_keys d) = Some rk"
      "rk_runner_id rk = hi_runnerID inp" "rk_public_key rk = hi_publicKey inp"
  have one: "one_session (sessions d)" using assms(2) by (simp add: fleet_inv_def)
  note h = heartbeat_sessions [OF up one]
  obtain rs where rs: "rs \<in> set (sessions d')" "rs_runner_id rs = hi_runnerID inp" "rs_boot_id rs = hi_bootID inp" "rs_disconnected_at rs = None"
    "rs_last_heartbeat_at rs = hi_now inp" using h(2) same by auto
  have "x = rs" if "x \<in> set (sessions d')" "rs_runner_id x = hi_runnerID inp" "rs_disconnected_at x = None" for x
    using h(1) that rs unfolding one_session_def same by auto
  then have "\<exists>!rs. rs \<in> set (sessions d') \<and> rs_runner_id rs = hi_runnerID inp \<and> rs_disconnected_at rs = None" using rs by blast
  moreover have "\<forall>rs \<in> set (sessions d'). rs_runner_id rs \<noteq> hi_runnerID inp \<longrightarrow> rs \<in> set (sessions d)" using h(4) same by auto
  ultimately show ?thesis using find_row_Some [OF rk(1)] rk(2,3) rs by blast
qed

section \<open>Runners and runs\<close>

text \<open>What the administration of runners leaves of the tables that the invariant of the run store reads.\<close>

definition spares_runs :: "db \<Rightarrow> db \<Rightarrow> bool" where
  "spares_runs d d' \<longleftrightarrow>
     runs d' = runs d \<and> attempts d' = attempts d \<and> leases d' = leases d
     \<and> (\<forall>x \<in> set (runners d'). (\<exists>rr \<in> set (runners d). rr_id rr = rr_id x \<and> rr_active_count rr = rr_active_count x)
           \<or> rr_active_count x = 0 \<and> rr_id x \<notin> rr_id ` set (runners d))"

lemma spares_same: "runs d' = runs d \<Longrightarrow> attempts d' = attempts d \<Longrightarrow> leases d' = leases d \<Longrightarrow> set (runners d') \<subseteq> set (runners d) \<Longrightarrow> spares_runs d d'"
  by (auto simp: spares_runs_def)

lemma spares_update:
  assumes "\<And>rr. P rr \<Longrightarrow> rr_id (f rr) = rr_id rr \<and> rr_active_count (f rr) = rr_active_count rr"
    and "runs d' = runs d" "attempts d' = attempts d" "leases d' = leases d" "runners d' = sql_update P f (runners d)"
  shows "spares_runs d d'"
  unfolding spares_runs_def assms(2-5)
proof (intro conjI refl ballI disjI1)
  fix x
  assume "x \<in> set (sql_update P f (runners d))"
  then show "\<exists>rr \<in> set (runners d). rr_id rr = rr_id x \<and> rr_active_count rr = rr_active_count x"
    using assms(1) by (cases rule: in_sql_updateE) metis+
qed

lemma spares_update_runner:
  assumes "update_runner print ident f d = Inr (r, d')" "\<And>rr. rr_id (f rr) = rr_id rr \<and> rr_active_count (f rr) = rr_active_count rr"
  shows "spares_runs d d'"
proof -
  have "d' = d \<or> d' = d\<lparr>runners := sql_update (in_service ident) f (runners d)\<rparr>"
    using assms(1) unfolding update_runner_def Let_def by (simp split: if_splits)
  then show ?thesis using spares_same [of d d] spares_update [of "in_service ident" f d' d] assms(2) by auto
qed

lemma spares_administration:
  "SetDesiredState print ident state d = Inr (r, d') \<Longrightarrow> spares_runs d d'"
  "UpdateCapacity print ident n d = Inr (r, d') \<Longrightarrow> spares_runs d d'"
  "UpdateNATSEndpoint print ident endpoint d = Inr (r, d') \<Longrightarrow> spares_runs d d'"
  "UpdateControlPlaneURL print ident endpoint d = Inr (r, d') \<Longrightarrow> spares_runs d d'"
  by (simp_all add: SetDesiredState_def UpdateCapacity_def UpdateNATSEndpoint_def UpdateControlPlaneURL_def split: if_splits)
    (erule spares_update_runner; simp)+

lemma spares_pools:
  "EnsurePool ident name d = Inr (u, d') \<Longrightarrow> spares_runs d d'" "CreatePool item d = Inr (u, d') \<Longrightarrow> spares_runs d d'"
  "UpdatePool item d = Inr (p, d') \<Longrightarrow> spares_runs d d'" "DeletePool ident d = Inr (u, d') \<Longrightarrow> spares_runs d d'"
  "CreateSession now ident bootID d = Inr (u, d') \<Longrightarrow> spares_runs d d'"
  by (auto simp: EnsurePool_def CreatePool_def UpdatePool_def DeletePool_def CreateSession_def Let_def intro!: spares_same split: if_splits)

lemma spares_seen: "spares_runs d (RunnerStore_Heartbeat ident now d)" "spares_runs d (MarkStale cutoff d)"
proof -
  have "spares_runs d (d\<lparr>runners := sql_update P f (runners d)\<rparr>)"
    if "\<And>rr. rr_id (f rr) = rr_id rr \<and> rr_active_count (f rr) = rr_active_count rr" for P f
    using that by (intro spares_update [where P = P and f = f]) simp_all
  then show "spares_runs d (RunnerStore_Heartbeat ident now d)" "spares_runs d (MarkStale cutoff d)"
    unfolding RunnerStore_Heartbeat_def MarkStale_def by simp_all
qed

lemma spares_Delete: "RunnerStore_Delete ident d = Inr (b, d') \<Longrightarrow> spares_runs d d'"
  by (auto simp: RunnerStore_Delete_def intro!: spares_same split: if_splits)

lemma spares_consume:
  assumes "consumeEnrollment print unhex clock tokenHash now keyID key d = (r, d')"
  shows "spares_runs d d'"
  using assms
proof (cases rule: consume_cases)
  case (used token en d2)
  have "runs d2 = runs d \<and> attempts d2 = attempts d \<and> leases d2 = leases d \<and> runners d2 = runners d"
    using used(5) by (auto simp: bind_key_def split: if_splits option.splits)
  then show ?thesis using used(6) by (intro spares_update) auto
qed (simp add: spares_same)

lemma spares_heartbeat:
  assumes "heartbeatWithKeyAndCapacity inp d = Inr d'"
  shows "spares_runs d d'"
proof -
  from assms obtain d1 where up: "upsert_session inp (close_others inp d) = Inr d1"
    and run: "(case hi_sample inp of None \<Rightarrow> Inr | Some sample \<Rightarrow> insert_metrics inp sample)
        (d1\<lparr>runners := sql_update (\<lambda>rr. in_service (hi_runnerID inp) rr \<and> rr_observed_state rr \<noteq> ''REVOKED'')
               (\<lambda>rr. rr\<lparr>rr_observed_state := ''ONLINE'', rr_last_seen_at := Some (hi_now inp)\<rparr>) (runners d1)\<rparr>) = Inr d'"
    unfolding heartbeatWithKeyAndCapacity_def Let_def
    by (auto simp: res_bind_Inr split: option.splits if_splits)
  have "runs d1 = runs d \<and> attempts d1 = attempts d \<and> leases d1 = leases d \<and> runners d1 = runners d"
    using up by (auto simp: upsert_session_def close_others_def Let_def split: if_splits)
  then show ?thesis
    using run by (intro spares_update [where P = "\<lambda>rr. in_service (hi_runnerID inp) rr \<and> rr_observed_state rr \<noteq> ''REVOKED''"
        and f = "\<lambda>rr. rr\<lparr>rr_observed_state := ''ONLINE'', rr_last_seen_at := Some (hi_now inp)\<rparr>"])
      (auto simp: insert_metrics_def split: option.splits if_splits)
qed

lemma spares_enroll:
  assumes "CreateEnrollment unhex r enrollment d = Inr (u, d')"
  shows "spares_runs d d'"
proof -
  from assms obtain artifact pool d1 where up: "upsert_runner r artifact pool d = Inr d1"
    and d': "runs d' = runs d1" "attempts d' = attempts d1" "leases d' = leases d1" "runners d' = runners d1"
    unfolding CreateEnrollment_def Let_def by (auto simp: res_bind_Inr split: option.splits if_splits)
  show ?thesis
  proof (cases "list_ex (\<lambda>rr. rr_id rr = nr_ID r) (runners d)")
    case True
    define f where "f = (\<lambda>rr :: runner_row. rr\<lparr>rr_capacity := (if nr_Capacity r > 0 then nat (nr_Capacity r) else rr_capacity rr),
                        rr_nats_endpoint := (if TrimSpace (nr_NATSEndpoint r) \<noteq> [] then TrimSpace (nr_NATSEndpoint r) else rr_nats_endpoint rr),
                        rr_control_plane_url := (if TrimSpace (nr_ControlPlaneURL r) \<noteq> [] then TrimSpace (nr_ControlPlaneURL r)
                          else rr_control_plane_url rr)\<rparr>)"
    have "d1 = d\<lparr>runners := sql_update (\<lambda>rr. rr_id rr = nr_ID r) f (runners d)\<rparr>"
      using up True unfolding upsert_runner_def Let_def f_def by simp
    then show ?thesis using d' by (intro spares_update [where P = "\<lambda>rr. rr_id rr = nr_ID r" and f = f]) (auto simp: f_def)
  next
    case False
    then obtain x where "d1 = d\<lparr>runners := runners d @ [x]\<rparr>" "rr_id x = nr_ID r" "rr_active_count x = 0"
      using up unfolding upsert_runner_def Let_def by (auto split: if_splits)
    then show ?thesis using d' False by (auto simp: spares_runs_def list_ex_iff)
  qed
qed

lemma spares_inv:
  assumes "spares_runs d d'" "store_inv d" "distinct (map rr_id (runners d'))" "within_capacity d'"
    and known: "\<And>a. a \<in> set (attempts d) \<Longrightarrow> att_runner_id a \<in> rr_id ` set (runners d)"
  shows "store_inv d'"
proof -
  have same: "runs d' = runs d" "attempts d' = attempts d" "leases d' = leases d" using assms(1) by (simp_all add: spares_runs_def)
  have "rr_active_count x = live_on (rr_id x) (attempts d)" if x: "x \<in> set (runners d')" for x
  proof (cases "rr_id x \<in> rr_id ` set (runners d)")
    case True
    then obtain rr where "rr \<in> set (runners d)" "rr_id rr = rr_id x" "rr_active_count rr = rr_active_count x"
      using assms(1) x unfolding spares_runs_def by blast
    then show ?thesis using assms(2) by (auto simp: store_inv_def counts_exact_def)
  next
    case False
    then have "live_on (rr_id x) (attempts d) = 0" using known unfolding live_on_def sql_count_0 by (metis imageI)
    moreover have "rr_active_count x = 0"
    proof -
      have "\<not> (\<exists>rr \<in> set (runners d). rr_id rr = rr_id x)" using False by (auto simp: image_iff)
      then show ?thesis using assms(1) x unfolding spares_runs_def by blast
    qed
    ultimately show ?thesis by simp
  qed
  then have "counts_exact d'" by (simp add: counts_exact_def same)
  then show ?thesis using assms(2-4)
    unfolding store_inv_def keys_unique_def live_runs_def one_live_attempt_def leases_live_def leases_exclusive_def same by simp
qed

lemma Archive_inv:
  assumes "Archive now ident d = Inr (b, d')" "store_inv d"
  shows "store_inv d'"
proof (cases "d' = d")
  case False
  define d1 where "d1 = d\<lparr>runners := runners d'\<rparr>"
  have r: "runners d' = sql_update (\<lambda>rr. rr_id rr = ident)
        (\<lambda>rr. rr\<lparr>rr_is_archived := True, rr_is_deleted := True, rr_desired_state := ''DISABLED'', rr_observed_state := ''OFFLINE''\<rparr>) (runners d)"
    and runs: "runs d' = sql_update (archived_with ident d) (archive_run now) (runs d)"
    and rest: "attempts d' = attempts d" "leases d' = leases d"
    using assms(1) False unfolding Archive_def by (auto split: option.splits if_splits)
  have "map rr_id (runners d1) = map rr_id (runners d)" unfolding d1_def r by (simp add: map_sql_update)
  then have "store_inv d1"
    using assms(2) unfolding inv_defs d1_def
    by (auto simp: r elim!: in_sql_updateE)
  moreover have "in_flight (archive_run now x)" if "archived_with ident d x" "in_flight x" for x
    using that by (auto simp: archived_with_def archive_run_def in_flight_def set_run_state_def Let_def)
  ultimately have "store_inv (update_run (archived_with ident d) (archive_run now) d1)"
    by (intro inv_update_run) (auto simp: archive_run_def set_run_state_def Let_def)
  then show ?thesis by (rule store_inv_cong) (simp_all add: update_run_def d1_def runs rest)
qed (use assms(2) in simp)

text \<open>
  Whatever the administration of runners does between the transactions of the run store, the
  invariant of the run store is kept, as long as no capacity is set below what is running.
\<close>

theorem administration_keeps_invariant:
  assumes "system_step unhex issued d d'" "store_inv d" "fleet_inv d" "within_capacity d'"
    and known: "\<And>a. a \<in> set (attempts d) \<Longrightarrow> att_runner_id a \<in> rr_id ` set (runners d)"
  shows "store_inv d'"
proof -
  have "fleet_inv d'" using system_step_inv assms(1,3) by blast
  then have ids: "distinct (map rr_id (runners d'))" by (simp add: fleet_inv_def fst_roster)
  have admin: "spares_runs d d' \<Longrightarrow> store_inv d'" using spares_inv [OF _ assms(2) ids assms(4) known] by blast
  from assms(1) show ?thesis
  proof cases
    case run_store
    then show ?thesis using inv_store_step assms(2) by blast
  next
    case (archive now ident b)
    then show ?thesis using Archive_inv assms(2) by blast
  qed (use admin spares_pools spares_administration spares_Delete spares_enroll spares_consume spares_seen spares_heartbeat in metis)+
qed

text \<open>
  Archiving a runner cancels every running run that was ever attempted on it, also a run whose
  attempt in flight is on another runner; the attempt there stays as it was, and a run that is only
  dispatched to the archived runner is left alone.
\<close>

theorem archive_cancels_run_elsewhere:
  assumes "Archive now ident d = Inr (True, d')" "find_row (\<lambda>rr. rr_id rr = ident) (runners d) = Some rr" "\<not> rr_is_archived rr" "\<not> rr_is_deleted rr"
    and "r \<in> set (runs d)" "run_state r = RUNNING"
    and "old \<in> set (attempts d)" "att_run_id old = run_id r" "att_runner_id old = ident"
    and "a \<in> set (attempts d)" "att_run_id a = run_id r" "att_runner_id a \<noteq> ident"
  shows "(\<exists>r' \<in> set (runs d'). run_id r' = run_id r \<and> run_state r' = CANCELLING \<and> run_cancellation_reason r' = Some ''runner archived'')
     \<and> a \<in> set (attempts d')
     \<and> (\<forall>s \<in> set (runs d). run_state s = DISPATCHED \<longrightarrow> s \<in> set (runs d'))"
proof -
  have d': "runs d' = sql_update (archived_with ident d) (archive_run now) (runs d)" "attempts d' = attempts d"
    using assms(1-4) by (auto simp: Archive_def)
  have "archived_with ident d r" using assms(6-9) by (auto simp: archived_with_def list_ex_iff)
  then have "archive_run now r \<in> set (runs d')" using assms(5) by (auto simp: d'(1) set_sql_update intro!: image_eqI [of _ _ r])
  moreover have "run_id (archive_run now r) = run_id r \<and> run_state (archive_run now r) = CANCELLING
      \<and> run_cancellation_reason (archive_run now r) = Some ''runner archived''"
    using assms(6) by (simp add: archive_run_def set_run_state_def Let_def)
  moreover have "s \<in> set (runs d')" if "s \<in> set (runs d)" "run_state s = DISPATCHED" for s
    using that by (auto simp: d'(1) set_sql_update archived_with_def intro!: image_eqI [of _ _ s])
  ultimately show ?thesis using assms(10) d'(2) by auto
qed

section \<open>The theorems at work\<close>

text \<open>The runner of the sample database is enrolled, sends a heartbeat from a new boot, and is archived.\<close>

definition demo_hex :: "string \<Rightarrow> bytes option" where
  "demo_hex s = (if s = ''aa'' then Some [1] else None)"
definition demo_print :: "json \<Rightarrow> string" where
  "demo_print j = []"
definition demo_issue :: "unit runner_tx" where
  "demo_issue = CreateEnrollment demo_hex
     \<lparr>nr_ID = ''runner'', nr_Name = ''Runner'', nr_PoolID = ''pool'', nr_Pool = [], nr_Capacity = 1, nr_NATSEndpoint = [],
      nr_ControlPlaneURL = []\<rparr>
     \<lparr>ei_ID = ''en'', ei_TokenHash = ''aa'', ei_Requester = ''admin'', ei_Target = ''linux'', ei_ExpiresAt = 500,
      ei_Artifact = Some (JObject [])\<rparr>"
definition demo_issued :: db where
  "demo_issued = (case demo_issue sample_db of Inl _ \<Rightarrow> sample_db | Inr (_, d) \<Rightarrow> d)"
definition demo_consume :: "(runner_error + RunnerRecord) \<times> db" where
  "demo_consume = consumeEnrollment demo_print demo_hex 150 ''aa'' 140 ''wk'' (replicate 32 7) demo_issued"
definition demo_enrolled :: db where
  "demo_enrolled = snd demo_consume"
definition demo_beat :: heartbeatInput where
  "demo_beat = \<lparr>hi_runnerID = ''runner'', hi_bootID = ''boot2'', hi_now = 200, hi_capacity = 1, hi_sample = None, hi_keyID = ''wk'',
     hi_publicKey = replicate 32 7\<rparr>"
definition demo_alive :: db where
  "demo_alive = (case heartbeatWithKeyAndCapacity demo_beat demo_enrolled of Inl _ \<Rightarrow> sample_db | Inr d \<Rightarrow> d)"
definition demo_archive :: "db \<Rightarrow> db" where
  "demo_archive d = (case Archive 300 ''runner'' d of Inl _ \<Rightarrow> d | Inr (_, d') \<Rightarrow> d')"

lemma demo_issued_inv: "fleet_inv demo_issued"
  by code_simp

lemma demo_consume_Inr: "demo_consume = (Inr (projr (fst demo_consume)), demo_enrolled)"
proof -
  have "case fst demo_consume of Inl _ \<Rightarrow> False | Inr _ \<Rightarrow> True" by code_simp
  then obtain x where x: "fst demo_consume = Inr x" by (auto split: sum.splits)
  show ?thesis unfolding demo_enrolled_def by (simp add: prod_eq_iff x)
qed

lemma demo_enrolled_inv: "fleet_inv demo_enrolled"
  by code_simp

lemma demo_alive_Inr: "heartbeatWithKeyAndCapacity demo_beat demo_enrolled = Inr demo_alive"
proof -
  have "case heartbeatWithKeyAndCapacity demo_beat demo_enrolled of Inl _ \<Rightarrow> False | Inr _ \<Rightarrow> True" by code_simp
  then show ?thesis by (auto simp: demo_alive_def split: sum.splits)
qed

lemma demo_archive_Inr:
  "Archive 300 ''runner'' demo_alive = Inr (True, demo_archive demo_alive)"
  "Archive 300 ''runner'' sample_dispatched = Inr (True, demo_archive sample_dispatched)"
proof -
  have "case Archive 300 ''runner'' demo_alive of Inl _ \<Rightarrow> False | Inr (b, _) \<Rightarrow> b" by code_simp
  then show "Archive 300 ''runner'' demo_alive = Inr (True, demo_archive demo_alive)"
    by (auto simp: demo_archive_def split: sum.splits)
  have "case Archive 300 ''runner'' sample_dispatched of Inl _ \<Rightarrow> False | Inr (b, _) \<Rightarrow> b" by code_simp
  then show "Archive 300 ''runner'' sample_dispatched = Inr (True, demo_archive sample_dispatched)"
    by (auto simp: demo_archive_def split: sum.splits)
qed

lemma demo_steps: "system_steps demo_hex {[1]} demo_issued (demo_archive demo_alive)" "system_steps demo_hex {} demo_enrolled demo_alive"
  using demo_consume_Inr demo_alive_Inr demo_archive_Inr(1) unfolding demo_consume_def
  by (blast intro: system_steps.intros system_step.consume system_step.heartbeat system_step.archive)+

theorem fleet_well_formed_witness:
  "one_session (sessions (demo_archive demo_alive)) \<and> distinct (map rk_key_id (runner_keys (demo_archive demo_alive)))"
  using fleet_well_formed [OF demo_steps(1) demo_issued_inv] by blast

theorem archived_runner_cut_off_witness:
  "FindPublicKey 400 (demo_archive demo_alive) ''runner'' ''wk'' = None
   \<and> (\<exists>e. heartbeatWithKeyAndCapacity demo_beat (demo_archive demo_alive) = Inl e)"
proof -
  have "list_ex (\<lambda>rr. rr_id rr = ''runner'' \<and> rr_is_archived rr) (runners (demo_archive demo_alive))" by code_simp
  then obtain rr where rr: "rr \<in> set (runners (demo_archive demo_alive))" "rr_id rr = ''runner''" "rr_is_archived rr"
    by (auto simp: list_ex_iff)
  from archived_runner_cut_off [OF demo_steps(1) demo_issued_inv rr(1)] rr(2,3) show ?thesis
    by (simp add: demo_beat_def)
qed

theorem enrollment_single_use_witness:
  "snd (consumeEnrollment demo_print demo_hex 300 ''aa'' 300 ''wk2'' (replicate 32 8) demo_alive) = demo_alive
   \<and> (\<exists>e. fst (consumeEnrollment demo_print demo_hex 300 ''aa'' 300 ''wk2'' (replicate 32 8) demo_alive) = Inl e)"
  using enrollment_single_use [OF demo_consume_Inr [unfolded demo_consume_def] demo_issued_inv demo_steps(2), where token = "[1]"]
  by (simp add: demo_hex_def)

theorem enrolled_key_found_witness:
  "FindPublicKey 150 demo_enrolled ''runner'' ''wk'' = Some (replicate 32 7) \<and> FindPublicKey 150 demo_enrolled ''other'' ''wk'' = None"
proof -
  have r: "rn_ID (projr (fst demo_consume)) = ''runner''" by code_simp
  have "ConsumeEnrollmentWithKey demo_print demo_hex 150 ''aa'' 140 ''wk'' (replicate 32 7) demo_issued
      = (Inr (projr (fst demo_consume)), demo_enrolled)"
    using demo_consume_Inr by (simp add: ConsumeEnrollmentWithKey_def demo_consume_def)
  from enrolled_key_found [OF this demo_issued_inv] r show ?thesis by simp
qed

theorem heartbeat_takes_over_witness:
  "\<exists>!rs. rs \<in> set (sessions demo_alive) \<and> rs_runner_id rs = ''runner'' \<and> rs_disconnected_at rs = None"
proof -
  have "hi_runnerID demo_beat = ''runner''" by (simp add: demo_beat_def)
  with heartbeat_takes_over [OF demo_alive_Inr demo_enrolled_inv] show ?thesis by simp
qed

theorem administration_keeps_invariant_witness:
  "store_inv (demo_archive sample_dispatched)"
proof -
  have inv: "store_inv sample_dispatched" using inv_store_steps [OF sample_steps sample_inv] .
  have "fleet_inv sample_dispatched" "within_capacity (demo_archive sample_dispatched)"
    "list_all (\<lambda>a. att_runner_id a \<in> set (map rr_id (runners sample_dispatched))) (attempts sample_dispatched)"
    by code_simp+
  then show ?thesis
    using administration_keeps_invariant [OF system_step.archive [OF demo_archive_Inr(2)] inv] by (auto simp: list_all_iff)
qed

text \<open>A run that was attempted on the runner and now runs on another one.\<close>

definition demo_elsewhere :: db where
  "demo_elsewhere = sample_db\<lparr>runs := map (set_run_state RUNNING 250) (runs sample_db),
     attempts := concat (map (\<lambda>a. [a\<lparr>att_id := ''a1'', att_state := A_FAILED\<rparr>,
       a\<lparr>att_id := ''a2'', att_number := 2, att_runner_id := ''other'', att_state := A_RUNNING\<rparr>]) (attempts sample_dispatched))\<rparr>"

theorem archive_cancels_run_elsewhere_witness:
  "\<exists>r' \<in> set (runs (demo_archive demo_elsewhere)). run_state r' = CANCELLING \<and> run_cancellation_reason r' = Some ''runner archived''"
proof -
  have "case Archive 300 ''runner'' demo_elsewhere of Inl _ \<Rightarrow> False | Inr (b, _) \<Rightarrow> b" by code_simp
  then have ok: "Archive 300 ''runner'' demo_elsewhere = Inr (True, demo_archive demo_elsewhere)"
    by (auto simp: demo_archive_def split: sum.splits)
  have "case find_row (\<lambda>rr. rr_id rr = ''runner'') (runners demo_elsewhere) of None \<Rightarrow> False | Some rr \<Rightarrow> \<not> rr_is_archived rr \<and> \<not> rr_is_deleted rr"
    by code_simp
  then obtain rr where rr: "find_row (\<lambda>rr. rr_id rr = ''runner'') (runners demo_elsewhere) = Some rr" "\<not> rr_is_archived rr" "\<not> rr_is_deleted rr"
    by (auto split: option.splits)
  have "list_ex (\<lambda>r. run_state r = RUNNING \<and> list_ex (\<lambda>a. att_run_id a = run_id r \<and> att_runner_id a = ''runner'') (attempts demo_elsewhere)
      \<and> list_ex (\<lambda>a. att_run_id a = run_id r \<and> att_runner_id a \<noteq> ''runner'') (attempts demo_elsewhere)) (runs demo_elsewhere)" by code_simp
  then obtain r old a where "r \<in> set (runs demo_elsewhere)" "run_state r = RUNNING" "old \<in> set (attempts demo_elsewhere)"
    "att_run_id old = run_id r" "att_runner_id old = ''runner''" "a \<in> set (attempts demo_elsewhere)" "att_run_id a = run_id r" "att_runner_id a \<noteq> ''runner''"
    by (auto simp: list_ex_iff)
  from archive_cancels_run_elsewhere [OF ok rr this] show ?thesis by blast
qed

end
