(* ===== verification/Texts.thy ===== *)
theory Texts
  imports Codec
begin

text \<open>
  Texts as the administration of accounts and dead letters reads them: UTF-8 and runes, the unpadded
  alphabets of base64, \<^verbatim>\<open>LIKE\<close> of SQL, identity keys and e-mail addresses
  (\<^verbatim>\<open>platform/email.go\<close>, \<^verbatim>\<open>NormalizeIdentityKey\<close> of \<^verbatim>\<open>platform/auth_policy.go\<close>).
\<close>

section \<open>UTF-8\<close>

definition byte_of :: "char \<Rightarrow> nat" where
  "byte_of c = of_char c"

definition continuation :: "char \<Rightarrow> bool" where
  "continuation c \<longleftrightarrow> 128 \<le> byte_of c \<and> byte_of c \<le> 191"

text \<open>\<^verbatim>\<open>utf8.ValidString\<close>: no overlong forms, no surrogates, nothing above U+10FFFF.\<close>

fun valid_utf8 :: "string \<Rightarrow> bool" where
  "valid_utf8 [] \<longleftrightarrow> True"
| "valid_utf8 (a # s) \<longleftrightarrow>
     (if byte_of a < 128 then valid_utf8 s
      else (case s of
              b # s1 \<Rightarrow>
                (if 194 \<le> byte_of a \<and> byte_of a \<le> 223 then continuation b \<and> valid_utf8 s1
                 else (case s1 of
                         c # s2 \<Rightarrow>
                           (if 224 \<le> byte_of a \<and> byte_of a \<le> 239
                            then continuation b \<and> continuation c \<and> (byte_of a = 224 \<longrightarrow> 160 \<le> byte_of b)
                                 \<and> (byte_of a = 237 \<longrightarrow> byte_of b \<le> 159) \<and> valid_utf8 s2
                            else (case s2 of
                                    d # s3 \<Rightarrow>
                                      240 \<le> byte_of a \<and> byte_of a \<le> 244 \<and> continuation b \<and> continuation c \<and> continuation d
                                      \<and> (byte_of a = 240 \<longrightarrow> 144 \<le> byte_of b) \<and> (byte_of a = 244 \<longrightarrow> byte_of b \<le> 143) \<and> valid_utf8 s3
                                  | [] \<Rightarrow> False))
                       | [] \<Rightarrow> False))
            | [] \<Rightarrow> False))"

function trim_invalid :: "string \<Rightarrow> string" where
  "trim_invalid s = (if valid_utf8 s then s else trim_invalid (butlast s))"
  by auto
termination
proof (relation "measure length", simp, goal_cases)
  case (1 s)
  then show ?case by (cases s) auto
qed

declare trim_invalid.simps [simp del]

text \<open>
  The code points that \<^verbatim>\<open>range\<close> over a string visits: a byte that starts no valid sequence is the
  replacement character U+FFFD of width one. The first argument bounds the number of runes.
\<close>

definition rune_width :: "string \<Rightarrow> nat" where
  "rune_width s =
     (if valid_utf8 (take 1 s) then 1 else if valid_utf8 (take 2 s) \<and> 2 \<le> length s then 2
      else if valid_utf8 (take 3 s) \<and> 3 \<le> length s then 3 else if valid_utf8 (take 4 s) \<and> 4 \<le> length s then 4 else 0)"

definition rune_of :: "string \<Rightarrow> nat" where
  "rune_of s =
     (case map byte_of (take (rune_width s) s) of
        [a] \<Rightarrow> a
      | [a, b] \<Rightarrow> (a - 192) * 64 + (b - 128)
      | [a, b, c] \<Rightarrow> (a - 224) * 4096 + (b - 128) * 64 + (c - 128)
      | [a, b, c, d] \<Rightarrow> (a - 240) * 262144 + (b - 128) * 4096 + (c - 128) * 64 + (d - 128)
      | _ \<Rightarrow> 65533)"

function runes :: "string \<Rightarrow> nat list" where
  "runes [] = []"
| "runes (c # s) = rune_of (c # s) # runes (drop (max 1 (rune_width (c # s))) (c # s))"
  by pat_completeness auto
termination by (relation "measure length") auto

section \<open>Case, trimming and lists of texts\<close>

definition upper_char :: "char \<Rightarrow> char" where
  "upper_char c = (if is_lower c then char_of (of_char c - 32 :: nat) else c)"

text \<open>\<^verbatim>\<open>btrim(text)\<close> of PostgreSQL trims spaces only.\<close>

definition btrim :: "string \<Rightarrow> string" where
  "btrim s = rev (dropWhile (\<lambda>c. c = CHR '' '') (rev (dropWhile (\<lambda>c. c = CHR '' '') s)))"

definition NormalizeIdentityKey :: "string \<Rightarrow> string" where
  "NormalizeIdentityKey s = ToLower (TrimSpace s)"

definition uniqueNonEmpty :: "string list \<Rightarrow> string list" where
  "uniqueNonEmpty xs =
     rev (foldl (\<lambda>out x. let v = TrimSpace x in if v \<noteq> [] \<and> v \<notin> set out then v # out else out) [] xs)"

text \<open>\<^verbatim>\<open>text LIKE pattern\<close>: \<open>%\<close> matches any text, \<open>_\<close> one character, a backslash takes the next one literally.\<close>

function sql_like :: "string \<Rightarrow> string \<Rightarrow> bool" where
  "sql_like [] s \<longleftrightarrow> s = []"
| "sql_like (c # p) s \<longleftrightarrow>
     (if c = CHR ''%'' then sql_like p s \<or> (case s of [] \<Rightarrow> False | _ # s' \<Rightarrow> sql_like (c # p) s')
      else if c = CHR ''_'' then (case s of [] \<Rightarrow> False | _ # s' \<Rightarrow> sql_like p s')
      else if c = CHR 0x5C then (case (p, s) of (x # p', y # s') \<Rightarrow> x = y \<and> sql_like p' s' | _ \<Rightarrow> False)
      else (case s of [] \<Rightarrow> False | y # s' \<Rightarrow> c = y \<and> sql_like p s'))"
  by pat_completeness auto
termination
  by (relation "measures [\<lambda>(p, s). length p, \<lambda>(p, s). length s]") auto

declare sql_like.simps [simp del]

section \<open>Unpadded base64\<close>

text \<open>\<^verbatim>\<open>base64.RawStdEncoding\<close> and \<^verbatim>\<open>base64.RawURLEncoding\<close>.\<close>

definition raw_encode :: "bytes \<Rightarrow> string" where
  "raw_encode bs = filter (\<lambda>c. c \<noteq> CHR ''='') (b64_encode bs)"

definition raw_decode :: "string \<Rightarrow> bytes option" where
  "raw_decode s =
     (let t = filter (\<lambda>c. c \<noteq> CHR 0x0A \<and> c \<noteq> CHR 0x0D) s
      in if CHR ''='' \<in> set t then None else b64_groups (t @ replicate ((4 - length t mod 4) mod 4) (CHR ''='')))"

definition url_char :: "char \<Rightarrow> char" where
  "url_char c = (if c = CHR ''+'' then CHR ''-'' else if c = CHR ''/'' then CHR ''_'' else c)"

definition std_char :: "char \<Rightarrow> char" where
  "std_char c = (if c = CHR ''-'' then CHR ''+'' else if c = CHR ''_'' then CHR ''/'' else c)"

definition url_encode :: "bytes \<Rightarrow> string" where
  "url_encode bs = map url_char (raw_encode bs)"

definition url_decode :: "string \<Rightarrow> bytes option" where
  "url_decode s = (if CHR ''+'' \<in> set s \<or> CHR ''/'' \<in> set s then None else raw_decode (map std_char s))"

definition text_of :: "bytes \<Rightarrow> string" where
  "text_of p = map (\<lambda>b. char_of (unat b)) p"

lemma text_of_bytes: "text_of (bytes_of s) = s"
proof -
  have "(unat (of_char c :: 8 word) :: nat) = of_char c" for c
    by (metis unat_of_nat_byte of_char_of of_nat_of_char unat_byte_lt nat_of_char_less_256)
  then show ?thesis by (simp add: text_of_def bytes_of_def o_def)
qed

section \<open>E-mail addresses\<close>

text \<open>
  What \<^verbatim>\<open>mail.ParseAddress\<close> accepts of an address that is equal to its parse: a dot-atom, an at sign, and a
  dot-atom or a domain literal. Quoted local parts, display names and comments parse to another
  text. \<open>is_ip\<close> is \<^verbatim>\<open>net.ParseIP\<close>.
\<close>

definition atext :: "char \<Rightarrow> bool" where
  "atext c \<longleftrightarrow> (33 \<le> byte_of c \<and> byte_of c \<le> 126 \<or> 128 \<le> byte_of c) \<and> c \<notin> set ''()<>[]:;@,.'' \<and> c \<noteq> CHR 0x5C \<and> c \<noteq> CHR 0x22"

definition dot_atom :: "string \<Rightarrow> bool" where
  "dot_atom s \<longleftrightarrow> valid_utf8 s \<and> list_all (\<lambda>part. part \<noteq> [] \<and> list_all atext part) (Split (CHR ''.'') s)"

definition domain_literal :: "(string \<Rightarrow> bool) \<Rightarrow> string \<Rightarrow> bool" where
  "domain_literal is_ip s \<longleftrightarrow>
     length s > 2 \<and> hd s = CHR ''['' \<and> last s = CHR '']''
     \<and> (let inner = butlast (tl s) in
          valid_utf8 inner \<and> list_all (\<lambda>c. (33 \<le> byte_of c \<and> byte_of c \<le> 126 \<or> 128 \<le> byte_of c) \<and> c \<noteq> CHR ''['' \<and> c \<noteq> CHR '']'' \<and> c \<noteq> CHR 0x5C) inner
          \<and> is_ip inner)"

definition NormalizeEmail :: "(string \<Rightarrow> bool) \<Rightarrow> string \<Rightarrow> string option" where
  "NormalizeEmail is_ip raw =
     (let v = ToLower (TrimSpace raw)
      in case cut (CHR ''@'') v of
           None \<Rightarrow> None
         | Some (local_part, domain) \<Rightarrow>
             (if dot_atom local_part \<and> (dot_atom domain \<or> domain_literal is_ip domain) then Some v else None))"

definition email_separator :: "char \<Rightarrow> bool" where
  "email_separator c \<longleftrightarrow> c = CHR '','' \<or> c = CHR '';'' \<or> is_space c"

text \<open>\<^verbatim>\<open>strings.FieldsFunc\<close>\<close>

fun fields_func :: "(char \<Rightarrow> bool) \<Rightarrow> string \<Rightarrow> string \<Rightarrow> string list" where
  "fields_func P cur [] = (if cur = [] then [] else [rev cur])"
| "fields_func P cur (c # cs) =
     (if P c then (if cur = [] then fields_func P [] cs else rev cur # fields_func P [] cs)
      else fields_func P (c # cur) cs)"

definition FieldsFunc :: "(char \<Rightarrow> bool) \<Rightarrow> string \<Rightarrow> string list" where
  "FieldsFunc P s = fields_func P [] s"

fun email_list :: "(string \<Rightarrow> bool) \<Rightarrow> string list \<Rightarrow> string list \<Rightarrow> string list option" where
  "email_list is_ip out [] = Some (rev out)"
| "email_list is_ip out (item # items) =
     (case NormalizeEmail is_ip item of
        None \<Rightarrow> None
      | Some email \<Rightarrow> email_list is_ip (if email \<in> set out then out else email # out) items)"

definition ParseEmailList :: "(string \<Rightarrow> bool) \<Rightarrow> string \<Rightarrow> string list option" where
  "ParseEmailList is_ip text0 = email_list is_ip [] (FieldsFunc email_separator text0)"

section \<open>Lemmas\<close>

lemma b64_char_clean:
  assumes "n < 64"
  shows "b64_char n \<noteq> CHR ''=''" "b64_char n \<noteq> CHR 0x0A" "b64_char n \<noteq> CHR 0x0D" "b64_val (b64_char n) = Some n"
    "b64_char n \<noteq> CHR ''$''" "b64_char n \<noteq> CHR ''-''" "b64_char n \<noteq> CHR ''_''" "b64_char n \<noteq> CHR ''.''"
proof -
  have "list_all (\<lambda>n. b64_char n \<noteq> CHR ''='' \<and> b64_char n \<noteq> CHR 0x0A \<and> b64_char n \<noteq> CHR 0x0D \<and> b64_val (b64_char n) = Some n
      \<and> b64_char n \<noteq> CHR ''$'' \<and> b64_char n \<noteq> CHR ''-'' \<and> b64_char n \<noteq> CHR ''_'' \<and> b64_char n \<noteq> CHR ''.'') [0..<64]" by code_simp
  then show "b64_char n \<noteq> CHR ''=''" "b64_char n \<noteq> CHR 0x0A" "b64_char n \<noteq> CHR 0x0D" "b64_val (b64_char n) = Some n"
    "b64_char n \<noteq> CHR ''$''" "b64_char n \<noteq> CHR ''-''" "b64_char n \<noteq> CHR ''_''" "b64_char n \<noteq> CHR ''.''"
    using assms by (simp_all add: list_all_iff)
qed

lemma b64_encode_clean: "list_all (\<lambda>c. c = CHR ''='' \<or> c \<in> b64_char ` {..<64}) (b64_encode bs)"
proof (induction bs rule: b64_encode.induct)
  case (4 a b c rest)
  have "unat a div 4 \<in> {..<64}" "unat a mod 4 * 16 + unat b div 16 \<in> {..<64}" "unat b mod 16 * 4 + unat c div 64 \<in> {..<64}"
    "unat c mod 64 \<in> {..<64}" using sextet_bounds by auto
  then show ?case using 4 unfolding b64_encode.simps list_all_append list_all_Cons_iff list_all_Nil_iff by blast
next
  case (2 a)
  have "unat a div 4 \<in> {..<64}" "unat a mod 4 * 16 \<in> {..<64}" using sextet_bounds by auto
  then show ?case unfolding b64_encode.simps list_all_Cons_iff list_all_Nil_iff by blast
next
  case (3 a b)
  have "unat a div 4 \<in> {..<64}" "unat a mod 4 * 16 + unat b div 16 \<in> {..<64}" "unat b mod 16 * 4 \<in> {..<64}"
    using sextet_bounds by auto
  then show ?case unfolding b64_encode.simps list_all_Cons_iff list_all_Nil_iff by blast
qed simp

lemma raw_encode_clean: "c \<in> set (raw_encode bs) \<Longrightarrow> \<exists>n < 64. c = b64_char n"
  using b64_encode_clean by (auto simp: raw_encode_def list_all_iff)

lemma raw_encode_pad:
  "b64_encode bs = raw_encode bs @ replicate ((4 - length (raw_encode bs) mod 4) mod 4) (CHR ''='')"
proof (induction bs rule: b64_encode.induct)
  case (4 a b c rest)
  have "unat a < 256" "unat b < 256" "unat c < 256" by simp_all
  then have "unat a div 4 < 64" "unat a mod 4 * 16 + unat b div 16 < 64" "unat b mod 16 * 4 + unat c div 64 < 64" "unat c mod 64 < 64" by auto
  then show ?case using 4 by (simp add: raw_encode_def b64_char_clean)
next
  case (2 a)
  have "unat a < 256" by simp
  then have "unat a div 4 < 64" "unat a mod 4 * 16 < 64" by auto
  then show ?case by (simp add: raw_encode_def b64_char_clean numeral_2_eq_2)
next
  case (3 a b)
  have "unat a < 256" "unat b < 256" by simp_all
  then have "unat a div 4 < 64" "unat a mod 4 * 16 + unat b div 16 < 64" "unat b mod 16 * 4 < 64" by auto
  then show ?case by (simp add: raw_encode_def b64_char_clean)
qed (simp add: raw_encode_def)

lemma raw_decode_encode: "raw_decode (raw_encode bs) = Some bs"
proof -
  have "filter (\<lambda>c. c \<noteq> CHR 0x0A \<and> c \<noteq> CHR 0x0D) (raw_encode bs) = raw_encode bs"
    by (rule filter_True) (metis raw_encode_clean b64_char_clean(2,3))
  moreover have "CHR ''='' \<notin> set (raw_encode bs)" by (simp add: raw_encode_def)
  ultimately show ?thesis using raw_encode_pad [of bs] b64_groups_encode [of bs] by (simp add: raw_decode_def Let_def)
qed

lemma url_decode_encode: "url_decode (url_encode bs) = Some bs"
proof -
  have "std_char (url_char c) = c" if "c \<in> set (raw_encode bs)" for c
    using raw_encode_clean [OF that] b64_char_clean(6,7) by (auto simp: std_char_def url_char_def)
  then have "map std_char (url_encode bs) = raw_encode bs" by (simp add: url_encode_def map_idI)
  moreover have "CHR ''+'' \<notin> set (url_encode bs)" "CHR ''/'' \<notin> set (url_encode bs)"
    by (auto simp: url_encode_def url_char_def)
  ultimately show ?thesis by (simp add: url_decode_def raw_decode_encode)
qed

lemma sql_like_any: "sql_like ''%'' s"
  by (induction s) (simp_all add: sql_like.simps(1) sql_like.simps(2) [of "CHR ''%''"])

lemma sql_like_plain:
  assumes "c \<noteq> CHR ''%''" "c \<noteq> CHR ''_''" "c \<noteq> CHR 0x5C"
  shows "sql_like (c # p) s \<longleftrightarrow> (case s of [] \<Rightarrow> False | y # s' \<Rightarrow> c = y \<and> sql_like p s')"
  using assms by (subst sql_like.simps) simp

lemma sql_like_prefix:
  assumes "CHR ''%'' \<notin> set p" "CHR ''_'' \<notin> set p" "CHR 0x5C \<notin> set p"
  shows "sql_like (p @ ''%'') s \<longleftrightarrow> prefix p s"
  using assms
proof (induction p arbitrary: s)
  case (Cons c p)
  then have "sql_like ((c # p) @ ''%'') s \<longleftrightarrow> (case s of [] \<Rightarrow> False | y # s' \<Rightarrow> c = y \<and> sql_like (p @ ''%'') s')"
    using sql_like_plain [of c "p @ ''%''" s] by auto
  then show ?case using Cons by (cases s) auto
qed (simp add: sql_like_any)

end
