(* ===== verification/DeadLetters.thy ===== *)
theory DeadLetters
  imports Database Texts
begin

text \<open>
  Failed messages: the consumer that redelivers a message and gives up after five deliveries
  (\<^verbatim>\<open>processMessage\<close>, \<^verbatim>\<open>handleFailedMessage\<close> of \<^verbatim>\<open>queue/nats.go\<close>), the store of dead letters
  (\<^verbatim>\<open>store/dead_letters.go\<close>) and the actions of an operator on them (\<^verbatim>\<open>retry\<close> and
  \<^verbatim>\<open>reconcile\<close> of \<^verbatim>\<open>api/dead_letters.go\<close>).

  \<open>seal\<close> and \<open>unseal\<close> are AES-GCM under the key of the store, \<open>sha\<close> the hexadecimal SHA-256,
  \<open>redact\<close> the redaction of diagnostics; what the random source or the broker answers is an argument.
\<close>

section \<open>The store\<close>

record dead_letter =
  dl_id :: string
  dl_runner_id :: string
  dl_stream :: string
  dl_consumer :: string
  dl_subject :: string
  dl_message_id :: string
  dl_payload_ciphertext :: bytes
  dl_payload_sha256 :: string
  dl_error_text :: string
  dl_attempts :: int
  dl_first_failed_at :: time
  dl_last_failed_at :: time
  dl_correlation_id :: string
  dl_state :: string
  dl_retry_delivery_id :: string
  dl_retry_attempts :: nat
  dl_retry_available_at :: "time option"
  dl_retry_published_at :: "time option"
  dl_retry_last_error :: string

type_synonym letters = "dead_letter list"

record DeadLetterRecord =
  dr_ID :: string
  dr_RunnerID :: string
  dr_Stream :: string
  dr_Consumer :: string
  dr_Subject :: string
  dr_MessageID :: string
  dr_Error :: string
  dr_CorrelationID :: string
  dr_State :: string
  dr_Payload :: bytes
  dr_Attempts :: int
  dr_FirstFailedAt :: time
  dr_LastFailedAt :: time

datatype letter_error = LetterIncomplete | LetterCipher | LetterRandom | LetterConstraint | LetterUnavailable | LetterStateInvalid

definition dead_letter_states :: "string list" where
  "dead_letter_states = [''OPEN'', ''RETRY_QUEUED'', ''RECONCILED'', ''DISCARDED'']"

definition Persist ::
  "(bytes \<Rightarrow> bytes option) \<Rightarrow> (bytes \<Rightarrow> string) \<Rightarrow> string option \<Rightarrow> time \<Rightarrow> DeadLetterRecord \<Rightarrow> letters \<Rightarrow> letter_error + letters" where
  "Persist seal sha newID now record ls =
     (if dr_Payload record = [] \<or> dr_Stream record = [] \<or> dr_Consumer record = [] \<or> dr_Subject record = []
         \<or> dr_MessageID record = [] \<or> dr_Attempts record = 0
      then Inl LetterIncomplete
      else (let state = (if dr_State record = [] then ''OPEN'' else dr_State record);
                first = (if dr_FirstFailedAt record = 0 then now else dr_FirstFailedAt record);
                last = (if dr_LastFailedAt record = 0 then first else dr_LastFailedAt record);
                error = trim_invalid (take 4096 (dr_Error record))
            in case seal (dr_Payload record) of
                 None \<Rightarrow> Inl LetterCipher
               | Some ciphertext \<Rightarrow>
                   (case (if dr_ID record = [] then newID else Some (dr_ID record)) of
                      None \<Rightarrow> Inl LetterRandom
                    | Some ident \<Rightarrow>
                        (if list_ex (\<lambda>l. dl_stream l = dr_Stream record \<and> dl_consumer l = dr_Consumer record
                                       \<and> dl_message_id l = dr_MessageID record) ls
                            \<and> state \<in> set dead_letter_states \<and> dr_Attempts record < 2 ^ 31
                         then Inr ls
                         else if state \<notin> set dead_letter_states \<or> \<not> dr_Attempts record < 2 ^ 31 \<or> list_ex (\<lambda>l. dl_id l = ident) ls
                         then Inl LetterConstraint
                         else Inr (ls @
                           [\<lparr>dl_id = ident, dl_runner_id = dr_RunnerID record, dl_stream = dr_Stream record,
                             dl_consumer = dr_Consumer record, dl_subject = dr_Subject record, dl_message_id = dr_MessageID record,
                             dl_payload_ciphertext = ciphertext, dl_payload_sha256 = sha (dr_Payload record), dl_error_text = error,
                             dl_attempts = dr_Attempts record, dl_first_failed_at = first, dl_last_failed_at = last,
                             dl_correlation_id = dr_CorrelationID record, dl_state = state, dl_retry_delivery_id = [],
                             dl_retry_attempts = 0, dl_retry_available_at = None, dl_retry_published_at = None,
                             dl_retry_last_error = []\<rparr>])))))"

definition MaxDeadLetterRetryAttempts :: nat where
  "MaxDeadLetterRetryAttempts = 10"

definition DeadLetterRetryBackoff :: "nat \<Rightarrow> duration" where
  "DeadLetterRetryBackoff n = (if n = 0 then second else second * 2 ^ (min n 8 - 1))"

record DeadLetterFilter =
  df_State :: string
  df_RunnerID :: string
  df_Subject :: string
  df_Page :: int
  df_Limit :: int

text \<open>Newest failures first; the newest identifier first among equals.\<close>

definition DeadLetter_List :: "DeadLetterFilter \<Rightarrow> letters \<Rightarrow> letters \<times> nat" where
  "DeadLetter_List f ls =
     (let page = (if df_Page f < 1 then 1 else df_Page f);
          limit = (if df_Limit f < 1 \<or> df_Limit f > 100 then 50 else df_Limit f);
          hits = filter (\<lambda>l. (df_State f = [] \<or> dl_state l = df_State f) \<and> (df_RunnerID f = [] \<or> dl_runner_id l = df_RunnerID f)
                           \<and> (df_Subject f = [] \<or> dl_subject l = df_Subject f)) ls
      in (take (nat limit) (drop (nat ((page - 1) * limit)) (rev (sort_key (\<lambda>l. (dl_last_failed_at l, dl_id l)) hits))), length hits))"

definition DeadLetter_Find :: "string \<Rightarrow> letters \<Rightarrow> dead_letter option" where
  "DeadLetter_Find ident ls = find_row (\<lambda>l. dl_id l = ident) ls"

record DeadLetterRetry =
  rt_ID :: string
  rt_Subject :: string
  rt_MessageID :: string
  rt_Payload :: bytes
  rt_DeliveryID :: string
  rt_Attempts :: nat

definition no_retry :: DeadLetterRetry where
  "no_retry = \<lparr>rt_ID = [], rt_Subject = [], rt_MessageID = [], rt_Payload = [], rt_DeliveryID = [], rt_Attempts = 0\<rparr>"

definition BeginRetry ::
  "(bytes \<Rightarrow> bytes option) \<Rightarrow> string option \<Rightarrow> time \<Rightarrow> time \<Rightarrow> string \<Rightarrow> letters
     \<Rightarrow> letter_error + (DeadLetterRetry \<times> bool) \<times> letters" where
  "BeginRetry unseal newID now sqlnow ident ls =
     (if ident = [] then Inl LetterUnavailable
      else (case DeadLetter_Find ident ls of
              None \<Rightarrow> Inr ((no_retry, False), ls)
            | Some l \<Rightarrow>
                (let retry = \<lparr>rt_ID = ident, rt_Subject = dl_subject l, rt_MessageID = dl_message_id l, rt_Payload = [],
                              rt_DeliveryID = dl_retry_delivery_id l, rt_Attempts = dl_retry_attempts l\<rparr>
                 in if dl_state l \<noteq> ''OPEN''
                    then (if dl_state l \<noteq> ''RETRY_QUEUED'' \<or> dl_retry_delivery_id l = [] \<or> dl_retry_published_at l \<noteq> None
                             \<or> dl_retry_attempts l \<ge> MaxDeadLetterRetryAttempts
                             \<or> (case dl_retry_available_at l of None \<Rightarrow> False | Some t \<Rightarrow> t > now)
                          then Inr ((retry, False), ls)
                          else Inr ((retry\<lparr>rt_Attempts := dl_retry_attempts l + 1\<rparr>, True),
                                    sql_update (\<lambda>l'. dl_id l' = ident \<and> dl_state l' = ''RETRY_QUEUED'')
                                      (\<lambda>l'. l'\<lparr>dl_retry_attempts := dl_retry_attempts l + 1, dl_retry_available_at := None,
                                              dl_retry_last_error := []\<rparr>) ls))
                    else (case unseal (dl_payload_ciphertext l) of
                            None \<Rightarrow> Inl LetterCipher
                          | Some payload \<Rightarrow>
                              (case newID of
                                 None \<Rightarrow> Inl LetterRandom
                               | Some delivery \<Rightarrow>
                                   Inr ((retry\<lparr>rt_Payload := payload, rt_DeliveryID := delivery, rt_Attempts := 1\<rparr>, True),
                                        sql_update (\<lambda>l'. dl_id l' = ident \<and> dl_state l' = ''OPEN'')
                                          (\<lambda>l'. l'\<lparr>dl_state := ''RETRY_QUEUED'', dl_retry_delivery_id := delivery, dl_retry_attempts := 1,
                                                  dl_retry_available_at := Some sqlnow, dl_retry_published_at := None,
                                                  dl_retry_last_error := []\<rparr>) ls))))))"

definition MarkRetryPublished :: "time \<Rightarrow> string \<Rightarrow> letters \<Rightarrow> letter_error + letters" where
  "MarkRetryPublished sqlnow ident ls =
     (if ident = [] then Inl LetterUnavailable
      else Inr (sql_update (\<lambda>l. dl_id l = ident \<and> dl_state l = ''RETRY_QUEUED'')
                 (\<lambda>l. l\<lparr>dl_retry_published_at := Some sqlnow, dl_retry_available_at := None, dl_retry_last_error := []\<rparr>) ls))"

definition MarkRetryFailed :: "string \<Rightarrow> string \<Rightarrow> time \<Rightarrow> letters \<Rightarrow> letter_error + letters" where
  "MarkRetryFailed ident failure availableAt ls =
     (if ident = [] then Inl LetterUnavailable
      else Inr (sql_update (\<lambda>l. dl_id l = ident \<and> dl_state l = ''RETRY_QUEUED'' \<and> dl_retry_published_at l = None)
                 (\<lambda>l. l\<lparr>dl_retry_available_at := (if dl_retry_attempts l < MaxDeadLetterRetryAttempts then Some availableAt else None),
                        dl_retry_last_error := take 4096 failure\<rparr>) ls))"

definition Reconcile :: "string \<Rightarrow> string \<Rightarrow> letters \<Rightarrow> letter_error + bool \<times> letters" where
  "Reconcile ident state ls =
     (if ident = [] then Inl LetterUnavailable
      else if state \<noteq> ''RECONCILED'' \<and> state \<noteq> ''DISCARDED'' then Inl LetterStateInvalid
      else Inr (sql_count (\<lambda>l. dl_id l = ident \<and> (dl_state l = ''OPEN'' \<or> dl_state l = ''RETRY_QUEUED'')) ls = 1,
                sql_update (\<lambda>l. dl_id l = ident \<and> (dl_state l = ''OPEN'' \<or> dl_state l = ''RETRY_QUEUED''))
                  (\<lambda>l. l\<lparr>dl_state := state\<rparr>) ls))"

text \<open>The number of open letters and the age of the oldest in whole seconds.\<close>

definition DeadLetter_Stats :: "time \<Rightarrow> letters \<Rightarrow> nat \<times> int" where
  "DeadLetter_Stats sqlnow ls =
     (let openLetters = filter (\<lambda>l. dl_state l = ''OPEN'') ls
      in (length openLetters,
          (case map dl_last_failed_at openLetters of [] \<Rightarrow> 0 | t # ts \<Rightarrow> max 0 (sqlnow - foldl min t ts) div second)))"

section \<open>Publishing\<close>

record Message =
  msg_Subject :: string
  msg_Data :: bytes
  msg_ID :: string

text \<open>\<^verbatim>\<open>JetStream.Publish\<close>; \<open>accepted\<close> is the answer of the broker.\<close>

definition JetStream_Publish :: "bool \<Rightarrow> Message \<Rightarrow> bool" where
  "JetStream_Publish accepted m \<longleftrightarrow> msg_Subject m \<noteq> [] \<and> msg_Data m \<noteq> [] \<and> accepted"

section \<open>The consumer\<close>

record metadata =
  md_Stream :: string
  md_Consumer :: string
  md_NumDelivered :: int
  md_Timestamp :: time
  md_Sequence :: nat

definition MaxDeliver :: nat where
  "MaxDeliver = 5"

definition boundedError :: "string option \<Rightarrow> string" where
  "boundedError err =
     (case err of
        None \<Rightarrow> []
      | Some message \<Rightarrow>
          (let value' = TrimSpace message
           in if length value' > 4096 then take 4096 value' else trim_invalid value'))"

definition join_dots :: "string list \<Rightarrow> string" where
  "join_dots parts = (case parts of [] \<Rightarrow> [] | p # ps \<Rightarrow> p @ concat (map (\<lambda>q. CHR ''.'' # q) ps))"

definition runnerIDFromSubject :: "string \<Rightarrow> string" where
  "runnerIDFromSubject subject =
     (let parts = Split (CHR ''.'') subject
      in if length parts < 3 \<or> parts ! 0 \<noteq> ''glyphflow'' then []
         else if parts ! 1 \<in> {''orders'', ''events'', ''heartbeats'', ''control'', ''secrets''} then join_dots (drop 2 parts)
         else [])"

definition failed_record :: "time \<Rightarrow> metadata \<Rightarrow> string \<Rightarrow> Message \<Rightarrow> string \<Rightarrow> DeadLetterRecord" where
  "failed_record now md correlation m handlerErr =
     \<lparr>dr_ID = [], dr_RunnerID = runnerIDFromSubject (msg_Subject m), dr_Stream = md_Stream md, dr_Consumer = md_Consumer md,
      dr_Subject = msg_Subject m,
      dr_MessageID = (if msg_ID m = [] then md_Stream md @ '':'' @ show_nat (md_Sequence md) else msg_ID m),
      dr_Error = boundedError (Some handlerErr), dr_CorrelationID = correlation, dr_State = [], dr_Payload = msg_Data m,
      dr_Attempts = md_NumDelivered md, dr_FirstFailedAt = (if md_Timestamp md = 0 then now else md_Timestamp md),
      dr_LastFailedAt = now\<rparr>"

text \<open>
  \<^verbatim>\<open>handleFailedMessage\<close> with the sink that the control plane installs; nothing when the message
  was not handled, otherwise whether an error is left. \<open>notice\<close> is whether the notice was published.
\<close>

definition handleFailedMessage ::
  "(DeadLetterRecord \<Rightarrow> letters \<Rightarrow> letter_error + letters) \<Rightarrow> bool \<Rightarrow> time \<Rightarrow> metadata option \<Rightarrow> string \<Rightarrow> Message \<Rightarrow> string
     \<Rightarrow> letters \<Rightarrow> bool option \<times> letters" where
  "handleFailedMessage sink notice now md correlation m handlerErr ls =
     (case md of
        None \<Rightarrow> (None, ls)
      | Some d \<Rightarrow>
          (if md_NumDelivered d < 5 then (None, ls)
           else (case sink (failed_record now d correlation m handlerErr) ls of
                   Inl _ \<Rightarrow> (Some True, ls)
                 | Inr ls' \<Rightarrow> (Some (\<not> notice), ls'))))"

datatype acknowledgement = DoubleAck | Ack | Nak

definition processMessage ::
  "(DeadLetterRecord \<Rightarrow> letters \<Rightarrow> letter_error + letters) \<Rightarrow> bool \<Rightarrow> time \<Rightarrow> metadata option \<Rightarrow> string \<Rightarrow> Message \<Rightarrow> string option
     \<Rightarrow> letters \<Rightarrow> acknowledgement \<times> letters" where
  "processMessage sink notice now md correlation m handlerErr ls =
     (case handlerErr of
        None \<Rightarrow> (DoubleAck, ls)
      | Some e \<Rightarrow>
          (case handleFailedMessage sink notice now md correlation m e ls of
             (None, ls') \<Rightarrow> (Nak, ls')
           | (Some True, ls') \<Rightarrow> (Nak, ls')
           | (Some False, ls') \<Rightarrow> (Ack, ls')))"

section \<open>The actions of an operator\<close>

datatype letter_response =
    LetterBadRequest | LetterServiceUnavailable | LetterNotFound | LetterConflict string
  | LetterAccepted string string | LetterOK string

definition decodeDeadLetterAction :: "(string \<times> string) option \<Rightarrow> (string \<times> string) option" where
  "decodeDeadLetterAction body =
     (case body of
        None \<Rightarrow> None
      | Some (reason, state) \<Rightarrow>
          (let trimmed = TrimSpace reason
           in if trimmed = [] \<or> length trimmed > 512 then None else Some (trimmed, state)))"

definition writeTransitionConflict :: "string \<Rightarrow> letters \<Rightarrow> letter_response" where
  "writeTransitionConflict ident ls =
     (case DeadLetter_Find ident ls of None \<Rightarrow> LetterNotFound | Some l \<Rightarrow> LetterConflict (dl_state l))"

text \<open>
  The history of the queue keeps, beside each message, the letter it came from. \<open>recorded\<close> is
  whether the transaction that notes the publication succeeds.
\<close>

type_synonym letter_world = "letters \<times> (string \<times> Message) list"

definition DeadLetter_retry ::
  "(bytes \<Rightarrow> bytes option) \<Rightarrow> string option \<Rightarrow> string option \<Rightarrow> bool \<Rightarrow> string \<Rightarrow> bool \<Rightarrow> time \<Rightarrow> time
     \<Rightarrow> (string \<times> string) option \<Rightarrow> string \<Rightarrow> letter_world \<Rightarrow> letter_response \<times> letter_world" where
  "DeadLetter_retry unseal newID freshID accepted failure recorded now sqlnow body ident w =
     (case decodeDeadLetterAction body of
        None \<Rightarrow> (LetterBadRequest, w)
      | Some _ \<Rightarrow>
          (case BeginRetry unseal newID now sqlnow ident (fst w) of
             Inl _ \<Rightarrow> (LetterServiceUnavailable, w)
           | Inr ((retry, claimed), ls) \<Rightarrow>
               (if \<not> claimed then (writeTransitionConflict ident ls, (ls, snd w))
                else (case (if rt_DeliveryID retry = [] then freshID else Some (rt_DeliveryID retry)) of
                        None \<Rightarrow> (LetterServiceUnavailable, (ls, snd w))
                      | Some delivery \<Rightarrow>
                          (let m = \<lparr>msg_Subject = rt_Subject retry, msg_Data = rt_Payload retry,
                                    msg_ID = ''dead-letter-retry-'' @ delivery\<rparr>
                           in if \<not> JetStream_Publish accepted m
                              then (LetterServiceUnavailable,
                                    ((case MarkRetryFailed ident failure (now + DeadLetterRetryBackoff (rt_Attempts retry)) ls of
                                        Inl _ \<Rightarrow> ls | Inr ls' \<Rightarrow> ls'), snd w))
                              else (let sent = snd w @ [(ident, m)]
                                    in if \<not> recorded then (LetterServiceUnavailable, (ls, sent))
                                       else (case MarkRetryPublished sqlnow ident ls of
                                               Inl _ \<Rightarrow> (LetterServiceUnavailable, (ls, sent))
                                             | Inr ls' \<Rightarrow> (LetterAccepted (rt_MessageID retry) (msg_ID m), (ls', sent)))))))))"

definition DeadLetter_reconcile ::
  "(string \<times> string) option \<Rightarrow> string \<Rightarrow> letter_world \<Rightarrow> letter_response \<times> letter_world" where
  "DeadLetter_reconcile body ident w =
     (case decodeDeadLetterAction body of
        None \<Rightarrow> (LetterBadRequest, w)
      | Some (_, state0) \<Rightarrow>
          (let state = map upper_char (TrimSpace state0)
           in if state \<noteq> ''RECONCILED'' \<and> state \<noteq> ''DISCARDED'' then (LetterBadRequest, w)
              else (case DeadLetter_Find ident (fst w) of
                      None \<Rightarrow> (LetterNotFound, w)
                    | Some _ \<Rightarrow>
                        (case Reconcile ident state (fst w) of
                           Inl _ \<Rightarrow> (LetterServiceUnavailable, w)
                         | Inr (changed, ls) \<Rightarrow>
                             (if \<not> changed then (writeTransitionConflict ident ls, (ls, snd w))
                              else (LetterOK state, (ls, snd w)))))))"

end
