(* ===== verification/DeadLetterFacts.thy ===== *)
theory DeadLetterFacts
  imports DeadLetters
begin

text \<open>
  Dead letters over any history of failures, retries and reconciliations: a letter is published at most
  once and with its original payload, its retries are bounded, a reconciled letter is final; and two
  ways in which a message is lost.
\<close>

section \<open>Histories\<close>

inductive letter_step ::
  "(bytes \<Rightarrow> bytes option) \<Rightarrow> (bytes \<Rightarrow> bytes option) \<Rightarrow> (bytes \<Rightarrow> string) \<Rightarrow> letter_world \<Rightarrow> letter_world \<Rightarrow> bool"
  for seal unseal sha where
  persist: "Persist seal sha newID now rcd ls = Inr ls' \<Longrightarrow> letter_step seal unseal sha (ls, sent) (ls', sent)"
| retry: "DeadLetter_retry unseal newID freshID accepted failure recorded now sqlnow body ident w = (r, w')
    \<Longrightarrow> letter_step seal unseal sha w w'"
| crash: "BeginRetry unseal newID now sqlnow ident ls = Inr (claim, ls') \<Longrightarrow> letter_step seal unseal sha (ls, sent) (ls', sent)"
| reconcile: "DeadLetter_reconcile body ident w = (r, w') \<Longrightarrow> letter_step seal unseal sha w w'"

inductive letter_steps ::
  "(bytes \<Rightarrow> bytes option) \<Rightarrow> (bytes \<Rightarrow> bytes option) \<Rightarrow> (bytes \<Rightarrow> string) \<Rightarrow> letter_world \<Rightarrow> letter_world \<Rightarrow> bool"
  for seal unseal sha where
  none: "letter_steps seal unseal sha w w"
| more: "letter_steps seal unseal sha w w1 \<Longrightarrow> letter_step seal unseal sha w1 w2 \<Longrightarrow> letter_steps seal unseal sha w w2"

text \<open>What every change to a letter keeps, and the ways its state can go.\<close>

definition letter_later :: "dead_letter \<Rightarrow> dead_letter \<Rightarrow> bool" where
  "letter_later l l' \<longleftrightarrow>
     dl_id l' = dl_id l \<and> dl_subject l' = dl_subject l \<and> dl_payload_ciphertext l' = dl_payload_ciphertext l
     \<and> dl_payload_sha256 l' = dl_payload_sha256 l \<and> dl_message_id l' = dl_message_id l
     \<and> (dl_state l \<noteq> ''OPEN'' \<longrightarrow> dl_state l' \<noteq> ''OPEN'')
     \<and> (dl_state l \<in> {''RECONCILED'', ''DISCARDED''} \<longrightarrow> l' = l)
     \<and> dl_retry_attempts l \<le> dl_retry_attempts l'"

lemma letter_later_refl [simp]: "letter_later l l"
  by (simp add: letter_later_def)

lemma letter_later_trans: "letter_later l l1 \<Longrightarrow> letter_later l1 l2 \<Longrightarrow> letter_later l l2"
  by (auto simp: letter_later_def)

definition letters_later :: "letters \<Rightarrow> letters \<Rightarrow> bool" where
  "letters_later ls ls' \<longleftrightarrow> length ls \<le> length ls' \<and> (\<forall>i < length ls. letter_later (ls ! i) (ls' ! i))"

lemma letters_later_refl [simp]: "letters_later ls ls"
  by (simp add: letters_later_def)

lemma letters_later_trans: "letters_later ls ls1 \<Longrightarrow> letters_later ls1 ls2 \<Longrightarrow> letters_later ls ls2"
  unfolding letters_later_def by (meson letter_later_trans less_le_trans order_trans)

lemma letters_later_update:
  assumes "\<And>l. l \<in> set ls \<Longrightarrow> P l \<Longrightarrow> letter_later l (f l)"
  shows "letters_later ls (sql_update P f ls)"
  using assms by (auto simp: letters_later_def sql_update_def)

lemma letters_later_append [simp]: "letters_later ls (ls @ rest)"
  by (simp add: letters_later_def nth_append)

lemma letters_later_in:
  assumes "letters_later ls ls'" "l \<in> set ls"
  obtains l' where "l' \<in> set ls'" "letter_later l l'"
  using assms unfolding letters_later_def in_set_conv_nth by (metis less_le_trans)

lemma Persist_cases:
  assumes "Persist seal sha newID now rcd ls = Inr ls'"
  shows "ls' = ls \<or> (\<exists>l. ls' = ls @ [l] \<and> dl_id l \<notin> dl_id ` set ls \<and> dl_retry_attempts l = 0 \<and> dl_state l \<in> set dead_letter_states
     \<and> seal (dr_Payload rcd) = Some (dl_payload_ciphertext l) \<and> dl_payload_sha256 l = sha (dr_Payload rcd)
     \<and> dr_Payload rcd \<noteq> [] \<and> dl_message_id l = dr_MessageID rcd)"
proof -
  define state where "state = (if dr_State rcd = [] then ''OPEN'' else dr_State rcd)"
  define first where "first = (if dr_FirstFailedAt rcd = 0 then now else dr_FirstFailedAt rcd)"
  show ?thesis
    using assms unfolding Persist_def Let_def state_def [symmetric] first_def [symmetric]
    by (auto simp: list_ex_iff split: if_split_asm option.split_asm) blast+
qed

lemma Persist_Inr:
  assumes "Persist seal sha newID now rcd ls = Inr ls'"
  obtains "ls' = ls"
    | l where "ls' = ls @ [l]" "dl_id l \<notin> dl_id ` set ls" "dl_retry_attempts l = 0" "dl_state l \<in> set dead_letter_states"
      "seal (dr_Payload rcd) = Some (dl_payload_ciphertext l)" "dl_payload_sha256 l = sha (dr_Payload rcd)"
      "dr_Payload rcd \<noteq> []" "dl_message_id l = dr_MessageID rcd"
  using Persist_cases [OF assms] by blast

lemma Persist_later: "Persist seal sha newID now rcd ls = Inr ls' \<Longrightarrow> letters_later ls ls'"
  by (erule Persist_Inr) simp_all

lemma DeadLetter_Find_Some: "DeadLetter_Find ident ls = Some l \<Longrightarrow> l \<in> set ls \<and> dl_id l = ident"
  by (auto simp: DeadLetter_Find_def find_row_def find_Some_iff)

lemma BeginRetry_Inr:
  assumes "BeginRetry unseal newID now sqlnow ident ls = Inr ((retry, claimed), ls')"
  obtains (refused) "\<not> claimed" "ls' = ls"
    | (again) l where "claimed" "l \<in> set ls" "dl_id l = ident" "dl_state l = ''RETRY_QUEUED''" "rt_Payload retry = []"
        "dl_retry_attempts l < 10" "rt_Attempts retry = dl_retry_attempts l + 1"
        "ls' = sql_update (\<lambda>l'. dl_id l' = ident \<and> dl_state l' = ''RETRY_QUEUED'')
           (\<lambda>l'. l'\<lparr>dl_retry_attempts := dl_retry_attempts l + 1, dl_retry_available_at := None, dl_retry_last_error := []\<rparr>) ls"
    | (first) l delivery where "claimed" "l \<in> set ls" "dl_id l = ident" "dl_state l = ''OPEN''" "rt_Subject retry = dl_subject l"
        "unseal (dl_payload_ciphertext l) = Some (rt_Payload retry)"
        "ls' = sql_update (\<lambda>l'. dl_id l' = ident \<and> dl_state l' = ''OPEN'')
           (\<lambda>l'. l'\<lparr>dl_state := ''RETRY_QUEUED'', dl_retry_delivery_id := delivery, dl_retry_attempts := 1,
                   dl_retry_available_at := Some sqlnow, dl_retry_published_at := None, dl_retry_last_error := []\<rparr>) ls"
proof (cases "claimed")
  case True
  from assms have ident: "ident \<noteq> []" by (auto simp: BeginRetry_def)
  from assms True ident obtain l where l: "DeadLetter_Find ident ls = Some l"
    by (auto simp: BeginRetry_def split: option.splits)
  note run = assms [unfolded BeginRetry_def l option.case Let_def] and found = DeadLetter_Find_Some [OF l]
  show thesis
  proof (cases "dl_state l = ''OPEN''")
    case True
    then show thesis using run ident \<open>claimed\<close> found first [of l] by (auto split: option.splits)
  next
    case False
    then show thesis using run ident \<open>claimed\<close> found again [of l]
      by (auto simp: MaxDeadLetterRetryAttempts_def not_le split: if_split_asm)
  qed
next
  case False
  then show thesis using assms refused by (auto simp: BeginRetry_def Let_def split: if_split_asm option.split_asm)
qed

section \<open>The invariant\<close>

definition letter_ok :: "(bytes \<Rightarrow> bytes option) \<Rightarrow> (bytes \<Rightarrow> string) \<Rightarrow> dead_letter \<Rightarrow> bool" where
  "letter_ok unseal sha l \<longleftrightarrow>
     dl_retry_attempts l \<le> 10 \<and> (dl_state l = ''OPEN'' \<longrightarrow> dl_retry_attempts l = 0)
     \<and> (\<exists>p. unseal (dl_payload_ciphertext l) = Some p \<and> sha p = dl_payload_sha256 l)"

definition letter_inv :: "(bytes \<Rightarrow> bytes option) \<Rightarrow> (bytes \<Rightarrow> string) \<Rightarrow> letter_world \<Rightarrow> bool" where
  "letter_inv unseal sha w \<longleftrightarrow>
     distinct (map dl_id (fst w)) \<and> (\<forall>l \<in> set (fst w). letter_ok unseal sha l) \<and> distinct (map fst (snd w))
     \<and> (\<forall>(ident, m) \<in> set (snd w). \<exists>l \<in> set (fst w). dl_id l = ident \<and> dl_state l \<noteq> ''OPEN''
          \<and> sha (msg_Data m) = dl_payload_sha256 l \<and> msg_Subject m = dl_subject l)"

lemma letter_inv_update:
  assumes inv: "letter_inv unseal sha (ls, sent)"
    and later: "\<And>l. l \<in> set ls \<Longrightarrow> P l \<Longrightarrow> letter_later l (f l) \<and> letter_ok unseal sha (f l)"
  shows "letter_inv unseal sha (sql_update P f ls, sent)"
proof -
  let ?ls = "sql_update P f ls"
  have ids: "map dl_id ?ls = map dl_id ls"
    using later by (induction ls) (auto simp: sql_update_def letter_later_def)
  have "\<exists>l \<in> set ?ls. dl_id l = ident \<and> dl_state l \<noteq> ''OPEN'' \<and> sha (msg_Data m) = dl_payload_sha256 l \<and> msg_Subject m = dl_subject l"
    if "(ident, m) \<in> set sent" for ident m
  proof -
    obtain l where l: "l \<in> set ls" "dl_id l = ident" "dl_state l \<noteq> ''OPEN''" "sha (msg_Data m) = dl_payload_sha256 l"
      "msg_Subject m = dl_subject l" using inv \<open>(ident, m) \<in> set sent\<close> unfolding letter_inv_def by auto
    let ?l = "if P l then f l else l"
    have "letter_later l ?l" using later l(1) by simp
    then show ?thesis using l by (intro bexI [of _ ?l]) (auto simp: letter_later_def set_sql_update)
  qed
  then show ?thesis using inv later ids unfolding letter_inv_def by (auto simp: set_sql_update)
qed

lemma letter_change:
  assumes "letter_inv unseal sha (ls, sent)"
    and "\<And>l. l \<in> set ls \<Longrightarrow> P l \<Longrightarrow> letter_later l (f l) \<and> letter_ok unseal sha (f l)"
  shows "letter_inv unseal sha (sql_update P f ls, sent) \<and> letters_later ls (sql_update P f ls)"
  using letter_inv_update [OF assms(1)] letters_later_update assms(2) by blast

lemma letter_inv_begin:
  assumes inv: "letter_inv unseal sha (ls, sent)"
    and claim: "BeginRetry unseal newID now sqlnow ident ls = Inr ((retry, claimed), ls')"
  shows "letter_inv unseal sha (ls', sent) \<and> letters_later ls ls'"
proof -
  have ok: "letter_ok unseal sha l" if "l \<in> set ls" for l using inv that by (simp add: letter_inv_def)
  from claim show ?thesis
  proof (cases rule: BeginRetry_Inr)
    case refused
    then show ?thesis using inv by simp
  next
    case (again l)
    have same: "l' = l" if "l' \<in> set ls" "dl_id l' = ident" for l'
      using inv that again(2,3) distinct_map_eq_key [of dl_id ls l' l] by (simp add: letter_inv_def)
    show ?thesis
      unfolding again(8)
    proof (rule letter_change [OF inv], elim conjE)
      fix l'
      assume "l' \<in> set ls" "dl_id l' = ident"
      then have "l' = l" by (rule same)
      then show "letter_later l' (l'\<lparr>dl_retry_attempts := dl_retry_attempts l + 1, dl_retry_available_at := None, dl_retry_last_error := []\<rparr>)
        \<and> letter_ok unseal sha (l'\<lparr>dl_retry_attempts := dl_retry_attempts l + 1, dl_retry_available_at := None, dl_retry_last_error := []\<rparr>)"
        using again(4,6) ok [OF again(2)] by (simp add: letter_later_def letter_ok_def)
    qed
  next
    case (first l delivery)
    show ?thesis
      unfolding first(7) by (rule letter_change [OF inv]) (use ok in \<open>auto simp: letter_later_def letter_ok_def\<close>)
  qed
qed

lemma mark_later:
  assumes "letter_inv unseal sha (ls, sent)"
    and "\<And>l. P l \<Longrightarrow> dl_state l = ''RETRY_QUEUED''"
    and "\<And>l. dl_state l = ''RETRY_QUEUED'' \<Longrightarrow> letter_later l (f l) \<and> dl_state (f l) = dl_state l \<and> dl_retry_attempts (f l) = dl_retry_attempts l"
  shows "letter_inv unseal sha (sql_update P f ls, sent) \<and> letters_later ls (sql_update P f ls)"
proof -
  have "letter_later l (f l) \<and> letter_ok unseal sha (f l)" if l: "l \<in> set ls" "P l" for l
  proof -
    have "letter_ok unseal sha l" using assms(1) l(1) by (simp add: letter_inv_def)
    moreover note assms(3) [OF assms(2) [OF l(2)]]
    ultimately show ?thesis by (auto simp: letter_ok_def letter_later_def)
  qed
  then show ?thesis by (rule letter_change [OF assms(1)])
qed

lemma Mark_later:
  assumes "letter_inv unseal sha (ls, sent)"
  shows "MarkRetryFailed ident failure t ls = Inr ls' \<Longrightarrow> letter_inv unseal sha (ls', sent) \<and> letters_later ls ls'"
    and "MarkRetryPublished sqlnow ident ls = Inr ls' \<Longrightarrow> letter_inv unseal sha (ls', sent) \<and> letters_later ls ls'"
proof -
  show "letter_inv unseal sha (ls', sent) \<and> letters_later ls ls'" if "MarkRetryFailed ident failure t ls = Inr ls'"
  proof -
    from that have e: "ls' = sql_update (\<lambda>l. dl_id l = ident \<and> dl_state l = ''RETRY_QUEUED'' \<and> dl_retry_published_at l = None)
        (\<lambda>l. l\<lparr>dl_retry_available_at := (if dl_retry_attempts l < MaxDeadLetterRetryAttempts then Some t else None),
              dl_retry_last_error := take 4096 failure\<rparr>) ls" by (auto simp: MarkRetryFailed_def split: if_splits)
    show ?thesis unfolding e by (rule mark_later [OF assms]) (simp_all add: letter_later_def)
  qed
  show "letter_inv unseal sha (ls', sent) \<and> letters_later ls ls'" if "MarkRetryPublished sqlnow ident ls = Inr ls'"
  proof -
    from that have e: "ls' = sql_update (\<lambda>l. dl_id l = ident \<and> dl_state l = ''RETRY_QUEUED'')
        (\<lambda>l. l\<lparr>dl_retry_published_at := Some sqlnow, dl_retry_available_at := None, dl_retry_last_error := []\<rparr>) ls"
      by (auto simp: MarkRetryPublished_def split: if_splits)
    show ?thesis unfolding e by (rule mark_later [OF assms]) (simp_all add: letter_later_def)
  qed
qed

text \<open>Only the first claim of an open letter carries a payload, and only a payload is published.\<close>

lemma retry_step:
  assumes inv: "letter_inv unseal sha (ls, sent)"
    and retry: "DeadLetter_retry unseal newID freshID accepted failure recorded now sqlnow body ident (ls, sent) = (r, (ls', sent'))"
  shows "letter_inv unseal sha (ls', sent') \<and> letters_later ls ls'
     \<and> (sent' = sent \<or> (\<exists>l m. sent' = sent @ [(ident, m)] \<and> l \<in> set ls \<and> dl_id l = ident \<and> dl_state l = ''OPEN''))"
proof (cases "\<exists>b. decodeDeadLetterAction body = Some b")
  case False
  then have "decodeDeadLetterAction body = None" by (cases "decodeDeadLetterAction body") auto
  then show ?thesis using retry inv by (simp add: DeadLetter_retry_def)
next
  case True
  then obtain b where b: "decodeDeadLetterAction body = Some b" ..
  show ?thesis
  proof (cases "BeginRetry unseal newID now sqlnow ident ls")
    case (Inl e)
    then show ?thesis using retry inv b by (simp add: DeadLetter_retry_def)
  next
    case (Inr res)
    obtain rt claimed ls1 where res: "res = ((rt, claimed), ls1)" by (metis prod.exhaust)
    note claim = Inr [unfolded res]
    note inv1 = letter_inv_begin [OF inv claim]
    show ?thesis
    proof (cases "claimed \<and> (if rt_DeliveryID rt = [] then freshID else Some (rt_DeliveryID rt)) \<noteq> None")
      case False
      then show ?thesis using retry inv1 b claim by (auto simp: DeadLetter_retry_def split: if_splits option.splits)
    next
      case True
      then obtain delivery where delivery: "claimed" "(if rt_DeliveryID rt = [] then freshID else Some (rt_DeliveryID rt)) = Some delivery"
        by (auto split: if_splits)
      define m where "m = \<lparr>msg_Subject = rt_Subject rt, msg_Data = rt_Payload rt, msg_ID = ''dead-letter-retry-'' @ delivery\<rparr>"
      note run = retry [unfolded DeadLetter_retry_def b option.case fst_conv snd_conv claim sum.case prod.case delivery(2) m_def [symmetric] Let_def]
      show ?thesis
      proof (cases "JetStream_Publish accepted m")
        case False
        then show ?thesis
          using run delivery(1) inv1 Mark_later(1) [of unseal sha ls1 sent]
          by (auto split: sum.splits intro: letters_later_trans)
      next
        case True
        then have data: "rt_Payload rt \<noteq> []" by (simp add: JetStream_Publish_def m_def)
        from claim obtain l where l: "l \<in> set ls" "dl_id l = ident" "dl_state l = ''OPEN''" "rt_Subject rt = dl_subject l"
            "unseal (dl_payload_ciphertext l) = Some (rt_Payload rt)"
          by (cases rule: BeginRetry_Inr) (use data delivery(1) in auto)
        obtain l1 where l1: "l1 \<in> set ls1" "dl_id l1 = ident" "dl_state l1 \<noteq> ''OPEN''" "dl_payload_sha256 l1 = dl_payload_sha256 l"
            "dl_subject l1 = dl_subject l"
          using claim
        proof (cases rule: BeginRetry_Inr)
          case (first l0 d0)
          then show ?thesis using l by (intro that [of "l\<lparr>dl_state := ''RETRY_QUEUED'', dl_retry_delivery_id := d0, dl_retry_attempts := 1,
                   dl_retry_available_at := Some sqlnow, dl_retry_published_at := None, dl_retry_last_error := []\<rparr>"])
              (auto simp: set_sql_update intro!: image_eqI [of _ _ l])
        qed (use data delivery(1) in auto)
        have "ident \<notin> fst ` set sent"
        proof
          assume "ident \<in> fst ` set sent"
          then obtain l2 where "l2 \<in> set ls" "dl_id l2 = ident" "dl_state l2 \<noteq> ''OPEN''" using inv unfolding letter_inv_def by force
          then show False using inv l distinct_map_eq_key [of dl_id ls l2 l] by (auto simp: letter_inv_def)
        qed
        moreover have "sha (rt_Payload rt) = dl_payload_sha256 l" using inv l(1,5) by (auto simp: letter_inv_def letter_ok_def)
        ultimately have inv2: "letter_inv unseal sha (ls1, sent @ [(ident, m)])"
          using inv1 l1 l(4) by (auto simp: letter_inv_def m_def)
        have "letter_inv unseal sha (ls', sent') \<and> letters_later ls1 ls' \<and> sent' = sent @ [(ident, m)]"
          using run True delivery(1) inv2 Mark_later(2) [of unseal sha ls1 "sent @ [(ident, m)]"]
          by (auto split: sum.splits if_splits)
        then show ?thesis using inv1 l(1-3) letters_later_trans by blast
      qed
    qed
  qed
qed

lemma reconcile_step:
  assumes inv: "letter_inv unseal sha (ls, sent)" and rec: "DeadLetter_reconcile body ident (ls, sent) = (r, (ls', sent'))"
  shows "letter_inv unseal sha (ls', sent') \<and> letters_later ls ls' \<and> sent' = sent"
proof -
  have "letter_inv unseal sha (ls1, sent) \<and> letters_later ls ls1" if "Reconcile ident state ls = Inr (c, ls1)" for state c ls1
  proof -
    from that have st: "state \<in> {''RECONCILED'', ''DISCARDED''}"
      and ls1: "ls1 = sql_update (\<lambda>l. dl_id l = ident \<and> (dl_state l = ''OPEN'' \<or> dl_state l = ''RETRY_QUEUED'')) (\<lambda>l. l\<lparr>dl_state := state\<rparr>) ls"
      by (auto simp: Reconcile_def split: if_splits)
    have "letter_later l (l\<lparr>dl_state := state\<rparr>) \<and> letter_ok unseal sha (l\<lparr>dl_state := state\<rparr>)"
      if "l \<in> set ls" "dl_id l = ident \<and> (dl_state l = ''OPEN'' \<or> dl_state l = ''RETRY_QUEUED'')" for l
      using inv that st by (auto simp: letter_later_def letter_ok_def letter_inv_def)
    then show ?thesis unfolding ls1 by (rule letter_change [OF inv])
  qed
  then show ?thesis using rec inv
    by (auto simp: DeadLetter_reconcile_def Let_def split: option.splits if_splits sum.splits)
qed

lemma persist_step:
  assumes law: "\<And>p c. seal p = Some c \<Longrightarrow> unseal c = Some p"
    and inv: "letter_inv unseal sha (ls, sent)" and per: "Persist seal sha newID now rcd ls = Inr ls'"
  shows "letter_inv unseal sha (ls', sent)"
  using per
proof (cases rule: Persist_Inr)
  case (2 l)
  have "letter_ok unseal sha l" using 2 law by (auto simp: letter_ok_def)
  then show ?thesis using inv 2(1,2) by (auto simp: letter_inv_def)
qed (use inv in simp)

lemma letter_step_inv:
  assumes law: "\<And>p c. seal p = Some c \<Longrightarrow> unseal c = Some p"
    and "letter_step seal unseal sha w w'" "letter_inv unseal sha w"
  shows "letter_inv unseal sha w' \<and> letters_later (fst w) (fst w')
     \<and> (snd w' = snd w \<or> (\<exists>ident m l. snd w' = snd w @ [(ident, m)] \<and> l \<in> set (fst w) \<and> dl_id l = ident \<and> dl_state l = ''OPEN''))"
  using assms(2,3)
proof cases
  case (persist newID now rec ls ls' sent)
  then show ?thesis using persist_step [where ls = ls and sent = sent, OF law] Persist_later assms(3) by simp
next
  case (retry newID freshID accepted failure recorded now sqlnow body ident r)
  obtain ls sent ls' sent' where "w = (ls, sent)" "w' = (ls', sent')" by (metis prod.exhaust)
  then show ?thesis using retry_step [of unseal sha ls sent] retry assms(3) by simp blast
next
  case (crash newID now sqlnow ident ls claim ls' sent)
  then show ?thesis using letter_inv_begin [of unseal sha ls sent] assms(3) by (cases claim) simp
next
  case (reconcile body ident r)
  obtain ls sent ls' sent' where "w = (ls, sent)" "w' = (ls', sent')" by (metis prod.exhaust)
  then show ?thesis using reconcile_step [of unseal sha ls sent] reconcile assms(3) by simp
qed

lemma letter_steps_inv:
  assumes law: "\<And>p c. seal p = Some c \<Longrightarrow> unseal c = Some p" and "letter_steps seal unseal sha w w'" "letter_inv unseal sha w"
  shows "letter_inv unseal sha w' \<and> letters_later (fst w) (fst w')"
  using assms(2,3)
proof (induction rule: letter_steps.induct)
  case (more w w1 w2)
  then show ?case using letter_step_inv [OF law more(2)] letters_later_trans by blast
qed simp

section \<open>Retries\<close>


text \<open>A letter that has left the state OPEN without being published stays unpublished.\<close>

lemma claimed_letter_silent:
  assumes law: "\<And>p c. seal p = Some c \<Longrightarrow> unseal c = Some p"
    and "letter_steps seal unseal sha w w'" "letter_inv unseal sha w"
    and "l \<in> set (fst w)" "dl_id l = ident" "dl_state l \<noteq> ''OPEN''" "ident \<notin> fst ` set (snd w)"
  shows "ident \<notin> fst ` set (snd w')"
proof -
  from assms(2-) have "ident \<notin> fst ` set (snd w') \<and> letter_inv unseal sha w' \<and> (\<exists>l' \<in> set (fst w'). dl_id l' = ident \<and> dl_state l' \<noteq> ''OPEN'')"
  proof (induction rule: letter_steps.induct)
    case (more w w1 w2)
    then obtain l1 where l1: "ident \<notin> fst ` set (snd w1)" "letter_inv unseal sha w1" "l1 \<in> set (fst w1)" "dl_id l1 = ident" "dl_state l1 \<noteq> ''OPEN''"
      by blast
    note step = letter_step_inv [OF law more(2) l1(2)]
    obtain l2 where l2: "l2 \<in> set (fst w2)" "letter_later l1 l2" using step l1(3) letters_later_in by blast
    have same: "x = l1" if "x \<in> set (fst w1)" "dl_id x = ident" for x
      using l1 that distinct_map_eq_key [of dl_id "fst w1" x l1] by (simp add: letter_inv_def)
    have "ident \<notin> fst ` set (snd w2)"
    proof (cases "snd w2 = snd w1")
      case True
      then show ?thesis using l1(1) by simp
    next
      case False
      then obtain i m x where "snd w2 = snd w1 @ [(i, m)]" "x \<in> set (fst w1)" "dl_id x = i" "dl_state x = ''OPEN''" using step by blast
      then show ?thesis using same [of x] l1(1,5) by auto
    qed
    moreover have "dl_id l2 = ident" "dl_state l2 \<noteq> ''OPEN''" using l2(2) l1(4,5) by (simp_all add: letter_later_def)
    ultimately show ?case using step l2(1) by blast
  qed blast
  then show ?thesis by blast
qed

text \<open>
  When the publication of the first retry fails, the letter is never published: later retries carry
  no payload, which the queue refuses, until the ten attempts are used up.
\<close>

theorem failed_retry_never_redelivered:
  assumes law: "\<And>p c. seal p = Some c \<Longrightarrow> unseal c = Some p"
    and reach: "letter_steps seal unseal sha ([], []) (ls, sent)"
    and letter: "DeadLetter_Find ident ls = Some l" "dl_state l = ''OPEN''"
    and action: "decodeDeadLetterAction body \<noteq> None" "ident \<noteq> []"
    and failed: "DeadLetter_retry unseal (Some delivery) (Some fresh) False failure recorded now sqlnow body ident (ls, sent) = (r, w)"
    and later: "letter_steps seal unseal sha w w'"
  shows "r = LetterServiceUnavailable \<and> ident \<notin> fst ` set (snd w')"
proof -
  have inv: "letter_inv unseal sha (ls, sent)" using letter_steps_inv [OF law reach] by (simp add: letter_inv_def)
  note l = DeadLetter_Find_Some [OF letter(1)]
  obtain p where p: "unseal (dl_payload_ciphertext l) = Some p" using inv l by (auto simp: letter_inv_def letter_ok_def)
  obtain b where b: "decodeDeadLetterAction body = Some b" using action(1) by auto
  have same: "x = l" if "x \<in> set ls" "dl_id x = ident" for x
    using inv l that distinct_map_eq_key [of dl_id ls x l] by (simp add: letter_inv_def)
  have silent: "ident \<notin> fst ` set sent"
  proof
    assume "ident \<in> fst ` set sent"
    then obtain x where "x \<in> set ls" "dl_id x = ident" "dl_state x \<noteq> ''OPEN''" using inv unfolding letter_inv_def by force
    then show False using same [of x] letter(2) by simp
  qed
  obtain retry ls1 where claim: "BeginRetry unseal (Some delivery) now sqlnow ident ls = Inr ((retry, True), ls1)"
    using letter action(2) p by (simp add: BeginRetry_def Let_def)
  have "\<exists>l1 \<in> set ls1. dl_id l1 = ident \<and> dl_state l1 \<noteq> ''OPEN''"
    using claim
  proof (cases rule: BeginRetry_Inr)
    case (again l0)
    then show ?thesis using same [of l0] letter(2) by simp
  next
    case (first l0 d0)
    then show ?thesis by (auto simp: set_sql_update intro!: bexI [of _ "l0\<lparr>dl_state := ''RETRY_QUEUED'', dl_retry_delivery_id := d0, dl_retry_attempts := 1,
                   dl_retry_available_at := Some sqlnow, dl_retry_published_at := None, dl_retry_last_error := []\<rparr>"] image_eqI [of _ _ l0])
  qed simp
  then obtain l1 where l1: "l1 \<in> set ls1" "dl_id l1 = ident" "dl_state l1 \<noteq> ''OPEN''" by blast
  note inv1 = letter_inv_begin [OF inv claim]
  from failed b claim obtain ls2 where w: "w = (ls2, sent)" "r = LetterServiceUnavailable"
    and ls2: "ls2 = ls1 \<or> (\<exists>t. MarkRetryFailed ident failure t ls1 = Inr ls2)"
    by (auto simp: DeadLetter_retry_def JetStream_Publish_def Let_def split: if_split_asm option.split_asm sum.split_asm)
  have inv2: "letter_inv unseal sha w \<and> letters_later ls1 ls2" using ls2 inv1 Mark_later(1) [of unseal sha ls1 sent] w(1) by auto
  then obtain l2 where l2: "l2 \<in> set ls2" "letter_later l1 l2" using l1(1) letters_later_in by blast
  have "dl_id l2 = ident" "dl_state l2 \<noteq> ''OPEN''" using l2(2) l1(2,3) by (simp_all add: letter_later_def)
  then have "ident \<notin> fst ` set (snd w')"
    by (intro claimed_letter_silent [OF law later, of l2]) (use inv2 l2(1) w(1) silent in simp_all)
  then show ?thesis using w(2) by simp
qed

section \<open>Deliveries\<close>

text \<open>
  The consumer of one message. The broker delivers it again until it is settled, at most
  \<open>MaxDeliver\<close> times. \<open>received\<close> is whether an acknowledgement reaches the broker.
\<close>

inductive delivery_step ::
  "(DeadLetterRecord \<Rightarrow> letters \<Rightarrow> letter_error + letters) \<Rightarrow> Message \<Rightarrow> nat \<times> bool \<times> letters \<Rightarrow> nat \<times> bool \<times> letters \<Rightarrow> bool"
  for sink m where
  deliver: "n < MaxDeliver \<Longrightarrow> md_NumDelivered md = int n + 1
    \<Longrightarrow> processMessage sink notice now (Some md) correlation m handlerErr ls = (ack, ls')
    \<Longrightarrow> delivery_step sink m (n, False, ls) (n + 1, ack \<noteq> Nak \<and> received, ls')"

inductive_cases delivery_stepE: "delivery_step sink m (n, settled, ls) s'"

text \<open>
  A message that its handler has refused five times is in the table of dead letters, or it is lost:
  when the table cannot be written the message is handed back to a broker that has used up its
  deliveries.
\<close>

theorem failed_message_fate:
  assumes "md_NumDelivered md = 5"
    and "processMessage (Persist seal sha newID clock) notice now (Some md) correlation m (Some e) ls = (ack, ls')"
  shows "\<not> (\<exists>s'. delivery_step (Persist seal sha newID clock) m (5, ack \<noteq> Nak \<and> received, ls') s')
     \<and> (if \<exists>ls1. Persist seal sha newID clock (failed_record now md correlation m e) ls = Inr ls1
        then \<exists>l \<in> set ls'. dl_message_id l = dr_MessageID (failed_record now md correlation m e)
               \<and> dl_stream l = md_Stream md \<and> dl_consumer l = md_Consumer md
        else ack = Nak \<and> ls' = ls)"
proof -
  let ?rcd = "failed_record now md correlation m e"
  have stuck: "\<not> (\<exists>s'. delivery_step (Persist seal sha newID clock) m (5, x, ls') s')" for x
    by (auto elim: delivery_stepE simp: MaxDeliver_def)
  show ?thesis
  proof (cases "Persist seal sha newID clock ?rcd ls")
    case (Inl err)
    then show ?thesis using assms stuck by (simp add: processMessage_def handleFailedMessage_def)
  next
    case (Inr ls1)
    then have "ls' = ls1" using assms by (auto simp: processMessage_def handleFailedMessage_def split: option.splits prod.splits bool.splits)
    moreover have "\<exists>l \<in> set ls1. dl_message_id l = dr_MessageID ?rcd \<and> dl_stream l = dr_Stream ?rcd \<and> dl_consumer l = dr_Consumer ?rcd"
      using Inr unfolding Persist_def Let_def by (auto simp: list_ex_iff split: if_split_asm option.split_asm)
    moreover have "dr_Stream ?rcd = md_Stream md" "dr_Consumer ?rcd = md_Consumer md" by (simp_all add: failed_record_def)
    ultimately show ?thesis using Inr stuck by auto
  qed
qed

section \<open>A message and its history\<close>

definition sample_message :: Message where
  "sample_message = \<lparr>msg_Subject = ''glyphflow.events.runner'', msg_Data = [1, 2, 3], msg_ID = ''event-1''\<rparr>"

definition sample_metadata :: metadata where
  "sample_metadata = \<lparr>md_Stream = ''glyphflow'', md_Consumer = ''events'', md_NumDelivered = 5, md_Timestamp = 100, md_Sequence = 7\<rparr>"

definition sample_sink :: "DeadLetterRecord \<Rightarrow> letters \<Rightarrow> letter_error + letters" where
  "sample_sink = Persist Some text_of (Some ''dead-letter-1'') 200"

definition sample_letters :: letters where
  "sample_letters = snd (processMessage sample_sink True 200 (Some sample_metadata) [] sample_message (Some ''refused'') [])"

definition operator_reason :: "(string \<times> string) option" where
  "operator_reason = Some (''network is back'', [])"

definition retried :: "bool \<Rightarrow> letter_response \<times> letter_world" where
  "retried accepted = DeadLetter_retry Some (Some ''d1'') (Some ''d2'') accepted ''no broker'' True 300 300 operator_reason ''dead-letter-1'' (sample_letters, [])"

definition retried_again :: "letter_response \<times> letter_world" where
  "retried_again = DeadLetter_retry Some (Some ''d3'') (Some ''d4'') True [] True 5000000000 300 operator_reason ''dead-letter-1'' (snd (retried False))"

lemma sample_persisted:
  "Persist Some text_of (Some ''dead-letter-1'') 200 (failed_record 200 sample_metadata [] sample_message ''refused'') [] = Inr sample_letters"
  by code_simp

lemma sample_open: "\<exists>l. DeadLetter_Find ''dead-letter-1'' sample_letters = Some l \<and> dl_state l = ''OPEN''"
proof -
  have "map_option dl_state (DeadLetter_Find ''dead-letter-1'' sample_letters) = Some ''OPEN''" by code_simp
  then show ?thesis by (cases "DeadLetter_Find ''dead-letter-1'' sample_letters") simp_all
qed

lemma sample_history: "letter_steps Some Some text_of ([], []) (sample_letters, [])"
  by (rule letter_steps.more [OF letter_steps.none]) (rule letter_step.persist [OF sample_persisted])

lemma sample_retry: "letter_step Some Some text_of (sample_letters, []) (snd (retried accepted))"
  by (rule letter_step.retry [of _ "Some ''d1''" "Some ''d2''" accepted "''no broker''" True 300 300 operator_reason "''dead-letter-1''" _
        "fst (retried accepted)"]) (simp add: retried_def)

lemma sample_again: "letter_step Some Some text_of (snd (retried False)) (snd retried_again)"
  by (rule letter_step.retry [of _ "Some ''d3''" "Some ''d4''" True "[]" True 5000000000 300 operator_reason "''dead-letter-1''" _
        "fst retried_again"]) (simp add: retried_again_def)


theorem failed_retry_never_redelivered_witness:
  "fst (retried False) = LetterServiceUnavailable \<and> ''dead-letter-1'' \<notin> fst ` set (snd (snd retried_again))"
proof -
  obtain l where l: "DeadLetter_Find ''dead-letter-1'' sample_letters = Some l" "dl_state l = ''OPEN''" using sample_open by blast
  have body: "decodeDeadLetterAction operator_reason \<noteq> None" by code_simp
  have run: "DeadLetter_retry Some (Some ''d1'') (Some ''d2'') False ''no broker'' True 300 300 operator_reason ''dead-letter-1''
      (sample_letters, []) = (fst (retried False), snd (retried False))" by (simp add: retried_def)
  show ?thesis
    by (rule failed_retry_never_redelivered [OF _ sample_history l body _ run letter_steps.more [OF letter_steps.none sample_again]]) simp_all
qed

theorem failed_message_fate_witness:
  "fst (processMessage sample_sink True 200 (Some sample_metadata) [] sample_message (Some ''refused'') []) = Ack
   \<and> \<not> (\<exists>s'. delivery_step sample_sink sample_message (5, True, sample_letters) s')
   \<and> (\<exists>l \<in> set sample_letters. dl_message_id l = ''event-1'')"
proof (intro conjI)
  show ack: "fst (processMessage sample_sink True 200 (Some sample_metadata) [] sample_message (Some ''refused'') []) = Ack" by code_simp
  have ok: "\<exists>ls1. sample_sink (failed_record 200 sample_metadata [] sample_message ''refused'') [] = Inr ls1"
    using sample_persisted by (auto simp: sample_sink_def)
  have ident: "dr_MessageID (failed_record 200 sample_metadata [] sample_message ''refused'') = ''event-1''" by code_simp
  have five: "md_NumDelivered sample_metadata = 5" by code_simp
  have run: "processMessage sample_sink True 200 (Some sample_metadata) [] sample_message (Some ''refused'') [] = (Ack, sample_letters)"
    using ack by (simp add: sample_letters_def prod_eq_iff)
  note fate = failed_message_fate [OF five run [unfolded sample_sink_def], of True]
  show "\<not> (\<exists>s'. delivery_step sample_sink sample_message (5, True, sample_letters) s')"
    using fate by (simp add: sample_sink_def)
  show "\<exists>l \<in> set sample_letters. dl_message_id l = ''event-1''"
    using fate ok ident by (auto simp: sample_sink_def)
qed

end
