(* ===== verification/Passwords.thy ===== *)
theory Passwords
  imports Texts
begin

text \<open>
  Passwords and their hashes (\<^verbatim>\<open>platform/password.go\<close>). Argon2id and HMAC-SHA-256 are parameters; the
  encoded hash is written and parsed byte for byte.
\<close>

section \<open>The hasher\<close>

record PasswordHasher =
  ph_Time :: nat
  ph_Memory :: nat
  ph_Threads :: nat
  ph_KeyLen :: nat
  ph_SaltLen :: nat
  ph_Pepper :: bytes

text \<open>
  \<open>argon password salt time memory threads keyLen\<close> is \<^verbatim>\<open>argon2.IDKey\<close>; it panics when the number of
  passes or of threads is zero. \<open>hmac key message\<close> is HMAC-SHA-256.
\<close>

record password_lib =
  argon :: "bytes \<Rightarrow> bytes \<Rightarrow> nat \<Rightarrow> nat \<Rightarrow> nat \<Rightarrow> nat \<Rightarrow> bytes"
  hmac :: "bytes \<Rightarrow> bytes \<Rightarrow> bytes"

definition DefaultPasswordHasher :: "bytes \<Rightarrow> PasswordHasher" where
  "DefaultPasswordHasher pepper =
     \<lparr>ph_Time = 2, ph_Memory = 64 * 1024, ph_Threads = 2, ph_KeyLen = 32, ph_SaltLen = 16, ph_Pepper = pepper\<rparr>"

datatype password_error =
    PasswordShort | PasswordControl | PasswordEmpty | HasherParameters | HasherRandom | HashMalformed | HashPanic

definition IsControl :: "nat \<Rightarrow> bool" where
  "IsControl r \<longleftrightarrow> r < 32 \<or> 127 \<le> r \<and> r < 160"

definition ValidatePassword :: "string \<Rightarrow> password_error + unit" where
  "ValidatePassword password =
     (if length (runes password) < 8 then Inl PasswordShort
      else if list_ex IsControl (runes password) then Inl PasswordControl
      else Inr ())"

definition hasher_validate :: "PasswordHasher \<Rightarrow> bool" where
  "hasher_validate h \<longleftrightarrow>
     \<not> (ph_Time h = 0 \<or> ph_Memory h < 8 * ph_Threads h \<or> ph_Threads h = 0 \<or> ph_KeyLen h = 0 \<or> ph_SaltLen h < 16)"

definition pepperInput :: "password_lib \<Rightarrow> PasswordHasher \<Rightarrow> string \<Rightarrow> bytes" where
  "pepperInput L h password = hmac L (ph_Pepper h) (bytes_of password)"

definition encoded_hash :: "PasswordHasher \<Rightarrow> bytes \<Rightarrow> bytes \<Rightarrow> string" where
  "encoded_hash h salt key =
     ''$argon2id$v=19$m='' @ show_nat (ph_Memory h) @ '',t='' @ show_nat (ph_Time h) @ '',p='' @ show_nat (ph_Threads h)
       @ ''$'' @ raw_encode salt @ ''$'' @ raw_encode key"

text \<open>\<open>salt\<close> is what the random source yields, of the length of the hasher.\<close>

definition Hash :: "password_lib \<Rightarrow> PasswordHasher \<Rightarrow> bytes option \<Rightarrow> string \<Rightarrow> password_error + string" where
  "Hash L h salt password =
     (if password = [] then Inl PasswordEmpty
      else if \<not> hasher_validate h then Inl HasherParameters
      else (case salt of
              None \<Rightarrow> Inl HasherRandom
            | Some bs \<Rightarrow>
                Inr (encoded_hash h bs (argon L (pepperInput L h password) bs (ph_Time h) (ph_Memory h) (ph_Threads h) (ph_KeyLen h)))))"

text \<open>\<^verbatim>\<open>strconv.ParseUint(s, 10, 32)\<close>\<close>

definition ParseUint32 :: "string \<Rightarrow> nat option" where
  "ParseUint32 s =
     (if s = [] then None
      else (case digits_value 0 s of None \<Rightarrow> None | Some n \<Rightarrow> if n < 2 ^ 32 then Some n else None))"

fun hash_params :: "(string, nat) gomap \<Rightarrow> string list \<Rightarrow> (string, nat) gomap option" where
  "hash_params m [] = Some m"
| "hash_params m (item # items) =
     (case cut (CHR ''='') item of
        None \<Rightarrow> None
      | Some (key, digits) \<Rightarrow>
          (case ParseUint32 digits of None \<Rightarrow> None | Some n \<Rightarrow> hash_params (AList.update key n m) items))"

definition Verify_password :: "password_lib \<Rightarrow> PasswordHasher \<Rightarrow> string \<Rightarrow> string \<Rightarrow> password_error + bool" where
  "Verify_password L h encoded password =
     (let parts = Split (CHR ''$'') encoded
      in if length parts \<noteq> 6 \<or> parts ! 1 \<noteq> ''argon2id'' \<or> parts ! 2 \<noteq> ''v=19'' then Inl HashMalformed
         else (case hash_params [] (Split (CHR '','') (parts ! 3)) of
                 None \<Rightarrow> Inl HashMalformed
               | Some params \<Rightarrow>
                   (case (map_of params ''t'', map_of params ''m'', map_of params ''p'', raw_decode (parts ! 4), raw_decode (parts ! 5)) of
                      (Some t, Some m, Some p, Some salt, Some want) \<Rightarrow>
                        (if length salt < 16 \<or> want = [] \<or> t = 0 \<or> m = 0 \<or> p = 0 then Inl HashMalformed
                         else if p mod 256 = 0 then Inl HashPanic
                         else Inr (argon L (pepperInput L h password) salt t m (p mod 256) (length want) = want))
                    | _ \<Rightarrow> Inl HashMalformed)))"

fun param_texts :: "(string, string) gomap \<Rightarrow> string list \<Rightarrow> (string, string) gomap" where
  "param_texts m [] = m"
| "param_texts m (item # items) =
     param_texts (case cut (CHR ''='') item of None \<Rightarrow> m | Some (key, v) \<Rightarrow> AList.update key v m) items"

definition NeedsRehash :: "PasswordHasher \<Rightarrow> string \<Rightarrow> bool" where
  "NeedsRehash h encoded \<longleftrightarrow>
     (let parts = Split (CHR ''$'') encoded
      in if length parts \<noteq> 6 \<or> parts ! 1 \<noteq> ''argon2id'' \<or> parts ! 2 \<noteq> ''v=19'' then True
         else (let params = param_texts [] (Split (CHR '','') (parts ! 3))
               in get_or [] params ''m'' \<noteq> show_nat (ph_Memory h) \<or> get_or [] params ''t'' \<noteq> show_nat (ph_Time h)
                  \<or> get_or [] params ''p'' \<noteq> show_nat (ph_Threads h)))"

text \<open>
  The check of the column \<^verbatim>\<open>user_passwords.password_hash\<close>:
  \<^verbatim>\<open>^\$argon2id\$v=19\$m=[0-9]+,t=[0-9]+,p=[0-9]+\$[^$]+\$[^$]+$\<close>.
\<close>

definition digits_after :: "string \<Rightarrow> string \<Rightarrow> bool" where
  "digits_after key s \<longleftrightarrow> take (length key) s = key \<and> drop (length key) s \<noteq> [] \<and> list_all is_digit (drop (length key) s)"

definition password_shape :: "string \<Rightarrow> bool" where
  "password_shape s \<longleftrightarrow>
     (let parts = Split (CHR ''$'') s
      in length parts = 6 \<and> parts ! 0 = [] \<and> parts ! 1 = ''argon2id'' \<and> parts ! 2 = ''v=19''
         \<and> (let ps = Split (CHR '','') (parts ! 3)
            in length ps = 3 \<and> digits_after ''m='' (ps ! 0) \<and> digits_after ''t='' (ps ! 1) \<and> digits_after ''p='' (ps ! 2))
         \<and> parts ! 4 \<noteq> [] \<and> parts ! 5 \<noteq> [])"

section \<open>What a hash verifies\<close>

lemma encoded_parts:
  assumes "raw_encode salt \<noteq> []"
  shows "Split (CHR ''$'') (encoded_hash h salt key) =
     [[], ''argon2id'', ''v=19'', ''m='' @ show_nat (ph_Memory h) @ '',t='' @ show_nat (ph_Time h) @ '',p='' @ show_nat (ph_Threads h),
      raw_encode salt, raw_encode key]"
proof -
  have digits: "CHR ''$'' \<notin> set (show_nat n)" for n
    using show_nat_digits [of "CHR ''$''" n] by (auto simp: is_digit_def less_eq_char_def)
  have codes: "CHR ''$'' \<notin> set (raw_encode bs)" for bs using raw_encode_clean b64_char_clean(5) by metis
  define params where "params = ''m='' @ show_nat (ph_Memory h) @ '',t='' @ show_nat (ph_Time h) @ '',p='' @ show_nat (ph_Threads h)"
  have free: "CHR ''$'' \<notin> set params" using digits by (simp add: params_def)
  have "encoded_hash h salt key = [] @ CHR ''$'' # ''argon2id'' @ CHR ''$'' # ''v=19'' @ CHR ''$'' # params @ CHR ''$'' # raw_encode salt @ CHR ''$'' # raw_encode key"
    by (simp add: encoded_hash_def params_def)
  then show ?thesis
    using free codes by (simp only: Split_sep Split_no_sep params_def [symmetric] list.set set_append) (simp add: Split_sep Split_no_sep)
qed

lemma show_nat_free: "\<not> is_digit c \<Longrightarrow> c \<notin> set (show_nat n)"
  using show_nat_digits by blast

lemma param_list:
  "Split (CHR '','') (''m='' @ show_nat m @ '',t='' @ show_nat t @ '',p='' @ show_nat p) =
     [''m='' @ show_nat m, ''t='' @ show_nat t, ''p='' @ show_nat p]"
proof -
  have comma: "CHR '','' \<notin> set (show_nat n)" for n by (rule show_nat_free) (simp add: is_digit_def less_eq_char_def)
  have "''m='' @ show_nat m @ '',t='' @ show_nat t @ '',p='' @ show_nat p
      = (''m='' @ show_nat m) @ CHR '','' # (''t='' @ show_nat t) @ CHR '','' # (''p='' @ show_nat p)" by simp
  then show ?thesis using comma by (simp only: Split_sep Split_no_sep list.set set_append) (simp add: Split_sep Split_no_sep)
qed

lemma cut_param: "cut (CHR ''='') (k # CHR ''='' # s) = (if k = CHR ''='' then Some ([], CHR ''='' # s) else Some ([k], s))"
  by simp

lemma ParseUint32_show: "n < 2 ^ 32 \<Longrightarrow> ParseUint32 (show_nat n) = Some n"
  by (simp add: ParseUint32_def digits_value_show)

lemma hash_params_list:
  assumes "m < 2 ^ 32" "t < 2 ^ 32" "p < 2 ^ 32"
  shows "hash_params [] [''m='' @ show_nat m, ''t='' @ show_nat t, ''p='' @ show_nat p] = Some [(''m'', m), (''t'', t), (''p'', p)]"
  using assms by (simp add: ParseUint32_show)

lemma digits_after_show: "digits_after [k, CHR ''=''] ([k, CHR ''=''] @ show_nat n)"
  using show_nat_digits by (auto simp: digits_after_def list_all_iff)

lemma raw_encode_Nil [simp]: "raw_encode bs = [] \<longleftrightarrow> bs = []"
  by (metis raw_decode_encode option.inject b64_encode.simps(1) filter.simps(1) raw_encode_def)

text \<open>
  C39. A hash that was made verifies its own password, and it verifies another password only if Argon2id
  gives both the same key under the same salt. It needs no rehash under the parameters it was made
  with, and the table of passwords accepts it.
\<close>

theorem password_roundtrip:
  assumes "Hash L h (Some salt) password = Inr encoded" "length salt = ph_SaltLen h"
    and "\<And>pw s t m p n. length (argon L pw s t m p n) = n"
    and "ph_Time h < 2 ^ 32" "ph_Memory h < 2 ^ 32" "ph_Threads h < 2 ^ 8"
  shows "Verify_password L h encoded password = Inr True
    \<and> Verify_password L h encoded other = Inr (argon L (pepperInput L h other) salt (ph_Time h) (ph_Memory h) (ph_Threads h) (ph_KeyLen h)
         = argon L (pepperInput L h password) salt (ph_Time h) (ph_Memory h) (ph_Threads h) (ph_KeyLen h))
    \<and> \<not> NeedsRehash h encoded \<and> password_shape encoded"
proof -
  define key where "key = argon L (pepperInput L h password) salt (ph_Time h) (ph_Memory h) (ph_Threads h) (ph_KeyLen h)"
  have valid: "hasher_validate h" and enc: "encoded = encoded_hash h salt key"
    using assms(1) by (auto simp: Hash_def key_def split: if_splits)
  have pos: "ph_Time h \<noteq> 0" "ph_Memory h \<noteq> 0" "ph_Threads h \<noteq> 0" "16 \<le> length salt" "length key \<noteq> 0" "length key = ph_KeyLen h"
    using valid assms(2,3) by (auto simp: hasher_validate_def key_def)
  have salt: "salt \<noteq> []" and key: "key \<noteq> []" using pos by auto
  have threads: "ph_Threads h < 2 ^ 32" "ph_Threads h mod 256 = ph_Threads h" using assms(6) by simp_all
  note parts = encoded_parts [of salt h key, simplified, OF salt, folded enc, unfolded append.simps]
  have verify: "Verify_password L h encoded pw = Inr (argon L (pepperInput L h pw) salt (ph_Time h) (ph_Memory h) (ph_Threads h) (ph_KeyLen h) = key)" for pw
    using pos key threads(2) hash_params_list [OF assms(4,5) , of "ph_Memory h"] hash_params_list [OF assms(5,4) threads(1)] param_list [of "ph_Memory h" "ph_Time h" "ph_Threads h"]
    by (simp add: Verify_password_def parts Let_def raw_decode_encode)
  have "\<not> NeedsRehash h encoded"
    using param_list [of "ph_Memory h" "ph_Time h" "ph_Threads h"] by (simp add: NeedsRehash_def parts Let_def get_or_def)
  moreover have "password_shape encoded"
    using param_list [of "ph_Memory h" "ph_Time h" "ph_Threads h"] salt key digits_after_show
    by (simp add: password_shape_def parts Let_def)
  ultimately show ?thesis using verify [of password] verify [of other] unfolding key_def by simp
qed

text \<open>A hash in the database whose number of threads is a multiple of 256 stops the process.\<close>

lemma thread_count_panics: "Verify_password L h ''$argon2id$v=19$m=8,t=1,p=256$AAAAAAAAAAAAAAAAAAAAAA$AA'' password = Inl HashPanic"
proof -
  define s where "s = ''$argon2id$v=19$m=8,t=1,p=256$AAAAAAAAAAAAAAAAAAAAAA$AA''"
  have "Split (CHR ''$'') s = [[], ''argon2id'', ''v=19'', ''m=8,t=1,p=256'', ''AAAAAAAAAAAAAAAAAAAAAA'', ''AA'']" unfolding s_def by code_simp
  moreover have "hash_params [] (Split (CHR '','') ''m=8,t=1,p=256'') = Some [(''m'', 8), (''t'', 1), (''p'', 256)]"
    by (simp add: ParseUint32_def is_digit_def digit_val_def less_eq_char_def)
  moreover have "raw_decode ''AAAAAAAAAAAAAAAAAAAAAA'' = Some (replicate 16 0)" "raw_decode ''AA'' = Some [0]" by code_simp+
  ultimately show ?thesis unfolding s_def [symmetric] by (simp add: Verify_password_def Let_def)
qed

definition toy_lib :: password_lib where
  "toy_lib = \<lparr>argon = \<lambda>pw s t m p n. take n (pw @ s @ replicate n 0), hmac = \<lambda>k m. m\<rparr>"

theorem password_roundtrip_witness:
  "\<exists>encoded. Hash toy_lib (DefaultPasswordHasher []) (Some (replicate 16 1)) ''correct horse'' = Inr encoded
     \<and> Verify_password toy_lib (DefaultPasswordHasher []) encoded ''correct horse'' = Inr True"
proof -
  define encoded where "encoded = projr (Hash toy_lib (DefaultPasswordHasher []) (Some (replicate 16 1)) ''correct horse'')"
  have "Hash toy_lib (DefaultPasswordHasher []) (Some (replicate 16 1)) ''correct horse'' = Inr encoded"
    by (simp add: encoded_def Hash_def hasher_validate_def DefaultPasswordHasher_def)
  moreover have "length (argon toy_lib pw s t m p n) = n" for pw s t m p n by (simp add: toy_lib_def)
  ultimately show ?thesis
    using password_roundtrip [of toy_lib "DefaultPasswordHasher []" "replicate 16 1" "''correct horse''" encoded]
    by (simp add: DefaultPasswordHasher_def)
qed

end
