(* ===== verification/Accounts.thy ===== *)
theory Accounts
  imports Database Texts Passwords "HOL-Library.Product_Lexorder"
begin

text \<open>
  The stores of users, roles, sign-on providers and sign-in sessions (\<^verbatim>\<open>store/users.go\<close>,
  \<^verbatim>\<open>store/roles.go\<close>, \<^verbatim>\<open>store/sessions.go\<close>, \<^verbatim>\<open>store/sso.go\<close>, \<^verbatim>\<open>store/config.go\<close>). A method is a function from the
  tables to an error, which rolls back, or a result with the new tables; the checks, unique indexes and
  foreign keys of \<^verbatim>\<open>migrations/001_canonical.sql\<close> are errors of the statement that violates them.
  \<open>clock\<close> is \<^verbatim>\<open>time.Now()\<close> of the process, \<open>now\<close> is \<^verbatim>\<open>now()\<close> of the database.
\<close>

section \<open>Tables\<close>

record user_row =
  us_id :: string
  us_username :: string
  us_email :: string
  us_display_name :: string
  us_status :: string

record signin_row =
  ss_id :: string
  ss_user_id :: string
  ss_refresh_token_hash :: string
  ss_access_expires_at :: time
  ss_refresh_expires_at :: time
  ss_family_id :: string
  ss_user_agent :: string
  ss_ip_address :: string
  ss_last_seen_at :: time
  ss_created_at :: time
  ss_revoked_at :: "time option"

record role_row =
  ro_id :: string
  ro_name :: string
  ro_description :: string
  ro_is_system :: bool

record assignment_row =
  ra_user_id :: string
  ra_role_id :: string
  ra_source_type :: string
  ra_source_key :: string

record provider_row =
  pv_id :: string
  pv_name :: string
  pv_issuer :: string
  pv_client_id :: string
  pv_callback_urls :: "string list"
  pv_auth_endpoint_override :: string
  pv_audience :: string
  pv_enabled :: bool
  pv_auto_provision :: bool

record identity_row =
  si_id :: string
  si_user_id :: string
  si_provider_id :: string
  si_subject :: string

record mapping_row =
  gm_provider_id :: string
  gm_group_name :: string
  gm_role_id :: string

record accounts =
  acc_users :: "user_row list"
  acc_passwords :: "(string \<times> string) list"
  acc_sessions :: "signin_row list"
  acc_roles :: "role_row list"
  acc_permissions :: "(string \<times> string) list"
  acc_role_permissions :: "(string \<times> string) list"
  acc_assignments :: "assignment_row list"
  acc_providers :: "provider_row list"
  acc_identities :: "identity_row list"
  acc_mappings :: "mapping_row list"
  acc_config :: "(string \<times> json) list"

datatype account_error =
    AccountConstraint | AccountStatusInvalid | AccountNoRows | RoleNotFound | RoleImmutable | AssignmentNotFound
  | IdentityNotFound | MappingNotFound | SessionInvalid | SessionReplay | SessionCutoff | ConfigNotAllowed | DefaultRoleNotFound

type_synonym 'r account_tx = "accounts \<Rightarrow> account_error + 'r \<times> accounts"

section \<open>Users\<close>

definition StatusActive :: string where "StatusActive = ''active''"
definition StatusPending :: string where "StatusPending = ''pending''"
definition StatusDisabled :: string where "StatusDisabled = ''disabled''"

record UserRecord =
  ur_ID :: string
  ur_Username :: string
  ur_Email :: string
  ur_DisplayName :: string
  ur_Status :: string
  ur_Enabled :: bool

definition capitalise :: "string \<Rightarrow> string" where
  "capitalise s = (case ToLower s of [] \<Rightarrow> [] | c # cs \<Rightarrow> upper_char c # cs)"

definition join_spaces :: "string list \<Rightarrow> string" where
  "join_spaces parts = (case parts of [] \<Rightarrow> [] | p # ps \<Rightarrow> p @ concat (map (\<lambda>q. CHR '' '' # q) ps))"

definition DefaultUserDisplayName :: "string \<Rightarrow> string" where
  "DefaultUserDisplayName email =
     (let local_part = TrimSpace (hd (Split (CHR ''@'') email));
          parts = FieldsFunc (\<lambda>c. c = CHR ''.'' \<or> c = CHR ''-'') local_part
      in if parts = [] then ''User'' else join_spaces (map capitalise parts))"

definition NormalizeDisplayName :: "string \<Rightarrow> string \<Rightarrow> string" where
  "NormalizeDisplayName email displayName =
     (if TrimSpace displayName \<noteq> [] then TrimSpace displayName else DefaultUserDisplayName email)"

definition ValidUserStatus :: "string \<Rightarrow> bool" where
  "ValidUserStatus status \<longleftrightarrow> ToLower (TrimSpace status) \<in> {StatusActive, StatusPending, StatusDisabled}"

definition userStatus :: "UserRecord \<Rightarrow> string option" where
  "userStatus user =
     (let status = ToLower (TrimSpace (ur_Status user))
      in if status = [] then Some (if ur_Enabled user then StatusActive else StatusDisabled)
         else if \<not> ValidUserStatus status then None
         else Some status)"

definition user_of :: "user_row \<Rightarrow> UserRecord" where
  "user_of u =
     \<lparr>ur_ID = us_id u, ur_Username = us_username u, ur_Email = us_email u, ur_DisplayName = us_display_name u,
      ur_Status = us_status u, ur_Enabled = (us_status u = StatusActive)\<rparr>"

definition user_ok :: "user_row \<Rightarrow> accounts \<Rightarrow> bool" where
  "user_ok u d \<longleftrightarrow>
     us_email u \<noteq> [] \<and> us_email u = ToLower (btrim (us_email u)) \<and> us_username u \<noteq> [] \<and> us_username u = ToLower (btrim (us_username u))
     \<and> us_status u \<in> {StatusActive, StatusPending, StatusDisabled}
     \<and> \<not> list_ex (\<lambda>v. us_id v = us_id u \<or> ToLower (us_username v) = ToLower (us_username u) \<or> ToLower (us_email v) = ToLower (us_email u)) (acc_users d)"

definition insert_user :: "UserRecord \<Rightarrow> string \<Rightarrow> accounts \<Rightarrow> account_error + accounts" where
  "insert_user user status d =
     (let u = \<lparr>us_id = ur_ID user, us_username = ur_Username user, us_email = ur_Email user,
               us_display_name = NormalizeDisplayName (ur_Email user) (ur_DisplayName user), us_status = status\<rparr>
      in if user_ok u d then Inr (d\<lparr>acc_users := acc_users d @ [u]\<rparr>) else Inl AccountConstraint)"

definition insert_password :: "string \<Rightarrow> string \<Rightarrow> accounts \<Rightarrow> account_error + accounts" where
  "insert_password ident hash d =
     (if hash = [] then Inr d
      else if password_shape hash \<and> map_of (acc_passwords d) ident = None \<and> list_ex (\<lambda>u. us_id u = ident) (acc_users d)
      then Inr (d\<lparr>acc_passwords := acc_passwords d @ [(ident, hash)]\<rparr>)
      else Inl AccountConstraint)"

text \<open>\<^verbatim>\<open>INSERT INTO role_assignments\<close>, without and with \<^verbatim>\<open>ON CONFLICT DO NOTHING\<close>.\<close>

definition insert_assignment :: "bool \<Rightarrow> assignment_row \<Rightarrow> accounts \<Rightarrow> account_error + accounts" where
  "insert_assignment skip a d =
     (if a \<in> set (acc_assignments d) then (if skip then Inr d else Inl AccountConstraint)
      else if list_ex (\<lambda>u. us_id u = ra_user_id a) (acc_users d) \<and> list_ex (\<lambda>r. ro_id r = ra_role_id a) (acc_roles d)
      then Inr (d\<lparr>acc_assignments := acc_assignments d @ [a]\<rparr>)
      else Inl AccountConstraint)"

definition User_Create :: "UserRecord \<Rightarrow> string \<Rightarrow> unit account_tx" where
  "User_Create user passwordHash d =
     (case userStatus user of
        None \<Rightarrow> Inl AccountStatusInvalid
      | Some status \<Rightarrow>
          res_bind (insert_user user status d) (\<lambda>d1.
          res_bind (insert_password (ur_ID user) passwordHash d1) (\<lambda>d2. Inr ((), d2))))"

text \<open>The roles a new account starts with.\<close>

definition first_roles :: "string \<Rightarrow> string \<Rightarrow> string \<Rightarrow> accounts \<Rightarrow> account_error + accounts" where
  "first_roles ident defaultRoleID adminRoleID d =
     res_bind (insert_assignment False \<lparr>ra_user_id = ident, ra_role_id = defaultRoleID, ra_source_type = ''default'', ra_source_key = defaultRoleID\<rparr> d) (\<lambda>d1.
       if adminRoleID = [] then Inr d1
       else insert_assignment False \<lparr>ra_user_id = ident, ra_role_id = adminRoleID, ra_source_type = ''system-admin'', ra_source_key = ident\<rparr> d1)"

definition ProvisionLocal :: "UserRecord \<Rightarrow> string \<Rightarrow> string \<Rightarrow> string \<Rightarrow> unit account_tx" where
  "ProvisionLocal user passwordHash defaultRoleID adminRoleID d =
     (case userStatus user of
        None \<Rightarrow> Inl AccountStatusInvalid
      | Some status \<Rightarrow>
          res_bind (insert_user user status d) (\<lambda>d1.
          res_bind (insert_password (ur_ID user) passwordHash d1) (\<lambda>d2.
          res_bind (first_roles (ur_ID user) defaultRoleID adminRoleID d2) (\<lambda>d3. Inr ((), d3)))))"

definition User_FindByID :: "string \<Rightarrow> accounts \<Rightarrow> UserRecord option" where
  "User_FindByID ident d = map_option user_of (find_row (\<lambda>u. us_id u = ident) (acc_users d))"

definition User_FindByEmail :: "string \<Rightarrow> accounts \<Rightarrow> UserRecord option" where
  "User_FindByEmail email d = map_option user_of (find_row (\<lambda>u. ToLower (us_email u) = ToLower email) (acc_users d))"

definition User_List :: "string \<Rightarrow> accounts \<Rightarrow> account_error + UserRecord list" where
  "User_List status0 d =
     (let status = ToLower (TrimSpace status0)
      in if status \<noteq> [] \<and> \<not> ValidUserStatus status then Inl AccountStatusInvalid
         else Inr (map user_of (sort_key (\<lambda>u. (ToLower (us_username u), us_id u))
                     (filter (\<lambda>u. status = [] \<or> us_status u = status) (acc_users d)))))"

definition has_role_named :: "string \<Rightarrow> string \<Rightarrow> accounts \<Rightarrow> bool" where
  "has_role_named ident role d \<longleftrightarrow>
     list_ex (\<lambda>a. ra_user_id a = ident \<and> list_ex (\<lambda>r. ro_id r = ra_role_id a \<and> ToLower (ro_name r) = role) (acc_roles d)) (acc_assignments d)"

definition User_ListPage :: "string \<Rightarrow> string \<Rightarrow> string list \<Rightarrow> int \<Rightarrow> int \<Rightarrow> accounts \<Rightarrow> account_error + UserRecord list \<times> nat" where
  "User_ListPage status0 email0 roles limit0 offset0 d =
     (let status = ToLower (TrimSpace status0);
          email = TrimSpace email0;
          limit = nat (if limit0 < 1 then 50 else limit0);
          offset = nat (if offset0 < 0 then 0 else offset0);
          wanted = filter (\<lambda>r. r \<noteq> []) (map (\<lambda>r. ToLower (TrimSpace r)) roles);
          hits = filter (\<lambda>u. (status = [] \<or> us_status u = status)
                   \<and> (email = [] \<or> sql_like (''%'' @ ToLower email @ ''%'') (ToLower (us_email u)))
                   \<and> list_all (\<lambda>r. has_role_named (us_id u) r d) wanted) (acc_users d);
          page = take limit (drop offset (sort_key (\<lambda>u. (ToLower (us_username u), us_id u)) hits))
      in if status \<noteq> [] \<and> \<not> ValidUserStatus status then Inl AccountStatusInvalid
         else Inr (map user_of page, if page = [] then 0 else length hits))"

definition User_PasswordHash :: "string \<Rightarrow> accounts \<Rightarrow> string option" where
  "User_PasswordHash ident d = map_of (acc_passwords d) ident"

definition SetPasswordHash :: "string \<Rightarrow> string \<Rightarrow> unit account_tx" where
  "SetPasswordHash ident hash d =
     (if \<not> password_shape hash \<or> \<not> list_ex (\<lambda>u. us_id u = ident) (acc_users d) then Inl AccountConstraint
      else Inr ((), d\<lparr>acc_passwords := AList.update ident hash (acc_passwords d)\<rparr>))"

definition UpdateDisplayName :: "string \<Rightarrow> string \<Rightarrow> unit account_tx" where
  "UpdateDisplayName ident displayName d =
     (let chosen = (if TrimSpace displayName = []
                    then map_option (\<lambda>u. DefaultUserDisplayName (us_email u)) (find_row (\<lambda>u. us_id u = ident) (acc_users d))
                    else Some displayName)
      in case chosen of
           None \<Rightarrow> Inl AccountNoRows
         | Some name \<Rightarrow> Inr ((), d\<lparr>acc_users := sql_update (\<lambda>u. us_id u = ident) (\<lambda>u. u\<lparr>us_display_name := TrimSpace name\<rparr>) (acc_users d)\<rparr>))"

definition SetStatus :: "string \<Rightarrow> string \<Rightarrow> unit account_tx" where
  "SetStatus ident status0 d =
     (let status = ToLower (TrimSpace status0)
      in if \<not> ValidUserStatus status then Inl AccountStatusInvalid
         else Inr ((), d\<lparr>acc_users := sql_update (\<lambda>u. us_id u = ident) (\<lambda>u. u\<lparr>us_status := status\<rparr>) (acc_users d)\<rparr>))"

definition enabledStatus :: "bool \<Rightarrow> string" where
  "enabledStatus enabled = (if enabled then ''active'' else ''disabled'')"

definition SetEnabled :: "string \<Rightarrow> bool \<Rightarrow> unit account_tx" where
  "SetEnabled ident enabled = SetStatus ident (enabledStatus enabled)"

section \<open>Sign-in sessions\<close>

record SessionRecord =
  sr_ID :: string
  sr_UserID :: string
  sr_RefreshTokenHash :: string
  sr_FamilyID :: string
  sr_AccessExpiresAt :: time
  sr_RefreshExpiresAt :: time
  sr_LastSeenAt :: time
  sr_UserAgent :: string
  sr_IPAddress :: string

definition insert_signin :: "time \<Rightarrow> SessionRecord \<Rightarrow> accounts \<Rightarrow> account_error + accounts" where
  "insert_signin now s d =
     (if list_ex (\<lambda>t. ss_id t = sr_ID s \<or> ss_refresh_token_hash t = sr_RefreshTokenHash s) (acc_sessions d)
         \<or> \<not> list_ex (\<lambda>u. us_id u = sr_UserID s) (acc_users d) \<or> sr_RefreshExpiresAt s < sr_AccessExpiresAt s
      then Inl AccountConstraint
      else Inr (d\<lparr>acc_sessions := acc_sessions d @
             [\<lparr>ss_id = sr_ID s, ss_user_id = sr_UserID s, ss_refresh_token_hash = sr_RefreshTokenHash s,
               ss_access_expires_at = sr_AccessExpiresAt s, ss_refresh_expires_at = sr_RefreshExpiresAt s, ss_family_id = sr_FamilyID s,
               ss_user_agent = sr_UserAgent s, ss_ip_address = sr_IPAddress s, ss_last_seen_at = sr_LastSeenAt s, ss_created_at = now,
               ss_revoked_at = None\<rparr>]\<rparr>))"

definition Session_Create :: "time \<Rightarrow> SessionRecord \<Rightarrow> unit account_tx" where
  "Session_Create now s d = res_bind (insert_signin now s d) (\<lambda>d'. Inr ((), d'))"

definition Session_Get :: "string \<Rightarrow> accounts \<Rightarrow> signin_row option" where
  "Session_Get ident d = find_row (\<lambda>s. ss_id s = ident) (acc_sessions d)"

definition revoke_signin :: "time \<Rightarrow> signin_row \<Rightarrow> signin_row" where
  "revoke_signin now s = s\<lparr>ss_revoked_at := Some (coalesce (ss_revoked_at s) now)\<rparr>"

text \<open>
  A refresh token is used once: presenting a token of a revoked or expired session, or a wrong token,
  commits the revocation of the whole family and fails.
\<close>

definition Rotate :: "time \<Rightarrow> time \<Rightarrow> string \<Rightarrow> string \<Rightarrow> SessionRecord \<Rightarrow> accounts \<Rightarrow> (account_error + unit) \<times> accounts" where
  "Rotate clock now ident hash replacement d =
     (case Session_Get ident d of
        None \<Rightarrow> (Inl SessionInvalid, d)
      | Some cur \<Rightarrow>
          (if ss_revoked_at cur \<noteq> None \<or> \<not> clock < ss_refresh_expires_at cur \<or> ss_refresh_token_hash cur \<noteq> hash
           then (Inl SessionReplay,
                 d\<lparr>acc_sessions := sql_update (\<lambda>s. ss_family_id s = ss_family_id cur) (revoke_signin now) (acc_sessions d)\<rparr>)
           else (let d1 = d\<lparr>acc_sessions := sql_update (\<lambda>s. ss_id s = ident)
                              (\<lambda>s. s\<lparr>ss_revoked_at := Some now, ss_last_seen_at := now\<rparr>) (acc_sessions d)\<rparr>
                 in case insert_signin now (replacement\<lparr>sr_UserID := ss_user_id cur, sr_FamilyID := ss_family_id cur,
                                                        sr_UserAgent := ss_user_agent cur, sr_IPAddress := ss_ip_address cur\<rparr>) d1 of
                      Inl e \<Rightarrow> (Inl e, d)
                    | Inr d2 \<Rightarrow> (Inr (), d2))))"

definition Session_Active :: "time \<Rightarrow> string \<Rightarrow> string \<Rightarrow> accounts \<Rightarrow> bool" where
  "Session_Active now ident userID d \<longleftrightarrow>
     list_ex (\<lambda>s. ss_id s = ident \<and> ss_user_id s = userID \<and> ss_revoked_at s = None \<and> ss_access_expires_at s > now) (acc_sessions d)"

definition revoke_where :: "time \<Rightarrow> (signin_row \<Rightarrow> bool) \<Rightarrow> accounts \<Rightarrow> accounts" where
  "revoke_where now P d =
     d\<lparr>acc_sessions := sql_update P (\<lambda>s. (revoke_signin now s)\<lparr>ss_last_seen_at := now\<rparr>) (acc_sessions d)\<rparr>"

definition Session_Revoke :: "time \<Rightarrow> string \<Rightarrow> accounts \<Rightarrow> accounts" where
  "Session_Revoke now ident = revoke_where now (\<lambda>s. ss_id s = ident)"

definition RevokeFamily :: "time \<Rightarrow> string \<Rightarrow> accounts \<Rightarrow> accounts" where
  "RevokeFamily now family = revoke_where now (\<lambda>s. ss_family_id s = family)"

definition RevokeUser :: "time \<Rightarrow> string \<Rightarrow> accounts \<Rightarrow> accounts" where
  "RevokeUser now userID = revoke_where now (\<lambda>s. ss_user_id s = userID)"

definition Session_List :: "string \<Rightarrow> accounts \<Rightarrow> signin_row list" where
  "Session_List userID d =
     sort_key (\<lambda>s. - ss_created_at s) (filter (\<lambda>s. ss_user_id s = userID \<and> ss_revoked_at s = None) (acc_sessions d))"

text \<open>The open sessions with the e-mail of their user, a page of them and how many there are.\<close>

definition ListAdminPage :: "string \<Rightarrow> int \<Rightarrow> int \<Rightarrow> accounts \<Rightarrow> (signin_row \<times> string) list \<times> nat" where
  "ListAdminPage email0 limit0 offset0 d =
     (let email = TrimSpace email0;
          rows = concat (map (\<lambda>s. map (\<lambda>u. (s, us_email u)) (filter (\<lambda>u. us_id u = ss_user_id s) (acc_users d)))
                   (filter (\<lambda>s. ss_revoked_at s = None) (acc_sessions d)));
          hits = filter (\<lambda>(s, e). email = [] \<or> sql_like (''%'' @ ToLower email @ ''%'') (ToLower e)) rows;
          page = take (nat (if limit0 < 1 then 50 else limit0)) (drop (nat offset0) (sort_key (\<lambda>(s, e). (e, ss_id s)) hits))
      in (page, if page = [] then 0 else length hits))"

definition DeleteOlderThan :: "time \<Rightarrow> unit account_tx" where
  "DeleteOlderThan cutoff d =
     (if cutoff = 0 then Inl SessionCutoff
      else Inr ((), d\<lparr>acc_sessions := filter (\<lambda>s. \<not> ss_created_at s < cutoff) (acc_sessions d)\<rparr>))"

section \<open>Roles\<close>

record RoleRecord =
  rl_ID :: string
  rl_Name :: string
  rl_Description :: string
  rl_System :: bool
  rl_Permissions :: "string list"
  rl_AssignedUsers :: nat

definition replace_char :: "char \<Rightarrow> char \<Rightarrow> string \<Rightarrow> string" where
  "replace_char a b s = map (\<lambda>c. if c = a then b else c) s"

definition insert_permission :: "string \<Rightarrow> accounts \<Rightarrow> account_error + accounts" where
  "insert_permission permission d =
     (let ident = ''permission-'' @ replace_char (CHR ''.'') (CHR ''-'') permission
      in if list_ex (\<lambda>p. snd p = permission) (acc_permissions d) then Inr d
         else if list_ex (\<lambda>p. fst p = ident) (acc_permissions d) then Inl AccountConstraint
         else Inr (d\<lparr>acc_permissions := acc_permissions d @ [(ident, permission)]\<rparr>))"

definition grant_permission :: "string \<Rightarrow> string \<Rightarrow> accounts \<Rightarrow> accounts" where
  "grant_permission roleID permission d =
     d\<lparr>acc_role_permissions := acc_role_permissions d @
        filter (\<lambda>rp. rp \<notin> set (acc_role_permissions d)) (map (\<lambda>p. (roleID, fst p)) (filter (\<lambda>p. snd p = permission) (acc_permissions d)))\<rparr>"

fun add_permissions :: "string \<Rightarrow> string list \<Rightarrow> accounts \<Rightarrow> account_error + accounts" where
  "add_permissions roleID [] d = Inr d"
| "add_permissions roleID (p # ps) d =
     res_bind (insert_permission p d) (\<lambda>d1. add_permissions roleID ps (grant_permission roleID p d1))"

definition replaceRolePermissions :: "string \<Rightarrow> string list \<Rightarrow> accounts \<Rightarrow> account_error + accounts" where
  "replaceRolePermissions roleID permissions d =
     add_permissions roleID (uniqueNonEmpty permissions)
       (d\<lparr>acc_role_permissions := filter (\<lambda>rp. fst rp \<noteq> roleID) (acc_role_permissions d)\<rparr>)"

definition Role_Ensure :: "string \<Rightarrow> string \<Rightarrow> string \<Rightarrow> bool \<Rightarrow> string list \<Rightarrow> unit account_tx" where
  "Role_Ensure ident name description system permissions d =
     res_bind
       (if list_ex (\<lambda>r. ro_id r = ident) (acc_roles d) then (if name = [] then Inl AccountConstraint else Inr d)
        else if name = [] \<or> list_ex (\<lambda>r. ToLower (ro_name r) = ToLower name) (acc_roles d) then Inl AccountConstraint
        else Inr (d\<lparr>acc_roles := acc_roles d @ [\<lparr>ro_id = ident, ro_name = name, ro_description = description, ro_is_system = system\<rparr>]\<rparr>))
       (\<lambda>d1. res_bind (replaceRolePermissions ident permissions d1) (\<lambda>d2. Inr ((), d2)))"

definition Role_Create :: "string \<Rightarrow> string \<Rightarrow> string \<Rightarrow> string list \<Rightarrow> unit account_tx" where
  "Role_Create ident name description permissions = Role_Ensure ident name description False permissions"

text \<open>The names of the permissions of a role, in order.\<close>

definition role_permissions :: "string \<Rightarrow> accounts \<Rightarrow> string list" where
  "role_permissions roleID d =
     sort (map snd (filter (\<lambda>p. (roleID, fst p) \<in> set (acc_role_permissions d)) (acc_permissions d)))"

definition role_of :: "accounts \<Rightarrow> role_row \<Rightarrow> RoleRecord" where
  "role_of d r =
     \<lparr>rl_ID = ro_id r, rl_Name = ro_name r, rl_Description = ro_description r, rl_System = ro_is_system r,
      rl_Permissions = role_permissions (ro_id r) d, rl_AssignedUsers = 0\<rparr>"

definition Role_List :: "accounts \<Rightarrow> RoleRecord list" where
  "Role_List d =
     map (\<lambda>r. (role_of d r)\<lparr>rl_AssignedUsers := length (remdups (map ra_user_id (filter (\<lambda>a. ra_role_id a = ro_id r) (acc_assignments d))))\<rparr>)
       (sort_key (\<lambda>r. (ToLower (ro_name r), ro_id r)) (acc_roles d))"

definition Role_FindByID :: "string \<Rightarrow> accounts \<Rightarrow> RoleRecord option" where
  "Role_FindByID ident d = map_option (role_of d) (find_row (\<lambda>r. ro_id r = ident) (acc_roles d))"

definition Role_FindByName :: "string \<Rightarrow> accounts \<Rightarrow> RoleRecord option" where
  "Role_FindByName name d = map_option (role_of d) (find_row (\<lambda>r. ToLower (ro_name r) = ToLower name) (acc_roles d))"

definition changeable_role :: "string \<Rightarrow> accounts \<Rightarrow> account_error + unit" where
  "changeable_role roleID d =
     (case find_row (\<lambda>r. ro_id r = roleID) (acc_roles d) of
        None \<Rightarrow> Inl RoleNotFound
      | Some r \<Rightarrow> if ro_is_system r then Inl RoleImmutable else Inr ())"

definition Role_Rename :: "string \<Rightarrow> string \<Rightarrow> unit account_tx" where
  "Role_Rename roleID name d =
     res_bind (changeable_role roleID d) (\<lambda>_.
       if name = [] \<or> list_ex (\<lambda>r. ro_id r \<noteq> roleID \<and> ToLower (ro_name r) = ToLower name) (acc_roles d) then Inl AccountConstraint
       else Inr ((), d\<lparr>acc_roles := sql_update (\<lambda>r. ro_id r = roleID) (\<lambda>r. r\<lparr>ro_name := name\<rparr>) (acc_roles d)\<rparr>))"

definition ReplacePermissions :: "string \<Rightarrow> string list \<Rightarrow> unit account_tx" where
  "ReplacePermissions roleID permissions d =
     res_bind (changeable_role roleID d) (\<lambda>_. res_bind (replaceRolePermissions roleID permissions d) (\<lambda>d'. Inr ((), d')))"

definition Role_Delete :: "string \<Rightarrow> unit account_tx" where
  "Role_Delete roleID d =
     res_bind (changeable_role roleID d) (\<lambda>_.
       if list_ex (\<lambda>m. gm_role_id m = roleID) (acc_mappings d) then Inl AccountConstraint
       else Inr ((), d\<lparr>acc_assignments := filter (\<lambda>a. ra_role_id a \<noteq> roleID) (acc_assignments d),
                       acc_role_permissions := filter (\<lambda>rp. fst rp \<noteq> roleID) (acc_role_permissions d),
                       acc_roles := filter (\<lambda>r. ro_id r \<noteq> roleID) (acc_roles d)\<rparr>))"

definition Role_Assign :: "string \<Rightarrow> string \<Rightarrow> string \<Rightarrow> string \<Rightarrow> unit account_tx" where
  "Role_Assign userID roleID sourceType sourceKey d =
     res_bind (insert_assignment True \<lparr>ra_user_id = userID, ra_role_id = roleID, ra_source_type = sourceType, ra_source_key = sourceKey\<rparr> d)
       (\<lambda>d'. Inr ((), d'))"

definition UnassignSource :: "string \<Rightarrow> string \<Rightarrow> string \<Rightarrow> unit account_tx" where
  "UnassignSource userID roleID sourceType d =
     (let hit = (\<lambda>a. ra_user_id a = userID \<and> ra_role_id a = roleID \<and> ra_source_type a = sourceType)
      in if \<not> list_ex hit (acc_assignments d) then Inl AssignmentNotFound
         else Inr ((), d\<lparr>acc_assignments := filter (\<lambda>a. \<not> hit a) (acc_assignments d)\<rparr>))"

definition Role_Unassign :: "string \<Rightarrow> string \<Rightarrow> unit account_tx" where
  "Role_Unassign userID roleID = UnassignSource userID roleID ''manual''"

fun insert_assignments :: "bool \<Rightarrow> assignment_row list \<Rightarrow> accounts \<Rightarrow> account_error + accounts" where
  "insert_assignments skip [] d = Inr d"
| "insert_assignments skip (a # as) d = res_bind (insert_assignment skip a d) (insert_assignments skip as)"

definition ReplaceSourceAssignments :: "string \<Rightarrow> string \<Rightarrow> string list \<Rightarrow> unit account_tx" where
  "ReplaceSourceAssignments roleID sourceType userIDs d =
     (if \<not> list_ex (\<lambda>r. ro_id r = roleID) (acc_roles d) then Inl RoleNotFound
      else res_bind
        (insert_assignments False
          (map (\<lambda>u. \<lparr>ra_user_id = u, ra_role_id = roleID, ra_source_type = sourceType, ra_source_key = u\<rparr>) (uniqueNonEmpty userIDs))
          (d\<lparr>acc_assignments := filter (\<lambda>a. \<not> (ra_role_id a = roleID \<and> ra_source_type a = sourceType)) (acc_assignments d)\<rparr>))
        (\<lambda>d'. Inr ((), d')))"

definition SSOAssignmentKey :: "string \<Rightarrow> string \<Rightarrow> string" where
  "SSOAssignmentKey providerID groupName = url_encode (bytes_of providerID) @ ''.'' @ url_encode (bytes_of groupName)"

definition ssoAssignmentPrefix :: "string \<Rightarrow> string" where
  "ssoAssignmentPrefix providerID = url_encode (bytes_of providerID) @ ''.''"

text \<open>The pairs of role and group that are assigned: complete, and each once.\<close>

definition sso_wanted :: "(string \<times> string) list \<Rightarrow> (string \<times> string) list" where
  "sso_wanted pairs =
     (let complete = filter (\<lambda>(role, group_name). role \<noteq> [] \<and> group_name \<noteq> []) pairs
      in rev (remdups (rev complete)))"

definition ReplaceSSOAssignments :: "string \<Rightarrow> string \<Rightarrow> (string \<times> string) list \<Rightarrow> unit account_tx" where
  "ReplaceSSOAssignments userID providerID pairs d =
     res_bind
       (insert_assignments True
         (map (\<lambda>(role, group_name). \<lparr>ra_user_id = userID, ra_role_id = role, ra_source_type = ''sso'',
                                       ra_source_key = SSOAssignmentKey providerID group_name\<rparr>) (sso_wanted pairs))
         (d\<lparr>acc_assignments := filter (\<lambda>a. \<not> (ra_user_id a = userID \<and> ra_source_type a = ''sso''
                \<and> sql_like (ssoAssignmentPrefix providerID @ ''%'') (ra_source_key a))) (acc_assignments d)\<rparr>))
       (\<lambda>d'. Inr ((), d'))"

definition user_assignments :: "string \<Rightarrow> accounts \<Rightarrow> (role_row \<times> assignment_row) list" where
  "user_assignments userID d =
     sort_key (\<lambda>(r, a). (ToLower (ro_name r), ro_id r, ra_source_type a, ra_source_key a))
       (concat (map (\<lambda>a. map (\<lambda>r. (r, a)) (filter (\<lambda>r. ro_id r = ra_role_id a) (acc_roles d)))
         (filter (\<lambda>a. ra_user_id a = userID) (acc_assignments d))))"

fun distinct_roles :: "string list \<Rightarrow> role_row list \<Rightarrow> role_row list" where
  "distinct_roles seen [] = []"
| "distinct_roles seen (r # rs) =
     (if ro_id r \<in> set seen then distinct_roles seen rs else r # distinct_roles (ro_id r # seen) rs)"

definition UserRoles :: "string \<Rightarrow> accounts \<Rightarrow> RoleRecord list \<times> assignment_row list" where
  "UserRoles userID d =
     (let rows = user_assignments userID d
      in (map (role_of d) (distinct_roles [] (map fst rows)), map snd rows))"

definition EffectivePermissions :: "string \<Rightarrow> accounts \<Rightarrow> string list" where
  "EffectivePermissions userID d =
     sort (remdups (concat (map (\<lambda>a. map snd (filter (\<lambda>p. (ra_role_id a, fst p) \<in> set (acc_role_permissions d)) (acc_permissions d)))
       (filter (\<lambda>a. ra_user_id a = userID) (acc_assignments d)))))"

section \<open>Single sign-on\<close>

definition CreateIdentity :: "identity_row \<Rightarrow> unit account_tx" where
  "CreateIdentity identity d =
     (if list_ex (\<lambda>i. si_id i = si_id identity \<or> si_provider_id i = si_provider_id identity \<and> si_subject i = si_subject identity) (acc_identities d)
         \<or> \<not> list_ex (\<lambda>u. us_id u = si_user_id identity) (acc_users d)
         \<or> \<not> list_ex (\<lambda>p. pv_id p = si_provider_id identity) (acc_providers d)
      then Inl AccountConstraint
      else Inr ((), d\<lparr>acc_identities := acc_identities d @ [identity]\<rparr>))"

definition ProvisionOIDC :: "UserRecord \<Rightarrow> string \<Rightarrow> string \<Rightarrow> identity_row \<Rightarrow> unit account_tx" where
  "ProvisionOIDC user defaultRoleID adminRoleID identity d =
     (case userStatus user of
        None \<Rightarrow> Inl AccountStatusInvalid
      | Some status \<Rightarrow>
          res_bind (insert_user user status d) (\<lambda>d1.
          res_bind (first_roles (ur_ID user) defaultRoleID adminRoleID d1) (\<lambda>d2.
            CreateIdentity identity d2)))"

definition Provider_Upsert :: "provider_row \<Rightarrow> unit account_tx" where
  "Provider_Upsert p d =
     (if list_ex (\<lambda>q. pv_id q \<noteq> pv_id p \<and> ToLower (pv_name q) = ToLower (pv_name p)) (acc_providers d) then Inl AccountConstraint
      else if list_ex (\<lambda>q. pv_id q = pv_id p) (acc_providers d)
      then Inr ((), d\<lparr>acc_providers := sql_update (\<lambda>q. pv_id q = pv_id p) (\<lambda>_. p) (acc_providers d)\<rparr>)
      else Inr ((), d\<lparr>acc_providers := acc_providers d @ [p]\<rparr>))"

definition Provider_List :: "accounts \<Rightarrow> provider_row list" where
  "Provider_List d = sort_key (\<lambda>p. (ToLower (pv_name p), pv_id p)) (acc_providers d)"

definition Provider_Find :: "string \<Rightarrow> accounts \<Rightarrow> provider_row option" where
  "Provider_Find ident d = find_row (\<lambda>p. pv_id p = ident) (acc_providers d)"

definition EnabledCount :: "accounts \<Rightarrow> nat" where
  "EnabledCount d = sql_count pv_enabled (acc_providers d)"

definition FindIdentity :: "string \<Rightarrow> string \<Rightarrow> accounts \<Rightarrow> identity_row option" where
  "FindIdentity providerID subject d = find_row (\<lambda>i. si_provider_id i = providerID \<and> si_subject i = subject) (acc_identities d)"

definition ListIdentities :: "string \<Rightarrow> accounts \<Rightarrow> identity_row list" where
  "ListIdentities userID d =
     sort_key (\<lambda>i. (si_provider_id i, si_subject i)) (filter (\<lambda>i. si_user_id i = userID) (acc_identities d))"

definition DeleteIdentity :: "string \<Rightarrow> string \<Rightarrow> string \<Rightarrow> unit account_tx" where
  "DeleteIdentity userID providerID subject d =
     (let hit = (\<lambda>i. si_user_id i = userID \<and> si_provider_id i = providerID \<and> si_subject i = subject)
      in if \<not> list_ex hit (acc_identities d) then Inl IdentityNotFound
         else Inr ((), d\<lparr>acc_identities := filter (\<lambda>i. \<not> hit i) (acc_identities d)\<rparr>))"

definition ListGroupRoleMappings :: "string \<Rightarrow> accounts \<Rightarrow> mapping_row list" where
  "ListGroupRoleMappings providerID d =
     sort_key (\<lambda>m. (gm_group_name m, gm_role_id m)) (filter (\<lambda>m. gm_provider_id m = providerID) (acc_mappings d))"

text \<open>\<^verbatim>\<open>INSERT INTO sso_group_role_mappings \<dots> ON CONFLICT DO NOTHING\<close>\<close>

definition insert_mapping :: "mapping_row \<Rightarrow> accounts \<Rightarrow> account_error + accounts" where
  "insert_mapping m d =
     (if m \<in> set (acc_mappings d) then Inr d
      else if list_ex (\<lambda>p. pv_id p = gm_provider_id m) (acc_providers d) \<and> list_ex (\<lambda>r. ro_id r = gm_role_id m) (acc_roles d)
      then Inr (d\<lparr>acc_mappings := acc_mappings d @ [m]\<rparr>)
      else Inl AccountConstraint)"

definition SetGroupRoleMapping :: "mapping_row \<Rightarrow> unit account_tx" where
  "SetGroupRoleMapping m d = res_bind (insert_mapping m d) (\<lambda>d'. Inr ((), d'))"

fun insert_mappings :: "string \<Rightarrow> mapping_row list \<Rightarrow> accounts \<Rightarrow> account_error + accounts" where
  "insert_mappings providerID [] d = Inr d"
| "insert_mappings providerID (m # ms) d =
     (if gm_group_name m = [] \<or> gm_role_id m = [] then insert_mappings providerID ms d
      else res_bind (insert_mapping (m\<lparr>gm_provider_id := providerID\<rparr>) d) (insert_mappings providerID ms))"

definition ReplaceGroupRoleMappings :: "string \<Rightarrow> mapping_row list \<Rightarrow> unit account_tx" where
  "ReplaceGroupRoleMappings providerID ms d =
     res_bind (insert_mappings providerID ms (d\<lparr>acc_mappings := filter (\<lambda>m. gm_provider_id m \<noteq> providerID) (acc_mappings d)\<rparr>))
       (\<lambda>d'. Inr ((), d'))"

definition DeleteGroupRoleMapping :: "string \<Rightarrow> string \<Rightarrow> string \<Rightarrow> unit account_tx" where
  "DeleteGroupRoleMapping providerID groupName roleID d =
     (let hit = (\<lambda>m. gm_provider_id m = providerID \<and> gm_group_name m = groupName \<and> gm_role_id m = roleID)
      in if \<not> list_ex hit (acc_mappings d) then Inl MappingNotFound
         else Inr ((), d\<lparr>acc_mappings := filter (\<lambda>m. \<not> hit m) (acc_mappings d)\<rparr>))"

section \<open>Configuration\<close>

definition allowedConfigNames :: "string list" where
  "allowedConfigNames =
     [''ENABLE_PASSWORD_LOGIN'', ''ENABLE_PASSWORD_REGISTRATION'', ''REQUIRE_USER_APPROVAL'', ''DEFAULT_ROLE_ID'', ''LOCKDOWN_SCHEDULER'',
      ''WEB_ORIGIN'', ''MAX_MESSAGE_BYTES'', ''GLYPHFLOW_BOOTSTRAP_EMAIL'', ''GLYPHFLOW_SYSTEM_ADMINS'']"

definition Config_Get :: "string \<Rightarrow> accounts \<Rightarrow> account_error + json option" where
  "Config_Get name d = (if name \<notin> set allowedConfigNames then Inl ConfigNotAllowed else Inr (map_of (acc_config d) name))"

definition Config_Set :: "string \<Rightarrow> json \<Rightarrow> unit account_tx" where
  "Config_Set name v d =
     (if name \<notin> set allowedConfigNames then Inl ConfigNotAllowed
      else Inr ((), d\<lparr>acc_config := AList.update name v (acc_config d)\<rparr>))"

definition Config_SetIfAbsent :: "string \<Rightarrow> json \<Rightarrow> unit account_tx" where
  "Config_SetIfAbsent name v d =
     (if name \<notin> set allowedConfigNames then Inl ConfigNotAllowed
      else Inr ((), if map_of (acc_config d) name = None then d\<lparr>acc_config := acc_config d @ [(name, v)]\<rparr> else d))"

definition SetAuthenticationSettings :: "bool \<Rightarrow> bool \<Rightarrow> string \<Rightarrow> bool \<Rightarrow> unit account_tx" where
  "SetAuthenticationSettings passwordLogin registration defaultRoleID approvalRequired d =
     (if \<not> list_ex (\<lambda>r. ro_id r = defaultRoleID) (acc_roles d) then Inl DefaultRoleNotFound
      else Inr ((), d\<lparr>acc_config :=
        AList.update ''DEFAULT_ROLE_ID'' (JString defaultRoleID)
          (AList.update ''REQUIRE_USER_APPROVAL'' (JBool approvalRequired)
            (AList.update ''ENABLE_PASSWORD_REGISTRATION'' (JBool registration)
              (AList.update ''ENABLE_PASSWORD_LOGIN'' (JBool passwordLogin) (acc_config d))))\<rparr>))"

end
