(* ===== verification/Authentication.thy ===== *)
theory Authentication
  imports Accounts RunStore
begin

text \<open>
  Signing in and administering accounts (\<^verbatim>\<open>api/session.go\<close>, \<^verbatim>\<open>api/auth_service.go\<close>, \<^verbatim>\<open>platform/admin.go\<close>,
  \<^verbatim>\<open>api/auth_admin.go\<close>, \<^verbatim>\<open>api/roles.go\<close>): access tokens, refresh sessions, registration, login by password and
  by OpenID, the guard of the last administrator and the permissions of a request.

  The service is modelled with the repositories of the database, which the control plane installs at
  start-up; the in-memory repositories of tests are not. What the process draws from the random source
  and the clock is an argument; JSON, HMAC, Argon2id and SHA-256 are parameters. The control plane installs no
  audit function, so the calls of \<^verbatim>\<open>s.audit\<close> have no effect and are left out.
\<close>

section \<open>State\<close>

record accessTokenPayload =
  tp_UserID :: string
  tp_SessionID :: string
  tp_ExpiresAt :: int

record auth_lib =
  al_password :: password_lib
  al_is_ip :: "string \<Rightarrow> bool"
  al_marshal :: "accessTokenPayload \<Rightarrow> bytes"
  al_unmarshal :: "bytes \<Rightarrow> accessTokenPayload option"
  al_hash_token :: "string \<Rightarrow> string"

text \<open>The draws of one call: identifiers in the order they are drawn, a salt, and the clocks.\<close>

record auth_env =
  ev_ids :: "string option list"
  ev_salt :: "bytes option"
  ev_clock :: time
  ev_now :: time
  ev_sqlnow :: time

record AuthService =
  au_db :: accounts
  au_guard :: "string list"
  au_system_admins :: "string list"
  au_password_enabled :: bool
  au_registration_enabled :: bool
  au_approval_required :: bool
  au_default_role :: string
  au_lockdown :: bool
  au_hasher :: PasswordHasher
  au_dummy_hash :: string
  au_secret :: bytes
  au_access_lifetime :: duration
  au_refresh_lifetime :: duration

datatype auth_error =
    AuthEmail | AuthRegistrationDisabled | AuthPassword password_error | AuthDefaultRole | AuthAdminRole | AuthRegistrationFailed
  | AuthRandom | AuthCredentials | AuthPending | AuthUserNotFound | AuthRoleNotFound | AuthRoleNotAssigned | AuthSystemAdministrator
  | AuthLastAdministrator | AuthAdministratorInactive | AuthTokenInputs | AuthRefreshInvalid | AuthOIDCIncomplete | AuthOIDCEmail
  | AuthOIDCUnlinked | AuthLinkIncomplete | AuthLinked | AuthIdentityNotFound | AuthPasswordUnavailable | AuthCurrentPassword
  | AuthRoleRequired | AuthUnknownPermission | AuthSystemRole | AuthStore account_error

type_synonym 'r auth = "AuthService \<Rightarrow> (auth_error + 'r) \<times> AuthService"

definition randomID :: "nat \<Rightarrow> auth_env \<Rightarrow> string option" where
  "randomID k e = (if k < length (ev_ids e) then ev_ids e ! k else None)"

text \<open>Sequencing: a step that fails keeps what the steps before it have written.\<close>

definition au_fail :: "auth_error \<Rightarrow> 'r auth" where
  "au_fail e w = (Inl e, w)"

definition au_ret :: "'r \<Rightarrow> 'r auth" where
  "au_ret x w = (Inr x, w)"

definition au_bind :: "'a auth \<Rightarrow> ('a \<Rightarrow> 'r auth) \<Rightarrow> 'r auth" where
  "au_bind m f w = (case m w of (Inl e, w') \<Rightarrow> (Inl e, w') | (Inr x, w') \<Rightarrow> f x w')"

definition au_read :: "(AuthService \<Rightarrow> 'r auth) \<Rightarrow> 'r auth" where
  "au_read f w = f w w"

definition au_modify :: "(AuthService \<Rightarrow> AuthService) \<Rightarrow> unit auth" where
  "au_modify f w = (Inr (), f w)"

definition au_require :: "auth_error \<Rightarrow> bool \<Rightarrow> unit auth" where
  "au_require e b w = (if b then (Inr (), w) else (Inl e, w))"

text \<open>One transaction of a store; an error of the store is passed on, or replaced.\<close>

definition au_tx :: "'r account_tx \<Rightarrow> 'r auth" where
  "au_tx t w = (case t (au_db w) of Inl e \<Rightarrow> (Inl (AuthStore e), w) | Inr (x, d) \<Rightarrow> (Inr x, w\<lparr>au_db := d\<rparr>))"

definition au_tx_as :: "auth_error \<Rightarrow> 'r account_tx \<Rightarrow> 'r auth" where
  "au_tx_as err t w = (case t (au_db w) of Inl _ \<Rightarrow> (Inl err, w) | Inr (x, d) \<Rightarrow> (Inr x, w\<lparr>au_db := d\<rparr>))"

definition au_write :: "(accounts \<Rightarrow> accounts) \<Rightarrow> unit auth" where
  "au_write f w = (Inr (), w\<lparr>au_db := f (au_db w)\<rparr>)"

definition au_option :: "auth_error \<Rightarrow> 'r option \<Rightarrow> 'r auth" where
  "au_option e x w = (case x of None \<Rightarrow> (Inl e, w) | Some v \<Rightarrow> (Inr v, w))"

section \<open>The guard of the last administrator\<close>

definition Guard_Remove :: "string \<Rightarrow> unit auth \<Rightarrow> unit auth" where
  "Guard_Remove ident mutate w =
     (if ident \<notin> set (au_guard w) then (Inl AuthAdministratorInactive, w)
      else if length (au_guard w) \<le> 1 then (Inl AuthLastAdministrator, w)
      else (case mutate w of
              (Inl e, w') \<Rightarrow> (Inl e, w')
            | (Inr (), w') \<Rightarrow> (Inr (), w'\<lparr>au_guard := filter (\<lambda>a. a \<noteq> ident) (au_guard w')\<rparr>)))"

definition Guard_Add :: "string \<Rightarrow> unit auth" where
  "Guard_Add ident w =
     (Inr (), if ident = [] \<or> ident \<in> set (au_guard w) then w else w\<lparr>au_guard := au_guard w @ [ident]\<rparr>)"

definition Guard_Set :: "string list \<Rightarrow> unit auth" where
  "Guard_Set idents w = (Inr (), w\<lparr>au_guard := remdups (filter (\<lambda>a. a \<noteq> []) idents)\<rparr>)"

section \<open>Access tokens\<close>

definition accessTokenVersion :: string where "accessTokenVersion = ''gf1''"

definition token_sign :: "auth_lib \<Rightarrow> bytes \<Rightarrow> accessTokenPayload \<Rightarrow> string" where
  "token_sign L secret p =
     (let message = accessTokenVersion @ ''.'' @ url_encode (al_marshal L p)
      in message @ ''.'' @ url_encode (hmac (al_password L) secret (bytes_of message)))"

text \<open>\<^verbatim>\<open>Time.Unix\<close>\<close>

definition unix_seconds :: "time \<Rightarrow> int" where
  "unix_seconds t = (t - unix_epoch) div second"

definition IssueForSession :: "auth_lib \<Rightarrow> time \<Rightarrow> string \<Rightarrow> string \<Rightarrow> string auth" where
  "IssueForSession L clock userID sessionID =
     au_read (\<lambda>w.
       if TrimSpace userID = [] \<or> TrimSpace sessionID = [] \<or> au_access_lifetime w \<le> 0 then au_fail AuthTokenInputs
       else au_ret (token_sign L (au_secret w)
              \<lparr>tp_UserID = userID, tp_SessionID = sessionID, tp_ExpiresAt = unix_seconds (clock + au_access_lifetime w)\<rparr>))"

definition token_verify :: "auth_lib \<Rightarrow> bytes \<Rightarrow> time \<Rightarrow> time \<Rightarrow> accounts \<Rightarrow> string \<Rightarrow> accessTokenPayload option" where
  "token_verify L secret clock sqlnow d token =
     (case Split (CHR ''.'') token of
        [version, body, signature] \<Rightarrow>
          (if version \<noteq> accessTokenVersion then None
           else (case url_decode signature of
                   None \<Rightarrow> None
                 | Some mac \<Rightarrow>
                     (if mac \<noteq> hmac (al_password L) secret (bytes_of (version @ ''.'' @ body)) then None
                      else (case url_decode body of
                              None \<Rightarrow> None
                            | Some raw \<Rightarrow>
                                (case al_unmarshal L raw of
                                   None \<Rightarrow> None
                                 | Some p \<Rightarrow>
                                     (if tp_UserID p = [] \<or> tp_SessionID p = [] \<or> unix_seconds clock \<ge> tp_ExpiresAt p then None
                                      else if \<not> Session_Active sqlnow (tp_SessionID p) (tp_UserID p) d then None
                                      else Some p))))))
      | _ \<Rightarrow> None)"

text \<open>The token of a request: the bearer token of the header, or else the cookie.\<close>

definition request_token :: "string \<Rightarrow> string option \<Rightarrow> string option" where
  "request_token header cookie =
     (if length header > 7 \<and> ToLower (take 7 header) = ''bearer '' then Some (TrimSpace (drop 7 header)) else cookie)"

record Claims =
  cl_UserID :: string
  cl_SessionID :: string

definition Session_Authenticator :: "auth_lib \<Rightarrow> time \<Rightarrow> time \<Rightarrow> string \<Rightarrow> string option \<Rightarrow> AuthService \<Rightarrow> Claims option" where
  "Session_Authenticator L clock sqlnow header cookie w =
     (case request_token header cookie of
        None \<Rightarrow> None
      | Some token \<Rightarrow>
          map_option (\<lambda>p. \<lparr>cl_UserID = tp_UserID p, cl_SessionID = tp_SessionID p\<rparr>)
            (token_verify L (au_secret w) clock sqlnow (au_db w) token))"

definition toAuthUser :: "UserRecord \<Rightarrow> UserRecord" where
  "toAuthUser u =
     (let status = (if ur_Status u = [] then (if ur_Enabled u then StatusActive else StatusDisabled) else ur_Status u)
      in u\<lparr>ur_DisplayName := NormalizeDisplayName (ur_Email u) (ur_DisplayName u), ur_Status := status, ur_Enabled := (status = StatusActive)\<rparr>)"

definition userByID :: "string \<Rightarrow> AuthService \<Rightarrow> UserRecord option" where
  "userByID ident w = map_option toAuthUser (User_FindByID ident (au_db w))"

definition userByEmail :: "string \<Rightarrow> AuthService \<Rightarrow> UserRecord option" where
  "userByEmail email w = map_option toAuthUser (User_FindByEmail email (au_db w))"

definition Auth_Authenticator :: "auth_lib \<Rightarrow> time \<Rightarrow> time \<Rightarrow> string \<Rightarrow> string option \<Rightarrow> AuthService \<Rightarrow> Claims option" where
  "Auth_Authenticator L clock sqlnow header cookie w =
     (case Session_Authenticator L clock sqlnow header cookie w of
        None \<Rightarrow> None
      | Some claims \<Rightarrow>
          (case userByID (cl_UserID claims) w of
             None \<Rightarrow> None
           | Some u \<Rightarrow> if ur_Enabled u then Some claims else None))"

definition Session_Owns :: "string \<Rightarrow> string \<Rightarrow> accounts \<Rightarrow> bool" where
  "Session_Owns userID sessionID d \<longleftrightarrow>
     (case Session_Get sessionID d of None \<Rightarrow> False | Some s \<Rightarrow> ss_user_id s = userID \<and> ss_revoked_at s = None)"

section \<open>Permissions of a request\<close>

definition permission_aliases :: "(string, string) gomap" where
  "permission_aliases =
     [(''task.read'', ''tasks.read''), (''task.create'', ''tasks.manage''), (''task.manage'', ''tasks.manage''), (''run.read'', ''runs.read''),
      (''run.cancel'', ''runs.cancel''), (''run.retry'', ''runs.retry''), (''runner.read'', ''runners.read''), (''event.read'', ''logs.read'')]"

definition hasPermission :: "string list \<Rightarrow> string \<Rightarrow> bool" where
  "hasPermission permissions required \<longleftrightarrow>
     list_ex (\<lambda>c. c \<in> set permissions \<or> get_or [] permission_aliases c \<in> set permissions) (Split (CHR ''|'') required)"

datatype authorization = Unauthorized | Forbidden | Authorized Claims

definition authorize_request :: "auth_lib \<Rightarrow> time \<Rightarrow> time \<Rightarrow> string \<Rightarrow> string option \<Rightarrow> string \<Rightarrow> AuthService \<Rightarrow> authorization" where
  "authorize_request L clock sqlnow header cookie required w =
     (case Auth_Authenticator L clock sqlnow header cookie w of
        None \<Rightarrow> Unauthorized
      | Some claims \<Rightarrow>
          (if hasPermission (EffectivePermissions (cl_UserID claims) (au_db w)) required then Authorized claims else Forbidden))"

section \<open>Settings and roles of the service\<close>

definition hasSystemAdminAssignment :: "RoleRecord list \<Rightarrow> assignment_row list \<Rightarrow> bool" where
  "hasSystemAdminAssignment roles assignments \<longleftrightarrow>
     list_ex (\<lambda>a. ra_source_type a = ''system-admin'' \<and> list_ex (\<lambda>r. rl_Name r = ''admin'' \<and> rl_ID r = ra_role_id a) roles) assignments"

definition is_system_admin :: "UserRecord \<Rightarrow> AuthService \<Rightarrow> bool" where
  "is_system_admin u w \<longleftrightarrow>
     ur_Email u \<in> set (au_system_admins w)
     \<or> (let (roles, assignments) = UserRoles (ur_ID u) (au_db w) in hasSystemAdminAssignment roles assignments)"

definition has_admin_role :: "string \<Rightarrow> accounts \<Rightarrow> bool" where
  "has_admin_role ident d \<longleftrightarrow> list_ex (\<lambda>r. rl_Name r = ''admin'') (fst (UserRoles ident d))"

text \<open>
  The administrators of the configuration: the guard is set from the roles before the assignments of
  the configuration are replaced.
\<close>

definition SetSystemAdminEmails :: "auth_lib \<Rightarrow> string list \<Rightarrow> unit auth" where
  "SetSystemAdminEmails L emails =
     au_bind (au_option AuthEmail (those (map (NormalizeEmail (al_is_ip L)) emails))) (\<lambda>configured.
     au_read (\<lambda>w.
       (case User_List [] (au_db w) of
          Inl e \<Rightarrow> au_fail (AuthStore e)
        | Inr users \<Rightarrow>
            (let chosen = map ur_ID (filter (\<lambda>u. ur_Email u \<in> set configured) users);
                 active = map ur_ID (filter (\<lambda>u. ur_Enabled u \<and> has_admin_role (ur_ID u) (au_db w)) users)
             in au_bind
                  (case Role_FindByName ''admin'' (au_db w) of
                     None \<Rightarrow> au_require AuthAdminRole (chosen = [])
                   | Some r \<Rightarrow> au_tx (ReplaceSourceAssignments (rl_ID r) ''system-admin'' chosen)) (\<lambda>_.
                au_bind (au_modify (\<lambda>w. w\<lparr>au_system_admins := remdups configured\<rparr>)) (\<lambda>_.
                  Guard_Set active))))))"

definition SetDefaultRole :: "string \<Rightarrow> unit auth" where
  "SetDefaultRole role =
     au_modify (\<lambda>w. w\<lparr>au_default_role := TrimSpace
       (case Role_FindByID (TrimSpace role) (au_db w) of
          Some r \<Rightarrow> rl_ID r
        | None \<Rightarrow> (case Role_FindByName role (au_db w) of Some r \<Rightarrow> rl_ID r | None \<Rightarrow> role))\<rparr>)"

definition SetDefaultRoleID :: "string \<Rightarrow> unit auth" where
  "SetDefaultRoleID roleID =
     au_read (\<lambda>w. case Role_FindByID (TrimSpace roleID) (au_db w) of
       None \<Rightarrow> au_fail AuthDefaultRole
     | Some r \<Rightarrow> au_modify (\<lambda>w. w\<lparr>au_default_role := rl_ID r\<rparr>))"

definition UpdateLockdownScheduler :: "bool \<Rightarrow> unit auth" where
  "UpdateLockdownScheduler enabled =
     au_bind (au_tx (Config_Set ''LOCKDOWN_SCHEDULER'' (JBool enabled))) (\<lambda>_. au_modify (\<lambda>w. w\<lparr>au_lockdown := enabled\<rparr>))"

text \<open>A role by its identifier, or else by its name.\<close>

definition find_role :: "string \<Rightarrow> accounts \<Rightarrow> RoleRecord option" where
  "find_role identifier d = (case Role_FindByID identifier d of Some r \<Rightarrow> Some r | None \<Rightarrow> Role_FindByName identifier d)"

definition UpdateAuthSettings :: "bool \<Rightarrow> bool \<Rightarrow> string \<Rightarrow> bool option \<Rightarrow> unit auth" where
  "UpdateAuthSettings passwordEnabled registrationEnabled defaultRole userApproval =
     au_read (\<lambda>w.
       au_bind (if defaultRole = [] then au_ret (au_default_role w)
                else au_option AuthDefaultRole (map_option rl_ID (find_role defaultRole (au_db w)))) (\<lambda>roleID.
       let approval = coalesce userApproval (au_approval_required w)
       in au_bind (au_tx (SetAuthenticationSettings passwordEnabled registrationEnabled roleID approval)) (\<lambda>_.
            au_modify (\<lambda>w. w\<lparr>au_default_role := (if roleID = [] then au_default_role w else roleID),
                             au_password_enabled := passwordEnabled, au_registration_enabled := registrationEnabled,
                             au_approval_required := approval\<rparr>))))"

definition PermissionCatalog :: "string list" where
  "PermissionCatalog =
     [''users.read'', ''users.manage'', ''roles.read'', ''roles.manage'', ''sso.read'', ''sso.manage'', ''secrets.read'', ''secrets.manage'',
      ''auth.settings.manage'', ''tasks.read'', ''tasks.manage'', ''runs.read'', ''runs.execute'', ''runs.cancel'',
      ''runs.retry'', ''logs.read'', ''resources.read'', ''resources.manage'', ''runners.read'', ''runners.manage'', ''audit.read'',
      ''system.metrics.read'', ''system.deadletter.read'', ''system.deadletter.manage'']"

definition UserPermissionCatalog :: "string list" where
  "UserPermissionCatalog = [''tasks.read'', ''runs.read'', ''runs.execute'', ''resources.read'', ''runners.read'']"

definition OperatorPermissionCatalog :: "string list" where
  "OperatorPermissionCatalog =
     [''tasks.read'', ''tasks.manage'', ''runs.read'', ''runs.execute'', ''resources.read'', ''resources.manage'', ''runners.read'',
      ''runners.manage'', ''system.metrics.read'', ''system.deadletter.read'', ''system.deadletter.manage'']"

definition validatePermissions :: "string list \<Rightarrow> bool" where
  "validatePermissions permissions \<longleftrightarrow> list_all (\<lambda>p. p \<in> set PermissionCatalog) permissions"

definition systemRoleID :: "string \<Rightarrow> string" where
  "systemRoleID name = ''system-'' @ NormalizeIdentityKey name"

definition AddRole :: "string \<Rightarrow> string list \<Rightarrow> unit auth" where
  "AddRole role permissions =
     au_bind (au_require AuthRoleRequired (role \<noteq> [])) (\<lambda>_.
     au_bind (au_require AuthUnknownPermission (validatePermissions permissions)) (\<lambda>_.
     au_bind (au_tx (Role_Ensure (systemRoleID role) (NormalizeIdentityKey role) [] (role \<in> {''admin'', ''user'', ''operator''}) permissions)) (\<lambda>_.
       au_modify (\<lambda>w. if au_default_role w = role \<or> au_default_role w = NormalizeIdentityKey role
                     then w\<lparr>au_default_role := systemRoleID role\<rparr> else w))))"

definition Grant :: "string \<Rightarrow> string \<Rightarrow> unit auth" where
  "Grant userID role =
     au_read (\<lambda>w. au_bind (au_option AuthUserNotFound (userByID userID w)) (\<lambda>u.
       au_bind (au_option AuthRoleNotFound (Role_FindByName role (au_db w))) (\<lambda>r.
       au_bind (au_tx (Role_Assign userID (rl_ID r) ''manual'' ''auth-service'')) (\<lambda>_.
         if role = ''admin'' \<and> ur_Status u = StatusActive then Guard_Add userID else au_ret ()))))"

definition Auth_Revoke :: "string \<Rightarrow> string \<Rightarrow> unit auth" where
  "Auth_Revoke userID role =
     au_read (\<lambda>w. au_bind (au_option AuthUserNotFound (userByID userID w)) (\<lambda>u.
       au_bind (au_option AuthRoleNotAssigned (Role_FindByName role (au_db w))) (\<lambda>r.
         if role = ''admin'' \<and> is_system_admin u w then au_fail AuthSystemAdministrator
         else if \<not> list_ex (\<lambda>a. rl_ID a = rl_ID r) (fst (UserRoles userID (au_db w))) then au_fail AuthRoleNotAssigned
         else if role = ''admin'' then
           Guard_Remove userID (au_read (\<lambda>w. if ur_Email u \<in> set (au_system_admins w) then au_fail AuthSystemAdministrator
             else au_tx (Role_Unassign userID (rl_ID r))))
         else au_tx (Role_Unassign userID (rl_ID r)))))"

section \<open>Registration\<close>

definition registrationRoles :: "string \<Rightarrow> bool \<Rightarrow> (RoleRecord \<times> string) auth" where
  "registrationRoles roleID systemAdmin =
     au_read (\<lambda>w. au_bind (au_option AuthDefaultRole (Role_FindByID roleID (au_db w))) (\<lambda>r.
       if \<not> systemAdmin then au_ret (r, [])
       else au_bind (au_option AuthAdminRole (Role_FindByName ''admin'' (au_db w))) (\<lambda>a. au_ret (r, rl_ID a))))"

definition new_user :: "string \<Rightarrow> string \<Rightarrow> string \<Rightarrow> UserRecord" where
  "new_user ident email status =
     \<lparr>ur_ID = ident, ur_Username = email, ur_Email = email, ur_DisplayName = DefaultUserDisplayName email, ur_Status = status,
      ur_Enabled = (status = StatusActive)\<rparr>"

definition registerWithStatus :: "auth_lib \<Rightarrow> auth_env \<Rightarrow> string \<Rightarrow> string \<Rightarrow> bool \<Rightarrow> string \<Rightarrow> UserRecord auth" where
  "registerWithStatus L env email password requireRegistration requestedStatus =
     au_bind (au_option AuthEmail (NormalizeEmail (al_is_ip L) email)) (\<lambda>key.
     au_read (\<lambda>w.
     au_bind (au_require AuthRegistrationDisabled (\<not> (requireRegistration \<and> (\<not> au_password_enabled w \<or> \<not> au_registration_enabled w)))) (\<lambda>_.
     au_bind (case ValidatePassword password of Inl e \<Rightarrow> au_fail (AuthPassword e) | Inr u \<Rightarrow> au_ret u) (\<lambda>_.
     au_bind (au_require AuthDefaultRole (au_default_role w \<noteq> [])) (\<lambda>_.
     au_bind (au_require AuthRegistrationFailed (userByEmail key w = None)) (\<lambda>_.
     let systemAdmin = key \<in> set (au_system_admins w)
     in au_bind (registrationRoles (au_default_role w) systemAdmin) (\<lambda>(r, adminRoleID).
     au_bind (case Hash (al_password L) (au_hasher w) (ev_salt env) password of Inl e \<Rightarrow> au_fail (AuthPassword e) | Inr h \<Rightarrow> au_ret h) (\<lambda>hash.
     au_bind (au_option AuthRandom (randomID 0 env)) (\<lambda>ident.
     let status = (if requestedStatus \<noteq> [] then requestedStatus else if au_approval_required w then StatusPending else StatusActive);
         user = new_user ident key status
     in au_bind (au_tx_as AuthRegistrationFailed (ProvisionLocal user hash (rl_ID r) adminRoleID)) (\<lambda>_.
        au_bind (if systemAdmin \<and> ur_Enabled user then Guard_Add ident else au_ret ()) (\<lambda>_. au_ret user)))))))))))"

definition Auth_Register :: "auth_lib \<Rightarrow> auth_env \<Rightarrow> string \<Rightarrow> string \<Rightarrow> UserRecord auth" where
  "Auth_Register L env email password = registerWithStatus L env email password True []"

definition defaultAdminDisplayName :: string where "defaultAdminDisplayName = ''Default Admin''"

definition EnsureBootstrap :: "auth_lib \<Rightarrow> auth_env \<Rightarrow> string \<Rightarrow> string \<Rightarrow> UserRecord auth" where
  "EnsureBootstrap L env username password =
     (case NormalizeEmail (al_is_ip L) username of
        None \<Rightarrow> au_fail AuthEmail
      | Some key \<Rightarrow>
          (if password = [] then au_fail AuthEmail
           else au_read (\<lambda>w. case User_FindByEmail key (au_db w) of
             Some stored \<Rightarrow>
               (let existing = toAuthUser stored
                in au_bind (if TrimSpace (ur_DisplayName stored) = []
                            then au_bind (au_tx (UpdateDisplayName (ur_ID stored) defaultAdminDisplayName))
                                   (\<lambda>_. au_ret (existing\<lparr>ur_DisplayName := defaultAdminDisplayName\<rparr>))
                            else au_ret existing) (\<lambda>u1.
                   au_bind (if ur_Status u1 \<noteq> StatusActive
                            then au_bind (au_tx (SetStatus (ur_ID u1) StatusActive)) (\<lambda>_. au_ret (u1\<lparr>ur_Status := StatusActive, ur_Enabled := True\<rparr>))
                            else au_ret u1) (\<lambda>u2.
                   au_bind (Grant (ur_ID u2) ''admin'') (\<lambda>_. au_ret u2))))
           | None \<Rightarrow>
               au_bind (registerWithStatus L env key password False StatusActive) (\<lambda>u.
               au_bind (Grant (ur_ID u) ''admin'') (\<lambda>_.
               au_bind (au_tx (UpdateDisplayName (ur_ID u) defaultAdminDisplayName)) (\<lambda>_.
                 au_ret (u\<lparr>ur_DisplayName := defaultAdminDisplayName\<rparr>)))))))"

section \<open>Login and refresh\<close>

record AuthTokens =
  at_AccessToken :: string
  at_RefreshToken :: string
  at_SessionID :: string

definition new_session :: "auth_lib \<Rightarrow> time \<Rightarrow> AuthService \<Rightarrow> string \<Rightarrow> string \<Rightarrow> string \<Rightarrow> SessionRecord" where
  "new_session L now w ident userID refreshToken =
     \<lparr>sr_ID = ident, sr_UserID = userID, sr_RefreshTokenHash = al_hash_token L refreshToken, sr_FamilyID = [],
      sr_AccessExpiresAt = now + au_access_lifetime w, sr_RefreshExpiresAt = now + au_refresh_lifetime w, sr_LastSeenAt = now,
      sr_UserAgent = [], sr_IPAddress = []\<rparr>"

definition issueTokens :: "auth_lib \<Rightarrow> auth_env \<Rightarrow> string \<Rightarrow> AuthTokens auth" where
  "issueTokens L env userID =
     au_bind (au_option AuthRandom (randomID 0 env)) (\<lambda>sessionID.
     au_bind (au_option AuthRandom (randomID 1 env)) (\<lambda>refreshToken.
     au_bind (au_option AuthRandom (randomID 2 env)) (\<lambda>familyID.
     au_bind (IssueForSession L (ev_clock env) userID sessionID) (\<lambda>accessToken.
     au_read (\<lambda>w.
     au_bind (au_tx (Session_Create (ev_sqlnow env) ((new_session L (ev_now env) w sessionID userID refreshToken)\<lparr>sr_FamilyID := familyID\<rparr>))) (\<lambda>_.
       au_ret \<lparr>at_AccessToken = accessToken, at_RefreshToken = refreshToken, at_SessionID = sessionID\<rparr>))))))"

text \<open>A hash on which the verification panics (see \<^verbatim>\<open>Passwords\<close>) is taken as not valid.\<close>

definition valid_hash :: "auth_lib \<Rightarrow> AuthService \<Rightarrow> string \<Rightarrow> string \<Rightarrow> bool" where
  "valid_hash L w hash password = (Verify_password (al_password L) (au_hasher w) hash password = Inr True)"

text \<open>
  The password of a pending account is checked before the answer tells that it is pending. A hash made
  under other parameters is replaced; a failure of that is ignored. The verification of the dummy hash
  for unknown users only takes time.
\<close>

definition Login :: "auth_lib \<Rightarrow> auth_env \<Rightarrow> string \<Rightarrow> string \<Rightarrow> AuthTokens auth" where
  "Login L env email password =
     (case NormalizeEmail (al_is_ip L) email of
        None \<Rightarrow> au_fail AuthCredentials
      | Some key \<Rightarrow> au_read (\<lambda>w.
          (case userByEmail key w of
             None \<Rightarrow> au_fail AuthCredentials
           | Some u \<Rightarrow>
               (case User_PasswordHash (ur_ID u) (au_db w) of
                  None \<Rightarrow> au_fail AuthCredentials
                | Some hash \<Rightarrow>
                    (if \<not> au_password_enabled w then au_fail AuthCredentials
                     else if ur_Status u = StatusPending then
                       au_fail (if valid_hash L w hash password then AuthPending else AuthCredentials)
                     else if \<not> ur_Enabled u \<or> \<not> valid_hash L w hash password then au_fail AuthCredentials
                     else au_bind
                       (if NeedsRehash (au_hasher w) hash
                        then (case Hash (al_password L) (au_hasher w) (ev_salt env) password of
                                Inl _ \<Rightarrow> au_ret ()
                              | Inr upgraded \<Rightarrow> au_write (\<lambda>d. case SetPasswordHash (ur_ID u) upgraded d of Inl _ \<Rightarrow> d | Inr (_, d') \<Rightarrow> d'))
                        else au_ret ())
                       (\<lambda>_. issueTokens L env (ur_ID u)))))))"

definition Refresh :: "auth_lib \<Rightarrow> auth_env \<Rightarrow> string \<Rightarrow> string \<Rightarrow> AuthTokens auth" where
  "Refresh L env sessionID refreshToken =
     au_read (\<lambda>w. au_bind (au_option AuthRefreshInvalid (Session_Get sessionID (au_db w))) (\<lambda>cur.
       au_bind (au_option AuthRandom (randomID 0 env)) (\<lambda>newID.
       au_bind (au_option AuthRandom (randomID 1 env)) (\<lambda>newToken.
       au_bind (IssueForSession L (ev_clock env) (ss_user_id cur) newID) (\<lambda>access w1.
         (case Rotate (ev_now env) (ev_sqlnow env) sessionID (al_hash_token L refreshToken) (new_session L (ev_now env) w newID [] newToken) (au_db w1) of
            (Inl _, d) \<Rightarrow> (Inl AuthRefreshInvalid, w1\<lparr>au_db := d\<rparr>)
          | (Inr (), d) \<Rightarrow> (Inr \<lparr>at_AccessToken = access, at_RefreshToken = newToken, at_SessionID = newID\<rparr>, w1\<lparr>au_db := d\<rparr>)))))))"

definition Logout :: "time \<Rightarrow> string \<Rightarrow> unit auth" where
  "Logout sqlnow sessionID = au_write (Session_Revoke sqlnow sessionID)"

definition LogoutAll :: "time \<Rightarrow> string \<Rightarrow> unit auth" where
  "LogoutAll sqlnow userID = au_write (RevokeUser sqlnow userID)"

section \<open>Administration of users\<close>

definition DisableUser :: "time \<Rightarrow> string \<Rightarrow> unit auth" where
  "DisableUser sqlnow userID =
     au_read (\<lambda>w. au_bind (au_option AuthUserNotFound (userByID userID w)) (\<lambda>u.
       let disable = au_bind (au_tx (SetEnabled userID False)) (\<lambda>_. LogoutAll sqlnow userID)
       in if is_system_admin u w then au_fail AuthSystemAdministrator
          else if has_admin_role userID (au_db w) then Guard_Remove userID disable
          else disable))"

definition ApproveUser :: "time \<Rightarrow> string \<Rightarrow> unit auth" where
  "ApproveUser sqlnow userID =
     au_read (\<lambda>w. au_bind (au_option AuthUserNotFound (userByID userID w)) (\<lambda>u.
       if ur_Status u = StatusActive then au_ret ()
       else au_bind (au_tx (SetStatus userID StatusActive)) (\<lambda>_.
         au_bind (if has_admin_role userID (au_db w) \<or> (is_system_admin u w \<and> fst (UserRoles userID (au_db w)) \<noteq> []) then Guard_Add userID else au_ret ()) (\<lambda>_.
           LogoutAll sqlnow userID))))"

definition UpdateProfile :: "string \<Rightarrow> string \<Rightarrow> unit auth" where
  "UpdateProfile userID displayName =
     au_read (\<lambda>w. au_bind (au_option AuthUserNotFound (userByID userID w)) (\<lambda>_. au_tx (UpdateDisplayName userID (TrimSpace displayName))))"

definition ChangePassword :: "auth_lib \<Rightarrow> auth_env \<Rightarrow> string \<Rightarrow> string \<Rightarrow> string \<Rightarrow> unit auth" where
  "ChangePassword L env userID currentPassword newPassword =
     au_bind (case ValidatePassword newPassword of Inl e \<Rightarrow> au_fail (AuthPassword e) | Inr u \<Rightarrow> au_ret u) (\<lambda>_.
     au_read (\<lambda>w. case (userByID userID w, User_PasswordHash userID (au_db w)) of
       (Some u, Some hash) \<Rightarrow>
         (if \<not> au_password_enabled w \<or> \<not> ur_Enabled u then au_fail AuthPasswordUnavailable
          else if \<not> valid_hash L w hash currentPassword then au_fail AuthCurrentPassword
          else au_bind (case Hash (al_password L) (au_hasher w) (ev_salt env) newPassword of Inl e \<Rightarrow> au_fail (AuthPassword e) | Inr h \<Rightarrow> au_ret h) (\<lambda>updated.
            au_bind (au_tx (SetPasswordHash userID updated)) (\<lambda>_. LogoutAll (ev_sqlnow env) userID)))
     | _ \<Rightarrow> au_fail AuthPasswordUnavailable))"

section \<open>OpenID\<close>

definition provisionOIDCUser :: "auth_env \<Rightarrow> string \<Rightarrow> string \<Rightarrow> string \<Rightarrow> string \<Rightarrow> bool \<Rightarrow> string auth" where
  "provisionOIDCUser env provider subject email defaultRoleID systemAdmin =
     au_read (\<lambda>w. au_bind (au_require AuthDefaultRole (defaultRoleID \<noteq> [])) (\<lambda>_.
       au_bind (au_require AuthOIDCEmail (userByEmail email w = None)) (\<lambda>_.
       au_bind (au_option AuthRandom (randomID 0 env)) (\<lambda>userID.
       au_bind (registrationRoles defaultRoleID systemAdmin) (\<lambda>(r, adminRoleID).
       let status = (if au_approval_required w then StatusPending else StatusActive)
       in au_bind (au_tx (ProvisionOIDC (new_user userID email status) (rl_ID r) adminRoleID
              \<lparr>si_id = ''identity-'' @ userID @ ''-'' @ provider, si_user_id = userID, si_provider_id = provider, si_subject = subject\<rparr>)) (\<lambda>_.
          au_ret userID))))))"

definition syncOIDCRoleAssignments :: "string \<Rightarrow> string \<Rightarrow> string list \<Rightarrow> unit auth" where
  "syncOIDCRoleAssignments userID provider group_names =
     au_read (\<lambda>w. au_tx (ReplaceSSOAssignments userID provider
       (map (\<lambda>m. (gm_role_id m, gm_group_name m)) (filter (\<lambda>m. gm_group_name m \<in> set group_names) (ListGroupRoleMappings provider (au_db w))))))"

text \<open>The identifiers of the account come first among the draws, those of the session after it.\<close>

definition loginOIDC :: "auth_lib \<Rightarrow> auth_env \<Rightarrow> auth_env \<Rightarrow> string \<Rightarrow> string \<Rightarrow> string \<Rightarrow> bool \<Rightarrow> string list \<Rightarrow> AuthTokens auth" where
  "loginOIDC L provision_env env provider0 subject0 email0 autoProvision group_names =
     (let provider = NormalizeIdentityKey provider0; subject = TrimSpace subject0
      in case NormalizeEmail (al_is_ip L) email0 of
           None \<Rightarrow> au_fail AuthOIDCIncomplete
         | Some email \<Rightarrow>
             (if provider = [] \<or> subject = [] then au_fail AuthOIDCIncomplete
              else au_read (\<lambda>w.
                let systemAdmin = email \<in> set (au_system_admins w);
                    known = (case FindIdentity provider subject (au_db w) of Some i \<Rightarrow> si_user_id i | None \<Rightarrow> [])
                in au_bind (if known = [] \<and> autoProvision
                            then provisionOIDCUser provision_env provider subject email (au_default_role w) systemAdmin
                            else au_ret known) (\<lambda>userID.
                   au_read (\<lambda>w. au_bind (au_option AuthOIDCUnlinked (userByID userID w)) (\<lambda>u.
                   au_bind (au_require AuthPending (ur_Status u \<noteq> StatusPending)) (\<lambda>_.
                   au_bind (au_require AuthOIDCUnlinked (ur_Enabled u)) (\<lambda>_.
                   au_bind (if systemAdmin then Guard_Add (ur_ID u) else au_ret ()) (\<lambda>_.
                   au_bind (syncOIDCRoleAssignments (ur_ID u) provider group_names) (\<lambda>_.
                     issueTokens L env (ur_ID u)))))))))))"

definition LinkOIDC :: "string \<Rightarrow> string \<Rightarrow> string \<Rightarrow> unit auth" where
  "LinkOIDC userID provider0 subject0 =
     (let provider = NormalizeIdentityKey provider0; subject = TrimSpace subject0
      in if userID = [] \<or> provider = [] \<or> subject = [] then au_fail AuthLinkIncomplete
         else au_read (\<lambda>w. au_bind (au_option AuthUserNotFound (userByID userID w)) (\<lambda>_.
           case FindIdentity provider subject (au_db w) of
             Some i \<Rightarrow> au_require AuthLinked (si_user_id i = userID)
           | None \<Rightarrow> au_tx (CreateIdentity \<lparr>si_id = ''identity-'' @ userID @ ''-'' @ provider @ ''-'' @ subject, si_user_id = userID,
                                               si_provider_id = provider, si_subject = subject\<rparr>))))"

definition UnlinkOIDC :: "string \<Rightarrow> string \<Rightarrow> unit auth" where
  "UnlinkOIDC userID identityID =
     (case url_decode identityID of
        None \<Rightarrow> au_fail AuthIdentityNotFound
      | Some key \<Rightarrow>
          (case cut (CHR 0x00) (text_of key) of
             None \<Rightarrow> au_fail AuthIdentityNotFound
           | Some (provider, subject) \<Rightarrow> au_tx (DeleteIdentity userID provider subject)))"

section \<open>Administration of roles\<close>

definition RoleAdmin_Create :: "auth_env \<Rightarrow> string \<Rightarrow> string list \<Rightarrow> unit auth" where
  "RoleAdmin_Create env name permissions =
     au_bind (au_require AuthRoleRequired (name \<noteq> [])) (\<lambda>_.
     au_bind (au_require AuthUnknownPermission (validatePermissions permissions)) (\<lambda>_.
     au_bind (au_option AuthRandom (randomID 0 env)) (\<lambda>ident.
       au_tx (Role_Create (''role-'' @ ident) (NormalizeIdentityKey name) [] (uniqueNonEmpty permissions)))))"

definition RoleAdmin_ReplacePermissions :: "string \<Rightarrow> string list \<Rightarrow> unit auth" where
  "RoleAdmin_ReplacePermissions identifier permissions =
     au_read (\<lambda>w. au_bind (au_option AuthRoleNotFound (find_role identifier (au_db w))) (\<lambda>r.
       au_bind (au_require AuthSystemRole (\<not> rl_System r)) (\<lambda>_.
       au_bind (au_require AuthUnknownPermission (validatePermissions permissions)) (\<lambda>_.
         au_tx (ReplacePermissions (rl_ID r) (uniqueNonEmpty permissions))))))"

definition RoleAdmin_Rename :: "string \<Rightarrow> string \<Rightarrow> unit auth" where
  "RoleAdmin_Rename identifier name =
     (if TrimSpace name = [] then au_ret ()
      else au_read (\<lambda>w. au_bind (au_option AuthRoleNotFound (find_role identifier (au_db w))) (\<lambda>r.
        au_tx (Role_Rename (rl_ID r) (NormalizeIdentityKey name)))))"

definition RoleAdmin_Delete :: "string \<Rightarrow> unit auth" where
  "RoleAdmin_Delete identifier =
     au_read (\<lambda>w. au_bind (au_option AuthRoleNotFound (find_role identifier (au_db w))) (\<lambda>r.
       au_bind (au_require AuthSystemRole (\<not> rl_System r)) (\<lambda>_. au_tx (Role_Delete (rl_ID r)))))"

definition RoleAdmin_Seed :: "string \<Rightarrow> string list \<Rightarrow> unit auth" where
  "RoleAdmin_Seed key permissions =
     au_bind (au_require AuthUnknownPermission (validatePermissions permissions)) (\<lambda>_.
       au_tx (Role_Ensure (systemRoleID key) (NormalizeIdentityKey key) [] True (uniqueNonEmpty permissions)))"

definition RoleAdmin_Assign :: "string \<Rightarrow> string \<Rightarrow> unit auth" where
  "RoleAdmin_Assign userID role =
     au_read (\<lambda>w. au_bind (au_option AuthRoleNotFound (find_role role (au_db w))) (\<lambda>r.
       au_tx (Role_Assign userID (rl_ID r) ''manual'' ''admin-api'')))"

definition RoleAdmin_Unassign :: "string \<Rightarrow> string \<Rightarrow> unit auth" where
  "RoleAdmin_Unassign userID role =
     au_read (\<lambda>w. au_bind (au_option AuthRoleNotAssigned (find_role role (au_db w))) (\<lambda>r. au_tx (Role_Unassign userID (rl_ID r))))"

end
