(* ===== verification/AuthenticationFacts.thy ===== *)
theory AuthenticationFacts
  imports Authentication
begin

text \<open>
  How the operations of the authentication service change its sign-in sessions: a relation that every step
  keeps is kept by every operation, and sessions only open in new families, are replaced within a family,
  revoked or deleted. Requests to the service are sequenced at the end.
\<close>

section \<open>Relations that every operation keeps\<close>

text \<open>
  An operation is a sequence of steps on the state of the service. A reflexive and transitive relation
  that each step keeps is kept by the operation, whether it ends in a result or in an error.
\<close>

definition keeps :: "(AuthService \<Rightarrow> AuthService \<Rightarrow> bool) \<Rightarrow> 'r auth \<Rightarrow> bool" where
  "keeps R m \<longleftrightarrow> (\<forall>w. R w (snd (m w)))"

named_theorems keep_intros \<open>operations built of steps that keep a relation\<close>

locale auth_relation =
  fixes R :: "AuthService \<Rightarrow> AuthService \<Rightarrow> bool"
  assumes refl: "R w w"
    and trans: "R a b \<Longrightarrow> R b c \<Longrightarrow> R a c"
begin

lemma keeps_ret: "keeps R (au_ret x)"
  by (simp add: keeps_def au_ret_def refl)

lemma keeps_fail: "keeps R (au_fail e)"
  by (simp add: keeps_def au_fail_def refl)

lemma keeps_require: "keeps R (au_require e b)"
  by (simp add: keeps_def au_require_def refl)

lemma keeps_option: "keeps R (au_option e x)"
  by (simp add: keeps_def au_option_def refl split: option.splits)

lemma keeps_bind: "keeps R m \<Longrightarrow> (\<And>x. keeps R (f x)) \<Longrightarrow> keeps R (au_bind m f)"
  unfolding keeps_def au_bind_def by (auto split: prod.splits sum.splits) (metis snd_conv trans)+

lemma keeps_read: "(\<And>w. keeps R (f w)) \<Longrightarrow> keeps R (au_read f)"
  by (simp add: keeps_def au_read_def)

lemma keeps_if: "(b \<Longrightarrow> keeps R m) \<Longrightarrow> (\<not> b \<Longrightarrow> keeps R n) \<Longrightarrow> keeps R (if b then m else n)"
  by simp

lemma keeps_case_option: "(x = None \<Longrightarrow> keeps R m) \<Longrightarrow> (\<And>y. x = Some y \<Longrightarrow> keeps R (f y)) \<Longrightarrow> keeps R (case x of None \<Rightarrow> m | Some y \<Rightarrow> f y)"
  by (cases x) simp_all

lemma keeps_case_sum: "(\<And>e. x = Inl e \<Longrightarrow> keeps R (g e)) \<Longrightarrow> (\<And>y. x = Inr y \<Longrightarrow> keeps R (f y)) \<Longrightarrow> keeps R (case x of Inl e \<Rightarrow> g e | Inr y \<Rightarrow> f y)"
  by (cases x) simp_all

lemma keeps_case_prod: "(\<And>a b. x = (a, b) \<Longrightarrow> keeps R (f a b)) \<Longrightarrow> keeps R (case x of (a, b) \<Rightarrow> f a b)"
  by (cases x) simp

lemma keeps_tx: "(\<And>w x d. t (au_db w) = Inr (x, d) \<Longrightarrow> R w (w\<lparr>au_db := d\<rparr>)) \<Longrightarrow> keeps R (au_tx t)"
  by (auto simp: keeps_def au_tx_def refl split: sum.splits)

lemma keeps_tx_as: "(\<And>w x d. t (au_db w) = Inr (x, d) \<Longrightarrow> R w (w\<lparr>au_db := d\<rparr>)) \<Longrightarrow> keeps R (au_tx_as e t)"
  by (auto simp: keeps_def au_tx_as_def refl split: sum.splits)

lemma keeps_Guard_Remove:
  assumes "keeps R m"
    and "\<And>w w'. ident \<in> set (au_guard w) \<Longrightarrow> length (au_guard w) > 1 \<Longrightarrow> m w = (Inr (), w') \<Longrightarrow> R w w' \<Longrightarrow> R w (w'\<lparr>au_guard := filter (\<lambda>a. a \<noteq> ident) (au_guard w')\<rparr>)"
  shows "keeps R (Guard_Remove ident m)"
  unfolding keeps_def
proof
  fix w
  have "R w (snd (m w))" using assms(1) by (simp add: keeps_def)
  then show "R w (snd (Guard_Remove ident m w))"
    using assms(2) [of w] by (cases "m w") (simp add: Guard_Remove_def refl not_le split: sum.splits unit.splits)
qed

lemma keeps_bind_option: "(\<And>x. a = Some x \<Longrightarrow> keeps R (f x)) \<Longrightarrow> keeps R (au_bind (au_option e a) f)"
  using keeps_fail [of e] by (cases a) (simp_all add: keeps_def au_bind_def au_option_def au_fail_def)

lemmas keeps_steps = keeps_ret keeps_fail keeps_require keeps_option keeps_bind keeps_read keeps_if keeps_case_option keeps_case_sum keeps_case_prod

end

text \<open>
  An operation may end with a step that has a precondition on the state, which the steps before it keep.
\<close>

definition keeps_from :: "(AuthService \<Rightarrow> bool) \<Rightarrow> (AuthService \<Rightarrow> AuthService \<Rightarrow> bool) \<Rightarrow> 'r auth \<Rightarrow> bool" where
  "keeps_from pre R m \<longleftrightarrow> (\<forall>w. pre w \<longrightarrow> R w (snd (m w)))"

locale auth_final = auth_relation R for R +
  fixes pre :: "AuthService \<Rightarrow> bool" and S :: "AuthService \<Rightarrow> AuthService \<Rightarrow> bool"
  assumes weaken: "R a b \<Longrightarrow> S a b"
    and before: "R a b \<Longrightarrow> S b c \<Longrightarrow> S a c"
    and stable: "R a b \<Longrightarrow> pre a \<Longrightarrow> pre b"
begin

lemma from_keeps: "keeps R m \<Longrightarrow> keeps_from pre S m"
  by (simp add: keeps_def keeps_from_def weaken)

lemma from_fail: "keeps_from pre S (au_fail e)"
  by (rule from_keeps) (rule keeps_fail)

lemma from_bind: "keeps R m \<Longrightarrow> (\<And>x. keeps_from pre S (f x)) \<Longrightarrow> keeps_from pre S (au_bind m f)"
  unfolding keeps_def keeps_from_def au_bind_def by (auto split: prod.splits sum.splits) (metis before stable snd_conv weaken)+

lemma from_read: "(\<And>w. keeps_from pre S (f w)) \<Longrightarrow> keeps_from pre S (au_read f)"
  by (simp add: keeps_from_def au_read_def)

lemma from_if: "(b \<Longrightarrow> keeps_from pre S m) \<Longrightarrow> (\<not> b \<Longrightarrow> keeps_from pre S n) \<Longrightarrow> keeps_from pre S (if b then m else n)"
  by simp

lemma from_case_option: "(x = None \<Longrightarrow> keeps_from pre S m) \<Longrightarrow> (\<And>y. x = Some y \<Longrightarrow> keeps_from pre S (f y)) \<Longrightarrow> keeps_from pre S (case x of None \<Rightarrow> m | Some y \<Rightarrow> f y)"
  by (cases x) simp_all

lemma from_bind_option: "(\<And>x. a = Some x \<Longrightarrow> keeps_from pre S (f x)) \<Longrightarrow> keeps_from pre S (au_bind (au_option e a) f)"
  using from_fail [of e] by (cases a) (simp_all add: keeps_from_def au_bind_def au_option_def au_fail_def)

lemma from_bind_ret: "keeps_from pre S m \<Longrightarrow> keeps_from pre S (au_bind m (\<lambda>x. au_ret (f x)))"
  by (auto simp: keeps_from_def au_bind_def au_ret_def split: prod.splits sum.splits)

lemmas from_steps = from_fail from_bind from_read from_if from_case_option

end

section \<open>How sign-in sessions change\<close>

text \<open>
  \<open>ids\<close> and \<open>families\<close> are the identifiers that the random source has yielded for new sessions. A session
  is opened in a fresh family, replaced within its family, revoked or deleted; nothing else.
\<close>

inductive signin_step :: "string set \<Rightarrow> string set \<Rightarrow> signin_row list \<Rightarrow> signin_row list \<Rightarrow> bool" for ids families where
  opened: "ss_revoked_at s = None \<Longrightarrow> ss_id s \<in> ids \<Longrightarrow> ss_family_id s \<in> families \<Longrightarrow> ss_id s \<notin> ss_id ` set ss
    \<Longrightarrow> ss_family_id s \<notin> ss_family_id ` set ss \<Longrightarrow> signin_step ids families ss (ss @ [s])"
| replaced: "cur \<in> set ss \<Longrightarrow> ss_revoked_at cur = None \<Longrightarrow> ss_id s \<in> ids \<Longrightarrow> ss_id s \<notin> ss_id ` set ss \<Longrightarrow> ss_family_id s = ss_family_id cur
    \<Longrightarrow> (\<And>t. ss_id (f t) = ss_id t \<and> ss_family_id (f t) = ss_family_id t \<and> ss_user_id (f t) = ss_user_id t \<and> ss_revoked_at (f t) \<noteq> None)
    \<Longrightarrow> signin_step ids families ss (sql_update (\<lambda>t. ss_id t = ss_id cur) f ss @ [s])"
| revoked: "(\<And>t. ss_id (f t) = ss_id t \<and> ss_family_id (f t) = ss_family_id t \<and> ss_user_id (f t) = ss_user_id t \<and> ss_revoked_at (f t) \<noteq> None)
    \<Longrightarrow> signin_step ids families ss (sql_update P f ss)"
| deleted: "signin_step ids families ss (filter P ss)"

abbreviation signin_steps :: "string set \<Rightarrow> string set \<Rightarrow> signin_row list \<Rightarrow> signin_row list \<Rightarrow> bool" where
  "signin_steps ids families \<equiv> (signin_step ids families)\<^sup>*\<^sup>*"

text \<open>Identifiers are unique and a family has at most one session that is not revoked.\<close>

definition one_live_session :: "signin_row list \<Rightarrow> bool" where
  "one_live_session ss \<longleftrightarrow>
     distinct (map ss_id ss)
     \<and> (\<forall>s \<in> set ss. \<forall>t \<in> set ss. ss_family_id s = ss_family_id t \<and> ss_revoked_at s = None \<and> ss_revoked_at t = None \<longrightarrow> s = t)"

definition dead_family :: "string \<Rightarrow> signin_row list \<Rightarrow> bool" where
  "dead_family f ss \<longleftrightarrow> (\<forall>s \<in> set ss. ss_family_id s = f \<longrightarrow> ss_revoked_at s \<noteq> None)"

definition dead_session :: "string \<Rightarrow> signin_row list \<Rightarrow> bool" where
  "dead_session i ss \<longleftrightarrow> (\<forall>s \<in> set ss. ss_id s = i \<longrightarrow> ss_revoked_at s \<noteq> None)"

lemma distinct_map_filter_ids: "distinct (map g xs) \<Longrightarrow> distinct (map g (filter P xs))"
  by (induction xs) auto

abbreviation revokes :: "(signin_row \<Rightarrow> signin_row) \<Rightarrow> bool" where
  "revokes f \<equiv> (\<forall>t. ss_id (f t) = ss_id t \<and> ss_family_id (f t) = ss_family_id t \<and> ss_user_id (f t) = ss_user_id t \<and> ss_revoked_at (f t) \<noteq> None)"

lemma dead_update:
  assumes "revokes f"
  shows "dead_family fam ss \<Longrightarrow> dead_family fam (sql_update P f ss)" "dead_session i ss \<Longrightarrow> dead_session i (sql_update P f ss)"
  unfolding dead_family_def dead_session_def by (metis assms in_sql_updateE)+

lemma signin_step_dead_family:
  assumes "signin_step ids families ss ss'" "f \<notin> families" "dead_family f ss"
  shows "dead_family f ss'"
  using assms(1)
proof cases
  case (opened s)
  then show ?thesis using assms(2,3) by (auto simp: dead_family_def)
next
  case (replaced cur s g)
  have "ss_family_id s \<noteq> f" using replaced(2,3,6) assms(3) unfolding dead_family_def by metis
  moreover have "revokes g" using replaced(7) by blast
  ultimately show ?thesis using dead_update(1) [OF _ assms(3)] unfolding replaced(1) by (simp add: dead_family_def)
next
  case (revoked g P)
  then show ?thesis using dead_update(1) [OF _ assms(3)] by simp
qed (use assms(3) in \<open>auto simp: dead_family_def\<close>)

lemma signin_step_dead_session:
  assumes "signin_step ids families ss ss'" "i \<notin> ids" "dead_session i ss"
  shows "dead_session i ss'"
  using assms(1)
proof cases
  case (opened s)
  then show ?thesis using assms(2,3) by (auto simp: dead_session_def)
next
  case (replaced cur s g)
  have "ss_id s \<noteq> i" using replaced(4) assms(2) by blast
  moreover have "revokes g" using replaced(7) by blast
  ultimately show ?thesis using dead_update(2) [OF _ assms(3)] unfolding replaced(1) by (simp add: dead_session_def)
next
  case (revoked g P)
  then show ?thesis using dead_update(2) [OF _ assms(3)] by simp
qed (use assms(3) in \<open>auto simp: dead_session_def\<close>)

lemma signin_steps_dead:
  assumes "signin_steps ids families ss ss'"
  shows "f \<notin> families \<Longrightarrow> dead_family f ss \<Longrightarrow> dead_family f ss'" "i \<notin> ids \<Longrightarrow> dead_session i ss \<Longrightarrow> dead_session i ss'"
  using assms by (induction rule: rtranclp_induct) (auto dest: signin_step_dead_family signin_step_dead_session)

lemma signin_step_one_live:
  assumes "signin_step ids families ss ss'" "one_live_session ss"
  shows "one_live_session ss'"
  using assms
proof induction
  case (opened s ss)
  have "ss_family_id t \<noteq> ss_family_id s" if "t \<in> set ss" for t using opened.hyps(5) that by (metis image_eqI)
  then show ?case using opened.prems opened.hyps(4) unfolding one_live_session_def by (simp add: ball_Un) metis
next
  case (replaced cur ss s g)
  have ids: "map ss_id (sql_update (\<lambda>t. ss_id t = ss_id cur) g ss) = map ss_id ss" by (rule map_sql_update) (simp add: replaced)
  have only: "t = cur" if "t \<in> set ss" "ss_family_id t = ss_family_id cur" "ss_revoked_at t = None" for t
    using replaced.prems replaced.hyps(1,2) that unfolding one_live_session_def by blast
  have gone: "ss_family_id t \<noteq> ss_family_id s" if t: "t \<in> set (sql_update (\<lambda>t. ss_id t = ss_id cur) g ss)" "ss_revoked_at t = None" for t
    using t(1)
  proof (cases rule: in_sql_updateE)
    case (changed r0)
    then show ?thesis using t(2) replaced.hyps(6) [of r0] by simp
  next
    case same
    then show ?thesis using only t(2) replaced.hyps(5) by auto
  qed
  have old: "t = u" if tu: "t \<in> set (sql_update (\<lambda>t. ss_id t = ss_id cur) g ss)" "u \<in> set (sql_update (\<lambda>t. ss_id t = ss_id cur) g ss)"
    "ss_family_id t = ss_family_id u" "ss_revoked_at t = None" "ss_revoked_at u = None" for t u
  proof -
    have "t \<in> set ss" using tu(1) by (cases rule: in_sql_updateE) (use tu(4) replaced.hyps(6) in auto)
    moreover have "u \<in> set ss" using tu(2) by (cases rule: in_sql_updateE) (use tu(5) replaced.hyps(6) in auto)
    ultimately show ?thesis using replaced.prems tu(3-5) unfolding one_live_session_def by blast
  qed
  have "distinct (map ss_id (sql_update (\<lambda>t. ss_id t = ss_id cur) g ss @ [s]))"
    using replaced.prems replaced.hyps(4) by (simp add: ids one_live_session_def)
  then show ?case unfolding one_live_session_def using gone old by (simp add: ball_Un) metis
next
  case (revoked g ss P)
  have ids: "map ss_id (sql_update P g ss) = map ss_id ss" by (rule map_sql_update) (simp add: revoked)
  have "t \<in> set ss" if "t \<in> set (sql_update P g ss)" "ss_revoked_at t = None" for t
    using that(1) by (cases rule: in_sql_updateE) (use that(2) revoked.hyps in auto)
  then show ?case using revoked.prems unfolding one_live_session_def ids by blast
next
  case (deleted ss P)
  then show ?case by (auto simp: one_live_session_def distinct_map_filter_ids)
qed

lemma signin_steps_one_live: "signin_steps ids families ss ss' \<Longrightarrow> one_live_session ss \<Longrightarrow> one_live_session ss'"
  by (induction rule: rtranclp_induct) (auto dest: signin_step_one_live)

section \<open>What the transactions of the stores leave alone\<close>

definition leaves :: "(accounts \<Rightarrow> 'f) \<Rightarrow> 'r account_tx \<Rightarrow> bool" where
  "leaves g t \<longleftrightarrow> (\<forall>d x d'. t d = Inr (x, d') \<longrightarrow> g d' = g d)"

lemma leavesI: "(\<And>d x d'. t d = Inr (x, d') \<Longrightarrow> g d' = g d) \<Longrightarrow> leaves g t"
  by (simp add: leaves_def)

lemma leavesD: "leaves g t \<Longrightarrow> t d = Inr (x, d') \<Longrightarrow> g d' = g d"
  by (simp add: leaves_def)

lemma insert_leaves:
  "insert_user u st d = Inr d' \<Longrightarrow> acc_sessions d' = acc_sessions d"
  "insert_password i h d = Inr d' \<Longrightarrow> acc_sessions d' = acc_sessions d"
  "insert_assignment b a d = Inr d' \<Longrightarrow> acc_sessions d' = acc_sessions d"
  "insert_permission p d = Inr d' \<Longrightarrow> acc_sessions d' = acc_sessions d"
  by (auto simp: insert_user_def insert_password_def insert_assignment_def insert_permission_def Let_def split: if_splits)

lemma insert_assignments_leaves: "insert_assignments b as d = Inr d' \<Longrightarrow> acc_sessions d' = acc_sessions d"
  by (induction as arbitrary: d) (auto simp: res_bind_Inr dest: insert_leaves)

lemma add_permissions_leaves: "add_permissions r ps d = Inr d' \<Longrightarrow> acc_sessions d' = acc_sessions d"
  by (induction ps arbitrary: d) (auto simp: res_bind_Inr grant_permission_def dest!: insert_leaves)

lemma first_roles_leaves: "first_roles i r a d = Inr d' \<Longrightarrow> acc_sessions d' = acc_sessions d"
  by (auto simp: first_roles_def res_bind_Inr dest!: insert_leaves split: if_splits)

lemma replaceRolePermissions_leaves: "replaceRolePermissions r ps d = Inr d' \<Longrightarrow> acc_sessions d' = acc_sessions d"
  by (auto simp: replaceRolePermissions_def dest!: add_permissions_leaves)

lemmas insertions_leave = insert_leaves insert_assignments_leaves first_roles_leaves replaceRolePermissions_leaves

lemma user_tx_leaves:
  "leaves acc_sessions (ProvisionLocal u h r a)" "leaves acc_sessions (UpdateDisplayName i n)" "leaves acc_sessions (SetStatus i st)"
  "leaves acc_sessions (SetEnabled i b)" "leaves acc_sessions (SetPasswordHash i h)" "leaves acc_sessions (CreateIdentity x)"
  "leaves acc_sessions (DeleteIdentity i p s)" "leaves acc_sessions (ProvisionOIDC u r a x)"
proof -
  show idt: "leaves acc_sessions (CreateIdentity x)" for x by (rule leavesI) (auto simp: CreateIdentity_def split: if_splits)
  show "leaves acc_sessions (ProvisionLocal u h r a)"
    by (rule leavesI) (auto simp: ProvisionLocal_def res_bind_Inr dest!: insertions_leave split: option.splits)
  show "leaves acc_sessions (ProvisionOIDC u r a x)"
    by (rule leavesI) (auto simp: ProvisionOIDC_def res_bind_Inr dest!: insertions_leave leavesD [OF idt] split: option.splits)
  show st: "leaves acc_sessions (SetStatus i st)" for st by (rule leavesI) (auto simp: SetStatus_def Let_def split: if_splits)
  show "leaves acc_sessions (SetEnabled i b)" by (simp add: SetEnabled_def st)
qed (auto intro!: leavesI simp: UpdateDisplayName_def SetPasswordHash_def DeleteIdentity_def Let_def split: if_splits option.splits)

lemma role_tx_leaves:
  "leaves acc_sessions (Role_Ensure i n s b ps)" "leaves acc_sessions (Role_Create i n s ps)" "leaves acc_sessions (Role_Rename i n)"
  "leaves acc_sessions (ReplacePermissions i ps)" "leaves acc_sessions (Role_Delete i)" "leaves acc_sessions (Role_Assign u i st sk)"
  "leaves acc_sessions (UnassignSource u i st)" "leaves acc_sessions (Role_Unassign u i)" "leaves acc_sessions (ReplaceSourceAssignments i st us)"
  "leaves acc_sessions (ReplaceSSOAssignments u p gs)" "leaves acc_sessions (Config_Set n v)" "leaves acc_sessions (SetAuthenticationSettings b1 b2 r b3)"
proof -
  show en: "leaves acc_sessions (Role_Ensure i n s b ps)" for b
    by (rule leavesI) (auto simp: Role_Ensure_def res_bind_Inr dest!: insertions_leave split: if_splits)
  show "leaves acc_sessions (Role_Create i n s ps)" unfolding Role_Create_def by (rule en)
  show un: "leaves acc_sessions (UnassignSource u i st)" for st by (rule leavesI) (auto simp: UnassignSource_def Let_def split: if_splits)
  show "leaves acc_sessions (Role_Unassign u i)" unfolding Role_Unassign_def by (rule un)
qed (auto intro!: leavesI simp: Role_Rename_def ReplacePermissions_def Role_Delete_def Role_Assign_def ReplaceSourceAssignments_def ReplaceSSOAssignments_def
    Config_Set_def SetAuthenticationSettings_def res_bind_Inr dest!: insertions_leave split: if_splits)

section \<open>Sign-in sessions under the operations of the service\<close>

definition signins_evolve :: "string set \<Rightarrow> string set \<Rightarrow> AuthService \<Rightarrow> AuthService \<Rightarrow> bool" where
  "signins_evolve ids families w w' \<longleftrightarrow> signin_steps ids families (acc_sessions (au_db w)) (acc_sessions (au_db w'))"

definition families_unused :: "string set \<Rightarrow> AuthService \<Rightarrow> bool" where
  "families_unused families w \<longleftrightarrow> families \<inter> ss_family_id ` set (acc_sessions (au_db w)) = {}"

lemma signin_step_families:
  "signin_step ids {} ss ss' \<Longrightarrow> ss_family_id ` set ss' \<subseteq> ss_family_id ` set ss"
proof (induction rule: signin_step.induct)
  case (replaced cur ss s f)
  have "ss_family_id ` set (sql_update P f ss) = ss_family_id ` set ss" for P
    by (metis (no_types, lifting) map_sql_update replaced(6) set_map)
  then show ?case using replaced by auto
next
  case (revoked f ss P)
  have "ss_family_id ` set (sql_update P f ss) = ss_family_id ` set ss"
    by (metis (no_types, lifting) map_sql_update revoked(1) set_map)
  then show ?case by auto
qed auto

lemma signin_step_mono: "signin_step ids {} ss ss' \<Longrightarrow> signin_step ids families ss ss'"
proof (induction rule: signin_step.induct)
  case (replaced cur ss s f)
  then show ?case by (rule signin_step.replaced)
next
  case (revoked f ss P)
  then show ?case by (rule signin_step.revoked)
next
  case (deleted ss P)
  show ?case by (rule signin_step.deleted)
qed simp

lemma signin_steps_mono: "signin_steps ids {} ss ss' \<Longrightarrow> signin_steps ids families ss ss'"
  by (rule mono_rtranclp [rule_format]) (rule signin_step_mono)

lemma signin_steps_families: "signin_steps ids {} ss ss' \<Longrightarrow> ss_family_id ` set ss' \<subseteq> ss_family_id ` set ss"
proof (induction rule: rtranclp_induct)
  case (step y z)
  then show ?case using signin_step_families [OF step(2)] by order
qed simp

interpretation signin: auth_final "signins_evolve ids {}" "families_unused families" "signins_evolve ids families" for ids families
proof unfold_locales
  show "signins_evolve ids {} w w" for w by (simp add: signins_evolve_def)
  show "signins_evolve ids {} a b \<Longrightarrow> signins_evolve ids {} b c \<Longrightarrow> signins_evolve ids {} a c" for a b c
    unfolding signins_evolve_def by (rule rtranclp_trans)
  show "signins_evolve ids {} a b \<Longrightarrow> signins_evolve ids families a b" for a b
    unfolding signins_evolve_def by (rule signin_steps_mono)
  show "signins_evolve ids {} a b \<Longrightarrow> signins_evolve ids families b c \<Longrightarrow> signins_evolve ids families a c" for a b c
    unfolding signins_evolve_def by (drule signin_steps_mono) (rule rtranclp_trans)
  show "signins_evolve ids {} a b \<Longrightarrow> families_unused families a \<Longrightarrow> families_unused families b" for a b
    unfolding signins_evolve_def families_unused_def by (drule signin_steps_families) blast
qed

lemma signin_same: "(\<And>w. acc_sessions (au_db (snd (m w))) = acc_sessions (au_db w)) \<Longrightarrow> keeps (signins_evolve ids {}) m"
  by (simp add: keeps_def signins_evolve_def)

lemma signin_tx:
  assumes "leaves acc_sessions t"
  shows "keeps (signins_evolve ids {}) (au_tx t)" "keeps (signins_evolve ids {}) (au_tx_as e t)"
  using leavesD [OF assms]
  by (auto intro!: signin_same simp: au_tx_def au_tx_as_def split: sum.splits)

lemma signin_revoke_where: "keeps (signins_evolve ids {}) (au_write (revoke_where now P))"
proof -
  have "signin_step ids {} (acc_sessions d) (acc_sessions (revoke_where now P d))" for d
    unfolding revoke_where_def by (simp, rule signin_step.revoked) (simp add: revoke_signin_def)
  then show ?thesis by (simp add: keeps_def au_write_def signins_evolve_def r_into_rtranclp)
qed

lemma signin_basic:
  "keeps (signins_evolve ids {}) (Guard_Add u)" "keeps (signins_evolve ids {}) (Guard_Set us)"
  "keeps (signins_evolve ids {}) (Logout now i)" "keeps (signins_evolve ids {}) (LogoutAll now u)"
  unfolding Logout_def LogoutAll_def Session_Revoke_def RevokeUser_def
  by (rule signin_same, simp add: Guard_Add_def Guard_Set_def signin_revoke_where)+ (rule signin_revoke_where)+

lemma signin_modify:
  "(\<And>w. au_db (f w) = au_db w) \<Longrightarrow> keeps (signins_evolve ids {}) (au_modify f)"
  by (rule signin_same) (simp add: au_modify_def)

lemma signin_guard_remove: "keeps (signins_evolve ids {}) m \<Longrightarrow> keeps (signins_evolve ids {}) (Guard_Remove u m)"
  by (erule signin.keeps_Guard_Remove) (simp add: signins_evolve_def)

lemmas signin_keeps = signin.keeps_steps signin_basic signin_guard_remove signin_tx [OF user_tx_leaves(1)] signin_tx [OF user_tx_leaves(2)]
  signin_tx [OF user_tx_leaves(3)] signin_tx [OF user_tx_leaves(4)] signin_tx [OF user_tx_leaves(5)] signin_tx [OF user_tx_leaves(6)]
  signin_tx [OF user_tx_leaves(7)] signin_tx [OF user_tx_leaves(8)] signin_tx [OF role_tx_leaves(1)] signin_tx [OF role_tx_leaves(2)]
  signin_tx [OF role_tx_leaves(3)] signin_tx [OF role_tx_leaves(4)] signin_tx [OF role_tx_leaves(5)] signin_tx [OF role_tx_leaves(6)]
  signin_tx [OF role_tx_leaves(7)] signin_tx [OF role_tx_leaves(8)] signin_tx [OF role_tx_leaves(9)] signin_tx [OF role_tx_leaves(10)]
  signin_tx [OF role_tx_leaves(11)] signin_tx [OF role_tx_leaves(12)]

lemma signin_roles:
  "keeps (signins_evolve ids {}) (Grant u r)" "keeps (signins_evolve ids {}) (Auth_Revoke u r)" "keeps (signins_evolve ids {}) (AddRole r ps)"
  "keeps (signins_evolve ids {}) (RoleAdmin_Create env n ps)" "keeps (signins_evolve ids {}) (RoleAdmin_ReplacePermissions r ps)"
  "keeps (signins_evolve ids {}) (RoleAdmin_Rename r n)" "keeps (signins_evolve ids {}) (RoleAdmin_Delete r)"
  "keeps (signins_evolve ids {}) (RoleAdmin_Seed r ps)" "keeps (signins_evolve ids {}) (RoleAdmin_Assign u r)"
  "keeps (signins_evolve ids {}) (RoleAdmin_Unassign u r)"
  unfolding Grant_def Auth_Revoke_def AddRole_def RoleAdmin_Create_def RoleAdmin_ReplacePermissions_def RoleAdmin_Rename_def RoleAdmin_Delete_def
    RoleAdmin_Seed_def RoleAdmin_Assign_def RoleAdmin_Unassign_def
  by (intro signin_keeps signin_modify; simp)+

lemma signin_settings:
  "keeps (signins_evolve ids {}) (UpdateAuthSettings b1 b2 r b3)" "keeps (signins_evolve ids {}) (SetDefaultRole r)"
  "keeps (signins_evolve ids {}) (SetDefaultRoleID r)" "keeps (signins_evolve ids {}) (UpdateLockdownScheduler b)"
  "keeps (signins_evolve ids {}) (SetSystemAdminEmails L es)"
  unfolding UpdateAuthSettings_def SetDefaultRole_def SetDefaultRoleID_def UpdateLockdownScheduler_def SetSystemAdminEmails_def Let_def
  by (intro signin_keeps signin_modify; simp)+

lemma signin_registrationRoles: "keeps (signins_evolve ids {}) (registrationRoles r b)"
  unfolding registrationRoles_def by (intro signin_keeps)

lemma signin_registerWithStatus: "keeps (signins_evolve ids {}) (registerWithStatus L env email password b st)"
  unfolding registerWithStatus_def Let_def by (intro signin_keeps signin_registrationRoles)

lemma signin_accounts:
  "keeps (signins_evolve ids {}) (Auth_Register L env email password)" "keeps (signins_evolve ids {}) (EnsureBootstrap L env email password)"
  "keeps (signins_evolve ids {}) (DisableUser now u)" "keeps (signins_evolve ids {}) (ApproveUser now u)"
  "keeps (signins_evolve ids {}) (UpdateProfile u n)" "keeps (signins_evolve ids {}) (ChangePassword L env u old_password new_password)"
  "keeps (signins_evolve ids {}) (LinkOIDC u p sub)" "keeps (signins_evolve ids {}) (UnlinkOIDC u i)"
  unfolding Auth_Register_def EnsureBootstrap_def DisableUser_def ApproveUser_def UpdateProfile_def ChangePassword_def LinkOIDC_def UnlinkOIDC_def Let_def
  by (intro signin_keeps signin_roles signin_registerWithStatus)+

lemma signin_IssueForSession: "keeps (signins_evolve ids {}) (IssueForSession L clock u i)"
  unfolding IssueForSession_def by (intro signin_keeps)

lemma signin_oidc:
  "keeps (signins_evolve ids {}) (provisionOIDCUser env p sub email r b)" "keeps (signins_evolve ids {}) (syncOIDCRoleAssignments u p gs)"
  unfolding provisionOIDCUser_def syncOIDCRoleAssignments_def Let_def
  by (intro signin_keeps signin_registrationRoles)+

text \<open>Opening a session, and replacing one.\<close>

lemma insert_signin_Inr:
  assumes "insert_signin now s d = Inr d'"
  shows "acc_sessions d' = acc_sessions d @
      [\<lparr>ss_id = sr_ID s, ss_user_id = sr_UserID s, ss_refresh_token_hash = sr_RefreshTokenHash s,
        ss_access_expires_at = sr_AccessExpiresAt s, ss_refresh_expires_at = sr_RefreshExpiresAt s, ss_family_id = sr_FamilyID s,
        ss_user_agent = sr_UserAgent s, ss_ip_address = sr_IPAddress s, ss_last_seen_at = sr_LastSeenAt s, ss_created_at = now,
        ss_revoked_at = None\<rparr>]"
    and "sr_ID s \<notin> ss_id ` set (acc_sessions d)" and "d'\<lparr>acc_sessions := acc_sessions d\<rparr> = d"
  using assms by (auto simp: insert_signin_def list_ex_iff split: if_splits)

definition drawn :: "nat \<Rightarrow> auth_env \<Rightarrow> string set" where
  "drawn k env = set_option (randomID k env)"

lemma signin_open:
  assumes "ident \<in> ids" "family \<in> families" "sr_ID s = ident" "sr_FamilyID s = family"
  shows "keeps_from (families_unused families) (signins_evolve ids families) (au_tx (Session_Create now s))"
  unfolding keeps_from_def
proof (intro allI impI)
  fix w assume unused: "families_unused families w"
  show "signins_evolve ids families w (snd (au_tx (Session_Create now s) w))"
  proof (cases "insert_signin now s (au_db w)")
    case (Inl e)
    then show ?thesis by (simp add: au_tx_def Session_Create_def signins_evolve_def)
  next
    case (Inr d')
    have "signin_step ids families (acc_sessions (au_db w)) (acc_sessions d')"
      unfolding insert_signin_Inr(1) [OF Inr]
      by (rule signin_step.opened) (use assms unused insert_signin_Inr(2) [OF Inr] in \<open>auto simp: families_unused_def\<close>)
    then show ?thesis using Inr by (simp add: au_tx_def Session_Create_def signins_evolve_def r_into_rtranclp)
  qed
qed

lemma signin_issueTokens:
  "keeps_from (families_unused (drawn 2 env)) (signins_evolve (drawn 0 env) (drawn 2 env)) (issueTokens L env u)"
proof -
  have "keeps_from (families_unused (drawn 2 env)) (signins_evolve (drawn 0 env) (drawn 2 env))
      (au_bind (IssueForSession L (ev_clock env) u sessionID) (\<lambda>accessToken. au_read (\<lambda>w.
         au_bind (au_tx (Session_Create (ev_sqlnow env) ((new_session L (ev_now env) w sessionID u refreshToken)\<lparr>sr_FamilyID := familyID\<rparr>))) (\<lambda>_.
           au_ret \<lparr>at_AccessToken = accessToken, at_RefreshToken = refreshToken, at_SessionID = sessionID\<rparr>))))"
    if "randomID 0 env = Some sessionID" "randomID 2 env = Some familyID" for sessionID refreshToken familyID
    by (intro signin.from_bind [OF signin_IssueForSession] signin.from_read signin.from_bind_ret signin_open)
      (simp_all add: that drawn_def new_session_def)
  then show ?thesis unfolding issueTokens_def by (intro signin.from_bind_option)
qed

lemma signin_Login: "keeps_from (families_unused (drawn 2 env)) (signins_evolve (drawn 0 env) (drawn 2 env)) (Login L env email password)"
proof -
  have "keeps (signins_evolve ids {}) (au_write (\<lambda>d. case SetPasswordHash u h d of Inl _ \<Rightarrow> d | Inr (_, d') \<Rightarrow> d'))" for ids u h
    by (rule signin_same) (auto simp: au_write_def split: sum.splits dest: leavesD [OF user_tx_leaves(5)])
  then show ?thesis
    unfolding Login_def by (intro signin.from_steps signin_issueTokens signin_keeps)
qed

lemma signin_loginOIDC:
  "keeps_from (families_unused (drawn 2 env)) (signins_evolve (drawn 0 env) (drawn 2 env)) (loginOIDC L env0 env p sub email b gs)"
  unfolding loginOIDC_def Let_def by (intro signin.from_steps signin_issueTokens signin_keeps signin_oidc)

definition replaced_by :: "time \<Rightarrow> signin_row \<Rightarrow> signin_row" where
  "replaced_by now s = s\<lparr>ss_revoked_at := Some now, ss_last_seen_at := now\<rparr>"

lemma Rotate_cases:
  obtains (unknown) "Session_Get ident d = None" "Rotate clock now ident hash s d = (Inl SessionInvalid, d)"
    | (replay) cur where "Session_Get ident d = Some cur" "ss_revoked_at cur \<noteq> None \<or> \<not> clock < ss_refresh_expires_at cur \<or> ss_refresh_token_hash cur \<noteq> hash"
        "Rotate clock now ident hash s d = (Inl SessionReplay,
           d\<lparr>acc_sessions := sql_update (\<lambda>t. ss_family_id t = ss_family_id cur) (revoke_signin now) (acc_sessions d)\<rparr>)"
    | (failed) cur e where "Session_Get ident d = Some cur" "Rotate clock now ident hash s d = (Inl e, d)"
    | (rotated) cur s' d' where "Session_Get ident d = Some cur" "ss_revoked_at cur = None" "clock < ss_refresh_expires_at cur" "ss_refresh_token_hash cur = hash"
        "s' = s\<lparr>sr_UserID := ss_user_id cur, sr_FamilyID := ss_family_id cur, sr_UserAgent := ss_user_agent cur, sr_IPAddress := ss_ip_address cur\<rparr>"
        "insert_signin now s' (d\<lparr>acc_sessions := sql_update (\<lambda>t. ss_id t = ident) (replaced_by now) (acc_sessions d)\<rparr>) = Inr d'"
        "Rotate clock now ident hash s d = (Inr (), d')"
proof (cases "Session_Get ident d")
  case None
  then show ?thesis by (intro unknown) (simp_all add: Rotate_def)
next
  case (Some cur)
  show ?thesis
  proof (cases "ss_revoked_at cur \<noteq> None \<or> \<not> clock < ss_refresh_expires_at cur \<or> ss_refresh_token_hash cur \<noteq> hash")
    case True
    then show ?thesis by (intro replay [OF Some]) (auto simp: Rotate_def Some)
  next
    case False
    let ?d1 = "d\<lparr>acc_sessions := sql_update (\<lambda>t. ss_id t = ident) (replaced_by now) (acc_sessions d)\<rparr>"
    let ?s = "s\<lparr>sr_UserID := ss_user_id cur, sr_FamilyID := ss_family_id cur, sr_UserAgent := ss_user_agent cur, sr_IPAddress := ss_ip_address cur\<rparr>"
    have R: "Rotate clock now ident hash s d = (case insert_signin now ?s ?d1 of Inl e \<Rightarrow> (Inl e, d) | Inr d2 \<Rightarrow> (Inr (), d2))"
      using False by (simp add: Rotate_def Some Let_def replaced_by_def [abs_def])
    show ?thesis
    proof (cases "insert_signin now ?s ?d1")
      case (Inl e)
      then show ?thesis by (intro failed [OF Some]) (simp add: R)
    next
      case (Inr d')
      then show ?thesis using False by (intro rotated [OF Some _ _ _ refl Inr]) (simp_all add: R)
    qed
  qed
qed

lemma Session_Get_Some: "Session_Get ident d = Some cur \<Longrightarrow> cur \<in> set (acc_sessions d) \<and> ss_id cur = ident"
  by (auto simp: Session_Get_def find_row_def find_Some_iff)

lemma signin_Rotate:
  assumes "sr_ID s \<in> ids"
  shows "signin_steps ids {} (acc_sessions d) (acc_sessions (snd (Rotate clock now ident hash s d)))"
proof (cases rule: Rotate_cases [of ident d clock now hash s])
  case (replay cur)
  have "signin_step ids {} (acc_sessions d) (sql_update (\<lambda>t. ss_family_id t = ss_family_id cur) (revoke_signin now) (acc_sessions d))"
    by (rule signin_step.revoked) (simp add: revoke_signin_def)
  then show ?thesis using replay(3) by (simp add: r_into_rtranclp)
next
  case (rotated cur s' d')
  note new = insert_signin_Inr [OF rotated(6)] and cur = Session_Get_Some [OF rotated(1)]
  have "map ss_id (sql_update (\<lambda>t. ss_id t = ident) (replaced_by now) (acc_sessions d)) = map ss_id (acc_sessions d)"
    by (rule map_sql_update) (simp add: replaced_by_def)
  then have "ss_id ` set (sql_update (\<lambda>t. ss_id t = ident) (replaced_by now) (acc_sessions d)) = ss_id ` set (acc_sessions d)"
    by (metis list.set_map)
  then have "sr_ID s \<notin> ss_id ` set (acc_sessions d)" using new(2) by (simp add: rotated(5))
  then have "signin_step ids {} (acc_sessions d) (acc_sessions d')"
    unfolding new(1) using cur rotated(2) assms
    by (simp, intro signin_step.replaced [of cur, unfolded conjunct2 [OF cur]]) (simp_all add: rotated(5) replaced_by_def)
  then show ?thesis using rotated(7) by (simp add: r_into_rtranclp)
qed simp_all

lemma IssueForSession_state [simp]: "snd (IssueForSession L clock u i w) = w"
  by (simp add: IssueForSession_def au_read_def au_fail_def au_ret_def Let_def)

lemma signin_Refresh: "keeps (signins_evolve (drawn 0 env) {}) (Refresh L env i token)"
proof -
  have "keeps (signins_evolve (drawn 0 env) {}) (\<lambda>w1.
      case Rotate (ev_now env) (ev_sqlnow env) i (al_hash_token L token) (new_session L (ev_now env) w newID [] newToken) (au_db w1) of
        (Inl _, d) \<Rightarrow> (Inl AuthRefreshInvalid, w1\<lparr>au_db := d\<rparr>)
      | (Inr (), d) \<Rightarrow> (Inr \<lparr>at_AccessToken = access, at_RefreshToken = newToken, at_SessionID = newID\<rparr>, w1\<lparr>au_db := d\<rparr>))"
    if "randomID 0 env = Some newID" for newID newToken access w
    unfolding keeps_def signins_evolve_def
  proof
    fix w1
    let ?r = "Rotate (ev_now env) (ev_sqlnow env) i (al_hash_token L token) (new_session L (ev_now env) w newID [] newToken) (au_db w1)"
    have "signin_steps (drawn 0 env) {} (acc_sessions (au_db w1)) (acc_sessions (snd ?r))"
      by (rule signin_Rotate) (simp add: new_session_def drawn_def that)
    then show "signin_steps (drawn 0 env) {} (acc_sessions (au_db w1)) (acc_sessions (au_db (snd (case ?r of
        (Inl _, d) \<Rightarrow> (Inl AuthRefreshInvalid, w1\<lparr>au_db := d\<rparr>)
      | (Inr (), d) \<Rightarrow> (Inr \<lparr>at_AccessToken = access, at_RefreshToken = newToken, at_SessionID = newID\<rparr>, w1\<lparr>au_db := d\<rparr>)))))"
      by (cases ?r) (simp split: sum.splits unit.splits)
  qed
  then show ?thesis
    unfolding Refresh_def by (intro signin.keeps_read signin.keeps_bind_option signin.keeps_bind [OF signin_IssueForSession])
qed

section \<open>Requests to the service\<close>

text \<open>The operations that the control plane offers, in any order, each with its own draws and clocks.\<close>

datatype auth_op =
    OpRegister auth_env string string | OpBootstrap auth_env string string | OpLogin auth_env string string
  | OpLoginOIDC auth_env auth_env string string string bool "string list" | OpRefresh auth_env string string
  | OpLogout time string | OpLogoutAll time string | OpDisable time string | OpApprove time string | OpProfile string string
  | OpPassword auth_env string string string | OpLink string string string | OpUnlink string string
  | OpGrant string string | OpRevoke string string | OpAddRole string "string list" | OpRoleCreate auth_env string "string list"
  | OpRolePermissions string "string list" | OpRoleRename string string | OpRoleDelete string | OpRoleSeed string "string list"
  | OpRoleAssign string string | OpRoleUnassign string string | OpSettings bool bool string "bool option" | OpDefaultRole string
  | OpLockdown bool | OpSystemAdmins "string list" | OpCleanup time

definition au_done :: "'r auth \<Rightarrow> unit auth" where
  "au_done m = au_bind m (\<lambda>_. au_ret ())"

fun auth_serve :: "auth_lib \<Rightarrow> auth_op \<Rightarrow> unit auth" where
  "auth_serve L (OpRegister env e p) = au_done (Auth_Register L env e p)"
| "auth_serve L (OpBootstrap env e p) = au_done (EnsureBootstrap L env e p)"
| "auth_serve L (OpLogin env e p) = au_done (Login L env e p)"
| "auth_serve L (OpLoginOIDC env0 env p sub e b gs) = au_done (loginOIDC L env0 env p sub e b gs)"
| "auth_serve L (OpRefresh env i token) = au_done (Refresh L env i token)"
| "auth_serve L (OpLogout now i) = Logout now i"
| "auth_serve L (OpLogoutAll now u) = LogoutAll now u"
| "auth_serve L (OpDisable now u) = DisableUser now u"
| "auth_serve L (OpApprove now u) = ApproveUser now u"
| "auth_serve L (OpProfile u n) = UpdateProfile u n"
| "auth_serve L (OpPassword env u old_password new_password) = ChangePassword L env u old_password new_password"
| "auth_serve L (OpLink u p sub) = LinkOIDC u p sub"
| "auth_serve L (OpUnlink u i) = UnlinkOIDC u i"
| "auth_serve L (OpGrant u r) = Grant u r"
| "auth_serve L (OpRevoke u r) = Auth_Revoke u r"
| "auth_serve L (OpAddRole r ps) = AddRole r ps"
| "auth_serve L (OpRoleCreate env n ps) = RoleAdmin_Create env n ps"
| "auth_serve L (OpRolePermissions r ps) = RoleAdmin_ReplacePermissions r ps"
| "auth_serve L (OpRoleRename r n) = RoleAdmin_Rename r n"
| "auth_serve L (OpRoleDelete r) = RoleAdmin_Delete r"
| "auth_serve L (OpRoleSeed r ps) = RoleAdmin_Seed r ps"
| "auth_serve L (OpRoleAssign u r) = RoleAdmin_Assign u r"
| "auth_serve L (OpRoleUnassign u r) = RoleAdmin_Unassign u r"
| "auth_serve L (OpSettings b1 b2 r b3) = UpdateAuthSettings b1 b2 r b3"
| "auth_serve L (OpDefaultRole r) = SetDefaultRoleID r"
| "auth_serve L (OpLockdown b) = UpdateLockdownScheduler b"
| "auth_serve L (OpSystemAdmins es) = SetSystemAdminEmails L es"
| "auth_serve L (OpCleanup cutoff) = au_tx (DeleteOlderThan cutoff)"

definition auth_perform :: "auth_lib \<Rightarrow> auth_op \<Rightarrow> AuthService \<Rightarrow> AuthService" where
  "auth_perform L op w = snd (auth_serve L op w)"

definition auth_run :: "auth_lib \<Rightarrow> auth_op list \<Rightarrow> AuthService \<Rightarrow> AuthService" where
  "auth_run L ops w = fold (auth_perform L) ops w"

text \<open>The identifiers that an operation draws for a session and for a family of sessions.\<close>

fun session_draws :: "auth_op \<Rightarrow> string set" where
  "session_draws (OpLogin env e p) = drawn 0 env"
| "session_draws (OpLoginOIDC env0 env p sub e b gs) = drawn 0 env"
| "session_draws (OpRefresh env i token) = drawn 0 env"
| "session_draws _ = {}"

fun family_draws :: "auth_op \<Rightarrow> string set" where
  "family_draws (OpLogin env e p) = drawn 2 env"
| "family_draws (OpLoginOIDC env0 env p sub e b gs) = drawn 2 env"
| "family_draws _ = {}"

text \<open>The random source never yields a family that is in use.\<close>

fun fresh_run :: "auth_lib \<Rightarrow> auth_op list \<Rightarrow> AuthService \<Rightarrow> bool" where
  "fresh_run L [] w \<longleftrightarrow> True"
| "fresh_run L (op # ops) w \<longleftrightarrow> families_unused (family_draws op) w \<and> fresh_run L ops (auth_perform L op w)"

lemma auth_run_simps [simp]: "auth_run L [] w = w" "auth_run L (op # ops) w = auth_run L ops (auth_perform L op w)"
  by (simp_all add: auth_run_def)

lemma au_done_state [simp]: "snd (au_done m w) = snd (m w)"
  by (simp add: au_done_def au_bind_def au_ret_def split: prod.splits sum.splits)

lemma signin_cleanup: "keeps (signins_evolve ids {}) (au_tx (DeleteOlderThan cutoff))"
proof -
  have "signin_steps ids {} (acc_sessions d) (acc_sessions d')" if "DeleteOlderThan cutoff d = Inr (u, d')" for d u d'
    using that signin_step.deleted [of ids "{}" "acc_sessions d"]
    by (auto simp: DeleteOlderThan_def split: if_splits intro!: r_into_rtranclp)
  then show ?thesis by (intro signin.keeps_tx) (simp add: signins_evolve_def)
qed

lemma auth_perform_evolves:
  assumes "families_unused (family_draws op) w"
  shows "signins_evolve (session_draws op) (family_draws op) w (auth_perform L op w)"
proof (cases op)
  case (OpLogin env e p)
  then show ?thesis using assms signin_Login [of env L e p] by (simp add: auth_perform_def keeps_from_def)
next
  case (OpLoginOIDC env0 env p sub e b gs)
  then show ?thesis using assms signin_loginOIDC [of env L env0 p sub e b gs] by (simp add: auth_perform_def keeps_from_def)
next
  case (OpRefresh env i token)
  then show ?thesis using signin_Refresh [of env L i token] by (simp add: auth_perform_def keeps_def)
qed (use signin_accounts signin_basic(3,4) signin_roles signin_settings signin_cleanup in \<open>auto simp: auth_perform_def keeps_def\<close>)

lemma run_one_live:
  assumes "fresh_run L ops w" "one_live_session (acc_sessions (au_db w))"
  shows "one_live_session (acc_sessions (au_db (auth_run L ops w)))"
  using assms
proof (induction ops arbitrary: w)
  case (Cons op ops)
  have "one_live_session (acc_sessions (au_db (auth_perform L op w)))"
    using auth_perform_evolves [of op w L] Cons.prems unfolding signins_evolve_def by (auto intro: signin_steps_one_live)
  then show ?case using Cons by simp
qed simp

lemma run_dead_family:
  assumes "fresh_run L ops w" "f \<notin> \<Union> (family_draws ` set ops)" "dead_family f (acc_sessions (au_db w))"
  shows "dead_family f (acc_sessions (au_db (auth_run L ops w)))"
  using assms
proof (induction ops arbitrary: w)
  case (Cons op ops)
  have "dead_family f (acc_sessions (au_db (auth_perform L op w)))"
    using auth_perform_evolves [of op w L] Cons.prems unfolding signins_evolve_def by (auto intro: signin_steps_dead(1))
  then show ?case using Cons by simp
qed simp

lemma run_dead_session:
  assumes "fresh_run L ops w" "i \<notin> \<Union> (session_draws ` set ops)" "dead_session i (acc_sessions (au_db w))"
  shows "dead_session i (acc_sessions (au_db (auth_run L ops w)))"
  using assms
proof (induction ops arbitrary: w)
  case (Cons op ops)
  have "dead_session i (acc_sessions (au_db (auth_perform L op w)))"
    using auth_perform_evolves [of op w L] Cons.prems unfolding signins_evolve_def by (auto intro: signin_steps_dead(2))
  then show ?case using Cons by simp
qed simp

text \<open>What an accepted access token and an accepted refresh token rest on.\<close>

lemma token_verify_Some:
  assumes "token_verify L secret clock now d token = Some p"
  obtains version body signature where "Split (CHR ''.'') token = [version, body, signature]" "version = accessTokenVersion"
    "url_decode signature = Some (hmac (al_password L) secret (bytes_of (version @ ''.'' @ body)))"
    "map_option (al_unmarshal L) (url_decode body) = Some (Some p)"
    "unix_seconds clock < tp_ExpiresAt p" "Session_Active now (tp_SessionID p) (tp_UserID p) d"
proof -
  obtain version body signature where split: "Split (CHR ''.'') token = [version, body, signature]"
    using assms by (auto simp: token_verify_def split: list.splits)
  show ?thesis
    using assms that [OF split] unfolding token_verify_def split by (auto split: if_splits option.splits)
qed

lemma Session_ActiveE:
  assumes "Session_Active now i u d"
  obtains s where "s \<in> set (acc_sessions d)" "ss_id s = i" "ss_user_id s = u" "ss_revoked_at s = None" "now < ss_access_expires_at s"
  using assms by (auto simp: Session_Active_def list_ex_iff)

lemma Session_Authenticator_Some:
  assumes "Session_Authenticator L clock now header cookie w = Some c"
  obtains token p where "request_token header cookie = Some token" "token_verify L (au_secret w) clock now (au_db w) token = Some p"
    "c = \<lparr>cl_UserID = tp_UserID p, cl_SessionID = tp_SessionID p\<rparr>"
  using assms by (auto simp: Session_Authenticator_def split: option.splits)

lemma authenticated_session:
  assumes "Session_Authenticator L clock now header cookie w = Some c"
  shows "\<exists>s \<in> set (acc_sessions (au_db w)). ss_id s = cl_SessionID c \<and> ss_user_id s = cl_UserID c \<and> ss_revoked_at s = None \<and> now < ss_access_expires_at s"
  using assms by (elim Session_Authenticator_Some token_verify_Some Session_ActiveE) auto

lemma au_bind_Inr: "au_bind m f w = (Inr y, w') \<longleftrightarrow> (\<exists>x w1. m w = (Inr x, w1) \<and> f x w1 = (Inr y, w'))"
  by (auto simp: au_bind_def split: prod.splits sum.splits)

lemma au_option_Inr: "au_option e a w = (Inr y, w') \<longleftrightarrow> a = Some y \<and> w' = w"
  by (auto simp: au_option_def split: option.splits)

lemma au_tx_Inr: "au_tx t w = (Inr x, w') \<longleftrightarrow> (\<exists>d. t (au_db w) = Inr (x, d) \<and> w' = w\<lparr>au_db := d\<rparr>)"
  by (auto simp: au_tx_def split: sum.splits)

lemma au_simps:
  "au_ret x w = (Inr x, w)" "au_fail e w = (Inl e, w)" "au_read f w = f w w" "au_modify g w = (Inr (), g w)"
  "au_write h w = (Inr (), w\<lparr>au_db := h (au_db w)\<rparr>)" "au_require e b w = (if b then (Inr (), w) else (Inl e, w))"
  by (simp_all add: au_ret_def au_fail_def au_read_def au_modify_def au_write_def au_require_def)

lemmas au_results = au_bind_Inr au_option_Inr au_tx_Inr au_simps

lemma IssueForSession_Inr: "IssueForSession L clock u i w = (Inr t, w') \<longleftrightarrow>
    w' = w \<and> TrimSpace u \<noteq> [] \<and> TrimSpace i \<noteq> [] \<and> au_access_lifetime w > 0
    \<and> t = token_sign L (au_secret w) \<lparr>tp_UserID = u, tp_SessionID = i, tp_ExpiresAt = unix_seconds (clock + au_access_lifetime w)\<rparr>"
  by (auto simp: IssueForSession_def au_results)

lemma Refresh_Inr:
  assumes "Refresh L env i token w = (Inr t, w')"
  obtains cur newID newToken where "Session_Get i (au_db w) = Some cur" "ss_revoked_at cur = None" "ev_now env < ss_refresh_expires_at cur"
    "ss_refresh_token_hash cur = al_hash_token L token" "randomID 0 env = Some newID" "randomID 1 env = Some newToken"
    "Rotate (ev_now env) (ev_sqlnow env) i (al_hash_token L token) (new_session L (ev_now env) w newID [] newToken) (au_db w) = (Inr (), au_db w')"
    "at_SessionID t = newID" "at_RefreshToken t = newToken"
proof -
  obtain cur newID newToken access where *: "Session_Get i (au_db w) = Some cur" "randomID 0 env = Some newID" "randomID 1 env = Some newToken"
    "(case Rotate (ev_now env) (ev_sqlnow env) i (al_hash_token L token) (new_session L (ev_now env) w newID [] newToken) (au_db w) of
        (Inl _, d) \<Rightarrow> (Inl AuthRefreshInvalid, w\<lparr>au_db := d\<rparr>)
      | (Inr (), d) \<Rightarrow> (Inr \<lparr>at_AccessToken = access, at_RefreshToken = newToken, at_SessionID = newID\<rparr>, w\<lparr>au_db := d\<rparr>)) = (Inr t, w')"
    using assms unfolding Refresh_def by (auto simp: au_results IssueForSession_Inr)
  show ?thesis
  proof (cases rule: Rotate_cases [of i "au_db w" "ev_now env" "ev_sqlnow env" "al_hash_token L token" "new_session L (ev_now env) w newID [] newToken"])
    case (rotated cur2 s' d')
    have cur: "cur2 = cur" using rotated(1) *(1) by simp
    have w': "t = \<lparr>at_AccessToken = access, at_RefreshToken = newToken, at_SessionID = newID\<rparr> \<and> w' = w\<lparr>au_db := d'\<rparr>"
      using *(4) unfolding rotated(7) by (simp split: unit.splits)
    show ?thesis
      by (rule that [OF *(1) _ _ _ *(2,3)]) (use rotated(2-4,7) w' cur in simp_all)
  qed (use *(4) in simp_all)
qed

end
