(* ===== verification/AccountProperties.thy ===== *)
theory AccountProperties
  imports AuthenticationFacts TimeFormat
begin

text \<open>
  The properties of accounts and sign-in sessions, and the service that their witnesses run on: two
  administrators and one user, with a session of each.
\<close>

section \<open>A concrete service\<close>

text \<open>
  The parameters of the service. In place of JSON: the sign and the digits of the expiry, the length of
  the user's identifier, and the two identifiers.
\<close>

definition demo_marshal :: "accessTokenPayload \<Rightarrow> bytes" where
  "demo_marshal p = bytes_of ((if tp_ExpiresAt p < 0 then CHR ''-'' else CHR ''+'') # show_pos \<bar>tp_ExpiresAt p\<bar> @ CHR '','' #
     show_nat (length (tp_UserID p)) @ CHR '','' # tp_UserID p @ tp_SessionID p)"

definition demo_unmarshal :: "bytes \<Rightarrow> accessTokenPayload option" where
  "demo_unmarshal bs =
     (case cut (CHR '','') (text_of bs) of
        Some (sign # digits, rest) \<Rightarrow>
          (case (digits_value 0 digits, cut (CHR '','') rest) of
             (Some n, Some (size_text, ids)) \<Rightarrow>
               (case digits_value 0 size_text of
                  None \<Rightarrow> None
                | Some k \<Rightarrow> Some \<lparr>tp_UserID = take k ids, tp_SessionID = drop k ids, tp_ExpiresAt = (if sign = CHR ''-'' then - int n else int n)\<rparr>)
           | _ \<Rightarrow> None)
      | _ \<Rightarrow> None)"

lemma demo_json: "demo_unmarshal (demo_marshal p) = Some p"
proof -
  have free: "CHR '','' \<notin> set (show_nat n)" for n by (rule show_nat_free) (simp add: is_digit_def less_eq_char_def)
  have digits: "show_pos \<bar>n\<bar> = show_nat (nat \<bar>n\<bar>)" for n by (simp add: show_nat_pos)
  define sign where "sign = (if tp_ExpiresAt p < 0 then CHR ''-'' else CHR ''+'')"
  have "text_of (demo_marshal p) = (sign # show_nat (nat \<bar>tp_ExpiresAt p\<bar>)) @ CHR '','' # (show_nat (length (tp_UserID p)) @ CHR '','' # (tp_UserID p @ tp_SessionID p))"
    by (simp add: demo_marshal_def text_of_bytes digits sign_def)
  moreover have "CHR '','' \<notin> set (sign # show_nat n)" for n using free by (simp add: sign_def)
  ultimately show ?thesis
    using free by (simp add: demo_unmarshal_def cut_append digits_value_show del: cut.simps append_Cons) (simp add: sign_def)
qed

definition demo_auth :: auth_lib where
  "demo_auth = \<lparr>al_password = toy_lib, al_is_ip = (\<lambda>_. False), al_marshal = demo_marshal, al_unmarshal = demo_unmarshal,
     al_hash_token = (\<lambda>t. ''sha-'' @ t)\<rparr>"

definition demo_start :: time where "demo_start = unix_epoch + 1000 * second"

definition demo_signin :: "string \<Rightarrow> string \<Rightarrow> string \<Rightarrow> signin_row" where
  "demo_signin i u f = \<lparr>ss_id = i, ss_user_id = u, ss_refresh_token_hash = ''sha-token-'' @ i, ss_access_expires_at = demo_start + 900 * second,
     ss_refresh_expires_at = demo_start + 86400 * second, ss_family_id = f, ss_user_agent = [], ss_ip_address = [],
     ss_last_seen_at = demo_start, ss_created_at = demo_start, ss_revoked_at = None\<rparr>"

definition demo_user :: "string \<Rightarrow> user_row" where
  "demo_user name = \<lparr>us_id = name, us_username = name @ ''@x.io'', us_email = name @ ''@x.io'', us_display_name = name, us_status = StatusActive\<rparr>"

definition demo_assignment :: "string \<Rightarrow> string \<Rightarrow> string \<Rightarrow> assignment_row" where
  "demo_assignment u r st = \<lparr>ra_user_id = u, ra_role_id = r, ra_source_type = st, ra_source_key = ''auth-service''\<rparr>"

definition demo_role :: "string \<Rightarrow> role_row" where
  "demo_role name = \<lparr>ro_id = ''system-'' @ name, ro_name = name, ro_description = [], ro_is_system = True\<rparr>"

definition demo_hasher :: PasswordHasher where
  "demo_hasher = \<lparr>ph_Time = 1, ph_Memory = 8, ph_Threads = 1, ph_KeyLen = 4, ph_SaltLen = 16, ph_Pepper = []\<rparr>"

definition demo_hash :: string where
  "demo_hash = ''$argon2id$v=19$m=8,t=1,p=1$AAAAAAAAAAAAAAAAAAAAAA$Y29ycg''"

definition demo_accounts :: accounts where
  "demo_accounts =
     \<lparr>acc_users = map demo_user [''ann'', ''bob'', ''cat''],
      acc_passwords = [(''cat'', demo_hash)],
      acc_sessions = [demo_signin ''s-ann'' ''ann'' ''f-ann'', demo_signin ''s-cat'' ''cat'' ''f-cat''],
      acc_roles = map demo_role [''admin'', ''user''],
      acc_permissions = [(''p-tasks'', ''tasks.read''), (''p-users'', ''users.manage'')],
      acc_role_permissions = [(''system-admin'', ''p-tasks''), (''system-admin'', ''p-users''), (''system-user'', ''p-tasks'')],
      acc_assignments = [demo_assignment ''ann'' ''system-admin'' ''manual'', demo_assignment ''bob'' ''system-admin'' ''manual'', demo_assignment ''cat'' ''system-user'' ''default''],
      acc_providers = [\<lparr>pv_id = ''idp'', pv_name = ''idp'', pv_issuer = ''https://idp'', pv_client_id = ''c'', pv_callback_urls = [],
        pv_auth_endpoint_override = [], pv_audience = [], pv_enabled = True, pv_auto_provision = False\<rparr>],
      acc_identities = [\<lparr>si_id = ''identity-cat'', si_user_id = ''cat'', si_provider_id = ''idp'', si_subject = ''sub-cat''\<rparr>], acc_mappings = [], acc_config = []\<rparr>"

definition demo_service :: AuthService where
  "demo_service =
     \<lparr>au_db = demo_accounts, au_guard = [''ann'', ''bob''], au_system_admins = [], au_password_enabled = True, au_registration_enabled = True,
      au_approval_required = False, au_default_role = ''system-user'', au_lockdown = False, au_hasher = demo_hasher,
      au_dummy_hash = [], au_secret = [7, 7], au_access_lifetime = 900 * second, au_refresh_lifetime = 86400 * second\<rparr>"

definition demo_env :: "string \<Rightarrow> auth_env" where
  "demo_env i = \<lparr>ev_ids = [Some i, Some (''token-'' @ i), Some (''f-'' @ i)], ev_salt = Some (replicate 16 2), ev_clock = demo_start,
     ev_now = demo_start, ev_sqlnow = demo_start\<rparr>"

section \<open>Refresh sessions\<close>

text \<open>
  C16. A family of refresh sessions has at most one session that is not revoked: under any sequence of
  operations, as long as the random source does not repeat a family, two sessions that can still be
  used for a refresh or an access token have different families.
\<close>

theorem one_live_session_per_family:
  assumes "fresh_run L ops w" "one_live_session (acc_sessions (au_db w))"
  shows "one_live_session (acc_sessions (au_db (auth_run L ops w)))"
  using assms by (rule run_one_live)

theorem one_live_session_per_family_witness:
  "one_live_session (acc_sessions (au_db (auth_run demo_auth
     [OpLoginOIDC (demo_env []) (demo_env ''s1'') ''IdP'' ''sub-cat'' ''Cat@x.io'' False [], OpRefresh (demo_env ''s2'') ''s1'' ''token-s1'', OpRefresh (demo_env ''s3'') ''s-cat'' ''token-s-cat''] demo_service)))
   \<and> map (\<lambda>s. (ss_id s, ss_family_id s, ss_revoked_at s = None)) (acc_sessions (au_db (auth_run demo_auth
     [OpLoginOIDC (demo_env []) (demo_env ''s1'') ''IdP'' ''sub-cat'' ''Cat@x.io'' False [], OpRefresh (demo_env ''s2'') ''s1'' ''token-s1'', OpRefresh (demo_env ''s3'') ''s-cat'' ''token-s-cat''] demo_service)))
     = [(''s-ann'', ''f-ann'', True), (''s-cat'', ''f-cat'', False), (''s1'', ''f-s1'', False), (''s2'', ''f-s1'', True), (''s3'', ''f-cat'', True)]"
proof
  have "fresh_run demo_auth [OpLoginOIDC (demo_env []) (demo_env ''s1'') ''IdP'' ''sub-cat'' ''Cat@x.io'' False [], OpRefresh (demo_env ''s2'') ''s1'' ''token-s1'',
      OpRefresh (demo_env ''s3'') ''s-cat'' ''token-s-cat''] demo_service" by code_simp
  moreover have "one_live_session (acc_sessions (au_db demo_service))" by code_simp
  ultimately show "one_live_session (acc_sessions (au_db (auth_run demo_auth
     [OpLoginOIDC (demo_env []) (demo_env ''s1'') ''IdP'' ''sub-cat'' ''Cat@x.io'' False [], OpRefresh (demo_env ''s2'') ''s1'' ''token-s1'', OpRefresh (demo_env ''s3'') ''s-cat'' ''token-s-cat''] demo_service)))"
    by (rule one_live_session_per_family)
qed code_simp

text \<open>A family or a session that has no open session left is refused, and by any later state of it.\<close>

lemma dead_family_refused:
  assumes "dead_family f (acc_sessions (au_db w))"
  shows "Session_Authenticator L clock now header cookie w = Some c \<Longrightarrow> \<exists>s \<in> set (acc_sessions (au_db w)). ss_id s = cl_SessionID c \<and> ss_family_id s \<noteq> f"
    and "Refresh L env i token w = (Inr t, w') \<Longrightarrow> \<exists>cur. Session_Get i (au_db w) = Some cur \<and> ss_family_id cur \<noteq> f"
proof -
  show "\<exists>s \<in> set (acc_sessions (au_db w)). ss_id s = cl_SessionID c \<and> ss_family_id s \<noteq> f"
    if "Session_Authenticator L clock now header cookie w = Some c"
    using authenticated_session [OF that] assms unfolding dead_family_def by blast
  show "\<exists>cur. Session_Get i (au_db w) = Some cur \<and> ss_family_id cur \<noteq> f" if "Refresh L env i token w = (Inr t, w')"
    using that
  proof (cases rule: Refresh_Inr)
    case (1 cur newID newToken)
    then show ?thesis using assms Session_Get_Some [OF 1(1)] unfolding dead_family_def by blast
  qed
qed

lemma dead_session_refused:
  assumes "dead_session i (acc_sessions (au_db w))"
  shows "Session_Authenticator L clock now header cookie w = Some c \<Longrightarrow> cl_SessionID c \<noteq> i"
    and "fst (Refresh L env i token w) \<noteq> Inr t"
proof -
  show "cl_SessionID c \<noteq> i" if "Session_Authenticator L clock now header cookie w = Some c"
    using authenticated_session [OF that] assms unfolding dead_session_def by blast
  show "fst (Refresh L env i token w) \<noteq> Inr t"
  proof
    assume "fst (Refresh L env i token w) = Inr t"
    then have "Refresh L env i token w = (Inr t, snd (Refresh L env i token w))" by (metis prod.collapse)
    then show False
    proof (cases rule: Refresh_Inr)
      case (1 cur newID newToken)
      then show ?thesis using assms Session_Get_Some [OF 1(1)] unfolding dead_session_def by blast
    qed
  qed
qed

lemma Refresh_replay:
  assumes "Session_Get i (au_db w) = Some cur"
    and "ss_revoked_at cur \<noteq> None \<or> \<not> ev_now env < ss_refresh_expires_at cur \<or> ss_refresh_token_hash cur \<noteq> al_hash_token L token"
    and "fst (Refresh L env i token w) = Inl AuthRefreshInvalid"
  shows "dead_family (ss_family_id cur) (acc_sessions (au_db (snd (Refresh L env i token w))))"
proof -
  obtain newID where id: "randomID 0 env = Some newID"
    using assms(1,3) by (cases "randomID 0 env") (auto simp: Refresh_def au_read_def au_bind_def au_option_def)
  obtain newToken where token: "randomID 1 env = Some newToken"
    using assms(1,3) id by (cases "randomID 1 env") (auto simp: Refresh_def au_read_def au_bind_def au_option_def)
  let ?r = "Rotate (ev_now env) (ev_sqlnow env) i (al_hash_token L token) (new_session L (ev_now env) w newID [] newToken) (au_db w)"
  obtain access where access: "IssueForSession L (ev_clock env) (ss_user_id cur) newID w = (Inr access, w)"
  proof (cases "IssueForSession L (ev_clock env) (ss_user_id cur) newID w")
    case (Pair a b)
    then show ?thesis
      using assms(1,3) id token that by (cases a) (auto simp: Refresh_def IssueForSession_def au_read_def au_bind_def au_option_def au_fail_def au_ret_def split: if_splits)
  qed
  have replay: "?r = (Inl SessionReplay, (au_db w)\<lparr>acc_sessions := sql_update (\<lambda>t. ss_family_id t = ss_family_id cur) (revoke_signin (ev_sqlnow env)) (acc_sessions (au_db w))\<rparr>)"
    using assms(1,2) by (auto simp: Rotate_def)
  have "acc_sessions (au_db (snd (Refresh L env i token w))) = sql_update (\<lambda>t. ss_family_id t = ss_family_id cur) (revoke_signin (ev_sqlnow env)) (acc_sessions (au_db w))"
    using assms(1) id token access by (simp add: Refresh_def au_read_def au_bind_def au_option_def replay)
  then show ?thesis by (auto simp: dead_family_def revoke_signin_def elim!: in_sql_updateE)
qed

text \<open>
  C17. Presenting a refresh token that was already used, that has expired or that is wrong ends the
  family of the session for good: whatever operations follow, no access token of the family
  authenticates and no session of it can be refreshed, unless the random source yields the family again.
\<close>

theorem replay_ends_family:
  assumes "Session_Get i (au_db w) = Some cur"
    and "ss_revoked_at cur \<noteq> None \<or> \<not> ev_now env < ss_refresh_expires_at cur \<or> ss_refresh_token_hash cur \<noteq> al_hash_token L token"
    and "fst (Refresh L env i token w) = Inl AuthRefreshInvalid"
    and "fresh_run L ops (auth_perform L (OpRefresh env i token) w)" "ss_family_id cur \<notin> \<Union> (family_draws ` set ops)"
    and "w' = auth_run L (OpRefresh env i token # ops) w"
  shows "(Session_Authenticator L clock now header cookie w' = Some c \<longrightarrow>
            (\<exists>s \<in> set (acc_sessions (au_db w')). ss_id s = cl_SessionID c \<and> ss_family_id s \<noteq> ss_family_id cur))
      \<and> (Refresh L env' j token' w' = (Inr t, w'') \<longrightarrow> (\<exists>s. Session_Get j (au_db w') = Some s \<and> ss_family_id s \<noteq> ss_family_id cur))"
proof -
  have "dead_family (ss_family_id cur) (acc_sessions (au_db (auth_perform L (OpRefresh env i token) w)))"
    using Refresh_replay [OF assms(1-3)] by (simp add: auth_perform_def)
  then have "dead_family (ss_family_id cur) (acc_sessions (au_db w'))"
    using run_dead_family [OF assms(4,5)] unfolding assms(6) by simp
  then show ?thesis by (metis dead_family_refused)
qed

definition replayed :: "auth_op list" where
  "replayed = [OpRefresh (demo_env ''s3'') ''s-cat'' ''token-s-cat'']"

theorem replay_ends_family_witness:
  "(\<nexists>t w''. Refresh demo_auth (demo_env ''s3'') ''s2'' ''token-s2''
        (auth_run demo_auth (OpRefresh (demo_env ''s2'') ''s-cat'' ''token-s-cat'' # replayed) demo_service) = (Inr t, w''))
   \<and> \<not> Session_Owns ''cat'' ''s2'' (au_db (auth_run demo_auth (OpRefresh (demo_env ''s2'') ''s-cat'' ''token-s-cat'' # replayed) demo_service))
   \<and> Session_Owns ''cat'' ''s2'' (au_db (auth_run demo_auth [OpRefresh (demo_env ''s2'') ''s-cat'' ''token-s-cat''] demo_service))"
proof (intro conjI)
  define w where "w = auth_run demo_auth [OpRefresh (demo_env ''s2'') ''s-cat'' ''token-s-cat''] demo_service"
  obtain cur where cur: "Session_Get ''s-cat'' (au_db w) = Some cur" "ss_revoked_at cur \<noteq> None" "ss_family_id cur = ''f-cat''"
  proof -
    have "map_option (\<lambda>c. ss_revoked_at c \<noteq> None \<and> ss_family_id c = ''f-cat'') (Session_Get ''s-cat'' (au_db w)) = Some True" unfolding w_def by code_simp
    then show ?thesis using that by auto
  qed
  have ended: "fst (Refresh demo_auth (demo_env ''s3'') ''s-cat'' ''token-s-cat'' w) = Inl AuthRefreshInvalid" unfolding w_def by code_simp
  define w' where "w' = auth_run demo_auth [OpRefresh (demo_env ''s3'') ''s-cat'' ''token-s-cat''] w"
  have w': "w' = auth_run demo_auth (OpRefresh (demo_env ''s2'') ''s-cat'' ''token-s-cat'' # replayed) demo_service"
    by (simp add: w'_def w_def replayed_def)
  have only: "map_option ss_family_id (Session_Get ''s2'' (au_db w')) = Some ''f-cat''" unfolding w' by code_simp
  have "\<not> (\<exists>t w''. Refresh demo_auth (demo_env ''s3'') ''s2'' ''token-s2'' w' = (Inr t, w''))"
  proof
    assume "\<exists>t w''. Refresh demo_auth (demo_env ''s3'') ''s2'' ''token-s2'' w' = (Inr t, w'')"
    then obtain t w'' where "Refresh demo_auth (demo_env ''s3'') ''s2'' ''token-s2'' w' = (Inr t, w'')" by blast
    then have "\<exists>s. Session_Get ''s2'' (au_db w') = Some s \<and> ss_family_id s \<noteq> ss_family_id cur"
      using replay_ends_family [OF cur(1) disjI1 [OF cur(2)] ended, of "[]" w'] by (simp add: w'_def)
    then show False using only cur(3) by auto
  qed
  then show "\<nexists>t w''. Refresh demo_auth (demo_env ''s3'') ''s2'' ''token-s2''
        (auth_run demo_auth (OpRefresh (demo_env ''s2'') ''s-cat'' ''token-s-cat'' # replayed) demo_service) = (Inr t, w'')"
    unfolding w' .
qed code_simp+

lemma revoke_where_ends:
  assumes "\<forall>s \<in> set (acc_sessions d). ss_id s = i \<longrightarrow> P s"
  shows "dead_session i (acc_sessions (revoke_where now P d))"
  unfolding dead_session_def
proof (intro ballI impI)
  fix s assume "s \<in> set (acc_sessions (revoke_where now P d))" and i: "ss_id s = i"
  then have "s \<in> set (sql_update P (\<lambda>s. (revoke_signin now s)\<lparr>ss_last_seen_at := now\<rparr>) (acc_sessions d))" by (simp add: revoke_where_def)
  then show "ss_revoked_at s \<noteq> None"
  proof (cases rule: in_sql_updateE)
    case (changed r0)
    then show ?thesis by (simp add: revoke_signin_def)
  next
    case same
    then show ?thesis using assms i by blast
  qed
qed

lemma RevokeUser_ends: "\<forall>s \<in> set (acc_sessions d). ss_id s = i \<longrightarrow> ss_user_id s = u \<Longrightarrow> dead_session i (acc_sessions (RevokeUser now u d))"
  unfolding RevokeUser_def by (rule revoke_where_ends)

lemma Session_Revoke_ends: "dead_session i (acc_sessions (Session_Revoke now i d))"
  unfolding Session_Revoke_def by (rule revoke_where_ends) simp

lemma Guard_Remove_Inr:
  assumes "Guard_Remove ident m w = (Inr (), w')"
  shows "ident \<in> set (au_guard w) \<and> length (au_guard w) > 1
    \<and> (\<exists>w1. m w = (Inr (), w1) \<and> w' = w1\<lparr>au_guard := filter (\<lambda>a. a \<noteq> ident) (au_guard w1)\<rparr>)"
  using assms by (cases "m w") (simp add: Guard_Remove_def not_le split: if_splits sum.splits unit.splits)

lemma SetStatus_sessions: "SetStatus u st d = Inr (x, d') \<Longrightarrow> acc_sessions d' = acc_sessions d"
  using leavesD [OF user_tx_leaves(3)] .

lemma disable_revokes:
  assumes "au_bind (au_tx (SetEnabled u False)) (\<lambda>_. LogoutAll now u) w = (Inr (), w')"
  shows "\<exists>d. acc_sessions d = acc_sessions (au_db w) \<and> acc_sessions (au_db w') = acc_sessions (RevokeUser now u d)"
  using assms by (auto simp: au_results LogoutAll_def SetEnabled_def dest!: SetStatus_sessions)

lemma ChangePassword_Inr:
  assumes "ChangePassword L env u p q w = (Inr (), w')"
  obtains h d where "SetPasswordHash u h (au_db w) = Inr ((), d)" "au_db w' = RevokeUser (ev_sqlnow env) u d"
proof -
  have valid: "ValidatePassword q = Inr ()"
    using assms by (cases "ValidatePassword q") (simp_all add: ChangePassword_def au_bind_def au_fail_def)
  note step = assms [unfolded ChangePassword_def valid, simplified, unfolded au_bind_Inr au_simps(1,3), simplified]
  obtain v hash where found: "userByID u w = Some v" "User_PasswordHash u (au_db w) = Some hash"
    using step by (cases "userByID u w"; cases "User_PasswordHash u (au_db w)") (simp_all add: au_fail_def)
  show ?thesis
  proof (cases "Hash (al_password L) (au_hasher w) (ev_salt env) q")
    case (Inl e)
    then show ?thesis using step by (simp add: found au_fail_def au_bind_def split: if_splits)
  next
    case (Inr h)
    then show ?thesis
      using step that [of h] by (auto simp: found au_results LogoutAll_def split: if_splits)
  qed
qed

text \<open>The operations that end the sessions of a user, or one session.\<close>

fun signs_out :: "auth_op \<Rightarrow> string \<Rightarrow> string \<Rightarrow> bool" where
  "signs_out (OpLogout now i) j u \<longleftrightarrow> i = j"
| "signs_out (OpLogoutAll now v) j u \<longleftrightarrow> v = u"
| "signs_out (OpDisable now v) j u \<longleftrightarrow> v = u"
| "signs_out (OpPassword env v p q) j u \<longleftrightarrow> v = u"
| "signs_out _ j u \<longleftrightarrow> False"

lemma signed_out_dead:
  assumes "auth_serve L op w = (Inr (), w')" "signs_out op i u" "\<forall>s \<in> set (acc_sessions (au_db w)). ss_id s = i \<longrightarrow> ss_user_id s = u"
  shows "dead_session i (acc_sessions (au_db w'))"
proof (cases op)
  case (OpLogout now j)
  then show ?thesis using assms(1,2) Session_Revoke_ends by (auto simp: Logout_def au_results)
next
  case (OpLogoutAll now v)
  then show ?thesis using assms RevokeUser_ends by (auto simp: LogoutAll_def au_results)
next
  case (OpDisable now v)
  then have "DisableUser now u w = (Inr (), w')" using assms(1,2) by simp
  then have "Guard_Remove u (au_bind (au_tx (SetEnabled u False)) (\<lambda>_. LogoutAll now u)) w = (Inr (), w')
      \<or> au_bind (au_tx (SetEnabled u False)) (\<lambda>_. LogoutAll now u) w = (Inr (), w')"
    unfolding DisableUser_def Let_def au_simps(3) au_bind_Inr [of "au_option _ _"] au_option_Inr by (auto simp: au_simps(2) split: if_splits)
  then have "\<exists>w1. au_bind (au_tx (SetEnabled u False)) (\<lambda>_. LogoutAll now u) w = (Inr (), w1) \<and> au_db w' = au_db w1"
  proof
    assume "Guard_Remove u (au_bind (au_tx (SetEnabled u False)) (\<lambda>_. LogoutAll now u)) w = (Inr (), w')"
    from Guard_Remove_Inr [OF this] show ?thesis by auto
  qed blast
  then obtain w1 d where "acc_sessions d = acc_sessions (au_db w)" "acc_sessions (au_db w') = acc_sessions (RevokeUser now u d)"
    using disable_revokes by metis
  then show ?thesis using RevokeUser_ends assms(3) by metis
next
  case (OpPassword env v p q)
  then have "ChangePassword L env u p q w = (Inr (), w')" using assms(1,2) by simp
  then obtain h d where "SetPasswordHash u h (au_db w) = Inr ((), d)" "au_db w' = RevokeUser (ev_sqlnow env) u d"
    by (rule ChangePassword_Inr)
  then show ?thesis using RevokeUser_ends assms(3) leavesD [OF user_tx_leaves(5)] by metis
qed (use assms(2) in simp_all)



section \<open>Access tokens\<close>

lemma TrimSpace_free: "list_all (\<lambda>c. \<not> is_space c) s \<Longrightarrow> TrimSpace s = s"
proof -
  have "dropWhile is_space t = t" if "list_all (\<lambda>c. \<not> is_space c) t" for t using that by (cases t) auto
  then show "list_all (\<lambda>c. \<not> is_space c) s \<Longrightarrow> TrimSpace s = s" by (simp add: TrimSpace_def list_all_rev)
qed

lemma url_encode_clean: "list_all (\<lambda>c. \<not> is_space c \<and> c \<noteq> CHR ''.'') (url_encode bs)"
proof -
  have codes: "list_all (\<lambda>n. \<not> is_space (url_char (b64_char n)) \<and> url_char (b64_char n) \<noteq> CHR ''.'') [0..<64]" by code_simp
  have "\<not> is_space c \<and> c \<noteq> CHR ''.''" if c: "c \<in> set (url_encode bs)" for c
  proof -
    obtain b where b: "b \<in> set (raw_encode bs)" "c = url_char b" using c unfolding url_encode_def set_map by blast
    obtain n where "n < 64" "b = b64_char n" using raw_encode_clean [OF b(1)] by blast
    then show ?thesis using codes b(2) by (simp add: list_all_iff)
  qed
  then show ?thesis by (simp add: list_all_iff)
qed

lemma token_sign_parts:
  "Split (CHR ''.'') (token_sign L secret p) = [accessTokenVersion, url_encode (al_marshal L p),
     url_encode (hmac (al_password L) secret (bytes_of (accessTokenVersion @ ''.'' @ url_encode (al_marshal L p))))]"
proof -
  have "CHR ''.'' \<notin> set (url_encode bs)" for bs using url_encode_clean [of bs] by (auto simp: list_all_iff)
  then show ?thesis
    by (simp add: token_sign_def Let_def accessTokenVersion_def Split_sep [of _ "''gf1''", simplified] Split_sep Split_no_sep)
qed

lemma bearer_request: "request_token (''Bearer '' @ token_sign L secret p) cookie = Some (token_sign L secret p)"
proof -
  have "list_all (\<lambda>c. \<not> is_space c) (token_sign L secret p)"
    using url_encode_clean by (auto simp: token_sign_def Let_def accessTokenVersion_def list_all_iff is_space_def less_eq_char_def)
  moreover have "ToLower ''Bearer '' = ''bearer ''" by code_simp
  moreover have "token_sign L secret p \<noteq> []" by (simp add: token_sign_def Let_def accessTokenVersion_def)
  ultimately show ?thesis by (simp add: request_token_def TrimSpace_free)
qed

lemma token_verify_sign:
  assumes "al_unmarshal L (al_marshal L p) = Some p" "tp_UserID p \<noteq> []" "tp_SessionID p \<noteq> []"
    and "unix_seconds clock < tp_ExpiresAt p" "Session_Active now (tp_SessionID p) (tp_UserID p) d"
  shows "token_verify L secret clock now d (token_sign L secret p) = Some p"
  using assms by (simp add: token_verify_def token_sign_parts url_decode_encode)

lemma issueTokens_Inr:
  assumes "issueTokens L env u w = (Inr t, w')"
  obtains family d where "randomID 0 env = Some (at_SessionID t)" "randomID 1 env = Some (at_RefreshToken t)" "randomID 2 env = Some family"
    "TrimSpace u \<noteq> []" "TrimSpace (at_SessionID t) \<noteq> []" "au_access_lifetime w > 0"
    "at_AccessToken t = token_sign L (au_secret w) \<lparr>tp_UserID = u, tp_SessionID = at_SessionID t, tp_ExpiresAt = unix_seconds (ev_clock env + au_access_lifetime w)\<rparr>"
    "insert_signin (ev_sqlnow env) ((new_session L (ev_now env) w (at_SessionID t) u (at_RefreshToken t))\<lparr>sr_FamilyID := family\<rparr>) (au_db w) = Inr d"
    "w' = w\<lparr>au_db := d\<rparr>"
proof -
  obtain i r f a d where "randomID 0 env = Some i" "randomID 1 env = Some r" "randomID 2 env = Some f" "IssueForSession L (ev_clock env) u i w = (Inr a, w)"
    "Session_Create (ev_sqlnow env) ((new_session L (ev_now env) w i u r)\<lparr>sr_FamilyID := f\<rparr>) (au_db w) = Inr ((), d)" "w' = w\<lparr>au_db := d\<rparr>"
    "t = \<lparr>at_AccessToken = a, at_RefreshToken = r, at_SessionID = i\<rparr>"
    using assms unfolding issueTokens_def by (auto simp: au_results IssueForSession_Inr)
  then show ?thesis using that by (simp add: IssueForSession_Inr Session_Create_def res_bind_Inr)
qed

lemma SetPasswordHash_Inr: "SetPasswordHash u h d = Inr (x, d') \<Longrightarrow> \<exists>ps. d' = d\<lparr>acc_passwords := ps\<rparr>"
  by (auto simp: SetPasswordHash_def split: if_splits)

text \<open>The account that a login is for, if its password is right.\<close>

definition credentials :: "auth_lib \<Rightarrow> string \<Rightarrow> string \<Rightarrow> AuthService \<Rightarrow> (UserRecord \<times> string) option" where
  "credentials L email password w =
     (case NormalizeEmail (al_is_ip L) email of
        None \<Rightarrow> None
      | Some key \<Rightarrow>
          (case userByEmail key w of
             None \<Rightarrow> None
           | Some u \<Rightarrow>
               (case User_PasswordHash (ur_ID u) (au_db w) of
                  None \<Rightarrow> None
                | Some hash \<Rightarrow> if au_password_enabled w \<and> valid_hash L w hash password then Some (u, hash) else None)))"

definition rehash :: "auth_lib \<Rightarrow> auth_env \<Rightarrow> string \<Rightarrow> string \<Rightarrow> string \<Rightarrow> AuthService \<Rightarrow> AuthService" where
  "rehash L env u hash password w =
     (if NeedsRehash (au_hasher w) hash
      then (case Hash (al_password L) (au_hasher w) (ev_salt env) password of
              Inl _ \<Rightarrow> w
            | Inr upgraded \<Rightarrow> w\<lparr>au_db := (case SetPasswordHash u upgraded (au_db w) of Inl _ \<Rightarrow> au_db w | Inr (_, d') \<Rightarrow> d')\<rparr>)
      else w)"

lemma rehash_facts:
  "acc_users (au_db (rehash L env u hash password w)) = acc_users (au_db w)" "au_secret (rehash L env u hash password w) = au_secret w"
  "au_access_lifetime (rehash L env u hash password w) = au_access_lifetime w"
  by (auto simp: rehash_def split: sum.splits dest!: SetPasswordHash_Inr)

lemma Login_credentials:
  "Login L env email password w =
     (case credentials L email password w of
        None \<Rightarrow> (Inl AuthCredentials, w)
      | Some (u, hash) \<Rightarrow>
          (if ur_Status u = StatusPending then (Inl AuthPending, w)
           else if \<not> ur_Enabled u then (Inl AuthCredentials, w)
           else issueTokens L env (ur_ID u) (rehash L env (ur_ID u) hash password w)))"
proof (cases "NormalizeEmail (al_is_ip L) email")
  case None
  then show ?thesis by (simp add: Login_def credentials_def au_simps)
next
  case key: (Some key)
  show ?thesis
  proof (cases "userByEmail key w")
    case None
    then show ?thesis by (simp add: Login_def credentials_def key au_simps)
  next
    case user: (Some u)
    show ?thesis
    proof (cases "User_PasswordHash (ur_ID u) (au_db w)")
      case None
      then show ?thesis by (simp add: Login_def credentials_def key user au_simps)
    next
      case hash: (Some hash)
      show ?thesis
        by (cases "Hash (al_password L) (au_hasher w) (ev_salt env) password")
          (auto simp: Login_def credentials_def key user hash rehash_def au_simps au_bind_def)
    qed
  qed
qed

lemma issueTokens_error:
  assumes "fst (issueTokens L env u w) = Inl e"
  shows "e \<in> {AuthRandom, AuthTokenInputs, AuthStore AccountConstraint}"
proof -
  have create: "Session_Create now s d = Inl e' \<Longrightarrow> e' = AccountConstraint" for now s d e'
    by (auto simp: Session_Create_def insert_signin_def res_bind_def split: if_splits)
  have opened: "fst (au_bind (au_tx (Session_Create now s)) (\<lambda>_. au_ret x) w) = Inl e \<Longrightarrow> e = AuthStore AccountConstraint" for now s and x :: AuthTokens
    by (cases "Session_Create now s (au_db w)") (auto simp: au_bind_def au_tx_def au_ret_def dest: create split: prod.splits)
  show ?thesis
  proof (cases "randomID 0 env"; cases "randomID 1 env"; cases "randomID 2 env")
    fix i r f assume ids: "randomID 0 env = Some i" "randomID 1 env = Some r" "randomID 2 env = Some f"
    have "issueTokens L env u w = au_bind (IssueForSession L (ev_clock env) u i) (\<lambda>a. au_read (\<lambda>w.
        au_bind (au_tx (Session_Create (ev_sqlnow env) ((new_session L (ev_now env) w i u r)\<lparr>sr_FamilyID := f\<rparr>))) (\<lambda>_.
          au_ret \<lparr>at_AccessToken = a, at_RefreshToken = r, at_SessionID = i\<rparr>))) w"
      using ids by (simp add: issueTokens_def au_bind_def [of "au_option _ _"] au_option_def del: One_nat_def)
    moreover have "au_bind (IssueForSession L (ev_clock env) u i) g w =
        (if TrimSpace u = [] \<or> TrimSpace i = [] \<or> au_access_lifetime w \<le> 0 then (Inl AuthTokenInputs, w)
         else g (token_sign L (au_secret w) \<lparr>tp_UserID = u, tp_SessionID = i, tp_ExpiresAt = unix_seconds (ev_clock env + au_access_lifetime w)\<rparr>) w)" for g :: "string \<Rightarrow> AuthTokens auth"
      by (simp add: au_bind_def IssueForSession_def au_read_def au_fail_def au_ret_def)
    ultimately show ?thesis
      using assms opened by (auto simp: au_read_def split: if_splits)
  qed (use assms in \<open>auto simp: issueTokens_def au_bind_def au_option_def\<close>)
qed

text \<open>
  What a login decides. It answers that the account is pending exactly for the right password of a
  pending account, and that the credentials are invalid exactly when the address is not known, the
  password is wrong, passwords are switched off or the account is disabled: these cannot be told apart.
\<close>

theorem login_decides:
  "(fst (Login L env email password w) = Inl AuthPending \<longleftrightarrow> (\<exists>u hash. credentials L email password w = Some (u, hash) \<and> ur_Status u = StatusPending))
   \<and> (fst (Login L env email password w) = Inl AuthCredentials \<longleftrightarrow>
        credentials L email password w = None
        \<or> (\<exists>u hash. credentials L email password w = Some (u, hash) \<and> ur_Status u \<noteq> StatusPending \<and> \<not> ur_Enabled u))"
proof (cases "credentials L email password w")
  case None
  then show ?thesis by (simp add: Login_credentials)
next
  case (Some c)
  obtain u hash where c: "c = (u, hash)" by (cases c)
  show ?thesis
    using issueTokens_error [of L env "ur_ID u" "rehash L env (ur_ID u) hash password w"]
    by (cases "ur_Status u = StatusPending"; cases "ur_Enabled u") (auto simp: Login_credentials Some c)
qed

lemma find_row_key: "distinct (map k xs) \<Longrightarrow> r \<in> set xs \<Longrightarrow> find_row (\<lambda>v. k v = k r) xs = Some r"
  unfolding find_row_def by (induction xs) (auto simp: rev_image_eqI)

lemma userByID_unique:
  assumes "distinct (map us_id (acc_users (au_db w)))" "userByEmail key w = Some u"
  shows "userByID (ur_ID u) w = Some u"
proof -
  obtain r where r: "find_row (\<lambda>u. ToLower (us_email u) = ToLower key) (acc_users (au_db w)) = Some r" "u = toAuthUser (user_of r)"
    using assms(2) by (auto simp: userByEmail_def User_FindByEmail_def)
  have "r \<in> set (acc_users (au_db w))" using r(1) by (auto simp: find_row_def find_Some_iff)
  moreover have id: "ur_ID u = us_id r" by (simp add: r(2) toAuthUser_def user_of_def Let_def)
  ultimately have "find_row (\<lambda>v. us_id v = ur_ID u) (acc_users (au_db w)) = Some r"
    using find_row_key [OF assms(1)] by simp
  then show ?thesis by (simp add: userByID_def User_FindByID_def r(2))
qed

text \<open>
  C19. The tokens that a login returns authenticate: until the access token expires, a request that
  carries it as a bearer token is the user's, in the session that the login opened, which had an
  identifier of its own. JSON is assumed to read back what it wrote from UTF-8 texts.
\<close>

theorem login_authenticates:
  assumes "Login L env email password w = (Inr t, w')" "credentials L email password w = Some (u, hash)"
    and "distinct (map us_id (acc_users (au_db w)))"
    and "\<And>p. valid_utf8 (tp_UserID p) \<Longrightarrow> valid_utf8 (tp_SessionID p) \<Longrightarrow> al_unmarshal L (al_marshal L p) = Some p"
    and "valid_utf8 (ur_ID u)" "valid_utf8 (at_SessionID t)"
    and "unix_seconds clock < unix_seconds (ev_clock env + au_access_lifetime w)" "now < ev_now env + au_access_lifetime w"
  shows "Auth_Authenticator L clock now (''Bearer '' @ at_AccessToken t) cookie w' = Some \<lparr>cl_UserID = ur_ID u, cl_SessionID = at_SessionID t\<rparr>
    \<and> at_SessionID t \<notin> ss_id ` set (acc_sessions (au_db w))"
proof -
  let ?w = "rehash L env (ur_ID u) hash password w"
  have enabled: "ur_Enabled u" and issued: "issueTokens L env (ur_ID u) ?w = (Inr t, w')"
    using assms(1,2) by (auto simp: Login_credentials split: if_splits)
  obtain family d where *: "TrimSpace (ur_ID u) \<noteq> []" "TrimSpace (at_SessionID t) \<noteq> []"
    "at_AccessToken t = token_sign L (au_secret ?w) \<lparr>tp_UserID = ur_ID u, tp_SessionID = at_SessionID t, tp_ExpiresAt = unix_seconds (ev_clock env + au_access_lifetime ?w)\<rparr>"
    "insert_signin (ev_sqlnow env) ((new_session L (ev_now env) ?w (at_SessionID t) (ur_ID u) (at_RefreshToken t))\<lparr>sr_FamilyID := family\<rparr>) (au_db ?w) = Inr d"
    "w' = ?w\<lparr>au_db := d\<rparr>"
    using issued by (rule issueTokens_Inr)
  note new = insert_signin_Inr [OF *(4)]
  have same: "acc_sessions (au_db ?w) = acc_sessions (au_db w)"
    by (auto simp: rehash_def split: sum.splits dest: leavesD [OF user_tx_leaves(5)])
  have active: "Session_Active now (at_SessionID t) (ur_ID u) d"
    unfolding Session_Active_def new(1) using assms(8) by (simp add: new_session_def rehash_facts)
  have users: "acc_users (au_db w') = acc_users (au_db w)"
  proof -
    have "acc_users (d\<lparr>acc_sessions := acc_sessions (au_db ?w)\<rparr>) = acc_users d" by simp
    then show ?thesis unfolding new(3) by (simp add: *(5) rehash_facts)
  qed
  obtain key where "userByEmail key w = Some u" using assms(2) by (auto simp: credentials_def split: option.splits if_splits)
  then have user: "userByID (ur_ID u) w' = Some u"
    using userByID_unique [OF assms(3)] users by (simp add: userByID_def User_FindByID_def)
  have "ur_ID u \<noteq> []" "at_SessionID t \<noteq> []" using *(1,2) by (auto simp: TrimSpace_def)
  then have "token_verify L (au_secret w') clock now (au_db w') (at_AccessToken t)
      = Some \<lparr>tp_UserID = ur_ID u, tp_SessionID = at_SessionID t, tp_ExpiresAt = unix_seconds (ev_clock env + au_access_lifetime w)\<rparr>"
    using assms(4-7) active by (simp add: *(3,5) token_verify_sign rehash_facts)
  then have "Session_Authenticator L clock now (''Bearer '' @ at_AccessToken t) cookie w' = Some \<lparr>cl_UserID = ur_ID u, cl_SessionID = at_SessionID t\<rparr>"
    using bearer_request by (simp add: Session_Authenticator_def *(3))
  then show ?thesis using user enabled new(2) by (simp add: Auth_Authenticator_def same new_session_def)
qed

lemma demo_password: "valid_hash demo_auth demo_service demo_hash ''correct horse''"
proof -
  have "Split (CHR ''$'') demo_hash = [[], ''argon2id'', ''v=19'', ''m=8,t=1,p=1'', ''AAAAAAAAAAAAAAAAAAAAAA'', ''Y29ycg'']" by code_simp
  moreover have "hash_params [] (Split (CHR '','') ''m=8,t=1,p=1'') = Some [(''m'', 8), (''t'', 1), (''p'', 1)]"
    by (simp add: ParseUint32_def is_digit_def digit_val_def less_eq_char_def)
  moreover define want salt :: bytes where "want = bytes_of ''corr''" and "salt = replicate 16 0"
  have "raw_decode ''AAAAAAAAAAAAAAAAAAAAAA'' = Some salt" "raw_decode ''Y29ycg'' = Some want" unfolding want_def salt_def by code_simp+
  moreover have "argon (al_password demo_auth) (pepperInput (al_password demo_auth) (au_hasher demo_service) ''correct horse'') salt 1 8 1 (length want) = want"
    unfolding want_def salt_def by code_simp
  moreover have "length salt = 16" "want \<noteq> []" by (simp_all add: want_def salt_def bytes_of_def)
  ultimately show ?thesis unfolding valid_hash_def Verify_password_def by (simp del: hash_params.simps One_nat_def)
qed

definition demo_cat :: UserRecord where
  "demo_cat = \<lparr>ur_ID = ''cat'', ur_Username = ''cat@x.io'', ur_Email = ''cat@x.io'', ur_DisplayName = ''cat'', ur_Status = StatusActive, ur_Enabled = True\<rparr>"

lemma demo_credentials: "credentials demo_auth ''Cat@x.io'' ''correct horse'' demo_service = Some (demo_cat, demo_hash)"
proof -
  have "NormalizeEmail (al_is_ip demo_auth) ''Cat@x.io'' = Some ''cat@x.io''" "userByEmail ''cat@x.io'' demo_service = Some demo_cat"
    "User_PasswordHash (ur_ID demo_cat) (au_db demo_service) = Some demo_hash" "au_password_enabled demo_service" by code_simp+
  then show ?thesis by (simp add: credentials_def demo_password)
qed

theorem login_authenticates_witness:
  "\<exists>t w'. Login demo_auth (demo_env ''s9'') ''Cat@x.io'' ''correct horse'' demo_service = (Inr t, w')
     \<and> Auth_Authenticator demo_auth (demo_start + 60 * second) (demo_start + 60 * second) (''Bearer '' @ at_AccessToken t) None w'
         = Some \<lparr>cl_UserID = ''cat'', cl_SessionID = ''s9''\<rparr>"
proof -
  define r where "r = Login demo_auth (demo_env ''s9'') ''Cat@x.io'' ''correct horse'' demo_service"
  have "ur_Status demo_cat \<noteq> StatusPending" "ur_Enabled demo_cat" "\<not> NeedsRehash (au_hasher demo_service) demo_hash" by code_simp+
  then have r: "r = issueTokens demo_auth (demo_env ''s9'') ''cat'' demo_service"
    by (simp add: r_def Login_credentials demo_credentials rehash_def) (simp add: demo_cat_def)
  have "(case fst r of Inl _ \<Rightarrow> False | Inr t \<Rightarrow> at_SessionID t = ''s9'')" unfolding r by code_simp
  then obtain t w' where t: "r = (Inr t, w')" "at_SessionID t = ''s9''" by (cases r) (auto split: sum.splits)
  have "distinct (map us_id (acc_users (au_db demo_service)))" "valid_utf8 (ur_ID demo_cat)" "valid_utf8 ''s9''"
    "unix_seconds (demo_start + 60 * second) < unix_seconds (ev_clock (demo_env ''s9'') + au_access_lifetime demo_service)"
    "demo_start + 60 * second < ev_now (demo_env ''s9'') + au_access_lifetime demo_service" by code_simp+
  moreover have "al_unmarshal demo_auth (al_marshal demo_auth p) = Some p" for p by (simp add: demo_auth_def demo_json)
  ultimately have "Auth_Authenticator demo_auth (demo_start + 60 * second) (demo_start + 60 * second) (''Bearer '' @ at_AccessToken t) None w'
         = Some \<lparr>cl_UserID = ur_ID demo_cat, cl_SessionID = at_SessionID t\<rparr>"
    using login_authenticates [OF t(1) [unfolded r_def] demo_credentials] t(2) by simp
  then show ?thesis using t by (auto simp: r_def demo_cat_def)
qed

section \<open>Permissions\<close>

lemma EffectivePermissions_iff:
  "permission \<in> set (EffectivePermissions u d) \<longleftrightarrow>
     (\<exists>a \<in> set (acc_assignments d). ra_user_id a = u \<and> (\<exists>p \<in> set (acc_permissions d). snd p = permission \<and> (ra_role_id a, fst p) \<in> set (acc_role_permissions d)))"
  by (auto simp: EffectivePermissions_def)

text \<open>
  C20. What an authorized request rests on. Its token carries the MAC of the service's secret over an
  unexpired payload; the session that the payload names is open and belongs to the user, whose account is
  active; and a role that is assigned to the user has one of the permissions that the route accepts, under
  its name or its older alias. All of this is read from the tables at the time of the request.
\<close>

theorem authorized_request_grounded:
  assumes "authorize_request L clock now header cookie required w = Authorized c"
  shows "\<exists>token body signature p. request_token header cookie = Some token
      \<and> Split (CHR ''.'') token = [accessTokenVersion, body, signature]
      \<and> url_decode signature = Some (hmac (al_password L) (au_secret w) (bytes_of (accessTokenVersion @ ''.'' @ body)))
      \<and> map_option (al_unmarshal L) (url_decode body) = Some (Some p) \<and> unix_seconds clock < tp_ExpiresAt p
      \<and> c = \<lparr>cl_UserID = tp_UserID p, cl_SessionID = tp_SessionID p\<rparr>
      \<and> (\<exists>s \<in> set (acc_sessions (au_db w)). ss_id s = cl_SessionID c \<and> ss_user_id s = cl_UserID c \<and> ss_revoked_at s = None \<and> now < ss_access_expires_at s)
      \<and> (\<exists>u. User_FindByID (cl_UserID c) (au_db w) = Some u \<and> (ur_Status u = StatusActive \<or> ur_Status u = [] \<and> ur_Enabled u))
      \<and> (\<exists>wanted \<in> set (Split (CHR ''|'') required). \<exists>a \<in> set (acc_assignments (au_db w)). ra_user_id a = cl_UserID c
           \<and> (\<exists>perm \<in> set (acc_permissions (au_db w)). (ra_role_id a, fst perm) \<in> set (acc_role_permissions (au_db w))
                \<and> (snd perm = wanted \<or> snd perm = get_or [] permission_aliases wanted)))"
proof -
  have auth: "Auth_Authenticator L clock now header cookie w = Some c" and permitted: "hasPermission (EffectivePermissions (cl_UserID c) (au_db w)) required"
    using assms by (auto simp: authorize_request_def split: option.splits if_splits)
  have session: "Session_Authenticator L clock now header cookie w = Some c" and user: "\<exists>u. userByID (cl_UserID c) w = Some u \<and> ur_Enabled u"
    using auth by (auto simp: Auth_Authenticator_def split: option.splits if_splits)
  obtain token p where token: "request_token header cookie = Some token" "token_verify L (au_secret w) clock now (au_db w) token = Some p"
    "c = \<lparr>cl_UserID = tp_UserID p, cl_SessionID = tp_SessionID p\<rparr>"
    using session by (rule Session_Authenticator_Some)
  obtain version body signature where "Split (CHR ''.'') token = [version, body, signature]" "version = accessTokenVersion"
    "url_decode signature = Some (hmac (al_password L) (au_secret w) (bytes_of (version @ ''.'' @ body)))"
    "map_option (al_unmarshal L) (url_decode body) = Some (Some p)" "unix_seconds clock < tp_ExpiresAt p"
    using token(2) by (rule token_verify_Some)
  moreover note authenticated_session [OF session]
  moreover have "\<exists>u. User_FindByID (cl_UserID c) (au_db w) = Some u \<and> (ur_Status u = StatusActive \<or> ur_Status u = [] \<and> ur_Enabled u)"
    using user by (auto simp: userByID_def toAuthUser_def Let_def StatusActive_def StatusDisabled_def split: if_splits)
  moreover have "\<exists>wanted \<in> set (Split (CHR ''|'') required). \<exists>a \<in> set (acc_assignments (au_db w)). ra_user_id a = cl_UserID c
           \<and> (\<exists>perm \<in> set (acc_permissions (au_db w)). (ra_role_id a, fst perm) \<in> set (acc_role_permissions (au_db w))
                \<and> (snd perm = wanted \<or> snd perm = get_or [] permission_aliases wanted))"
    using permitted unfolding hasPermission_def list_ex_iff EffectivePermissions_iff by blast
  ultimately show ?thesis using token(1,3) by auto
qed

theorem authorized_request_grounded_witness:
  "\<exists>t. authorize_request demo_auth (demo_start + second) (demo_start + second) (''Bearer '' @ t) None ''task.read|runs.read'' demo_service
       = Authorized \<lparr>cl_UserID = ''cat'', cl_SessionID = ''s-cat''\<rparr>
     \<and> (\<exists>s \<in> set (acc_sessions demo_accounts). ss_id s = ''s-cat'' \<and> ss_user_id s = ''cat'' \<and> ss_revoked_at s = None)"
proof -
  define t where "t = token_sign demo_auth [7, 7] \<lparr>tp_UserID = ''cat'', tp_SessionID = ''s-cat'', tp_ExpiresAt = 1010\<rparr>"
  have ok: "authorize_request demo_auth (demo_start + second) (demo_start + second) (''Bearer '' @ t) None ''task.read|runs.read'' demo_service
       = Authorized \<lparr>cl_UserID = ''cat'', cl_SessionID = ''s-cat''\<rparr>" unfolding t_def by code_simp
  have "au_db demo_service = demo_accounts" by (simp add: demo_service_def)
  then show ?thesis using ok authorized_request_grounded [OF ok] by fastforce
qed

end
