(* ===== verification/AdministrationProperties.thy ===== *)
theory AdministrationProperties
  imports AccountProperties
begin

text \<open>
  The administration of accounts: the guard of the last administrator and how it is bypassed, and the
  roles that the groups of a sign-on provider give.
\<close>

section \<open>The guard of the last administrator\<close>

definition same_guard :: "AuthService \<Rightarrow> AuthService \<Rightarrow> bool" where
  "same_guard w w' \<longleftrightarrow> au_guard w' = au_guard w"

definition guard_ok :: "AuthService \<Rightarrow> bool" where
  "guard_ok w \<longleftrightarrow> au_guard w \<noteq> [] \<and> distinct (au_guard w)"

definition guard_kept :: "AuthService \<Rightarrow> AuthService \<Rightarrow> bool" where
  "guard_kept w w' \<longleftrightarrow> (guard_ok w \<longrightarrow> guard_ok w')"

interpretation same_guard: auth_relation same_guard
  by unfold_locales (simp_all add: same_guard_def)

interpretation guard_kept: auth_relation guard_kept
  by unfold_locales (simp_all add: guard_kept_def)

lemma same_guard_kept: "keeps same_guard m \<Longrightarrow> keeps guard_kept m"
  by (simp add: keeps_def same_guard_def guard_kept_def guard_ok_def)

lemma same_guard_db:
  "keeps same_guard (au_tx t)" "keeps same_guard (au_tx_as e t)" "keeps same_guard (au_write f)" "keeps same_guard (Logout now i)"
  "keeps same_guard (LogoutAll now u)"
  by (auto simp: keeps_def same_guard_def au_tx_def au_tx_as_def au_write_def Logout_def LogoutAll_def split: sum.splits)

lemma same_guard_modify: "(\<And>w. au_guard (f w) = au_guard w) \<Longrightarrow> keeps same_guard (au_modify f)"
  by (simp add: keeps_def same_guard_def au_modify_def)

lemma guard_add_kept: "keeps guard_kept (Guard_Add u)"
  by (simp add: keeps_def guard_kept_def guard_ok_def Guard_Add_def)

lemma guard_remove_kept:
  assumes "keeps same_guard m"
  shows "keeps guard_kept (Guard_Remove u m)"
  unfolding keeps_def
proof
  fix w
  have same: "au_guard (snd (m w)) = au_guard w" using assms by (simp add: keeps_def same_guard_def)
  have left: "filter (\<lambda>a. a \<noteq> u) xs \<noteq> []" if "distinct xs" "length xs > 1" for xs
  proof
    assume "filter (\<lambda>a. a \<noteq> u) xs = []"
    then have "set xs \<subseteq> {u}" by (auto simp: filter_empty_conv)
    then have "card (set xs) \<le> 1" using card_mono [of "{u}" "set xs"] by simp
    then show False using that by (simp add: distinct_card)
  qed
  show "guard_kept w (snd (Guard_Remove u m w))"
    using same left [of "au_guard w"]
    by (cases "m w") (auto simp: Guard_Remove_def guard_kept_def guard_ok_def split: sum.splits unit.splits)
qed

lemmas same_guard_keeps = same_guard.keeps_steps same_guard_db

lemmas guard_keeps = guard_kept.keeps_steps guard_add_kept guard_remove_kept same_guard_db [THEN same_guard_kept]

lemma guard_issue: "keeps same_guard (IssueForSession L clock u i)" "keeps same_guard (issueTokens L env u)"
proof -
  show issue: "keeps same_guard (IssueForSession L clock u i)" for clock u i unfolding IssueForSession_def by (intro same_guard_keeps)
  show "keeps same_guard (issueTokens L env u)" unfolding issueTokens_def by (intro same_guard_keeps issue)
qed

lemma guard_roles_kept: "keeps guard_kept (Grant u r)" "keeps guard_kept (Auth_Revoke u r)" "keeps guard_kept (AddRole r ps)"
  "keeps guard_kept (RoleAdmin_Create env n ps)" "keeps guard_kept (RoleAdmin_ReplacePermissions r ps)" "keeps guard_kept (RoleAdmin_Rename r n)"
  "keeps guard_kept (RoleAdmin_Delete r)" "keeps guard_kept (RoleAdmin_Seed r ps)" "keeps guard_kept (RoleAdmin_Assign u r)" "keeps guard_kept (RoleAdmin_Unassign u r)"
  unfolding Grant_def Auth_Revoke_def AddRole_def RoleAdmin_Create_def RoleAdmin_ReplacePermissions_def RoleAdmin_Rename_def RoleAdmin_Delete_def
    RoleAdmin_Seed_def RoleAdmin_Assign_def RoleAdmin_Unassign_def
  by (intro guard_keeps same_guard_keeps same_guard_modify [THEN same_guard_kept]; simp)+

lemma guard_registration: "keeps guard_kept (registrationRoles r b)" "keeps guard_kept (registerWithStatus L env email password b st)"
proof -
  show roles: "keeps guard_kept (registrationRoles r b)" for r b unfolding registrationRoles_def by (intro guard_keeps)
  show "keeps guard_kept (registerWithStatus L env email password b st)"
    unfolding registerWithStatus_def Let_def by (intro guard_keeps roles)
qed

lemma guard_accounts:
  "keeps guard_kept (Auth_Register L env email password)" "keeps guard_kept (EnsureBootstrap L env email password)"
  "keeps guard_kept (DisableUser now u)" "keeps guard_kept (ApproveUser now u)" "keeps guard_kept (UpdateProfile u n)"
  "keeps guard_kept (ChangePassword L env u old_password new_password)" "keeps guard_kept (LinkOIDC u p sub)" "keeps guard_kept (UnlinkOIDC u i)"
  unfolding Auth_Register_def EnsureBootstrap_def DisableUser_def ApproveUser_def UpdateProfile_def ChangePassword_def LinkOIDC_def UnlinkOIDC_def Let_def
  by (intro guard_keeps guard_roles_kept guard_registration same_guard_keeps)+

lemma guard_settings:
  "keeps guard_kept (UpdateAuthSettings b1 b2 r b3)" "keeps guard_kept (SetDefaultRoleID r)" "keeps guard_kept (UpdateLockdownScheduler b)"
  unfolding UpdateAuthSettings_def SetDefaultRoleID_def UpdateLockdownScheduler_def Let_def
  by (intro guard_keeps same_guard_modify [THEN same_guard_kept]; simp)+

lemma guard_signin:
  "keeps guard_kept (Login L env email password)" "keeps guard_kept (loginOIDC L env0 env p sub email b gs)" "keeps guard_kept (Refresh L env i token)"
proof -
  note issue = guard_issue [THEN same_guard_kept]
  show "keeps guard_kept (Login L env email password)" unfolding Login_def by (intro guard_keeps issue)
  have "keeps guard_kept (provisionOIDCUser env0 p sub email r b)" for p sub email r b
    unfolding provisionOIDCUser_def Let_def by (intro guard_keeps guard_registration)
  moreover have "keeps guard_kept (syncOIDCRoleAssignments u p gs)" for u p
    unfolding syncOIDCRoleAssignments_def by (intro guard_keeps)
  ultimately show "keeps guard_kept (loginOIDC L env0 env p sub email b gs)"
    unfolding loginOIDC_def Let_def by (intro guard_keeps issue)
  have "keeps same_guard (\<lambda>w1. case Rotate clock now i h s (au_db w1) of
      (Inl _, d) \<Rightarrow> (Inl AuthRefreshInvalid, w1\<lparr>au_db := d\<rparr>) | (Inr (), d) \<Rightarrow> (Inr t, w1\<lparr>au_db := d\<rparr>))" for clock now h s and t :: AuthTokens
    by (auto simp: keeps_def same_guard_def split: prod.splits sum.splits unit.splits)
  note rotate = this [THEN same_guard_kept]
  show "keeps guard_kept (Refresh L env i token)"
    unfolding Refresh_def by (intro guard_keeps issue) (rule rotate)
qed

lemma guard_perform:
  assumes "\<forall>es. op \<noteq> OpSystemAdmins es" "guard_ok w"
  shows "guard_ok (auth_perform L op w)"
proof (cases op)
  case (OpCleanup cutoff)
  then show ?thesis using assms(2) same_guard_db(1) [of "DeleteOlderThan cutoff", THEN same_guard_kept]
    by (simp add: auth_perform_def keeps_def guard_kept_def)
qed (use assms guard_roles_kept guard_accounts guard_settings guard_signin same_guard_db(4,5) [THEN same_guard_kept] in
      \<open>auto simp: auth_perform_def keeps_def guard_kept_def\<close>)

lemma guard_run:
  assumes "\<forall>es. OpSystemAdmins es \<notin> set ops" "guard_ok w"
  shows "guard_ok (auth_run L ops w)"
  using assms
proof (induction ops arbitrary: w)
  case (Cons op ops)
  have "guard_ok (auth_perform L op w)" using guard_perform Cons.prems by (metis list.set_intros(1))
  then show ?case using Cons by simp
qed simp

lemma Guard_Remove_last: "au_guard w = [a] \<Longrightarrow> Guard_Remove a m w = (Inl AuthLastAdministrator, w)"
  by (simp add: Guard_Remove_def)





section \<open>Roles from the groups of a provider\<close>

lemma insert_assignments_set:
  "insert_assignments b as d = Inr d' \<Longrightarrow> set (acc_assignments d') = set (acc_assignments d) \<union> set as"
proof (induction as arbitrary: d)
  case (Cons a as)
  then obtain d1 where d1: "insert_assignment b a d = Inr d1" "insert_assignments b as d1 = Inr d'" by (auto simp: res_bind_Inr)
  have "set (acc_assignments d1) = insert a (set (acc_assignments d))"
    using d1(1) by (auto simp: insert_assignment_def split: if_splits)
  then show ?case using Cons.IH [OF d1(2)] by auto
qed simp

lemma url_encode_dot: "CHR ''.'' \<notin> set (url_encode bs)"
  using url_encode_clean [of bs] by (auto simp: list_all_iff)

lemma url_encode_inject: "url_encode (bytes_of a) = url_encode (bytes_of b) \<longleftrightarrow> a = b"
  by (metis url_decode_encode text_of_bytes option.inject)

lemma prefix_key: "prefix (ssoAssignmentPrefix p) (SSOAssignmentKey q g) \<longleftrightarrow> q = p"
proof
  assume "prefix (ssoAssignmentPrefix p) (SSOAssignmentKey q g)"
  then obtain rest where "url_encode (bytes_of q) @ CHR ''.'' # url_encode (bytes_of g) = url_encode (bytes_of p) @ CHR ''.'' # rest"
    by (auto simp: ssoAssignmentPrefix_def SSOAssignmentKey_def prefix_def)
  from arg_cong [OF this, of "cut (CHR ''.'')"] show "q = p"
    by (simp add: cut_append url_encode_dot url_encode_inject)
qed (simp add: ssoAssignmentPrefix_def SSOAssignmentKey_def)

lemma sso_prefix_like:
  assumes "CHR ''_'' \<notin> set (url_encode (bytes_of p))"
  shows "sql_like (ssoAssignmentPrefix p @ ''%'') s \<longleftrightarrow> prefix (ssoAssignmentPrefix p) s"
proof -
  have "list_all (\<lambda>n. url_char (b64_char n) \<noteq> CHR ''%'' \<and> url_char (b64_char n) \<noteq> CHR 0x5C) [0..<64]" by code_simp
  then have "c \<noteq> CHR ''%'' \<and> c \<noteq> CHR 0x5C" if c: "c \<in> set (url_encode bs)" for c bs
  proof -
    obtain b where "b \<in> set (raw_encode bs)" "c = url_char b" using c unfolding url_encode_def set_map by blast
    then show ?thesis using raw_encode_clean [of b bs] \<open>list_all _ _\<close> by (auto simp: list_all_iff)
  qed
  then show ?thesis using assms by (intro sql_like_prefix) (auto simp: ssoAssignmentPrefix_def)
qed


definition demo_mapped :: AuthService where
  "demo_mapped = demo_service\<lparr>au_db := demo_accounts\<lparr>acc_mappings :=
     [\<lparr>gm_provider_id = ''idp'', gm_group_name = ''ops'', gm_role_id = ''system-admin''\<rparr>, \<lparr>gm_provider_id = ''idp'', gm_group_name = ''dev'', gm_role_id = ''system-user''\<rparr>]\<rparr>\<rparr>"


text \<open>
  An underscore in the encoding of a provider does match the keys of another provider, whose roles are
  then removed.
\<close>

lemma underscore_provider: "sql_like (ssoAssignmentPrefix ''ab?'' @ ''%'') (SSOAssignmentKey ''ab>'' ''ops'')"
  by code_simp

text \<open>
  The guard does not follow the roles that a sign-on takes away: an account that lost its role still
  counts as another administrator, and the last one can be disabled.
\<close>

definition stale_service :: AuthService where
  "stale_service = demo_service\<lparr>au_db := demo_accounts\<lparr>acc_assignments := [demo_assignment ''ann'' ''system-admin'' ''manual'',
     \<lparr>ra_user_id = ''bob'', ra_role_id = ''system-admin'', ra_source_type = ''sso'', ra_source_key = SSOAssignmentKey ''idp'' ''ops''\<rparr>]\<rparr>\<rparr>"

lemma stale_guard:
  "(let w1 = snd (syncOIDCRoleAssignments ''bob'' ''idp'' [] stale_service); r = DisableUser demo_start ''ann'' w1
    in fst r = Inr () \<and> \<not> list_ex (\<lambda>u. us_status u = StatusActive \<and> has_admin_role (us_id u) (au_db (snd r))) (acc_users (au_db (snd r))))"
  by code_simp

end
