(* ===== verification/RequestGates.thy ===== *)
theory RequestGates
  imports Texts
begin

text \<open>
  What a request passes before it is authenticated: the limiter of sign-in attempts
  (\<^verbatim>\<open>platform/rate_limit.go\<close>, \<^verbatim>\<open>api/auth_rate_limit.go\<close>) and the check of cross-site requests
  (\<^verbatim>\<open>api/csrf.go\<close>).
\<close>

section \<open>The limiter\<close>

record RateLimiter =
  lm_window :: duration
  lm_limit :: nat
  lm_maxEntries :: nat
  lm_items :: "(string, time list) gomap"
  lm_sourceItems :: "(string, time list) gomap"

definition NewRateLimiter :: "nat \<Rightarrow> duration \<Rightarrow> RateLimiter" where
  "NewRateLimiter limit window = \<lparr>lm_window = window, lm_limit = limit, lm_maxEntries = 10000, lm_items = [], lm_sourceItems = []\<rparr>"

definition active_times :: "time list \<Rightarrow> time \<Rightarrow> time list" where
  "active_times ts cutoff = filter (\<lambda>t. cutoff < t) ts"

text \<open>
  A full map makes room by deleting the entry that \<^verbatim>\<open>range\<close> visits first, which Go does not determine:
  \<open>first\<close> chooses it.
\<close>

definition make_room :: "(string list \<Rightarrow> string) \<Rightarrow> nat \<Rightarrow> string \<Rightarrow> (string, time list) gomap \<Rightarrow> (string, time list) gomap" where
  "make_room first n key m =
     (if map_of m key = None \<and> n \<le> length m then AList.delete (first (map fst m)) m else m)"

definition limiter_allow :: "(string list \<Rightarrow> string) \<Rightarrow> string \<Rightarrow> string \<Rightarrow> time \<Rightarrow> RateLimiter \<Rightarrow> bool \<times> RateLimiter" where
  "limiter_allow first key source now r =
     (let cutoff = now - lm_window r;
          ts = active_times (get_or [] (lm_items r) key) cutoff;
          source_ts = active_times (get_or [] (lm_sourceItems r) source) cutoff
      in if source \<noteq> [] \<and> length source_ts \<ge> lm_limit r * 10
         then (False, r\<lparr>lm_sourceItems := AList.update source source_ts (lm_sourceItems r), lm_items := AList.update key ts (lm_items r)\<rparr>)
         else (let r1 = (if source = [] then r
                         else r\<lparr>lm_sourceItems := AList.update source (source_ts @ [now]) (make_room first (lm_maxEntries r) source (lm_sourceItems r))\<rparr>)
               in if length ts \<ge> lm_limit r then (False, r1\<lparr>lm_items := AList.update key ts (lm_items r)\<rparr>)
                  else (True, r1\<lparr>lm_items := AList.update key (ts @ [now]) (make_room first (lm_maxEntries r) key (lm_items r))\<rparr>)))"

definition AllowSource :: "(string list \<Rightarrow> string) \<Rightarrow> string \<Rightarrow> string \<Rightarrow> time \<Rightarrow> RateLimiter \<Rightarrow> bool \<times> RateLimiter" where
  "AllowSource first key source now r = limiter_allow first key source now r"

definition Allow :: "(string list \<Rightarrow> string) \<Rightarrow> string \<Rightarrow> time \<Rightarrow> RateLimiter \<Rightarrow> bool \<times> RateLimiter" where
  "Allow first key now r = limiter_allow first key [] now r"

text \<open>\<open>split_host\<close> is \<^verbatim>\<open>net.SplitHostPort\<close>; a server without a limiter allows every attempt.\<close>

definition requestSource :: "(string \<Rightarrow> string option) \<Rightarrow> string \<Rightarrow> string" where
  "requestSource split_host remote = (case split_host remote of Some host \<Rightarrow> host | None \<Rightarrow> TrimSpace remote)"

definition allowAuth :: "(string \<Rightarrow> string option) \<Rightarrow> (string list \<Rightarrow> string) \<Rightarrow> string \<Rightarrow> string \<Rightarrow> time \<Rightarrow> RateLimiter option \<Rightarrow> bool \<times> RateLimiter option" where
  "allowAuth split_host first remote key now limiter =
     (case limiter of
        None \<Rightarrow> (True, None)
      | Some r \<Rightarrow> map_prod id Some (AllowSource first key (requestSource split_host remote) now r))"

section \<open>Cross-site requests\<close>

record csrf_request =
  rq_Method :: string
  rq_Path :: string
  rq_Origin :: string
  rq_csrf_cookie :: "string option"
  rq_csrf_header :: string

datatype csrf_error = CSRFNotConfigured | CSRFOrigin | CSRFCookie | CSRFToken

definition trim_slashes :: "string \<Rightarrow> string" where
  "trim_slashes s = rev (dropWhile (\<lambda>c. c = CHR ''/'') (rev s))"

definition ValidateCSRFRequest :: "string list \<Rightarrow> csrf_request \<Rightarrow> csrf_error + unit" where
  "ValidateCSRFRequest origins q =
     (if rq_Method q \<in> {''GET'', ''HEAD'', ''OPTIONS''} then Inr ()
      else if origins = [] then Inl CSRFNotConfigured
      else if \<not> list_ex (\<lambda>origin. trim_slashes (rq_Origin q) = trim_slashes origin) origins then Inl CSRFOrigin
      else (case rq_csrf_cookie q of
              None \<Rightarrow> Inl CSRFCookie
            | Some cookie \<Rightarrow>
                (if cookie = [] then Inl CSRFCookie
                 else if length (rq_csrf_header q) \<noteq> length cookie \<or> rq_csrf_header q \<noteq> cookie then Inl CSRFToken
                 else Inr ())))"

definition withCSRF :: "string list \<Rightarrow> csrf_request \<Rightarrow> bool" where
  "withCSRF origins q \<longleftrightarrow>
     rq_Path q = ''/docs/login'' \<or> rq_Path q = ''/api/v1/runners/enroll'' \<or> ValidateCSRFRequest origins q = Inr ()"

section \<open>How many attempts pass\<close>

text \<open>The attempts of a run, each with its answer.\<close>

fun limiter_run :: "(string list \<Rightarrow> string) \<Rightarrow> RateLimiter \<Rightarrow> (string \<times> string \<times> time) list \<Rightarrow> (string \<times> time \<times> bool) list \<times> RateLimiter" where
  "limiter_run first r [] = ([], r)"
| "limiter_run first r ((key, source, now) # qs) =
     (let (ok, r') = limiter_allow first key source now r; (answers, r'') = limiter_run first r' qs
      in ((key, now, ok) # answers, r''))"

definition admitted :: "string \<Rightarrow> (string \<times> time \<times> bool) list \<Rightarrow> time list" where
  "admitted key answers = map (\<lambda>(k, t, ok). t) (filter (\<lambda>(k, t, ok). k = key \<and> ok) answers)"

definition in_window :: "duration \<Rightarrow> time \<Rightarrow> time list \<Rightarrow> nat" where
  "in_window window t ts = length (filter (\<lambda>x. t - window < x \<and> x \<le> t) ts)"

text \<open>
  What the limiter knows: the times that it keeps of a key are, up to expired ones, those at which the
  key was admitted, and no window has more than the limit of them.
\<close>

definition limiter_inv :: "string set \<Rightarrow> time \<Rightarrow> (string \<Rightarrow> time list) \<Rightarrow> RateLimiter \<Rightarrow> bool" where
  "limiter_inv keys now past r \<longleftrightarrow>
     distinct (map fst (lm_items r)) \<and> fst ` set (lm_items r) \<subseteq> keys
     \<and> (\<forall>k. (\<forall>t \<in> set (past k). t \<le> now)
          \<and> active_times (get_or [] (lm_items r) k) (now - lm_window r) = active_times (past k) (now - lm_window r)
          \<and> (\<forall>t. in_window (lm_window r) t (past k) \<le> lm_limit r))"

lemma active_later:
  assumes "active_times a c = active_times b c" "c \<le> c'"
  shows "active_times a c' = active_times b c'"
proof -
  have "active_times x c' = active_times (active_times x c) c'" for x
    using assms(2) by (auto simp: active_times_def intro: filter_cong)
  then show ?thesis by (metis assms(1))
qed

lemma window_snoc:
  assumes "length (active_times past (now - w)) < limit" "\<forall>t. in_window w t past \<le> limit" "\<forall>x \<in> set past. x \<le> now"
  shows "in_window w t (past @ [now]) \<le> limit"
proof (cases "now \<le> t \<and> t - w < now")
  case True
  then have "filter (\<lambda>x. t - w < x \<and> x \<le> t) past = filter (\<lambda>x. t - w < x) (active_times past (now - w))"
    using assms(3) by (auto simp: active_times_def intro!: filter_cong)
  then have "in_window w t past \<le> length (active_times past (now - w))" by (simp add: in_window_def)
  then show ?thesis using assms(1) by (simp add: in_window_def)
next
  case False
  then have "in_window w t (past @ [now]) = in_window w t past" by (auto simp: in_window_def)
  then show ?thesis using assms(2) by simp
qed

lemma no_eviction:
  assumes "distinct (map fst m)" "fst ` set m \<subseteq> keys" "finite keys" "card keys \<le> n" "key \<in> keys"
  shows "make_room first n key m = m"
proof (cases "map_of m key = None")
  case True
  then have "fst ` set m \<subset> keys" using assms(2,5) by (auto simp: map_of_eq_None_iff)
  then have "length m < card keys"
    using assms(1,3) by (metis distinct_card length_map list.set_map psubset_card_mono)
  then show ?thesis using assms(4) by (simp add: make_room_def)
qed (auto simp: make_room_def)

lemma limiter_allow_facts:
  assumes "limiter_allow first key source now r = (ok, r')" "make_room first (lm_maxEntries r) key (lm_items r) = lm_items r"
  shows "lm_window r' = lm_window r" "lm_limit r' = lm_limit r" "lm_maxEntries r' = lm_maxEntries r"
    "lm_items r' = AList.update key (active_times (get_or [] (lm_items r) key) (now - lm_window r) @ (if ok then [now] else [])) (lm_items r)"
    "ok \<Longrightarrow> length (active_times (get_or [] (lm_items r) key) (now - lm_window r)) < lm_limit r"
  using assms by (auto simp: limiter_allow_def Let_def split: if_splits)

lemma limiter_step:
  assumes "limiter_inv keys before past r" "before \<le> now" "limiter_allow first key source now r = (ok, r')" "0 < lm_window r"
    and "finite keys" "card keys \<le> lm_maxEntries r" "key \<in> keys"
  shows "limiter_inv keys now (past(key := past key @ (if ok then [now] else []))) r'"
proof -
  have items: "distinct (map fst (lm_items r))" "fst ` set (lm_items r) \<subseteq> keys" using assms(1) by (auto simp: limiter_inv_def)
  note new = limiter_allow_facts [OF assms(3) no_eviction [OF items assms(5-7)]]
  have late: "active_times (get_or [] (lm_items r) k) (now - lm_window r) = active_times (past k) (now - lm_window r)" for k
  proof -
    have "active_times (get_or [] (lm_items r) k) (before - lm_window r) = active_times (past k) (before - lm_window r)"
      using assms(1) unfolding limiter_inv_def by blast
    then show ?thesis by (rule active_later) (simp add: assms(2))
  qed
  have old: "\<forall>t \<in> set (past k). t \<le> now" "\<forall>t. in_window (lm_window r) t (past k) \<le> lm_limit r" for k
    using assms(1,2) unfolding limiter_inv_def by (meson order_trans)+
  have again: "active_times (active_times ts c) c = active_times ts c" for ts c by (simp add: active_times_def)
  have snoc: "active_times (ts @ us) c = active_times ts c @ active_times us c" for ts us c by (simp add: active_times_def)
  have fresh: "ok \<Longrightarrow> in_window (lm_window r) t (past key @ [now]) \<le> lm_limit r" for t
    using window_snoc [of "past key" now "lm_window r" "lm_limit r" t] new(5) late [of key] old by simp
  have known: "active_times (get_or [] (lm_items r') k) (now - lm_window r) = active_times ((past(key := past key @ (if ok then [now] else []))) k) (now - lm_window r)" for k
    using late by (auto simp: new(4) again snoc)
  have "distinct (map fst (lm_items r'))" "fst ` set (lm_items r') \<subseteq> keys"
    unfolding new(4) using items assms(7) by (simp_all add: distinct_update dom_update)
  then show ?thesis unfolding limiter_inv_def new(1,2) using known old fresh by auto
qed

lemma limiter_run_inv:
  assumes "limiter_inv keys before past r" "sorted (map (snd \<circ> snd) qs)" "\<forall>q \<in> set qs. before \<le> snd (snd q) \<and> fst q \<in> keys" "0 < lm_window r"
    and "finite keys" "card keys \<le> lm_maxEntries r" "limiter_run first r qs = (answers, r')"
  shows "in_window (lm_window r) t (past key @ admitted key answers) \<le> lm_limit r"
  using assms
proof (induction qs arbitrary: before past r answers)
  case Nil
  then show ?case by (auto simp: limiter_inv_def admitted_def)
next
  case (Cons q qs)
  obtain k source now where q: "q = (k, source, now)" by (cases q)
  obtain ok r1 where allow: "limiter_allow first k source now r = (ok, r1)" by fastforce
  obtain answers1 where run: "limiter_run first r1 qs = (answers1, r')" "answers = (k, now, ok) # answers1"
    using Cons.prems(7) allow by (auto simp: q Let_def split: prod.splits)
  have items: "distinct (map fst (lm_items r))" "fst ` set (lm_items r) \<subseteq> keys" "k \<in> keys" using Cons.prems(1,3) by (auto simp: limiter_inv_def q)
  note same = limiter_allow_facts [OF allow no_eviction [OF items(1,2) Cons.prems(5,6) items(3)]]
  have step: "limiter_inv keys now (past(k := past k @ (if ok then [now] else []))) r1"
    using limiter_step [OF Cons.prems(1) _ allow Cons.prems(4-6) items(3)] Cons.prems(3) by (simp add: q)
  have later: "sorted (map (snd \<circ> snd) qs)" "\<forall>q \<in> set qs. now \<le> snd (snd q) \<and> fst q \<in> keys"
    using Cons.prems(2,3) by (auto simp: q comp_def)
  have room: "0 < lm_window r1" "card keys \<le> lm_maxEntries r1" using Cons.prems(4,6) same(1,3) by simp_all
  have "in_window (lm_window r1) t ((past(k := past k @ (if ok then [now] else []))) key @ admitted key answers1) \<le> lm_limit r1"
    by (rule Cons.IH [OF step later room(1) Cons.prems(5) room(2) run(1)])
  moreover have "(past(k := past k @ (if ok then [now] else []))) key @ admitted key answers1 = past key @ admitted key answers"
    by (auto simp: run(2) admitted_def)
  ultimately show ?case by (simp only: same(1,2))
qed

text \<open>
  C38. The limiter keeps its limit. In a run of attempts in the order of time, no key is admitted more
  often than the limit within any window, whatever the sources, as long as no more different keys are used
  than the map of the limiter holds.
\<close>

theorem attempts_limited:
  assumes "limiter_run first (NewRateLimiter limit window) qs = (answers, r')" "sorted (map (snd \<circ> snd) qs)" "0 < window"
    and "card (fst ` set qs) \<le> 10000"
  shows "in_window window t (admitted key answers) \<le> limit"
proof (cases qs)
  case Nil
  then show ?thesis using assms(1) by (auto simp: admitted_def in_window_def)
next
  case (Cons q qs')
  have start: "limiter_inv (fst ` set qs) (snd (snd q)) (\<lambda>_. []) (NewRateLimiter limit window)"
    by (simp add: limiter_inv_def NewRateLimiter_def get_or_def active_times_def in_window_def)
  have "\<forall>p \<in> set qs. snd (snd q) \<le> snd (snd p) \<and> fst p \<in> fst ` set qs" using assms(2) by (auto simp: Cons)
  then show ?thesis
    using limiter_run_inv [OF start assms(2) _ _ _ _ assms(1), of t key] assms(3,4) by (simp add: NewRateLimiter_def)
qed

theorem attempts_limited_witness:
  "in_window 60 100 (admitted ''cat'' (fst (limiter_run hd (NewRateLimiter 2 60)
      [(''cat'', ''h1'', 10), (''ann'', ''h1'', 20), (''cat'', ''h2'', 50), (''cat'', ''h1'', 60), (''cat'', ''h1'', 105)]))) \<le> 2
   \<and> map (snd \<circ> snd) (fst (limiter_run hd (NewRateLimiter 2 60)
      [(''cat'', ''h1'', 10), (''ann'', ''h1'', 20), (''cat'', ''h2'', 50), (''cat'', ''h1'', 60), (''cat'', ''h1'', 105)])) = [True, True, True, False, True]"
proof
  define qs :: "(string \<times> string \<times> time) list"
    where "qs = [(''cat'', ''h1'', 10), (''ann'', ''h1'', 20), (''cat'', ''h2'', 50), (''cat'', ''h1'', 60), (''cat'', ''h1'', 105)]"
  have "card (fst ` set qs) \<le> 10000" by (simp add: qs_def card_insert_if)
  moreover have "sorted (map (snd \<circ> snd) qs)" by (simp add: qs_def)
  ultimately show "in_window 60 100 (admitted ''cat'' (fst (limiter_run hd (NewRateLimiter 2 60)
      [(''cat'', ''h1'', 10), (''ann'', ''h1'', 20), (''cat'', ''h2'', 50), (''cat'', ''h1'', 60), (''cat'', ''h1'', 105)]))) \<le> 2"
    using attempts_limited [of hd 2 60 qs "fst (limiter_run hd (NewRateLimiter 2 60) qs)" "snd (limiter_run hd (NewRateLimiter 2 60) qs)" 100 "''cat''"]
    unfolding qs_def [symmetric] by simp
  show "map (snd \<circ> snd) (fst (limiter_run hd (NewRateLimiter 2 60)
      [(''cat'', ''h1'', 10), (''ann'', ''h1'', 20), (''cat'', ''h2'', 50), (''cat'', ''h1'', 60), (''cat'', ''h1'', 105)])) = [True, True, True, False, True]"
    by (simp add: NewRateLimiter_def limiter_allow_def active_times_def get_or_def make_room_def)
qed

text \<open>
  An attempt that the limit of its source refuses still enters its key into the map, full or not: the
  map of keys has no ceiling against one source that changes its keys.
\<close>

lemma refused_source_grows:
  assumes "source \<noteq> []" "lm_limit r * 10 \<le> length (active_times (get_or [] (lm_sourceItems r) source) (now - lm_window r))" "map_of (lm_items r) key = None"
  shows "fst (limiter_allow first key source now r) = False \<and> length (lm_items (snd (limiter_allow first key source now r))) = length (lm_items r) + 1"
proof -
  have "length (AList.update key v m) = length m + 1" if "map_of m key = None" for v and m :: "(string \<times> time list) list"
    using that by (induction m) (auto split: if_splits)
  then show ?thesis using assms by (simp add: limiter_allow_def Let_def)
qed

section \<open>What passes the check of cross-site requests\<close>

text \<open>A request that changes state passes only from a configured origin and with the token of its own cookie.\<close>

lemma ValidateCSRFRequest_Inr:
  assumes "ValidateCSRFRequest origins q = Inr ()" "rq_Method q \<notin> {''GET'', ''HEAD'', ''OPTIONS''}"
  shows "(\<exists>origin \<in> set origins. trim_slashes (rq_Origin q) = trim_slashes origin) \<and> rq_csrf_header q \<noteq> [] \<and> rq_csrf_cookie q = Some (rq_csrf_header q)"
  using assms by (auto simp: ValidateCSRFRequest_def list_ex_iff split: if_splits option.splits)

end
