(* ===== verification/Spec2Isabelle.thy ===== *)
theory Spec2Isabelle
  imports ScheduleProperties SchedulePolicy WorkerRuntimeFacts CoordinationFacts ProjectionFacts RunnerFacts DeadLetterFacts
    AdministrationProperties RequestGates
begin

text \<open>
  Verification of Glyphflow, a distributed job scheduler in Go. A control plane turns schedules into
  runs, picks a runner for each run and sends it a signed order over a message queue; a worker on the
  runner asks whether it may start, fetches the secrets of the order, runs the command and reports what
  happened in signed events, which the control plane applies to the run. People and machines reach the
  control plane through accounts, roles and sign-in sessions. All paths below are relative to
  \<^verbatim>\<open>src/backend/internal\<close>.

  \<^bold>\<open>How the code is read.\<close> A struct is a record, a table of the database a list of records, a transaction
  a function from the tables to an error (and then nothing is written) or a result with the new tables.
  Errors and panics are values. Machine integers are words, or integers with the wrap-around written
  out; a \<^verbatim>\<open>time.Time\<close> is the number of nanoseconds since Go's zero time. Texts are byte strings, and
  lower case, upper case and white space are those of ASCII. What the process takes from outside (clocks, random
  identifiers, the answers of the operating system) is an argument. JSON, flate, Ed25519, HMAC, SHA-256,
  AES-GCM, Argon2id, time zone data and the message broker are parameters; what a theorem needs of them is one of its
  hypotheses, and its witness instantiates them.

  \<^bold>\<open>Which theory models what.\<close>

  \<^item> \<open>Prelude\<close>: Go's integers, times, strings and maps, the SQL statements of the stores, shared lemmas.
    \<open>Texts\<close>: UTF-8, base64 without padding, \<^verbatim>\<open>LIKE\<close>, e-mail addresses (\<^verbatim>\<open>platform/email.go\<close>).
    \<open>TimeFormat\<close>, \<open>Calendar\<close>: the textual form of instants and the civil calendar.
  \<^item> \<open>Codec\<close>, \<open>Protocol\<close>, \<open>ProtocolFacts\<close>: the message protocol (\<^verbatim>\<open>protocol/*.go\<close>): frames, envelopes, domains
    of signatures, key rings, the checks of orders and events, the replay guard and its log. An order passes
    at most once through any acceptor that satisfies the locale \<open>replay_acceptor\<close>, which both the memory
    guard and the durable one do.
  \<^item> \<open>Database\<close>, \<open>RunStore\<close>: the tables (\<^verbatim>\<open>migrations/001_canonical.sql\<close>) and the transactions of
    \<^verbatim>\<open>store/runs.go\<close>. \<open>RunInvariant\<close>: the agreement of runs, attempts, leases and runner
    capacity, kept by every transaction. \<open>RunProperties\<close>, \<open>DispatchProperties\<close>: exclusive execution,
    finality of finished runs, the order of events, the choice of run and runner, fencing tokens, retries.
  \<^item> \<open>Runners\<close>, \<open>RunnerFacts\<close>: pools, runners, keys, enrollments, sessions, heartbeats and archiving
    (\<^verbatim>\<open>store/runners.go\<close>, \<^verbatim>\<open>store/runner_metrics.go\<close>), and their interleaving with the run store.
  \<^item> \<open>Cron\<close>, \<open>CronFacts\<close>: cron fields and the next firing (\<^verbatim>\<open>controlplane/scheduler.go\<close>). \<open>ScheduleStore\<close>,
    \<open>ScheduleProperties\<close>: schedules, their versions and the round of the scheduler (\<^verbatim>\<open>store/schedules.go\<close>,
    \<^verbatim>\<open>controlplane/schedule_runner.go\<close>). \<open>SchedulePolicy\<close>: \<^verbatim>\<open>controlplane/policy.go\<close>, \<^verbatim>\<open>controlplane/due.go\<close>.
    \<open>Projection\<close>, \<open>ProjectionFacts\<close>: future occurrences and their conflicts (\<^verbatim>\<open>controlplane/projection.go\<close>).
    \<open>GlobalVariables\<close>: references to variables (\<^verbatim>\<open>platform/global_variables.go\<close>).
  \<^item> \<open>Dispatcher\<close>, \<open>DispatcherFacts\<close>: the servers between the store and the queue (\<^verbatim>\<open>controlplane/dispatcher.go\<close>,
    \<^verbatim>\<open>start_claim.go\<close>, \<^verbatim>\<open>secret_delivery.go\<close>, \<^verbatim>\<open>heartbeat.go\<close>) with the requests of the worker they answer. The
    dispatcher refines the run store; an order that it seals is accepted by its runner; the start claim over the
    queue is the transaction \<open>ClaimStart\<close>.
  \<^item> \<open>DeadLetters\<close>, \<open>DeadLetterFacts\<close>: messages that cannot be processed (\<^verbatim>\<open>queue/nats.go\<close>,
    \<^verbatim>\<open>store/dead_letters.go\<close>, \<^verbatim>\<open>api/dead_letters.go\<close>).
  \<^item> \<open>WorkerStore\<close>, \<open>WorkerProperties\<close>, \<open>WorkerExecutor\<close>, \<open>WorkerRuntime\<close>, \<open>WorkerRuntimeFacts\<close>: the worker
    (\<^verbatim>\<open>worker/store.go\<close>, \<^verbatim>\<open>recovery.go\<close>, \<^verbatim>\<open>worker.go\<close>, \<^verbatim>\<open>runtime.go\<close>): its durable inbox and outbox, how it runs
    a command and collects output, and the life of an order in it, over any sequence of deliveries and restarts.
  \<^item> \<open>Recovery\<close>, \<open>Coordination\<close>, \<open>CoordinationFacts\<close>: retry rules, storage pressure, leases, event order, capacity,
    placement and bounded logs in memory (\<^verbatim>\<open>platform/recovery.go\<close>, \<^verbatim>\<open>storage.go\<close>, \<^verbatim>\<open>leases.go\<close>, \<^verbatim>\<open>events.go\<close>,
    \<^verbatim>\<open>resources.go\<close>, \<^verbatim>\<open>placement.go\<close>, \<^verbatim>\<open>execution.go\<close>).
  \<^item> \<open>Passwords\<close>: \<^verbatim>\<open>platform/password.go\<close>. \<open>Accounts\<close>: the stores of users, sessions, roles, sign-on providers and
    configuration (\<^verbatim>\<open>store/users.go\<close>, \<^verbatim>\<open>sessions.go\<close>, \<^verbatim>\<open>roles.go\<close>, \<^verbatim>\<open>sso.go\<close>, \<^verbatim>\<open>config.go\<close>). \<open>Authentication\<close>:
    the service on top of them (\<^verbatim>\<open>api/auth_service.go\<close>, \<^verbatim>\<open>api/session.go\<close>, \<^verbatim>\<open>api/roles.go\<close>,
    \<^verbatim>\<open>platform/admin.go\<close>). \<open>AuthenticationFacts\<close>, \<open>AccountProperties\<close>, \<open>AdministrationProperties\<close>: refresh sessions,
    sign-out, access tokens, permissions, the guard of the last administrator, roles from sign-on groups.
    \<open>RequestGates\<close>: the limiter of attempts and the check of cross-site requests (\<^verbatim>\<open>platform/rate_limit.go\<close>,
    \<^verbatim>\<open>api/csrf.go\<close>).
  \<^item> This theory: what spans the worker and the control plane.

  \<^bold>\<open>Interfaces.\<close> Clients rely on locales: \<open>replay_acceptor\<close> for the verifier of orders, \<open>next_fire\<close> for the
  scheduler and the projection, and \<open>auth_relation\<close> with \<open>auth_final\<close> for relations that every operation of the
  authentication service keeps, among others. Each is interpreted on the definitions of the model.

  \<^bold>\<open>Bounds.\<close> The loop that collects the values of a cron field adds the step with wrap-around and has fuel 200;
  \<open>parseCronField_returns\<close> shows that it suffices for every field. The search for the next firing visits
  at most the eight years of minutes that the code visits (\<open>cron_window\<close>). A message is delivered five times and
  a dead letter retried ten times, as the code says. Loops of servers are sequences of turns of any length.

  \<^bold>\<open>Not modelled.\<close> The routing, decoding and rendering of the HTTP API and its audit trail
  (\<^verbatim>\<open>api/infrastructure.go\<close>, \<^verbatim>\<open>operations.go\<close>, \<^verbatim>\<open>audit.go\<close> and others), the discovery and code exchange of OpenID
  (\<^verbatim>\<open>api/oidc_auth.go\<close>, \<^verbatim>\<open>platform/oidc.go\<close>), connection handling and the rewriting of statements for SQLite
  (\<^verbatim>\<open>store/database.go\<close>, \<^verbatim>\<open>store/sqlite.go\<close>), migrations, the stores of task definitions, resources, retention and audit,
  metrics, certificates, the in-memory repositories that tests use in place of the database, configuration, start-up
  and the user interfaces: they are input and output around the decisions that are modelled, or calls of
  libraries. Transactions are atomic and isolated, as those of the database.
\<close>

section \<open>From the process to the run\<close>


definition killed_result :: executionResult where
  "killed_result = \<lparr>xr_output = [], xr_exitCode = Some (- 1), xr_runErr = None, xr_streamed = False, xr_maxMemory = 0, xr_averageMemory = 0\<rparr>"

definition killed_event :: EventPayload where
  "killed_event = forged_event\<lparr>evt_EventID := ''event-3'', evt_Sequence := 3, evt_Type := EventCancelled, evt_ExitCode := Some (- 1)\<rparr>"


end
